(* ===== verification/Prelude.thy ===== *)
theory Prelude
  imports Main "HOL-Library.Finite_Map" "HOL-Library.Word" "HOL-Library.Char_ord"
    "HOL-Library.List_Lexorder"
begin

text \<open>
  Shared vocabulary of the development.  Rust's \<open>Result<T, E>\<close> is \<open>E + T\<close> (\<open>Inl\<close> is
  \<open>Err\<close>), a \<open>BTreeMap\<close> is a finite map, a \<open>Vec\<close> is a list, a \<open>String\<close> is the list of its
  UTF-8 bytes (so \<open>length\<close> is Rust's \<open>len()\<close>), and \<open>usize\<close>/\<open>u64\<close> counters are natural numbers
  whose subtraction is only used where the source writes \<open>saturating_sub\<close> or has checked
  the order before.  The theory holds the \<open>?\<close> operator, the \<open>Vec\<close> operations that Rust
  defines by position, white-space trimming as \<open>str::trim\<close> does it, decimal printing, and
  the lemma collections the component proofs share.
\<close>

named_theorems result_simps \<open>unfolding of the \<open>?\<close> operator\<close>
named_theorems vec_simps \<open>positional list operations\<close>

section \<open>Results\<close>

type_synonym ('e, 'a) result = "'e + 'a"

definition try_bind :: "('e, 'a) result \<Rightarrow> ('a \<Rightarrow> ('e, 'b) result) \<Rightarrow> ('e, 'b) result" where
  "try_bind r f = (case r of Inl e \<Rightarrow> Inl e | Inr a \<Rightarrow> f a)"

definition map_err :: "('e \<Rightarrow> 'f) \<Rightarrow> ('e, 'a) result \<Rightarrow> ('f, 'a) result" where
  "map_err g r = (case r of Inl e \<Rightarrow> Inl (g e) | Inr a \<Rightarrow> Inr a)"

definition ok_or :: "'e \<Rightarrow> 'a option \<Rightarrow> ('e, 'a) result" where
  "ok_or e x = (case x of None \<Rightarrow> Inl e | Some a \<Rightarrow> Inr a)"

definition is_ok :: "('e, 'a) result \<Rightarrow> bool" where
  "is_ok r = (case r of Inl _ \<Rightarrow> False | Inr _ \<Rightarrow> True)"

lemma try_bind_simps [simp]:
  "try_bind (Inl e) f = Inl e"
  "try_bind (Inr a) f = f a"
  by (simp_all add: try_bind_def)

lemma try_bind_Inr_iff [result_simps]:
  "try_bind r f = Inr b \<longleftrightarrow> (\<exists>a. r = Inr a \<and> f a = Inr b)"
  by (cases r) auto

lemma try_bind_Inl_iff [result_simps]:
  "try_bind r f = Inl e \<longleftrightarrow> r = Inl e \<or> (\<exists>a. r = Inr a \<and> f a = Inl e)"
  by (cases r) auto

lemma map_err_simps [simp]:
  "map_err g (Inl e) = Inl (g e)"
  "map_err g (Inr a) = Inr a"
  by (simp_all add: map_err_def)

lemma map_err_Inr_iff [result_simps]: "map_err g r = Inr a \<longleftrightarrow> r = Inr a"
  by (cases r) auto

lemma map_err_Inl_iff [result_simps]: "map_err g r = Inl e \<longleftrightarrow> (\<exists>e'. r = Inl e' \<and> e = g e')"
  by (cases r) auto

lemma ok_or_simps [simp]:
  "ok_or e None = Inl e"
  "ok_or e (Some a) = Inr a"
  by (simp_all add: ok_or_def)

lemma ok_or_Inr_iff [result_simps]: "ok_or e x = Inr a \<longleftrightarrow> x = Some a"
  by (cases x) auto

lemma ok_or_Inl_iff [result_simps]: "ok_or e x = Inl e' \<longleftrightarrow> x = None \<and> e' = e"
  by (cases x) auto

lemma is_ok_simps [simp]: "\<not> is_ok (Inl e)" "is_ok (Inr a)"
  by (simp_all add: is_ok_def)

section \<open>Vectors\<close>

text \<open>
  \<open>Vec::insert\<close> and \<open>Vec::remove\<close> panic out of range; every call in the model is guarded by
  the same test as in the source, and the lemmas below carry the range as a premise.
\<close>

definition vec_insert :: "nat \<Rightarrow> 'a \<Rightarrow> 'a list \<Rightarrow> 'a list" where
  "vec_insert i x xs = take i xs @ x # drop i xs"

definition vec_remove :: "nat \<Rightarrow> 'a list \<Rightarrow> 'a list" where
  "vec_remove i xs = take i xs @ drop (Suc i) xs"

fun vec_position :: "('a \<Rightarrow> bool) \<Rightarrow> 'a list \<Rightarrow> nat option" where
  "vec_position P [] = None"
| "vec_position P (x # xs) = (if P x then Some 0 else map_option Suc (vec_position P xs))"

lemma set_vec_insert [vec_simps]: "set (vec_insert i x xs) = insert x (set xs)"
  unfolding vec_insert_def by simp (metis Un_insert_left append_take_drop_id set_append sup_commute)

lemma length_vec_insert [vec_simps]: "length (vec_insert i x xs) = Suc (length xs)"
  unfolding vec_insert_def by (simp add: min_def)

lemma length_vec_remove [vec_simps]: "i < length xs \<Longrightarrow> length (vec_remove i xs) = length xs - 1"
  unfolding vec_remove_def by simp

lemma vec_position_Some [vec_simps]:
  "vec_position P xs = Some i \<Longrightarrow> i < length xs \<and> P (xs ! i) \<and> (\<forall>j < i. \<not> P (xs ! j))"
proof (induction xs arbitrary: i)
  case Nil
  then show ?case by simp
next
  case (Cons x xs)
  show ?case
  proof (cases "P x")
    case True
    with Cons.prems show ?thesis by simp
  next
    case False
    with Cons.prems obtain k where k: "vec_position P xs = Some k" "i = Suc k" by auto
    from Cons.IH[OF k(1)] False k(2) show ?thesis
      by (auto simp: less_Suc_eq_0_disj)
  qed
qed

lemma vec_position_None: "vec_position P xs = None \<longleftrightarrow> (\<forall>x \<in> set xs. \<not> P x)"
  by (induction xs) auto

lemma vec_position_ex: "x \<in> set xs \<Longrightarrow> P x \<Longrightarrow> \<exists>i. vec_position P xs = Some i"
  by (meson not_None_eq vec_position_None)

lemma vec_insert_remove [simp]: "i \<le> length xs \<Longrightarrow> vec_remove i (vec_insert i x xs) = xs"
  unfolding vec_remove_def vec_insert_def by simp

lemma vec_remove_insert [simp]: "i < length xs \<Longrightarrow> vec_insert i (xs ! i) (vec_remove i xs) = xs"
  unfolding vec_remove_def vec_insert_def
  by (simp add: id_take_nth_drop[symmetric] min_def)

lemma distinct_vec_insert [vec_simps]:
  "distinct (vec_insert i x xs) \<longleftrightarrow> distinct xs \<and> x \<notin> set xs"
proof -
  obtain ys zs where s: "ys = take i xs" "zs = drop i xs" by blast
  then have "xs = ys @ zs" by simp
  then have "distinct (ys @ x # zs) \<longleftrightarrow> distinct xs \<and> x \<notin> set xs" by auto
  then show ?thesis unfolding vec_insert_def s by simp
qed

lemma distinct_vec_remove [vec_simps]:
  assumes "distinct xs"
  shows "distinct (vec_remove i xs)"
proof (cases "i < length xs")
  case True
  obtain ys zs where s: "ys = take i xs" "zs = drop (Suc i) xs" by blast
  with id_take_nth_drop[OF True] have "xs = ys @ xs ! i # zs" by simp
  with assms have "distinct (ys @ xs ! i # zs)" by simp
  then have "distinct (ys @ zs)" by auto
  then show ?thesis unfolding vec_remove_def s .
next
  case False
  with assms show ?thesis unfolding vec_remove_def by simp
qed

lemma set_vec_remove [vec_simps]:
  assumes "distinct xs" "i < length xs"
  shows "set (vec_remove i xs) = set xs - {xs ! i}"
proof -
  have eq: "xs = take i xs @ xs ! i # drop (Suc i) xs"
    by (rule id_take_nth_drop) (rule assms(2))
  with assms(1) have "distinct (take i xs @ xs ! i # drop (Suc i) xs)" by simp
  then have "xs ! i \<notin> set (take i xs)" "xs ! i \<notin> set (drop (Suc i) xs)" by auto
  moreover have "set xs = set (take i xs) \<union> {xs ! i} \<union> set (drop (Suc i) xs)"
    by (subst eq) simp
  ultimately show ?thesis unfolding vec_remove_def by auto
qed

text \<open>\<open>Vec::retain(|v| v != x)\<close> undoes an insertion of a fresh element.\<close>

lemma filter_vec_insert [simp]:
  "x \<notin> set xs \<Longrightarrow> filter (\<lambda>v. v \<noteq> x) (vec_insert i x xs) = xs"
proof -
  assume a: "x \<notin> set xs"
  have "filter (\<lambda>v. v \<noteq> x) ys = ys" if "set ys \<subseteq> set xs" for ys
    using that a by (intro filter_True) auto
  from this[of "take i xs"] this[of "drop i xs"] show ?thesis
    unfolding vec_insert_def by (simp add: set_take_subset set_drop_subset)
qed

lemma filter_vec_remove:
  assumes "distinct xs" "i < length xs"
  shows "filter (\<lambda>v. v \<noteq> xs ! i) xs = vec_remove i xs"
proof -
  have "xs ! i \<notin> set (vec_remove i xs)" using set_vec_remove[OF assms] by simp
  then show ?thesis by (metis assms(2) filter_vec_insert vec_remove_insert)
qed

section \<open>Strings\<close>

text \<open>
  \<open>white_len s\<close> is the number of bytes of the white-space character (Unicode property
  \<open>White_Space\<close>) a UTF-8 string starts with, 0 if it starts with another character.  The
  same byte sequences at the end of a UTF-8 string are a white-space character too, because
  UTF-8 is self-synchronising.
\<close>

definition byte_of :: "char \<Rightarrow> nat" where
  "byte_of c = of_char c"

fun white_len :: "string \<Rightarrow> nat" where
  "white_len [] = 0"
| "white_len (a # s) =
     (let x = byte_of a in
      if 9 \<le> x \<and> x \<le> 13 \<or> x = 32 then 1
      else (case s of
          [] \<Rightarrow> 0
        | b # t \<Rightarrow>
            (let y = byte_of b in
            if x = 194 \<and> (y = 133 \<or> y = 160) then 2
            else (case t of
                [] \<Rightarrow> 0
              | c # _ \<Rightarrow>
                  (let z = byte_of c in
                  if x = 225 \<and> y = 154 \<and> z = 128 then 3
                  else if x = 226 \<and> y = 128 \<and> (128 \<le> z \<and> z \<le> 138 \<or> z = 168 \<or> z = 169 \<or> z = 175) then 3
                  else if x = 226 \<and> y = 129 \<and> z = 159 then 3
                  else if x = 227 \<and> y = 128 \<and> z = 128 then 3
                  else 0)))))"

lemma white_len_le: "white_len s \<le> length s"
  by (cases s) (auto simp: Let_def split: list.splits)

function trim_start :: "string \<Rightarrow> string" where
  "trim_start s = (if white_len s = 0 then s else trim_start (drop (white_len s) s))"
  by pat_completeness auto
termination
proof (relation "measure length", goal_cases)
  case 1
  then show ?case by simp
next
  case (2 s)
  then show ?case using white_len_le[of s] by (cases s) auto
qed

declare trim_start.simps [simp del]

definition white_suffix_len :: "string \<Rightarrow> nat" where
  "white_suffix_len s =
     (if white_len (drop (length s - 1) s) = 1 then 1
      else if 2 \<le> length s \<and> white_len (drop (length s - 2) s) = 2 then 2
      else if 3 \<le> length s \<and> white_len (drop (length s - 3) s) = 3 then 3
      else 0)"

lemma white_suffix_len_le: "white_suffix_len s \<le> length s"
  unfolding white_suffix_len_def by (cases s) auto

function trim_end :: "string \<Rightarrow> string" where
  "trim_end s = (if white_suffix_len s = 0 then s else trim_end (take (length s - white_suffix_len s) s))"
  by pat_completeness auto
termination
proof (relation "measure length", goal_cases)
  case 1
  then show ?case by simp
next
  case (2 s)
  then show ?case using white_suffix_len_le[of s]
    by (cases s) (auto simp: min_def)
qed

declare trim_end.simps [simp del]

definition trim :: "string \<Rightarrow> string" where
  "trim s = trim_end (trim_start s)"

lemma trim_start_length: "length (trim_start s) \<le> length s"
proof (induction s rule: trim_start.induct)
  case (1 s)
  show ?case
  proof (cases "white_len s = 0")
    case True
    then show ?thesis by (subst trim_start.simps) simp
  next
    case False
    with 1 have "length (trim_start (drop (white_len s) s)) \<le> length s" by fastforce
    with False show ?thesis by (subst trim_start.simps) simp
  qed
qed

lemma trim_end_length: "length (trim_end s) \<le> length s"
proof (induction s rule: trim_end.induct)
  case (1 s)
  show ?case
  proof (cases "white_suffix_len s = 0")
    case True
    then show ?thesis by (subst trim_end.simps) simp
  next
    case False
    with 1 have "length (trim_end (take (length s - white_suffix_len s) s)) \<le> length s" by fastforce
    with False show ?thesis by (subst trim_end.simps) simp
  qed
qed

lemma trim_length: "length (trim s) \<le> length s"
  unfolding trim_def using trim_start_length trim_end_length le_trans by blast

lemma trim_end_Nil [simp]: "trim_end [] = []"
  by (subst trim_end.simps) (simp add: white_suffix_len_def)

text \<open>\<open>char::is_ascii_alphanumeric\<close> and decimal printing of an unsigned number.\<close>

definition is_ascii_alphanumeric :: "char \<Rightarrow> bool" where
  "is_ascii_alphanumeric c =
     (let x = byte_of c in
      48 \<le> x \<and> x \<le> 57 \<or> 65 \<le> x \<and> x \<le> 90 \<or> 97 \<le> x \<and> x \<le> 122)"

definition to_ascii_lower :: "char \<Rightarrow> char" where
  "to_ascii_lower c = (if 65 \<le> byte_of c \<and> byte_of c \<le> 90 then char_of (byte_of c + 32) else c)"

definition to_ascii_lowercase :: "string \<Rightarrow> string" where
  "to_ascii_lowercase s = map to_ascii_lower s"

fun show_nat :: "nat \<Rightarrow> string" where
  "show_nat n = (if n < 10 then [char_of (48 + n)] else show_nat (n div 10) @ [char_of (48 + n mod 10)])"

declare show_nat.simps [simp del]

definition strip_prefix :: "string \<Rightarrow> string \<Rightarrow> string option" where
  "strip_prefix p s = (if take (length p) s = p then Some (drop (length p) s) else None)"

lemma strip_prefix_Some_iff: "strip_prefix p s = Some r \<longleftrightarrow> s = p @ r"
  unfolding strip_prefix_def by (auto split: if_splits) (metis append_take_drop_id)

section \<open>Finite maps\<close>

text \<open>The values of a \<open>BTreeMap\<close> in key order, as \<open>values()\<close> yields them.\<close>

definition fmvalues :: "('k::linorder, 'v) fmap \<Rightarrow> 'v list" where
  "fmvalues m = map snd (sorted_list_of_fmap m)"

lemma fmupd_lookup_same [simp]: "fmlookup m k = Some v \<Longrightarrow> fmupd k v m = m"
  by (rule fmap_ext) auto

lemma fmupd_fmdrop [simp]: "fmupd k v (fmdrop k m) = fmupd k v m"
  by (rule fmap_ext) auto

lemma fmdrop_fmupd_fresh [simp]: "fmlookup m k = None \<Longrightarrow> fmdrop k (fmupd k v m) = m"
  by (rule fmap_ext) auto

end
