(* ===== verification/Types.thy ===== *)
theory Types
  imports Prelude
begin

unbundle bit_operations_syntax

text \<open>
  The shared vocabulary of crate \<open>omp-types\<close>: structured errors, identifiers, lifecycle
  status, typed values, elements, patches and their validation (\<open>patch.rs\<close>), the limit
  policy (\<open>limits.rs\<close>) and protocol negotiation (\<open>version.rs\<close>).  JSON values are the
  documented variants of \<open>serde_json::Value\<close>; rendering them to text is a parameter \<open>js\<close> of
  the definitions that use it.  An \<open>f64\<close> is its IEEE-754 bit pattern.
\<close>

section \<open>JSON values and structured errors\<close>

type_synonym f64 = "64 word"

definition f64_is_finite :: "f64 \<Rightarrow> bool" where
  "f64_is_finite b \<longleftrightarrow> drop_bit 52 b AND 2047 \<noteq> 2047"

datatype json_number = PosInt "64 word" | NegInt "64 word" | JFloat f64

datatype json =
    JNull
  | JBool bool
  | JNumber json_number
  | JString string
  | JArray "json list"
  | JObject "(string \<times> json) list"

record structured_error =
  err_code :: string
  err_message :: string
  err_retryable :: bool
  err_diagnostics :: "json option"

definition new_error :: "string \<Rightarrow> string \<Rightarrow> bool \<Rightarrow> structured_error" where
  "new_error code message retryable =
     \<lparr>err_code = code, err_message = message, err_retryable = retryable, err_diagnostics = None\<rparr>"

definition show_error :: "structured_error \<Rightarrow> string" where
  "show_error e = err_code e @ '': '' @ err_message e"

section \<open>Identifiers\<close>

text \<open>
  The nine identifier newtypes of \<open>ids.rs\<close> share one macro; an identifier is its string.
  \<open>new_id\<close> is the only checked way to build one from text.
\<close>

type_synonym session_id = string
type_synonym element_id = string
type_synonym job_id = string
type_synonym director_id = string
type_synonym tool_call_id = string
type_synonym artifact_id = string
type_synonym actor_id = string
type_synonym branch_id = string

definition id_byte :: "char \<Rightarrow> bool" where
  "id_byte b \<longleftrightarrow> is_ascii_alphanumeric b \<or> b \<in> set ''._-''"

definition new_id :: "string \<Rightarrow> (structured_error, string) result" where
  "new_id value =
     (if value = [] \<or> 128 < length value \<or> \<not> list_all id_byte value
      then Inl (new_error ''invalid_id''
             ''IDs require 1..128 ASCII letters, digits, dots, underscores or hyphens'' False)
      else Inr value)"

definition valid_id :: "string \<Rightarrow> bool" where
  "valid_id value \<longleftrightarrow> value \<noteq> [] \<and> length value \<le> 128 \<and> list_all id_byte value"

lemma new_id_Inr_iff: "new_id v = Inr i \<longleftrightarrow> i = v \<and> valid_id v"
  unfolding new_id_def valid_id_def by auto

text \<open>\<open>JournalOffset\<close> derives \<open>Ord\<close>: offsets compare as their numbers.\<close>

datatype journal_offset = JournalOffset (offset_nat: nat)

instantiation journal_offset :: linorder
begin

definition less_eq_journal_offset :: "journal_offset \<Rightarrow> journal_offset \<Rightarrow> bool" where
  "less_eq_journal_offset a b \<longleftrightarrow> offset_nat a \<le> offset_nat b"

definition less_journal_offset :: "journal_offset \<Rightarrow> journal_offset \<Rightarrow> bool" where
  "less_journal_offset a b \<longleftrightarrow> offset_nat a < offset_nat b"

instance
  by standard (auto simp: less_eq_journal_offset_def less_journal_offset_def journal_offset.expand)

end

section \<open>Lifecycle status\<close>

datatype status =
    Queued | Active | Running | Finalized | Committed | CancelRequested | Cancelled
  | Failed | Succeeded | Detached | Truncated | UnknownStatus | WriteFailureStatus

fun is_terminal_job :: "status \<Rightarrow> bool" where
  "is_terminal_job s = (s \<in> {Succeeded, Failed, Cancelled, Finalized, Detached})"

fun is_terminal_session :: "status \<Rightarrow> bool" where
  "is_terminal_session s = (s \<in> {Succeeded, Failed, Cancelled, Finalized, Committed, Detached})"

text \<open>\<open>serde(rename_all = "snake_case")\<close> spellings.\<close>

fun status_str :: "status \<Rightarrow> string" where
  "status_str Queued = ''queued''"
| "status_str Active = ''active''"
| "status_str Running = ''running''"
| "status_str Finalized = ''finalized''"
| "status_str Committed = ''committed''"
| "status_str CancelRequested = ''cancel_requested''"
| "status_str Cancelled = ''cancelled''"
| "status_str Failed = ''failed''"
| "status_str Succeeded = ''succeeded''"
| "status_str Detached = ''detached''"
| "status_str Truncated = ''truncated''"
| "status_str UnknownStatus = ''unknown''"
| "status_str WriteFailureStatus = ''write_failure''"

definition all_statuses :: "status list" where
  "all_statuses = [Queued, Active, Running, Finalized, Committed, CancelRequested, Cancelled,
     Failed, Succeeded, Detached, Truncated, UnknownStatus, WriteFailureStatus]"

definition status_of_dom_str :: "string \<Rightarrow> status option" where
  "status_of_dom_str value =
     (if value = ''completed'' then Some Finalized
      else find (\<lambda>s. status_str s = value) all_statuses)"

lemma status_roundtrip: "status_of_dom_str (status_str s) = Some s"
  by (cases s) (simp_all add: status_of_dom_str_def all_statuses_def)

section \<open>Elements and patches\<close>

datatype typed_value =
    TNull
  | TBool bool
  | TInteger "64 word"
  | TNumber f64
  | TString string
  | TJson json

record element_snapshot =
  el_id :: element_id
  schema_version :: "16 word"
  el_kind :: string
  attributes :: "(string, typed_value) fmap"
  el_text :: string
  el_payload :: "json option"

definition new_element :: "element_id \<Rightarrow> string \<Rightarrow> element_snapshot" where
  "new_element i kind =
     \<lparr>el_id = i, schema_version = 1, el_kind = kind, attributes = fmempty, el_text = '''',
      el_payload = None\<rparr>"

datatype patch_op =
    Create element_id nat element_snapshot
  | Delete element_id
  | Move element_id element_id nat
  | SetAttribute element_id string typed_value
  | RemoveAttribute element_id string
  | ReplaceText element_id string
  | AppendText element_id string
  | ReplacePayload element_id json

datatype patch_author = Actor actor_id | Element element_id

record patch =
  base_offset :: journal_offset
  result_offset :: journal_offset
  patch_by :: patch_author
  reason :: string
  ops :: "patch_op list"

definition MAX_WIRE_BYTES :: nat where "MAX_WIRE_BYTES = 1048576"
definition MAX_PATCH_OPS :: nat where "MAX_PATCH_OPS = 4096"
definition MAX_OP_TEXT_BYTES :: nat where "MAX_OP_TEXT_BYTES = MAX_WIRE_BYTES"

definition kind_byte :: "char \<Rightarrow> bool" where
  "kind_byte b \<longleftrightarrow> is_ascii_alphanumeric b \<or> b \<in> set ''_-''"

definition invalid_element :: "string \<Rightarrow> structured_error" where
  "invalid_element m = new_error ''invalid_element'' m False"

definition invalid_patch :: "string \<Rightarrow> structured_error" where
  "invalid_patch m = new_error ''invalid_patch'' m False"

text \<open>The body of the \<open>for op in &self.ops\<close> loop of \<open>Patch::validate\<close>.\<close>

fun validate_op :: "(json \<Rightarrow> string option) \<Rightarrow> patch_op \<Rightarrow> (structured_error, unit) result" where
  "validate_op js (Create _ _ e) =
     (if schema_version e \<noteq> 1 \<or> el_kind e = [] \<or> 128 < length (el_kind e)
         \<or> \<not> list_all kind_byte (el_kind e)
      then Inl (invalid_element ''Unsupported element schema or invalid kind'')
      else if MAX_OP_TEXT_BYTES < length (el_text e)
      then Inl (invalid_element ''Element text exceeds per-operation limit'')
      else Inr ())"
| "validate_op js (SetAttribute _ name value) =
     (if name = [] \<or> 256 < length name
      then Inl (invalid_patch ''Attribute name must be 1..=256 bytes'')
      else case value of
          TNumber x \<Rightarrow> if \<not> f64_is_finite x
                       then Inl (invalid_patch ''Attribute number must be finite'') else Inr ()
        | TString s \<Rightarrow> if MAX_OP_TEXT_BYTES < length s
                       then Inl (invalid_patch ''Attribute value exceeds per-operation limit'')
                       else Inr ()
        | _ \<Rightarrow> Inr ())"
| "validate_op js (ReplaceText _ t) =
     (if MAX_OP_TEXT_BYTES < length t
      then Inl (invalid_patch ''Text payload exceeds per-operation limit'') else Inr ())"
| "validate_op js (AppendText _ t) =
     (if MAX_OP_TEXT_BYTES < length t
      then Inl (invalid_patch ''Text payload exceeds per-operation limit'') else Inr ())"
| "validate_op js (ReplacePayload _ payload) =
     (if (case js payload of Some rendered \<Rightarrow> MAX_OP_TEXT_BYTES < length rendered | None \<Rightarrow> False)
      then Inl (invalid_patch ''Payload exceeds per-operation limit'') else Inr ())"
| "validate_op js (RemoveAttribute _ name) =
     (if name = [] \<or> 256 < length name
      then Inl (invalid_patch ''Attribute name must be 1..=256 bytes'') else Inr ())"
| "validate_op js (Delete _) = Inr ()"
| "validate_op js (Move _ _ _) = Inr ()"

fun validate_ops :: "(json \<Rightarrow> string option) \<Rightarrow> patch_op list \<Rightarrow> (structured_error, unit) result" where
  "validate_ops js [] = Inr ()"
| "validate_ops js (x # xs) = try_bind (validate_op js x) (\<lambda>_. validate_ops js xs)"

definition validate :: "(json \<Rightarrow> string option) \<Rightarrow> patch \<Rightarrow> (structured_error, unit) result" where
  "validate js p =
     (if result_offset p \<le> base_offset p \<or> trim (reason p) = [] \<or> 4096 < length (reason p)
         \<or> MAX_PATCH_OPS < length (ops p)
      then Inl (invalid_patch ''Invalid offset progression, intent or operation count'')
      else validate_ops js (ops p))"

text \<open>
  What a valid patch is, stated without the order of the tests: every field within its bound.
\<close>

fun op_ok :: "(json \<Rightarrow> string option) \<Rightarrow> patch_op \<Rightarrow> bool" where
  "op_ok js (Create _ _ e) \<longleftrightarrow>
     schema_version e = 1 \<and> el_kind e \<noteq> [] \<and> length (el_kind e) \<le> 128
     \<and> list_all kind_byte (el_kind e) \<and> length (el_text e) \<le> MAX_OP_TEXT_BYTES"
| "op_ok js (SetAttribute _ name value) \<longleftrightarrow>
     name \<noteq> [] \<and> length name \<le> 256
     \<and> (\<forall>x. value = TNumber x \<longrightarrow> f64_is_finite x)
     \<and> (\<forall>s. value = TString s \<longrightarrow> length s \<le> MAX_OP_TEXT_BYTES)"
| "op_ok js (RemoveAttribute _ name) \<longleftrightarrow> name \<noteq> [] \<and> length name \<le> 256"
| "op_ok js (ReplaceText _ t) \<longleftrightarrow> length t \<le> MAX_OP_TEXT_BYTES"
| "op_ok js (AppendText _ t) \<longleftrightarrow> length t \<le> MAX_OP_TEXT_BYTES"
| "op_ok js (ReplacePayload _ j) \<longleftrightarrow> (\<forall>r. js j = Some r \<longrightarrow> length r \<le> MAX_OP_TEXT_BYTES)"
| "op_ok js (Delete _) \<longleftrightarrow> True"
| "op_ok js (Move _ _ _) \<longleftrightarrow> True"

lemma validate_op_ok: "validate_op js x = Inr () \<longleftrightarrow> op_ok js x"
  by (cases x) (auto split: typed_value.splits option.splits)

lemma validate_ops_ok: "validate_ops js xs = Inr () \<longleftrightarrow> list_all (op_ok js) xs"
  by (induction xs) (auto simp: try_bind_Inr_iff validate_op_ok)

definition patch_ok :: "(json \<Rightarrow> string option) \<Rightarrow> patch \<Rightarrow> bool" where
  "patch_ok js p \<longleftrightarrow>
     base_offset p < result_offset p \<and> trim (reason p) \<noteq> [] \<and> length (reason p) \<le> 4096
     \<and> length (ops p) \<le> MAX_PATCH_OPS \<and> list_all (op_ok js) (ops p)"

lemma validate_Inr_iff: "validate js p = Inr u \<longleftrightarrow> patch_ok js p"
  unfolding validate_def patch_ok_def
  by (cases u) (auto simp: validate_ops_ok not_le not_less)

lemma validate_Inl_code:
  "validate js p = Inl e \<Longrightarrow> err_code e \<in> {''invalid_patch'', ''invalid_element''} \<and> \<not> err_retryable e"
proof -
  have op: "err_code e \<in> {''invalid_patch'', ''invalid_element''} \<and> \<not> err_retryable e"
    if "validate_op js x = Inl e" for x
    using that
    by (cases x) (auto simp: invalid_patch_def invalid_element_def new_error_def
        split: if_splits typed_value.splits option.splits)
  have "err_code e \<in> {''invalid_patch'', ''invalid_element''} \<and> \<not> err_retryable e"
    if "validate_ops js xs = Inl e" for xs
    using that op by (induction xs) (auto simp: try_bind_Inl_iff)
  then show "validate js p = Inl e \<Longrightarrow> ?thesis"
    by (auto simp: validate_def invalid_patch_def new_error_def split: if_splits)
qed

section \<open>Limit policy\<close>

text \<open>Durations are nanoseconds.\<close>

record limit_policy =
  max_bytes :: nat
  max_lines :: nat
  max_events :: nat
  max_memory_bytes :: nat
  max_wall_time :: nat
  max_cpu_time :: "nat option"
  max_child_processes :: "32 word"
  max_artifact_bytes :: nat
  max_concurrent_jobs :: "32 word"
  cancel_grace_period :: nat

definition duration_from_secs :: "nat \<Rightarrow> nat" where
  "duration_from_secs s = s * 1000000000"

definition default_limits :: limit_policy where
  "default_limits =
     \<lparr>max_bytes = 1024 * 1024, max_lines = 50000, max_events = 10000,
      max_memory_bytes = 256 * 1024 * 1024, max_wall_time = duration_from_secs 120,
      max_cpu_time = None, max_child_processes = 16, max_artifact_bytes = 50 * 1024 * 1024,
      max_concurrent_jobs = 8, cancel_grace_period = duration_from_secs 5\<rparr>"

definition validate_limits :: "limit_policy \<Rightarrow> (structured_error, unit) result" where
  "validate_limits l =
     (let invalid = (max_bytes l = 0 \<or> max_lines l = 0 \<or> max_events l = 0
          \<or> max_memory_bytes l = 0 \<or> max_wall_time l = 0 \<or> max_child_processes l = 0
          \<or> max_artifact_bytes l = 0 \<or> max_concurrent_jobs l = 0)
      in if invalid
         then Inl (new_error ''invalid_limits'' ''LimitPolicy budgets must all be nonzero'' False)
         else Inr ())"

definition with_max_bytes :: "limit_policy \<Rightarrow> nat \<Rightarrow> limit_policy" where
  "with_max_bytes l n = l\<lparr>max_bytes := n\<rparr>"

definition with_max_lines :: "limit_policy \<Rightarrow> nat \<Rightarrow> limit_policy" where
  "with_max_lines l n = l\<lparr>max_lines := n\<rparr>"

definition with_max_wall_time :: "limit_policy \<Rightarrow> nat \<Rightarrow> limit_policy" where
  "with_max_wall_time l d = l\<lparr>max_wall_time := d\<rparr>"

definition with_grace_period :: "limit_policy \<Rightarrow> nat \<Rightarrow> limit_policy" where
  "with_grace_period l d = l\<lparr>cancel_grace_period := d\<rparr>"

record truncation_diag =
  limit_bytes :: nat
  diag_observed_bytes :: nat
  limit_lines :: nat
  diag_observed_lines :: nat
  diag_artifact_id :: "artifact_id option"
  fetchable :: bool
  diag_reason :: string

section \<open>Protocol versions and handshakes\<close>

record protocol_version =
  major :: "16 word"
  minor :: "16 word"

definition CURRENT :: protocol_version where
  "CURRENT = \<lparr>major = 1, minor = 0\<rparr>"

definition JOURNAL_FORMAT :: string where "JOURNAL_FORMAT = ''patch@1''"
definition TOOL_PROTOCOL :: string where "TOOL_PROTOCOL = ''tool@1''"
definition JOB_PROTOCOL :: string where "JOB_PROTOCOL = ''job@1''"
definition COMPONENT_PROTOCOL :: string where "COMPONENT_PROTOCOL = ''component@1''"

definition negotiate ::
  "protocol_version \<Rightarrow> protocol_version \<Rightarrow> string set \<Rightarrow> string set \<Rightarrow> (structured_error, unit) result" where
  "negotiate self peer advertised required =
     (if major self \<noteq> major peer
      then Inl (new_error ''protocol_major_mismatch'' ''Protocol major versions differ'' False)
      else if \<not> required \<subseteq> advertised
      then Inl (new_error ''protocol_missing_feature''
             ''Peer does not advertise every required feature'' False)
      else Inr ())"

record handshake_msg =
  hs_version :: protocol_version
  hs_features :: "string set"
  hs_required :: "string set"

definition current_handshake :: handshake_msg where
  "current_handshake =
     \<lparr>hs_version = CURRENT,
      hs_features = {JOURNAL_FORMAT, TOOL_PROTOCOL, JOB_PROTOCOL, COMPONENT_PROTOCOL},
      hs_required = {}\<rparr>"

definition accept :: "handshake_msg \<Rightarrow> handshake_msg \<Rightarrow> (structured_error, unit) result" where
  "accept self peer =
     try_bind (negotiate (hs_version self) (hs_version peer) (hs_features peer) (hs_required self))
       (\<lambda>_. negotiate (hs_version peer) (hs_version self) (hs_features self) (hs_required peer))"

lemma negotiate_Inr_iff:
  "negotiate v w adv req = Inr u \<longleftrightarrow> major v = major w \<and> req \<subseteq> adv"
  by (cases u) (auto simp: negotiate_def)

lemma accept_Inr_iff:
  "accept a b = Inr u \<longleftrightarrow>
     major (hs_version a) = major (hs_version b) \<and> hs_required a \<subseteq> hs_features b
     \<and> hs_required b \<subseteq> hs_features a"
  by (cases u) (auto simp: accept_def try_bind_Inr_iff negotiate_Inr_iff)

lemma validate_limits_Inr_iff:
  "validate_limits l = Inr u \<longleftrightarrow>
     0 < max_bytes l \<and> 0 < max_lines l \<and> 0 < max_events l \<and> 0 < max_memory_bytes l
     \<and> 0 < max_wall_time l \<and> max_child_processes l \<noteq> 0 \<and> 0 < max_artifact_bytes l
     \<and> max_concurrent_jobs l \<noteq> 0"
  by (cases u) (auto simp: validate_limits_def Let_def)

end
