(* ===== verification/Dom.thy ===== *)
theory Dom
  imports Types
begin

text \<open>
  The session document of \<open>omp-state/src/dom.rs\<close>: a finite map from element ids to nodes that
  record their parent and ordered children, the set of ids ever used, and the transactional
  application of patches with an undo stack.  \<open>apply_one\<close> returns the state it leaves behind
  next to its result, because the source mutates in place also where it then fails.  A loop
  that need not stop on a corrupt document (\<open>climb\<close>) has fuel; running out of it is the value
  \<open>Diverges\<close>, which is not an error of the source but its looping for ever, and which the
  well-formedness invariant excludes.
\<close>

section \<open>State\<close>

record node =
  nd_element :: element_snapshot
  nd_parent :: "element_id option"
  nd_children :: "element_id list"

type_synonym nodes = "(element_id, node) fmap"

record session_snapshot =
  ss_session :: session_id
  ss_offset :: nat
  ss_branch :: branch_id
  ss_nodes :: nodes
  ss_used :: "element_id set"

datatype state_error =
    WrongBase nat nat
  | Missing string
  | Invalid string
  | Io string
  | Encoding string
  | WriteFailure
  | Diverges

fun show_state_error :: "state_error \<Rightarrow> string" where
  "show_state_error (WrongBase actual expected) =
     ''patch base '' @ show_nat actual @ '' does not match '' @ show_nat expected"
| "show_state_error (Missing m) = ''element not found: '' @ m"
| "show_state_error (Invalid m) = ''invalid state: '' @ m"
| "show_state_error (Io m) = ''journal I/O: '' @ m"
| "show_state_error (Encoding m) = ''journal encoding: '' @ m"
| "show_state_error WriteFailure = ''journal is damaged or failed; reopen required''"
| "show_state_error Diverges = ''''"

fun state_error_structured :: "state_error \<Rightarrow> structured_error" where
  "state_error_structured e =
     (let code = (case e of
          WrongBase _ _ \<Rightarrow> ''stale_base''
        | Missing _ \<Rightarrow> ''missing_element''
        | Invalid _ \<Rightarrow> ''invalid_state''
        | Io _ \<Rightarrow> ''journal_io''
        | Encoding _ \<Rightarrow> ''journal_encoding''
        | WriteFailure \<Rightarrow> ''write_failure''
        | Diverges \<Rightarrow> '''')
      in new_error code (show_state_error e) (case e of WrongBase _ _ \<Rightarrow> True | _ \<Rightarrow> False))"

definition ROOTS :: "string list" where
  "ROOTS = [''root'', ''meta'', ''body'', ''queues'', ''views'', ''convars'', ''todo'', ''jobs'',
     ''actors'', ''directors'', ''branches'', ''artifacts'', ''capabilities'', ''tools'',
     ''steering'', ''prompts'', ''approvals'', ''scheduler'', ''summaries'', ''providers'']"

definition root_parent :: "string \<Rightarrow> element_id option" where
  "root_parent name =
     (if name = ''root'' then None
      else if name \<in> set [''meta'', ''body'', ''queues'', ''views''] then Some ''root''
      else if name \<in> set [''steering'', ''prompts'', ''approvals'', ''scheduler''] then Some ''queues''
      else Some ''meta'')"

text \<open>\<open>if let Some(node) = nodes.get_mut(k) { f(node) }\<close>.\<close>

definition modify_node :: "element_id \<Rightarrow> (node \<Rightarrow> node) \<Rightarrow> nodes \<Rightarrow> nodes" where
  "modify_node k f ns = (case fmlookup ns k of None \<Rightarrow> ns | Some n \<Rightarrow> fmupd k (f n) ns)"

definition insert_root :: "string \<Rightarrow> session_snapshot \<Rightarrow> session_snapshot" where
  "insert_root name s =
     (let parent = root_parent name;
          ns = fmupd name \<lparr>nd_element = new_element name name, nd_parent = parent, nd_children = []\<rparr>
                 (ss_nodes s);
          ns' = (case parent of
                   None \<Rightarrow> ns
                 | Some p \<Rightarrow> modify_node p (\<lambda>n. n\<lparr>nd_children := nd_children n @ [name]\<rparr>) ns)
      in s\<lparr>ss_nodes := ns', ss_used := insert name (ss_used s)\<rparr>)"

definition empty_snapshot :: "session_id \<Rightarrow> session_snapshot" where
  "empty_snapshot sid =
     fold insert_root ROOTS
       \<lparr>ss_session = sid, ss_offset = 0, ss_branch = ''main'', ss_nodes = fmempty, ss_used = {}\<rparr>"

section \<open>Queries\<close>

definition snap_node :: "session_snapshot \<Rightarrow> element_id \<Rightarrow> node option" where
  "snap_node s k = fmlookup (ss_nodes s) k"

definition snap_element :: "session_snapshot \<Rightarrow> element_id \<Rightarrow> element_snapshot option" where
  "snap_element s k = map_option nd_element (snap_node s k)"

definition children :: "session_snapshot \<Rightarrow> element_id \<Rightarrow> element_snapshot list" where
  "children s p =
     (case fmlookup (ss_nodes s) p of
        None \<Rightarrow> []
      | Some n \<Rightarrow> List.map_filter (snap_element s) (nd_children n))"

definition try_container :: "session_snapshot \<Rightarrow> string \<Rightarrow> (state_error, element_id) result" where
  "try_container s name =
     (case new_id name of
        Inl _ \<Rightarrow> Inl (Invalid (''invalid container name '' @ [CHR 0x27] @ name @ [CHR 0x27]))
      | Inr key \<Rightarrow>
          (case fmlookup (ss_nodes s) key of
             None \<Rightarrow> Inl (Invalid (''missing container '' @ [CHR 0x27] @ name @ [CHR 0x27]))
           | Some _ \<Rightarrow> Inr key))"

text \<open>\<open>container\<close> panics where \<open>try_container\<close> fails; a panic is \<open>None\<close>.\<close>

definition container :: "session_snapshot \<Rightarrow> string \<Rightarrow> element_id option" where
  "container s name = (case try_container s name of Inl _ \<Rightarrow> None | Inr k \<Rightarrow> Some k)"

definition container_children :: "session_snapshot \<Rightarrow> string \<Rightarrow> element_snapshot list option" where
  "container_children s name = map_option (children s) (container s name)"

definition element_terminal :: "element_snapshot \<Rightarrow> bool" where
  "element_terminal e =
     (case fmlookup (attributes e) ''status'' of
        Some (TString v) \<Rightarrow>
          (case status_of_dom_str v of Some st \<Rightarrow> is_terminal_session st | None \<Rightarrow> False)
      | _ \<Rightarrow> False)"

definition get_visible_body :: "session_snapshot \<Rightarrow> element_snapshot list option" where
  "get_visible_body s = container_children s ''body''"

definition get_last_visible_message :: "session_snapshot \<Rightarrow> element_snapshot option option" where
  "get_last_visible_message s =
     map_option (\<lambda>es.
         let ms = filter (\<lambda>e. el_kind e \<in> set [''user'', ''assistant'', ''system'', ''message'']) es
         in if ms = [] then None else Some (last ms))
       (get_visible_body s)"

definition active_tool_roster :: "session_snapshot \<Rightarrow> element_snapshot list option" where
  "active_tool_roster s = container_children s ''tools''"

definition active_directors :: "session_snapshot \<Rightarrow> element_snapshot list option" where
  "active_directors s = container_children s ''directors''"

definition active_jobs :: "session_snapshot \<Rightarrow> element_snapshot list option" where
  "active_jobs s = map_option (filter (\<lambda>e. \<not> element_terminal e)) (container_children s ''jobs'')"

definition active_todos :: "session_snapshot \<Rightarrow> element_snapshot list option" where
  "active_todos s = map_option (filter (\<lambda>e. \<not> element_terminal e)) (container_children s ''todo'')"

definition try_session_globals ::
  "session_snapshot \<Rightarrow> (state_error, (string, typed_value) fmap) result" where
  "try_session_globals s =
     try_bind (try_container s ''convars'') (\<lambda>k.
       ok_or (Invalid ''missing convars container'') (map_option attributes (snap_element s k)))"

definition session_globals :: "session_snapshot \<Rightarrow> (string, typed_value) fmap option" where
  "session_globals s = (case try_session_globals s of Inl _ \<Rightarrow> None | Inr g \<Rightarrow> Some g)"

definition turn_count :: "session_snapshot \<Rightarrow> nat option" where
  "turn_count s = map_option (\<lambda>es. length (filter (\<lambda>e. el_kind e = ''user'') es)) (get_visible_body s)"

definition all_elements :: "session_snapshot \<Rightarrow> element_snapshot list" where
  "all_elements s = map nd_element (fmvalues (ss_nodes s))"

datatype handle_action = ResumeOrSpawn element_id | Terminate element_id

definition reconcile_handles ::
  "session_snapshot \<Rightarrow> element_id fset \<Rightarrow> handle_action list option" where
  "reconcile_handles s live =
     (case active_jobs s of
        None \<Rightarrow> None
      | Some jobs \<Rightarrow>
          (case container_children s ''actors'' of
             None \<Rightarrow> None
           | Some actors \<Rightarrow>
               let wanted = fset_of_list (map el_id
                     (jobs @ filter (\<lambda>e. \<not> element_terminal e) actors))
               in Some (map ResumeOrSpawn (sorted_list_of_fset (wanted |-| live))
                      @ map Terminate (sorted_list_of_fset (live |-| wanted)))))"

section \<open>Applying one operation\<close>

datatype undo =
    UndoCreate element_id
  | UndoDelete "(element_id \<times> node) list" element_id nat
  | UndoMove element_id element_id nat
  | UndoAttribute element_id string "typed_value option"
  | UndoText element_id string
  | UndoAppend element_id nat
  | UndoPayload element_id "json option"

definition require :: "session_snapshot \<Rightarrow> element_id \<Rightarrow> (state_error, node) result" where
  "require s k = ok_or (Missing k) (snap_node s k)"

definition mutable_location ::
  "session_snapshot \<Rightarrow> element_id \<Rightarrow> (state_error, element_id \<times> nat) result" where
  "mutable_location s k =
     (if k \<in> set ROOTS
      then Inl (Invalid ''cannot remove or move structural container'')
      else try_bind (require s k) (\<lambda>n.
        try_bind (ok_or (Invalid ''orphan node'') (nd_parent n)) (\<lambda>p.
          try_bind (ok_or (Invalid ''parent/child desync: missing parent'')
                      (fmlookup (ss_nodes s) p)) (\<lambda>pn.
            try_bind (ok_or (Invalid ''parent/child desync'')
                        (vec_position (\<lambda>v. v = k) (nd_children pn))) (\<lambda>i.
              Inr (p, i))))))"

text \<open>
  The stack loop of \<open>Delete\<close>.  The Rust stack grows at its end; here its top is the head, so
  extending it by the children puts them in reverse before the rest.
\<close>

function remove_subtree ::
  "nodes \<Rightarrow> element_id list \<Rightarrow> (element_id \<times> node) list
   \<Rightarrow> nodes \<times> (state_error, (element_id \<times> node) list) result" where
  "remove_subtree ns [] removed = (ns, Inr removed)"
| "remove_subtree ns (k # stack) removed =
     (case fmlookup ns k of
        None \<Rightarrow> (ns, Inl (Invalid ''dangling child reference''))
      | Some n \<Rightarrow> remove_subtree (fmdrop k ns) (rev (nd_children n) @ stack) (removed @ [(k, n)]))"
  by pat_completeness auto
termination
proof (relation "measure (\<lambda>(ns, _, _). fcard (fmdom ns))", goal_cases)
  case 1
  then show ?case by simp
next
  case (2 ns k stack removed n)
  then have "k |\<in>| fmdom ns" by (simp add: fmdomI)
  then have "0 < card (fset (fmdom ns))" by (auto simp: card_gt_0_iff)
  with \<open>k |\<in>| fmdom ns\<close> show ?case by (simp add: fcard.rep_eq)
qed

text \<open>
  The cursor loop of \<open>Move\<close>: climb from the new parent to the top; meeting the moved element
  is a cycle.
\<close>

fun climb :: "nat \<Rightarrow> nodes \<Rightarrow> element_id \<Rightarrow> element_id \<Rightarrow> (state_error, unit) result" where
  "climb 0 ns e key = Inl Diverges"
| "climb (Suc fuel) ns e key =
     (if key = e then Inl (Invalid ''move creates cycle'')
      else (case fmlookup ns key of
          None \<Rightarrow> Inl (Invalid ''move target missing'')
        | Some n \<Rightarrow> (case nd_parent n of None \<Rightarrow> Inr () | Some p \<Rightarrow> climb fuel ns e p)))"

definition apply_create ::
  "session_snapshot \<Rightarrow> element_id \<Rightarrow> nat \<Rightarrow> element_snapshot
   \<Rightarrow> session_snapshot \<times> (state_error, undo) result" where
  "apply_create s parent index e =
     (if el_id e \<in> ss_used s then (s, Inl (Invalid ''element identifier already used''))
      else (case require s parent of
          Inl err \<Rightarrow> (s, Inl err)
        | Inr pn \<Rightarrow>
            if length (nd_children pn) < index then (s, Inl (Invalid ''child index outside parent''))
            else
              (s\<lparr>ss_nodes := fmupd (el_id e) \<lparr>nd_element = e, nd_parent = Some parent, nd_children = []\<rparr>
                   (modify_node parent
                      (\<lambda>n. n\<lparr>nd_children := vec_insert index (el_id e) (nd_children n)\<rparr>) (ss_nodes s)),
                 ss_used := insert (el_id e) (ss_used s)\<rparr>,
               Inr (UndoCreate (el_id e)))))"

definition apply_delete ::
  "session_snapshot \<Rightarrow> element_id \<Rightarrow> session_snapshot \<times> (state_error, undo) result" where
  "apply_delete s k =
     (case mutable_location s k of
        Inl err \<Rightarrow> (s, Inl err)
      | Inr (parent, index) \<Rightarrow>
          let ns = modify_node parent
                     (\<lambda>n. n\<lparr>nd_children := vec_remove index (nd_children n)\<rparr>) (ss_nodes s)
          in (case remove_subtree ns [k] [] of
                (ns', Inl err) \<Rightarrow> (s\<lparr>ss_nodes := ns'\<rparr>, Inl err)
              | (ns', Inr removed) \<Rightarrow> (s\<lparr>ss_nodes := ns'\<rparr>, Inr (UndoDelete removed parent index))))"

definition apply_move ::
  "session_snapshot \<Rightarrow> element_id \<Rightarrow> element_id \<Rightarrow> nat
   \<Rightarrow> session_snapshot \<times> (state_error, undo) result" where
  "apply_move s k parent index =
     (case mutable_location s k of
        Inl err \<Rightarrow> (s, Inl err)
      | Inr (old_parent, old_index) \<Rightarrow>
          (case require s parent of
             Inl err \<Rightarrow> (s, Inl err)
           | Inr pn \<Rightarrow>
               let target_len = length (nd_children pn) - (if old_parent = parent then 1 else 0)
               in if target_len < index
                  then (s, Inl (Invalid ''move index outside post-removal parent''))
                  else (case climb (Suc (fcard (fmdom (ss_nodes s)))) (ss_nodes s) k parent of
                      Inl err \<Rightarrow> (s, Inl err)
                    | Inr _ \<Rightarrow>
                        let ns1 = modify_node old_parent
                              (\<lambda>n. n\<lparr>nd_children := vec_remove old_index (nd_children n)\<rparr>) (ss_nodes s);
                            ns2 = modify_node parent
                              (\<lambda>n. n\<lparr>nd_children := vec_insert index k (nd_children n)\<rparr>) ns1;
                            ns3 = modify_node k (\<lambda>n. n\<lparr>nd_parent := Some parent\<rparr>) ns2
                        in (s\<lparr>ss_nodes := ns3\<rparr>, Inr (UndoMove k old_parent old_index)))))"

text \<open>
  The five operations that touch one element: \<open>require\<close>, then a change of the element that
  returns what to restore.  The \<open>get_mut\<close> after \<open>require\<close> finds the node that \<open>require\<close> found.
\<close>

definition edit_element ::
  "session_snapshot \<Rightarrow> element_id \<Rightarrow> (element_snapshot \<Rightarrow> element_snapshot) \<Rightarrow> (element_snapshot \<Rightarrow> undo)
   \<Rightarrow> session_snapshot \<times> (state_error, undo) result" where
  "edit_element s k f u =
     (case require s k of
        Inl err \<Rightarrow> (s, Inl err)
      | Inr n \<Rightarrow>
          (s\<lparr>ss_nodes := modify_node k (\<lambda>m. m\<lparr>nd_element := f (nd_element m)\<rparr>) (ss_nodes s)\<rparr>,
           Inr (u (nd_element n))))"

fun apply_one ::
  "session_snapshot \<Rightarrow> patch_op \<Rightarrow> session_snapshot \<times> (state_error, undo) result" where
  "apply_one s (Create parent index e) = apply_create s parent index e"
| "apply_one s (Delete k) = apply_delete s k"
| "apply_one s (Move k parent index) = apply_move s k parent index"
| "apply_one s (SetAttribute k name v) =
     edit_element s k (\<lambda>e. e\<lparr>attributes := fmupd name v (attributes e)\<rparr>)
       (\<lambda>e. UndoAttribute k name (fmlookup (attributes e) name))"
| "apply_one s (RemoveAttribute k name) =
     edit_element s k (\<lambda>e. e\<lparr>attributes := fmdrop name (attributes e)\<rparr>)
       (\<lambda>e. UndoAttribute k name (fmlookup (attributes e) name))"
| "apply_one s (ReplaceText k t) =
     edit_element s k (\<lambda>e. e\<lparr>el_text := t\<rparr>) (\<lambda>e. UndoText k (el_text e))"
| "apply_one s (AppendText k t) =
     edit_element s k (\<lambda>e. e\<lparr>el_text := el_text e @ t\<rparr>) (\<lambda>e. UndoAppend k (length (el_text e)))"
| "apply_one s (ReplacePayload k j) =
     edit_element s k (\<lambda>e. e\<lparr>el_payload := Some j\<rparr>) (\<lambda>e. UndoPayload k (el_payload e))"

section \<open>Undo and patches\<close>

definition edit_back :: "session_snapshot \<Rightarrow> element_id \<Rightarrow> (element_snapshot \<Rightarrow> element_snapshot)
    \<Rightarrow> session_snapshot" where
  "edit_back s k f =
     s\<lparr>ss_nodes := modify_node k (\<lambda>m. m\<lparr>nd_element := f (nd_element m)\<rparr>) (ss_nodes s)\<rparr>"

fun undo_op :: "undo \<Rightarrow> session_snapshot \<Rightarrow> session_snapshot" where
  "undo_op (UndoCreate k) s =
     (case fmlookup (ss_nodes s) k of
        None \<Rightarrow> s
      | Some n \<Rightarrow>
          let ns = fmdrop k (ss_nodes s);
              ns' = (case nd_parent n of
                       None \<Rightarrow> ns
                     | Some p \<Rightarrow>
                         modify_node p (\<lambda>m. m\<lparr>nd_children := filter (\<lambda>v. v \<noteq> k) (nd_children m)\<rparr>) ns)
          in s\<lparr>ss_nodes := ns', ss_used := ss_used s - {k}\<rparr>)"
| "undo_op (UndoDelete removed parent index) s =
     (case removed of
        [] \<Rightarrow> s
      | (key, _) # _ \<Rightarrow>
          let ns = fold (\<lambda>(k, n). fmupd k n) removed (ss_nodes s)
          in s\<lparr>ss_nodes := modify_node parent
                 (\<lambda>m. m\<lparr>nd_children :=
                    vec_insert (min index (length (nd_children m))) key (nd_children m)\<rparr>) ns\<rparr>)"
| "undo_op (UndoMove k parent index) s =
     (let ns = ss_nodes s;
          ns1 = (case fmlookup ns k of
                   None \<Rightarrow> ns
                 | Some n \<Rightarrow>
                     (case nd_parent n of
                        None \<Rightarrow> ns
                      | Some cur \<Rightarrow>
                          modify_node cur
                            (\<lambda>m. m\<lparr>nd_children := filter (\<lambda>v. v \<noteq> k) (nd_children m)\<rparr>) ns));
          ns2 = modify_node parent
                  (\<lambda>m. m\<lparr>nd_children :=
                     vec_insert (min index (length (nd_children m))) k (nd_children m)\<rparr>) ns1;
          ns3 = modify_node k (\<lambda>m. m\<lparr>nd_parent := Some parent\<rparr>) ns2
      in s\<lparr>ss_nodes := ns3\<rparr>)"
| "undo_op (UndoAttribute k name value) s =
     edit_back s k (\<lambda>e. e\<lparr>attributes :=
        (case value of Some v \<Rightarrow> fmupd name v (attributes e) | None \<Rightarrow> fmdrop name (attributes e))\<rparr>)"
| "undo_op (UndoText k value) s = edit_back s k (\<lambda>e. e\<lparr>el_text := value\<rparr>)"
| "undo_op (UndoAppend k len) s =
     edit_back s k (\<lambda>e. e\<lparr>el_text := take (min len (length (el_text e))) (el_text e)\<rparr>)"
| "undo_op (UndoPayload k value) s = edit_back s k (\<lambda>e. e\<lparr>el_payload := value\<rparr>)"

text \<open>The undo stack is kept newest first, the order \<open>into_iter().rev()\<close> consumes it in.\<close>

fun apply_ops ::
  "session_snapshot \<Rightarrow> patch_op list \<Rightarrow> undo list \<Rightarrow> session_snapshot \<times> (state_error, unit) result" where
  "apply_ops s [] us = (s, Inr ())"
| "apply_ops s (x # xs) us =
     (case apply_one s x of
        (s', Inr u) \<Rightarrow> apply_ops s' xs (u # us)
      | (s', Inl err) \<Rightarrow> (fold undo_op us s', Inl err))"

definition apply_patch ::
  "(json \<Rightarrow> string option) \<Rightarrow> session_snapshot \<Rightarrow> patch
   \<Rightarrow> session_snapshot \<times> (state_error, unit) result" where
  "apply_patch js s p =
     (case validate js p of
        Inl e \<Rightarrow> (s, Inl (Invalid (show_error e)))
      | Inr _ \<Rightarrow>
          if offset_nat (base_offset p) \<noteq> ss_offset s
          then (s, Inl (WrongBase (offset_nat (base_offset p)) (ss_offset s)))
          else (case apply_ops s (ops p) [] of
                  (s', Inl err) \<Rightarrow> (s', Inl err)
                | (s', Inr _) \<Rightarrow> (s'\<lparr>ss_offset := offset_nat (result_offset p)\<rparr>, Inr ())))"

end
