(* ===== verification/Transaction.thy ===== *)
theory Transaction
  imports Prelude
begin

text \<open>
  The contract between an operation that can be undone and the loop that runs a list of such
  operations, pushing an undo record for each and replaying the records newest first when one
  fails.  A provider promises that a successful step keeps its invariant and that its undo
  record restores the state, and that a failing step leaves the state alone; the loop is then
  all-or-nothing.
\<close>

locale transaction =
  fixes step :: "'s \<Rightarrow> 'op \<Rightarrow> 's \<times> ('e, 'u) result"
    and undo :: "'u \<Rightarrow> 's \<Rightarrow> 's"
    and inv :: "'s \<Rightarrow> bool"
    and run :: "'s \<Rightarrow> 'op list \<Rightarrow> 'u list \<Rightarrow> 's \<times> ('e, unit) result"
  assumes step_inv: "inv s \<Longrightarrow> step s x = (s', Inr u) \<Longrightarrow> inv s'"
    and step_undo: "inv s \<Longrightarrow> step s x = (s', Inr u) \<Longrightarrow> undo u s' = s"
    and step_error: "inv s \<Longrightarrow> step s x = (s', Inl e) \<Longrightarrow> s' = s"
    and run_Nil: "run s [] us = (s, Inr ())"
    and run_Cons: "run s (x # xs) us =
          (case step s x of
             (s', Inr u) \<Rightarrow> run s' xs (u # us)
           | (s', Inl e) \<Rightarrow> (fold undo us s', Inl e))"
begin

lemma run_Cons_ok: "step s x = (s', Inr u) \<Longrightarrow> run s (x # xs) us = run s' xs (u # us)"
  by (simp add: run_Cons)

lemma run_Cons_error: "step s x = (s', Inl e) \<Longrightarrow> run s (x # xs) us = (fold undo us s', Inl e)"
  by (simp add: run_Cons)

lemma run_error_restores:
  "inv s \<Longrightarrow> run s xs us = (s', Inl e) \<Longrightarrow> s' = fold undo us s"
proof (induction xs arbitrary: s us)
  case Nil
  then show ?case by (simp add: run_Nil)
next
  case (Cons x xs)
  obtain t r where st: "step s x = (t, r)" by (cases "step s x") auto
  show ?case
  proof (cases r)
    case (Inl e')
    with st Cons.prems step_error[of s x t e'] show ?thesis by (simp add: run_Cons_error)
  next
    case (Inr u)
    with st have ok: "step s x = (t, Inr u)" by simp
    from Cons.IH[OF step_inv[OF Cons.prems(1) ok], of "u # us"] Cons.prems(2)
    have "s' = fold undo (u # us) t" by (simp add: run_Cons_ok[OF ok])
    then show ?thesis by (simp add: step_undo[OF Cons.prems(1) ok])
  qed
qed

lemma run_ok_inv: "inv s \<Longrightarrow> run s xs us = (s', Inr v) \<Longrightarrow> inv s'"
proof (induction xs arbitrary: s us)
  case Nil
  then show ?case by (simp add: run_Nil)
next
  case (Cons x xs)
  obtain t r where st: "step s x = (t, r)" by (cases "step s x") auto
  then show ?case
    using Cons step_inv[of s x t] by (cases r) (auto simp: run_Cons_ok run_Cons_error)
qed

text \<open>A relation every step respects, and that composes, holds between start and end.\<close>

lemma run_ok_rel:
  assumes refl: "\<And>s. R s s" and trans: "\<And>s t u. R s t \<Longrightarrow> R t u \<Longrightarrow> R s u"
    and st: "\<And>s x t u. inv s \<Longrightarrow> step s x = (t, Inr u) \<Longrightarrow> R s t"
  shows "inv s \<Longrightarrow> run s xs us = (s', Inr v) \<Longrightarrow> R s s'"
proof (induction xs arbitrary: s us)
  case Nil
  then show ?case by (simp add: run_Nil refl)
next
  case (Cons x xs)
  obtain t r where s: "step s x = (t, r)" by (cases "step s x") auto
  show ?case
  proof (cases r)
    case (Inl e)
    with s Cons.prems show ?thesis by (simp add: run_Cons_error)
  next
    case (Inr u)
    with s have ok: "step s x = (t, Inr u)" by simp
    from Cons.IH[OF step_inv[OF Cons.prems(1) ok]] Cons.prems(2) have "R t s'"
      by (simp add: run_Cons_ok[OF ok])
    with st[OF Cons.prems(1) ok] show ?thesis by (rule trans)
  qed
qed

lemma run_all_or_nothing:
  "inv s \<Longrightarrow> run s xs [] = (s', r) \<Longrightarrow> (\<exists>e. r = Inl e \<and> s' = s) \<or> (r = Inr () \<and> inv s')"
  using run_error_restores[of s xs "[]" s'] run_ok_inv[of s xs "[]" s']
  by (cases r) auto

end

end
