(* ===== verification/DomInv.thy ===== *)
theory DomInv
  imports Dom Transaction
begin

text \<open>
  The well-formedness of the session document and its consequences: the structural containers
  are present, parents and children agree, every node hangs from \<open>root\<close>, and every live id is
  recorded as used.  Every successful operation keeps it, the undo record of an operation
  restores the state it was taken in, and so a patch is applied wholly or not at all.
\<close>

section \<open>Ancestor chains\<close>

inductive anc_path :: "nodes \<Rightarrow> element_id \<Rightarrow> element_id list \<Rightarrow> bool" for ns where
  top: "fmlookup ns k = Some n \<Longrightarrow> nd_parent n = None \<Longrightarrow> anc_path ns k [k]"
| up: "fmlookup ns k = Some n \<Longrightarrow> nd_parent n = Some p \<Longrightarrow> anc_path ns p xs \<Longrightarrow> anc_path ns k (k # xs)"

inductive_cases anc_pathE: "anc_path ns k xs"

lemma anc_path_hd: "anc_path ns k xs \<Longrightarrow> \<exists>ys. xs = k # ys"
  by (auto elim: anc_path.cases)

lemma anc_path_unique: "anc_path ns k xs \<Longrightarrow> anc_path ns k ys \<Longrightarrow> xs = ys"
proof (induction arbitrary: ys rule: anc_path.induct)
  case (top k n)
  from top(3) top(1,2) show ?case by (cases rule: anc_path.cases) auto
next
  case (up k n p xs)
  from up.prems up.hyps(1,2) obtain zs where "ys = k # zs" "anc_path ns p zs"
    by (cases rule: anc_path.cases) auto
  with up.IH show ?case by simp
qed

lemma anc_path_suffix: "anc_path ns k xs \<Longrightarrow> a \<in> set xs \<Longrightarrow> \<exists>ys zs. xs = ys @ zs \<and> anc_path ns a zs"
proof (induction rule: anc_path.induct)
  case (top k n)
  then have "[k] = [] @ [k] \<and> anc_path ns a [k]" by (auto intro: anc_path.top)
  then show ?case by blast
next
  case (up k n p xs)
  show ?case
  proof (cases "a = k")
    case True
    with up.hyps have "anc_path ns a (k # xs)" by (auto intro: anc_path.up)
    then show ?thesis by (metis append_Nil)
  next
    case False
    with up.prems up.IH obtain ys zs where "xs = ys @ zs" "anc_path ns a zs" by auto
    then show ?thesis by (metis append_Cons)
  qed
qed

lemma anc_path_distinct: "anc_path ns k xs \<Longrightarrow> distinct xs"
proof (induction rule: anc_path.induct)
  case (top k n)
  then show ?case by simp
next
  case (up k n p xs)
  have "k \<notin> set xs"
  proof
    assume "k \<in> set xs"
    with anc_path_suffix[OF up.hyps(3)] obtain ys zs where "xs = ys @ zs" "anc_path ns k zs" by blast
    moreover have "anc_path ns k (k # xs)" using up.hyps by (auto intro: anc_path.up)
    ultimately have "k # xs = zs" "xs = ys @ zs" using anc_path_unique by blast+
    then have "length (k # xs) = length zs" "length xs = length ys + length zs" by simp_all
    then show False by simp
  qed
  with up.IH show ?case by simp
qed

lemma anc_path_dom: "anc_path ns k xs \<Longrightarrow> set xs \<subseteq> fset (fmdom ns)"
  by (induction rule: anc_path.induct) (auto simp: fmdomI)

lemma anc_path_length: "anc_path ns k xs \<Longrightarrow> length xs \<le> fcard (fmdom ns)"
  using anc_path_distinct[of ns k xs] anc_path_dom[of ns k xs]
  by (metis card_mono distinct_card fcard.rep_eq finite_fset)

text \<open>Enough fuel for \<open>climb\<close>: it stops on every node that hangs from a top.\<close>

lemma climb_no_diverge:
  assumes "anc_path ns k xs" "length xs \<le> fuel"
  shows "climb fuel ns e k = (if e \<in> set xs then Inl (Invalid ''move creates cycle'') else Inr ())"
  using assms
proof (induction arbitrary: fuel rule: anc_path.induct)
  case (top k n)
  then show ?case by (cases fuel) auto
next
  case (up k n p xs)
  then show ?case by (cases fuel) auto
qed

section \<open>Well-formed documents\<close>

definition linked :: "nodes \<Rightarrow> bool" where
  "linked ns \<longleftrightarrow>
     (\<forall>k n. fmlookup ns k = Some n \<longrightarrow>
        distinct (nd_children n)
        \<and> (\<forall>c \<in> set (nd_children n). \<exists>m. fmlookup ns c = Some m \<and> nd_parent m = Some k)
        \<and> (\<forall>p. nd_parent n = Some p \<longrightarrow> (\<exists>m. fmlookup ns p = Some m \<and> k \<in> set (nd_children m))))"

definition rooted :: "nodes \<Rightarrow> bool" where
  "rooted ns \<longleftrightarrow>
     (\<forall>r \<in> set ROOTS. \<exists>n. fmlookup ns r = Some n \<and> nd_parent n = root_parent r)
     \<and> (\<forall>k n. fmlookup ns k = Some n \<longrightarrow> nd_parent n = None \<longrightarrow> k = ''root'')"

definition grounded :: "nodes \<Rightarrow> bool" where
  "grounded ns \<longleftrightarrow> (\<forall>k n. fmlookup ns k = Some n \<longrightarrow> (\<exists>xs. anc_path ns k xs))"

definition keyed :: "nodes \<Rightarrow> bool" where
  "keyed ns \<longleftrightarrow> (\<forall>k n. fmlookup ns k = Some n \<longrightarrow> el_id (nd_element n) = k)"

definition wf_nodes :: "nodes \<Rightarrow> bool" where
  "wf_nodes ns \<longleftrightarrow> linked ns \<and> rooted ns \<and> grounded ns \<and> keyed ns"

definition wf_snapshot :: "session_snapshot \<Rightarrow> bool" where
  "wf_snapshot s \<longleftrightarrow> wf_nodes (ss_nodes s) \<and> fset (fmdom (ss_nodes s)) \<subseteq> ss_used s"

lemma linkedD:
  assumes "linked ns" "fmlookup ns k = Some n"
  shows "distinct (nd_children n)"
    and "c \<in> set (nd_children n) \<Longrightarrow> \<exists>m. fmlookup ns c = Some m \<and> nd_parent m = Some k"
    and "nd_parent n = Some p \<Longrightarrow> \<exists>m. fmlookup ns p = Some m \<and> k \<in> set (nd_children m)"
  using assms unfolding linked_def by blast+

lemma wf_snapshotD:
  assumes "wf_snapshot s"
  shows "linked (ss_nodes s)" "rooted (ss_nodes s)" "grounded (ss_nodes s)" "keyed (ss_nodes s)"
    and "fmlookup (ss_nodes s) k = Some n \<Longrightarrow> k \<in> ss_used s"
  using assms unfolding wf_snapshot_def wf_nodes_def by (auto simp: fmdomI)

lemma fmlookup_modify_node:
  "fmlookup (modify_node k f ns) j =
     (if j = k then map_option f (fmlookup ns k) else fmlookup ns j)"
  unfolding modify_node_def by (auto split: option.splits)

lemma fmdom_modify_node [simp]: "fmdom (modify_node k f ns) = fmdom ns"
  unfolding modify_node_def by (auto split: option.splits simp: fmdomI)

text \<open>
  Changes that keep the parent, the children and the id of every node keep the document
  well formed.
\<close>

definition same_shape :: "nodes \<Rightarrow> nodes \<Rightarrow> bool" where
  "same_shape ns ns' \<longleftrightarrow>
     (\<forall>k. rel_option (\<lambda>n n'. nd_parent n' = nd_parent n \<and> nd_children n' = nd_children n
        \<and> el_id (nd_element n') = el_id (nd_element n)) (fmlookup ns k) (fmlookup ns' k))"

lemma anc_path_parents:
  assumes "\<And>k n. fmlookup ns k = Some n \<Longrightarrow> \<exists>n'. fmlookup ns' k = Some n' \<and> nd_parent n' = nd_parent n"
  shows "anc_path ns k xs \<Longrightarrow> anc_path ns' k xs"
proof (induction rule: anc_path.induct)
  case (top k n)
  with assms[of k n] show ?case by (auto intro: anc_path.top)
next
  case (up k n p xs)
  from assms[OF up.hyps(1)] obtain n' where "fmlookup ns' k = Some n'" "nd_parent n' = Some p"
    using up.hyps(2) by auto
  with up.IH show ?case by (blast intro: anc_path.up)
qed

lemma same_shapeD:
  assumes "same_shape ns ns'"
  shows "fmlookup ns k = Some n \<Longrightarrow> \<exists>n'. fmlookup ns' k = Some n' \<and> nd_parent n' = nd_parent n
      \<and> nd_children n' = nd_children n \<and> el_id (nd_element n') = el_id (nd_element n)"
    and "fmlookup ns' k = Some n' \<Longrightarrow> \<exists>n. fmlookup ns k = Some n \<and> nd_parent n' = nd_parent n
      \<and> nd_children n' = nd_children n \<and> el_id (nd_element n') = el_id (nd_element n)"
proof -
  from assms have "rel_option (\<lambda>n n'. nd_parent n' = nd_parent n \<and> nd_children n' = nd_children n
      \<and> el_id (nd_element n') = el_id (nd_element n)) (fmlookup ns k) (fmlookup ns' k)"
    by (simp add: same_shape_def)
  then show "fmlookup ns k = Some n \<Longrightarrow> \<exists>n'. fmlookup ns' k = Some n' \<and> nd_parent n' = nd_parent n
      \<and> nd_children n' = nd_children n \<and> el_id (nd_element n') = el_id (nd_element n)"
    and "fmlookup ns' k = Some n' \<Longrightarrow> \<exists>n. fmlookup ns k = Some n \<and> nd_parent n' = nd_parent n
      \<and> nd_children n' = nd_children n \<and> el_id (nd_element n') = el_id (nd_element n)"
    by (cases "fmlookup ns k"; cases "fmlookup ns' k"; simp)+
qed

lemma wf_nodes_same_shape:
  assumes "same_shape ns ns'" "wf_nodes ns"
  shows "wf_nodes ns'"
proof -
  note d = same_shapeD[OF assms(1)]
  from assms(2) have w: "linked ns" "rooted ns" "grounded ns" "keyed ns"
    by (auto simp: wf_nodes_def)
  have "linked ns'"
    unfolding linked_def
  proof (intro allI impI)
    fix k n' assume "fmlookup ns' k = Some n'"
    then obtain n where n: "fmlookup ns k = Some n" "nd_parent n' = nd_parent n" "nd_children n' = nd_children n"
      using d(2) by blast
    show "distinct (nd_children n')
        \<and> (\<forall>c \<in> set (nd_children n'). \<exists>m. fmlookup ns' c = Some m \<and> nd_parent m = Some k)
        \<and> (\<forall>p. nd_parent n' = Some p \<longrightarrow> (\<exists>m. fmlookup ns' p = Some m \<and> k \<in> set (nd_children m)))"
      using linkedD[OF w(1) n(1)] n(2,3) d(1) by metis
  qed
  moreover have "rooted ns'"
    using w(2) d unfolding rooted_def by metis
  moreover have "grounded ns'"
    using w(3) d anc_path_parents[of ns ns'] unfolding grounded_def by metis
  moreover have "keyed ns'"
    using w(4) d unfolding keyed_def by metis
  ultimately show ?thesis by (simp add: wf_nodes_def)
qed

section \<open>Edits of one element\<close>

lemma edit_same_shape:
  "(\<And>e. el_id (f e) = el_id e) \<Longrightarrow>
     same_shape ns (modify_node k (\<lambda>m. m\<lparr>nd_element := f (nd_element m)\<rparr>) ns)"
  unfolding same_shape_def fmlookup_modify_node
  by (auto simp: option.rel_map option.rel_refl)

lemma edit_restore:
  assumes "fmlookup ns k = Some n" "g (f (nd_element n)) = nd_element n"
  shows "modify_node k (\<lambda>m. m\<lparr>nd_element := g (nd_element m)\<rparr>)
           (modify_node k (\<lambda>m. m\<lparr>nd_element := f (nd_element m)\<rparr>) ns) = ns"
  using assms by (intro fmap_ext) (auto simp: fmlookup_modify_node)

lemma edit_element_ok:
  assumes "edit_element s k f u = (s', Inr v)" "wf_snapshot s" "\<And>e. el_id (f e) = el_id e"
  shows "wf_snapshot s'"
proof -
  from assms(1) have s': "s' = s\<lparr>ss_nodes := modify_node k (\<lambda>m. m\<lparr>nd_element := f (nd_element m)\<rparr>) (ss_nodes s)\<rparr>"
    unfolding edit_element_def by (auto split: sum.splits)
  from assms(2) wf_nodes_same_shape[OF edit_same_shape[of f, OF assms(3)]]
  show ?thesis unfolding s' wf_snapshot_def by simp
qed

lemma edit_element_undo:
  assumes "edit_element s k f u = (s', Inr v)"
  shows "\<exists>n. fmlookup (ss_nodes s) k = Some n \<and> v = u (nd_element n)
     \<and> s' = s\<lparr>ss_nodes := modify_node k (\<lambda>m. m\<lparr>nd_element := f (nd_element m)\<rparr>) (ss_nodes s)\<rparr>"
  using assms unfolding edit_element_def require_def snap_node_def
  by (auto split: sum.splits simp: ok_or_Inr_iff)

lemma edit_back_restores:
  assumes "edit_element s k f u = (s', Inr v)"
    and "\<And>n. fmlookup (ss_nodes s) k = Some n \<Longrightarrow> v = u (nd_element n) \<Longrightarrow>
           g (f (nd_element n)) = nd_element n"
  shows "edit_back s' k g = s"
proof -
  from edit_element_undo[OF assms(1)] obtain n where n: "fmlookup (ss_nodes s) k = Some n"
    "v = u (nd_element n)"
    "s' = s\<lparr>ss_nodes := modify_node k (\<lambda>m. m\<lparr>nd_element := f (nd_element m)\<rparr>) (ss_nodes s)\<rparr>" by blast
  show ?thesis unfolding edit_back_def n(3)
    using edit_restore[of _ k n g f, OF n(1) assms(2)[OF n(1,2)]] by simp
qed

section \<open>Creating an element\<close>

lemma require_Inr_iff [result_simps]: "require s k = Inr n \<longleftrightarrow> fmlookup (ss_nodes s) k = Some n"
  unfolding require_def snap_node_def by (simp add: ok_or_Inr_iff)

lemma require_Inl_iff [result_simps]:
  "require s k = Inl e \<longleftrightarrow> fmlookup (ss_nodes s) k = None \<and> e = Missing k"
  unfolding require_def snap_node_def by (simp add: ok_or_Inl_iff)

lemma apply_create_InrD:
  assumes "apply_create s parent index e = (s', Inr u)"
  shows "el_id e \<notin> ss_used s" "u = UndoCreate (el_id e)"
    and "\<exists>pn. fmlookup (ss_nodes s) parent = Some pn \<and> index \<le> length (nd_children pn)"
    and "s' = s\<lparr>ss_nodes := fmupd (el_id e) \<lparr>nd_element = e, nd_parent = Some parent, nd_children = []\<rparr>
                   (modify_node parent
                      (\<lambda>n. n\<lparr>nd_children := vec_insert index (el_id e) (nd_children n)\<rparr>) (ss_nodes s)),
                 ss_used := insert (el_id e) (ss_used s)\<rparr>"
  using assms unfolding apply_create_def
  by (auto simp: result_simps split: if_splits sum.splits)

lemma linked_children_dom:
  assumes "linked ns" "fmlookup ns k = Some n" "c \<in> set (nd_children n)"
  shows "fmlookup ns c \<noteq> None"
  using linkedD(2)[OF assms] by auto

lemma apply_create_wf:
  assumes ok: "apply_create s parent index e = (s', Inr u)" and wf: "wf_snapshot s"
  shows "wf_snapshot s'"
proof -
  let ?i = "el_id e" and ?ns = "ss_nodes s"
  note c = apply_create_InrD[OF ok]
  note w = wf_snapshotD[OF wf]
  obtain pn where pn: "fmlookup ?ns parent = Some pn" "index \<le> length (nd_children pn)"
    using c(3) by blast
  let ?ns' = "ss_nodes s'"
  have fresh: "fmlookup ?ns ?i = None" using w(5) c(1) by (cases "fmlookup ?ns ?i") auto
  then have ip: "?i \<noteq> parent" using pn by auto
  have lk: "fmlookup ?ns' k = (if k = ?i then Some \<lparr>nd_element = e, nd_parent = Some parent, nd_children = []\<rparr>
      else if k = parent then Some (pn\<lparr>nd_children := vec_insert index ?i (nd_children pn)\<rparr>)
      else fmlookup ?ns k)" for k
    using pn ip unfolding c(4) by (auto simp: fmlookup_modify_node)
  have nic: "?i \<notin> set (nd_children n)" if "fmlookup ?ns k = Some n" for k n
    using linked_children_dom[OF w(1) that, of ?i] fresh by auto
  have par: "\<exists>n'. fmlookup ?ns' k = Some n' \<and> nd_parent n' = nd_parent n" if "fmlookup ?ns k = Some n" for k n
    using that fresh pn by (auto simp: lk)
  have "linked ?ns'"
    unfolding linked_def
  proof (intro allI impI)
    fix k n' assume n': "fmlookup ?ns' k = Some n'"
    consider (new) "k = ?i" | (parent) "k = parent" | (old) "k \<noteq> ?i" "k \<noteq> parent" by blast
    then show "distinct (nd_children n')
        \<and> (\<forall>c \<in> set (nd_children n'). \<exists>m. fmlookup ?ns' c = Some m \<and> nd_parent m = Some k)
        \<and> (\<forall>p. nd_parent n' = Some p \<longrightarrow> (\<exists>m. fmlookup ?ns' p = Some m \<and> k \<in> set (nd_children m)))"
    proof cases
      case new
      with n' lk[of k] ip show ?thesis by (auto simp: lk set_vec_insert)
    next
      case parent
      with n' ip have eq: "n' = pn\<lparr>nd_children := vec_insert index ?i (nd_children pn)\<rparr>" by (simp add: lk)
      have ch: "\<exists>m. fmlookup ?ns' c = Some m \<and> nd_parent m = Some k" if "c \<in> set (nd_children pn)" for c
        using linkedD(2)[OF w(1) pn(1) that] par[of c] parent by fastforce
      have up: "\<exists>m. fmlookup ?ns' p = Some m \<and> k \<in> set (nd_children m)" if "nd_parent pn = Some p" for p
        using linkedD(3)[OF w(1) pn(1) that] parent pn fresh
        by (auto simp: lk set_vec_insert)
      show ?thesis
        using linkedD(1)[OF w(1) pn(1)] nic[OF pn(1)] ch up parent ip
        by (auto simp: eq distinct_vec_insert set_vec_insert lk)
    next
      case old
      with n' have n: "fmlookup ?ns k = Some n'" by (simp add: lk)
      have up: "\<exists>m. fmlookup ?ns' p = Some m \<and> k \<in> set (nd_children m)" if "nd_parent n' = Some p" for p
        using linkedD(3)[OF w(1) n that] fresh pn by (auto simp: lk set_vec_insert)
      have ch: "\<exists>m. fmlookup ?ns' c = Some m \<and> nd_parent m = Some k" if "c \<in> set (nd_children n')" for c
        using linkedD(2)[OF w(1) n that] par[of c] by fastforce
      show ?thesis using linkedD(1)[OF w(1) n] up ch by blast
    qed
  qed
  moreover have "rooted ?ns'"
  proof -
    have "\<exists>n. fmlookup ?ns' r = Some n \<and> nd_parent n = root_parent r" if "r \<in> set ROOTS" for r
      using w(2) that par[of r] unfolding rooted_def by fastforce
    moreover have "k = ''root''" if "fmlookup ?ns' k = Some n" "nd_parent n = None" for k n
      using that w(2) pn unfolding rooted_def by (auto simp: lk split: if_splits)
    ultimately show ?thesis unfolding rooted_def by blast
  qed
  moreover have "grounded ?ns'"
  proof -
    have old: "\<exists>xs. anc_path ?ns' k xs" if "fmlookup ?ns k = Some n" for k n
      using w(3) that anc_path_parents[of ?ns ?ns', OF par] unfolding grounded_def by blast
    then obtain xs where "anc_path ?ns' parent xs" using pn by blast
    then have "anc_path ?ns' ?i (?i # xs)"
      by (rule anc_path.up[of ?ns' ?i "\<lparr>nd_element = e, nd_parent = Some parent, nd_children = []\<rparr>" parent, rotated 2])
         (simp_all add: lk)
    with old pn show ?thesis unfolding grounded_def by (auto simp: lk split: if_splits)
  qed
  moreover have "keyed ?ns'"
    using w(4) pn unfolding keyed_def by (auto simp: lk)
  moreover have "fset (fmdom ?ns') \<subseteq> ss_used s'"
    using wf unfolding c(4) wf_snapshot_def by auto
  ultimately show ?thesis by (simp add: wf_snapshot_def wf_nodes_def)
qed

lemma apply_create_undo:
  assumes ok: "apply_create s parent index e = (s', Inr u)" and wf: "wf_snapshot s"
  shows "undo_op u s' = s"
proof -
  let ?i = "el_id e" and ?ns = "ss_nodes s"
  note c = apply_create_InrD[OF ok]
  note w = wf_snapshotD[OF wf]
  obtain pn where pn: "fmlookup ?ns parent = Some pn" "index \<le> length (nd_children pn)"
    using c(3) by blast
  have fresh: "fmlookup ?ns ?i = None" using w(5) c(1) by (cases "fmlookup ?ns ?i") auto
  then have ip: "parent \<noteq> ?i" using pn by auto
  have nic: "?i \<notin> set (nd_children pn)"
    using linked_children_dom[OF w(1) pn(1), of ?i] fresh by auto
  have rb: "modify_node parent (\<lambda>m. m\<lparr>nd_children := filter (\<lambda>v. v \<noteq> ?i) (nd_children m)\<rparr>)
      (modify_node parent (\<lambda>n. n\<lparr>nd_children := vec_insert index ?i (nd_children n)\<rparr>) ?ns) = ?ns"
    using pn nic by (intro fmap_ext) (auto simp: fmlookup_modify_node)
  show ?thesis
    unfolding c(2) c(4) using ip rb fresh c(1)
    by (simp add: fmlookup_modify_node fmdrop_fmupd fmdrop_idle fmdom_notI)
qed

section \<open>Moving a subtree\<close>

lemma mutable_locationD:
  assumes "mutable_location s k = Inr (p, i)"
  shows "k \<notin> set ROOTS"
    and "\<exists>kn pn. fmlookup (ss_nodes s) k = Some kn \<and> nd_parent kn = Some p
           \<and> fmlookup (ss_nodes s) p = Some pn \<and> i < length (nd_children pn) \<and> nd_children pn ! i = k"
  using assms unfolding mutable_location_def
  by (auto simp: result_simps dest!: vec_position_Some split: if_splits)

lemma anc_path_parent_neq:
  assumes "grounded ns" "fmlookup ns k = Some n" "nd_parent n = Some p"
  shows "p \<noteq> k"
proof
  assume "p = k"
  from assms obtain xs where xs: "anc_path ns k xs" by (auto simp: grounded_def)
  then obtain ys where "xs = k # ys" "anc_path ns p ys"
    using assms by (cases rule: anc_path.cases) auto
  with anc_path_distinct[OF xs] anc_path_hd[of ns p ys] \<open>p = k\<close> show False by auto
qed

text \<open>
  What a move does to a node \<open>n\<close> stored under \<open>j\<close>: \<open>k\<close> leaves the list of \<open>op\<close>, enters that
  of \<open>q\<close>, and gets \<open>q\<close> as its parent.
\<close>

definition left_children :: "element_id \<Rightarrow> nat \<Rightarrow> element_id \<Rightarrow> node \<Rightarrow> element_id list" where
  "left_children op oi j n = (if j = op then vec_remove oi (nd_children n) else nd_children n)"

definition moved_node :: "element_id \<Rightarrow> element_id \<Rightarrow> nat \<Rightarrow> element_id \<Rightarrow> nat \<Rightarrow> element_id \<Rightarrow> node \<Rightarrow> node" where
  "moved_node k op oi q index j n =
     n\<lparr>nd_parent := (if j = k then Some q else nd_parent n),
       nd_children := (if j = q then vec_insert index k (left_children op oi j n)
                       else left_children op oi j n)\<rparr>"

lemma moved_node_element [simp]: "nd_element (moved_node k op oi q index j n) = nd_element n"
  by (simp add: moved_node_def)

lemma moved_lookup:
  "fmlookup (modify_node k (\<lambda>n. n\<lparr>nd_parent := Some q\<rparr>)
      (modify_node q (\<lambda>n. n\<lparr>nd_children := vec_insert index k (nd_children n)\<rparr>)
        (modify_node op (\<lambda>n. n\<lparr>nd_children := vec_remove oi (nd_children n)\<rparr>) ns))) j
   = map_option (moved_node k op oi q index j) (fmlookup ns j)"
  unfolding moved_node_def left_children_def
  by (cases "fmlookup ns j") (auto simp: fmlookup_modify_node)

lemma apply_move_InrD:
  assumes "apply_move s k q index = (s', Inr u)"
  shows "\<exists>op oi pn. mutable_location s k = Inr (op, oi) \<and> u = UndoMove k op oi
      \<and> fmlookup (ss_nodes s) q = Some pn
      \<and> index \<le> length (nd_children pn) - (if op = q then 1 else 0)
      \<and> climb (Suc (fcard (fmdom (ss_nodes s)))) (ss_nodes s) k q = Inr ()
      \<and> (\<exists>ns'. s' = s\<lparr>ss_nodes := ns'\<rparr> \<and>
           (\<forall>j. fmlookup ns' j = map_option (moved_node k op oi q index j) (fmlookup (ss_nodes s) j)))"
proof -
  let ?cl = "climb (Suc (fcard (fmdom (ss_nodes s)))) (ss_nodes s) k q"
  obtain op oi where m: "mutable_location s k = Inr (op, oi)"
    using assms by (cases "mutable_location s k") (auto simp: apply_move_def)
  obtain pn where pn: "require s q = Inr pn"
    using assms m by (cases "require s q") (auto simp: apply_move_def)
  have le: "index \<le> length (nd_children pn) - (if op = q then 1 else 0)"
  proof (rule ccontr)
    assume "\<not> ?thesis"
    with assms m pn show False by (simp add: apply_move_def del: climb.simps)
  qed
  obtain x where c: "?cl = Inr x"
    using assms m pn le by (cases ?cl) (simp_all add: apply_move_def del: climb.simps)
  show ?thesis
    using assms m pn le c by (auto simp: apply_move_def require_Inr_iff moved_lookup Let_def
        simp del: climb.simps)
qed

lemma climb_avoids:
  assumes "grounded ns" "fmlookup ns q = Some n" "climb (Suc (fcard (fmdom ns))) ns k q = Inr ()"
  shows "\<exists>xs. anc_path ns q xs \<and> k \<notin> set xs"
proof -
  from assms obtain xs where xs: "anc_path ns q xs" by (auto simp: grounded_def)
  with climb_no_diverge[OF xs, of "Suc (fcard (fmdom ns))" k] anc_path_length[OF xs] assms(3)
  show ?thesis by (auto split: if_splits)
qed

lemma left_children_props:
  assumes "linked ns" "fmlookup ns k = Some kn" "nd_parent kn = Some op" "fmlookup ns op = Some on"
    "oi < length (nd_children on)" "nd_children on ! oi = k" "fmlookup ns j = Some n"
  shows "distinct (left_children op oi j n)" "set (left_children op oi j n) = set (nd_children n) - {k}"
proof -
  have d: "distinct (nd_children n)" using linkedD(1)[OF assms(1,7)] .
  then show "distinct (left_children op oi j n)"
    by (simp add: left_children_def distinct_vec_remove)
  have "k \<notin> set (nd_children n)" if "j \<noteq> op"
    using linkedD(2)[OF assms(1,7), of k] assms(2,3) that by auto
  then show "set (left_children op oi j n) = set (nd_children n) - {k}"
    using d assms(4-7) by (auto simp: left_children_def set_vec_remove)
qed

lemma moved_node_children:
  assumes "distinct (left_children op oi j n)" "set (left_children op oi j n) = set (nd_children n) - {k}"
  shows "distinct (nd_children (moved_node k op oi q index j n))"
    and "set (nd_children (moved_node k op oi q index j n)) =
           (set (nd_children n) - {k}) \<union> (if j = q then {k} else {})"
  using assms by (auto simp: moved_node_def distinct_vec_insert set_vec_insert)

lemma apply_move_wf:
  assumes ok: "apply_move s k q index = (s', Inr u)" and wf: "wf_snapshot s"
  shows "wf_snapshot s'"
proof -
  let ?ns = "ss_nodes s" and ?ns' = "ss_nodes s'"
  note w = wf_snapshotD[OF wf]
  obtain op oi pn where m: "mutable_location s k = Inr (op, oi)" "fmlookup ?ns q = Some pn"
    "climb (Suc (fcard (fmdom ?ns))) ?ns k q = Inr ()"
    and lk: "\<And>j. fmlookup ?ns' j = map_option (moved_node k op oi q index j) (fmlookup ?ns j)"
    and used: "ss_used s' = ss_used s"
    using apply_move_InrD[OF ok] by auto
  obtain kn on where k: "k \<notin> set ROOTS" "fmlookup ?ns k = Some kn" "nd_parent kn = Some op"
    "fmlookup ?ns op = Some on" "oi < length (nd_children on)" "nd_children on ! oi = k"
    using mutable_locationD[OF m(1)] by auto
  note lc = left_children_props[OF w(1) k(2-6)]
  note mc = moved_node_children[OF lc]
  obtain ys where ys: "anc_path ?ns q ys" "k \<notin> set ys" using climb_avoids[OF w(3) m(2,3)] by blast
  then have kq: "k \<noteq> q" using anc_path_hd by fastforce
  have keep: "\<exists>n'. fmlookup ?ns' j = Some n' \<and> nd_parent n' = nd_parent n"
    if "fmlookup ?ns j = Some n" "j \<noteq> k" for j n
    using that by (auto simp: lk moved_node_def)
  have "linked ?ns'"
    unfolding linked_def
  proof (intro allI impI)
    fix j n' assume "fmlookup ?ns' j = Some n'"
    then obtain n where n: "fmlookup ?ns j = Some n" "n' = moved_node k op oi q index j n"
      by (auto simp: lk)
    have ch: "\<exists>m. fmlookup ?ns' c = Some m \<and> nd_parent m = Some j" if "c \<in> set (nd_children n')" for c
    proof (cases "c = k")
      case True
      with that mc(2)[OF n(1) n(1), of q index] have "j = q" by (auto simp: n(2) split: if_splits)
      with True k(2) show ?thesis by (auto simp: lk moved_node_def)
    next
      case False
      with that mc(2)[OF n(1) n(1), of q index] have "c \<in> set (nd_children n)"
        by (auto simp: n(2) split: if_splits)
      with linkedD(2)[OF w(1) n(1)] keep[of c] False show ?thesis by fastforce
    qed
    have up: "\<exists>m. fmlookup ?ns' p = Some m \<and> j \<in> set (nd_children m)" if p: "nd_parent n' = Some p" for p
    proof (cases "j = k")
      case True
      with p n(2) have "p = q" by (simp add: moved_node_def)
      with True mc(2)[OF m(2) m(2), of q index] m(2) show ?thesis by (auto simp: lk)
    next
      case False
      with p n(2) have "nd_parent n = Some p" by (simp add: moved_node_def)
      with linkedD(3)[OF w(1) n(1)] obtain m' where m': "fmlookup ?ns p = Some m'" "j \<in> set (nd_children m')"
        by blast
      with mc(2)[OF m'(1) m'(1), of q index] False show ?thesis by (auto simp: lk)
    qed
    show "distinct (nd_children n')
        \<and> (\<forall>c \<in> set (nd_children n'). \<exists>m. fmlookup ?ns' c = Some m \<and> nd_parent m = Some j)
        \<and> (\<forall>p. nd_parent n' = Some p \<longrightarrow> (\<exists>m. fmlookup ?ns' p = Some m \<and> j \<in> set (nd_children m)))"
      using mc(1)[OF n(1) n(1), of q index] ch up n(2) by blast
  qed
  moreover have "rooted ?ns'"
  proof -
    have "\<exists>n. fmlookup ?ns' r = Some n \<and> nd_parent n = root_parent r" if r: "r \<in> set ROOTS" for r
    proof -
      from w(2) r obtain n where n: "fmlookup ?ns r = Some n" "nd_parent n = root_parent r"
        unfolding rooted_def by blast
      moreover from r k(1) have "r \<noteq> k" by blast
      ultimately show ?thesis using keep[of r n] by simp
    qed
    moreover have "j = ''root''" if j: "fmlookup ?ns' j = Some n'" "nd_parent n' = None" for j n'
    proof -
      from j obtain n where "fmlookup ?ns j = Some n" "nd_parent n = None"
        by (auto simp: lk moved_node_def split: if_splits)
      with w(2) show ?thesis unfolding rooted_def by blast
    qed
    ultimately show ?thesis unfolding rooted_def by blast
  qed
  moreover have "grounded ?ns'"
  proof -
    have avoid: "anc_path ?ns j xs \<Longrightarrow> k \<notin> set xs \<Longrightarrow> anc_path ?ns' j xs" for j xs
    proof (induction rule: anc_path.induct)
      case (top j n)
      with keep[of j n] show ?case by (auto intro: anc_path.top)
    next
      case (up j n p xs)
      with keep[of j n] show ?case by (auto intro: anc_path.up)
    qed
    have kpath: "anc_path ?ns' k (k # ys)"
      using avoid[OF ys] k(2) by (intro anc_path.up[of ?ns' k "moved_node k op oi q index k kn" q])
        (auto simp: lk moved_node_def)
    have "\<exists>zs. anc_path ?ns' j zs" if "anc_path ?ns j xs" for j xs
      using that
    proof (induction rule: anc_path.induct)
      case (top j n)
      with k(2,3) have "j \<noteq> k" by auto
      with keep[of j n] top show ?case by (auto intro: anc_path.top)
    next
      case (up j n p xs)
      then show ?case using kpath keep[of j n] by (cases "j = k") (auto intro: anc_path.up)
    qed
    with w(3) show ?thesis unfolding grounded_def lk map_option_eq_Some by blast
  qed
  moreover have "keyed ?ns'"
    using w(4) unfolding keyed_def by (auto simp: lk)
  moreover have "fset (fmdom ?ns') \<subseteq> ss_used s'"
    using w(5) unfolding used by (fastforce simp: lk elim!: fmdomE)
  ultimately show ?thesis by (simp add: wf_snapshot_def wf_nodes_def)
qed

lemma apply_move_undo:
  assumes ok: "apply_move s k q index = (s', Inr u)" and wf: "wf_snapshot s"
  shows "undo_op u s' = s"
proof -
  let ?ns = "ss_nodes s"
  note w = wf_snapshotD[OF wf]
  obtain op oi pn ns' where m: "mutable_location s k = Inr (op, oi)" "u = UndoMove k op oi"
    "fmlookup ?ns q = Some pn" "climb (Suc (fcard (fmdom ?ns))) ?ns k q = Inr ()"
    and s': "s' = s\<lparr>ss_nodes := ns'\<rparr>"
    and lk: "\<And>j. fmlookup ns' j = map_option (moved_node k op oi q index j) (fmlookup ?ns j)"
    using apply_move_InrD[OF ok] by blast
  obtain kn on where k: "k \<notin> set ROOTS" "fmlookup ?ns k = Some kn" "nd_parent kn = Some op"
    "fmlookup ?ns op = Some on" "oi < length (nd_children on)" "nd_children on ! oi = k"
    using mutable_locationD[OF m(1)] by auto
  note lc = left_children_props[OF w(1) k(2-6)]
  obtain ys where ys: "anc_path ?ns q ys" "k \<notin> set ys" using climb_avoids[OF w(3) m(3,4)] by blast
  then have kq: "k \<noteq> q" using anc_path_hd by fastforce
  have kop: "op \<noteq> k" using anc_path_parent_neq[OF w(3) k(2,3)] .
  define ns1 where "ns1 = modify_node q (\<lambda>m. m\<lparr>nd_children := filter (\<lambda>v. v \<noteq> k) (nd_children m)\<rparr>) ns'"
  define ns2 where "ns2 = modify_node op (\<lambda>m. m\<lparr>nd_children :=
      vec_insert (min oi (length (nd_children m))) k (nd_children m)\<rparr>) ns1"
  define ns3 where "ns3 = modify_node k (\<lambda>m. m\<lparr>nd_parent := Some op\<rparr>) ns2"
  have u: "undo_op u s' = s\<lparr>ss_nodes := ns3\<rparr>"
    using k(2) unfolding m(2) s' ns1_def ns2_def ns3_def
    by (simp add: lk moved_node_def Let_def)
  have l1: "fmlookup ns1 j = map_option (\<lambda>n. n\<lparr>nd_parent := (if j = k then Some q else nd_parent n),
      nd_children := left_children op oi j n\<rparr>) (fmlookup ?ns j)" for j
  proof (cases "fmlookup ?ns j")
    case (Some n)
    with lc(2)[OF Some] show ?thesis
      by (auto simp: ns1_def fmlookup_modify_node lk moved_node_def)
  qed (auto simp: ns1_def fmlookup_modify_node lk)
  have rb: "vec_insert (min oi (length (vec_remove oi (nd_children on)))) k (vec_remove oi (nd_children on))
      = nd_children on"
    using k(5,6) vec_remove_insert[OF k(5)] by (cases "length (nd_children on)") (auto simp: length_vec_remove min_def)
  have "fmlookup ns3 j = fmlookup ?ns j" for j
    using k kop rb
    by (cases "fmlookup ?ns j") (auto simp: ns3_def ns2_def fmlookup_modify_node l1 left_children_def)
  then have "ns3 = ?ns" by (rule fmap_ext)
  with u show ?thesis by simp
qed

section \<open>Deleting a subtree\<close>

text \<open>
  The invariant of the stack loop over the original nodes \<open>ns\<close>: what is removed and what is
  on the stack are descendants of \<open>k\<close>, each met once, and every child of a removed node is
  removed or on the stack.
\<close>

definition below :: "nodes \<Rightarrow> element_id \<Rightarrow> element_id \<Rightarrow> bool" where
  "below ns k c \<longleftrightarrow> (\<exists>xs. anc_path ns c xs \<and> k \<in> set xs)"

definition del_inv ::
  "nodes \<Rightarrow> nodes \<Rightarrow> element_id \<Rightarrow> nodes \<Rightarrow> element_id list \<Rightarrow> (element_id \<times> node) list \<Rightarrow> bool" where
  "del_inv ns ns0 k cur stack removed \<longleftrightarrow>
     (\<forall>(j, n) \<in> set removed. fmlookup ns j = Some n
        \<and> (\<forall>c \<in> set (nd_children n). c \<in> fst ` set removed \<union> set stack))
     \<and> (\<forall>j. fmlookup cur j = (if j \<in> fst ` set removed then None else fmlookup ns0 j))
     \<and> distinct (map fst removed) \<and> distinct stack \<and> set stack \<inter> fst ` set removed = {}
     \<and> (\<forall>c \<in> fst ` set removed \<union> set stack.
          below ns k c \<and> (c = k \<or> (\<exists>(j, n) \<in> set removed. c \<in> set (nd_children n))))
     \<and> (if removed = [] then stack = [k] else fst (hd removed) = k)"

lemma del_invD:
  assumes "del_inv ns ns0 k cur stack removed"
  shows "(j, n) \<in> set removed \<Longrightarrow> fmlookup ns j = Some n"
    and "(j, n) \<in> set removed \<Longrightarrow> c \<in> set (nd_children n) \<Longrightarrow> c \<in> fst ` set removed \<union> set stack"
    and "fmlookup cur i = (if i \<in> fst ` set removed then None else fmlookup ns0 i)"
    and "distinct (map fst removed)" "distinct stack" "set stack \<inter> fst ` set removed = {}"
    and "d \<in> fst ` set removed \<union> set stack \<Longrightarrow> below ns k d"
    and "d \<in> fst ` set removed \<union> set stack \<Longrightarrow> d \<noteq> k \<Longrightarrow>
           \<exists>j n. (j, n) \<in> set removed \<and> d \<in> set (nd_children n)"
    and "if removed = [] then stack = [k] else fst (hd removed) = k"
  using assms unfolding del_inv_def by (blast | fast)+

lemma belowD: "below ns k c \<Longrightarrow> fmlookup ns c \<noteq> None"
  unfolding below_def by (auto elim: anc_path.cases)

lemma below_child:
  assumes "linked ns" "below ns k c" "fmlookup ns c = Some n" "d \<in> set (nd_children n)"
  shows "below ns k d" "d \<noteq> k"
proof -
  from assms(2) obtain xs where xs: "anc_path ns c xs" "k \<in> set xs" by (auto simp: below_def)
  obtain m where m: "fmlookup ns d = Some m" "nd_parent m = Some c"
    using linkedD(2)[OF assms(1,3,4)] by blast
  then have path: "anc_path ns d (d # xs)" using xs(1) by (blast intro: anc_path.up)
  with xs(2) show "below ns k d" unfolding below_def by (metis list.set_intros(2))
  from anc_path_distinct[OF path] xs(2) show "d \<noteq> k" by auto
qed

lemma below_parent_outside:
  assumes "grounded ns" "fmlookup ns k = Some kn" "nd_parent kn = Some p"
  shows "\<not> below ns k p"
proof
  assume "below ns k p"
  then obtain xs where xs: "anc_path ns p xs" "k \<in> set xs" by (auto simp: below_def)
  then have "anc_path ns k (k # xs)" using assms(2,3) by (blast intro: anc_path.up)
  from anc_path_distinct[OF this] xs(2) show False by simp
qed

lemma del_inv_step:
  assumes wf: "linked ns" "grounded ns"
    and out: "\<not> below ns k p" and ns0: "\<And>j. j \<noteq> p \<Longrightarrow> fmlookup ns0 j = fmlookup ns j"
    and inv: "del_inv ns ns0 k cur (c # stack) removed"
  shows "\<exists>n. fmlookup cur c = Some n \<and> fmlookup ns c = Some n
     \<and> del_inv ns ns0 k (fmdrop c cur) (rev (nd_children n) @ stack) (removed @ [(c, n)])"
proof -
  note d = del_invD[OF inv]
  have bc: "below ns k c" using d(7)[of c] by simp
  then have cp: "c \<noteq> p" using out by auto
  obtain n where n: "fmlookup ns c = Some n" using belowD[OF bc] by blast
  have cr: "c \<notin> fst ` set removed" using d(6) by auto
  have cur: "fmlookup cur c = Some n" using d(3)[of c] cr ns0[OF cp] n by simp
  note bch = below_child[OF wf(1) bc n]
  have parent: "\<exists>m. fmlookup ns e = Some m \<and> nd_parent m = Some c" if "e \<in> set (nd_children n)" for e
    using linkedD(2)[OF wf(1) n that] .
  have fresh: "e \<notin> fst ` set removed \<union> set (c # stack)" if e: "e \<in> set (nd_children n)" for e
  proof
    assume "e \<in> fst ` set removed \<union> set (c # stack)"
    then obtain j m where j: "(j, m) \<in> set removed" "e \<in> set (nd_children m)"
      using d(8)[of e] bch(2)[OF e] by blast
    then have "fmlookup ns j = Some m" using d(1) by blast
    from linkedD(2)[OF wf(1) this j(2)] parent[OF e] have "j = c" by auto
    with j(1) cr show False by force
  qed
  have "del_inv ns ns0 k (fmdrop c cur) (rev (nd_children n) @ stack) (removed @ [(c, n)])"
    unfolding del_inv_def
  proof (intro conjI ballI allI)
    fix x assume x: "x \<in> set (removed @ [(c, n)])"
    obtain j m where xjm: "x = (j, m)" by (cases x) auto
    have "fmlookup ns j = Some m" using x d(1) n by (auto simp: xjm)
    moreover have "e \<in> fst ` set (removed @ [(c, n)]) \<union> set (rev (nd_children n) @ stack)"
      if e: "e \<in> set (nd_children m)" for e
    proof (cases "(j, m) \<in> set removed")
      case True
      from d(2)[OF True e] show ?thesis by auto
    next
      case False
      with x e show ?thesis by (auto simp: xjm)
    qed
    ultimately show "case x of (j, m) \<Rightarrow> fmlookup ns j = Some m \<and> (\<forall>e \<in> set (nd_children m).
        e \<in> fst ` set (removed @ [(c, n)]) \<union> set (rev (nd_children n) @ stack))"
      by (simp add: xjm)
  next
    fix j show "fmlookup (fmdrop c cur) j =
        (if j \<in> fst ` set (removed @ [(c, n)]) then None else fmlookup ns0 j)"
      using d(3)[of j] by auto
  next
    show "distinct (map fst (removed @ [(c, n)]))" using d(4) cr by auto
  next
    show "distinct (rev (nd_children n) @ stack)"
      using d(5) linkedD(1)[OF wf(1) n] fresh by auto
  next
    show "set (rev (nd_children n) @ stack) \<inter> fst ` set (removed @ [(c, n)]) = {}"
      using d(5,6) fresh by auto
  next
    fix e assume "e \<in> fst ` set (removed @ [(c, n)]) \<union> set (rev (nd_children n) @ stack)"
    then have e: "e \<in> fst ` set removed \<union> set (c # stack) \<or> e \<in> set (nd_children n)" by auto
    then show "below ns k e" using d(7) bch(1) by blast
    show "e = k \<or> (\<exists>(j, m) \<in> set (removed @ [(c, n)]). e \<in> set (nd_children m))"
    proof (cases "e \<in> set (nd_children n)")
      case True
      then show ?thesis by auto
    next
      case False
      with e have "e \<in> fst ` set removed \<union> set (c # stack)" by blast
      from d(8)[OF this] show ?thesis by auto
    qed
  next
    show "if removed @ [(c, n)] = [] then rev (nd_children n) @ stack = [k]
        else fst (hd (removed @ [(c, n)])) = k"
      using d(9) by (cases removed) auto
  qed
  with cur n show ?thesis by blast
qed

lemma remove_subtree_inv:
  assumes wf: "linked ns" "grounded ns"
    and out: "\<not> below ns k p" and ns0: "\<And>j. j \<noteq> p \<Longrightarrow> fmlookup ns0 j = fmlookup ns j"
  shows "del_inv ns ns0 k cur stack removed \<Longrightarrow>
     \<exists>ns' rm. remove_subtree cur stack removed = (ns', Inr rm) \<and> del_inv ns ns0 k ns' [] rm"
proof (induction cur stack removed rule: remove_subtree.induct)
  case (1 cur removed)
  then show ?case by simp
next
  case (2 cur c stack removed)
  from del_inv_step[OF wf out ns0 2(2)] obtain n where n: "fmlookup cur c = Some n"
    "del_inv ns ns0 k (fmdrop c cur) (rev (nd_children n) @ stack) (removed @ [(c, n)])" by blast
  with 2(1)[OF n] show ?case by simp
qed

lemma roots_path:
  assumes "rooted ns" "anc_path ns r xs" "r \<in> set ROOTS"
  shows "set xs \<subseteq> set ROOTS"
  using assms(2,3)
proof (induction rule: anc_path.induct)
  case (top k n)
  then show ?case by simp
next
  case (up k n p xs)
  from assms(1) up.prems up.hyps(1,2) have "root_parent k = Some p"
    unfolding rooted_def by fastforce
  then have "p \<in> set ROOTS" by (auto simp: root_parent_def ROOTS_def split: if_splits)
  with up show ?case by simp
qed

lemma apply_delete_loop:
  assumes m: "mutable_location s k = Inr (p, i)" and wf: "wf_snapshot s"
    and ns0: "ns0 = modify_node p (\<lambda>n. n\<lparr>nd_children := vec_remove i (nd_children n)\<rparr>) (ss_nodes s)"
  shows "\<exists>ns' rm. remove_subtree ns0 [k] [] = (ns', Inr rm) \<and> del_inv (ss_nodes s) ns0 k ns' [] rm"
proof -
  note w = wf_snapshotD[OF wf]
  obtain kn pn where k: "fmlookup (ss_nodes s) k = Some kn" "nd_parent kn = Some p"
    using mutable_locationD(2)[OF m] by blast
  obtain xs where xs: "anc_path (ss_nodes s) k xs" using w(3) k(1) by (auto simp: grounded_def)
  with anc_path_hd[OF xs] have "below (ss_nodes s) k k" by (auto simp: below_def)
  then have "del_inv (ss_nodes s) ns0 k ns0 [k] []" by (simp add: del_inv_def)
  moreover have "fmlookup ns0 j = fmlookup (ss_nodes s) j" if "j \<noteq> p" for j
    using that by (simp add: ns0 fmlookup_modify_node)
  ultimately show ?thesis
    using remove_subtree_inv[OF w(1,3) below_parent_outside[OF w(3) k], of ns0] by blast
qed

lemma apply_delete_InrD:
  assumes ok: "apply_delete s k = (s', Inr u)" and wf: "wf_snapshot s"
  shows "\<exists>p i ns0 ns' rm. mutable_location s k = Inr (p, i) \<and> u = UndoDelete rm p i
     \<and> ns0 = modify_node p (\<lambda>n. n\<lparr>nd_children := vec_remove i (nd_children n)\<rparr>) (ss_nodes s)
     \<and> s' = s\<lparr>ss_nodes := ns'\<rparr> \<and> del_inv (ss_nodes s) ns0 k ns' [] rm"
proof -
  obtain p i where m: "mutable_location s k = Inr (p, i)"
    using ok by (cases "mutable_location s k") (auto simp: apply_delete_def)
  let ?ns0 = "modify_node p (\<lambda>n. n\<lparr>nd_children := vec_remove i (nd_children n)\<rparr>) (ss_nodes s)"
  obtain ns' rm where r: "remove_subtree ?ns0 [k] [] = (ns', Inr rm)" "del_inv (ss_nodes s) ?ns0 k ns' [] rm"
    using apply_delete_loop[OF m wf refl] by blast
  with ok m have "u = UndoDelete rm p i" "s' = s\<lparr>ss_nodes := ns'\<rparr>"
    by (simp_all add: apply_delete_def Let_def del: remove_subtree.simps)
  with m r(2) show ?thesis by blast
qed

lemma apply_delete_no_late_error:
  assumes "apply_delete s k = (s', Inl e)" "wf_snapshot s"
  shows "s' = s"
proof (cases "mutable_location s k")
  case (Inl err)
  with assms(1) show ?thesis by (simp add: apply_delete_def)
next
  case (Inr pi)
  obtain p i where "pi = (p, i)" by (cases pi) auto
  with Inr have m: "mutable_location s k = Inr (p, i)" by simp
  from apply_delete_loop[OF m assms(2) refl] assms(1) m show ?thesis
    by (auto simp: apply_delete_def Let_def)
qed

lemma apply_delete_wf:
  assumes ok: "apply_delete s k = (s', Inr u)" and wf: "wf_snapshot s"
  shows "wf_snapshot s'"
proof -
  let ?ns = "ss_nodes s"
  note w = wf_snapshotD[OF wf]
  obtain p i ns0 ns' rm where m: "mutable_location s k = Inr (p, i)"
    and ns0: "ns0 = modify_node p (\<lambda>n. n\<lparr>nd_children := vec_remove i (nd_children n)\<rparr>) ?ns"
    and s': "s' = s\<lparr>ss_nodes := ns'\<rparr>" and inv: "del_inv ?ns ns0 k ns' [] rm"
    using apply_delete_InrD[OF ok wf] by blast
  obtain kn pn where k: "k \<notin> set ROOTS" "fmlookup ?ns k = Some kn" "nd_parent kn = Some p"
    "fmlookup ?ns p = Some pn" "i < length (nd_children pn)" "nd_children pn ! i = k"
    using mutable_locationD[OF m] by auto
  let ?D = "fst ` set rm"
  note d = del_invD[OF inv]
  have kD: "k \<in> ?D" using d(9) by (cases rm) auto
  have pD: "p \<notin> ?D" using d(7)[of p] below_parent_outside[OF w(3) k(2,3)] by auto
  have outside: "q \<notin> ?D" if j: "j \<notin> ?D" "fmlookup ?ns j = Some n" "nd_parent n = Some q" for j n q
  proof
    assume "q \<in> ?D"
    then obtain nq where nq: "(q, nq) \<in> set rm" by auto
    obtain m where "fmlookup ?ns q = Some m" "j \<in> set (nd_children m)"
      using linkedD(3)[OF w(1) j(2,3)] by blast
    with d(1)[OF nq] d(2)[OF nq, of j] j(1) show False by simp
  qed
  have roots: "r \<notin> ?D" if r: "r \<in> set ROOTS" for r
  proof
    assume "r \<in> ?D"
    with d(7)[of r] obtain xs where "anc_path ?ns r xs" "k \<in> set xs" by (auto simp: below_def)
    with roots_path[OF w(2) _ r] k(1) show False by blast
  qed
  have lk: "fmlookup ns' j = (if j \<in> ?D then None
      else map_option (\<lambda>n. n\<lparr>nd_children := left_children p i j n\<rparr>) (fmlookup ?ns j))" for j
    unfolding d(3) ns0 left_children_def
    by (cases "fmlookup ?ns j") (auto simp: fmlookup_modify_node)
  note lc = left_children_props[OF w(1) k(2-6)]
  have keep: "\<exists>n'. fmlookup ns' j = Some n' \<and> nd_parent n' = nd_parent n"
    if "fmlookup ?ns j = Some n" "j \<notin> ?D" for j n
    using that by (simp add: lk)
  have "linked ns'"
    unfolding linked_def
  proof (intro allI impI)
    fix j n' assume "fmlookup ns' j = Some n'"
    then obtain n where n: "j \<notin> ?D" "fmlookup ?ns j = Some n"
      "n' = n\<lparr>nd_children := left_children p i j n\<rparr>"
      by (auto simp: lk split: if_splits)
    have ch: "\<exists>m. fmlookup ns' c = Some m \<and> nd_parent m = Some j" if c: "c \<in> set (nd_children n')" for c
    proof -
      from c lc(2)[OF n(2)] have c': "c \<in> set (nd_children n)" "c \<noteq> k" by (auto simp: n(3))
      obtain m where m: "fmlookup ?ns c = Some m" "nd_parent m = Some j"
        using linkedD(2)[OF w(1) n(2) c'(1)] by blast
      have "c \<notin> ?D"
      proof
        assume "c \<in> ?D"
        with d(8)[of c] c'(2) obtain q nq where q: "(q, nq) \<in> set rm" "c \<in> set (nd_children nq)" by blast
        with linkedD(2)[OF w(1) d(1)[OF q(1)] q(2)] m have "q = j" by auto
        with q(1) n(1) show False by force
      qed
      with keep[OF m(1)] m(2) show ?thesis by simp
    qed
    have upc: "\<exists>m. fmlookup ns' q = Some m \<and> j \<in> set (nd_children m)" if q: "nd_parent n' = Some q" for q
    proof -
      from q n(3) have q': "nd_parent n = Some q" by simp
      obtain m where m: "fmlookup ?ns q = Some m" "j \<in> set (nd_children m)"
        using linkedD(3)[OF w(1) n(2) q'] by blast
      have "j \<noteq> k" using n(1) kD by auto
      with lc(2)[OF m(1)] m(2) outside[OF n(1,2) q'] m(1) show ?thesis by (simp add: lk)
    qed
    show "distinct (nd_children n')
        \<and> (\<forall>c \<in> set (nd_children n'). \<exists>m. fmlookup ns' c = Some m \<and> nd_parent m = Some j)
        \<and> (\<forall>q. nd_parent n' = Some q \<longrightarrow> (\<exists>m. fmlookup ns' q = Some m \<and> j \<in> set (nd_children m)))"
      using lc(1)[OF n(2)] ch upc n(3) by simp
  qed
  moreover have "rooted ns'"
  proof -
    have "\<exists>n. fmlookup ns' r = Some n \<and> nd_parent n = root_parent r" if r: "r \<in> set ROOTS" for r
      using w(2) r roots[OF r] keep[of r] unfolding rooted_def by fastforce
    moreover have "j = ''root''" if j: "fmlookup ns' j = Some n'" "nd_parent n' = None" for j n'
    proof -
      from j obtain n where "fmlookup ?ns j = Some n" "nd_parent n = None"
        by (auto simp: lk split: if_splits)
      with w(2) show ?thesis unfolding rooted_def by blast
    qed
    ultimately show ?thesis unfolding rooted_def by blast
  qed
  moreover have "grounded ns'"
  proof -
    have "j \<notin> ?D \<Longrightarrow> anc_path ns' j xs" if "anc_path ?ns j xs" for j xs
      using that
    proof (induction rule: anc_path.induct)
      case (top j n)
      with keep[OF top.hyps(1) top.prems] show ?case by (auto intro: anc_path.top)
    next
      case (up j n q xs)
      from outside[OF up.prems up.hyps(1,2)] up.IH have "anc_path ns' q xs" by blast
      with keep[OF up.hyps(1) up.prems] up.hyps(2) show ?case by (auto intro: anc_path.up)
    qed
    moreover have "j \<notin> ?D \<and> fmlookup ?ns j \<noteq> None" if "fmlookup ns' j = Some n'" for j n'
      using that unfolding lk by (auto split: if_splits)
    ultimately show ?thesis using w(3) unfolding grounded_def by blast
  qed
  moreover have "keyed ns'"
    using w(4) unfolding keyed_def by (fastforce simp: lk split: if_splits)
  moreover have "fset (fmdom ns') \<subseteq> ss_used s'"
    using w(5) unfolding s' by (fastforce simp: lk elim!: fmdomE split: if_splits)
  ultimately show ?thesis by (simp add: wf_snapshot_def wf_nodes_def s')
qed

lemma fmlookup_fold_fmupd:
  "fmlookup (fold (\<lambda>(k, n). fmupd k n) xs m) j =
     (case map_of (rev xs) j of Some n \<Rightarrow> Some n | None \<Rightarrow> fmlookup m j)"
  by (induction xs arbitrary: m) (auto simp: map_add_def split: option.splits)

lemma apply_delete_undo:
  assumes ok: "apply_delete s k = (s', Inr u)" and wf: "wf_snapshot s"
  shows "undo_op u s' = s"
proof -
  let ?ns = "ss_nodes s"
  note w = wf_snapshotD[OF wf]
  obtain p i ns0 ns' rm where m: "mutable_location s k = Inr (p, i)" "u = UndoDelete rm p i"
    and ns0: "ns0 = modify_node p (\<lambda>n. n\<lparr>nd_children := vec_remove i (nd_children n)\<rparr>) ?ns"
    and s': "s' = s\<lparr>ss_nodes := ns'\<rparr>" and inv: "del_inv ?ns ns0 k ns' [] rm"
    using apply_delete_InrD[OF ok wf] by blast
  obtain kn pn where k: "fmlookup ?ns k = Some kn" "nd_parent kn = Some p"
    "fmlookup ?ns p = Some pn" "i < length (nd_children pn)" "nd_children pn ! i = k"
    using mutable_locationD[OF m(1)] by auto
  note d = del_invD[OF inv]
  obtain kn' rm' where rm: "rm = (k, kn') # rm'" using d(9) by (cases rm) auto
  have pD: "p \<notin> fst ` set rm" using d(7)[of p] below_parent_outside[OF w(3) k(1,2)] by auto
  define ns1 where "ns1 = fold (\<lambda>(k, n). fmupd k n) rm ns'"
  have l1: "fmlookup ns1 j = (if j \<in> fst ` set rm then fmlookup ?ns j else fmlookup ns0 j)" for j
  proof (cases "j \<in> fst ` set rm")
    case True
    then obtain n where n: "(j, n) \<in> set rm" by auto
    then have "map_of (rev rm) j = Some n" using d(4) by (simp add: rev_map[symmetric])
    with True d(1)[OF n] show ?thesis by (simp add: ns1_def fmlookup_fold_fmupd)
  next
    case False
    then have "map_of (rev rm) j = None" by (simp add: map_of_eq_None_iff)
    with False d(3)[of j] show ?thesis by (simp add: ns1_def fmlookup_fold_fmupd)
  qed
  have rb: "vec_insert (min i (length (vec_remove i (nd_children pn)))) k (vec_remove i (nd_children pn))
      = nd_children pn"
    using k(4,5) vec_remove_insert[OF k(4)]
    by (cases "length (nd_children pn)") (auto simp: length_vec_remove min_def)
  let ?ns3 = "modify_node p (\<lambda>m. m\<lparr>nd_children :=
      vec_insert (min i (length (nd_children m))) k (nd_children m)\<rparr>) ns1"
  have "fmlookup ?ns3 j = fmlookup ?ns j" for j
    using k(3) pD rb by (auto simp: fmlookup_modify_node l1 ns0)
  then have "?ns3 = ?ns" by (rule fmap_ext)
  moreover have "undo_op u s' = s'\<lparr>ss_nodes := ?ns3\<rparr>"
    unfolding m(2) by (simp add: rm ns1_def s')
  ultimately show ?thesis by (simp add: s')
qed

text \<open>What a deletion removes: exactly the subtree below the element.\<close>

lemma apply_delete_dom:
  assumes ok: "apply_delete s k = (s', Inr u)" and wf: "wf_snapshot s"
  shows "fmlookup (ss_nodes s') j \<noteq> None \<longleftrightarrow>
           fmlookup (ss_nodes s) j \<noteq> None \<and> \<not> below (ss_nodes s) k j"
proof -
  let ?ns = "ss_nodes s"
  note w = wf_snapshotD[OF wf]
  obtain p i ns0 ns' rm where m: "mutable_location s k = Inr (p, i)"
    and ns0: "ns0 = modify_node p (\<lambda>n. n\<lparr>nd_children := vec_remove i (nd_children n)\<rparr>) ?ns"
    and s': "s' = s\<lparr>ss_nodes := ns'\<rparr>" and inv: "del_inv ?ns ns0 k ns' [] rm"
    using apply_delete_InrD[OF ok wf] by blast
  note d = del_invD[OF inv]
  have kD: "k \<in> fst ` set rm" using d(9) by (cases rm) auto
  have "k \<in> set xs \<longrightarrow> c \<in> fst ` set rm" if "anc_path ?ns c xs" for c xs
    using that
  proof (induction rule: anc_path.induct)
    case (top c n)
    show ?case
    proof
      assume "k \<in> set [c]"
      then have "k = c" by simp
      with kD show "c \<in> fst ` set rm" by (simp only:)
    qed
  next
    case (up c n q xs)
    show ?case
    proof
      assume kc: "k \<in> set (c # xs)"
      show "c \<in> fst ` set rm"
      proof (cases "c = k")
        case True
        with kD show ?thesis by simp
      next
        case False
        with kc up.IH obtain nq where nq: "(q, nq) \<in> set rm" by auto
        obtain m where "fmlookup ?ns q = Some m" "c \<in> set (nd_children m)"
          using linkedD(3)[OF w(1) up.hyps(1,2)] by blast
        with d(1)[OF nq] d(2)[OF nq, of c] show ?thesis by simp
      qed
    qed
  qed
  then have "below ?ns k j \<longleftrightarrow> j \<in> fst ` set rm" using d(7)[of j] by (auto simp: below_def)
  then show ?thesis
    by (cases "fmlookup ?ns j") (auto simp: s' d(3) ns0 fmlookup_modify_node)
qed

section \<open>One operation\<close>

lemma apply_one_wf: "wf_snapshot s \<Longrightarrow> apply_one s x = (s', Inr u) \<Longrightarrow> wf_snapshot s'"
  by (cases x) (auto dest: apply_create_wf apply_delete_wf apply_move_wf edit_element_ok)

lemma apply_one_undo: "wf_snapshot s \<Longrightarrow> apply_one s x = (s', Inr u) \<Longrightarrow> undo_op u s' = s"
proof (cases x)
  case (SetAttribute k name v)
  assume "apply_one s x = (s', Inr u)"
  with SetAttribute have e: "edit_element s k (\<lambda>e. e\<lparr>attributes := fmupd name v (attributes e)\<rparr>)
       (\<lambda>e. UndoAttribute k name (fmlookup (attributes e) name)) = (s', Inr u)" by simp
  obtain n where "fmlookup (ss_nodes s) k = Some n"
    "u = UndoAttribute k name (fmlookup (attributes (nd_element n)) name)"
    using edit_element_undo[OF e] by blast
  then show ?thesis
    using edit_back_restores[OF e] by (auto split: option.splits simp: fmdrop_fmupd fmdrop_idle fmdom_notI)
next
  case (RemoveAttribute k name)
  assume "apply_one s x = (s', Inr u)"
  with RemoveAttribute have e: "edit_element s k (\<lambda>e. e\<lparr>attributes := fmdrop name (attributes e)\<rparr>)
       (\<lambda>e. UndoAttribute k name (fmlookup (attributes e) name)) = (s', Inr u)" by simp
  obtain n where "fmlookup (ss_nodes s) k = Some n"
    "u = UndoAttribute k name (fmlookup (attributes (nd_element n)) name)"
    using edit_element_undo[OF e] by blast
  then show ?thesis
    using edit_back_restores[OF e] by (auto split: option.splits simp: fmdrop_idle fmdom_notI)
next
  case (ReplaceText k t)
  assume "apply_one s x = (s', Inr u)"
  with ReplaceText have e: "edit_element s k (\<lambda>e. e\<lparr>el_text := t\<rparr>) (\<lambda>e. UndoText k (el_text e)) = (s', Inr u)"
    by simp
  obtain n where "fmlookup (ss_nodes s) k = Some n" "u = UndoText k (el_text (nd_element n))"
    using edit_element_undo[OF e] by blast
  then show ?thesis using edit_back_restores[OF e] by auto
next
  case (AppendText k t)
  assume "apply_one s x = (s', Inr u)"
  with AppendText have e: "edit_element s k (\<lambda>e. e\<lparr>el_text := el_text e @ t\<rparr>)
      (\<lambda>e. UndoAppend k (length (el_text e))) = (s', Inr u)"
    by simp
  obtain n where "fmlookup (ss_nodes s) k = Some n" "u = UndoAppend k (length (el_text (nd_element n)))"
    using edit_element_undo[OF e] by blast
  then show ?thesis using edit_back_restores[OF e] by auto
next
  case (ReplacePayload k j)
  assume "apply_one s x = (s', Inr u)"
  with ReplacePayload have e: "edit_element s k (\<lambda>e. e\<lparr>el_payload := Some j\<rparr>)
      (\<lambda>e. UndoPayload k (el_payload e)) = (s', Inr u)"
    by simp
  obtain n where "fmlookup (ss_nodes s) k = Some n" "u = UndoPayload k (el_payload (nd_element n))"
    using edit_element_undo[OF e] by blast
  then show ?thesis using edit_back_restores[OF e] by auto
qed (auto dest: apply_create_undo apply_delete_undo apply_move_undo)

lemma edit_element_error: "edit_element s k f u = (s', Inl e) \<Longrightarrow> s' = s"
  unfolding edit_element_def by (auto split: sum.splits)

lemma apply_create_error: "apply_create s parent index e = (s', Inl err) \<Longrightarrow> s' = s"
  unfolding apply_create_def by (auto split: sum.splits if_splits)

lemma apply_move_error: "apply_move s k q index = (s', Inl err) \<Longrightarrow> s' = s"
  unfolding apply_move_def by (auto simp: Let_def split: sum.splits if_splits prod.splits)

lemma apply_one_error: "wf_snapshot s \<Longrightarrow> apply_one s x = (s', Inl e) \<Longrightarrow> s' = s"
  by (cases x) (auto dest: apply_create_error apply_delete_no_late_error apply_move_error
      edit_element_error)

interpretation doc: transaction apply_one undo_op wf_snapshot apply_ops
  by unfold_locales (auto intro: apply_one_wf apply_one_undo apply_one_error)

end
