(* ===== verification/DomProps.thy ===== *)
theory DomProps
  imports DomInv
begin

text \<open>
  The initial document is well formed, and the properties of \<open>omp-state/src/dom.rs\<close> that
  the other components rely on: patches are all-or-nothing, keep the document well formed,
  never reuse an identifier and never loop; a deletion takes away exactly one subtree; the
  structural containers are permanent, so the panicking accessors do not panic.
\<close>

section \<open>The initial document\<close>

fun parents_first :: "string list \<Rightarrow> string list \<Rightarrow> bool" where
  "parents_first seen [] \<longleftrightarrow> True"
| "parents_first seen (x # xs) \<longleftrightarrow>
     x \<notin> set seen \<and> (case root_parent x of None \<Rightarrow> True | Some p \<Rightarrow> p \<in> set seen)
     \<and> parents_first (seen @ [x]) xs"

definition holds_roots :: "string list \<Rightarrow> nodes \<Rightarrow> bool" where
  "holds_roots ds ns \<longleftrightarrow>
     (\<forall>k. fmlookup ns k =
        (if k \<in> set ds
         then Some \<lparr>nd_element = new_element k k, nd_parent = root_parent k,
                    nd_children = filter (\<lambda>c. root_parent c = Some k) ds\<rparr>
         else None))"

lemma insert_root_holds:
  assumes h: "holds_roots ds (ss_nodes s)" and x: "x \<notin> set ds"
    and p: "case root_parent x of None \<Rightarrow> True | Some p \<Rightarrow> p \<in> set ds"
    and cl: "\<forall>c \<in> set ds. \<forall>p. root_parent c = Some p \<longrightarrow> p \<in> set ds"
  shows "holds_roots (ds @ [x]) (ss_nodes (insert_root x s))"
    and "ss_used (insert_root x s) = insert x (ss_used s)"
    and "\<forall>c \<in> set (ds @ [x]). \<forall>p. root_parent c = Some p \<longrightarrow> p \<in> set (ds @ [x])"
proof -
  note l = h[unfolded holds_roots_def, rule_format]
  have nox: "filter (\<lambda>c. root_parent c = Some x) ds = []"
    using cl x by (auto simp: filter_empty_conv)
  show "holds_roots (ds @ [x]) (ss_nodes (insert_root x s))"
  proof (cases "root_parent x")
    case None
    with nox show ?thesis by (auto simp: holds_roots_def insert_root_def Let_def l)
  next
    case (Some q)
    with p have q: "q \<in> set ds" "q \<noteq> x" using x by auto
    show ?thesis
      using Some q nox x by (auto simp: holds_roots_def insert_root_def Let_def l fmlookup_modify_node)
  qed
  show "ss_used (insert_root x s) = insert x (ss_used s)" by (simp add: insert_root_def Let_def)
  show "\<forall>c \<in> set (ds @ [x]). \<forall>p. root_parent c = Some p \<longrightarrow> p \<in> set (ds @ [x])"
    using cl p by (auto split: option.splits)
qed

lemma fold_insert_root_holds:
  assumes "holds_roots ds (ss_nodes s)" "parents_first ds xs" "ss_used s = set ds"
    "\<forall>c \<in> set ds. \<forall>p. root_parent c = Some p \<longrightarrow> p \<in> set ds"
  shows "holds_roots (ds @ xs) (ss_nodes (fold insert_root xs s))
       \<and> ss_used (fold insert_root xs s) = set (ds @ xs)"
  using assms
proof (induction xs arbitrary: ds s)
  case Nil
  then show ?case by simp
next
  case (Cons x xs)
  then have x: "x \<notin> set ds" "case root_parent x of None \<Rightarrow> True | Some p \<Rightarrow> p \<in> set ds"
    "parents_first (ds @ [x]) xs" by simp_all
  note i = insert_root_holds[OF Cons.prems(1) x(1,2) Cons.prems(4)]
  have "ss_used (insert_root x s) = set (ds @ [x])" using i(2) Cons.prems(3) by simp
  from Cons.IH[OF i(1) x(3) this i(3)] show ?case by simp
qed

lemma parents_first_ROOTS: "parents_first [] ROOTS"
  by code_simp

lemma insert_root_fields [simp]:
  "ss_session (insert_root x s) = ss_session s" "ss_offset (insert_root x s) = ss_offset s"
  "ss_branch (insert_root x s) = ss_branch s"
  by (simp_all add: insert_root_def Let_def)

lemma fold_insert_root_fields [simp]:
  "ss_session (fold insert_root xs s) = ss_session s" "ss_offset (fold insert_root xs s) = ss_offset s"
  "ss_branch (fold insert_root xs s) = ss_branch s"
  by (induction xs arbitrary: s) simp_all

lemma empty_snapshot_fields [simp]:
  "ss_session (empty_snapshot sid) = sid" "ss_offset (empty_snapshot sid) = 0"
  "ss_branch (empty_snapshot sid) = ''main''"
  by (simp_all add: empty_snapshot_def)

lemma empty_snapshot_holds:
  "holds_roots ROOTS (ss_nodes (empty_snapshot sid))" "ss_used (empty_snapshot sid) = set ROOTS"
proof -
  let ?s = "\<lparr>ss_session = sid, ss_offset = 0, ss_branch = ''main'', ss_nodes = fmempty, ss_used = {}\<rparr>"
  have "holds_roots [] (ss_nodes ?s)" by (simp add: holds_roots_def)
  from fold_insert_root_holds[OF this parents_first_ROOTS]
  show "holds_roots ROOTS (ss_nodes (empty_snapshot sid))" "ss_used (empty_snapshot sid) = set ROOTS"
    by (simp_all add: empty_snapshot_def)
qed

lemma empty_snapshot_lookup:
  "fmlookup (ss_nodes (empty_snapshot sid)) k =
     (if k \<in> set ROOTS
      then Some \<lparr>nd_element = new_element k k, nd_parent = root_parent k,
                 nd_children = filter (\<lambda>c. root_parent c = Some k) ROOTS\<rparr>
      else None)"
  using empty_snapshot_holds(1) by (simp add: holds_roots_def)

lemma distinct_ROOTS: "distinct ROOTS"
  by code_simp

lemma root_parent_ROOTS: "list_all (\<lambda>k. case root_parent k of None \<Rightarrow> k = ''root'' | Some p \<Rightarrow> p \<in> set ROOTS) ROOTS"
  by code_simp

lemma ROOTS_mem: "''root'' \<in> set ROOTS" "''meta'' \<in> set ROOTS" "''queues'' \<in> set ROOTS"
  "''body'' \<in> set ROOTS" "''convars'' \<in> set ROOTS" "''jobs'' \<in> set ROOTS" "''todo'' \<in> set ROOTS"
  "''actors'' \<in> set ROOTS" "''directors'' \<in> set ROOTS" "''tools'' \<in> set ROOTS"
  by (simp_all add: ROOTS_def)

lemma valid_id_ROOTS: "list_all valid_id ROOTS"
  by code_simp

lemma root_parent_inner:
  "root_parent ''root'' = None" "root_parent ''meta'' = Some ''root''" "root_parent ''queues'' = Some ''root''"
  by (simp_all add: root_parent_def)

lemma empty_grounded:
  assumes "k \<in> set ROOTS"
  shows "\<exists>xs. anc_path (ss_nodes (empty_snapshot sid)) k xs"
proof -
  let ?ns = "ss_nodes (empty_snapshot sid)"
  note l = empty_snapshot_lookup
  have r: "anc_path ?ns ''root'' [''root'']"
    by (rule anc_path.top[OF l[of sid "''root''", simplified ROOTS_mem if_True]])
      (simp add: root_parent_inner)
  have m: "anc_path ?ns ''meta'' [''meta'', ''root'']"
    by (rule anc_path.up[OF l[of sid "''meta''", simplified ROOTS_mem if_True] _ r])
      (simp add: root_parent_inner)
  have q: "anc_path ?ns ''queues'' [''queues'', ''root'']"
    by (rule anc_path.up[OF l[of sid "''queues''", simplified ROOTS_mem if_True] _ r])
      (simp add: root_parent_inner)
  have k: "fmlookup ?ns k = Some \<lparr>nd_element = new_element k k, nd_parent = root_parent k,
                 nd_children = filter (\<lambda>c. root_parent c = Some k) ROOTS\<rparr>"
    using assms by (simp add: l)
  show ?thesis
  proof (cases "root_parent k")
    case None
    then have "k = ''root''" by (auto simp: root_parent_def split: if_splits)
    with r show ?thesis by blast
  next
    case (Some p)
    then have "p = ''root'' \<or> p = ''meta'' \<or> p = ''queues''"
      by (auto simp: root_parent_def split: if_splits)
    with anc_path.up[OF k, of p] Some r m q show ?thesis by auto
  qed
qed

lemma wf_empty: "wf_snapshot (empty_snapshot sid)"
proof -
  let ?ns = "ss_nodes (empty_snapshot sid)"
  note l = empty_snapshot_lookup
  have par: "case root_parent k of None \<Rightarrow> k = ''root'' | Some p \<Rightarrow> p \<in> set ROOTS" if "k \<in> set ROOTS" for k
    using root_parent_ROOTS that by (auto simp: list_all_iff)
  have "linked ?ns"
    unfolding linked_def
  proof (intro allI impI, goal_cases)
    case (1 k n)
    then have k: "k \<in> set ROOTS" "nd_parent n = root_parent k"
      "nd_children n = filter (\<lambda>c. root_parent c = Some k) ROOTS"
      by (auto simp: l split: if_splits)
    with par[of k] show ?case by (auto simp: l distinct_ROOTS)
  qed
  moreover have "rooted ?ns"
    unfolding rooted_def using par by (fastforce simp: l split: if_splits)
  moreover have "grounded ?ns"
    unfolding grounded_def using empty_grounded by (auto simp: l split: if_splits)
  moreover have "keyed ?ns"
    unfolding keyed_def by (auto simp: l new_element_def split: if_splits)
  moreover have "fset (fmdom ?ns) \<subseteq> ss_used (empty_snapshot sid)"
    by (auto simp: empty_snapshot_holds l elim!: fmdomE split: if_splits)
  ultimately show ?thesis by (simp add: wf_snapshot_def wf_nodes_def)
qed

section \<open>When an operation is accepted\<close>

text \<open>
  The condition under which each operation succeeds on a well-formed document, without the
  defensive tests for a corrupt one.
\<close>

fun op_enabled :: "session_snapshot \<Rightarrow> patch_op \<Rightarrow> bool" where
  "op_enabled s (Create p index e) \<longleftrightarrow>
     el_id e \<notin> ss_used s
     \<and> (case snap_node s p of None \<Rightarrow> False | Some n \<Rightarrow> index \<le> length (nd_children n))"
| "op_enabled s (Delete k) \<longleftrightarrow> k \<notin> set ROOTS \<and> snap_node s k \<noteq> None"
| "op_enabled s (Move k q index) \<longleftrightarrow>
     k \<notin> set ROOTS \<and> snap_node s k \<noteq> None
     \<and> (case snap_node s q of None \<Rightarrow> False
        | Some n \<Rightarrow> index \<le> length (filter (\<lambda>c. c \<noteq> k) (nd_children n)))
     \<and> \<not> below (ss_nodes s) k q"
| "op_enabled s (SetAttribute k _ _) \<longleftrightarrow> snap_node s k \<noteq> None"
| "op_enabled s (RemoveAttribute k _) \<longleftrightarrow> snap_node s k \<noteq> None"
| "op_enabled s (ReplaceText k _) \<longleftrightarrow> snap_node s k \<noteq> None"
| "op_enabled s (AppendText k _) \<longleftrightarrow> snap_node s k \<noteq> None"
| "op_enabled s (ReplacePayload k _) \<longleftrightarrow> snap_node s k \<noteq> None"

lemma mutable_location_total:
  assumes "wf_snapshot s" "fmlookup (ss_nodes s) k = Some kn" "k \<notin> set ROOTS"
  shows "\<exists>p i. mutable_location s k = Inr (p, i)"
proof -
  note w = wf_snapshotD[OF assms(1)]
  have "nd_parent kn \<noteq> None"
  proof
    assume n: "nd_parent kn = None"
    have "\<forall>k n. fmlookup (ss_nodes s) k = Some n \<longrightarrow> nd_parent n = None \<longrightarrow> k = ''root''"
      using w(2) unfolding rooted_def by (rule conjunct2)
    with assms(2) n have "k = ''root''" by blast
    with assms(3) ROOTS_mem(1) show False by blast
  qed
  then obtain p where p: "nd_parent kn = Some p" by blast
  obtain m where m: "fmlookup (ss_nodes s) p = Some m" "k \<in> set (nd_children m)"
    using linkedD(3)[OF w(1) assms(2) p] by blast
  obtain i where "vec_position (\<lambda>v. v = k) (nd_children m) = Some i"
    using vec_position_ex[OF m(2), of "\<lambda>v. v = k"] by blast
  with p m(1) assms(2,3) show ?thesis
    by (simp add: mutable_location_def require_def snap_node_def)
qed

lemma mutable_location_ok_iff:
  "wf_snapshot s \<Longrightarrow>
     (\<exists>p i. mutable_location s k = Inr (p, i)) \<longleftrightarrow> k \<notin> set ROOTS \<and> snap_node s k \<noteq> None"
  using mutable_location_total[of s k] mutable_locationD[of s k] unfolding snap_node_def by fastforce

lemma climb_ok_iff:
  assumes "wf_snapshot s" "fmlookup (ss_nodes s) q = Some n"
  shows "climb (Suc (fcard (fmdom (ss_nodes s)))) (ss_nodes s) k q = Inr () \<longleftrightarrow> \<not> below (ss_nodes s) k q"
    and "climb (Suc (fcard (fmdom (ss_nodes s)))) (ss_nodes s) k q \<noteq> Inl Diverges"
proof -
  obtain xs where xs: "anc_path (ss_nodes s) q xs"
    using wf_snapshotD(3)[OF assms(1)] assms(2) by (auto simp: grounded_def)
  note c = climb_no_diverge[OF xs, of "Suc (fcard (fmdom (ss_nodes s)))" k]
  have "below (ss_nodes s) k q \<longleftrightarrow> k \<in> set xs"
    unfolding below_def using xs anc_path_unique[OF xs] by blast
  then show "climb (Suc (fcard (fmdom (ss_nodes s)))) (ss_nodes s) k q = Inr () \<longleftrightarrow> \<not> below (ss_nodes s) k q"
    "climb (Suc (fcard (fmdom (ss_nodes s)))) (ss_nodes s) k q \<noteq> Inl Diverges"
    using c anc_path_length[OF xs] by (auto split: if_splits simp del: climb.simps)
qed

lemma target_len:
  assumes "wf_snapshot s" "mutable_location s k = Inr (op, oi)" "fmlookup (ss_nodes s) q = Some pn"
  shows "length (filter (\<lambda>c. c \<noteq> k) (nd_children pn)) =
           length (nd_children pn) - (if op = q then 1 else 0)"
proof -
  note w = wf_snapshotD[OF assms(1)]
  obtain kn on where k: "fmlookup (ss_nodes s) k = Some kn" "nd_parent kn = Some op"
    "fmlookup (ss_nodes s) op = Some on" "oi < length (nd_children on)" "nd_children on ! oi = k"
    using mutable_locationD(2)[OF assms(2)] by blast
  show ?thesis
  proof (cases "op = q")
    case True
    with k assms(3) have "filter (\<lambda>c. c \<noteq> k) (nd_children pn) = vec_remove oi (nd_children pn)"
      using filter_vec_remove[OF linkedD(1)[OF w(1) k(3)] k(4)] by simp
    with True k assms(3) show ?thesis by (simp add: length_vec_remove)
  next
    case False
    have "k \<notin> set (nd_children pn)"
      using linkedD(2)[OF w(1) assms(3), of k] k(1,2) False by auto
    then have "filter (\<lambda>c. c \<noteq> k) (nd_children pn) = nd_children pn" by (intro filter_True) auto
    then show ?thesis using False by simp
  qed
qed

lemma apply_delete_ok_iff:
  assumes wf: "wf_snapshot s"
  shows "is_ok (snd (apply_delete s k)) \<longleftrightarrow> k \<notin> set ROOTS \<and> snap_node s k \<noteq> None"
proof (cases "mutable_location s k")
  case (Inl e)
  with mutable_location_ok_iff[OF wf, of k] show ?thesis by (auto simp: apply_delete_def)
next
  case (Inr pi)
  obtain p i where "pi = (p, i)" by (cases pi) auto
  with Inr have m: "mutable_location s k = Inr (p, i)" by simp
  with apply_delete_loop[OF m wf refl] mutable_location_ok_iff[OF wf, of k] show ?thesis
    by (auto simp: apply_delete_def Let_def simp del: remove_subtree.simps)
qed

lemma apply_move_ok_iff:
  assumes wf: "wf_snapshot s"
  shows "is_ok (snd (apply_move s k q index)) \<longleftrightarrow> op_enabled s (Move k q index)"
proof (cases "mutable_location s k")
  case (Inl e)
  with mutable_location_ok_iff[OF wf, of k] show ?thesis by (auto simp: apply_move_def)
next
  case (Inr pi)
  obtain p i where "pi = (p, i)" by (cases pi) auto
  with Inr have m: "mutable_location s k = Inr (p, i)" by simp
  then have k: "k \<notin> set ROOTS" "snap_node s k \<noteq> None" using mutable_location_ok_iff[OF wf, of k] by blast+
  show ?thesis
  proof (cases "fmlookup (ss_nodes s) q")
    case None
    then show ?thesis by (simp add: apply_move_def m require_def snap_node_def)
  next
    case (Some n)
    have r: "require s q = Inr n" using Some by (simp add: require_Inr_iff)
    let ?cl = "climb (Suc (fcard (fmdom (ss_nodes s)))) (ss_nodes s) k q"
    have "is_ok (snd (apply_move s k q index)) \<longleftrightarrow>
        index \<le> length (nd_children n) - (if p = q then 1 else 0) \<and> ?cl = Inr ()"
      unfolding apply_move_def m r Let_def
      by (cases ?cl; cases "index \<le> length (nd_children n) - (if p = q then 1 else 0)")
        (simp_all add: not_less not_le del: climb.simps)
    then show ?thesis
      using k climb_ok_iff(1)[OF wf Some] target_len[OF wf m Some] by (simp add: snap_node_def Some)
  qed
qed

lemma edit_element_ok_iff: "is_ok (snd (edit_element s k f u)) \<longleftrightarrow> snap_node s k \<noteq> None"
  by (cases "snap_node s k") (simp_all add: edit_element_def require_def)

lemma apply_create_ok_iff:
  "is_ok (snd (apply_create s p index e)) \<longleftrightarrow> op_enabled s (Create p index e)"
  by (cases "snap_node s p") (auto simp: apply_create_def require_def)

lemma apply_one_ok_iff:
  "wf_snapshot s \<Longrightarrow> is_ok (snd (apply_one s x)) \<longleftrightarrow> op_enabled s x"
  by (cases x)
    (simp_all only: apply_one.simps edit_element_ok_iff apply_create_ok_iff apply_delete_ok_iff
      apply_move_ok_iff op_enabled.simps(2,4-8))

lemma apply_one_no_diverge:
  assumes "wf_snapshot s"
  shows "snd (apply_one s x) \<noteq> Inl Diverges"
proof -
  have ml: "mutable_location s k \<noteq> Inl Diverges" for k
    by (auto simp: mutable_location_def try_bind_Inl_iff require_Inl_iff ok_or_Inl_iff)
  have rq: "require s k \<noteq> Inl Diverges" for k by (simp add: require_Inl_iff)
  have mv: "snd (apply_move s k q index) \<noteq> Inl Diverges" for k q index
    using ml[of k] rq[of q] climb_ok_iff(2)[OF assms, of q _ k]
    by (auto simp: apply_move_def Let_def require_Inr_iff simp del: climb.simps split: sum.splits)
  have dl: "snd (apply_delete s k) \<noteq> Inl Diverges" for k
  proof (cases "mutable_location s k")
    case (Inl e)
    with ml[of k] show ?thesis by (auto simp: apply_delete_def)
  next
    case (Inr pi)
    obtain p i where "pi = (p, i)" by (cases pi) auto
    with Inr have m: "mutable_location s k = Inr (p, i)" by simp
    with apply_delete_loop[OF m assms refl] show ?thesis
      by (auto simp: apply_delete_def Let_def simp del: remove_subtree.simps)
  qed
  have ed: "snd (edit_element s k f u) \<noteq> Inl Diverges" for k f u
    using rq[of k] by (auto simp: edit_element_def split: sum.splits)
  have cr: "snd (apply_create s p index e) \<noteq> Inl Diverges" for p index e
    using rq[of p] by (auto simp: apply_create_def split: sum.splits)
  show ?thesis by (cases x) (simp_all add: mv dl ed cr)
qed

section \<open>Patches\<close>

text \<open>How a document evolves: identifiers are only ever added to the used set, and an
  element that was not live before has a fresh identifier.\<close>

definition evolves :: "session_snapshot \<Rightarrow> session_snapshot \<Rightarrow> bool" where
  "evolves s t \<longleftrightarrow>
     ss_used s \<subseteq> ss_used t \<and> ss_session t = ss_session s \<and> ss_branch t = ss_branch s
     \<and> (\<forall>k \<in> ss_used s. snap_node t k \<noteq> None \<longrightarrow> snap_node s k \<noteq> None)"

lemma evolves_refl [simp]: "evolves s s"
  by (simp add: evolves_def)

lemma evolves_trans: "evolves s t \<Longrightarrow> evolves t u \<Longrightarrow> evolves s u"
  unfolding evolves_def by (metis subsetD subset_trans)

lemma edit_element_evolves: "edit_element s k f u = (s', Inr v) \<Longrightarrow> evolves s s' \<and> ss_offset s' = ss_offset s"
  by (auto simp: edit_element_def evolves_def snap_node_def fmlookup_modify_node split: sum.splits if_splits)

lemma apply_one_evolves:
  assumes wf: "wf_snapshot s" and ok: "apply_one s x = (s', Inr u)"
  shows "evolves s s' \<and> ss_offset s' = ss_offset s"
proof (cases x)
  case (Create p index e)
  with ok have c: "apply_create s p index e = (s', Inr u)" by simp
  show ?thesis using apply_create_InrD(1,4)[OF c]
    by (auto simp: evolves_def snap_node_def fmlookup_modify_node split: if_splits)
next
  case (Delete k)
  with ok have d: "apply_delete s k = (s', Inr u)" by simp
  have "ss_used s' = ss_used s \<and> ss_session s' = ss_session s \<and> ss_branch s' = ss_branch s
      \<and> ss_offset s' = ss_offset s"
    using apply_delete_InrD[OF d wf] by auto
  then show ?thesis using apply_delete_dom[OF d wf] by (auto simp: evolves_def snap_node_def)
next
  case (Move k q index)
  with ok have "apply_move s k q index = (s', Inr u)" by simp
  from apply_move_InrD[OF this] show ?thesis by (auto simp: evolves_def snap_node_def)
qed (use ok in \<open>auto dest: edit_element_evolves\<close>)

lemma apply_ops_evolves:
  "wf_snapshot s \<Longrightarrow> apply_ops s xs us = (s', Inr v) \<Longrightarrow> evolves s s' \<and> ss_offset s' = ss_offset s"
  by (rule doc.run_ok_rel[where R = "\<lambda>s t. evolves s t \<and> ss_offset t = ss_offset s"])
    (auto dest: apply_one_evolves intro: evolves_trans)

lemma apply_ops_no_diverge:
  "wf_snapshot s \<Longrightarrow> snd (apply_ops s xs us) \<noteq> Inl Diverges"
proof (induction xs arbitrary: s us)
  case Nil
  then show ?case by simp
next
  case (Cons x xs)
  obtain t r where o: "apply_one s x = (t, r)" by (cases "apply_one s x") auto
  show ?case
  proof (cases r)
    case (Inl e)
    with o apply_one_no_diverge[OF Cons.prems, of x] show ?thesis by auto
  next
    case (Inr u)
    with o Cons.IH[OF apply_one_wf[OF Cons.prems], of x t u "u # us"] show ?thesis by auto
  qed
qed

lemma apply_patch_ok:
  assumes "wf_snapshot s" "apply_patch js s p = (s', Inr u)"
  shows "wf_snapshot s'" "evolves s s'" "ss_offset s' = offset_nat (result_offset p)"
    "ss_offset s = offset_nat (base_offset p)" "patch_ok js p" "ss_offset s < ss_offset s'"
proof -
  from assms(2) obtain t where v: "patch_ok js p" and b: "offset_nat (base_offset p) = ss_offset s"
    and o: "apply_ops s (ops p) [] = (t, Inr ())" and s': "s' = t\<lparr>ss_offset := offset_nat (result_offset p)\<rparr>"
    by (auto simp: apply_patch_def validate_Inr_iff split: sum.splits if_splits prod.splits)
  have "wf_snapshot t" using doc.run_ok_inv[OF assms(1) o] .
  then show "wf_snapshot s'" by (simp add: s' wf_snapshot_def)
  show "evolves s s'" using apply_ops_evolves[OF assms(1) o] by (simp add: s' evolves_def snap_node_def)
  show "ss_offset s' = offset_nat (result_offset p)" "ss_offset s = offset_nat (base_offset p)" "patch_ok js p"
    "ss_offset s < ss_offset s'"
    using v b by (simp_all add: s' patch_ok_def less_journal_offset_def)
qed

lemma apply_patch_error:
  assumes "wf_snapshot s" "apply_patch js s p = (s', Inl e)"
  shows "s' = s" "e \<noteq> Diverges"
proof -
  show "s' = s"
    using assms doc.run_error_restores[OF assms(1), of "ops p" "[]"]
    by (auto simp: apply_patch_def split: sum.splits if_splits prod.splits)
  show "e \<noteq> Diverges"
    using assms apply_ops_no_diverge[OF assms(1), of "ops p" "[]"]
    by (auto simp: apply_patch_def split: sum.splits if_splits prod.splits)
qed

text \<open>Applying a sequence of patches as a session does: a rejected patch changes nothing.\<close>

definition replay_patches ::
  "(json \<Rightarrow> string option) \<Rightarrow> session_snapshot \<Rightarrow> patch list \<Rightarrow> session_snapshot" where
  "replay_patches js s ps = fold (\<lambda>p t. fst (apply_patch js t p)) ps s"

lemma apply_patch_step:
  assumes "wf_snapshot s"
  shows "wf_snapshot (fst (apply_patch js s p)) \<and> evolves s (fst (apply_patch js s p))"
proof -
  obtain t r where a: "apply_patch js s p = (t, r)" by (cases "apply_patch js s p") auto
  with apply_patch_ok[OF assms, of js p t] apply_patch_error[OF assms, of js p t] assms
  show ?thesis by (cases r) auto
qed

lemma replay_patches_wf:
  "wf_snapshot s \<Longrightarrow> wf_snapshot (replay_patches js s ps) \<and> evolves s (replay_patches js s ps)"
  unfolding replay_patches_def
proof (induction ps arbitrary: s)
  case Nil
  then show ?case by simp
next
  case (Cons p ps)
  note st = apply_patch_step[OF Cons.prems, of js p]
  from Cons.IH[OF conjunct1[OF st]] conjunct2[OF st] show ?case
    by (simp add: evolves_trans[of s "fst (apply_patch js s p)"])
qed

section \<open>Accessors\<close>

lemma wf_container:
  assumes "wf_snapshot s" "name \<in> set ROOTS"
  shows "try_container s name = Inr name" "container s name = Some name"
    "container_children s name = Some (children s name)"
proof -
  have "new_id name = Inr name" using valid_id_ROOTS assms(2) by (simp add: new_id_Inr_iff list_all_iff)
  moreover obtain n where "fmlookup (ss_nodes s) name = Some n"
    using wf_snapshotD(2)[OF assms(1)] assms(2) unfolding rooted_def by blast
  ultimately show "try_container s name = Inr name" "container s name = Some name"
    "container_children s name = Some (children s name)"
    by (simp_all add: try_container_def container_def container_children_def)
qed

text \<open>On a well-formed document no child is skipped: \<open>children\<close> follows the child list.\<close>

lemma map_filter_total: "\<forall>x \<in> set xs. f x \<noteq> None \<Longrightarrow> map g (List.map_filter f xs) = map (g \<circ> the \<circ> f) xs"
  by (induction xs) auto

lemma children_ids:
  assumes wf: "wf_snapshot s" and n: "snap_node s k = Some n"
  shows "map el_id (children s k) = nd_children n"
proof -
  note w = wf_snapshotD[OF wf]
  have c: "\<exists>m. fmlookup (ss_nodes s) c = Some m \<and> el_id (nd_element m) = c" if "c \<in> set (nd_children n)" for c
    using linkedD(2)[OF w(1), of k n c] w(4) that n by (auto simp: snap_node_def keyed_def)
  have "\<forall>c \<in> set (nd_children n). snap_element s c \<noteq> None"
    using c by (fastforce simp: snap_element_def snap_node_def)
  then have "map el_id (children s k) = map (el_id \<circ> the \<circ> snap_element s) (nd_children n)"
    using n by (simp add: children_def snap_node_def map_filter_total)
  also have "\<dots> = map id (nd_children n)"
    by (rule map_cong[OF refl]) (use c in \<open>fastforce simp: snap_element_def snap_node_def\<close>)
  finally show ?thesis by simp
qed

end
