(* ===== verification/DomClaims.thy ===== *)
theory DomClaims
  imports DomProps
begin

text \<open>
  The properties of the session document (\<open>omp-state/src/dom.rs\<close>), each with an instance on
  a small document built from \<open>empty_snapshot\<close>.
\<close>

section \<open>A sample patch\<close>

definition sample_patch :: "patch_op list \<Rightarrow> patch" where
  "sample_patch xs =
     \<lparr>base_offset = JournalOffset 0, result_offset = JournalOffset 1, patch_by = Actor ''host'',
      reason = ''r'', ops = xs\<rparr>"

lemma trim_r: "trim ''r'' = ''r''"
  by code_simp

lemma sample_patch_fields [simp]:
  "base_offset (sample_patch xs) = JournalOffset 0" "result_offset (sample_patch xs) = JournalOffset 1"
  "ops (sample_patch xs) = xs"
  by (simp_all add: sample_patch_def)

lemma sample_patch_valid:
  "list_all (op_ok js) xs \<Longrightarrow> length xs \<le> 4096 \<Longrightarrow> validate js (sample_patch xs) = Inr ()"
  by (simp add: validate_Inr_iff patch_ok_def sample_patch_def less_journal_offset_def trim_r
      MAX_PATCH_OPS_def)

lemma sample_roots:
  "fmlookup (ss_nodes (empty_snapshot sid)) ''body'' =
     Some \<lparr>nd_element = new_element ''body'' ''body'', nd_parent = Some ''root'', nd_children = []\<rparr>"
  "fmlookup (ss_nodes (empty_snapshot sid)) ''jobs'' =
     Some \<lparr>nd_element = new_element ''jobs'' ''jobs'', nd_parent = Some ''meta'', nd_children = []\<rparr>"
  "fmlookup (ss_nodes (empty_snapshot sid)) ''e1'' = None" "''e1'' \<notin> set ROOTS"
  by (simp_all add: empty_snapshot_lookup ROOTS_def root_parent_def)

text \<open>The document after \<open>Create\<close> of a user message \<open>e1\<close> under \<open>body\<close>.\<close>

definition sample_doc :: session_snapshot where
  "sample_doc = fst (apply_one (empty_snapshot ''s'') (Create ''body'' 0 (new_element ''e1'' ''user'')))"

lemma sample_create:
  "apply_one (empty_snapshot ''s'') (Create ''body'' 0 (new_element ''e1'' ''user''))
     = (sample_doc, Inr (UndoCreate ''e1''))"
  by (simp add: sample_doc_def apply_create_def new_element_def empty_snapshot_holds sample_roots
      require_def snap_node_def)

lemma sample_doc_wf: "wf_snapshot sample_doc"
  using apply_one_wf[OF wf_empty sample_create] .

lemma sample_doc_nodes:
  "fmlookup (ss_nodes sample_doc) k =
     (if k = ''e1''
      then Some \<lparr>nd_element = new_element ''e1'' ''user'', nd_parent = Some ''body'', nd_children = []\<rparr>
      else if k = ''body''
      then Some \<lparr>nd_element = new_element ''body'' ''body'', nd_parent = Some ''root'', nd_children = [''e1'']\<rparr>
      else fmlookup (ss_nodes (empty_snapshot ''s'')) k)"
  by (simp add: sample_doc_def apply_create_def new_element_def empty_snapshot_holds sample_roots
      require_def snap_node_def fmlookup_modify_node vec_insert_def)

lemma sample_below: "\<not> below (ss_nodes sample_doc) ''e1'' ''jobs''" "below (ss_nodes sample_doc) ''e1'' ''e1''"
proof -
  let ?ns = "ss_nodes sample_doc"
  have r: "anc_path ?ns ''root'' [''root'']"
    by (rule anc_path.top[of _ _ "the (fmlookup ?ns ''root'')"])
      (simp_all add: sample_doc_nodes empty_snapshot_lookup ROOTS_mem root_parent_inner)
  have m: "anc_path ?ns ''meta'' [''meta'', ''root'']"
    by (rule anc_path.up[of _ _ "the (fmlookup ?ns ''meta'')", OF _ _ r])
      (simp_all add: sample_doc_nodes empty_snapshot_lookup ROOTS_mem root_parent_inner)
  have "anc_path ?ns ''jobs'' [''jobs'', ''meta'', ''root'']"
    by (rule anc_path.up[of _ _ "the (fmlookup ?ns ''jobs'')", OF _ _ m])
      (simp_all add: sample_doc_nodes sample_roots)
  then show "\<not> below ?ns ''e1'' ''jobs''"
    unfolding below_def using anc_path_unique[of ?ns "''jobs''"] by fastforce
  obtain xs where "anc_path ?ns ''e1'' xs"
    using wf_snapshotD(3)[OF sample_doc_wf] unfolding grounded_def
    by (metis (no_types, lifting) sample_doc_nodes)
  then show "below ?ns ''e1'' ''e1''" unfolding below_def using anc_path_hd by fastforce
qed

lemma sample_move_ok: "is_ok (snd (apply_one sample_doc (Move ''e1'' ''jobs'' 0)))"
  using sample_below
  by (simp only: apply_one_ok_iff[OF sample_doc_wf])
    (simp add: snap_node_def sample_doc_nodes sample_roots)

lemma sample_delete: "\<exists>s' u. apply_one sample_doc (Delete ''e1'') = (s', Inr u)"
proof -
  have "is_ok (snd (apply_one sample_doc (Delete ''e1'')))"
    by (simp only: apply_one_ok_iff[OF sample_doc_wf]) (simp add: snap_node_def sample_doc_nodes sample_roots)
  then show ?thesis
    by (cases "apply_one sample_doc (Delete ''e1'')"; cases "snd (apply_one sample_doc (Delete ''e1''))") auto
qed

section \<open>Properties\<close>

text \<open>
  C1: A patch is all or nothing.  Applied to a well-formed document it either fails, with an
  error of the source (the loops of \<open>Delete\<close> and \<open>Move\<close> always end) and the document exactly
  as before, or it is valid, starts at the document's offset, and yields a well-formed document
  at the patch's result offset.
\<close>

theorem patch_all_or_nothing:
  assumes "wf_snapshot s" "apply_patch js s p = (s', r)"
  shows "(\<exists>e. r = Inl e \<and> e \<noteq> Diverges \<and> s' = s)
       \<or> (r = Inr () \<and> patch_ok js p \<and> ss_offset s = offset_nat (base_offset p)
           \<and> ss_offset s' = offset_nat (result_offset p) \<and> wf_snapshot s')"
  using apply_patch_error[OF assms(1)] apply_patch_ok[OF assms(1)] assms(2)
  by (cases r) auto

theorem patch_all_or_nothing_witness:
  "apply_patch (\<lambda>_. None) (empty_snapshot ''s'')
      (sample_patch [AppendText ''body'' ''x'', Delete ''e1'']) =
     (empty_snapshot ''s'', Inl (Missing ''e1''))"
proof -
  let ?p = "sample_patch [AppendText ''body'' ''x'', Delete ''e1'']"
  let ?r = "apply_patch (\<lambda>_. None) (empty_snapshot ''s'') ?p"
  have "snd ?r = Inl (Missing ''e1'')"
    by (simp add: apply_patch_def sample_patch_valid MAX_OP_TEXT_BYTES_def MAX_WIRE_BYTES_def
        edit_element_def require_def snap_node_def sample_roots apply_delete_def
        mutable_location_def fmlookup_modify_node)
  with patch_all_or_nothing[OF wf_empty, of "\<lambda>_. None" _ ?p "fst ?r" "snd ?r"] show ?thesis
    by (simp add: prod_eq_iff)
qed

text \<open>
  C4: Undo is exact.  Every operation that succeeds on a well-formed document returns an undo
  record that, run on the document it left, gives back the old document, including the
  position among the siblings, the whole deleted subtree and the used-identifier set.
\<close>

theorem undo_exact:
  assumes "wf_snapshot s" "apply_one s x = (s', Inr u)"
  shows "undo_op u s' = s"
  using assms by (rule apply_one_undo)

theorem undo_exact_witness:
  "undo_op (UndoCreate ''e1'') sample_doc = empty_snapshot ''s''"
  using undo_exact[OF wf_empty sample_create] .

text \<open>
  C3: An operation is accepted exactly when its plain precondition holds: the named elements
  are live, the index lies within the (post-removal) child list, a created identifier was never
  used, a structural container is neither moved nor deleted, and a move does not go below
  itself.  The tests for orphans and desynchronised links never fire on a well-formed document.
\<close>

theorem operation_accepted_iff:
  assumes "wf_snapshot s"
  shows "is_ok (snd (apply_one s x)) \<longleftrightarrow> op_enabled s x"
  using assms by (rule apply_one_ok_iff)

theorem operation_accepted_iff_witness:
  "\<not> is_ok (snd (apply_one sample_doc (Move ''e1'' ''e1'' 0)))"
  using sample_below(2) by (simp only: operation_accepted_iff[OF sample_doc_wf] op_enabled.simps simp_thms)

text \<open>
  A move takes the element, with its subtree, to the requested position: its new parent's
  child list is the old one without the element and then with it at the index, every other
  parent keeps its children in order without the element, and no element changes its content.
\<close>

theorem move_repositions:
  assumes "wf_snapshot s" "apply_one s (Move k q index) = (s', Inr u)"
  shows "snap_node s' j = map_option (\<lambda>n.
      n\<lparr>nd_parent := (if j = k then Some q else nd_parent n),
        nd_children := (let left = filter (\<lambda>c. c \<noteq> k) (nd_children n)
                        in if j = q then vec_insert index k left else left)\<rparr>) (snap_node s j)"
proof -
  have ok: "apply_move s k q index = (s', Inr u)" using assms(2) by simp
  note w = wf_snapshotD[OF assms(1)]
  obtain op oi ns' where m: "mutable_location s k = Inr (op, oi)" "s' = s\<lparr>ss_nodes := ns'\<rparr>"
    and l: "\<And>j. fmlookup ns' j = map_option (moved_node k op oi q index j) (fmlookup (ss_nodes s) j)"
    using apply_move_InrD[OF ok] by blast
  obtain kn on where k: "fmlookup (ss_nodes s) k = Some kn" "nd_parent kn = Some op"
    "fmlookup (ss_nodes s) op = Some on" "oi < length (nd_children on)" "nd_children on ! oi = k"
    using mutable_locationD(2)[OF m(1)] by blast
  have lc: "left_children op oi j n = filter (\<lambda>c. c \<noteq> k) (nd_children n)"
    if n: "fmlookup (ss_nodes s) j = Some n" for j n
  proof (cases "j = op")
    case True
    with n k filter_vec_remove[OF linkedD(1)[OF w(1) k(3)] k(4)] show ?thesis
      by (simp add: left_children_def)
  next
    case False
    have "filter (\<lambda>c. c \<noteq> k) (nd_children n) = nd_children n"
      using linkedD(2)[OF w(1) n, of k] k(1,2) False by (intro filter_True) auto
    with False show ?thesis by (simp add: left_children_def)
  qed
  have mn: "moved_node k op oi q index j n =
      n\<lparr>nd_parent := (if j = k then Some q else nd_parent n),
        nd_children := (let left = filter (\<lambda>c. c \<noteq> k) (nd_children n)
                        in if j = q then vec_insert index k left else left)\<rparr>"
    if "fmlookup (ss_nodes s) j = Some n" for n
    unfolding moved_node_def lc[OF that] by (simp add: Let_def)
  have sj: "snap_node s' j = map_option (moved_node k op oi q index j) (snap_node s j)"
    by (simp add: snap_node_def m(2) l)
  show ?thesis
  proof (cases "snap_node s j")
    case None
    with sj show ?thesis by simp
  next
    case (Some n)
    then have "fmlookup (ss_nodes s) j = Some n" by (simp add: snap_node_def)
    from mn[OF this] Some sj show ?thesis by (simp only: option.map)
  qed
qed

theorem move_repositions_witness:
  "\<exists>s' u n. apply_one sample_doc (Move ''e1'' ''jobs'' 0) = (s', Inr u)
     \<and> snap_node s' ''jobs'' = Some n \<and> nd_children n = [''e1'']"
proof -
  obtain s' u where m: "apply_one sample_doc (Move ''e1'' ''jobs'' 0) = (s', Inr u)"
    using sample_move_ok
    by (cases "apply_one sample_doc (Move ''e1'' ''jobs'' 0)";
        cases "snd (apply_one sample_doc (Move ''e1'' ''jobs'' 0))") auto
  with move_repositions[OF sample_doc_wf m, of "''jobs''"] show ?thesis
    by (simp add: snap_node_def sample_doc_nodes sample_roots vec_insert_def Let_def)
qed

text \<open>
  C2: Whatever patches a session receives, its document stays a tree.  Every live node is
  stored under its own identifier; its children are distinct, live and name it as their parent;
  only \<open>root\<close> has no parent, and every other parent is live and lists the node; and following
  parents leads to \<open>root\<close> without meeting a node twice.
\<close>

theorem document_stays_a_tree:
  "let s = replay_patches js (empty_snapshot sid) ps in
   case snap_node s k of
     None \<Rightarrow> k \<notin> set ROOTS
   | Some n \<Rightarrow>
       el_id (nd_element n) = k \<and> distinct (nd_children n) \<and> k \<notin> set (nd_children n)
       \<and> list_all (\<lambda>c. Option.bind (snap_node s c) nd_parent = Some k) (nd_children n)
       \<and> (case nd_parent n of
            None \<Rightarrow> k = ''root''
          | Some p \<Rightarrow> (\<exists>m. snap_node s p = Some m \<and> k \<in> set (nd_children m)))
       \<and> (\<exists>xs. anc_path (ss_nodes s) k xs \<and> distinct xs \<and> last xs = ''root'')
       \<and> map el_id (children s k) = nd_children n"
proof -
  let ?s = "replay_patches js (empty_snapshot sid) ps"
  have wf: "wf_snapshot ?s" using replay_patches_wf[OF wf_empty] by blast
  note w = wf_snapshotD[OF wf]
  have root: "anc_path (ss_nodes ?s) j xs \<Longrightarrow> last xs = ''root''" for j xs
  proof (induction rule: anc_path.induct)
    case (top k n)
    with w(2) show ?case by (simp add: rooted_def)
  next
    case (up k n p xs)
    with anc_path_hd[OF up.hyps(3)] show ?case by auto
  qed
  show ?thesis
  proof (cases "snap_node ?s k")
    case None
    with w(2) have "k \<notin> set ROOTS" by (fastforce simp: snap_node_def rooted_def)
    with None show ?thesis by (simp add: Let_def)
  next
    case (Some n)
    then have n: "fmlookup (ss_nodes ?s) k = Some n" by (simp add: snap_node_def)
    have "k \<notin> set (nd_children n)"
      using linkedD(2)[OF w(1) n, of k] anc_path_parent_neq[OF w(3), of k _ k] by blast
    moreover have "el_id (nd_element n) = k" using w(4) n by (simp add: keyed_def)
    moreover obtain xs where "anc_path (ss_nodes ?s) k xs" using w(3) n by (auto simp: grounded_def)
    moreover have "list_all (\<lambda>c. Option.bind (snap_node ?s c) nd_parent = Some k) (nd_children n)"
      using linkedD(2)[OF w(1) n] by (fastforce simp: list_all_iff snap_node_def)
    moreover have "case nd_parent n of None \<Rightarrow> k = ''root'' | Some p \<Rightarrow> (\<exists>m. snap_node ?s p = Some m \<and> k \<in> set (nd_children m))"
      using linkedD(3)[OF w(1) n] w(2) n by (cases "nd_parent n") (auto simp: snap_node_def rooted_def)
    ultimately show ?thesis
      using Some linkedD(1)[OF w(1) n] children_ids[OF wf Some] root anc_path_distinct
      by (auto simp: Let_def)
  qed
qed

text \<open>
  C5: An identifier is never reused.  Once an element has existed, no later document gives its
  identifier to a new element: after it has gone, it stays gone, whatever patches follow.
\<close>

theorem identifiers_never_reused:
  assumes "wf_snapshot s" "k \<in> ss_used s" "snap_node s k = None"
  shows "snap_node (replay_patches js s ps) k = None"
  using replay_patches_wf[OF assms(1), of js ps] assms(2,3) unfolding evolves_def by auto

theorem identifiers_never_reused_witness:
  "\<exists>s u. apply_one sample_doc (Delete ''e1'') = (s, Inr u) \<and> snap_node s ''e1'' = None \<and>
     snap_node (replay_patches (\<lambda>_. None) s [sample_patch [Create ''body'' 0 (new_element ''e1'' ''user'')]])
       ''e1'' = None"
proof -
  obtain s' u where d: "apply_one sample_doc (Delete ''e1'') = (s', Inr u)" using sample_delete by blast
  then have ad: "apply_delete sample_doc ''e1'' = (s', Inr u)" by simp
  have gone: "snap_node s' ''e1'' = None"
    using apply_delete_dom[OF ad sample_doc_wf, of "''e1''"] sample_below(2) by (simp add: snap_node_def)
  have "''e1'' \<in> ss_used s'"
    using apply_one_evolves[OF sample_doc_wf d] wf_snapshotD(5)[OF sample_doc_wf] sample_doc_nodes[of "''e1''"]
    unfolding evolves_def by (auto intro: fmdomI)
  with identifiers_never_reused[OF apply_one_wf[OF sample_doc_wf d] _ gone] d gone show ?thesis by blast
qed

text \<open>
  The structural containers are permanent.  The accessors that panic when a container is
  missing (\<open>container\<close>, \<open>container_children\<close>, \<open>session_globals\<close>, \<open>active_jobs\<close>, \<open>active_todos\<close>,
  \<open>turn_count\<close>, \<open>reconcile_handles\<close>) never panic on a document that patches built.
\<close>

theorem accessors_never_panic:
  "let s = replay_patches js (empty_snapshot sid) ps in
   list_all (\<lambda>name. container s name = Some name \<and> container_children s name \<noteq> None) ROOTS
   \<and> session_globals s \<noteq> None \<and> active_jobs s \<noteq> None \<and> active_todos s \<noteq> None
   \<and> active_directors s \<noteq> None \<and> active_tool_roster s \<noteq> None
   \<and> get_last_visible_message s \<noteq> None \<and> turn_count s \<noteq> None \<and> reconcile_handles s live \<noteq> None"
proof -
  let ?s = "replay_patches js (empty_snapshot sid) ps"
  have wf: "wf_snapshot ?s" using replay_patches_wf[OF wf_empty] by blast
  note c = wf_container[OF wf]
  obtain n where "fmlookup (ss_nodes ?s) ''convars'' = Some n"
    using wf_snapshotD(2)[OF wf] ROOTS_mem(5) unfolding rooted_def by blast
  then have "session_globals ?s \<noteq> None"
    by (simp add: session_globals_def try_session_globals_def c(1) ROOTS_mem snap_element_def snap_node_def)
  moreover have "active_jobs ?s \<noteq> None" "active_todos ?s \<noteq> None" "active_directors ?s \<noteq> None"
    "active_tool_roster ?s \<noteq> None" "get_last_visible_message ?s \<noteq> None" "turn_count ?s \<noteq> None"
    "reconcile_handles ?s live \<noteq> None"
    by (simp_all add: active_jobs_def active_todos_def active_directors_def active_tool_roster_def
        get_last_visible_message_def get_visible_body_def turn_count_def reconcile_handles_def
        c(3) ROOTS_mem Let_def)
  ultimately show ?thesis using c by (simp add: Let_def list_all_iff)
qed

text \<open>
  Reconciling live handles with the document starts exactly the wanted elements that have
  no handle and stops exactly the handles nobody wants; wanted are the children of \<open>jobs\<close> and
  \<open>actors\<close> whose status is not terminal.
\<close>

theorem reconcile_exact:
  assumes "wf_snapshot s"
    and "wanted = {el_id e | e. e \<in> set (children s ''jobs'') \<union> set (children s ''actors'') \<and> \<not> element_terminal e}"
  shows "\<exists>acts. reconcile_handles s live = Some acts \<and> distinct acts
      \<and> (\<forall>k. ResumeOrSpawn k \<in> set acts \<longleftrightarrow> k \<in> wanted \<and> k |\<notin>| live)
      \<and> (\<forall>k. Terminate k \<in> set acts \<longleftrightarrow> k |\<in>| live \<and> k \<notin> wanted)"
proof -
  have d: "distinct (map ResumeOrSpawn (sorted_list_of_fset A) @ map Terminate (sorted_list_of_fset B))" for A B
    by (auto simp: distinct_map inj_on_def sorted_list_of_fset.rep_eq)
  show ?thesis
    using d unfolding reconcile_handles_def active_jobs_def assms(2)
    by (auto simp: wf_container[OF assms(1)] ROOTS_mem Let_def fset_of_list_elem image_iff)
qed

theorem reconcile_exact_witness:
  "\<exists>acts. reconcile_handles (empty_snapshot ''s'') {|''x''|} = Some acts \<and> set acts = {Terminate ''x''}"
proof -
  have "{el_id e | e. e \<in> set (children (empty_snapshot ''s'') ''jobs'')
        \<union> set (children (empty_snapshot ''s'') ''actors'') \<and> \<not> element_terminal e} = {}"
    by (simp add: children_def empty_snapshot_lookup ROOTS_def root_parent_def)
  from reconcile_exact[OF wf_empty this[symmetric], of "{|''x''|}"] obtain acts where
    a: "reconcile_handles (empty_snapshot ''s'') {|''x''|} = Some acts"
    "\<forall>k. ResumeOrSpawn k \<notin> set acts" "\<forall>k. Terminate k \<in> set acts \<longleftrightarrow> k = ''x''"
    by auto
  have "a \<in> set acts \<longleftrightarrow> a = Terminate ''x''" for a
    using a(2,3) by (cases a) auto
  with a(1) show ?thesis by blast
qed

end
