(* ===== verification/Journal.thy ===== *)
theory Journal
  imports DomProps
begin

text \<open>
  The session journal of \<open>omp-state/src/journal.rs\<close>: a magic number and a header frame
  followed by one frame per record, each frame a little-endian length, the bytes and their
  SHA-256.  The file is its list of bytes.  What lies outside the sources is in the record
  \<open>codec\<close>: the SHA-256 function and the \<open>serde_json\<close> encoders and decoders.  Operations that do
  I/O take the fault the operating system would report as an argument.  The walk along parent
  offsets has fuel; running out is \<open>Diverges\<close>, and the invariant in \<open>JournalInv\<close> excludes it.
\<close>

type_synonym bytes = "8 word list"

section \<open>State\<close>

record journal_header =
  hd_session :: session_id
  hd_format :: string
  hd_version :: protocol_version

record journal_record =
  jr_offset :: nat
  jr_timestamp :: nat
  jr_session :: session_id
  jr_branch :: branch_id
  jr_parent :: nat
  jr_patch :: patch
  jr_actor :: patch_author
  jr_version :: protocol_version
  jr_checksum :: string
  jr_causal :: "json option"

record codec =
  cd_sha :: "bytes \<Rightarrow> bytes"
  cd_header_enc :: "journal_header \<Rightarrow> (string, bytes) result"
  cd_header_dec :: "bytes \<Rightarrow> (string, journal_header) result"
  cd_record_enc :: "journal_record \<Rightarrow> (string, bytes) result"
  cd_record_dec :: "bytes \<Rightarrow> (string, journal_record) result"
  cd_json :: "json \<Rightarrow> string option"

record recovery_diagnostic =
  rd_code :: string
  rd_message :: string
  rd_last_valid_offset :: nat
  rd_valid_bytes :: nat
  rd_damaged_bytes :: nat
  rd_preserved_suffix :: "string option"

text \<open>
  The observer is a callback; the journal keeps whether one is set, and the calls it made.
\<close>

record journal =
  jn_file :: bytes
  jn_records :: "(nat, journal_record) fmap"
  jn_snapshot :: session_snapshot
  jn_recovery :: "recovery_diagnostic option"
  jn_failed :: bool
  jn_observer :: bool
  jn_notified :: "(journal_record \<times> session_snapshot) list"

definition MAGIC :: bytes where
  "MAGIC = map (word_of_nat \<circ> byte_of) ''OMP2J01'' @ [10]"

section \<open>Frames\<close>

definition u32_le :: "nat \<Rightarrow> bytes" where
  "u32_le n = [word_of_nat n, word_of_nat (n div 256), word_of_nat (n div 65536), word_of_nat (n div 16777216)]"

fun of_le :: "bytes \<Rightarrow> nat" where
  "of_le [] = 0"
| "of_le (b # bs) = unat b + 256 * of_le bs"

definition frame_bytes :: "(bytes \<Rightarrow> bytes) \<Rightarrow> bytes \<Rightarrow> bytes" where
  "frame_bytes sha bs = u32_le (length bs) @ bs @ sha bs"

definition frame_limit :: state_error where
  "frame_limit = Invalid ''journal frame limit''"

text \<open>
  \<open>write_frame\<close> at the end of the file.  The three writes may stop anywhere: \<open>fault = Some (n, m)\<close>
  says that the operating system reported \<open>m\<close> after \<open>n\<close> bytes of the frame had reached the file.
\<close>

type_synonym write_fault = "(nat \<times> string) option"

definition write_frame ::
  "(bytes \<Rightarrow> bytes) \<Rightarrow> write_fault \<Rightarrow> bytes \<Rightarrow> bytes \<Rightarrow> bytes \<times> (state_error, unit) result" where
  "write_frame sha fault file bs =
     (if MAX_WIRE_BYTES < length bs then (file, Inl frame_limit)
      else (case fault of
          None \<Rightarrow> (file @ frame_bytes sha bs, Inr ())
        | Some (n, m) \<Rightarrow> (file @ take n (frame_bytes sha bs), Inl (Io m))))"

definition short_read :: state_error where
  "short_read = Io ''failed to fill whole buffer''"

definition read_exact :: "nat \<Rightarrow> bytes \<Rightarrow> (state_error, bytes \<times> bytes) result" where
  "read_exact n bs = (if length bs < n then Inl short_read else Inr (take n bs, drop n bs))"

text \<open>The bytes still to be read, to the frame and the bytes after it; \<open>None\<close> at the end.\<close>

definition read_frame ::
  "(bytes \<Rightarrow> bytes) \<Rightarrow> bytes \<Rightarrow> (state_error, (bytes \<times> bytes) option) result" where
  "read_frame sha rest =
     (if rest = [] then Inr None
      else try_bind (read_exact 4 rest) (\<lambda>(l, rest1).
        let len = of_le l in
        if MAX_WIRE_BYTES < len then Inl frame_limit
        else try_bind (read_exact len rest1) (\<lambda>(bs, rest2).
          try_bind (read_exact 32 rest2) (\<lambda>(checksum, rest3).
            if sha bs \<noteq> checksum then Inl (Invalid ''journal frame checksum'')
            else Inr (Some (bs, rest3))))))"

section \<open>Records\<close>

definition hex_digit :: "nat \<Rightarrow> char" where
  "hex_digit n = (if n < 10 then char_of (48 + n) else char_of (87 + n))"

definition hex :: "bytes \<Rightarrow> string" where
  "hex bs = concat (map (\<lambda>b. [hex_digit (unat b div 16), hex_digit (unat b mod 16)]) bs)"

definition record_checksum :: "codec \<Rightarrow> journal_record \<Rightarrow> (state_error, string) result" where
  "record_checksum c r =
     map_err Encoding (try_bind (cd_record_enc c (r\<lparr>jr_checksum := []\<rparr>)) (\<lambda>bs. Inr (hex (cd_sha c bs))))"

definition latest_offset :: "journal \<Rightarrow> nat" where
  "latest_offset j = (if jn_records j = fmempty then 0 else Max (fset (fmdom (jn_records j))))"

definition next_offset :: "journal \<Rightarrow> journal_offset" where
  "next_offset j = JournalOffset (latest_offset j + 1)"

definition invalid_record :: state_error where
  "invalid_record = Invalid ''invalid journal record chain or checksum''"

definition validate_record :: "codec \<Rightarrow> journal \<Rightarrow> journal_record \<Rightarrow> (state_error, unit) result" where
  "validate_record c j r =
     (if jr_offset r \<noteq> latest_offset j + 1
         \<or> jr_offset r \<le> jr_parent r
         \<or> offset_nat (base_offset (jr_patch r)) \<noteq> jr_parent r
         \<or> offset_nat (result_offset (jr_patch r)) \<noteq> jr_offset r
         \<or> jr_actor r \<noteq> patch_by (jr_patch r)
         \<or> jr_session r \<noteq> ss_session (jn_snapshot j)
         \<or> major (jr_version r) \<noteq> major CURRENT
      then Inl invalid_record
      else try_bind (record_checksum c r) (\<lambda>cks.
        if jr_checksum r \<noteq> cks then Inl invalid_record else Inr ()))"

section \<open>Materialisation\<close>

fun chain_of :: "nat \<Rightarrow> (nat, journal_record) fmap \<Rightarrow> nat \<Rightarrow> (state_error, journal_record list) result" where
  "chain_of 0 recs cursor = Inl Diverges"
| "chain_of (Suc fuel) recs cursor =
     (if cursor = 0 then Inr []
      else (case fmlookup recs cursor of
          None \<Rightarrow> Inl (Invalid (''unknown journal offset '' @ show_nat cursor))
        | Some r \<Rightarrow> try_bind (chain_of fuel recs (jr_parent r)) (\<lambda>rs. Inr (r # rs))))"

fun apply_chain ::
  "codec \<Rightarrow> session_snapshot \<Rightarrow> journal_record list \<Rightarrow> (state_error, session_snapshot) result" where
  "apply_chain c s [] = Inr s"
| "apply_chain c s (r # rs) =
     (case apply_patch (cd_json c) s (jr_patch r) of
        (_, Inl e) \<Rightarrow> Inl e
      | (s', Inr _) \<Rightarrow> apply_chain c (s'\<lparr>ss_branch := jr_branch r\<rparr>) rs)"

definition materialize :: "codec \<Rightarrow> journal \<Rightarrow> nat \<Rightarrow> (state_error, session_snapshot) result" where
  "materialize c j offset =
     try_bind (chain_of (Suc offset) (jn_records j) offset) (\<lambda>chain.
       apply_chain c (empty_snapshot (ss_session (jn_snapshot j))) (rev chain))"

definition journal_records :: "journal \<Rightarrow> journal_record list" where
  "journal_records j = fmvalues (jn_records j)"

definition materialize_branch ::
  "codec \<Rightarrow> journal \<Rightarrow> branch_id \<Rightarrow> (state_error, session_snapshot) result" where
  "materialize_branch c j branch =
     (case find (\<lambda>r. jr_branch r = branch) (rev (journal_records j)) of
        Some r \<Rightarrow> materialize c j (jr_offset r)
      | None \<Rightarrow> if branch = ''main'' then materialize c j 0 else Inl (Invalid ''unknown branch''))"

fun ancestry_loop ::
  "nat \<Rightarrow> (nat, journal_record) fmap \<Rightarrow> nat \<Rightarrow> nat list \<Rightarrow> (state_error, nat list) result" where
  "ancestry_loop 0 recs cursor offsets = Inl Diverges"
| "ancestry_loop (Suc fuel) recs cursor offsets =
     (if cursor = 0 then Inr offsets
      else (case fmlookup recs cursor of
          None \<Rightarrow> Inl (Invalid ''unknown offset'')
        | Some r \<Rightarrow> ancestry_loop fuel recs (jr_parent r) (offsets @ [cursor])))"

definition branch_ancestry :: "journal \<Rightarrow> nat \<Rightarrow> (state_error, nat list) result" where
  "branch_ancestry j offset =
     try_bind (ancestry_loop (Suc offset) (jn_records j) offset []) (\<lambda>os. Inr (rev os))"

section \<open>Creating and opening\<close>

datatype open_fault = OpenFails string | LockFails string

definition open_error :: "open_fault \<Rightarrow> state_error" where
  "open_error f = (case f of OpenFails m \<Rightarrow> Io m | LockFails m \<Rightarrow> Invalid (''journal writer lock: '' @ m))"

definition create ::
  "codec \<Rightarrow> open_fault option \<Rightarrow> write_fault \<Rightarrow> session_id \<Rightarrow> (state_error, journal) result" where
  "create c os fault sid =
     (case os of
        Some f \<Rightarrow> Inl (open_error f)
      | None \<Rightarrow>
          try_bind (map_err Encoding (cd_header_enc c
              \<lparr>hd_session = sid, hd_format = JOURNAL_FORMAT, hd_version = CURRENT\<rparr>)) (\<lambda>bs.
            case write_frame (cd_sha c) fault MAGIC bs of
              (_, Inl e) \<Rightarrow> Inl e
            | (file, Inr _) \<Rightarrow>
                Inr \<lparr>jn_file = file, jn_records = fmempty, jn_snapshot = empty_snapshot sid,
                     jn_recovery = None, jn_failed = False, jn_observer = False, jn_notified = []\<rparr>))"

text \<open>
  The closure inside the loop of \<open>open\<close>, after the frame has been read: it changes the running
  snapshot in place and returns the record.
\<close>

definition replay_record ::
  "codec \<Rightarrow> journal \<Rightarrow> bytes \<Rightarrow> journal \<times> (state_error, journal_record) result" where
  "replay_record c j bs =
     (case map_err Encoding (cd_record_dec c bs) of
        Inl e \<Rightarrow> (j, Inl e)
      | Inr r \<Rightarrow>
          (case validate_record c j r of
             Inl e \<Rightarrow> (j, Inl e)
           | Inr _ \<Rightarrow>
               if jr_parent r = ss_offset (jn_snapshot j)
               then (case apply_patch (cd_json c) (jn_snapshot j) (jr_patch r) of
                   (s', Inl e) \<Rightarrow> (j\<lparr>jn_snapshot := s'\<rparr>, Inl e)
                 | (s', Inr _) \<Rightarrow> (j\<lparr>jn_snapshot := s'\<lparr>ss_branch := jr_branch r\<rparr>\<rparr>, Inr r))
               else (case materialize c j (jr_parent r) of
                   Inl e \<Rightarrow> (j, Inl e)
                 | Inr forked \<Rightarrow>
                     (case apply_patch (cd_json c) forked (jr_patch r) of
                        (_, Inl e) \<Rightarrow> (j, Inl e)
                      | (s', Inr _) \<Rightarrow> (j\<lparr>jn_snapshot := s'\<lparr>ss_branch := jr_branch r\<rparr>\<rparr>, Inr r)))))"

definition damaged :: "journal \<Rightarrow> nat \<Rightarrow> nat \<Rightarrow> state_error \<Rightarrow> journal" where
  "damaged j start rest e =
     j\<lparr>jn_recovery := Some
        \<lparr>rd_code = ''journal_damaged_suffix'', rd_message = show_state_error e,
         rd_last_valid_offset = latest_offset j, rd_valid_bytes = start, rd_damaged_bytes = rest,
         rd_preserved_suffix = None\<rparr>\<rparr>"

lemma read_frame_shorter:
  "read_frame sha rest = Inr (Some (bs, rest')) \<Longrightarrow> length rest' < length rest"
  by (auto simp: read_frame_def read_exact_def try_bind_Inr_iff Let_def split: if_splits)

function open_loop :: "codec \<Rightarrow> journal \<Rightarrow> bytes \<Rightarrow> journal" where
  "open_loop c j rest =
     (let start = length (jn_file j) - length rest in
      case read_frame (cd_sha c) rest of
        Inl e \<Rightarrow> damaged j start (length rest) e
      | Inr None \<Rightarrow> j
      | Inr (Some (bs, rest')) \<Rightarrow>
          (case replay_record c j bs of
             (j', Inl e) \<Rightarrow> damaged j' start (length rest) e
           | (j', Inr r) \<Rightarrow> open_loop c (j'\<lparr>jn_records := fmupd (jr_offset r) r (jn_records j')\<rparr>) rest'))"
  by pat_completeness auto
termination
  by (relation "measure (\<lambda>(c, j, rest). length rest)") (auto dest: read_frame_shorter)

declare open_loop.simps [simp del]

definition open_file :: "codec \<Rightarrow> open_fault option \<Rightarrow> bytes \<Rightarrow> (state_error, journal) result" where
  "open_file c os file =
     (case os of
        Some f \<Rightarrow> Inl (open_error f)
      | None \<Rightarrow>
          try_bind (read_exact 8 file) (\<lambda>(magic, rest).
            if magic \<noteq> MAGIC then Inl (Invalid ''journal magic mismatch'')
            else try_bind (read_frame (cd_sha c) rest) (\<lambda>fr.
              try_bind (ok_or (Invalid ''missing journal header'') fr) (\<lambda>(bs, rest').
                try_bind (map_err Encoding (cd_header_dec c bs)) (\<lambda>h.
                  if hd_format h \<noteq> JOURNAL_FORMAT \<or> major (hd_version h) \<noteq> major CURRENT
                  then Inl (Invalid ''journal protocol mismatch'')
                  else Inr (open_loop c
                    \<lparr>jn_file = file, jn_records = fmempty, jn_snapshot = empty_snapshot (hd_session h),
                     jn_recovery = None, jn_failed = False, jn_observer = False, jn_notified = []\<rparr>
                    rest'))))))"

section \<open>Appending\<close>

text \<open>The record before its checksum is set; milliseconds are cast to \<open>u64\<close>.\<close>

definition draft_record :: "session_snapshot \<Rightarrow> nat \<Rightarrow> patch \<Rightarrow> branch_id \<Rightarrow> journal_record" where
  "draft_record t ms p branch =
     \<lparr>jr_offset = offset_nat (result_offset p), jr_timestamp = ms mod 2 ^ 64,
      jr_session = ss_session t, jr_branch = branch, jr_parent = ss_offset t, jr_patch = p,
      jr_actor = patch_by p, jr_version = CURRENT, jr_checksum = [], jr_causal = None\<rparr>"

definition append_on ::
  "codec \<Rightarrow> (string, nat) result \<Rightarrow> write_fault \<Rightarrow> journal \<Rightarrow> patch \<Rightarrow> branch_id
   \<Rightarrow> journal \<times> (state_error, nat) result" where
  "append_on c now fault j p branch =
     (if jn_failed j \<or> jn_recovery j \<noteq> None then (j, Inl WriteFailure)
      else if result_offset p \<noteq> next_offset j
      then (j, Inl (Invalid ''patch result must be next global offset''))
      else
        let previous = ss_offset (jn_snapshot j) in
        case map_err Invalid now of
          Inl e \<Rightarrow> (j, Inl e)
        | Inr ms \<Rightarrow>
            let r0 = draft_record (jn_snapshot j) ms p branch in
            case record_checksum c r0 of
              Inl e \<Rightarrow> (j, Inl e)
            | Inr cks \<Rightarrow>
                let r = r0\<lparr>jr_checksum := cks\<rparr> in
                case map_err Encoding (cd_record_enc c r) of
                  Inl e \<Rightarrow> (j, Inl e)
                | Inr bs \<Rightarrow>
                    if MAX_WIRE_BYTES < length bs then (j, Inl frame_limit)
                    else (case apply_patch (cd_json c) (jn_snapshot j) p of
                        (s', Inl e) \<Rightarrow> (j\<lparr>jn_snapshot := s'\<rparr>, Inl e)
                      | (s', Inr _) \<Rightarrow>
                          (case write_frame (cd_sha c) fault (jn_file j) bs of
                             (file, Inr _) \<Rightarrow>
                               let s2 = s'\<lparr>ss_branch := branch\<rparr> in
                               (j\<lparr>jn_file := file, jn_records := fmupd (jr_offset r) r (jn_records j),
                                  jn_snapshot := s2,
                                  jn_notified := jn_notified j @ (if jn_observer j then [(r, s2)] else [])\<rparr>,
                                Inr (jr_offset r))
                           | (file, Inl e) \<Rightarrow>
                               let j1 = j\<lparr>jn_file := file, jn_snapshot := s'\<rparr>;
                                   poison = (case e of Invalid _ \<Rightarrow> False | _ \<Rightarrow> True) in
                               (case materialize c j1 previous of
                                  Inr s0 \<Rightarrow>
                                    (j1\<lparr>jn_snapshot := s0, jn_failed := jn_failed j \<or> poison\<rparr>, Inl e)
                                | Inl e' \<Rightarrow> (j1\<lparr>jn_failed := True\<rparr>, Inl e')))))"

definition append_patch ::
  "codec \<Rightarrow> (string, nat) result \<Rightarrow> write_fault \<Rightarrow> journal \<Rightarrow> patch \<Rightarrow> journal \<times> (state_error, nat) result" where
  "append_patch c now fault j p = append_on c now fault j p (ss_branch (jn_snapshot j))"

text \<open>
  \<open>BranchId::mint\<close> and \<open>ElementId::mint\<close> draw random identifiers; they are arguments here.  A
  panic of \<open>container\<close> is \<open>None\<close>.
\<close>

definition fork_element :: "element_id \<Rightarrow> branch_id \<Rightarrow> nat \<Rightarrow> element_snapshot" where
  "fork_element eid branch offset =
     (new_element eid ''branch'')\<lparr>attributes :=
        fmupd ''parent_offset'' (TJson (JNumber (PosInt (word_of_nat offset))))
          (fmupd ''branch_id'' (TString branch) fmempty)\<rparr>"

definition fork_at ::
  "codec \<Rightarrow> (string, nat) result \<Rightarrow> write_fault \<Rightarrow> branch_id \<Rightarrow> element_id \<Rightarrow> journal \<Rightarrow> nat
   \<Rightarrow> (journal \<times> (state_error, branch_id) result) option" where
  "fork_at c now fault branch eid j offset =
     (case materialize c j offset of
        Inl e \<Rightarrow> Some (j, Inl e)
      | Inr parent \<Rightarrow>
          (case container parent ''branches'' of
             None \<Rightarrow> None
           | Some k \<Rightarrow>
               let index = length (children parent k) mod 2 ^ 32;
                   p = \<lparr>base_offset = JournalOffset offset, result_offset = next_offset j,
                        patch_by = Actor ''host'', reason = ''fork branch'',
                        ops = [Create k index (fork_element eid branch offset)]\<rparr>;
                   old = jn_snapshot j in
               (case append_on c now fault (j\<lparr>jn_snapshot := parent\<rparr>) p branch of
                  (j', Inl e) \<Rightarrow> Some (j'\<lparr>jn_snapshot := old\<rparr>, Inl e)
                | (j', Inr _) \<Rightarrow> Some (j', Inr branch))))"

definition rewind_to ::
  "codec \<Rightarrow> (string, nat) result \<Rightarrow> write_fault \<Rightarrow> branch_id \<Rightarrow> element_id \<Rightarrow> journal \<Rightarrow> nat
   \<Rightarrow> (journal \<times> (state_error, branch_id) result) option" where
  "rewind_to c now fault branch eid j offset = fork_at c now fault branch eid j offset"

definition select_branch ::
  "codec \<Rightarrow> (string, nat) result \<Rightarrow> write_fault \<Rightarrow> journal \<Rightarrow> branch_id
   \<Rightarrow> journal \<times> (state_error, nat) result" where
  "select_branch c now fault j branch =
     (case materialize_branch c j branch of
        Inl e \<Rightarrow> (j, Inl e)
      | Inr target \<Rightarrow>
          let p = \<lparr>base_offset = JournalOffset (ss_offset target), result_offset = next_offset j,
                   patch_by = Actor ''host'', reason = ''select branch'', ops = []\<rparr>;
              old = jn_snapshot j in
          (case append_on c now fault (j\<lparr>jn_snapshot := target\<rparr>) p branch of
             (j', Inr offset) \<Rightarrow> (j', Inr offset)
           | (j', Inl e) \<Rightarrow> (j'\<lparr>jn_snapshot := old\<rparr>, Inl e)))"

definition resume_latest :: "journal \<Rightarrow> session_snapshot" where
  "resume_latest j = jn_snapshot j"

definition set_observer :: "journal \<Rightarrow> bool \<Rightarrow> journal" where
  "set_observer j obs = j\<lparr>jn_observer := obs\<rparr>"

section \<open>Repair\<close>

text \<open>
  \<open>repair_suffix\<close> saves the damaged bytes to a sibling file and truncates.  The result carries
  the path and the bytes saved there.  An I/O error strikes before the truncation, or after it
  when the final \<open>sync_all\<close> fails.
\<close>

datatype repair_fault = BeforeTruncate string | AfterTruncate string

definition repair_suffix ::
  "repair_fault option \<Rightarrow> string \<Rightarrow> journal
   \<Rightarrow> journal \<times> (state_error, (string \<times> bytes) option) result" where
  "repair_suffix fault path j =
     (case jn_recovery j of
        None \<Rightarrow> (j, Inr None)
      | Some d \<Rightarrow>
          (case fault of
             Some (BeforeTruncate m) \<Rightarrow> (j, Inl (Io m))
           | Some (AfterTruncate m) \<Rightarrow> (j\<lparr>jn_file := take (rd_valid_bytes d) (jn_file j)\<rparr>, Inl (Io m))
           | None \<Rightarrow>
               (j\<lparr>jn_file := take (rd_valid_bytes d) (jn_file j), jn_recovery := None, jn_failed := False\<rparr>,
                Inr (Some (path, drop (rd_valid_bytes d) (jn_file j))))))"

end
