(* ===== verification/JournalInv.thy ===== *)
theory JournalInv
  imports Journal
begin

text \<open>
  The invariant of the journal and its preservation: offsets are the interval from 1, parents
  precede their children, every known offset materialises to a well-formed document at that
  offset, and the live snapshot is the materialisation of the latest record.
\<close>

section \<open>Materialisation as a recursion over parents\<close>

definition descending :: "(nat, journal_record) fmap \<Rightarrow> bool" where
  "descending recs \<longleftrightarrow> (\<forall>o' r. fmlookup recs o' = Some r \<longrightarrow> jr_parent r < o')"

definition materialize_at ::
  "codec \<Rightarrow> session_id \<Rightarrow> (nat, journal_record) fmap \<Rightarrow> nat \<Rightarrow> (state_error, session_snapshot) result" where
  "materialize_at c sid recs offset =
     try_bind (chain_of (Suc offset) recs offset) (\<lambda>chain. apply_chain c (empty_snapshot sid) (rev chain))"

lemma materialize_eq: "materialize c j = materialize_at c (ss_session (jn_snapshot j)) (jn_records j)"
  by (rule ext) (simp add: materialize_def materialize_at_def)

lemma chain_fuel:
  "descending recs \<Longrightarrow> k < f \<Longrightarrow> k < g \<Longrightarrow> chain_of f recs k = chain_of g recs k"
proof (induction f arbitrary: g k)
  case 0
  then show ?case by simp
next
  case (Suc f)
  then obtain g' where g: "g = Suc g'" by (cases g) auto
  show ?case
  proof (cases "k = 0")
    case True
    then show ?thesis by (simp add: g)
  next
    case False
    then have "chain_of f recs (jr_parent r) = chain_of g' recs (jr_parent r)"
      if "fmlookup recs k = Some r" for r
      using Suc that unfolding descending_def g by (metis Suc_less_SucD less_trans_Suc not_less_eq)
    with False show ?thesis by (simp add: g split: option.split)
  qed
qed

lemma chain_no_diverge: "descending recs \<Longrightarrow> k < f \<Longrightarrow> chain_of f recs k \<noteq> Inl Diverges"
proof (induction f arbitrary: k)
  case 0
  then show ?case by simp
next
  case (Suc f)
  have "chain_of f recs (jr_parent r) \<noteq> Inl Diverges" if "fmlookup recs k = Some r" for r
    using Suc that unfolding descending_def by fastforce
  then show ?case by (auto simp: try_bind_Inl_iff split: option.split)
qed

lemma apply_chain_append:
  "apply_chain c s (xs @ ys) = try_bind (apply_chain c s xs) (\<lambda>s'. apply_chain c s' ys)"
  by (induction xs arbitrary: s) (auto split: prod.split sum.split)

definition apply_record ::
  "codec \<Rightarrow> journal_record \<Rightarrow> session_snapshot \<Rightarrow> (state_error, session_snapshot) result" where
  "apply_record c r s =
     (case apply_patch (cd_json c) s (jr_patch r) of
        (_, Inl e) \<Rightarrow> Inl e
      | (s', Inr _) \<Rightarrow> Inr (s'\<lparr>ss_branch := jr_branch r\<rparr>))"

lemma apply_chain_single: "apply_chain c s [r] = apply_record c r s"
  by (simp add: apply_record_def split: prod.split sum.split)

lemma apply_record_Inr_iff:
  "apply_record c r s = Inr t \<longleftrightarrow>
     (\<exists>s'. apply_patch (cd_json c) s (jr_patch r) = (s', Inr ()) \<and> t = s'\<lparr>ss_branch := jr_branch r\<rparr>)"
  unfolding apply_record_def
  by (cases "apply_patch (cd_json c) s (jr_patch r)"; cases "snd (apply_patch (cd_json c) s (jr_patch r))") auto

lemma materialize_at_0 [simp]: "materialize_at c sid recs 0 = Inr (empty_snapshot sid)"
  by (simp add: materialize_at_def)

lemma materialize_at_rec:
  assumes d: "descending recs" and r: "fmlookup recs k = Some r" and k: "k \<noteq> 0"
  shows "materialize_at c sid recs k = try_bind (materialize_at c sid recs (jr_parent r)) (apply_record c r)"
proof -
  have "jr_parent r < k" using d r by (auto simp: descending_def)
  then have "chain_of k recs (jr_parent r) = chain_of (Suc (jr_parent r)) recs (jr_parent r)"
    by (intro chain_fuel[OF d]) auto
  then have "chain_of (Suc k) recs k =
      try_bind (chain_of (Suc (jr_parent r)) recs (jr_parent r)) (\<lambda>rs. Inr (r # rs))"
    using r k by simp
  then show ?thesis
    unfolding materialize_at_def
    by (cases "chain_of (Suc (jr_parent r)) recs (jr_parent r)")
      (simp_all add: apply_chain_append apply_chain_single del: apply_chain.simps chain_of.simps)
qed

lemma materialize_at_unknown:
  "k \<noteq> 0 \<Longrightarrow> fmlookup recs k = None \<Longrightarrow> \<exists>m. materialize_at c sid recs k = Inl (Invalid m)"
  by (simp add: materialize_at_def)

lemma chain_upd:
  "descending recs \<Longrightarrow> k < n \<Longrightarrow> chain_of f (fmupd n r recs) k = chain_of f recs k"
proof (induction f arbitrary: k)
  case 0
  then show ?case by simp
next
  case (Suc f)
  have "chain_of f (fmupd n r recs) (jr_parent q) = chain_of f recs (jr_parent q)"
    if "fmlookup recs k = Some q" for q
    using Suc that unfolding descending_def by (meson less_trans)
  with Suc.prems show ?case by (simp split: option.split)
qed

lemma materialize_at_upd:
  "descending recs \<Longrightarrow> k < n \<Longrightarrow> materialize_at c sid (fmupd n r recs) k = materialize_at c sid recs k"
  by (simp only: materialize_at_def chain_upd)

section \<open>The invariant\<close>

definition record_ok :: "session_id \<Rightarrow> nat \<Rightarrow> journal_record \<Rightarrow> bool" where
  "record_ok sid k r \<longleftrightarrow>
     jr_offset r = k \<and> jr_parent r < k \<and> offset_nat (base_offset (jr_patch r)) = jr_parent r
     \<and> offset_nat (result_offset (jr_patch r)) = k \<and> jr_actor r = patch_by (jr_patch r)
     \<and> jr_session r = sid \<and> major (jr_version r) = major CURRENT"

definition good_snapshot :: "session_id \<Rightarrow> nat \<Rightarrow> session_snapshot \<Rightarrow> bool" where
  "good_snapshot sid k s \<longleftrightarrow> wf_snapshot s \<and> ss_offset s = k \<and> ss_session s = sid"

definition journal_ok :: "codec \<Rightarrow> journal \<Rightarrow> bool" where
  "journal_ok c j \<longleftrightarrow>
     (let recs = jn_records j; n = latest_offset j; sid = ss_session (jn_snapshot j) in
      fset (fmdom recs) = {1..n}
      \<and> (\<forall>k r. fmlookup recs k = Some r \<longrightarrow> record_ok sid k r)
      \<and> (\<forall>k \<le> n. \<exists>s. materialize_at c sid recs k = Inr s \<and> good_snapshot sid k s)
      \<and> materialize_at c sid recs n = Inr (jn_snapshot j))"

lemma journal_okD:
  assumes "journal_ok c j"
  shows "fset (fmdom (jn_records j)) = {1..latest_offset j}"
    and "fmlookup (jn_records j) k = Some r \<Longrightarrow> record_ok (ss_session (jn_snapshot j)) k r"
    and "k \<le> latest_offset j \<Longrightarrow> \<exists>s. materialize_at c (ss_session (jn_snapshot j)) (jn_records j) k = Inr s
           \<and> good_snapshot (ss_session (jn_snapshot j)) k s"
    and "materialize_at c (ss_session (jn_snapshot j)) (jn_records j) (latest_offset j) = Inr (jn_snapshot j)"
    and "descending (jn_records j)"
  using assms unfolding journal_ok_def Let_def descending_def record_ok_def by blast+

lemma journal_ok_snapshot:
  assumes "journal_ok c j"
  shows "good_snapshot (ss_session (jn_snapshot j)) (latest_offset j) (jn_snapshot j)"
  using journal_okD(3)[OF assms order_refl] journal_okD(4)[OF assms] by auto

lemma journal_ok_lookup:
  assumes "journal_ok c j"
  shows "fmlookup (jn_records j) k \<noteq> None \<longleftrightarrow> 1 \<le> k \<and> k \<le> latest_offset j"
proof -
  have "fmlookup (jn_records j) k \<noteq> None \<longleftrightarrow> k \<in> fset (fmdom (jn_records j))"
    by (auto simp: fmdom_notI fmdomI intro: fmdom_notD)
  then show ?thesis by (simp add: journal_okD(1)[OF assms])
qed

lemma materialize_known:
  assumes "journal_ok c j" "materialize c j k = Inr t"
  shows "k \<le> latest_offset j" "good_snapshot (ss_session (jn_snapshot j)) k t"
proof -
  show k: "k \<le> latest_offset j"
  proof (rule ccontr)
    assume n: "\<not> ?thesis"
    then have "fmlookup (jn_records j) k = None" using journal_ok_lookup[OF assms(1), of k] by auto
    with n assms(2) materialize_at_unknown[of k "jn_records j" c "ss_session (jn_snapshot j)"]
    show False by (auto simp: materialize_eq)
  qed
  show "good_snapshot (ss_session (jn_snapshot j)) k t"
    using journal_okD(3)[OF assms(1) k] assms(2) by (auto simp: materialize_eq)
qed

lemma latest_offset_empty [simp]: "jn_records j = fmempty \<Longrightarrow> latest_offset j = 0"
  by (simp add: latest_offset_def)

lemma latest_offset_upd:
  assumes "fset (fmdom recs) = {1..n}" "jn_records j = fmupd (Suc n) r recs"
  shows "latest_offset j = Suc n"
proof -
  have "fset (fmdom (jn_records j)) = {1..Suc n}"
    by (simp only: assms fmdom_fmupd finsert.rep_eq atLeastAtMostSuc_conv)
  moreover have "fmlookup (jn_records j) (Suc n) \<noteq> None" by (simp add: assms(2))
  then have "jn_records j \<noteq> fmempty" by auto
  ultimately show ?thesis by (simp add: latest_offset_def Max_eq_iff)
qed

lemma latest_offset_cong: "jn_records j = jn_records j' \<Longrightarrow> latest_offset j = latest_offset j'"
  by (simp add: latest_offset_def)

lemma journal_ok_cong:
  "journal_ok c j \<Longrightarrow> jn_records j' = jn_records j \<Longrightarrow> jn_snapshot j' = jn_snapshot j \<Longrightarrow> journal_ok c j'"
  using latest_offset_cong[of j' j] by (simp only: journal_ok_def)

lemma journal_ok_new:
  "jn_records j = fmempty \<Longrightarrow> jn_snapshot j = empty_snapshot sid \<Longrightarrow> journal_ok c j"
  by (simp add: journal_ok_def good_snapshot_def wf_empty)

text \<open>Adding one checked record whose patch applies to the materialised parent.\<close>

lemma apply_record_good:
  assumes "good_snapshot sid k s" "apply_record c r s = Inr t"
    "offset_nat (result_offset (jr_patch r)) = n"
  shows "good_snapshot sid n t"
proof -
  obtain s' u where a: "apply_patch (cd_json c) s (jr_patch r) = (s', Inr u)"
    and t: "t = s'\<lparr>ss_branch := jr_branch r\<rparr>"
    using assms(2) by (auto simp: apply_record_def split: prod.splits sum.splits)
  have "wf_snapshot s" using assms(1) by (simp add: good_snapshot_def)
  note p = apply_patch_ok[OF this a]
  show ?thesis
    using p assms(1,3) by (simp add: good_snapshot_def t wf_snapshot_def evolves_def)
qed

lemma journal_ok_add:
  assumes ok: "journal_ok c j" and r: "record_ok (ss_session (jn_snapshot j)) (Suc (latest_offset j)) r"
    and m: "materialize_at c (ss_session (jn_snapshot j)) (jn_records j) (jr_parent r) = Inr s"
    and a: "apply_record c r s = Inr t"
    and j': "jn_records j' = fmupd (Suc (latest_offset j)) r (jn_records j)" "jn_snapshot j' = t"
  shows "journal_ok c j' \<and> latest_offset j' = Suc (latest_offset j) \<and> ss_session t = ss_session (jn_snapshot j)"
proof -
  let ?n = "latest_offset j" and ?sid = "ss_session (jn_snapshot j)" and ?recs = "jn_records j"
  let ?recs' = "fmupd (Suc ?n) r ?recs"
  note d = journal_okD[OF ok]
  have n': "latest_offset j' = Suc ?n" using latest_offset_upd[OF d(1) j'(1)] .
  have p: "jr_parent r < Suc ?n" using r by (simp add: record_ok_def)
  have gs: "good_snapshot ?sid (jr_parent r) s" using d(3)[of "jr_parent r"] m p by auto
  have gt: "good_snapshot ?sid (Suc ?n) t"
    using apply_record_good[OF gs a] r by (simp add: record_ok_def)
  then have sid: "ss_session t = ?sid" by (simp add: good_snapshot_def)
  have "descending ?recs'" using d(5) p by (auto simp: descending_def)
  from materialize_at_rec[OF this, of "Suc ?n" r c ?sid] have top: "materialize_at c ?sid ?recs' (Suc ?n) = Inr t"
    using materialize_at_upd[OF d(5) p, of c ?sid r] m a by simp
  have "\<exists>s. materialize_at c ?sid ?recs' k = Inr s \<and> good_snapshot ?sid k s" if "k \<le> Suc ?n" for k
  proof (cases "k = Suc ?n")
    case True
    with top gt show ?thesis by blast
  next
    case False
    with that have "k \<le> ?n" "k < Suc ?n" by simp_all
    with d(3)[of k] materialize_at_upd[OF d(5), of k "Suc ?n" c ?sid r] show ?thesis by simp
  qed
  moreover have "fset (fmdom ?recs') = {1..Suc ?n}"
    by (simp only: d(1) fmdom_fmupd finsert.rep_eq atLeastAtMostSuc_conv)
  moreover have "record_ok ?sid k q" if "fmlookup ?recs' k = Some q" for k q
    using that r d(2)[of k q] by (simp split: if_splits)
  ultimately have "journal_ok c j'"
    unfolding journal_ok_def Let_def n' j' sid using top by (intro conjI allI impI) blast+
  with n' sid show ?thesis by blast
qed

end
