(* ===== verification/JournalOps.thy ===== *)
theory JournalOps
  imports JournalInv
begin

text \<open>
  Every operation of the journal keeps the invariant: creating, opening a file of any bytes,
  appending with or without a write fault, forking, selecting a branch and repairing.
\<close>

section \<open>Creating and opening\<close>

lemma create_ok: "create c os fault sid = Inr j \<Longrightarrow> journal_ok c j"
  by (auto simp: create_def try_bind_Inr_iff write_frame_def intro!: journal_ok_new[where sid = sid]
      split: option.splits if_splits)

lemma validate_record_InrD:
  assumes "validate_record c j r = Inr u"
  shows "record_ok (ss_session (jn_snapshot j)) (Suc (latest_offset j)) r"
    and "record_checksum c r = Inr (jr_checksum r)"
proof -
  show "record_ok (ss_session (jn_snapshot j)) (Suc (latest_offset j)) r"
  proof (rule ccontr)
    assume "\<not> ?thesis"
    then have "validate_record c j r = Inl invalid_record"
      by (auto simp: validate_record_def record_ok_def)
    with assms show False by simp
  qed
  show "record_checksum c r = Inr (jr_checksum r)"
    using assms by (auto simp: validate_record_def try_bind_Inr_iff split: if_splits)
qed

lemma materialize_at_snapshot:
  assumes "journal_ok c j" "k = ss_offset (jn_snapshot j)"
  shows "materialize_at c (ss_session (jn_snapshot j)) (jn_records j) k = Inr (jn_snapshot j)"
  using journal_okD(4)[OF assms(1)] journal_ok_snapshot[OF assms(1)] assms(2)
  by (simp add: good_snapshot_def)

lemma replay_record_InrD:
  assumes ok: "journal_ok c j" and r: "replay_record c j bs = (j', Inr r)"
  shows "\<exists>s t. validate_record c j r = Inr () \<and> cd_record_dec c bs = Inr r
     \<and> materialize_at c (ss_session (jn_snapshot j)) (jn_records j) (jr_parent r) = Inr s
     \<and> apply_record c r s = Inr t \<and> j' = j\<lparr>jn_snapshot := t\<rparr>"
proof -
  from r have v: "validate_record c j r = Inr ()" "cd_record_dec c bs = Inr r"
    by (auto simp: replay_record_def result_simps split: sum.splits if_splits prod.splits)
  show ?thesis
  proof (cases "jr_parent r = ss_offset (jn_snapshot j)")
    case True
    with r v materialize_at_snapshot[OF ok True] show ?thesis
      by (auto simp: replay_record_def apply_record_Inr_iff split: prod.splits sum.splits)
  next
    case False
    obtain s where m: "materialize c j (jr_parent r) = Inr s"
      using False r v by (cases "materialize c j (jr_parent r)") (auto simp: replay_record_def)
    obtain s' ar where ap: "apply_patch (cd_json c) s (jr_patch r) = (s', ar)"
      by (cases "apply_patch (cd_json c) s (jr_patch r)") auto
    with False r v m obtain u where "ar = Inr u" "j' = j\<lparr>jn_snapshot := s'\<lparr>ss_branch := jr_branch r\<rparr>\<rparr>"
      by (cases ar) (auto simp: replay_record_def)
    with v m ap show ?thesis by (auto simp: apply_record_Inr_iff materialize_eq)
  qed
qed

lemma replay_record_Inl:
  assumes ok: "journal_ok c j" and r: "replay_record c j bs = (j', Inl e)"
  shows "j' = j"
proof -
  have wf: "wf_snapshot (jn_snapshot j)" using journal_ok_snapshot[OF ok] by (simp add: good_snapshot_def)
  show ?thesis
    using r apply_patch_error(1)[OF wf]
    by (auto simp: replay_record_def split: sum.splits if_splits prod.splits)
qed

lemma replay_step_ok:
  assumes ok: "journal_ok c j" and r: "replay_record c j bs = (j', Inr r)"
  shows "journal_ok c (j'\<lparr>jn_records := fmupd (jr_offset r) r (jn_records j')\<rparr>)"
proof -
  obtain s t where st: "validate_record c j r = Inr ()"
    "materialize_at c (ss_session (jn_snapshot j)) (jn_records j) (jr_parent r) = Inr s"
    "apply_record c r s = Inr t" "j' = j\<lparr>jn_snapshot := t\<rparr>"
    using replay_record_InrD[OF ok r] by blast
  note v = validate_record_InrD(1)[OF st(1)]
  show ?thesis
    using journal_ok_add[OF ok v st(2,3), of "j'\<lparr>jn_records := fmupd (jr_offset r) r (jn_records j')\<rparr>"] v
    by (simp add: st(4) record_ok_def)
qed

lemma open_loop_ok: "journal_ok c j \<Longrightarrow> journal_ok c (open_loop c j rest)"
proof (induction c j rest rule: open_loop.induct)
  case (1 c j rest)
  show ?case
  proof (cases "read_frame (cd_sha c) rest")
    case (Inl e)
    then show ?thesis using 1(2)
      by (subst open_loop.simps) (simp add: damaged_def journal_ok_cong[where j = j])
  next
    case (Inr fr)
    show ?thesis
    proof (cases fr)
      case None
      with Inr 1(2) show ?thesis by (subst open_loop.simps) simp
    next
      case (Some p)
      obtain bs rest' where p: "p = (bs, rest')" by (cases p) auto
      obtain j' res where rr: "replay_record c j bs = (j', res)" by (cases "replay_record c j bs") auto
      show ?thesis
      proof (cases res)
        case (Inl e)
        with rr replay_record_Inl[OF 1(2)] have "j' = j" by blast
        with Inl rr Inr Some p 1(2) show ?thesis
          by (subst open_loop.simps) (simp add: damaged_def journal_ok_cong[where j = j])
      next
        case res: (Inr r)
        note replay_step_ok[OF 1(2) rr[unfolded res]]
        with 1(1)[OF refl Inr Some p[symmetric] rr[symmetric] res] Inr Some p rr res show ?thesis
          by (subst open_loop.simps) simp
      qed
    qed
  qed
qed

lemma open_file_ok: "open_file c os file = Inr j \<Longrightarrow> journal_ok c j"
  by (auto simp: open_file_def try_bind_Inr_iff split: option.splits if_splits
      intro!: open_loop_ok journal_ok_new)

section \<open>Appending\<close>

text \<open>
  \<open>append_on\<close> runs on a journal whose snapshot may have been swapped for that of another offset;
  \<open>based c j t\<close> says that \<open>t\<close> is the document of some known offset of \<open>j\<close>.
\<close>

definition based :: "codec \<Rightarrow> journal \<Rightarrow> session_snapshot \<Rightarrow> bool" where
  "based c j t \<longleftrightarrow>
     materialize_at c (ss_session (jn_snapshot j)) (jn_records j) (ss_offset t) = Inr t
     \<and> good_snapshot (ss_session (jn_snapshot j)) (ss_offset t) t \<and> ss_offset t \<le> latest_offset j"

lemma based_self: "journal_ok c j \<Longrightarrow> based c j (jn_snapshot j)"
  using journal_okD(4)[of c j] journal_ok_snapshot[of c j] by (simp add: based_def good_snapshot_def)

lemma based_materialize: "journal_ok c j \<Longrightarrow> materialize c j k = Inr t \<Longrightarrow> based c j t \<and> ss_offset t = k"
  using materialize_known[of c j k t] by (auto simp: based_def good_snapshot_def materialize_eq)

lemma append_on_cases:
  assumes a: "append_on c now fault (j\<lparr>jn_snapshot := t\<rparr>) p branch = (j', res)"
  obtains (rejected) e where "res = Inl e" "j' = j\<lparr>jn_snapshot := t\<rparr>" "e \<noteq> Diverges"
  | (unapplied) s' e where "res = Inl e" "j' = j\<lparr>jn_snapshot := s'\<rparr>" "apply_patch (cd_json c) t p = (s', Inl e)"
  | (written) ms cks r bs s' where "\<not> jn_failed j" "jn_recovery j = None" "result_offset p = next_offset j"
      "now = Inr ms" "r = draft_record t ms p branch\<lparr>jr_checksum := cks\<rparr>" "record_checksum c r = Inr cks"
      "cd_record_enc c r = Inr bs" "length bs \<le> MAX_WIRE_BYTES"
      "apply_patch (cd_json c) t p = (s', Inr ())" "fault = None" "res = Inr (jr_offset r)"
      "j' = j\<lparr>jn_file := jn_file j @ frame_bytes (cd_sha c) bs,
              jn_records := fmupd (jr_offset r) r (jn_records j), jn_snapshot := s'\<lparr>ss_branch := branch\<rparr>,
              jn_notified := jn_notified j @ (if jn_observer j then [(r, s'\<lparr>ss_branch := branch\<rparr>)] else [])\<rparr>"
  | (torn) ms cks r bs s' n m where "\<not> jn_failed j" "jn_recovery j = None" "result_offset p = next_offset j"
      "now = Inr ms" "r = draft_record t ms p branch\<lparr>jr_checksum := cks\<rparr>" "record_checksum c r = Inr cks"
      "cd_record_enc c r = Inr bs" "length bs \<le> MAX_WIRE_BYTES"
      "apply_patch (cd_json c) t p = (s', Inr ())" "fault = Some (n, m)"
      "(j', res) = (let j1 = j\<lparr>jn_file := jn_file j @ take n (frame_bytes (cd_sha c) bs), jn_snapshot := s'\<rparr> in
         case materialize c j1 (ss_offset t) of
           Inr s0 \<Rightarrow> (j1\<lparr>jn_snapshot := s0, jn_failed := True\<rparr>, Inl (Io m))
         | Inl e' \<Rightarrow> (j1\<lparr>jn_failed := True\<rparr>, Inl e'))"
proof -
  have no: "next_offset (j\<lparr>jn_snapshot := t\<rparr>) = next_offset j"
    by (simp add: next_offset_def latest_offset_def)
  have ck: "record_checksum c (r\<lparr>jr_checksum := cks\<rparr>) = record_checksum c r" for r cks
    by (simp add: record_checksum_def)
  show thesis
  proof (cases "jn_failed j \<or> jn_recovery j \<noteq> None \<or> result_offset p \<noteq> next_offset j")
    case True
    with a show thesis by (auto simp: append_on_def no frame_limit_def intro: rejected split: if_splits)
  next
    case False
    note g = this
    show thesis
    proof (cases now)
      case (Inl e)
      with a g show thesis by (auto simp: append_on_def no intro: rejected)
    next
      case now: (Inr ms)
      let ?r0 = "draft_record t ms p branch"
      show thesis
      proof (cases "record_checksum c ?r0")
        case (Inl e)
        then have "e \<noteq> Diverges" by (auto simp: record_checksum_def map_err_Inl_iff)
        with Inl a g now show thesis by (auto simp: append_on_def no Let_def frame_limit_def intro: rejected)
      next
        case cks: (Inr cks)
        let ?r = "draft_record t ms p branch\<lparr>jr_checksum := cks\<rparr>"
        have c2: "record_checksum c ?r = Inr cks" by (simp only: ck cks)
        show thesis
        proof (cases "cd_record_enc c ?r")
          case (Inl e)
          with a g now cks show thesis by (auto simp: append_on_def no Let_def frame_limit_def intro: rejected)
        next
          case enc: (Inr bs)
          show thesis
          proof (cases "MAX_WIRE_BYTES < length bs")
            case True
            with a g now cks enc show thesis by (auto simp: append_on_def no Let_def frame_limit_def intro: rejected)
          next
            case False
            obtain s' ar where ap: "apply_patch (cd_json c) t p = (s', ar)"
              by (cases "apply_patch (cd_json c) t p") auto
            show thesis
            proof (cases ar)
              case (Inl e)
              with a g now cks enc False ap show thesis
                by (auto simp: append_on_def no Let_def intro: unapplied)
            next
              case ar: (Inr u)
              show thesis
              proof (cases fault)
                case None
                with a g now cks enc False ap ar have "res = Inr (jr_offset ?r)"
                  "j' = j\<lparr>jn_file := jn_file j @ frame_bytes (cd_sha c) bs,
                    jn_records := fmupd (jr_offset ?r) ?r (jn_records j), jn_snapshot := s'\<lparr>ss_branch := branch\<rparr>,
                    jn_notified := jn_notified j @ (if jn_observer j then [(?r, s'\<lparr>ss_branch := branch\<rparr>)] else [])\<rparr>"
                  by (simp_all add: append_on_def no Let_def write_frame_def)
                then show thesis
                  using g now c2 enc False ap ar None
                  by (intro written[where ms = ms and r = ?r and cks = cks and bs = bs and s' = s'])
                    simp_all
              next
                case (Some nm)
                obtain n m where nm: "nm = (n, m)" by (cases nm) auto
                with a g now cks enc False ap ar Some have tn: "(j', res) =
                   (let j1 = j\<lparr>jn_file := jn_file j @ take n (frame_bytes (cd_sha c) bs), jn_snapshot := s'\<rparr> in
                     case materialize c j1 (ss_offset t) of
                       Inr s0 \<Rightarrow> (j1\<lparr>jn_snapshot := s0, jn_failed := True\<rparr>, Inl (Io m))
                     | Inl e' \<Rightarrow> (j1\<lparr>jn_failed := True\<rparr>, Inl e'))"
                  by (simp add: append_on_def no Let_def write_frame_def cong: sum.case_cong)
                have u: "apply_patch (cd_json c) t p = (s', Inr ())" using ap ar by simp
                show thesis
                  by (rule torn[OF _ _ _ now refl c2 enc _ u _ tn]) (use g False Some nm in simp_all)
              qed
            qed
          qed
        qed
      qed
    qed
  qed
qed

lemma draft_record_ok:
  assumes "based c j t" "result_offset p = next_offset j" "apply_patch (cd_json c) t p = (s', Inr u)"
  shows "record_ok (ss_session (jn_snapshot j)) (Suc (latest_offset j))
           (draft_record t ms p branch\<lparr>jr_checksum := cks\<rparr>)"
    and "ss_session s' = ss_session (jn_snapshot j)"
proof -
  have g: "wf_snapshot t" "ss_session t = ss_session (jn_snapshot j)" "ss_offset t \<le> latest_offset j"
    using assms(1) by (simp_all add: based_def good_snapshot_def)
  note a = apply_patch_ok[OF g(1) assms(3)]
  show "record_ok (ss_session (jn_snapshot j)) (Suc (latest_offset j))
           (draft_record t ms p branch\<lparr>jr_checksum := cks\<rparr>)"
    using g a(4) assms(2) by (simp add: record_ok_def draft_record_def next_offset_def)
  show "ss_session s' = ss_session (jn_snapshot j)" using a(2) g(2) by (simp add: evolves_def)
qed

text \<open>What an append does, seen from outside: it adds one record, or changes nothing but the tail
  of the file.\<close>

lemma append_on_result:
  assumes ok: "journal_ok c j" and bt: "based c j t"
    and a: "append_on c now fault (j\<lparr>jn_snapshot := t\<rparr>) p branch = (j', res)"
  shows "case res of
      Inr k \<Rightarrow> k = Suc (latest_offset j) \<and> journal_ok c j' \<and> latest_offset j' = k
        \<and> ss_session (jn_snapshot j') = ss_session (jn_snapshot j)
        \<and> jn_recovery j = None \<and> \<not> jn_failed j \<and> jn_recovery j' = None \<and> \<not> jn_failed j'
        \<and> (\<exists>r bs. jn_records j' = fmupd k r (jn_records j)
             \<and> record_ok (ss_session (jn_snapshot j)) k r \<and> jr_parent r = ss_offset t \<and> jr_patch r = p
             \<and> jr_branch r = branch \<and> record_checksum c r = Inr (jr_checksum r)
             \<and> cd_record_enc c r = Inr bs \<and> length bs \<le> MAX_WIRE_BYTES
             \<and> jn_file j' = jn_file j @ frame_bytes (cd_sha c) bs
             \<and> apply_record c r t = Inr (jn_snapshot j'))
    | Inl e \<Rightarrow> jn_snapshot j' = t \<and> jn_records j' = jn_records j \<and> jn_recovery j' = jn_recovery j
        \<and> e \<noteq> Diverges
        \<and> (jn_file j' = jn_file j \<and> jn_failed j' = jn_failed j
           \<or> jn_failed j' \<and> jn_recovery j = None \<and> \<not> jn_failed j
             \<and> (\<exists>n m r bs. fault = Some (n, m) \<and> e = Io m \<and> cd_record_enc c r = Inr bs
                \<and> length bs \<le> MAX_WIRE_BYTES
                \<and> jn_file j' = jn_file j @ take n (frame_bytes (cd_sha c) bs)))"
  using a
proof (cases rule: append_on_cases)
  case (rejected e)
  then show ?thesis by simp
next
  case (unapplied s' e)
  have "wf_snapshot t" using bt by (simp add: based_def good_snapshot_def)
  from apply_patch_error[OF this unapplied(3)] unapplied show ?thesis by simp
next
  case (written ms cks r bs s')
  have dr: "record_ok (ss_session (jn_snapshot j)) (Suc (latest_offset j)) r"
    unfolding written(5) by (rule draft_record_ok(1)[OF bt written(3,9)])
  have p: "jr_parent r = ss_offset t" "jr_patch r = p" "jr_branch r = branch" "jr_checksum r = cks"
    by (simp_all add: written(5) draft_record_def)
  have ap: "apply_record c r t = Inr (s'\<lparr>ss_branch := branch\<rparr>)"
    by (simp add: apply_record_Inr_iff p written(9))
  have m: "materialize_at c (ss_session (jn_snapshot j)) (jn_records j) (jr_parent r) = Inr t"
    using bt by (simp add: based_def p)
  have k: "jr_offset r = Suc (latest_offset j)" using dr by (simp add: record_ok_def)
  have "journal_ok c j' \<and> latest_offset j' = Suc (latest_offset j)
      \<and> ss_session (s'\<lparr>ss_branch := branch\<rparr>) = ss_session (jn_snapshot j)"
    by (rule journal_ok_add[OF ok dr m ap]) (simp_all add: written(12) k)
  with written p ap k dr show ?thesis by auto
next
  case (torn ms cks r bs s' n m)
  have sid: "ss_session s' = ss_session (jn_snapshot j)" using draft_record_ok(2)[OF bt torn(3,9)] .
  let ?j1 = "j\<lparr>jn_file := jn_file j @ take n (frame_bytes (cd_sha c) bs), jn_snapshot := s'\<rparr>"
  have "materialize c ?j1 (ss_offset t) = Inr t" using bt by (simp add: materialize_eq sid based_def)
  with torn(11) have "j' = ?j1\<lparr>jn_snapshot := t, jn_failed := True\<rparr>" "res = Inl (Io m)"
    by (simp_all add: Let_def)
  with torn show ?thesis by auto
qed

end
