(* ===== verification/JournalFile.thy ===== *)
theory JournalFile
  imports JournalOps
begin

text \<open>
  What the bytes of a journal file mean: frames round trip, a file is replayed record by record,
  and the file of a journal always splits into a part that replays to the journal's records and
  snapshot and a torn or damaged tail.
\<close>

section \<open>Frames\<close>

lemma of_le_u32: "n < 2 ^ 32 \<Longrightarrow> of_le (u32_le n) = n"
proof -
  assume a: "n < 2 ^ 32"
  define q r s where "q = n div 256" and "r = q div 256" and "s = r div 256"
  have d: "n div 65536 = r" "n div 16777216 = s"
    by (simp_all add: q_def r_def s_def div_mult2_eq[symmetric])
  have "s < 256" using a unfolding q_def r_def s_def by (simp add: div_mult2_eq[symmetric] less_mult_imp_div_less)
  moreover have "n = n mod 256 + 256 * q" "q = q mod 256 + 256 * r" "r = r mod 256 + 256 * s"
    by (simp_all add: q_def r_def s_def)
  ultimately show ?thesis
    by (simp add: u32_le_def unat_of_nat take_bit_eq_mod d q_def[symmetric])
qed

lemma length_u32 [simp]: "length (u32_le n) = 4"
  by (simp add: u32_le_def)

definition sha_ok :: "codec \<Rightarrow> bool" where
  "sha_ok c \<longleftrightarrow> (\<forall>bs. length (cd_sha c bs) = 32)"

lemma length_frame: "sha_ok c \<Longrightarrow> length (frame_bytes (cd_sha c) bs) = length bs + 36"
  by (simp add: frame_bytes_def sha_ok_def)

lemma MAX_WIRE_lt: "n \<le> MAX_WIRE_BYTES \<Longrightarrow> n < 2 ^ 32"
  by (simp add: MAX_WIRE_BYTES_def)

lemma read_frame_write:
  assumes "sha_ok c" "length bs \<le> MAX_WIRE_BYTES"
  shows "read_frame (cd_sha c) (frame_bytes (cd_sha c) bs @ rest) = Inr (Some (bs, rest))"
proof -
  have l: "of_le (u32_le (length bs)) = length bs" using of_le_u32[OF MAX_WIRE_lt[OF assms(2)]] .
  have ne: "frame_bytes (cd_sha c) bs @ rest \<noteq> []" by (simp add: frame_bytes_def u32_le_def)
  have "read_exact 4 (frame_bytes (cd_sha c) bs @ rest) = Inr (u32_le (length bs), bs @ cd_sha c bs @ rest)"
    by (simp add: read_exact_def frame_bytes_def)
  moreover have "read_exact (length bs) (bs @ cd_sha c bs @ rest) = Inr (bs, cd_sha c bs @ rest)"
    by (simp add: read_exact_def)
  moreover have "read_exact 32 (cd_sha c bs @ rest) = Inr (cd_sha c bs, rest)"
    using assms(1) by (simp add: read_exact_def sha_ok_def)
  ultimately show ?thesis using ne assms(2) by (simp add: read_frame_def l)
qed

lemma read_frame_torn:
  assumes "sha_ok c" "length bs \<le> MAX_WIRE_BYTES" "0 < n" "n < length (frame_bytes (cd_sha c) bs)"
  shows "read_frame (cd_sha c) (take n (frame_bytes (cd_sha c) bs)) = Inl short_read"
proof -
  let ?f = "frame_bytes (cd_sha c) bs"
  have l: "of_le (u32_le (length bs)) = length bs" using of_le_u32[OF MAX_WIRE_lt[OF assms(2)]] .
  have ne: "take n ?f \<noteq> []" using assms(3,4) by (cases ?f) auto
  have lf: "length ?f = length bs + 36" using length_frame[OF assms(1)] .
  show ?thesis
  proof (cases "n < 4")
    case True
    with ne lf show ?thesis by (simp add: read_frame_def read_exact_def)
  next
    case False
    then have t: "take n ?f = u32_le (length bs) @ take (n - 4) (bs @ cd_sha c bs)"
      by (simp add: frame_bytes_def)
    have r4: "read_exact 4 (take n ?f) = Inr (u32_le (length bs), take (n - 4) (bs @ cd_sha c bs))"
      by (simp add: t read_exact_def)
    show ?thesis
    proof (cases "n - 4 < length bs")
      case True
      with ne r4 assms(2) show ?thesis by (simp add: read_frame_def l read_exact_def)
    next
      case F2: False
      then have "take (n - 4) (bs @ cd_sha c bs) = bs @ take (n - 4 - length bs) (cd_sha c bs)" by simp
      moreover have "n - 4 - length bs < 32" using False F2 assms(4) lf by simp
      ultimately show ?thesis using ne r4 assms(1,2) by (simp add: read_frame_def l read_exact_def sha_ok_def)
    qed
  qed
qed

lemma read_exact_append:
  "read_exact n bs = Inr (x, r) \<Longrightarrow> bs = x @ r \<and> length x = n"
  by (auto simp: read_exact_def split: if_splits)

lemma read_exact_exact: "length x = n \<Longrightarrow> read_exact n (x @ r) = Inr (x, r)"
  by (simp add: read_exact_def)

lemma read_frame_split:
  assumes "read_frame sha rest = Inr (Some (bs, rest'))"
  shows "\<exists>fr. fr \<noteq> [] \<and> rest = fr @ rest' \<and> (\<forall>suf. read_frame sha (fr @ suf) = Inr (Some (bs, suf)))"
proof -
  have ne: "rest \<noteq> []" using assms by (auto simp: read_frame_def)
  obtain l r1 where e1: "read_exact 4 rest = Inr (l, r1)"
    using assms ne by (cases "read_exact 4 rest") (auto simp: read_frame_def)
  have len: "\<not> MAX_WIRE_BYTES < of_le l" using assms ne e1 by (auto simp: read_frame_def)
  obtain b2 r2 where e2: "read_exact (of_le l) r1 = Inr (b2, r2)"
    using assms ne e1 len by (cases "read_exact (of_le l) r1") (auto simp: read_frame_def)
  obtain ck r3 where e3: "read_exact 32 r2 = Inr (ck, r3)"
    using assms ne e1 len e2 by (cases "read_exact 32 r2") (auto simp: read_frame_def)
  have ck: "sha b2 = ck" "b2 = bs" "r3 = rest'"
    using assms ne e1 len e2 e3 by (simp_all add: read_frame_def split: if_splits)
  note a1 = read_exact_append[OF e1] and a2 = read_exact_append[OF e2] and a3 = read_exact_append[OF e3]
  let ?fr = "l @ b2 @ ck"
  have ne4: "l @ x \<noteq> []" for x using a1 by auto
  then have "?fr \<noteq> []" by blast
  moreover have "rest = ?fr @ rest'" using a1 a2 a3 ck by simp
  moreover have "read_frame sha (?fr @ suf) = Inr (Some (bs, suf))" for suf
    using a1 a2 a3 ck len ne4[of suf] read_exact_exact[of l 4 "b2 @ ck @ suf"]
      read_exact_exact[of b2 "of_le l" "ck @ suf"] read_exact_exact[of ck 32 suf]
    by (simp add: read_frame_def)
  ultimately show ?thesis by blast
qed

lemma read_frame_None: "read_frame sha rest = Inr None \<longleftrightarrow> rest = []"
  by (auto simp: read_frame_def read_exact_def try_bind_Inr_iff Let_def split: if_splits)

section \<open>Replaying\<close>

text \<open>A replay looks at the records and the snapshot only.\<close>

lemma latest_offset_file [simp]:
  "latest_offset (j\<lparr>jn_file := f\<rparr>) = latest_offset j" "latest_offset (j\<lparr>jn_recovery := d\<rparr>) = latest_offset j"
  "latest_offset (j\<lparr>jn_snapshot := s\<rparr>) = latest_offset j"
  by (simp_all add: latest_offset_def)

lemma replay_record_file:
  "replay_record c (j\<lparr>jn_file := f\<rparr>) bs = map_prod (\<lambda>i. i\<lparr>jn_file := f\<rparr>) id (replay_record c j bs)"
proof -
  have v: "validate_record c (j\<lparr>jn_file := f\<rparr>) r = validate_record c j r" for r
    by (simp add: validate_record_def)
  have m: "materialize c (j\<lparr>jn_file := f\<rparr>) k = materialize c j k" for k
    by (simp add: materialize_eq)
  show ?thesis by (simp add: replay_record_def v m split: sum.split prod.split)
qed

lemma replay_record_recovery: "replay_record c j bs = (j', r) \<Longrightarrow> jn_recovery j' = jn_recovery j"
  by (auto simp: replay_record_def split: sum.splits if_splits prod.splits)

lemma replay_record_fields:
  "replay_record c j bs = (j', r) \<Longrightarrow> jn_file j' = jn_file j \<and> jn_records j' = jn_records j
     \<and> jn_failed j' = jn_failed j \<and> jn_observer j' = jn_observer j \<and> jn_notified j' = jn_notified j"
  by (auto simp: replay_record_def split: sum.splits if_splits prod.splits)

lemma open_loop_append:
  "jn_recovery j = None \<Longrightarrow> jn_recovery (open_loop c j rest) = None \<Longrightarrow>
     open_loop c (j\<lparr>jn_file := f\<rparr>) (rest @ suf) = open_loop c ((open_loop c j rest)\<lparr>jn_file := f\<rparr>) suf"
proof (induction c j rest rule: open_loop.induct)
  case (1 c j rest)
  show ?case
  proof (cases "read_frame (cd_sha c) rest")
    case (Inl e)
    with 1(3) show ?thesis by (subst (asm) open_loop.simps) (simp add: damaged_def)
  next
    case (Inr fr)
    show ?thesis
    proof (cases fr)
      case None
      with Inr have "rest = []" "open_loop c j rest = j"
        by (simp add: read_frame_None) (subst open_loop.simps, simp add: Inr None)
      then show ?thesis by simp
    next
      case (Some p)
      obtain bs rest' where p: "p = (bs, rest')" by (cases p) auto
      obtain j' res where rr: "replay_record c j bs = (j', res)" by (cases "replay_record c j bs") auto
      show ?thesis
      proof (cases res)
        case (Inl e)
        with Inr Some p rr 1(3) show ?thesis by (subst (asm) open_loop.simps) (simp add: damaged_def)
      next
        case res: (Inr r)
        let ?j = "j'\<lparr>jn_records := fmupd (jr_offset r) r (jn_records j')\<rparr>"
        have st: "open_loop c j rest = open_loop c ?j rest'"
          using Inr Some p rr res by (subst open_loop.simps) simp
        have upd: "j'\<lparr>jn_file := f, jn_records := fmupd (jr_offset r) r (jn_records j')\<rparr> = ?j\<lparr>jn_file := f\<rparr>"
          by (cases j') simp
        obtain fr' where "rest = fr' @ rest'" "\<forall>suf. read_frame (cd_sha c) (fr' @ suf) = Inr (Some (bs, suf))"
          using read_frame_split[of "cd_sha c" rest bs rest'] Inr Some p by auto
        then have rf: "read_frame (cd_sha c) (rest @ suf) = Inr (Some (bs, rest' @ suf))" by simp
        have "open_loop c (j\<lparr>jn_file := f\<rparr>) (rest @ suf) = open_loop c (?j\<lparr>jn_file := f\<rparr>) (rest' @ suf)"
          using rf rr res by (subst open_loop.simps) (simp add: replay_record_file upd)
        also have "\<dots> = open_loop c ((open_loop c ?j rest')\<lparr>jn_file := f\<rparr>) suf"
          by (rule 1(1)[OF refl Inr Some p[symmetric] rr[symmetric] res])
            (use 1(2,3) st replay_record_recovery[OF rr] in simp_all)
        finally show ?thesis by (simp only: st)
      qed
    qed
  qed
qed

text \<open>A field that neither a record nor the diagnostic touches stays through the loop.\<close>

lemma open_loop_keeps:
  assumes d: "\<And>i n m e. f (damaged i n m e) = f i" and r: "\<And>i q. f (i\<lparr>jn_records := q\<rparr>) = f i"
    and p: "\<And>i bs i' x. replay_record c i bs = (i', x) \<Longrightarrow> f i' = f i"
  shows "f (open_loop c j rest) = f j"
  using p
proof (induction c j rest rule: open_loop.induct)
  case (1 c j rest)
  show ?case
  proof (cases "read_frame (cd_sha c) rest")
    case (Inl e)
    then show ?thesis by (subst open_loop.simps) (simp add: d)
  next
    case (Inr fr)
    show ?thesis
    proof (cases fr)
      case None
      with Inr show ?thesis by (subst open_loop.simps) simp
    next
      case (Some q)
      obtain bs rest' where q: "q = (bs, rest')" by (cases q) auto
      obtain j' res where rr: "replay_record c j bs = (j', res)" by (cases "replay_record c j bs") auto
      show ?thesis
      proof (cases res)
        case (Inl e)
        with Inr Some q rr 1(2)[OF rr] show ?thesis by (subst open_loop.simps) (simp add: d)
      next
        case res: (Inr x)
        from 1(1)[OF refl Inr Some q[symmetric] rr[symmetric] res 1(2)] 1(2)[OF rr] Inr Some q rr res
        show ?thesis by (subst open_loop.simps) (simp add: r)
      qed
    qed
  qed
qed

lemma open_loop_jn_file: "jn_file (open_loop c j rest) = jn_file j"
  by (rule open_loop_keeps) (auto simp: damaged_def dest: replay_record_fields)

lemma open_loop_failed: "jn_failed (open_loop c j rest) = jn_failed j"
  by (rule open_loop_keeps) (auto simp: damaged_def dest: replay_record_fields)

text \<open>A damaged file replays, up to the point its diagnostic names, to the same journal.\<close>

lemma open_loop_file_length:
  "open_loop c (j\<lparr>jn_file := f\<rparr>) [] = j\<lparr>jn_file := f\<rparr>"
  by (subst open_loop.simps) (simp add: read_frame_def)

lemma open_loop_damaged:
  assumes "jn_recovery j = None" "length rest \<le> length (jn_file j)"
    "jn_recovery (open_loop c j rest) = Some d" "journal_ok c j"
  shows "length (jn_file j) - length rest \<le> rd_valid_bytes d
       \<and> rd_valid_bytes d + rd_damaged_bytes d = length (jn_file j) \<and> 0 < rd_damaged_bytes d
       \<and> rd_last_valid_offset d = latest_offset (open_loop c j rest)
       \<and> (let pre = take (rd_valid_bytes d - (length (jn_file j) - length rest)) rest in
          open_loop c (j\<lparr>jn_file := f\<rparr>) pre = (open_loop c j rest)\<lparr>jn_file := f, jn_recovery := None\<rparr>)"
  using assms
proof (induction c j rest rule: open_loop.induct)
  case (1 c j rest)
  let ?start = "length (jn_file j) - length rest"
  have base: ?case if d: "open_loop c j rest = damaged j ?start (length rest) e" "rest \<noteq> []" for e
  proof -
    have dd: "d = \<lparr>rd_code = ''journal_damaged_suffix'', rd_message = show_state_error e,
         rd_last_valid_offset = latest_offset j, rd_valid_bytes = ?start, rd_damaged_bytes = length rest,
         rd_preserved_suffix = None\<rparr>"
      using 1(4) d(1) by (simp add: damaged_def)
    show ?thesis unfolding d(1) using 1(2,3) d(2)
      by (simp add: dd damaged_def open_loop_file_length)
  qed
  show ?case
  proof (cases "read_frame (cd_sha c) rest")
    case (Inl e)
    then have "open_loop c j rest = damaged j ?start (length rest) e" by (subst open_loop.simps) simp
    moreover have "rest \<noteq> []" using Inl by (auto simp: read_frame_def)
    ultimately show ?thesis by (rule base)
  next
    case (Inr fr)
    show ?thesis
    proof (cases fr)
      case None
      with Inr have "open_loop c j rest = j" by (subst open_loop.simps) simp
      with 1(2,4) show ?thesis by simp
    next
      case (Some p)
      obtain bs rest' where p: "p = (bs, rest')" by (cases p) auto
      obtain j' res where rr: "replay_record c j bs = (j', res)" by (cases "replay_record c j bs") auto
      have rf: "read_frame (cd_sha c) rest = Inr (Some (bs, rest'))" using Inr Some p by simp
      obtain fr' where fr: "fr' \<noteq> []" "rest = fr' @ rest'"
        "\<forall>suf. read_frame (cd_sha c) (fr' @ suf) = Inr (Some (bs, suf))"
        using read_frame_split[OF rf] by blast
      show ?thesis
      proof (cases res)
        case (Inl e)
        with rr replay_record_Inl[OF 1(5)] have "j' = j" by blast
        with Inl rr rf have "open_loop c j rest = damaged j ?start (length rest) e"
          by (subst open_loop.simps) simp
        then show ?thesis by (rule base) (use fr in simp)
      next
        case res: (Inr r)
        let ?j = "j'\<lparr>jn_records := fmupd (jr_offset r) r (jn_records j')\<rparr>"
        have fl: "jn_file ?j = jn_file j" using replay_record_fields[OF rr] by simp
        have st: "open_loop c j rest = open_loop c ?j rest'"
          using rf rr res by (subst open_loop.simps) simp
        have len: "length rest = length fr' + length rest'" "length rest' \<le> length (jn_file ?j)"
          using fr(2) 1(3) fl by simp_all
        have ih: "length (jn_file ?j) - length rest' \<le> rd_valid_bytes d
           \<and> rd_valid_bytes d + rd_damaged_bytes d = length (jn_file ?j) \<and> 0 < rd_damaged_bytes d
           \<and> rd_last_valid_offset d = latest_offset (open_loop c ?j rest')
           \<and> (let pre = take (rd_valid_bytes d - (length (jn_file ?j) - length rest')) rest' in
              open_loop c (?j\<lparr>jn_file := f\<rparr>) pre = (open_loop c ?j rest')\<lparr>jn_file := f, jn_recovery := None\<rparr>)"
          by (rule 1(1)[OF refl Inr Some p[symmetric] rr[symmetric] res])
            (use 1(2,4) st len replay_record_recovery[OF rr] replay_step_ok[OF 1(5) rr[unfolded res]] in simp_all)
        let ?pre' = "take (rd_valid_bytes d - (length (jn_file j) - length rest')) rest'"
        have pre: "take (rd_valid_bytes d - ?start) rest = fr' @ ?pre'"
        proof -
          have "length (jn_file j) - length rest' \<le> rd_valid_bytes d" using ih fl by simp
          with len 1(3) have "length fr' \<le> rd_valid_bytes d - ?start"
            "rd_valid_bytes d - ?start - length fr' = rd_valid_bytes d - (length (jn_file j) - length rest')"
            by linarith+
          then show ?thesis by (simp add: fr(2))
        qed
        have upd: "j'\<lparr>jn_file := f, jn_records := fmupd (jr_offset r) r (jn_records j')\<rparr> = ?j\<lparr>jn_file := f\<rparr>"
          by (cases j') simp
        have "open_loop c (j\<lparr>jn_file := f\<rparr>) (fr' @ ?pre') = open_loop c (?j\<lparr>jn_file := f\<rparr>) ?pre'"
          using fr(3) rr res by (subst open_loop.simps) (simp add: replay_record_file upd)
        moreover have "?start \<le> rd_valid_bytes d"
        proof -
          have "length (jn_file j) - length rest' \<le> rd_valid_bytes d" using ih fl by simp
          with len(1) show ?thesis by linarith
        qed
        ultimately show ?thesis using ih unfolding st fl pre Let_def by simp
      qed
    qed
  qed
qed

section \<open>Files and journals\<close>

text \<open>\<open>replays c file j\<close>: opening these bytes gives the records and the snapshot of \<open>j\<close>, with no
  damage reported.\<close>

definition replays :: "codec \<Rightarrow> bytes \<Rightarrow> journal \<Rightarrow> bool" where
  "replays c file j \<longleftrightarrow>
     (\<exists>i. open_file c None file = Inr i \<and> jn_records i = jn_records j \<and> jn_snapshot i = jn_snapshot j
        \<and> jn_recovery i = None \<and> \<not> jn_failed i)"

definition start_journal :: "bytes \<Rightarrow> session_id \<Rightarrow> journal" where
  "start_journal file sid =
     \<lparr>jn_file = file, jn_records = fmempty, jn_snapshot = empty_snapshot sid, jn_recovery = None,
      jn_failed = False, jn_observer = False, jn_notified = []\<rparr>"

lemma start_journal_file [simp]:
  "(start_journal f sid)\<lparr>jn_file := g\<rparr> = start_journal g sid" "jn_file (start_journal f sid) = f"
  "jn_recovery (start_journal f sid) = None" "\<not> jn_failed (start_journal f sid)"
  by (simp_all add: start_journal_def)

lemma start_journal_ok: "journal_ok c (start_journal f sid)"
  by (rule journal_ok_new[where sid = sid]) (simp_all add: start_journal_def)

text \<open>The part of a file before its records.\<close>

definition journal_prefix :: "codec \<Rightarrow> bytes \<Rightarrow> session_id \<Rightarrow> bool" where
  "journal_prefix c pre sid \<longleftrightarrow>
     (\<forall>suf. open_file c None (pre @ suf) = Inr (open_loop c (start_journal (pre @ suf) sid) suf))"

lemma open_file_prefix:
  assumes "open_file c None file = Inr i"
  shows "\<exists>pre sid suf. file = pre @ suf \<and> journal_prefix c pre sid
     \<and> i = open_loop c (start_journal file sid) suf"
proof -
  obtain magic rest where m: "read_exact 8 file = Inr (magic, rest)" "magic = MAGIC"
    using assms by (cases "read_exact 8 file") (auto simp: open_file_def split: if_splits)
  obtain fr where fr: "read_frame (cd_sha c) rest = Inr fr"
    using assms m by (cases "read_frame (cd_sha c) rest") (auto simp: open_file_def)
  obtain bs suf where f: "fr = Some (bs, suf)"
    using assms m fr by (cases fr) (auto simp: open_file_def)
  obtain h where h: "cd_header_dec c bs = Inr h"
    using assms m fr f by (cases "cd_header_dec c bs") (auto simp: open_file_def)
  have g: "\<not> (hd_format h \<noteq> JOURNAL_FORMAT \<or> major (hd_version h) \<noteq> major CURRENT)"
    using assms m fr f h by (auto simp: open_file_def split: if_splits)
  have i: "i = open_loop c (start_journal file (hd_session h)) suf"
    using assms m fr f h g by (simp add: open_file_def start_journal_def)
  obtain b where b: "rest = b @ suf" "\<forall>suf. read_frame (cd_sha c) (b @ suf) = Inr (Some (bs, suf))"
    using read_frame_split[of "cd_sha c" rest bs suf] fr f by auto
  note mm = read_exact_append[OF m(1), unfolded m(2)]
  have "open_file c None ((MAGIC @ b) @ x) = Inr (open_loop c (start_journal ((MAGIC @ b) @ x) (hd_session h)) x)" for x
    using read_exact_exact[of MAGIC 8 "b @ x"] mm b(2) h g
    by (simp add: open_file_def start_journal_def)
  then have "journal_prefix c (MAGIC @ b) (hd_session h)" by (simp add: journal_prefix_def)
  with i mm b(1) show ?thesis by (metis append.assoc)
qed

lemma replays_iff:
  assumes "journal_prefix c pre sid" "file = pre @ suf"
  shows "replays c file j \<longleftrightarrow>
     (let i = open_loop c (start_journal file sid) suf in
        jn_records i = jn_records j \<and> jn_snapshot i = jn_snapshot j \<and> jn_recovery i = None \<and> \<not> jn_failed i)"
  using assms unfolding replays_def journal_prefix_def Let_def by auto

text \<open>Appending a good frame to a file that replays.\<close>

lemma open_loop_one:
  assumes f: "read_frame (cd_sha c) rest = Inr (Some (bs, rest'))" and r: "replay_record c j bs = (j', Inr r)"
  shows "open_loop c j rest = open_loop c (j'\<lparr>jn_records := fmupd (jr_offset r) r (jn_records j')\<rparr>) rest'"
  by (subst open_loop.simps) (simp add: f r)

lemma replay_record_Inr:
  assumes ok: "journal_ok c i" and d: "cd_record_dec c bs = Inr r"
    and v: "record_ok (ss_session (jn_snapshot i)) (Suc (latest_offset i)) r" "record_checksum c r = Inr (jr_checksum r)"
    and m: "materialize_at c (ss_session (jn_snapshot i)) (jn_records i) (jr_parent r) = Inr s"
    and a: "apply_record c r s = Inr t"
  shows "replay_record c i bs = (i\<lparr>jn_snapshot := t\<rparr>, Inr r)"
proof -
  have val: "validate_record c i r = Inr ()"
    using v by (simp add: validate_record_def record_ok_def)
  obtain s' where ap: "apply_patch (cd_json c) s (jr_patch r) = (s', Inr ())" "t = s'\<lparr>ss_branch := jr_branch r\<rparr>"
    using a by (auto simp: apply_record_Inr_iff)
  show ?thesis
  proof (cases "jr_parent r = ss_offset (jn_snapshot i)")
    case True
    with materialize_at_snapshot[OF ok True] m have "s = jn_snapshot i" by simp
    with True d val ap show ?thesis by (simp add: replay_record_def)
  next
    case False
    with d val ap m show ?thesis by (simp add: replay_record_def materialize_eq)
  qed
qed

lemma replays_append:
  assumes rp: "replays c file j" and ok: "journal_ok c j" and sha: "sha_ok c"
    and b: "length bs \<le> MAX_WIRE_BYTES" "cd_record_dec c bs = Inr r"
    and v: "record_ok (ss_session (jn_snapshot j)) (Suc (latest_offset j)) r" "record_checksum c r = Inr (jr_checksum r)"
    and m: "materialize_at c (ss_session (jn_snapshot j)) (jn_records j) (jr_parent r) = Inr s"
    and a: "apply_record c r s = Inr t"
    and j': "jn_records j' = fmupd (Suc (latest_offset j)) r (jn_records j)" "jn_snapshot j' = t"
  shows "replays c (file @ frame_bytes (cd_sha c) bs) j'"
proof -
  obtain i where i: "open_file c None file = Inr i" "jn_records i = jn_records j" "jn_snapshot i = jn_snapshot j"
    "jn_recovery i = None" "\<not> jn_failed i"
    using rp by (auto simp: replays_def)
  obtain pre sid suf where p: "file = pre @ suf" "journal_prefix c pre sid" "i = open_loop c (start_journal file sid) suf"
    using open_file_prefix[OF i(1)] by blast
  let ?fr = "frame_bytes (cd_sha c) bs" and ?f = "file @ frame_bytes (cd_sha c) bs"
  have ok_i: "journal_ok c (i\<lparr>jn_file := ?f\<rparr>)"
    using journal_ok_cong[OF ok] i by simp
  have lo: "latest_offset i = latest_offset j" using i(2) by (rule latest_offset_cong)
  have rr: "replay_record c (i\<lparr>jn_file := ?f\<rparr>) bs = (i\<lparr>jn_file := ?f, jn_snapshot := t\<rparr>, Inr r)"
    using replay_record_Inr[OF ok_i b(2) _ v(2) _ a] v(1) m i lo by simp
  have rf: "read_frame (cd_sha c) ?fr = Inr (Some (bs, []))"
    using read_frame_write[OF sha b(1), of "[]"] by simp
  have "open_loop c (start_journal ?f sid) (suf @ ?fr) = open_loop c (i\<lparr>jn_file := ?f\<rparr>) ?fr"
    using open_loop_append[of "start_journal file sid" c suf ?f ?fr] p(3) i(4) by simp
  also have "\<dots> = i\<lparr>jn_file := ?f, jn_snapshot := t, jn_records := fmupd (jr_offset r) r (jn_records i)\<rparr>"
    unfolding open_loop_one[OF rf rr] by (subst open_loop.simps) (simp add: read_frame_def)
  finally show ?thesis
    using replays_iff[OF p(2), of ?f "suf @ ?fr" j'] p(1) i v(1) j' by (simp add: Let_def record_ok_def)
qed

text \<open>The invariant of file and journal: the file splits into a good part and a tail; the tail is
  empty unless the journal is failed or reports the damage.\<close>

definition durable :: "codec \<Rightarrow> journal \<Rightarrow> bool" where
  "durable c j \<longleftrightarrow>
     (\<exists>good tail. jn_file j = good @ tail \<and> replays c good j
        \<and> (jn_recovery j = None \<longrightarrow> \<not> jn_failed j \<longrightarrow> tail = [])
        \<and> (\<forall>d. jn_recovery j = Some d \<longrightarrow> rd_valid_bytes d = length good))"

lemma durable_open:
  assumes "open_file c None file = Inr j"
  shows "durable c j"
proof -
  obtain pre sid suf where p: "file = pre @ suf" "journal_prefix c pre sid" "j = open_loop c (start_journal file sid) suf"
    using open_file_prefix[OF assms] by blast
  have nf: "\<not> jn_failed j" unfolding p(3) open_loop_failed by simp
  have fl: "jn_file j = file" unfolding p(3) using open_loop_jn_file[of c "start_journal file sid" suf] by simp
  show ?thesis
  proof (cases "jn_recovery j")
    case None
    with nf fl assms show ?thesis unfolding durable_def replays_def by (intro exI[where x = "file"] exI[where x = "[]"]) auto
  next
    case (Some d)
    have le: "length suf \<le> length (jn_file (start_journal file sid))" using p(1) by simp
    let ?n = "rd_valid_bytes d - length pre"
    let ?g = "pre @ take ?n suf"
    have st: "length (jn_file (start_journal file sid)) - length suf = length pre" using p(1) by simp
    have rj: "jn_recovery (open_loop c (start_journal file sid) suf) = Some d" using Some p(3) by simp
    note d = open_loop_damaged[OF _ le rj start_journal_ok, where f = ?g, unfolded st Let_def, folded p(3)]
    have d1: "length pre \<le> rd_valid_bytes d" "rd_valid_bytes d + rd_damaged_bytes d = length file"
      "open_loop c (start_journal ?g sid) (take ?n suf) = j\<lparr>jn_file := ?g, jn_recovery := None\<rparr>"
      using d Some by simp_all
    have "replays c ?g j"
      using replays_iff[OF p(2) refl, of "take ?n suf" j] d1(3) nf by (simp add: Let_def)
    moreover have "file = ?g @ drop ?n suf" using p(1) by simp
    moreover have "length ?g = rd_valid_bytes d" using d1(1,2) p(1) by simp
    ultimately show ?thesis unfolding durable_def using fl Some
      by (intro exI[where x = ?g] exI[where x = "drop ?n suf"]) auto
  qed
qed

end
