(* ===== verification/JournalReach.thy ===== *)
theory JournalReach
  imports JournalFile
begin

text \<open>
  The journals a session can have: created or opened from any bytes, then changed by any
  sequence of operations with any faults.  All of them satisfy \<open>journal_ok\<close> and \<open>durable\<close>.
\<close>

text \<open>The codec reads back what it wrote: for headers always, for a record when it holds no value
  that JSON cannot carry (a non-finite number is written as \<open>null\<close>).\<close>

definition header_ok :: "codec \<Rightarrow> bool" where
  "header_ok c \<longleftrightarrow> (\<forall>h bs. cd_header_enc c h = Inr bs \<longrightarrow> cd_header_dec c bs = Inr h)"

definition storable :: "codec \<Rightarrow> journal_record \<Rightarrow> bool" where
  "storable c r \<longleftrightarrow> (\<forall>bs. cd_record_enc c r = Inr bs \<longrightarrow> cd_record_dec c bs = Inr r)"

definition all_storable :: "codec \<Rightarrow> journal \<Rightarrow> bool" where
  "all_storable c j \<longleftrightarrow> (\<forall>k r. fmlookup (jn_records j) k = Some r \<longrightarrow> storable c r)"

inductive journal_step :: "codec \<Rightarrow> journal \<Rightarrow> journal \<Rightarrow> bool" for c where
  append: "append_patch c now fault j p = (j', r) \<Longrightarrow> journal_step c j j'"
| fork: "fork_at c now fault branch eid j k = Some (j', r2) \<Longrightarrow> journal_step c j j'"
| select: "select_branch c now fault j branch = (j', r3) \<Longrightarrow> journal_step c j j'"
| repair: "repair_suffix rfault path j = (j', r4) \<Longrightarrow> journal_step c j j'"
| observe: "journal_step c j (set_observer j obs)"

inductive journal_reachable :: "codec \<Rightarrow> journal \<Rightarrow> bool" for c where
  created: "create c os None sid = Inr j \<Longrightarrow> journal_reachable c j"
| opened: "open_file c os content = Inr j \<Longrightarrow> journal_reachable c j"
| step: "journal_reachable c j \<Longrightarrow> journal_step c j j' \<Longrightarrow> journal_reachable c j'"

inductive_cases journal_stepE: "journal_step c j j'"

section \<open>An append inside an operation\<close>

lemma all_storable_mono: "all_storable c j' \<Longrightarrow> jn_records j' = fmupd (Suc (latest_offset j)) r (jn_records j)
    \<Longrightarrow> journal_ok c j \<Longrightarrow> all_storable c j \<and> storable c r"
  using journal_ok_lookup[of c j "Suc (latest_offset j)"] unfolding all_storable_def
  by (metis Suc_n_not_le_n fmupd_lookup option.distinct(1))

lemma replays_cong: "jn_records j = jn_records j' \<Longrightarrow> jn_snapshot j = jn_snapshot j' \<Longrightarrow> replays c f j = replays c f j'"
  by (simp add: replays_def)

lemma durable_append_ok:
  assumes ok: "journal_ok c j" and du: "durable c j" and sha: "sha_ok c" and bt: "based c j t"
    and a: "append_on c now fault (j\<lparr>jn_snapshot := t\<rparr>) p branch = (j', Inr k)"
    and st: "all_storable c j'"
  shows "durable c j'"
proof -
  obtain r bs where res: "k = Suc (latest_offset j)" "jn_recovery j = None" "\<not> jn_failed j"
    "jn_recovery j' = None" "\<not> jn_failed j'" "jn_records j' = fmupd k r (jn_records j)"
    "record_ok (ss_session (jn_snapshot j)) k r" "jr_parent r = ss_offset t"
    "record_checksum c r = Inr (jr_checksum r)" "cd_record_enc c r = Inr bs" "length bs \<le> MAX_WIRE_BYTES"
    "jn_file j' = jn_file j @ frame_bytes (cd_sha c) bs" "apply_record c r t = Inr (jn_snapshot j')"
    using append_on_result[OF ok bt a] by auto
  have rp: "replays c (jn_file j) j" using du res(2,3) by (auto simp: durable_def)
  have "storable c r" using all_storable_mono[OF st res(6)[unfolded res(1)] ok] by blast
  then have dec: "cd_record_dec c bs = Inr r" using res(10) by (simp add: storable_def)
  have m: "materialize_at c (ss_session (jn_snapshot j)) (jn_records j) (jr_parent r) = Inr t"
    using bt by (simp add: based_def res(8))
  from replays_append[OF rp ok sha res(11) dec res(7)[unfolded res(1)] res(9) m res(13) res(6)[unfolded res(1)] refl]
  show ?thesis unfolding durable_def using res(4,5,12) by auto
qed

lemma durable_append_error:
  assumes ok: "journal_ok c j" and du: "durable c j" and bt: "based c j t"
    and a: "append_on c now fault (j\<lparr>jn_snapshot := t\<rparr>) p branch = (j', Inl e)"
  shows "durable c (j'\<lparr>jn_snapshot := jn_snapshot j\<rparr>) \<and> journal_ok c (j'\<lparr>jn_snapshot := jn_snapshot j\<rparr>)
     \<and> jn_records j' = jn_records j"
proof -
  note res = append_on_result[OF ok bt a, simplified]
  let ?j = "j'\<lparr>jn_snapshot := jn_snapshot j\<rparr>"
  have rc: "replays c f ?j = replays c f j" for f using res by (intro replays_cong) simp_all
  have "durable c ?j"
  proof (cases "jn_file j' = jn_file j \<and> jn_failed j' = jn_failed j")
    case True
    with du res show ?thesis unfolding durable_def by (simp add: rc)
  next
    case False
    then obtain bs n where f: "jn_failed j'" "jn_recovery j = None" "\<not> jn_failed j"
      "jn_file j' = jn_file j @ take n (frame_bytes (cd_sha c) bs)"
      using res by auto
    have "replays c (jn_file j) j" using du f(2,3) by (auto simp: durable_def)
    with f res show ?thesis unfolding durable_def by (auto simp: rc)
  qed
  moreover have "journal_ok c ?j" using journal_ok_cong[OF ok, of ?j] res by simp
  ultimately show ?thesis using res by simp
qed

section \<open>Steps\<close>

lemma append_self: "j\<lparr>jn_snapshot := jn_snapshot j\<rparr> = j"
  by simp

definition journal_inv :: "codec \<Rightarrow> journal \<Rightarrow> bool" where
  "journal_inv c j \<longleftrightarrow> journal_ok c j \<and> (sha_ok c \<longrightarrow> header_ok c \<longrightarrow> all_storable c j \<longrightarrow> durable c j)"

lemma append_on_inv:
  assumes inv: "journal_inv c j" and bt: "based c j t"
    and a: "append_on c now fault (j\<lparr>jn_snapshot := t\<rparr>) p branch = (j', res)"
  shows "case res of Inr k \<Rightarrow> journal_inv c j' | Inl e \<Rightarrow> journal_inv c (j'\<lparr>jn_snapshot := jn_snapshot j\<rparr>)"
proof (cases res)
  case (Inl e)
  have ok: "journal_ok c j" using inv by (simp add: journal_inv_def)
  have s: "all_storable c (j'\<lparr>jn_snapshot := jn_snapshot j\<rparr>) = all_storable c j"
    using append_on_result[OF ok bt a] Inl by (simp add: all_storable_def)
  have "journal_ok c (j'\<lparr>jn_snapshot := jn_snapshot j\<rparr>)"
    using journal_ok_cong[OF ok] append_on_result[OF ok bt a] Inl by simp
  then show ?thesis
    using durable_append_error[OF ok _ bt a[unfolded Inl]] inv s Inl by (simp add: journal_inv_def)
next
  case (Inr k)
  have ok: "journal_ok c j" using inv by (simp add: journal_inv_def)
  obtain r where r: "jn_records j' = fmupd (Suc (latest_offset j)) r (jn_records j)" "journal_ok c j'"
    using append_on_result[OF ok bt a] Inr by auto
  have "all_storable c j" if "all_storable c j'" using all_storable_mono[OF that r(1) ok] by blast
  then show ?thesis
    using durable_append_ok[OF ok _ _ bt a[unfolded Inr]] inv r(2) Inr by (auto simp: journal_inv_def)
qed

lemma append_patch_inv: "journal_inv c j \<Longrightarrow> append_patch c now fault j p = (j', r) \<Longrightarrow> journal_inv c j'"
proof -
  assume inv: "journal_inv c j" and a: "append_patch c now fault j p = (j', r)"
  have ok: "journal_ok c j" using inv by (simp add: journal_inv_def)
  have a': "append_on c now fault (j\<lparr>jn_snapshot := jn_snapshot j\<rparr>) p (ss_branch (jn_snapshot j)) = (j', r)"
    using a by (simp add: append_patch_def)
  note i = append_on_inv[OF inv based_self[OF ok] a']
  show ?thesis
  proof (cases r)
    case (Inl e)
    then have "jn_snapshot j' = jn_snapshot j"
      using append_on_result[OF ok based_self[OF ok] a'] by simp
    then have "j'\<lparr>jn_snapshot := jn_snapshot j\<rparr> = j'" using append_self[of j'] by metis
    with i Inl show ?thesis by simp
  next
    case (Inr k)
    with i show ?thesis by simp
  qed
qed

lemma fork_at_cases:
  assumes inv: "journal_ok c j" and f: "fork_at c now fault branch eid j k = Some (j', r)"
  obtains (unknown) e where "j' = j" "r = Inl e" "materialize c j k = Inl e"
  | (error) t j1 e p where "materialize c j k = Inr t" "r = Inl e"
      "append_on c now fault (j\<lparr>jn_snapshot := t\<rparr>) p branch = (j1, Inl e)" "j' = j1\<lparr>jn_snapshot := jn_snapshot j\<rparr>"
  | (forked) t off where "materialize c j k = Inr t" "r = Inr branch"
      "append_on c now fault (j\<lparr>jn_snapshot := t\<rparr>)
         \<lparr>base_offset = JournalOffset k, result_offset = next_offset j, patch_by = Actor ''host'',
          reason = ''fork branch'',
          ops = [Create ''branches'' (length (children t ''branches'') mod 2 ^ 32) (fork_element eid branch k)]\<rparr>
         branch = (j', Inr off)"
proof (cases "materialize c j k")
  case (Inl e)
  with f show thesis by (auto simp: fork_at_def intro: unknown)
next
  case (Inr t)
  have wf: "wf_snapshot t" using materialize_known(2)[OF inv Inr] by (simp add: good_snapshot_def)
  have ct: "container t ''branches'' = Some ''branches''"
    by (rule wf_container(2)[OF wf]) (simp add: ROOTS_def)
  let ?p = "\<lparr>base_offset = JournalOffset k, result_offset = next_offset j, patch_by = Actor ''host'',
          reason = ''fork branch'',
          ops = [Create ''branches'' (length (children t ''branches'') mod 2 ^ 32) (fork_element eid branch k)]\<rparr>"
  obtain j1 ar where a: "append_on c now fault (j\<lparr>jn_snapshot := t\<rparr>) ?p branch = (j1, ar)"
    by (cases "append_on c now fault (j\<lparr>jn_snapshot := t\<rparr>) ?p branch") auto
  show thesis
  proof (cases ar)
    case (Inl e)
    with f Inr ct a have "j' = j1\<lparr>jn_snapshot := jn_snapshot j\<rparr>" "r = Inl e" by (auto simp: fork_at_def Let_def)
    with error[OF Inr _ a[unfolded Inl]] show thesis by blast
  next
    case ar: (Inr off)
    with f Inr ct a have "j' = j1" "r = Inr branch" by (auto simp: fork_at_def Let_def)
    with forked[OF Inr] a ar show thesis by blast
  qed
qed

lemma fork_at_inv:
  assumes inv: "journal_inv c j" and f: "fork_at c now fault branch eid j k = Some (j', r)"
  shows "journal_inv c j'"
proof -
  have ok: "journal_ok c j" using inv by (simp add: journal_inv_def)
  show ?thesis using ok f
  proof (cases rule: fork_at_cases)
    case (unknown e)
    with inv show ?thesis by simp
  next
    case (error t j1 e p)
    with append_on_inv[OF inv _ error(3)] based_materialize[OF ok error(1)] show ?thesis by simp
  next
    case (forked t off)
    with append_on_inv[OF inv _ forked(3)] based_materialize[OF ok forked(1)] show ?thesis by simp
  qed
qed

lemma materialize_branch_based:
  assumes ok: "journal_ok c j" and m: "materialize_branch c j branch = Inr t"
  shows "based c j t"
  using m based_materialize[OF ok] unfolding materialize_branch_def
  by (auto split: option.splits if_splits)

lemma select_branch_inv:
  assumes inv: "journal_inv c j" and f: "select_branch c now fault j branch = (j', r)"
  shows "journal_inv c j'"
proof (cases "materialize_branch c j branch")
  case (Inl e)
  with f inv show ?thesis by (simp add: select_branch_def)
next
  case (Inr t)
  have ok: "journal_ok c j" using inv by (simp add: journal_inv_def)
  let ?p = "\<lparr>base_offset = JournalOffset (ss_offset t), result_offset = next_offset j,
                   patch_by = Actor ''host'', reason = ''select branch'', ops = []\<rparr>"
  obtain j1 ar where a: "append_on c now fault (j\<lparr>jn_snapshot := t\<rparr>) ?p branch = (j1, ar)"
    by (cases "append_on c now fault (j\<lparr>jn_snapshot := t\<rparr>) ?p branch") auto
  note i = append_on_inv[OF inv materialize_branch_based[OF ok Inr] a]
  show ?thesis
    using f Inr a i by (cases ar) (auto simp: select_branch_def Let_def)
qed

lemma repair_suffix_inv:
  assumes inv: "journal_inv c j" and f: "repair_suffix rfault path j = (j', r)"
  shows "journal_inv c j'"
proof (cases "jn_recovery j")
  case None
  with f inv show ?thesis by (simp add: repair_suffix_def)
next
  case (Some d)
  have same: "jn_records j' = jn_records j" "jn_snapshot j' = jn_snapshot j"
    using f Some by (auto simp: repair_suffix_def split: option.splits repair_fault.splits)
  have ok: "journal_ok c j'" using journal_ok_cong[of c j j'] inv same by (simp add: journal_inv_def)
  have "durable c j'" if d: "durable c j"
  proof -
    obtain good tl where g: "jn_file j = good @ tl" "replays c good j" "rd_valid_bytes d = length good"
      using d Some by (auto simp: durable_def)
    have rp: "replays c good j'" using g(2) replays_cong[OF same] by simp
    have tk: "take (rd_valid_bytes d) (jn_file j) = good" using g by simp
    have "\<exists>tl'. jn_file j' = good @ tl' \<and> (jn_recovery j' = None \<longrightarrow> tl' = [])
        \<and> (\<forall>d'. jn_recovery j' = Some d' \<longrightarrow> d' = d)"
      using f Some g(1) tk by (auto simp: repair_suffix_def split: option.splits repair_fault.splits)
    then show ?thesis using rp g(3) unfolding durable_def by metis
  qed
  moreover have "all_storable c j' = all_storable c j" using same by (simp add: all_storable_def)
  ultimately show ?thesis using ok inv by (simp add: journal_inv_def)
qed

lemma observer_inv: "journal_inv c j \<Longrightarrow> journal_inv c (set_observer j obs)"
proof -
  assume i: "journal_inv c j"
  let ?j = "set_observer j obs"
  have "journal_ok c ?j" using i journal_ok_cong[of c j ?j] by (simp add: journal_inv_def set_observer_def)
  moreover have "replays c f ?j = replays c f j" for f by (rule replays_cong) (simp_all add: set_observer_def)
  ultimately show ?thesis using i by (simp add: journal_inv_def durable_def all_storable_def set_observer_def)
qed

lemma journal_step_inv: "journal_step c j j' \<Longrightarrow> journal_inv c j \<Longrightarrow> journal_inv c j'"
  by (induction rule: journal_step.induct)
    (auto intro: append_patch_inv fork_at_inv select_branch_inv repair_suffix_inv observer_inv)

lemma open_file_created:
  assumes "create c os None sid = Inr j" "sha_ok c" "header_ok c"
  shows "open_file c None (jn_file j) = Inr j"
proof -
  let ?h = "\<lparr>hd_session = sid, hd_format = JOURNAL_FORMAT, hd_version = CURRENT\<rparr>"
  obtain bs where bs: "cd_header_enc c ?h = Inr bs" "length bs \<le> MAX_WIRE_BYTES"
    and j: "j = start_journal (MAGIC @ frame_bytes (cd_sha c) bs) sid"
    using assms(1) by (auto simp: create_def try_bind_Inr_iff map_err_Inr_iff write_frame_def start_journal_def
        split: option.splits if_splits)
  have "read_exact 8 (MAGIC @ frame_bytes (cd_sha c) bs) = Inr (MAGIC, frame_bytes (cd_sha c) bs)"
    by (rule read_exact_exact) (simp add: MAGIC_def)
  moreover have "read_frame (cd_sha c) (frame_bytes (cd_sha c) bs) = Inr (Some (bs, []))"
    using read_frame_write[OF assms(2) bs(2), of "[]"] by simp
  moreover have "cd_header_dec c bs = Inr ?h" using assms(3) bs(1) by (simp add: header_ok_def)
  moreover have "open_loop c j [] = j" by (subst open_loop.simps) (simp add: read_frame_def)
  ultimately show ?thesis by (simp add: open_file_def j start_journal_def)
qed

lemma create_inv: "create c os None sid = Inr j \<Longrightarrow> journal_inv c j"
  using create_ok[of c os None sid j] durable_open[of c "jn_file j" j] open_file_created[of c os sid j]
  by (auto simp: journal_inv_def)

lemma journal_reachable_inv: "journal_reachable c j \<Longrightarrow> journal_inv c j"
proof (induction rule: journal_reachable.induct)
  case (opened os content j)
  then have "open_file c None content = Inr j" by (auto simp: open_file_def split: option.splits)
  with open_file_ok durable_open show ?case by (auto simp: journal_inv_def)
qed (auto intro: create_inv journal_step_inv)

text \<open>Recorded history does not change: a step keeps every record and what it materialises to.\<close>

lemma append_on_history:
  assumes ok: "journal_ok c j" and bt: "based c j t"
    and a: "append_on c now fault (j\<lparr>jn_snapshot := t\<rparr>) p branch = (j', res)" and k: "k \<le> latest_offset j"
  shows "materialize_at c (ss_session (jn_snapshot j)) (jn_records j') k
           = materialize_at c (ss_session (jn_snapshot j)) (jn_records j) k"
    and "fmlookup (jn_records j') k = fmlookup (jn_records j) k"
    and "ss_session (jn_snapshot j') = ss_session (jn_snapshot j)"
proof -
  have "jn_records j' = jn_records j \<or> (\<exists>r. jn_records j' = fmupd (Suc (latest_offset j)) r (jn_records j))"
    using append_on_result[OF ok bt a] by (cases res) auto
  with materialize_at_upd[OF journal_okD(5)[OF ok]] k
  show "materialize_at c (ss_session (jn_snapshot j)) (jn_records j') k
           = materialize_at c (ss_session (jn_snapshot j)) (jn_records j) k"
    "fmlookup (jn_records j') k = fmlookup (jn_records j) k" by auto
  show "ss_session (jn_snapshot j') = ss_session (jn_snapshot j)"
    using append_on_result[OF ok bt a] bt by (cases res) (auto simp: based_def good_snapshot_def)
qed

lemma fork_at_no_panic: "journal_ok c j \<Longrightarrow> \<exists>j' r. fork_at c now fault branch eid j k = Some (j', r)"
proof (cases "materialize c j k")
  case (Inl e)
  then show ?thesis by (simp add: fork_at_def)
next
  case (Inr t)
  assume ok: "journal_ok c j"
  have "wf_snapshot t" using materialize_known(2)[OF ok Inr] by (simp add: good_snapshot_def)
  then have "container t ''branches'' = Some ''branches''" by (rule wf_container(2)) (simp add: ROOTS_def)
  then show ?thesis by (simp add: fork_at_def Inr Let_def split: prod.split sum.split)
qed

lemma journal_step_history:
  assumes ok: "journal_ok c j" and st: "journal_step c j j'" and k: "k \<le> latest_offset j"
  shows "materialize c j' k = materialize c j k \<and> fmlookup (jn_records j') k = fmlookup (jn_records j) k"
proof -
  have hist: "materialize c i k = materialize c j k \<and> fmlookup (jn_records i) k = fmlookup (jn_records j) k"
    if "based c j t" "append_on c now fault (j\<lparr>jn_snapshot := t\<rparr>) p branch = (j1, res)"
      "jn_records i = jn_records j1" "ss_session (jn_snapshot i) = ss_session (jn_snapshot j)"
    for t now fault p branch j1 res i
    using append_on_history[OF ok that(1,2) k] that(3,4) by (simp add: materialize_eq)
  from st show ?thesis
  proof (cases rule: journal_step.cases)
    case (append now fault p r)
    have a: "append_on c now fault (j\<lparr>jn_snapshot := jn_snapshot j\<rparr>) p (ss_branch (jn_snapshot j)) = (j', r)"
      using append by (simp add: append_patch_def)
    show ?thesis
      by (rule hist[OF based_self[OF ok] a refl append_on_history(3)[OF ok based_self[OF ok] a k]])
  next
    case (fork now fault branch eid k' r)
    show ?thesis using ok fork
    proof (cases rule: fork_at_cases)
      case (unknown e)
      then show ?thesis by simp
    next
      case (error t j1 e p)
      with hist[OF _ error(3), of j'] based_materialize[OF ok error(1)] show ?thesis by simp
    next
      case (forked t off)
      have bt: "based c j t" using based_materialize[OF ok forked(1)] by blast
      show ?thesis by (rule hist[OF bt forked(3) refl append_on_history(3)[OF ok bt forked(3) k]])
    qed
  next
    case (select now fault branch r)
    show ?thesis
    proof (cases "materialize_branch c j branch")
      case (Inl e)
      with select show ?thesis by (simp add: select_branch_def)
    next
      case (Inr t)
      let ?p = "\<lparr>base_offset = JournalOffset (ss_offset t), result_offset = next_offset j,
                   patch_by = Actor ''host'', reason = ''select branch'', ops = []\<rparr>"
      have bt: "based c j t" using materialize_branch_based[OF ok Inr] .
      obtain j1 ar where a: "append_on c now fault (j\<lparr>jn_snapshot := t\<rparr>) ?p branch = (j1, ar)"
        by (cases "append_on c now fault (j\<lparr>jn_snapshot := t\<rparr>) ?p branch") auto
      have "jn_records j' = jn_records j1 \<and> ss_session (jn_snapshot j') = ss_session (jn_snapshot j)"
        using select Inr a append_on_history(3)[OF ok bt a k] by (cases ar) (auto simp: select_branch_def Let_def)
      with hist[OF bt a, of j'] show ?thesis by blast
    qed
  next
    case (repair rfault path r)
    then have "jn_records j' = jn_records j" "jn_snapshot j' = jn_snapshot j"
      by (auto simp: repair_suffix_def split: option.splits repair_fault.splits)
    then show ?thesis by (simp add: materialize_eq)
  next
    case (observe obs)
    then show ?thesis by (simp add: materialize_eq set_observer_def)
  qed
qed

section \<open>Ancestry\<close>

text \<open>The loop collects offsets downwards and appends them to its accumulator.\<close>

lemma ancestry_loop_acc:
  "ancestry_loop f recs k acc = try_bind (ancestry_loop f recs k []) (\<lambda>os. Inr (acc @ os))"
proof (induction f arbitrary: k acc)
  case 0
  then show ?case by simp
next
  case (Suc f)
  have "ancestry_loop f recs p (acc @ [k]) = try_bind (ancestry_loop f recs p [k]) (\<lambda>os. Inr (acc @ os))" for p
    using Suc[of p "acc @ [k]"] Suc[of p "[k]"] by (cases "ancestry_loop f recs p []") auto
  then show ?case by (auto split: option.split)
qed

lemma ancestry_loop_path:
  assumes ok: "journal_ok c j"
  shows "0 < k \<Longrightarrow> k \<le> latest_offset j \<Longrightarrow> k < f \<Longrightarrow>
     \<exists>os. ancestry_loop f (jn_records j) k [] = Inr (rev os) \<and> os \<noteq> [] \<and> last os = k \<and> sorted_wrt (<) os
       \<and> map (\<lambda>i. map_option jr_parent (fmlookup (jn_records j) i)) os = map Some (0 # butlast os)"
proof (induction f arbitrary: k)
  case 0
  then show ?case by simp
next
  case (Suc f)
  obtain r where r: "fmlookup (jn_records j) k = Some r"
    using journal_ok_lookup[OF ok, of k] Suc.prems by auto
  have p: "jr_parent r < k" using journal_okD(2)[OF ok r] by (simp add: record_ok_def)
  show ?case
  proof (cases "jr_parent r = 0")
    case True
    obtain f' where "f = Suc f'" using Suc.prems by (cases f) auto
    with True r Suc.prems show ?thesis by (intro exI[where x = "[k]"]) simp
  next
    case False
    obtain os where os: "ancestry_loop f (jn_records j) (jr_parent r) [] = Inr (rev os)" "os \<noteq> []"
      "last os = jr_parent r" "sorted_wrt (<) os"
      "map (\<lambda>i. map_option jr_parent (fmlookup (jn_records j) i)) os = map Some (0 # butlast os)"
    proof -
      have "0 < jr_parent r" "jr_parent r \<le> latest_offset j" "jr_parent r < f"
        using False p Suc.prems by simp_all
      from Suc.IH[OF this] show ?thesis using that by blast
    qed
    have lt: "x < k" if "x \<in> set os" for x
    proof -
      have "x \<le> last os" using os(2,4) that
        by (metis (no_types, lifting) append_butlast_last_id in_set_conv_decomp less_or_eq_imp_le
            rotate1.simps(2) set_ConsD set_rotate1 sorted_wrt_append list.set_intros(1))
      with os(3) p show ?thesis by simp
    qed
    have "ancestry_loop (Suc f) (jn_records j) k [] = Inr (rev (os @ [k]))"
      using r Suc.prems(1) ancestry_loop_acc[of f "jn_records j" "jr_parent r" "[k]"] os(1) by simp
    moreover have "map Some (0 # butlast (os @ [k])) = map Some (0 # butlast os) @ [Some (jr_parent r)]"
      using os(2,3) by (metis append_butlast_last_id butlast_snoc list.simps(8,9) map_append append_Cons)
    ultimately show ?thesis
      using os lt r by (intro exI[where x = "os @ [k]"]) (simp add: sorted_wrt_append)
  qed
qed

lemma ancestry_path:
  assumes "journal_ok c j" "0 < k" "k \<le> latest_offset j"
  shows "\<exists>os. branch_ancestry j k = Inr os \<and> os \<noteq> [] \<and> last os = k \<and> sorted_wrt (<) os
     \<and> map (\<lambda>i. map_option jr_parent (fmlookup (jn_records j) i)) os = map Some (0 # butlast os)"
  using ancestry_loop_path[OF assms(1), of k "Suc k"] assms(2,3) unfolding branch_ancestry_def by auto

end
