(* ===== verification/JournalClaims.thy ===== *)
theory JournalClaims
  imports JournalReach DomClaims
begin

text \<open>
  The properties of the journal (\<open>omp-state/src/journal.rs\<close>), with instances on a journal of one
  session under a sample codec.
\<close>

section \<open>A sample journal\<close>

text \<open>A codec that can write one header and the record of one patch, whose hash is constant.\<close>

definition sample_record :: journal_record where
  "sample_record = draft_record (empty_snapshot ''s'') 0
     \<lparr>base_offset = JournalOffset 0, result_offset = JournalOffset 1, patch_by = Actor ''host'',
      reason = ''r'', ops = []\<rparr> ''main''\<lparr>jr_checksum := hex (replicate 32 0)\<rparr>"

definition sample_header :: journal_header where
  "sample_header = \<lparr>hd_session = ''s'', hd_format = JOURNAL_FORMAT, hd_version = CURRENT\<rparr>"

definition sample_codec :: codec where
  "sample_codec =
     \<lparr>cd_sha = (\<lambda>_. replicate 32 0),
      cd_header_enc = (\<lambda>h. if h = sample_header then Inr [] else Inl ''unsupported''),
      cd_header_dec = (\<lambda>bs. Inr sample_header),
      cd_record_enc = (\<lambda>r. if r\<lparr>jr_checksum := []\<rparr> = sample_record\<lparr>jr_checksum := []\<rparr>
                           then Inr (if jr_checksum r = [] then [] else [1]) else Inl ''unsupported''),
      cd_record_dec = (\<lambda>bs. Inr sample_record),
      cd_json = (\<lambda>_. None)\<rparr>"

lemma hex_zero_ne: "hex (replicate 32 0) \<noteq> []"
  by (simp add: hex_def)

lemma sample_sha: "sha_ok sample_codec"
  by (simp add: sha_ok_def sample_codec_def)

lemma sample_header_ok: "header_ok sample_codec"
  by (simp add: header_ok_def sample_codec_def)

definition sample_journal :: journal where
  "sample_journal = start_journal (MAGIC @ frame_bytes (\<lambda>_. replicate 32 0) []) ''s''"

lemma sample_journal_create: "create sample_codec None None ''s'' = Inr sample_journal"
  by (simp add: create_def sample_codec_def sample_header_def write_frame_def sample_journal_def
      start_journal_def)

lemma sample_reachable: "journal_reachable sample_codec sample_journal"
  using journal_reachable.created[OF sample_journal_create] .

lemma sample_journal_fields [simp]:
  "jn_records sample_journal = fmempty" "jn_snapshot sample_journal = empty_snapshot ''s''"
  "jn_recovery sample_journal = None" "\<not> jn_failed sample_journal" "jn_observer sample_journal = False"
  "jn_notified sample_journal = []" "latest_offset sample_journal = 0"
  by (simp_all add: sample_journal_def start_journal_def latest_offset_def)

lemma sample_storable: "all_storable sample_codec sample_journal"
  by (simp add: all_storable_def)

lemma sample_patch_empty: "sample_patch [] = jr_patch sample_record"
  by (simp add: sample_record_def draft_record_def sample_patch_def)

definition sample_journal1 :: journal where
  "sample_journal1 = fst (append_patch sample_codec (Inr 0) None sample_journal (sample_patch []))"

lemma sample_apply:
  "apply_patch js (empty_snapshot ''s'') (sample_patch []) = ((empty_snapshot ''s'')\<lparr>ss_offset := 1\<rparr>, Inr ())"
  by (simp add: apply_patch_def sample_patch_valid)

lemma sample_draft:
  "draft_record (empty_snapshot ''s'') 0 (sample_patch []) ''main''\<lparr>jr_checksum := hex (replicate 32 0)\<rparr> = sample_record"
  by (simp add: sample_record_def sample_patch_def)

lemma sample_checksum:
  "record_checksum sample_codec (draft_record (empty_snapshot ''s'') 0 (sample_patch []) ''main'')
     = Inr (hex (replicate 32 0))"
  by (simp add: record_checksum_def sample_codec_def sample_record_def sample_patch_def draft_record_def)

lemma sample_encode: "cd_record_enc sample_codec sample_record = Inr [1]"
  using hex_zero_ne by (simp add: sample_codec_def sample_record_def)

lemma sample_append:
  "append_patch sample_codec (Inr 0) fault sample_journal (sample_patch []) =
     (case fault of
        None \<Rightarrow> (sample_journal\<lparr>jn_file := jn_file sample_journal @ frame_bytes (cd_sha sample_codec) [1],
                  jn_records := fmupd 1 sample_record fmempty,
                  jn_snapshot := (empty_snapshot ''s'')\<lparr>ss_offset := 1, ss_branch := ''main''\<rparr>\<rparr>, Inr 1)
      | Some (n, m) \<Rightarrow>
          (sample_journal\<lparr>jn_file := jn_file sample_journal @ take n (frame_bytes (cd_sha sample_codec) [1]),
             jn_failed := True\<rparr>, Inl (Io m)))"
proof -
  have o: "jr_offset sample_record = 1" by (simp add: sample_record_def draft_record_def)
  have js: "apply_patch (cd_json sample_codec) (empty_snapshot ''s'') (sample_patch [])
      = ((empty_snapshot ''s'')\<lparr>ss_offset := 1\<rparr>, Inr ())" by (rule sample_apply)
  show ?thesis
    by (simp add: append_patch_def append_on_def next_offset_def sample_checksum sample_draft sample_encode
        js write_frame_def MAX_WIRE_BYTES_def o materialize_eq Let_def split: option.split)
qed

lemma sample_journal1_eq:
  "sample_journal1 = sample_journal\<lparr>jn_file := jn_file sample_journal @ frame_bytes (cd_sha sample_codec) [1],
                  jn_records := fmupd 1 sample_record fmempty,
                  jn_snapshot := (empty_snapshot ''s'')\<lparr>ss_offset := 1, ss_branch := ''main''\<rparr>\<rparr>"
  by (simp add: sample_journal1_def sample_append)

lemma sample_journal1_step:
  "append_patch sample_codec (Inr 0) None sample_journal (sample_patch []) = (sample_journal1, Inr 1)"
  by (simp add: sample_append sample_journal1_eq)

lemma sample_reachable1: "journal_reachable sample_codec sample_journal1"
  using journal_reachable.step[OF sample_reachable journal_step.append[OF sample_journal1_step]] .

lemma sample_storable1: "all_storable sample_codec sample_journal1"
proof -
  have "storable sample_codec sample_record" by (simp add: storable_def sample_codec_def)
  then show ?thesis by (simp add: all_storable_def sample_journal1_eq)
qed

section \<open>Properties\<close>

text \<open>
  C6: Reopening restores the session.  For any journal reached by creating or opening a file and
  any operations, if no write failed and no damage is pending, opening the bytes of its file
  gives back exactly its records and its snapshot and reports no damage.  The codec must read
  back the headers and the records it wrote.
\<close>

theorem reopen_restores:
  assumes "journal_reachable c j" "sha_ok c" "header_ok c" "all_storable c j"
    and "\<not> jn_failed j" "jn_recovery j = None"
  shows "\<exists>i. open_file c None (jn_file j) = Inr i \<and> jn_records i = jn_records j
       \<and> jn_snapshot i = jn_snapshot j \<and> jn_recovery i = None \<and> \<not> jn_failed i"
  using journal_reachable_inv[OF assms(1)] assms(2-6)
  by (auto simp: journal_inv_def durable_def replays_def)

theorem reopen_restores_witness:
  "\<exists>i. open_file sample_codec None (jn_file sample_journal1) = Inr i
     \<and> jn_records i = fmupd 1 sample_record fmempty \<and> ss_offset (jn_snapshot i) = 1"
  using reopen_restores[OF sample_reachable1 sample_sha sample_header_ok sample_storable1]
  by (auto simp: sample_journal1_eq)

lemma torn_append:
  assumes ok: "journal_ok c j" and a: "append_patch c now fault j p = (j', r)"
    and f: "\<not> jn_failed j" "jn_failed j'"
  shows "\<exists>n m bs. fault = Some (n, m) \<and> r = Inl (Io m) \<and> jn_recovery j = None \<and> jn_recovery j' = None
      \<and> jn_records j' = jn_records j \<and> jn_snapshot j' = jn_snapshot j \<and> length bs \<le> MAX_WIRE_BYTES
      \<and> jn_file j' = jn_file j @ take n (frame_bytes (cd_sha c) bs)"
proof -
  have a': "append_on c now fault (j\<lparr>jn_snapshot := jn_snapshot j\<rparr>) p (ss_branch (jn_snapshot j)) = (j', r)"
    using a by (simp add: append_patch_def)
  note res = append_on_result[OF ok based_self[OF ok] a']
  show ?thesis
  proof (cases r)
    case (Inl e)
    with res f show ?thesis by auto
  next
    case (Inr k)
    with res f show ?thesis by auto
  qed
qed

lemma open_torn:
  assumes rp: "replays c content j" and ok: "journal_ok c j" and sha: "sha_ok c"
    and n: "length bs \<le> MAX_WIRE_BYTES" "0 < n" "n < length (frame_bytes (cd_sha c) bs)"
  shows "\<exists>i d. open_file c None (content @ take n (frame_bytes (cd_sha c) bs)) = Inr i
      \<and> jn_records i = jn_records j \<and> jn_snapshot i = jn_snapshot j \<and> jn_recovery i = Some d
      \<and> rd_valid_bytes d = length content \<and> rd_damaged_bytes d = n \<and> rd_last_valid_offset d = latest_offset j"
proof -
  let ?t = "take n (frame_bytes (cd_sha c) bs)"
  have lt: "length ?t = n" using n(3) by simp
  obtain i where i: "open_file c None content = Inr i" "jn_records i = jn_records j" "jn_snapshot i = jn_snapshot j"
    "jn_recovery i = None"
    using rp by (auto simp: replays_def)
  obtain pre sid suf where p: "content = pre @ suf" "journal_prefix c pre sid" "i = open_loop c (start_journal content sid) suf"
    using open_file_prefix[OF i(1)] by blast
  let ?j = "i\<lparr>jn_file := content @ ?t\<rparr>"
  have "open_loop c (start_journal (content @ ?t) sid) (suf @ ?t) = open_loop c ?j ?t"
    using open_loop_append[of "start_journal content sid" c suf "content @ ?t" ?t] p(3) i(4) by simp
  also have "\<dots> = damaged ?j (length (jn_file ?j) - length ?t) (length ?t) short_read"
    by (subst open_loop.simps) (simp only: read_frame_torn[OF sha n] sum.case Let_def)
  finally have "open_file c None (content @ ?t) = Inr (damaged ?j (length content) n short_read)"
    using p(1,2) lt by (simp add: journal_prefix_def)
  moreover have "latest_offset ?j = latest_offset j" using latest_offset_cong[OF i(2)] by simp
  ultimately show ?thesis using i by (simp add: damaged_def)
qed

text \<open>
  C7: A torn write loses nothing that was acknowledged.  An append can only poison the journal
  by an I/O error after some \<open>n\<close> bytes of its frame; its records and snapshot are then those
  before the append, and opening what is on disk gives those records and that snapshot.  Unless
  the whole frame got out, the torn bytes are reported as the damaged suffix, with their exact
  start and length.
\<close>

theorem torn_write_recovers:
  assumes "journal_reachable c j" "sha_ok c" "header_ok c" "all_storable c j"
    and "append_patch c now fault j p = (j', r)" "\<not> jn_failed j" "jn_failed j'"
  shows "\<exists>n m bs. fault = Some (n, m) \<and> r = Inl (Io m)
     \<and> jn_records j' = jn_records j \<and> jn_snapshot j' = jn_snapshot j
     \<and> jn_file j' = jn_file j @ take n (frame_bytes (cd_sha c) bs)
     \<and> (n < length (frame_bytes (cd_sha c) bs) \<longrightarrow>
          (\<exists>i. open_file c None (jn_file j') = Inr i \<and> jn_records i = jn_records j \<and> jn_snapshot i = jn_snapshot j
            \<and> (if n = 0 then jn_recovery i = None
               else \<exists>d. jn_recovery i = Some d \<and> rd_valid_bytes d = length (jn_file j)
                  \<and> rd_damaged_bytes d = n \<and> rd_last_valid_offset d = latest_offset j)))"
proof -
  note inv = journal_reachable_inv[OF assms(1)]
  have ok: "journal_ok c j" and du: "durable c j" using inv assms(2-4) by (simp_all add: journal_inv_def)
  obtain n m bs where t: "fault = Some (n, m)" "r = Inl (Io m)" "jn_recovery j = None"
      "jn_records j' = jn_records j" "jn_snapshot j' = jn_snapshot j" "length bs \<le> MAX_WIRE_BYTES"
      "jn_file j' = jn_file j @ take n (frame_bytes (cd_sha c) bs)"
    using torn_append[OF ok assms(5-7)] by blast
  have rp: "replays c (jn_file j) j" using du t(3) assms(6) by (auto simp: durable_def)
  have "\<exists>i. open_file c None (jn_file j') = Inr i \<and> jn_records i = jn_records j \<and> jn_snapshot i = jn_snapshot j
            \<and> (if n = 0 then jn_recovery i = None
               else \<exists>d. jn_recovery i = Some d \<and> rd_valid_bytes d = length (jn_file j)
                  \<and> rd_damaged_bytes d = n \<and> rd_last_valid_offset d = latest_offset j)"
    if "n < length (frame_bytes (cd_sha c) bs)"
  proof (cases "n = 0")
    case True
    with rp t(7) show ?thesis by (auto simp: replays_def)
  next
    case False
    with open_torn[OF rp ok assms(2) t(6) _ that] t(7) show ?thesis by auto
  qed
  with t show ?thesis by (intro exI[where x = n] exI[where x = m] exI[where x = bs]) simp
qed

theorem torn_write_recovers_witness:
  "\<exists>i d. open_file sample_codec None
       (jn_file (fst (append_patch sample_codec (Inr 0) (Some (5, ''disk full'')) sample_journal (sample_patch [])))) = Inr i
     \<and> jn_snapshot i = empty_snapshot ''s'' \<and> jn_recovery i = Some d \<and> rd_damaged_bytes d = 5"
proof -
  let ?f = "Some (5, ''disk full'')"
  let ?r = "append_patch sample_codec (Inr 0) ?f sample_journal (sample_patch [])"
  have a: "?r = (fst ?r, snd ?r)" by simp
  have f: "jn_failed (fst ?r)" by (simp add: sample_append)
  obtain n m bs where t: "?f = Some (n, m)" "jn_file (fst ?r) = jn_file sample_journal @ take n (frame_bytes (cd_sha sample_codec) bs)"
     "n < length (frame_bytes (cd_sha sample_codec) bs) \<longrightarrow>
          (\<exists>i. open_file sample_codec None (jn_file (fst ?r)) = Inr i \<and> jn_records i = jn_records sample_journal
            \<and> jn_snapshot i = jn_snapshot sample_journal
            \<and> (if n = 0 then jn_recovery i = None
               else \<exists>d. jn_recovery i = Some d \<and> rd_valid_bytes d = length (jn_file sample_journal)
                  \<and> rd_damaged_bytes d = n \<and> rd_last_valid_offset d = latest_offset sample_journal))"
    using torn_write_recovers[OF sample_reachable sample_sha sample_header_ok sample_storable a _ f] by auto
  have "n = 5" using t(1) by simp
  with t(3) length_frame[OF sample_sha, of bs] show ?thesis by auto
qed

text \<open>
  C8: An append is atomic.  It either adds exactly the next offset, whose record holds the patch
  on top of the current document, and the snapshot is the patched document, or it reports an
  error and leaves records and snapshot alone; then the file is unchanged too, except that a
  poisoned journal may have a torn tail.
\<close>

theorem append_atomic:
  assumes "journal_reachable c j" "append_patch c now fault j p = (j', r)"
  shows "(\<exists>q s'. r = Inr (latest_offset j + 1) \<and> jn_records j' = fmupd (latest_offset j + 1) q (jn_records j)
            \<and> jr_patch q = p \<and> jr_parent q = latest_offset j \<and> jr_branch q = ss_branch (jn_snapshot j)
            \<and> apply_patch (cd_json c) (jn_snapshot j) p = (s', Inr ())
            \<and> jn_snapshot j' = s'\<lparr>ss_branch := ss_branch (jn_snapshot j)\<rparr>
            \<and> ss_offset (jn_snapshot j') = latest_offset j')
       \<or> (\<exists>e. r = Inl e \<and> e \<noteq> Diverges \<and> jn_records j' = jn_records j \<and> jn_snapshot j' = jn_snapshot j
            \<and> (jn_failed j' \<or> jn_file j' = jn_file j))"
proof -
  have ok: "journal_ok c j" using journal_reachable_inv[OF assms(1)] by (simp add: journal_inv_def)
  have a': "append_on c now fault (j\<lparr>jn_snapshot := jn_snapshot j\<rparr>) p (ss_branch (jn_snapshot j)) = (j', r)"
    using assms(2) by (simp add: append_patch_def)
  note res = append_on_result[OF ok based_self[OF ok] a']
  show ?thesis
  proof (cases r)
    case (Inl e)
    with res show ?thesis by auto
  next
    case (Inr k)
    with res obtain q where q: "k = Suc (latest_offset j)" "jn_records j' = fmupd k q (jn_records j)"
      "jr_patch q = p" "jr_parent q = ss_offset (jn_snapshot j)" "jr_branch q = ss_branch (jn_snapshot j)"
      "apply_record c q (jn_snapshot j) = Inr (jn_snapshot j')" "journal_ok c j'"
      by auto
    have lo: "ss_offset (jn_snapshot j) = latest_offset j" "ss_offset (jn_snapshot j') = latest_offset j'"
      using journal_ok_snapshot[OF ok] journal_ok_snapshot[OF q(7)] by (simp_all add: good_snapshot_def)
    obtain s' where s': "apply_patch (cd_json c) (jn_snapshot j) p = (s', Inr ())"
      "jn_snapshot j' = s'\<lparr>ss_branch := ss_branch (jn_snapshot j)\<rparr>"
      using q(3,5,6) by (auto simp: apply_record_Inr_iff)
    show ?thesis
      by (rule disjI1, rule exI[where x = q], rule exI[where x = s']) (use Inr q lo s' in auto)
  qed
qed

theorem append_atomic_witness:
  "\<exists>q. jn_records sample_journal1 = fmupd 1 q fmempty \<and> jr_patch q = sample_patch [] \<and> jr_parent q = 0"
  using append_atomic[OF sample_reachable sample_journal1_step] by auto

text \<open>
  C9: Materialisation is total and history is immutable.  In every reachable journal an offset
  materialises, in finitely many steps, to a well-formed document at that offset if it is at
  most the latest one, and is an error otherwise; the live snapshot is what the latest offset
  materialises to; and no later operation, fork or repair changes what an offset means.
\<close>

theorem materialize_total_and_stable:
  assumes "journal_reachable c j" "journal_step c j j'"
  shows "(if k \<le> latest_offset j
          then \<exists>s. materialize c j k = Inr s \<and> wf_snapshot s \<and> ss_offset s = k \<and> materialize c j' k = Inr s
          else \<exists>m. materialize c j k = Inl (Invalid m))
       \<and> materialize c j (latest_offset j) = Inr (jn_snapshot j)
       \<and> latest_offset j \<le> latest_offset j'"
proof -
  have ok: "journal_ok c j" using journal_reachable_inv[OF assms(1)] by (simp add: journal_inv_def)
  have ok': "journal_ok c j'"
    using journal_step_inv[OF assms(2) journal_reachable_inv[OF assms(1)]] by (simp add: journal_inv_def)
  have st: "materialize c j' k = materialize c j k \<and> fmlookup (jn_records j') k = fmlookup (jn_records j) k"
    if "k \<le> latest_offset j" for k
    using journal_step_history[OF ok assms(2) that] by blast
  have "latest_offset j \<le> latest_offset j'"
  proof (cases "latest_offset j = 0")
    case False
    with st[of "latest_offset j"] journal_ok_lookup[OF ok, of "latest_offset j"]
      journal_ok_lookup[OF ok', of "latest_offset j"] show ?thesis by auto
  qed simp
  moreover have "\<exists>m. materialize c j k = Inl (Invalid m)" if "\<not> k \<le> latest_offset j"
    unfolding materialize_eq
    by (rule materialize_at_unknown) (use that journal_ok_lookup[OF ok, of k] in auto)
  moreover have "\<exists>s. materialize c j k = Inr s \<and> wf_snapshot s \<and> ss_offset s = k \<and> materialize c j' k = Inr s"
    if "k \<le> latest_offset j"
    using journal_okD(3)[OF ok that] st[OF that] by (auto simp: materialize_eq good_snapshot_def)
  ultimately show ?thesis using journal_okD(4)[OF ok] by (simp add: materialize_eq)
qed

theorem materialize_total_and_stable_witness:
  "materialize sample_codec sample_journal1 0 = Inr (empty_snapshot ''s'')
   \<and> (\<exists>m. materialize sample_codec sample_journal 1 = Inl (Invalid m))"
  using materialize_total_and_stable[OF sample_reachable journal_step.append[OF sample_journal1_step], of 0]
    materialize_total_and_stable[OF sample_reachable journal_step.append[OF sample_journal1_step], of 1]
  by auto

text \<open>A codec that encodes every record, and a fork it takes.\<close>

definition open_codec :: codec where
  "open_codec = sample_codec\<lparr>cd_record_enc := \<lambda>_. Inr []\<rparr>"

lemma open_reachable: "journal_reachable open_codec sample_journal"
proof (rule journal_reachable.created)
  show "create open_codec None None ''s'' = Inr sample_journal"
    using sample_journal_create by (simp add: create_def open_codec_def sample_codec_def)
qed

definition fork_patch :: patch where
  "fork_patch = \<lparr>base_offset = JournalOffset 0, result_offset = JournalOffset 1, patch_by = Actor ''host'',
     reason = ''fork branch'', ops = [Create ''branches'' 0 (fork_element ''e1'' ''b'' 0)]\<rparr>"

lemma fork_patch_applies: "\<exists>t. apply_patch (\<lambda>_. None) (empty_snapshot ''s'') fork_patch = (t, Inr ())"
proof -
  have "trim ''fork branch'' \<noteq> []" "list_all kind_byte ''branch''" by code_simp+
  then have "validate (\<lambda>_. None) fork_patch = Inr ()"
    by (simp add: validate_Inr_iff patch_ok_def fork_patch_def fork_element_def new_element_def less_journal_offset_def
        MAX_PATCH_OPS_def MAX_OP_TEXT_BYTES_def)
  moreover have "is_ok (snd (apply_one (empty_snapshot ''s'') (Create ''branches'' 0 (fork_element ''e1'' ''b'' 0))))" by code_simp
  ultimately show ?thesis
    by (cases "apply_one (empty_snapshot ''s'') (Create ''branches'' 0 (fork_element ''e1'' ''b'' 0))")
      (auto simp: apply_patch_def fork_patch_def is_ok_def split: sum.splits)
qed

lemma open_fork: "\<exists>j'. fork_at open_codec (Inr 0) None ''b'' ''e1'' sample_journal 0 = Some (j', Inr ''b'')"
proof -
  obtain t where t: "apply_patch (\<lambda>_. None) (empty_snapshot ''s'') fork_patch = (t, Inr ())" using fork_patch_applies by blast
  have c: "container (empty_snapshot ''s'') ''branches'' = Some ''branches''" "children (empty_snapshot ''s'') ''branches'' = []"
    by code_simp+
  have js: "cd_json open_codec = (\<lambda>_. None)" by (simp add: open_codec_def sample_codec_def)
  have ck: "record_checksum open_codec r = Inr (hex (cd_sha open_codec []))" for r
    by (simp add: record_checksum_def open_codec_def)
  have en: "cd_record_enc open_codec r = Inr []" for r by (simp add: open_codec_def)
  have m: "materialize open_codec sample_journal 0 = Inr (empty_snapshot ''s'')" by (simp add: materialize_eq)
  have "\<exists>j'. append_on open_codec (Inr 0) None (sample_journal\<lparr>jn_snapshot := empty_snapshot ''s''\<rparr>) fork_patch ''b'' = (j', Inr 1)"
    unfolding append_on_def js
    by (simp add: t ck en Let_def write_frame_def draft_record_def next_offset_def) (simp add: fork_patch_def)
  then show ?thesis
    by (elim exE) (simp add: fork_at_def m c next_offset_def fork_patch_def)
qed

text \<open>
  C10: A fork branches off the chosen offset.  Forking at a known offset appends one record whose
  parent is that offset; the new document is the materialised one plus one \<open>branch\<close> element as
  the last child of \<open>branches\<close>, on the new branch; a failed fork leaves the live snapshot as it
  was, and forking never panics.
\<close>

theorem fork_branches_off:
  assumes "journal_reachable c j"
  shows "\<exists>j' r. fork_at c now fault branch eid j k = Some (j', r)
     \<and> (case r of
          Inl e \<Rightarrow> jn_snapshot j' = jn_snapshot j \<and> jn_records j' = jn_records j
        | Inr b \<Rightarrow> b = branch \<and> k \<le> latest_offset j
            \<and> (\<exists>t q s'. materialize c j k = Inr t
                \<and> jn_records j' = fmupd (latest_offset j + 1) q (jn_records j)
                \<and> jr_parent q = k \<and> jr_branch q = branch
                \<and> apply_one t (Create ''branches'' (length (children t ''branches'') mod 2 ^ 32)
                     (fork_element eid branch k)) = (s', Inr (UndoCreate eid))
                \<and> jn_snapshot j' = s'\<lparr>ss_offset := latest_offset j + 1, ss_branch := branch\<rparr>))"
proof -
  have ok: "journal_ok c j" using journal_reachable_inv[OF assms(1)] by (simp add: journal_inv_def)
  obtain j' r where f: "fork_at c now fault branch eid j k = Some (j', r)"
    using fork_at_no_panic[OF ok] by blast
  have "case r of
          Inl e \<Rightarrow> jn_snapshot j' = jn_snapshot j \<and> jn_records j' = jn_records j
        | Inr b \<Rightarrow> b = branch \<and> k \<le> latest_offset j
            \<and> (\<exists>t q s'. materialize c j k = Inr t
                \<and> jn_records j' = fmupd (latest_offset j + 1) q (jn_records j)
                \<and> jr_parent q = k \<and> jr_branch q = branch
                \<and> apply_one t (Create ''branches'' (length (children t ''branches'') mod 2 ^ 32)
                     (fork_element eid branch k)) = (s', Inr (UndoCreate eid))
                \<and> jn_snapshot j' = s'\<lparr>ss_offset := latest_offset j + 1, ss_branch := branch\<rparr>)"
    using ok f
  proof (cases rule: fork_at_cases)
    case (unknown e)
    then show ?thesis by simp
  next
    case (error t j1 e p)
    with append_on_result[OF ok _ error(3)] based_materialize[OF ok error(1)] show ?thesis by simp
  next
    case (forked t off)
    note bt = based_materialize[OF ok forked(1)]
    obtain q where q: "off = Suc (latest_offset j)" "jn_records j' = fmupd off q (jn_records j)"
      "jr_parent q = ss_offset t" "jr_branch q = branch" "apply_record c q t = Inr (jn_snapshot j')"
      "jr_patch q = \<lparr>base_offset = JournalOffset k, result_offset = next_offset j, patch_by = Actor ''host'',
          reason = ''fork branch'',
          ops = [Create ''branches'' (length (children t ''branches'') mod 2 ^ 32) (fork_element eid branch k)]\<rparr>"
      using append_on_result[OF ok _ forked(3)] bt by auto
    obtain s1 where s1: "apply_patch (cd_json c) t (jr_patch q) = (s1, Inr ())" "jn_snapshot j' = s1\<lparr>ss_branch := branch\<rparr>"
      using q(4,5) by (auto simp: apply_record_Inr_iff)
    obtain s' u where s': "apply_one t (Create ''branches'' (length (children t ''branches'') mod 2 ^ 32)
                     (fork_element eid branch k)) = (s', Inr u)" "s1 = s'\<lparr>ss_offset := Suc (latest_offset j)\<rparr>"
      using s1(1) q(6) by (auto simp: apply_patch_def next_offset_def split: sum.splits if_splits prod.splits)
    then have "u = UndoCreate eid" using apply_create_InrD(2) by (fastforce simp: fork_element_def new_element_def)
    with s' s1 q forked bt materialize_known(1)[OF ok forked(1)] show ?thesis by auto
  qed
  with f show ?thesis by blast
qed

theorem fork_branches_off_witness:
  "(\<exists>j' q s'. fork_at open_codec (Inr 0) None ''b'' ''e1'' sample_journal 0 = Some (j', Inr ''b'')
      \<and> jn_records j' = fmupd 1 q fmempty \<and> jr_parent q = 0 \<and> jr_branch q = ''b''
      \<and> apply_one (empty_snapshot ''s'') (Create ''branches'' 0 (fork_element ''e1'' ''b'' 0)) = (s', Inr (UndoCreate ''e1''))
      \<and> jn_snapshot j' = s'\<lparr>ss_offset := 1, ss_branch := ''b''\<rparr>)
   \<and> (\<exists>j' e. fork_at open_codec (Inr 0) None ''b'' ''e1'' sample_journal 7 = Some (j', Inl e)
      \<and> jn_snapshot j' = empty_snapshot ''s'')"
proof
  note f = fork_branches_off[OF open_reachable, of "Inr 0" None "''b''" "''e1''"]
  have c: "children (empty_snapshot ''s'') ''branches'' = []" by code_simp
  have m: "materialize open_codec sample_journal 0 = Inr (empty_snapshot ''s'')" by (simp add: materialize_eq)
  show "\<exists>j' q s'. fork_at open_codec (Inr 0) None ''b'' ''e1'' sample_journal 0 = Some (j', Inr ''b'')
      \<and> jn_records j' = fmupd 1 q fmempty \<and> jr_parent q = 0 \<and> jr_branch q = ''b''
      \<and> apply_one (empty_snapshot ''s'') (Create ''branches'' 0 (fork_element ''e1'' ''b'' 0)) = (s', Inr (UndoCreate ''e1''))
      \<and> jn_snapshot j' = s'\<lparr>ss_offset := 1, ss_branch := ''b''\<rparr>"
    using f[of 0] open_fork by (fastforce simp: m c)
  show "\<exists>j' e. fork_at open_codec (Inr 0) None ''b'' ''e1'' sample_journal 7 = Some (j', Inl e)
      \<and> jn_snapshot j' = empty_snapshot ''s''"
    using f[of 7] by (fastforce split: sum.splits)
qed

text \<open>
  The ancestry of an offset is the path of parents down to the root: it exists for every
  known offset, is strictly increasing, ends in the offset, starts at a child of offset 0, and
  each entry is the parent of the next.
\<close>

theorem ancestry_is_parent_path:
  assumes "journal_reachable c j" "0 < k" "k \<le> latest_offset j"
  shows "\<exists>os. branch_ancestry j k = Inr os \<and> os \<noteq> [] \<and> last os = k \<and> sorted_wrt (<) os
     \<and> map (\<lambda>i. map_option jr_parent (fmlookup (jn_records j) i)) os = map Some (0 # butlast os)"
proof -
  have ok: "journal_ok c j" using journal_reachable_inv[OF assms(1)] by (simp add: journal_inv_def)
  show ?thesis using ancestry_path[OF ok assms(2,3)] .
qed

theorem ancestry_is_parent_path_witness:
  "\<exists>os. branch_ancestry sample_journal1 1 = Inr os \<and> last os = 1 \<and> os \<noteq> []"
proof -
  have "latest_offset sample_journal1 = 1" by (simp add: latest_offset_def sample_journal1_eq)
  with ancestry_is_parent_path[OF sample_reachable1, of 1] show ?thesis by auto
qed

text \<open>
  Repairing a damaged journal keeps what is good and saves the rest.  The file is cut at the
  reported length, the bytes behind it are what is saved beside it, the journal accepts writes
  again, and reopening the repaired file gives the same records and snapshot with no damage.
\<close>

theorem repair_keeps_the_good_part:
  assumes "journal_reachable c j" "sha_ok c" "header_ok c" "all_storable c j"
    and "jn_recovery j = Some d"
  shows "\<exists>j' saved. repair_suffix None path j = (j', Inr (Some (path, saved)))
     \<and> jn_file j = jn_file j' @ saved \<and> length (jn_file j') = rd_valid_bytes d
     \<and> jn_recovery j' = None \<and> \<not> jn_failed j' \<and> jn_records j' = jn_records j \<and> jn_snapshot j' = jn_snapshot j
     \<and> (\<exists>i. open_file c None (jn_file j') = Inr i \<and> jn_records i = jn_records j
          \<and> jn_snapshot i = jn_snapshot j \<and> jn_recovery i = None)"
proof -
  have "durable c j" using journal_reachable_inv[OF assms(1)] assms(2-4) by (simp add: journal_inv_def)
  then obtain good tl where g: "jn_file j = good @ tl" "replays c good j" "rd_valid_bytes d = length good"
    using assms(5) by (auto simp: durable_def)
  let ?j = "j\<lparr>jn_file := good, jn_recovery := None, jn_failed := False\<rparr>"
  have "repair_suffix None path j = (?j, Inr (Some (path, tl)))"
    using g assms(5) by (simp add: repair_suffix_def)
  with g show ?thesis
    by (intro exI[where x = ?j] exI[where x = tl]) (auto simp: replays_def)
qed

theorem repair_keeps_the_good_part_witness:
  "\<exists>i d. open_file sample_codec None (jn_file sample_journal @ [7]) = Inr i \<and> jn_recovery i = Some d
     \<and> rd_valid_bytes d = length (jn_file sample_journal)
     \<and> (\<exists>j'. repair_suffix None ''p'' i = (j', Inr (Some (''p'', [7]))))"
proof -
  have rp: "replays sample_codec (jn_file sample_journal) sample_journal"
    using open_file_created[OF sample_journal_create sample_sha sample_header_ok] by (simp add: replays_def)
  have ok: "journal_ok sample_codec sample_journal" using create_ok[OF sample_journal_create] .
  obtain pre sid suf where p: "jn_file sample_journal = pre @ suf" "journal_prefix sample_codec pre sid"
    "sample_journal = open_loop sample_codec (start_journal (jn_file sample_journal) sid) suf"
    using open_file_prefix[OF open_file_created[OF sample_journal_create sample_sha sample_header_ok]] by blast
  let ?f = "jn_file sample_journal @ [7]"
  let ?j = "sample_journal\<lparr>jn_file := ?f\<rparr>"
  have "open_loop sample_codec (start_journal ?f sid) (suf @ [7]) = open_loop sample_codec ?j [7]"
    using open_loop_append[of "start_journal (jn_file sample_journal) sid" sample_codec suf ?f "[7]"] p(3) by simp
  also have "\<dots> = damaged ?j (length (jn_file ?j) - 1) 1 short_read"
    by (subst open_loop.simps) (simp add: read_frame_def read_exact_def)
  finally have o: "open_file sample_codec None ?f = Inr (damaged ?j (length (jn_file sample_journal)) 1 short_read)"
    using p(1,2) by (simp add: journal_prefix_def)
  let ?i = "damaged ?j (length (jn_file sample_journal)) 1 short_read"
  obtain d where d: "jn_recovery ?i = Some d" "rd_valid_bytes d = length (jn_file sample_journal)"
    by (simp add: damaged_def)
  have f: "jn_file ?i = ?f" by (simp add: damaged_def)
  have "all_storable sample_codec ?i" by (simp add: all_storable_def damaged_def)
  from repair_keeps_the_good_part[OF journal_reachable.opened[OF o] sample_sha sample_header_ok this d(1), of "''p''"]
  obtain j' saved where r: "repair_suffix None ''p'' ?i = (j', Inr (Some (''p'', saved)))"
    "?f = jn_file j' @ saved" "length (jn_file j') = length (jn_file sample_journal)"
    using d(2) f by auto
  then have "saved = [7]" by (simp add: append_eq_append_conv)
  with r(1) o d show ?thesis by blast
qed

text \<open>
  Validation reads the attributes of no created element: a number that \<open>SetAttribute\<close> refuses, any
  NaN or infinity, passes in a \<open>Create\<close>, and the patch is accepted or not as if it were not there.
\<close>

lemma create_attributes_unchecked:
  "validate js (p\<lparr>ops := xs @ Create k i (e\<lparr>attributes := a\<rparr>) # ys\<rparr>) = Inr ()
     \<longleftrightarrow> validate js (p\<lparr>ops := xs @ Create k i e # ys\<rparr>) = Inr ()"
  by (simp add: validate_Inr_iff patch_ok_def)

lemma set_attribute_finite:
  "\<not> f64_is_finite x \<Longrightarrow> validate js (p\<lparr>ops := xs @ SetAttribute k n (TNumber x) # ys\<rparr>) \<noteq> Inr ()"
  by (simp add: validate_Inr_iff patch_ok_def)

end
