(* ===== verification/Transcript.thy ===== *)
theory Transcript
  imports Types
begin

text \<open>
  The transcript scheduler of \<open>omp-render/src/transcript.rs\<close>: blocks of lines that are admitted,
  activated, updated, finalised and retired in order into a ledger of committed blocks, a bounded
  native scrollback and a viewport.  The width of a line on screen and its truncation
  (\<open>richtext.rs\<close>, over Unicode tables) are the argument \<open>text_metrics\<close>.  \<open>u16\<close> and \<open>u64\<close> counters
  are natural numbers.  An operation returns the state it leaves behind and its result.
\<close>

section \<open>State\<close>

type_synonym block_id = string

datatype block_mode = Mutable | AppendOnly

datatype block_state = BQueued | BActive | BFinalized | BCommitted

record transcript_block =
  bl_id :: block_id
  bl_mode :: block_mode
  bl_state :: block_state
  bl_owner :: string
  bl_snapshot :: "string list"
  bl_emitted :: nat
  bl_reserved :: nat
  bl_height :: nat

definition new_block :: "block_id \<Rightarrow> block_mode \<Rightarrow> string \<Rightarrow> transcript_block" where
  "new_block i mode owner =
     \<lparr>bl_id = i, bl_mode = mode, bl_state = BQueued, bl_owner = owner, bl_snapshot = [],
      bl_emitted = 0, bl_reserved = 0, bl_height = 0\<rparr>"

datatype native_source = SrcAppend | SrcRetire | SrcReplay | SrcResize | SrcFailedWrite | SrcExit

record native_row =
  row_text :: string
  row_source :: native_source
  row_block :: "block_id option"
  row_owner :: "string option"
  row_width :: nat
  row_epoch :: nat
  row_summary :: bool

record text_metrics =
  vis_width :: "string \<Rightarrow> nat"
  fit_width :: "nat \<Rightarrow> string \<Rightarrow> string"

definition tagged :: "text_metrics \<Rightarrow> string \<Rightarrow> native_source \<Rightarrow> transcript_block \<Rightarrow> nat \<Rightarrow> native_row" where
  "tagged m t src b epoch =
     \<lparr>row_text = t, row_source = src, row_block = Some (bl_id b), row_owner = Some (bl_owner b),
      row_width = vis_width m t, row_epoch = epoch, row_summary = False\<rparr>"

definition summary_row :: "text_metrics \<Rightarrow> string \<Rightarrow> nat \<Rightarrow> native_row" where
  "summary_row m t epoch =
     \<lparr>row_text = t, row_source = SrcResize, row_block = None, row_owner = None,
      row_width = vis_width m t, row_epoch = epoch, row_summary = True\<rparr>"

datatype resize_policy = Preserve | ResizeAppend | Rebuild

datatype replay_gate =
    Idle
  | PreparingReplay nat nat nat
  | ReplayWriting nat
  | FailedStop structured_error nat

record transcript_scheduler =
  ts_blocks :: "transcript_block list"
  ts_committed :: "string list list"
  ts_scrollback :: "native_row list"
  ts_viewport :: "native_row list"
  ts_width :: nat
  ts_height :: nat
  ts_epoch :: nat
  ts_gate :: replay_gate
  ts_fail_stopped :: bool
  ts_forensic :: "native_row list"
  ts_evicted :: nat

datatype transcript_error =
    BlockNotFound block_id
  | InvalidStateTransition block_id block_state block_state
  | PrefixMonotonicityViolated block_id
  | MutableBlockCannotStream block_id
  | BlockIsFinalized block_id
  | ReplayGateViolation replay_gate
  | FailStopHalted
  | DuplicateBlock block_id
  | LiveBlockLimit
  | OutOfOrderRetirement block_id "block_id option"

type_synonym 'a ts_result = "transcript_scheduler \<times> (transcript_error, 'a) result"

definition MAX_SCROLLBACK_ROWS :: nat where "MAX_SCROLLBACK_ROWS = 10000"

definition new_scheduler :: "nat \<Rightarrow> nat \<Rightarrow> transcript_scheduler" where
  "new_scheduler w h =
     \<lparr>ts_blocks = [], ts_committed = [], ts_scrollback = [], ts_viewport = [], ts_width = w,
      ts_height = h, ts_epoch = 1, ts_gate = Idle, ts_fail_stopped = False, ts_forensic = [],
      ts_evicted = 0\<rparr>"

definition commit_frontier :: "transcript_scheduler \<Rightarrow> nat" where
  "commit_frontier s = length (ts_committed s)"

section \<open>Logical history\<close>

definition all_lines :: "string list list \<Rightarrow> transcript_block option \<Rightarrow> string list" where
  "all_lines committed active =
     concat committed @
     (case active of
        None \<Rightarrow> []
      | Some b \<Rightarrow>
          if bl_state b = BActive \<or> bl_state b = BFinalized
          then (case bl_mode b of
              AppendOnly \<Rightarrow> take (min (bl_emitted b) (length (bl_snapshot b))) (bl_snapshot b)
            | Mutable \<Rightarrow> [])
          else [])"

definition committed_line_count :: "transcript_scheduler \<Rightarrow> nat" where
  "committed_line_count s = sum_list (map length (ts_committed s))"

section \<open>Scrollback and viewport\<close>

definition push_scrollback :: "native_row \<Rightarrow> transcript_scheduler \<Rightarrow> transcript_scheduler" where
  "push_scrollback row s =
     (let rows = ts_scrollback s @ [row];
          excess = length rows - MAX_SCROLLBACK_ROWS
      in s\<lparr>ts_scrollback := drop excess rows, ts_evicted := ts_evicted s + excess\<rparr>)"

definition on_screen :: "transcript_block \<Rightarrow> bool" where
  "on_screen b \<longleftrightarrow> bl_state b = BActive \<or> bl_state b = BFinalized"

definition requested_rows :: "transcript_block \<Rightarrow> nat" where
  "requested_rows b = max (bl_height b) (length (bl_snapshot b) - bl_emitted b)"

text \<open>The loop over the blocks from the last to the first that hands out the rows.\<close>

fun allocate :: "nat \<Rightarrow> transcript_block list \<Rightarrow> transcript_block list \<times> nat" where
  "allocate remaining [] = ([], remaining)"
| "allocate remaining (b # bs) =
     (let allocation = (if on_screen b then min (requested_rows b) remaining else 0);
          (bs', left) = allocate (remaining - allocation) bs
      in (b\<lparr>bl_reserved := allocation\<rparr> # bs', left))"

definition block_rows :: "text_metrics \<Rightarrow> nat \<Rightarrow> transcript_block \<Rightarrow> native_row list" where
  "block_rows m epoch b =
     (let allocation = bl_reserved b in
      if allocation = 0 then []
      else
        let stable = (if bl_mode b = AppendOnly then bl_emitted b else 0);
            start = max stable (length (bl_snapshot b) - allocation)
        in map (\<lambda>l. tagged m l SrcAppend b epoch) (drop start (bl_snapshot b))
           @ replicate (allocation - (length (bl_snapshot b) - start)) (tagged m [] SrcAppend b epoch))"

definition fit_row :: "text_metrics \<Rightarrow> nat \<Rightarrow> native_row \<Rightarrow> native_row" where
  "fit_row m w row =
     (if w < row_width row
      then let t = fit_width m w (row_text row) in row\<lparr>row_text := t, row_width := vis_width m t\<rparr>
      else row)"

text \<open>One row announces hidden output when not everything fits.\<close>

definition summary_height :: "transcript_scheduler \<Rightarrow> nat" where
  "summary_height s =
     (let height = ts_height s;
          requested = sum_list (map requested_rows (filter on_screen (ts_blocks s)));
          hidden = height < requested + length (ts_scrollback s)
      in if hidden \<and> 1 < height then 1 else 0)"

definition viewport_rows ::
  "text_metrics \<Rightarrow> transcript_scheduler \<Rightarrow> nat \<Rightarrow> transcript_block list \<Rightarrow> native_row list" where
  "viewport_rows m s remaining blocks =
     (let rows = (if summary_height s \<noteq> 0
                  then [summary_row m ''[earlier output hidden]'' (ts_epoch s)] else [])
            @ drop (length (ts_scrollback s) - remaining) (ts_scrollback s)
            @ concat (map (block_rows m (ts_epoch s)) blocks)
      in if 0 < ts_width s then map (fit_row m (ts_width s)) rows else rows)"

definition refresh_viewport :: "text_metrics \<Rightarrow> transcript_scheduler \<Rightarrow> transcript_scheduler" where
  "refresh_viewport m s =
     (if ts_fail_stopped s then s
      else (case allocate (ts_height s - summary_height s) (rev (ts_blocks s)) of
          (rbs, remaining) \<Rightarrow>
            s\<lparr>ts_viewport := (if ts_height s = 0 then [] else viewport_rows m s remaining (rev rbs)),
              ts_blocks := rev rbs\<rparr>))"

section \<open>Block operations\<close>

definition check_not_fail_stopped :: "transcript_scheduler \<Rightarrow> (transcript_error, unit) result" where
  "check_not_fail_stopped s = (if ts_fail_stopped s then Inl FailStopHalted else Inr ())"

definition check_operational :: "transcript_scheduler \<Rightarrow> (transcript_error, unit) result" where
  "check_operational s =
     try_bind (check_not_fail_stopped s) (\<lambda>_.
       if ts_gate s \<noteq> Idle then Inl (ReplayGateViolation (ts_gate s)) else Inr ())"

definition find_block :: "block_id \<Rightarrow> transcript_scheduler \<Rightarrow> (transcript_error, nat \<times> transcript_block) result" where
  "find_block i s =
     (case vec_position (\<lambda>b. bl_id b = i) (ts_blocks s) of
        None \<Rightarrow> Inl (BlockNotFound i)
      | Some k \<Rightarrow> Inr (k, ts_blocks s ! k))"

definition set_block :: "nat \<Rightarrow> transcript_block \<Rightarrow> transcript_scheduler \<Rightarrow> transcript_scheduler" where
  "set_block k b s = s\<lparr>ts_blocks := (ts_blocks s)[k := b]\<rparr>"

definition admit_block :: "transcript_scheduler \<Rightarrow> block_id \<Rightarrow> block_mode \<Rightarrow> string \<Rightarrow> unit ts_result" where
  "admit_block s i mode owner =
     (case check_operational s of
        Inl e \<Rightarrow> (s, Inl e)
      | Inr _ \<Rightarrow>
          if list_ex (\<lambda>b. bl_id b = i) (ts_blocks s) then (s, Inl (DuplicateBlock i))
          else if 128 \<le> length (ts_blocks s) - commit_frontier s then (s, Inl LiveBlockLimit)
          else (s\<lparr>ts_blocks := ts_blocks s @ [new_block i mode owner]\<rparr>, Inr ()))"

definition activate_block :: "transcript_scheduler \<Rightarrow> block_id \<Rightarrow> unit ts_result" where
  "activate_block s i =
     (case try_bind (check_operational s) (\<lambda>_. find_block i s) of
        Inl e \<Rightarrow> (s, Inl e)
      | Inr (k, b) \<Rightarrow>
          if bl_state b \<noteq> BQueued then (s, Inl (InvalidStateTransition i (bl_state b) BActive))
          else (set_block k (b\<lparr>bl_state := BActive\<rparr>) s, Inr ()))"

definition apply_elastic_reservation ::
  "text_metrics \<Rightarrow> transcript_scheduler \<Rightarrow> block_id \<Rightarrow> unit ts_result" where
  "apply_elastic_reservation m s i =
     (case find_block i s of
        Inl e \<Rightarrow> (s, Inl e)
      | Inr (k, b) \<Rightarrow>
          let old_height = bl_height b;
              new_height = length (bl_snapshot b) - bl_emitted b;
              effective = (if new_height + 2 < old_height then max (old_height - 2) new_height else new_height);
              max_allowed = ts_height s;
              reserved = (if max_allowed < effective \<and> 0 < max_allowed then max_allowed else effective)
          in (refresh_viewport m (set_block k (b\<lparr>bl_reserved := reserved, bl_height := effective\<rparr>) s), Inr ()))"

fun prefix_lines :: "string list \<Rightarrow> string list \<Rightarrow> bool" where
  "prefix_lines [] new \<longleftrightarrow> True"
| "prefix_lines (l # old) [] \<longleftrightarrow> False"
| "prefix_lines (l # old) (n # new) \<longleftrightarrow> n = l \<and> prefix_lines old new"

definition update_snapshot ::
  "text_metrics \<Rightarrow> transcript_scheduler \<Rightarrow> block_id \<Rightarrow> string list \<Rightarrow> unit ts_result" where
  "update_snapshot m s i new_lines =
     (case try_bind (check_operational s) (\<lambda>_. find_block i s) of
        Inl e \<Rightarrow> (s, Inl e)
      | Inr (k, b) \<Rightarrow>
          if bl_state b = BFinalized \<or> bl_state b = BCommitted then (s, Inl (BlockIsFinalized i))
          else if bl_mode b = AppendOnly \<and> \<not> prefix_lines (bl_snapshot b) new_lines
          then (s, Inl (PrefixMonotonicityViolated i))
          else apply_elastic_reservation m (set_block k (b\<lparr>bl_snapshot := new_lines\<rparr>) s) i)"

definition expected_block :: "transcript_scheduler \<Rightarrow> block_id option" where
  "expected_block s =
     (if commit_frontier s < length (ts_blocks s) then Some (bl_id (ts_blocks s ! commit_frontier s)) else None)"

definition stream_stable_prefix ::
  "text_metrics \<Rightarrow> transcript_scheduler \<Rightarrow> block_id \<Rightarrow> nat \<Rightarrow> nat ts_result" where
  "stream_stable_prefix m s i stable_count =
     (case try_bind (check_operational s) (\<lambda>_. find_block i s) of
        Inl e \<Rightarrow> (s, Inl e)
      | Inr (k, b) \<Rightarrow>
          if k \<noteq> commit_frontier s then (s, Inl (OutOfOrderRetirement i (expected_block s)))
          else if bl_state b \<noteq> BActive \<and> bl_state b \<noteq> BFinalized
          then (s, Inl (InvalidStateTransition i (bl_state b) BActive))
          else if bl_mode b = Mutable then (s, Inl (MutableBlockCannotStream i))
          else
            let new_prefix = min stable_count (length (bl_snapshot b));
                emitted = max new_prefix (bl_emitted b);
                rows = map (\<lambda>l. tagged m l SrcAppend b (ts_epoch s))
                         (drop (bl_emitted b) (take new_prefix (bl_snapshot b)));
                s1 = fold push_scrollback rows (set_block k (b\<lparr>bl_emitted := emitted\<rparr>) s);
                s2 = set_block k (b\<lparr>bl_emitted := emitted,
                       bl_height := min (bl_height b) (length (bl_snapshot b) - emitted)\<rparr>) s1
            in (refresh_viewport m s2, Inr emitted))"

definition finalize_block :: "transcript_scheduler \<Rightarrow> block_id \<Rightarrow> unit ts_result" where
  "finalize_block s i =
     (case try_bind (check_operational s) (\<lambda>_. find_block i s) of
        Inl e \<Rightarrow> (s, Inl e)
      | Inr (k, b) \<Rightarrow>
          if bl_state b \<noteq> BActive then (s, Inl (InvalidStateTransition i (bl_state b) BFinalized))
          else (set_block k (b\<lparr>bl_state := BFinalized\<rparr>) s, Inr ()))"

definition retire_block :: "text_metrics \<Rightarrow> transcript_scheduler \<Rightarrow> block_id \<Rightarrow> unit ts_result" where
  "retire_block m s i =
     (case try_bind (check_operational s) (\<lambda>_. find_block i s) of
        Inl e \<Rightarrow> (s, Inl e)
      | Inr (k, b) \<Rightarrow>
          if k \<noteq> commit_frontier s then (s, Inl (OutOfOrderRetirement i (expected_block s)))
          else if bl_state b \<noteq> BFinalized then (s, Inl (InvalidStateTransition i (bl_state b) BCommitted))
          else
            let rows = map (\<lambda>l. tagged m l SrcRetire b (ts_epoch s)) (drop (bl_emitted b) (bl_snapshot b));
                s1 = fold push_scrollback rows s;
                s2 = s1\<lparr>ts_committed := ts_committed s1 @ [bl_snapshot b]\<rparr>;
                s3 = set_block k (b\<lparr>bl_state := BCommitted, bl_emitted := 0\<rparr>) s2
            in (refresh_viewport m s3, Inr ()))"

text \<open>
  The loop of \<open>flush\<close> stops by itself: a successful retirement moves the frontier towards the end
  of the blocks.  The fuel is the number of blocks the loop can retire at most.
\<close>

fun flush_loop :: "nat \<Rightarrow> text_metrics \<Rightarrow> transcript_scheduler \<Rightarrow> unit ts_result option" where
  "flush_loop 0 m s = None"
| "flush_loop (Suc fuel) m s =
     (if commit_frontier s < length (ts_blocks s)
         \<and> bl_state (ts_blocks s ! commit_frontier s) = BFinalized
      then (case retire_block m s (bl_id (ts_blocks s ! commit_frontier s)) of
          (s', Inl e) \<Rightarrow> Some (s', Inl e)
        | (s', Inr _) \<Rightarrow> flush_loop fuel m s')
      else Some (s, Inr ()))"

definition flush :: "text_metrics \<Rightarrow> transcript_scheduler \<Rightarrow> unit ts_result option" where
  "flush m s =
     (case check_operational s of
        Inl e \<Rightarrow> Some (s, Inl e)
      | Inr _ \<Rightarrow> flush_loop (Suc (length (ts_blocks s) - commit_frontier s)) m s)"

section \<open>Resizing and replay\<close>

definition prepare_rebuild_replay :: "transcript_scheduler \<Rightarrow> nat \<Rightarrow> nat \<Rightarrow> unit ts_result" where
  "prepare_rebuild_replay s w h =
     (case check_operational s of
        Inl e \<Rightarrow> (s, Inl e)
      | Inr _ \<Rightarrow> (s\<lparr>ts_gate := PreparingReplay (ts_epoch s + 1) w h\<rparr>, Inr ()))"

definition replay_lines :: "nat \<Rightarrow> nat \<times> transcript_block \<Rightarrow> string list" where
  "replay_lines frontier ib =
     (let (index, b) = ib in
      if index < frontier then bl_snapshot b
      else if index = frontier \<and> on_screen b \<and> bl_mode b = AppendOnly
      then take (min (bl_emitted b) (length (bl_snapshot b))) (bl_snapshot b)
      else [])"

definition execute_rebuild_replay :: "text_metrics \<Rightarrow> transcript_scheduler \<Rightarrow> unit ts_result" where
  "execute_rebuild_replay m s =
     (case check_not_fail_stopped s of
        Inl e \<Rightarrow> (s, Inl e)
      | Inr _ \<Rightarrow>
          (case ts_gate s of
             PreparingReplay epoch w h \<Rightarrow>
               let replayed = concat (map
                     (\<lambda>ib. map (\<lambda>l. tagged m l SrcReplay (snd ib) epoch) (replay_lines (commit_frontier s) ib))
                     (enumerate 0 (ts_blocks s)));
                   evicted = length replayed - MAX_SCROLLBACK_ROWS;
                   s1 = s\<lparr>ts_epoch := epoch, ts_width := w, ts_height := h, ts_viewport := [],
                          ts_scrollback := drop evicted replayed, ts_evicted := ts_evicted s + evicted,
                          ts_gate := ReplayWriting epoch\<rparr>;
                   s2 = refresh_viewport m s1
               in (s2\<lparr>ts_gate := Idle\<rparr>, Inr ())
           | g \<Rightarrow> (s, Inl (ReplayGateViolation g))))"

definition resize :: "text_metrics \<Rightarrow> transcript_scheduler \<Rightarrow> nat \<Rightarrow> nat \<Rightarrow> resize_policy \<Rightarrow> unit ts_result" where
  "resize m s w h policy =
     (case check_operational s of
        Inl e \<Rightarrow> (s, Inl e)
      | Inr _ \<Rightarrow>
          (case policy of
             Preserve \<Rightarrow> (refresh_viewport m (s\<lparr>ts_width := w, ts_height := h\<rparr>), Inr ())
           | ResizeAppend \<Rightarrow>
               let row = summary_row m (''--- resize to '' @ show_nat w @ ''x'' @ show_nat h @ '' ---'') (ts_epoch s);
                   s1 = push_scrollback row s
               in (refresh_viewport m (s1\<lparr>ts_width := w, ts_height := h\<rparr>), Inr ())
           | Rebuild \<Rightarrow>
               (case prepare_rebuild_replay s w h of
                  (s1, Inl e) \<Rightarrow> (s1, Inl e)
                | (s1, Inr _) \<Rightarrow> execute_rebuild_replay m s1)))"

section \<open>Write failure\<close>

definition handle_write_failure :: "transcript_scheduler \<Rightarrow> structured_error \<Rightarrow> nat \<Rightarrow> transcript_scheduler" where
  "handle_write_failure s error accepted =
     (if ts_fail_stopped s then s
      else
        let n = min accepted (length (ts_viewport s));
            rows = map (\<lambda>row. row\<lparr>row_source := SrcFailedWrite\<rparr>) (take n (ts_viewport s))
        in s\<lparr>ts_forensic := ts_forensic s @ rows, ts_viewport := [], ts_fail_stopped := True,
             ts_gate := FailedStop error n\<rparr>)"

end
