(* ===== verification/TranscriptInv.thy ===== *)
theory TranscriptInv
  imports Transcript "HOL-Library.Sublist"
begin

text \<open>
  The invariant of the transcript scheduler, stated over its block list, its ledger, its
  scrollback and the count of evicted rows, and its preservation by every operation.
\<close>

section \<open>The invariant\<close>

definition strip :: "transcript_block \<Rightarrow> transcript_block" where
  "strip b = b\<lparr>bl_reserved := 0\<rparr>"

definition head_block :: "transcript_block list \<Rightarrow> nat \<Rightarrow> transcript_block option" where
  "head_block bs f = (if f < length bs then Some (bs ! f) else None)"

definition block_ok :: "nat \<Rightarrow> nat \<Rightarrow> transcript_block \<Rightarrow> bool" where
  "block_ok f k b \<longleftrightarrow>
     (k < f \<longleftrightarrow> bl_state b = BCommitted) \<and> bl_emitted b \<le> length (bl_snapshot b)
     \<and> (bl_emitted b \<noteq> 0 \<longrightarrow> k = f \<and> bl_mode b = AppendOnly \<and> on_screen b)"

text \<open>The lines the scrollback shows, without the summary rows a resize leaves.\<close>

definition shown :: "native_row list \<Rightarrow> string list" where
  "shown sb = map row_text (filter (\<lambda>r. \<not> row_summary r) sb)"

definition core :: "transcript_block list \<Rightarrow> string list list \<Rightarrow> native_row list \<Rightarrow> nat \<Rightarrow> bool" where
  "core bs com sb ev \<longleftrightarrow>
     distinct (map bl_id bs) \<and> length com \<le> length bs \<and> length bs - length com \<le> 128
     \<and> com = map bl_snapshot (take (length com) bs)
     \<and> (\<forall>k < length bs. block_ok (length com) k (bs ! k))
     \<and> length sb \<le> MAX_SCROLLBACK_ROWS
     \<and> suffix (shown sb) (all_lines com (head_block bs (length com)))
     \<and> (ev = 0 \<longrightarrow> shown sb = all_lines com (head_block bs (length com)))"

definition sched_core :: "transcript_scheduler \<Rightarrow> bool" where
  "sched_core s \<longleftrightarrow> core (ts_blocks s) (ts_committed s) (ts_scrollback s) (ts_evicted s)"

definition sched_ok :: "transcript_scheduler \<Rightarrow> bool" where
  "sched_ok s \<longleftrightarrow>
     sched_core s \<and> length (ts_viewport s) \<le> ts_height s
     \<and> (ts_fail_stopped s \<longleftrightarrow> (\<exists>e n. ts_gate s = FailedStop e n))
     \<and> (ts_fail_stopped s \<longrightarrow> ts_viewport s = [])"

lemma coreD:
  assumes "core bs com sb ev"
  shows "distinct (map bl_id bs)" "length com \<le> length bs" "length bs - length com \<le> 128"
    "com = map bl_snapshot (take (length com) bs)"
    "k < length bs \<Longrightarrow> block_ok (length com) k (bs ! k)"
    "length sb \<le> MAX_SCROLLBACK_ROWS"
    "suffix (shown sb) (all_lines com (head_block bs (length com)))"
    "ev = 0 \<Longrightarrow> shown sb = all_lines com (head_block bs (length com))"
  using assms unfolding core_def by blast+

section \<open>The viewport\<close>

lemma strip_fields [simp]:
  "bl_id (strip b) = bl_id b" "bl_mode (strip b) = bl_mode b" "bl_state (strip b) = bl_state b"
  "bl_snapshot (strip b) = bl_snapshot b" "bl_emitted (strip b) = bl_emitted b"
  "bl_owner (strip b) = bl_owner b" "bl_height (strip b) = bl_height b"
  by (simp_all add: strip_def)

lemma core_strip: "core (map strip bs) com sb ev = core bs com sb ev"
proof -
  have ok: "block_ok f k (strip b) = block_ok f k b" for f k b
    by (simp add: block_ok_def on_screen_def)
  have h: "all_lines com (head_block (map strip bs) f) = all_lines com (head_block bs f)" for f
    by (cases "bl_mode (bs ! f)") (simp_all add: head_block_def all_lines_def)
  have f: "bl_id \<circ> strip = bl_id" "bl_snapshot \<circ> strip = bl_snapshot" by (simp_all add: fun_eq_iff)
  show ?thesis by (simp add: core_def ok h take_map f)
qed

lemma core_cong: "map strip bs = map strip bs' \<Longrightarrow> core bs com sb ev = core bs' com sb ev"
  by (metis core_strip)

lemma allocate_strip: "map strip (fst (allocate n bs)) = map strip bs"
  by (induction n bs rule: allocate.induct) (auto simp: Let_def strip_def split: prod.splits)

lemma allocate_total: "snd (allocate n bs) + sum_list (map bl_reserved (fst (allocate n bs))) = n"
proof (induction n bs rule: allocate.induct)
  case (1 n)
  then show ?case by simp
next
  case (2 n b bs)
  define a where "a = (if on_screen b then min (requested_rows b) n else 0)"
  have le: "a \<le> n" by (simp add: a_def)
  obtain bs' l where r: "allocate (n - a) bs = (bs', l)" by (cases "allocate (n - a) bs") auto
  from 2[OF refl] have "l + sum_list (map bl_reserved bs') = n - a" by (simp add: r a_def[symmetric])
  then show ?case using le by (simp add: a_def[symmetric] r Let_def)
qed

lemma block_rows_length:
  "bl_emitted b \<le> length (bl_snapshot b) \<Longrightarrow> length (block_rows m e b) = bl_reserved b"
  by (auto simp: block_rows_def Let_def)

lemma refresh_keeps [simp]:
  "ts_committed (refresh_viewport m s) = ts_committed s" "ts_scrollback (refresh_viewport m s) = ts_scrollback s"
  "ts_evicted (refresh_viewport m s) = ts_evicted s" "ts_gate (refresh_viewport m s) = ts_gate s"
  "ts_fail_stopped (refresh_viewport m s) = ts_fail_stopped s" "ts_height (refresh_viewport m s) = ts_height s"
  "ts_width (refresh_viewport m s) = ts_width s" "ts_epoch (refresh_viewport m s) = ts_epoch s"
  "ts_forensic (refresh_viewport m s) = ts_forensic s"
  by (simp_all add: refresh_viewport_def split: prod.split)

lemma refresh_strip [simp]: "map strip (ts_blocks (refresh_viewport m s)) = map strip (ts_blocks s)"
proof -
  have "map strip (rev (fst (allocate n (rev bs)))) = map strip bs" for n bs
    using allocate_strip[of n "rev bs"] by (simp add: rev_map[symmetric])
  from this[of _ "ts_blocks s"] show ?thesis
    by (auto simp: refresh_viewport_def split: prod.split) (metis fst_conv)+
qed

lemma refresh_core [simp]: "sched_core (refresh_viewport m s) = sched_core s"
  by (simp add: sched_core_def core_cong[OF refresh_strip])

lemma refresh_length [simp]: "length (ts_blocks (refresh_viewport m s)) = length (ts_blocks s)"
proof -
  have "length (map strip (ts_blocks (refresh_viewport m s))) = length (map strip (ts_blocks s))"
    by (simp only: refresh_strip)
  then show ?thesis by (simp only: length_map)
qed

lemma refresh_frontier [simp]: "commit_frontier (refresh_viewport m s) = commit_frontier s"
  by (simp add: commit_frontier_def)

text \<open>The viewport never has more rows than the screen.\<close>

lemma refresh_viewport_fits:
  assumes c: "sched_core s" and f: "\<not> ts_fail_stopped s"
  shows "length (ts_viewport (refresh_viewport m s)) \<le> ts_height s"
proof (cases "ts_height s = 0")
  case True
  with f show ?thesis by (simp add: refresh_viewport_def split: prod.split)
next
  case False
  define sm where "sm = summary_height s"
  obtain rbs rem where al: "allocate (ts_height s - sm) (rev (ts_blocks s)) = (rbs, rem)"
    by (cases "allocate (ts_height s - sm) (rev (ts_blocks s))") auto
  have sm: "sm \<le> ts_height s" "sm \<le> 1" using False by (simp_all add: sm_def summary_height_def Let_def)
  have tot: "rem + sum_list (map bl_reserved (rev rbs)) = ts_height s - sm"
    using allocate_total[of "ts_height s - sm" "rev (ts_blocks s)"] al by (simp add: rev_map[symmetric])
  have "map strip (rev rbs) = map strip (ts_blocks s)"
    using allocate_strip[of "ts_height s - sm" "rev (ts_blocks s)"] al by (simp add: rev_map[symmetric])
  from core_cong[OF this] c have c': "core (rev rbs) (ts_committed s) (ts_scrollback s) (ts_evicted s)"
    by (simp only: sched_core_def)
  have "length (block_rows m e b) = bl_reserved b" if "b \<in> set (rev rbs)" for b e
  proof -
    from that obtain i where "i < length (rev rbs)" "b = rev rbs ! i" by (metis in_set_conv_nth)
    with coreD(5)[OF c', of i] show ?thesis by (intro block_rows_length) (simp add: block_ok_def)
  qed
  then have "map (length \<circ> block_rows m (ts_epoch s)) (rev rbs) = map bl_reserved (rev rbs)"
    by (intro map_cong) auto
  then have len: "length (concat (map (block_rows m (ts_epoch s)) (rev rbs))) = sum_list (map bl_reserved (rev rbs))"
    by (simp only: length_concat map_map)
  have "length (viewport_rows m s rem (rev rbs)) \<le> ts_height s"
    using len tot sm by (auto simp add: viewport_rows_def Let_def sm_def[symmetric])
  then show ?thesis using f by (simp add: refresh_viewport_def sm_def[symmetric] al)
qed

lemma refresh_ok:
  assumes "sched_core s" "\<not> ts_fail_stopped s" "\<forall>e n. ts_gate s \<noteq> FailedStop e n"
  shows "sched_ok (refresh_viewport m s)"
  using assms refresh_viewport_fits[OF assms(1,2)] by (simp add: sched_ok_def)

section \<open>The scrollback\<close>

lemma push_keeps [simp]:
  "ts_blocks (push_scrollback r s) = ts_blocks s" "ts_committed (push_scrollback r s) = ts_committed s"
  "ts_gate (push_scrollback r s) = ts_gate s" "ts_fail_stopped (push_scrollback r s) = ts_fail_stopped s"
  "ts_height (push_scrollback r s) = ts_height s" "ts_epoch (push_scrollback r s) = ts_epoch s"
  by (simp_all add: push_scrollback_def Let_def)

lemma fold_push_keeps [simp]:
  "ts_blocks (fold push_scrollback rs s) = ts_blocks s" "ts_committed (fold push_scrollback rs s) = ts_committed s"
  "ts_gate (fold push_scrollback rs s) = ts_gate s" "ts_fail_stopped (fold push_scrollback rs s) = ts_fail_stopped s"
  "ts_height (fold push_scrollback rs s) = ts_height s" "ts_epoch (fold push_scrollback rs s) = ts_epoch s"
  by (induction rs arbitrary: s) simp_all

lemma fold_push_scrollback:
  assumes "length (ts_scrollback s) \<le> MAX_SCROLLBACK_ROWS"
  shows "\<exists>x. ts_scrollback (fold push_scrollback rs s) = drop x (ts_scrollback s @ rs)
     \<and> ts_evicted (fold push_scrollback rs s) = ts_evicted s + x
     \<and> length (ts_scrollback (fold push_scrollback rs s)) \<le> MAX_SCROLLBACK_ROWS"
  using assms
proof (induction rs arbitrary: s)
  case Nil
  then show ?case by (intro exI[where x = 0]) simp
next
  case (Cons r rs)
  let ?s = "push_scrollback r s"
  let ?e = "length (ts_scrollback s @ [r]) - MAX_SCROLLBACK_ROWS"
  have s1: "ts_scrollback ?s = drop ?e (ts_scrollback s @ [r])" "ts_evicted ?s = ts_evicted s + ?e"
    by (simp_all add: push_scrollback_def Let_def)
  have "length (ts_scrollback ?s) \<le> MAX_SCROLLBACK_ROWS" using s1 by simp
  from Cons.IH[OF this] obtain x where x: "ts_scrollback (fold push_scrollback rs ?s) = drop x (ts_scrollback ?s @ rs)"
    "ts_evicted (fold push_scrollback rs ?s) = ts_evicted ?s + x"
    "length (ts_scrollback (fold push_scrollback rs ?s)) \<le> MAX_SCROLLBACK_ROWS" by blast
  have "drop ?e (ts_scrollback s @ [r]) @ rs = drop ?e ((ts_scrollback s @ [r]) @ rs)"
    by (simp del: append_assoc)
  then have "ts_scrollback ?s @ rs = drop ?e (ts_scrollback s @ r # rs)" unfolding s1 by simp
  then have dr: "drop x (ts_scrollback ?s @ rs) = drop (?e + x) (ts_scrollback s @ r # rs)"
    by (simp only: drop_drop add.commute)
  have fl: "fold push_scrollback (r # rs) s = fold push_scrollback rs ?s" by simp
  have "ts_evicted (fold push_scrollback rs ?s) = ts_evicted s + (?e + x)" using x(2) s1(2) by simp
  with trans[OF x(1) dr] x(3) show ?case unfolding fl by blast
qed

lemma shown_append [simp]: "shown (xs @ ys) = shown xs @ shown ys"
  by (simp add: shown_def)

lemma shown_drop: "suffix (shown (drop x xs)) (shown xs)"
  by (metis append_take_drop_id shown_append suffixI)

lemma shown_tagged [simp]: "shown (map (\<lambda>l. tagged m l src b e) ls) = ls"
  by (induction ls) (simp_all add: shown_def tagged_def)

text \<open>Rows of the lines by which the history grew keep the scrollback a suffix of it.\<close>

lemma core_push:
  assumes sb: "length (ts_scrollback s) \<le> MAX_SCROLLBACK_ROWS"
    and sf: "suffix (shown (ts_scrollback s)) h" "ts_evicted s = 0 \<Longrightarrow> shown (ts_scrollback s) = h"
  shows "length (ts_scrollback (fold push_scrollback rs s)) \<le> MAX_SCROLLBACK_ROWS"
    and "suffix (shown (ts_scrollback (fold push_scrollback rs s))) (h @ shown rs)"
    and "ts_evicted (fold push_scrollback rs s) = 0 \<Longrightarrow> shown (ts_scrollback (fold push_scrollback rs s)) = h @ shown rs"
proof -
  obtain x where x: "ts_scrollback (fold push_scrollback rs s) = drop x (ts_scrollback s @ rs)"
    "ts_evicted (fold push_scrollback rs s) = ts_evicted s + x"
    "length (ts_scrollback (fold push_scrollback rs s)) \<le> MAX_SCROLLBACK_ROWS"
    using fold_push_scrollback[OF sb] by blast
  show "length (ts_scrollback (fold push_scrollback rs s)) \<le> MAX_SCROLLBACK_ROWS" by (fact x(3))
  have "suffix (shown (ts_scrollback s @ rs)) (h @ shown rs)"
    using sf(1) by (simp add: suffix_def)
  with shown_drop[of x "ts_scrollback s @ rs"]
  show "suffix (shown (ts_scrollback (fold push_scrollback rs s))) (h @ shown rs)"
    unfolding x(1) by (rule suffix_order.trans)
  show "ts_evicted (fold push_scrollback rs s) = 0 \<Longrightarrow> shown (ts_scrollback (fold push_scrollback rs s)) = h @ shown rs"
    using x(1,2) sf(2) by simp
qed

section \<open>Changing one block\<close>

definition head_lines :: "transcript_block \<Rightarrow> string list" where
  "head_lines b = all_lines [] (Some b)"

lemma all_lines_split:
  "all_lines com (head_block bs f) = concat com @ (if f < length bs then head_lines (bs ! f) else [])"
  by (simp add: all_lines_def head_block_def head_lines_def)

lemma head_lines_none: "bl_emitted b = 0 \<Longrightarrow> head_lines b = []"
  by (simp add: head_lines_def all_lines_def split: block_mode.split)

lemma head_lines_stream: "on_screen b \<Longrightarrow> bl_mode b = AppendOnly \<Longrightarrow> bl_emitted b \<le> length (bl_snapshot b)
    \<Longrightarrow> head_lines b = take (bl_emitted b) (bl_snapshot b)"
  by (auto simp: head_lines_def all_lines_def on_screen_def)

lemma head_lines_cong:
  "bl_mode b' = bl_mode b \<Longrightarrow> bl_emitted b' = bl_emitted b \<Longrightarrow> bl_snapshot b' = bl_snapshot b
    \<Longrightarrow> on_screen b' = on_screen b \<Longrightarrow> head_lines b' = head_lines b"
  by (cases "bl_mode b") (auto simp: head_lines_def all_lines_def on_screen_def)

lemma map_update_same: "k < length xs \<Longrightarrow> f y = f (xs ! k) \<Longrightarrow> map f (xs[k := y]) = map f xs"
  by (metis list_update_id map_update)

lemma core_set:
  assumes c: "core bs com sb ev" and k: "length com \<le> k" "k < length bs"
    and b: "bl_id b = bl_id (bs ! k)" "block_ok (length com) k b"
    and h: "k = length com \<Longrightarrow> head_lines b = head_lines (bs ! k)"
  shows "core (bs[k := b]) com sb ev"
proof -
  note d = coreD[OF c]
  have "all_lines com (head_block (bs[k := b]) (length com)) = all_lines com (head_block bs (length com))"
    unfolding all_lines_split using h k by (cases "k = length com") auto
  moreover have "map bl_id (bs[k := b]) = map bl_id bs" by (rule map_update_same[OF k(2) b(1)])
  moreover have "block_ok (length com) i (bs[k := b] ! i)" if "i < length bs" for i
    using d(5)[OF that] b(2) k(2) by (cases "i = k") simp_all
  moreover have "take (length com) (bs[k := b]) = take (length com) bs" using k(1) by simp
  ultimately show ?thesis using c unfolding core_def by simp
qed

lemma find_block_InrD:
  assumes "find_block i s = Inr (k, b)"
  shows "k < length (ts_blocks s)" "b = ts_blocks s ! k" "bl_id b = i"
  using assms by (auto simp: find_block_def dest!: vec_position_Some split: option.splits)

lemma check_operational_Inr:
  "check_operational s = Inr u \<longleftrightarrow> \<not> ts_fail_stopped s \<and> ts_gate s = Idle"
  by (cases u) (auto simp: check_operational_def check_not_fail_stopped_def)

lemma operational_find:
  assumes "try_bind (check_operational s) (\<lambda>_. find_block i s) = Inr (k, b)" "sched_core s"
  shows "\<not> ts_fail_stopped s" "ts_gate s = Idle" "find_block i s = Inr (k, b)"
    "k < length (ts_blocks s)" "b = ts_blocks s ! k" "bl_id b = i"
    "block_ok (commit_frontier s) k b"
proof -
  obtain u where "check_operational s = Inr u" and f: "find_block i s = Inr (k, b)"
    using assms(1) by (auto simp: try_bind_Inr_iff)
  then show "\<not> ts_fail_stopped s" "ts_gate s = Idle" by (simp_all add: check_operational_Inr)
  show "find_block i s = Inr (k, b)" by (fact f)
  show k: "k < length (ts_blocks s)" "b = ts_blocks s ! k" "bl_id b = i" using find_block_InrD[OF f] by blast+
  show "block_ok (commit_frontier s) k b"
    using coreD(5)[OF assms(2)[unfolded sched_core_def] k(1)] k(2) by (simp add: commit_frontier_def)
qed

lemma find_block_same:
  assumes "find_block i s = Inr (k, b)" "bl_id b' = i"
  shows "find_block i (set_block k b' s) = Inr (k, b')"
proof -
  have p: "vec_position (\<lambda>b. bl_id b = i) (ts_blocks s) = Some k"
    using assms(1) by (auto simp: find_block_def split: option.splits)
  note v = vec_position_Some[OF p]
  have "vec_position P (xs[k := y]) = Some k" if "vec_position P xs = Some k" "P y" for P and xs :: "'x list" and y
    using that
  proof (induction xs arbitrary: k)
    case (Cons x xs)
    then show ?case by (cases k) (auto split: if_splits)
  qed simp
  from this[OF p, of b'] assms(2) v show ?thesis by (simp add: find_block_def set_block_def)
qed

lemma set_block_keeps [simp]:
  "ts_committed (set_block k b s) = ts_committed s" "ts_scrollback (set_block k b s) = ts_scrollback s"
  "ts_evicted (set_block k b s) = ts_evicted s" "ts_gate (set_block k b s) = ts_gate s"
  "ts_fail_stopped (set_block k b s) = ts_fail_stopped s" "ts_height (set_block k b s) = ts_height s"
  "ts_viewport (set_block k b s) = ts_viewport s" "ts_blocks (set_block k b s) = (ts_blocks s)[k := b]"
  "ts_epoch (set_block k b s) = ts_epoch s" "commit_frontier (set_block k b s) = commit_frontier s"
  by (simp_all add: set_block_def commit_frontier_def)

lemma set_block_twice: "set_block k b (set_block k b' s) = set_block k b s"
  by (simp add: set_block_def)

lemma push_set: "push_scrollback r (set_block k b s) = set_block k b (push_scrollback r s)"
  by (simp add: push_scrollback_def set_block_def Let_def)

lemma fold_push_set: "fold push_scrollback rs (set_block k b s) = set_block k b (fold push_scrollback rs s)"
  by (induction rs arbitrary: s) (simp_all add: push_set)

lemma set_block_core:
  assumes "sched_core s" "commit_frontier s \<le> k" "k < length (ts_blocks s)"
    "bl_id b = bl_id (ts_blocks s ! k)" "block_ok (commit_frontier s) k b"
    "k = commit_frontier s \<Longrightarrow> head_lines b = head_lines (ts_blocks s ! k)"
  shows "sched_core (set_block k b s)"
  using core_set[of "ts_blocks s" "ts_committed s" "ts_scrollback s" "ts_evicted s" k b] assms
  by (simp add: sched_core_def commit_frontier_def)

lemma live_index: "block_ok f k b \<Longrightarrow> bl_state b \<noteq> BCommitted \<Longrightarrow> f \<le> k"
  by (auto simp: block_ok_def)

section \<open>The operations keep the invariant\<close>

lemma new_scheduler_ok: "sched_ok (new_scheduler w h)"
  by (simp add: sched_ok_def sched_core_def core_def new_scheduler_def shown_def all_lines_def head_block_def
      MAX_SCROLLBACK_ROWS_def)

lemma admit_ok:
  assumes ok: "sched_ok s" and a: "admit_block s i mode owner = (s', r)"
  shows "sched_ok s'"
proof (cases r)
  case (Inl e)
  with a ok show ?thesis by (auto simp: admit_block_def split: sum.splits if_splits)
next
  case (Inr u)
  let ?n = "new_block i mode owner" and ?bs = "ts_blocks s" and ?f = "length (ts_committed s)"
  have g: "\<not> list_ex (\<lambda>b. bl_id b = i) ?bs" "length ?bs - ?f < 128"
    and s': "s' = s\<lparr>ts_blocks := ?bs @ [?n]\<rparr>"
    using a Inr by (auto simp: admit_block_def commit_frontier_def split: sum.splits if_splits)
  have c: "core ?bs (ts_committed s) (ts_scrollback s) (ts_evicted s)" using ok by (simp add: sched_ok_def sched_core_def)
  note d = coreD[OF c]
  have "distinct (map bl_id (?bs @ [?n]))" using d(1) g(1) by (auto simp: new_block_def list_ex_iff)
  moreover have "block_ok ?f k ((?bs @ [?n]) ! k)" if "k < length (?bs @ [?n])" for k
    using that d(2) d(5)[of k] by (cases "k < length ?bs") (auto simp: nth_append new_block_def block_ok_def)
  moreover have "all_lines (ts_committed s) (head_block (?bs @ [?n]) ?f) = all_lines (ts_committed s) (head_block ?bs ?f)"
    unfolding all_lines_split using d(2) head_lines_none[of ?n] by (auto simp: nth_append new_block_def)
  moreover have "take ?f (?bs @ [?n]) = take ?f ?bs" using d(2) by simp
  moreover have "length (?bs @ [?n]) - ?f \<le> 128" using g(2) by simp
  ultimately have "core (?bs @ [?n]) (ts_committed s) (ts_scrollback s) (ts_evicted s)"
    using d unfolding core_def by (intro conjI allI impI) simp_all
  then show ?thesis using ok by (simp add: s' sched_ok_def sched_core_def)
qed

lemma activate_ok:
  assumes ok: "sched_ok s" and a: "activate_block s i = (s', r)"
  shows "sched_ok s'"
proof (cases "try_bind (check_operational s) (\<lambda>_. find_block i s)")
  case (Inl e)
  with a ok show ?thesis by (simp add: activate_block_def)
next
  case (Inr kb)
  obtain k b where kb: "kb = (k, b)" by (cases kb) auto
  have c: "sched_core s" using ok by (simp add: sched_ok_def)
  note f = operational_find[OF Inr[unfolded kb] c]
  show ?thesis
  proof (cases "bl_state b = BQueued")
    case False
    with a Inr kb ok show ?thesis by (simp add: activate_block_def)
  next
    case True
    have z: "bl_emitted b = 0" using f(7) True by (auto simp: block_ok_def on_screen_def)
    have "sched_core (set_block k (b\<lparr>bl_state := BActive\<rparr>) s)"
      by (rule set_block_core[OF c live_index[OF f(7)] f(4)])
        (use f True z head_lines_none[of b] head_lines_none[of "b\<lparr>bl_state := BActive\<rparr>"] in
          \<open>auto simp: block_ok_def\<close>)
    then show ?thesis using a Inr kb ok True by (auto simp: activate_block_def sched_ok_def)
  qed
qed

lemma finalize_ok:
  assumes ok: "sched_ok s" and a: "finalize_block s i = (s', r)"
  shows "sched_ok s'"
proof (cases "try_bind (check_operational s) (\<lambda>_. find_block i s)")
  case (Inl e)
  with a ok show ?thesis by (simp add: finalize_block_def)
next
  case (Inr kb)
  obtain k b where kb: "kb = (k, b)" by (cases kb) auto
  have c: "sched_core s" using ok by (simp add: sched_ok_def)
  note f = operational_find[OF Inr[unfolded kb] c]
  show ?thesis
  proof (cases "bl_state b = BActive")
    case False
    with a Inr kb ok show ?thesis by (simp add: finalize_block_def)
  next
    case True
    have hl: "head_lines (b\<lparr>bl_state := BFinalized\<rparr>) = head_lines b"
      using True by (intro head_lines_cong) (simp_all add: on_screen_def)
    have "sched_core (set_block k (b\<lparr>bl_state := BFinalized\<rparr>) s)"
      by (rule set_block_core[OF c live_index[OF f(7)] f(4)])
        (use f True hl in \<open>auto simp: block_ok_def on_screen_def\<close>)
    then show ?thesis using a Inr kb ok True by (auto simp: finalize_block_def sched_ok_def)
  qed
qed

lemma prefix_lines_iff: "prefix_lines old new \<longleftrightarrow> (\<exists>x. new = old @ x)"
  by (induction old new rule: prefix_lines.induct) auto

lemma elastic_ok:
  assumes c: "sched_core s" and nf: "\<not> ts_fail_stopped s" "ts_gate s = Idle"
    and a: "apply_elastic_reservation m s i = (s', r)" and k: "find_block i s = Inr (k, b)"
    and live: "commit_frontier s \<le> k"
  shows "sched_ok s' \<and> r = Inr ()"
proof -
  note f = find_block_InrD[OF k]
  have bo: "block_ok (commit_frontier s) k b"
    using coreD(5)[OF c[unfolded sched_core_def] f(1)] f(2) by (simp add: commit_frontier_def)
  have upd: "sched_core (set_block k (b\<lparr>bl_reserved := x, bl_height := y\<rparr>) s)" for x y
    by (rule set_block_core[OF c live f(1)])
      (use f bo in \<open>auto simp: block_ok_def on_screen_def intro: head_lines_cong\<close>)
  obtain x y where "s' = refresh_viewport m (set_block k (b\<lparr>bl_reserved := x, bl_height := y\<rparr>) s)" "r = Inr ()"
    using a k by (auto simp: apply_elastic_reservation_def Let_def)
  with refresh_ok[OF upd[of y x], of m] nf show ?thesis by simp
qed

lemma update_ok:
  assumes ok: "sched_ok s" and a: "update_snapshot m s i new = (s', r)"
  shows "sched_ok s'"
proof (cases "try_bind (check_operational s) (\<lambda>_. find_block i s)")
  case (Inl e)
  with a ok show ?thesis by (simp add: update_snapshot_def)
next
  case (Inr kb)
  obtain k b where kb: "kb = (k, b)" by (cases kb) auto
  have c: "sched_core s" using ok by (simp add: sched_ok_def)
  note f = operational_find[OF Inr[unfolded kb] c]
  show ?thesis
  proof (cases "bl_state b = BFinalized \<or> bl_state b = BCommitted
      \<or> bl_mode b = AppendOnly \<and> \<not> prefix_lines (bl_snapshot b) new")
    case True
    with a Inr kb ok show ?thesis by (auto simp: update_snapshot_def split: if_splits)
  next
    case False
    let ?b = "b\<lparr>bl_snapshot := new\<rparr>"
    have live: "commit_frontier s \<le> k" using live_index[OF f(7)] False by blast
    have le: "bl_emitted b \<le> length new \<and> head_lines ?b = head_lines b"
    proof (cases "bl_emitted b = 0")
      case True
      then show ?thesis using head_lines_none[of b] head_lines_none[of ?b] by simp
    next
      case nz: False
      with f(7) have m: "bl_mode b = AppendOnly" "on_screen b" "bl_emitted b \<le> length (bl_snapshot b)"
        by (simp_all add: block_ok_def)
      with False obtain x where x: "new = bl_snapshot b @ x" by (auto simp: prefix_lines_iff)
      have "on_screen ?b" using m(2) by (simp add: on_screen_def)
      with head_lines_stream[of b] head_lines_stream[of ?b] m x show ?thesis by simp
    qed
    have c1: "sched_core (set_block k ?b s)"
      by (rule set_block_core[OF c live f(4)]) (use f le in \<open>auto simp: block_ok_def on_screen_def\<close>)
    have e: "apply_elastic_reservation m (set_block k ?b s) i = (s', r)"
      using a Inr kb False by (simp add: update_snapshot_def split: if_splits)
    have fb: "find_block i (set_block k ?b s) = Inr (k, ?b)"
      by (rule find_block_same[OF f(3)]) (use f(6) in simp)
    show ?thesis using elastic_ok[OF c1 _ _ e fb] f(1,2) live by simp
  qed
qed

end
