(* ===== verification/TranscriptOps.thy ===== *)
theory TranscriptOps
  imports TranscriptInv
begin

text \<open>
  Streaming, retiring, flushing, replaying and failing keep the scheduler's invariant; the step
  relation and the reachable schedulers.
\<close>

section \<open>Streaming and retiring\<close>

lemma core_scroll:
  assumes c: "core bs com sb ev" and bs': "distinct (map bl_id bs')" "length com' \<le> length bs'"
    "length bs' - length com' \<le> 128" "com' = map bl_snapshot (take (length com') bs')"
    "\<And>k. k < length bs' \<Longrightarrow> block_ok (length com') k (bs' ! k)"
    and sc: "length sb' \<le> MAX_SCROLLBACK_ROWS"
      "suffix (shown sb') (all_lines com' (head_block bs' (length com')))"
      "ev' = 0 \<Longrightarrow> shown sb' = all_lines com' (head_block bs' (length com'))"
  shows "core bs' com' sb' ev'"
  using assms unfolding core_def by blast

lemma stream_cases:
  assumes a: "stream_stable_prefix m s i n = (s', r)" and c: "sched_core s"
  obtains (refused) e where "s' = s" "r = Inl e"
  | (streamed) k b emitted rows where "k = commit_frontier s" "find_block i s = Inr (k, b)" "on_screen b"
      "bl_mode b = AppendOnly" "emitted = max (min n (length (bl_snapshot b))) (bl_emitted b)"
      "rows = map (\<lambda>l. tagged m l SrcAppend b (ts_epoch s))
                (drop (bl_emitted b) (take (min n (length (bl_snapshot b))) (bl_snapshot b)))"
      "s' = refresh_viewport m (set_block k (b\<lparr>bl_emitted := emitted,
              bl_height := min (bl_height b) (length (bl_snapshot b) - emitted)\<rparr>) (fold push_scrollback rows s))"
      "r = Inr emitted" "\<not> ts_fail_stopped s" "ts_gate s = Idle"
proof (cases "try_bind (check_operational s) (\<lambda>_. find_block i s)")
  case (Inl e)
  with a show thesis by (auto simp: stream_stable_prefix_def intro: refused)
next
  case (Inr kb)
  obtain k b where kb: "kb = (k, b)" by (cases kb) auto
  note f = operational_find[OF Inr[unfolded kb] c]
  show thesis
  proof (cases "k \<noteq> commit_frontier s \<or> \<not> on_screen b \<or> bl_mode b = Mutable")
    case True
    with a Inr kb show thesis
      by (auto simp: stream_stable_prefix_def on_screen_def intro: refused split: if_splits)
  next
    case False
    have mode: "bl_mode b = AppendOnly" using False by (cases "bl_mode b") auto
    define np where "np = min n (length (bl_snapshot b))"
    define rows where "rows = map (\<lambda>l. tagged m l SrcAppend b (ts_epoch s)) (drop (bl_emitted b) (take np (bl_snapshot b)))"
    let ?e = "max np (bl_emitted b)"
    have st: "s' = refresh_viewport m (set_block k (b\<lparr>bl_emitted := ?e,
              bl_height := min (bl_height b) (length (bl_snapshot b) - ?e)\<rparr>) (fold push_scrollback rows s))"
      "r = Inr ?e"
      using a Inr kb False mode
      by (auto simp: stream_stable_prefix_def on_screen_def Let_def np_def[symmetric] rows_def[symmetric] fold_push_set set_block_twice)
    have k: "k = commit_frontier s" "on_screen b" using False by simp_all
    show thesis
      by (rule streamed[OF k(1) f(3) k(2) mode _ _ st f(1,2)]) (simp_all add: np_def rows_def)
  qed
qed

lemma stream_ok:
  assumes ok: "sched_ok s" and a: "stream_stable_prefix m s i n = (s', r)"
  shows "sched_ok s'"
proof -
  have c: "sched_core s" using ok by (simp add: sched_ok_def)
  from a c show ?thesis
  proof (cases rule: stream_cases)
    case (refused e)
    with ok show ?thesis by simp
  next
    case (streamed k b emitted rows)
    let ?bs = "ts_blocks s" and ?f = "commit_frontier s" and ?s1 = "fold push_scrollback rows s"
    let ?b = "b\<lparr>bl_emitted := emitted, bl_height := min (bl_height b) (length (bl_snapshot b) - emitted)\<rparr>"
    note d = coreD[OF c[unfolded sched_core_def]]
    note f = find_block_InrD[OF streamed(2)]
    have f': "?f = length (ts_committed s)" by (simp add: commit_frontier_def)
    have bo: "block_ok ?f k b" using d(5)[OF f(1)] f(2) f' by simp
    have hl: "head_lines b = take (bl_emitted b) (bl_snapshot b)"
      using streamed bo by (intro head_lines_stream) (simp_all add: block_ok_def)
    have le: "emitted \<le> length (bl_snapshot b)" using bo streamed(5) by (simp add: block_ok_def)
    have hl': "head_lines ?b = take emitted (bl_snapshot b)"
      using head_lines_stream[of ?b] streamed(3,4) le by (simp add: on_screen_def)
    have grow: "take emitted (bl_snapshot b) = take (bl_emitted b) (bl_snapshot b) @ shown rows"
    proof -
      have "shown rows = drop (bl_emitted b) (take (min n (length (bl_snapshot b))) (bl_snapshot b))"
        by (simp add: streamed(6))
      also have "\<dots> = drop (bl_emitted b) (take emitted (bl_snapshot b))"
        by (simp add: streamed(5) drop_take max_def)
      finally show ?thesis using streamed(5)
        by (metis append_take_drop_id max.cobounded2 min.absorb1 take_take)
    qed
    have hist: "all_lines (ts_committed s) (head_block (?bs[k := ?b]) ?f)
        = all_lines (ts_committed s) (head_block ?bs ?f) @ shown rows"
      unfolding all_lines_split using f streamed(1) hl hl' grow by simp
    have p: "length (ts_scrollback ?s1) \<le> MAX_SCROLLBACK_ROWS"
      "suffix (shown (ts_scrollback ?s1)) (all_lines (ts_committed s) (head_block ?bs ?f) @ shown rows)"
      "ts_evicted ?s1 = 0 \<Longrightarrow> shown (ts_scrollback ?s1) = all_lines (ts_committed s) (head_block ?bs ?f) @ shown rows"
      using core_push[OF d(6), of "all_lines (ts_committed s) (head_block ?bs ?f)" rows] d(7,8) f' by auto
    have "map bl_id (?bs[k := ?b]) = map bl_id ?bs" by (rule map_update_same[OF f(1)]) (simp add: f(2))
    moreover have "take ?f (?bs[k := ?b]) = take ?f ?bs" by (simp add: streamed(1))
    moreover have "block_ok ?f j (?bs[k := ?b] ! j)" if "j < length ?bs" for j
    proof (cases "j = k")
      case True
      with bo streamed le f show ?thesis by (simp add: block_ok_def on_screen_def)
    next
      case False
      with d(5)[OF that] f' show ?thesis by simp
    qed
    ultimately have "core (?bs[k := ?b]) (ts_committed s) (ts_scrollback ?s1) (ts_evicted ?s1)"
      using d p hist f' by (intro core_scroll[OF c[unfolded sched_core_def]]) simp_all
    then have "sched_core (set_block k ?b ?s1)" by (simp add: sched_core_def)
    then show ?thesis
      unfolding streamed(7) by (rule refresh_ok) (use streamed(9,10) in simp_all)
  qed
qed

lemma retire_cases:
  assumes a: "retire_block m s i = (s', r)" and c: "sched_core s"
  obtains (refused) e where "s' = s" "r = Inl e"
  | (retired) k b rows where "k = commit_frontier s" "find_block i s = Inr (k, b)" "bl_state b = BFinalized"
      "rows = map (\<lambda>l. tagged m l SrcRetire b (ts_epoch s)) (drop (bl_emitted b) (bl_snapshot b))"
      "s' = refresh_viewport m (set_block k (b\<lparr>bl_state := BCommitted, bl_emitted := 0\<rparr>)
              ((fold push_scrollback rows s)\<lparr>ts_committed := ts_committed s @ [bl_snapshot b]\<rparr>))"
      "r = Inr ()" "\<not> ts_fail_stopped s" "ts_gate s = Idle"
proof (cases "try_bind (check_operational s) (\<lambda>_. find_block i s)")
  case (Inl e)
  with a show thesis by (auto simp: retire_block_def intro: refused)
next
  case (Inr kb)
  obtain k b where kb: "kb = (k, b)" by (cases kb) auto
  note f = operational_find[OF Inr[unfolded kb] c]
  show thesis
  proof (cases "k \<noteq> commit_frontier s \<or> bl_state b \<noteq> BFinalized")
    case True
    with a Inr kb show thesis by (auto simp: retire_block_def intro: refused split: if_splits)
  next
    case False
    with a Inr kb have "s' = refresh_viewport m (set_block k (b\<lparr>bl_state := BCommitted, bl_emitted := 0\<rparr>)
              ((fold push_scrollback (map (\<lambda>l. tagged m l SrcRetire b (ts_epoch s)) (drop (bl_emitted b) (bl_snapshot b))) s)
                \<lparr>ts_committed := ts_committed s @ [bl_snapshot b]\<rparr>))" "r = Inr ()"
      by (auto simp: retire_block_def Let_def)
    with retired[OF _ f(3) _ refl] False f show thesis by simp
  qed
qed

lemma retire_ok:
  assumes ok: "sched_ok s" and a: "retire_block m s i = (s', r)"
  shows "sched_ok s'"
proof -
  have c: "sched_core s" using ok by (simp add: sched_ok_def)
  from a c show ?thesis
  proof (cases rule: retire_cases)
    case (refused e)
    with ok show ?thesis by simp
  next
    case (retired k b rows)
    let ?bs = "ts_blocks s" and ?f = "commit_frontier s" and ?s1 = "fold push_scrollback rows s"
    let ?b = "b\<lparr>bl_state := BCommitted, bl_emitted := 0\<rparr>" and ?com = "ts_committed s @ [bl_snapshot b]"
    note d = coreD[OF c[unfolded sched_core_def]]
    note f = find_block_InrD[OF retired(2)]
    have f': "length (ts_committed s) = ?f" by (simp add: commit_frontier_def)
    have bo: "block_ok ?f k b" using d(5)[OF f(1)] f(2) f' by simp
    have hl: "head_lines b = take (bl_emitted b) (bl_snapshot b)"
    proof (cases "bl_emitted b = 0")
      case True
      then show ?thesis using head_lines_none[of b] by simp
    next
      case False
      with bo show ?thesis by (intro head_lines_stream) (simp_all add: block_ok_def)
    qed
    have ok': "block_ok (Suc ?f) j (?bs[k := ?b] ! j)" if "j < length ?bs" for j
    proof (cases "j = k")
      case True
      with f retired(1) show ?thesis by (simp add: block_ok_def)
    next
      case False
      with d(5)[OF that] f' retired(1) show ?thesis by (auto simp: block_ok_def)
    qed
    have next_head: "(if Suc ?f < length (?bs[k := ?b]) then head_lines (?bs[k := ?b] ! Suc ?f) else []) = []"
    proof -
      have "bl_emitted (?bs ! Suc ?f) = 0" if "Suc ?f < length ?bs"
        using d(5)[OF that] f' by (auto simp: block_ok_def)
      then show ?thesis using head_lines_none[of "?bs ! Suc ?f"] retired(1) by simp
    qed
    have sr: "shown rows = drop (bl_emitted b) (bl_snapshot b)" by (simp add: retired(4))
    have hist: "all_lines ?com (head_block (?bs[k := ?b]) (Suc ?f))
        = all_lines (ts_committed s) (head_block ?bs ?f) @ shown rows"
      unfolding all_lines_split next_head sr using f retired(1) hl by simp
    have p: "length (ts_scrollback ?s1) \<le> MAX_SCROLLBACK_ROWS"
      "suffix (shown (ts_scrollback ?s1)) (all_lines (ts_committed s) (head_block ?bs ?f) @ shown rows)"
      "ts_evicted ?s1 = 0 \<Longrightarrow> shown (ts_scrollback ?s1) = all_lines (ts_committed s) (head_block ?bs ?f) @ shown rows"
      using core_push[OF d(6), of "all_lines (ts_committed s) (head_block ?bs ?f)" rows] d(7,8) f' by auto
    have "map bl_id (?bs[k := ?b]) = map bl_id ?bs" by (rule map_update_same[OF f(1)]) (simp add: f(2))
    moreover have "?com = map bl_snapshot (take (length ?com) (?bs[k := ?b]))"
    proof -
      have "take (Suc ?f) (?bs[k := ?b]) = take ?f ?bs @ [?b]"
        using f(1) retired(1) by (simp add: take_Suc_conv_app_nth)
      then show ?thesis using d(4) f' by simp
    qed
    ultimately have "core (?bs[k := ?b]) ?com (ts_scrollback ?s1) (ts_evicted ?s1)"
      using d p hist f' f(1) retired(1) ok' by (intro core_scroll[OF c[unfolded sched_core_def]]) simp_all
    then have "sched_core (set_block k ?b (?s1\<lparr>ts_committed := ?com\<rparr>))" by (simp add: sched_core_def)
    then show ?thesis
      unfolding retired(5) by (rule refresh_ok) (use retired(7,8) in simp_all)
  qed
qed

section \<open>Flushing\<close>

lemma refresh_nth_strip: "k < length (ts_blocks s) \<Longrightarrow> strip (ts_blocks (refresh_viewport m s) ! k) = strip (ts_blocks s ! k)"
  by (metis nth_map refresh_length refresh_strip)

text \<open>Retiring the finalised block at the frontier always succeeds and moves the frontier by one.\<close>

lemma retire_head:
  assumes ok: "sched_ok s" and f: "\<not> ts_fail_stopped s" "ts_gate s = Idle"
    and h: "commit_frontier s < length (ts_blocks s)" "bl_state (ts_blocks s ! commit_frontier s) = BFinalized"
  shows "\<exists>s'. retire_block m s (bl_id (ts_blocks s ! commit_frontier s)) = (s', Inr ())
     \<and> commit_frontier s' = Suc (commit_frontier s) \<and> length (ts_blocks s') = length (ts_blocks s)
     \<and> \<not> ts_fail_stopped s' \<and> ts_gate s' = Idle
     \<and> (\<forall>k. commit_frontier s < k \<longrightarrow> k < length (ts_blocks s) \<longrightarrow> strip (ts_blocks s' ! k) = strip (ts_blocks s ! k))
     \<and> ts_committed s' = ts_committed s @ [bl_snapshot (ts_blocks s ! commit_frontier s)]"
proof -
  let ?k = "commit_frontier s"
  let ?b = "ts_blocks s ! ?k"
  have d: "distinct (map bl_id (ts_blocks s))" using ok by (auto simp: sched_ok_def sched_core_def core_def)
  have vp: "vec_position (\<lambda>b. bl_id b = bl_id ?b) (ts_blocks s) = Some ?k"
  proof -
    obtain j where j: "vec_position (\<lambda>b. bl_id b = bl_id ?b) (ts_blocks s) = Some j"
      using vec_position_ex[of ?b "ts_blocks s" "\<lambda>b. bl_id b = bl_id ?b"] h(1) by auto
    note v = vec_position_Some[OF j]
    then have "j = ?k" using nth_eq_iff_index_eq[OF d, of j ?k] h(1) by simp
    with j show ?thesis by simp
  qed
  let ?s1 = "(fold push_scrollback (map (\<lambda>l. tagged m l SrcRetire ?b (ts_epoch s)) (drop (bl_emitted ?b) (bl_snapshot ?b))) s)
                \<lparr>ts_committed := ts_committed s @ [bl_snapshot ?b]\<rparr>"
  let ?s2 = "set_block ?k (?b\<lparr>bl_state := BCommitted, bl_emitted := 0\<rparr>) ?s1"
  have r: "retire_block m s (bl_id ?b) = (refresh_viewport m ?s2, Inr ())"
    using f h vp by (simp add: retire_block_def find_block_def check_operational_def check_not_fail_stopped_def Let_def)
  have "strip (ts_blocks (refresh_viewport m ?s2) ! k) = strip (ts_blocks s ! k)"
    if "commit_frontier s < k" "k < length (ts_blocks s)" for k
    using refresh_nth_strip[of k ?s2 m] that by simp
  moreover have "commit_frontier (refresh_viewport m ?s2) = Suc ?k"
    by (simp add: commit_frontier_def)
  ultimately show ?thesis using r f by auto
qed

lemma flush_loop_ends:
  assumes "sched_ok s" "\<not> ts_fail_stopped s" "ts_gate s = Idle" "length (ts_blocks s) - commit_frontier s < n"
  shows "\<exists>s'. flush_loop n m s = Some (s', Inr ()) \<and> sched_ok s'
     \<and> commit_frontier s \<le> commit_frontier s' \<and> length (ts_blocks s') = length (ts_blocks s)
     \<and> (\<forall>k. commit_frontier s \<le> k \<longrightarrow> k < commit_frontier s' \<longrightarrow> bl_state (ts_blocks s ! k) = BFinalized)
     \<and> (commit_frontier s' < length (ts_blocks s) \<longrightarrow> bl_state (ts_blocks s ! commit_frontier s') \<noteq> BFinalized)
     \<and> ts_committed s' = ts_committed s @ map bl_snapshot (drop (commit_frontier s) (take (commit_frontier s') (ts_blocks s)))"
  using assms
proof (induction n arbitrary: s)
  case 0
  then show ?case by simp
next
  case (Suc n)
  let ?f = "commit_frontier s"
  show ?case
  proof (cases "?f < length (ts_blocks s) \<and> bl_state (ts_blocks s ! ?f) = BFinalized")
    case False
    then have "flush_loop (Suc n) m s = Some (s, Inr ())" by auto
    with False Suc.prems(1) show ?thesis by (intro exI[where x = s]) auto
  next
    case True
    obtain s1 where s1: "retire_block m s (bl_id (ts_blocks s ! ?f)) = (s1, Inr ())"
      "commit_frontier s1 = Suc ?f" "length (ts_blocks s1) = length (ts_blocks s)"
      "\<not> ts_fail_stopped s1" "ts_gate s1 = Idle"
      "\<And>k. ?f < k \<Longrightarrow> k < length (ts_blocks s) \<Longrightarrow> strip (ts_blocks s1 ! k) = strip (ts_blocks s ! k)"
      "ts_committed s1 = ts_committed s @ [bl_snapshot (ts_blocks s ! ?f)]"
      using retire_head[OF Suc.prems(1-3), of m] True by blast
    have st: "bl_state (ts_blocks s1 ! k) = bl_state (ts_blocks s ! k)"
      "bl_snapshot (ts_blocks s1 ! k) = bl_snapshot (ts_blocks s ! k)" if "?f < k" "k < length (ts_blocks s)" for k
      using s1(6)[OF that] strip_fields(3,4) by metis+
    obtain s' where s': "flush_loop n m s1 = Some (s', Inr ())" "sched_ok s'"
      "Suc ?f \<le> commit_frontier s'" "length (ts_blocks s') = length (ts_blocks s)"
      "\<forall>k. Suc ?f \<le> k \<longrightarrow> k < commit_frontier s' \<longrightarrow> bl_state (ts_blocks s1 ! k) = BFinalized"
      "commit_frontier s' < length (ts_blocks s) \<longrightarrow> bl_state (ts_blocks s1 ! commit_frontier s') \<noteq> BFinalized"
      "ts_committed s' = ts_committed s1 @ map bl_snapshot (drop (Suc ?f) (take (commit_frontier s') (ts_blocks s1)))"
    proof -
      have "length (ts_blocks s1) - commit_frontier s1 < n" using Suc.prems(4) s1(2,3) True by linarith
      from Suc.IH[OF retire_ok[OF Suc.prems(1) s1(1)] s1(4,5) this, unfolded s1(2,3)] show ?thesis
        using that by blast
    qed
    have le: "commit_frontier s' \<le> length (ts_blocks s)"
      using s'(2,4) by (auto simp: sched_ok_def sched_core_def core_def commit_frontier_def)
    have fin: "bl_state (ts_blocks s ! k) = BFinalized" if "?f \<le> k" "k < commit_frontier s'" for k
      using that s'(5) st(1)[of k] True le by (cases "k = ?f") auto
    have sn: "map bl_snapshot (drop (Suc ?f) (take (commit_frontier s') (ts_blocks s1)))
        = map bl_snapshot (drop (Suc ?f) (take (commit_frontier s') (ts_blocks s)))"
      by (rule nth_equalityI) (use s1(3) st(2) s'(3) le in auto)
    have "drop ?f (take (commit_frontier s') (ts_blocks s))
        = ts_blocks s ! ?f # drop (Suc ?f) (take (commit_frontier s') (ts_blocks s))"
      using Cons_nth_drop_Suc[of ?f "take (commit_frontier s') (ts_blocks s)"] s'(3) True by simp
    with s'(7) s1(7) sn have com: "ts_committed s' = ts_committed s
        @ map bl_snapshot (drop ?f (take (commit_frontier s') (ts_blocks s)))" by simp
    have "flush_loop (Suc n) m s = Some (s', Inr ())" using True s1(1) s'(1) by simp
    moreover have "commit_frontier s' < length (ts_blocks s) \<longrightarrow> bl_state (ts_blocks s ! commit_frontier s') \<noteq> BFinalized"
      using s'(3,6) st(1)[of "commit_frontier s'"] by auto
    ultimately show ?thesis using s' fin com by (intro exI[where x = s']) auto
  qed
qed

section \<open>Replay, resize and failure\<close>

lemma prepare_ok: "sched_ok s \<Longrightarrow> prepare_rebuild_replay s w h = (s', r) \<Longrightarrow> sched_ok s'"
  by (auto simp: prepare_rebuild_replay_def sched_ok_def sched_core_def check_operational_Inr split: sum.splits)

text \<open>A rebuild replays exactly the logical history.\<close>

lemma shown_concat: "shown (concat xss) = concat (map shown xss)"
  by (induction xss) (simp_all add: shown_def)

lemma replayed_lines:
  assumes c: "core bs com sb ev"
  shows "concat (map (replay_lines (length com)) (enumerate 0 bs)) = all_lines com (head_block bs (length com))"
proof -
  note d = coreD[OF c]
  let ?f = "length com"
  have zip: "enumerate 0 bs = map (\<lambda>k. (k, bs ! k)) [0..<length bs]"
    by (rule nth_equalityI) (simp_all add: nth_enumerate_eq)
  have split: "[0..<length bs] = [0..<?f] @ [?f..<length bs]"
    using d(2) by (metis le0 upt_add_eq_append le_add_diff_inverse plus_nat.add_0)
  have A: "map (replay_lines ?f \<circ> (\<lambda>k. (k, bs ! k))) [0..<?f] = com"
    by (subst (2) d(4), rule nth_equalityI) (use d(2) in \<open>auto simp: replay_lines_def\<close>)
  have B: "concat (map (replay_lines ?f \<circ> (\<lambda>k. (k, bs ! k))) [?f..<length bs])
      = (if ?f < length bs then head_lines (bs ! ?f) else [])"
  proof (cases "?f < length bs")
    case False
    then show ?thesis by simp
  next
    case True
    have "concat (map (replay_lines ?f \<circ> (\<lambda>k. (k, bs ! k))) [Suc ?f..<length bs]) = []"
      by (auto simp: replay_lines_def)
    moreover have "replay_lines ?f (?f, bs ! ?f) = head_lines (bs ! ?f)"
      by (cases "bl_mode (bs ! ?f)") (auto simp: replay_lines_def head_lines_def all_lines_def on_screen_def)
    ultimately show ?thesis using True by (simp add: upt_conv_Cons)
  qed
  show ?thesis unfolding all_lines_split zip map_map split map_append concat_append A B ..
qed

lemma execute_ok:
  assumes ok: "sched_ok s" and a: "execute_rebuild_replay m s = (s', r)"
  shows "sched_ok s'"
proof (cases "\<not> ts_fail_stopped s \<and> (\<exists>e w h. ts_gate s = PreparingReplay e w h)")
  case False
  with a ok show ?thesis
    by (auto simp: execute_rebuild_replay_def check_not_fail_stopped_def split: replay_gate.splits if_splits)
next
  case True
  then obtain e w h where g: "\<not> ts_fail_stopped s" "ts_gate s = PreparingReplay e w h" by blast
  have c: "core (ts_blocks s) (ts_committed s) (ts_scrollback s) (ts_evicted s)"
    using ok by (simp add: sched_ok_def sched_core_def)
  define rows where "rows = concat (map
      (\<lambda>ib. map (\<lambda>l. tagged m l SrcReplay (snd ib) e) (replay_lines (commit_frontier s) ib)) (enumerate 0 (ts_blocks s)))"
  have sh: "shown rows = all_lines (ts_committed s) (head_block (ts_blocks s) (length (ts_committed s)))"
    using replayed_lines[OF c] by (simp add: rows_def shown_concat o_def commit_frontier_def)
  let ?ev = "length rows - MAX_SCROLLBACK_ROWS"
  let ?s1 = "s\<lparr>ts_epoch := e, ts_width := w, ts_height := h, ts_viewport := [],
      ts_scrollback := drop ?ev rows, ts_evicted := ts_evicted s + ?ev, ts_gate := ReplayWriting e\<rparr>"
  have s': "s' = (refresh_viewport m ?s1)\<lparr>ts_gate := Idle\<rparr>"
    using a g by (simp add: execute_rebuild_replay_def check_not_fail_stopped_def Let_def rows_def[symmetric])
  have "suffix (shown (drop ?ev rows)) (shown rows)" by (rule shown_drop)
  then have "core (ts_blocks s) (ts_committed s) (drop ?ev rows) (ts_evicted s + ?ev)"
    using coreD[OF c] sh by (intro core_scroll[OF c]) simp_all
  then have "sched_core ?s1" by (simp add: sched_core_def)
  then have "sched_ok (refresh_viewport m ?s1)" by (rule refresh_ok) (use g in simp_all)
  then show ?thesis using g unfolding s' sched_ok_def sched_core_def by simp
qed

lemma resize_ok:
  assumes ok: "sched_ok s" and a: "resize m s w h policy = (s', r)"
  shows "sched_ok s'"
proof (cases "\<not> ts_fail_stopped s \<and> ts_gate s = Idle")
  case False
  then have "check_operational s \<noteq> Inr ()" by (simp add: check_operational_Inr)
  with a ok show ?thesis by (auto simp: resize_def split: sum.splits)
next
  case True
  have c: "core (ts_blocks s) (ts_committed s) (ts_scrollback s) (ts_evicted s)"
    using ok by (simp add: sched_ok_def sched_core_def)
  have g: "check_operational s = Inr ()" using True by (simp add: check_operational_Inr)
  show ?thesis
  proof (cases policy)
    case Preserve
    have "sched_core (s\<lparr>ts_width := w, ts_height := h\<rparr>)" using c by (simp add: sched_core_def)
    then have "sched_ok (refresh_viewport m (s\<lparr>ts_width := w, ts_height := h\<rparr>))"
      by (rule refresh_ok) (use True in simp_all)
    with a g Preserve show ?thesis by (simp add: resize_def)
  next
    case ResizeAppend
    let ?row = "summary_row m (''--- resize to '' @ show_nat w @ ''x'' @ show_nat h @ '' ---'') (ts_epoch s)"
    let ?s1 = "fold push_scrollback [?row] s"
    have "shown [?row] = []" by (simp add: shown_def summary_row_def)
    then have "core (ts_blocks s) (ts_committed s) (ts_scrollback ?s1) (ts_evicted ?s1)"
      using coreD[OF c] core_push[of s "all_lines (ts_committed s) (head_block (ts_blocks s) (length (ts_committed s)))" "[?row]"]
      by (intro core_scroll[OF c]) simp_all
    then have "sched_core (?s1\<lparr>ts_width := w, ts_height := h\<rparr>)" by (simp add: sched_core_def)
    then have "sched_ok (refresh_viewport m (?s1\<lparr>ts_width := w, ts_height := h\<rparr>))"
      by (rule refresh_ok) (use True in simp_all)
    with a g ResizeAppend show ?thesis by (simp add: resize_def Let_def)
  next
    case Rebuild
    obtain s1 r1 where p: "prepare_rebuild_replay s w h = (s1, r1)" by (cases "prepare_rebuild_replay s w h") auto
    have "sched_ok s1" by (rule prepare_ok[OF ok p])
    with a g Rebuild p execute_ok[of s1 m] show ?thesis
      by (cases r1) (auto simp: resize_def)
  qed
qed

lemma failure_ok: "sched_ok s \<Longrightarrow> sched_ok (handle_write_failure s e n)"
  by (simp add: handle_write_failure_def sched_ok_def sched_core_def Let_def)

lemma flush_ok:
  assumes ok: "sched_ok s" and a: "flush m s = Some (s', r)"
  shows "sched_ok s'"
proof (cases "check_operational s")
  case (Inl e)
  with a ok show ?thesis by (simp add: flush_def)
next
  case (Inr u)
  then have "\<not> ts_fail_stopped s" "ts_gate s = Idle" by (simp_all add: check_operational_Inr)
  from flush_loop_ends[OF ok this, of "Suc (length (ts_blocks s) - commit_frontier s)" m] a Inr show ?thesis
    by (auto simp: flush_def)
qed

section \<open>Reachable schedulers\<close>

inductive sched_step :: "text_metrics \<Rightarrow> transcript_scheduler \<Rightarrow> transcript_scheduler \<Rightarrow> bool" for m where
  admit: "admit_block s i mode owner = (s', r) \<Longrightarrow> sched_step m s s'"
| activate: "activate_block s i = (s', r) \<Longrightarrow> sched_step m s s'"
| update: "update_snapshot m s i ls = (s', r) \<Longrightarrow> sched_step m s s'"
| stream: "stream_stable_prefix m s i n = (s', q) \<Longrightarrow> sched_step m s s'"
| finalize: "finalize_block s i = (s', r) \<Longrightarrow> sched_step m s s'"
| retire: "retire_block m s i = (s', r) \<Longrightarrow> sched_step m s s'"
| flush: "flush m s = Some (s', r) \<Longrightarrow> sched_step m s s'"
| prepare: "prepare_rebuild_replay s w h = (s', r) \<Longrightarrow> sched_step m s s'"
| execute: "execute_rebuild_replay m s = (s', r) \<Longrightarrow> sched_step m s s'"
| resize: "resize m s w h policy = (s', r) \<Longrightarrow> sched_step m s s'"
| failure: "sched_step m s (handle_write_failure s e n)"

inductive sched_reachable :: "text_metrics \<Rightarrow> transcript_scheduler \<Rightarrow> bool" for m where
  start: "sched_reachable m (new_scheduler w h)"
| step: "sched_reachable m s \<Longrightarrow> sched_step m s s' \<Longrightarrow> sched_reachable m s'"

inductive_cases sched_stepE: "sched_step m s s'"

lemma sched_step_ok: "sched_step m s s' \<Longrightarrow> sched_ok s \<Longrightarrow> sched_ok s'"
  by (induction rule: sched_step.induct)
    (auto intro: admit_ok activate_ok update_ok stream_ok finalize_ok retire_ok flush_ok prepare_ok
      execute_ok resize_ok failure_ok)

lemma sched_reachable_ok: "sched_reachable m s \<Longrightarrow> sched_ok s"
  by (induction rule: sched_reachable.induct) (auto intro: new_scheduler_ok sched_step_ok)

end
