(* ===== verification/TranscriptClaims.thy ===== *)
theory TranscriptClaims
  imports TranscriptOps
begin

text \<open>
  The properties of the transcript scheduler (\<open>omp-render/src/transcript.rs\<close>), with instances on
  a scheduler that has one streamed block.
\<close>

section \<open>A sample transcript\<close>

definition sample_metrics :: text_metrics where
  "sample_metrics = \<lparr>vis_width = length, fit_width = take\<rparr>"

definition sample_sched :: transcript_scheduler where
  "sample_sched =
     (let m = sample_metrics;
          s1 = fst (admit_block (new_scheduler 80 4) ''a'' AppendOnly ''agent'');
          s2 = fst (activate_block s1 ''a'');
          s3 = fst (update_snapshot m s2 ''a'' [''x'', ''y'', ''z''])
      in fst (stream_stable_prefix m s3 ''a'' 2))"

lemmas step_from = sched_reachable.step[OF _ sched_step.admit[OF prod.collapse[symmetric]]]
  sched_reachable.step[OF _ sched_step.activate[OF prod.collapse[symmetric]]]
  sched_reachable.step[OF _ sched_step.update[OF prod.collapse[symmetric]]]
  sched_reachable.step[OF _ sched_step.stream[OF prod.collapse[symmetric]]]

lemma sample_sched_reachable: "sched_reachable sample_metrics sample_sched"
  unfolding sample_sched_def Let_def by (intro sched_reachable.start step_from)

lemma sample_sched_rows: "map row_text (ts_scrollback sample_sched) = [''x'', ''y'']"
  "ts_evicted sample_sched = 0" "filter (\<lambda>r. \<not> row_summary r) (ts_scrollback sample_sched) = ts_scrollback sample_sched"
  "ts_height sample_sched = 4" "check_operational sample_sched = Inr ()"
  "bl_state (the (head_block (ts_blocks sample_sched) (commit_frontier sample_sched))) = BActive"
  by code_simp+

section \<open>Properties\<close>

text \<open>
  C11: The scrollback shows the logical history and nothing else.  In every reachable scheduler
  the ledger holds the snapshots of the blocks before the commit frontier in order, and the rows
  of the scrollback (apart from the resize markers) are a suffix of the committed lines followed
  by what the block at the frontier has streamed: every line once, in order, the whole history
  as long as nothing was evicted.
\<close>

theorem scrollback_matches_history:
  assumes "sched_reachable m s"
  shows "suffix (shown (ts_scrollback s)) (all_lines (ts_committed s) (head_block (ts_blocks s) (commit_frontier s)))
     \<and> (if ts_evicted s = 0
        then shown (ts_scrollback s) = all_lines (ts_committed s) (head_block (ts_blocks s) (commit_frontier s))
        else True)
     \<and> ts_committed s = map bl_snapshot (take (commit_frontier s) (ts_blocks s))
     \<and> list_all (\<lambda>b. bl_state b = BCommitted) (take (commit_frontier s) (ts_blocks s))
     \<and> list_all (\<lambda>b. bl_state b \<noteq> BCommitted) (drop (commit_frontier s) (ts_blocks s))"
proof -
  have c: "core (ts_blocks s) (ts_committed s) (ts_scrollback s) (ts_evicted s)"
    using sched_reachable_ok[OF assms] by (simp add: sched_ok_def sched_core_def)
  note d = coreD[OF c]
  have "list_all (\<lambda>b. bl_state b = BCommitted) (take (commit_frontier s) (ts_blocks s))"
    using d(5) by (auto simp: list_all_length commit_frontier_def block_ok_def)
  moreover have "list_all (\<lambda>b. bl_state b \<noteq> BCommitted) (drop (commit_frontier s) (ts_blocks s))"
    unfolding list_all_length
  proof (intro allI impI)
    fix n
    assume n: "n < length (drop (commit_frontier s) (ts_blocks s))"
    then have "block_ok (commit_frontier s) (commit_frontier s + n) (ts_blocks s ! (commit_frontier s + n))"
      using d(5)[of "commit_frontier s + n"] by (simp add: commit_frontier_def)
    with n show "bl_state (drop (commit_frontier s) (ts_blocks s) ! n) \<noteq> BCommitted"
      by (simp add: block_ok_def)
  qed
  ultimately show ?thesis using d by (simp add: commit_frontier_def)
qed

theorem scrollback_matches_history_witness:
  "all_lines (ts_committed sample_sched) (head_block (ts_blocks sample_sched) (commit_frontier sample_sched))
     = [''x'', ''y'']"
proof -
  have "shown (ts_scrollback sample_sched) = [''x'', ''y'']"
    by (simp only: shown_def sample_sched_rows(1,3))
  with scrollback_matches_history[OF sample_sched_reachable] sample_sched_rows(2) show ?thesis by simp
qed

text \<open>
  C12: The transcript stays within its bounds.  The viewport never has more rows than the screen,
  the scrollback never more than 10,000 rows, at most 128 blocks are live, and no block has
  streamed more lines than its snapshot has, so the slices the code takes are in range.
\<close>

theorem transcript_bounds:
  assumes "sched_reachable m s"
  shows "length (ts_viewport s) \<le> ts_height s \<and> length (ts_scrollback s) \<le> 10000
     \<and> commit_frontier s \<le> length (ts_blocks s) \<and> length (ts_blocks s) - commit_frontier s \<le> 128
     \<and> list_all (\<lambda>b. bl_emitted b \<le> length (bl_snapshot b)) (ts_blocks s)"
proof -
  have ok: "sched_ok s" using sched_reachable_ok[OF assms] .
  then have c: "core (ts_blocks s) (ts_committed s) (ts_scrollback s) (ts_evicted s)"
    by (simp add: sched_ok_def sched_core_def)
  have "list_all (\<lambda>b. bl_emitted b \<le> length (bl_snapshot b)) (ts_blocks s)"
    using coreD(5)[OF c] by (simp add: list_all_length block_ok_def)
  with ok coreD(2,3,6)[OF c] show ?thesis
    by (simp add: sched_ok_def commit_frontier_def MAX_SCROLLBACK_ROWS_def)
qed

theorem transcript_bounds_witness:
  "length (ts_viewport sample_sched) \<le> 4"
  using transcript_bounds[OF sample_sched_reachable] sample_sched_rows(4) by simp

text \<open>
  Blocks retire in admission order and exactly once.  Retiring succeeds only for the block at
  the commit frontier and only when it is finalised; it then appends that block's whole snapshot
  to the ledger and moves the frontier by one.  Otherwise it reports an error and changes
  nothing.
\<close>

theorem retire_in_order:
  assumes "sched_reachable m s" "retire_block m s i = (s', r)"
  shows "(\<exists>b. r = Inr () \<and> head_block (ts_blocks s) (commit_frontier s) = Some b \<and> bl_id b = i
            \<and> bl_state b = BFinalized \<and> ts_committed s' = ts_committed s @ [bl_snapshot b]
            \<and> commit_frontier s' = commit_frontier s + 1)
       \<or> (\<exists>e. r = Inl e \<and> s' = s)"
proof -
  have c: "sched_core s" using sched_reachable_ok[OF assms(1)] by (simp add: sched_ok_def)
  from assms(2) c show ?thesis
  proof (cases rule: retire_cases)
    case (refused e)
    then show ?thesis by simp
  next
    case (retired k b rows)
    note f = find_block_InrD[OF retired(2)]
    have "ts_committed s' = ts_committed s @ [bl_snapshot b]" by (simp add: retired(5))
    with retired(1,3,6) f show ?thesis by (simp add: head_block_def commit_frontier_def)
  qed
qed

theorem retire_in_order_witness:
  "\<exists>e. retire_block sample_metrics sample_sched ''a'' = (sample_sched, Inl e)"
  using retire_in_order[OF sample_sched_reachable, of "''a''", OF prod.collapse[symmetric]] sample_sched_rows(6)
  by (auto simp: prod_eq_iff)

text \<open>
  C13: \<open>flush\<close> always ends, without an error, and retires exactly the run of finalised blocks at the
  frontier: every block between the old and the new frontier was finalised, the block at the new
  frontier is not, and the ledger grows by their snapshots.
\<close>

theorem flush_retires_finalized_run:
  assumes "sched_reachable m s" "check_operational s = Inr ()"
  shows "\<exists>s'. flush m s = Some (s', Inr ()) \<and> commit_frontier s \<le> commit_frontier s'
     \<and> list_all (\<lambda>b. bl_state b = BFinalized) (drop (commit_frontier s) (take (commit_frontier s') (ts_blocks s)))
     \<and> (case head_block (ts_blocks s) (commit_frontier s') of None \<Rightarrow> True | Some b \<Rightarrow> bl_state b \<noteq> BFinalized)
     \<and> ts_committed s' = ts_committed s
          @ map bl_snapshot (drop (commit_frontier s) (take (commit_frontier s') (ts_blocks s)))"
proof -
  have ok: "sched_ok s" using sched_reachable_ok[OF assms(1)] .
  have g: "\<not> ts_fail_stopped s" "ts_gate s = Idle" using assms(2) by (simp_all add: check_operational_Inr)
  obtain s' where s': "flush_loop (Suc (length (ts_blocks s) - commit_frontier s)) m s = Some (s', Inr ())" "sched_ok s'"
     "commit_frontier s \<le> commit_frontier s'" "length (ts_blocks s') = length (ts_blocks s)"
     "\<forall>k. commit_frontier s \<le> k \<longrightarrow> k < commit_frontier s' \<longrightarrow> bl_state (ts_blocks s ! k) = BFinalized"
     "commit_frontier s' < length (ts_blocks s) \<longrightarrow> bl_state (ts_blocks s ! commit_frontier s') \<noteq> BFinalized"
     "ts_committed s' = ts_committed s @ map bl_snapshot (drop (commit_frontier s) (take (commit_frontier s') (ts_blocks s)))"
    using flush_loop_ends[OF ok g, of "Suc (length (ts_blocks s) - commit_frontier s)" m] by auto
  have le: "commit_frontier s' \<le> length (ts_blocks s)"
    using s'(2,4) by (auto simp: sched_ok_def sched_core_def core_def commit_frontier_def)
  have "list_all (\<lambda>b. bl_state b = BFinalized) (drop (commit_frontier s) (take (commit_frontier s') (ts_blocks s)))"
    using s'(3,5) le by (simp add: list_all_length)
  moreover have "flush m s = Some (s', Inr ())" using s'(1) assms(2) by (simp add: flush_def)
  ultimately show ?thesis using s'(3,6,7)
    by (intro exI[where x = s']) (simp add: head_block_def)
qed

theorem flush_retires_finalized_run_witness:
  "\<exists>s'. flush sample_metrics sample_sched = Some (s', Inr ()) \<and> commit_frontier sample_sched \<le> commit_frontier s'"
  using flush_retires_finalized_run[OF sample_sched_reachable sample_sched_rows(5)] by blast

text \<open>
  Fail-stop is final.  After a write failure the viewport is empty and no later operation
  changes anything.
\<close>

theorem fail_stop_is_final:
  assumes "sched_step m (handle_write_failure s e n) s'"
  shows "s' = handle_write_failure s e n"
proof -
  have f: "ts_fail_stopped (handle_write_failure s e n)" by (simp add: handle_write_failure_def Let_def)
  have op: "check_operational t = Inl FailStopHalted" if "ts_fail_stopped t" for t
    using that by (simp add: check_operational_def check_not_fail_stopped_def)
  have "ts_fail_stopped t \<longrightarrow> t' = t" if "sched_step m t t'" for t t'
    using that
    by (induction rule: sched_step.induct)
      (auto simp: op admit_block_def activate_block_def update_snapshot_def stream_stable_prefix_def
        finalize_block_def retire_block_def flush_def prepare_rebuild_replay_def execute_rebuild_replay_def
        check_not_fail_stopped_def resize_def handle_write_failure_def)
  with assms f show ?thesis by blast
qed

theorem fail_stop_is_final_witness:
  "fst (admit_block (handle_write_failure sample_sched (new_error ''io'' ''x'' False) 1) ''b'' Mutable ''o'')
     = handle_write_failure sample_sched (new_error ''io'' ''x'' False) 1"
  by (rule fail_stop_is_final[OF sched_step.admit[OF prod.collapse[symmetric]]])

end
