(* ===== verification/Artifact.thy ===== *)
theory Artifact
  imports Journal
begin

text \<open>
  The artifact store of \<open>omp-runtime/src/artifact.rs\<close>: immutable blobs named by the SHA-256 of
  their content, with access decided from metadata the caller keeps in the journal.  The disk is
  a finite map from paths to contents and a path is its list of components.  SHA-256 and the
  \<open>Debug\<close> rendering of a string are fields of the store; what the operating system may refuse is
  the record \<open>disk_faults\<close>.  The removal of a temporary file (\<open>let _ = fs::remove_file\<close>) always
  succeeds here.
\<close>

section \<open>Metadata and credentials\<close>

datatype artifact_origin = JobOrigin job_id | ToolCallOrigin tool_call_id | SubagentOrigin actor_id
  | UserOrigin | SystemOrigin

datatype artifact_retention = Transient | SessionRetention | Persistent | Pinned

datatype artifact_scope = SessionScope | JobScope job_id | ActorScope actor_id | GlobalScope

record scope_credential =
  cr_session :: "session_id option"
  cr_actor :: "actor_id option"
  cr_job :: "job_id option"
  cr_host :: bool

record artifact_metadata =
  am_id :: artifact_id
  am_hash :: string
  am_media :: string
  am_length :: nat
  am_origin :: artifact_origin
  am_retention :: artifact_retention
  am_scope :: artifact_scope
  am_created :: nat
  am_session :: "session_id option"

definition host_credential :: scope_credential where
  "host_credential = \<lparr>cr_session = None, cr_actor = None, cr_job = None, cr_host = True\<rparr>"

definition global_credential :: scope_credential where
  "global_credential = \<lparr>cr_session = None, cr_actor = None, cr_job = None, cr_host = False\<rparr>"

definition session_credential :: "session_id \<Rightarrow> scope_credential" where
  "session_credential s = \<lparr>cr_session = Some s, cr_actor = None, cr_job = None, cr_host = False\<rparr>"

definition actor_credential :: "session_id option \<Rightarrow> actor_id \<Rightarrow> scope_credential" where
  "actor_credential s a = \<lparr>cr_session = s, cr_actor = Some a, cr_job = None, cr_host = False\<rparr>"

definition job_credential :: "session_id option \<Rightarrow> job_id \<Rightarrow> scope_credential" where
  "job_credential s j = \<lparr>cr_session = s, cr_actor = None, cr_job = Some j, cr_host = False\<rparr>"

definition allows :: "scope_credential \<Rightarrow> artifact_metadata \<Rightarrow> bool" where
  "allows c md =
     (if cr_host c then True
      else if am_scope md = GlobalScope then True
      else if (case (cr_session c, am_session md) of (Some s, Some t) \<Rightarrow> s \<noteq> t | _ \<Rightarrow> False) then False
      else (case am_scope md of
          GlobalScope \<Rightarrow> True
        | SessionScope \<Rightarrow> (case (cr_session c, am_session md) of (Some s, Some t) \<Rightarrow> s = t | _ \<Rightarrow> False)
        | ActorScope a \<Rightarrow> cr_actor c = Some a
        | JobScope j \<Rightarrow> cr_job c = Some j))"

definition allows_store :: "scope_credential \<Rightarrow> artifact_scope \<Rightarrow> session_id option \<Rightarrow> bool" where
  "allows_store c scope session =
     (if cr_host c then True
      else (case scope of
          GlobalScope \<Rightarrow> False
        | SessionScope \<Rightarrow> (case (cr_session c, session) of (Some s, Some t) \<Rightarrow> s = t | _ \<Rightarrow> False)
        | ActorScope a \<Rightarrow> cr_actor c = Some a
        | JobScope j \<Rightarrow> cr_job c = Some j))"

section \<open>Errors\<close>

datatype artifact_error =
    ArtAccessDenied string
  | ArtNotFound string
  | ArtLimitExceeded string
  | ArtIo string
  | ArtHashMismatch string string
  | ArtCorrupted string
  | ArtInvalid string

fun artifact_structured :: "artifact_error \<Rightarrow> structured_error" where
  "artifact_structured (ArtAccessDenied m) = new_error ''artifact_access_denied'' m False"
| "artifact_structured (ArtNotFound m) = new_error ''artifact_not_found'' m False"
| "artifact_structured (ArtLimitExceeded m) = new_error ''artifact_limit_exceeded'' m False"
| "artifact_structured (ArtHashMismatch e c) =
     new_error ''artifact_hash_mismatch'' (''expected hash '' @ e @ '', got '' @ c) False"
| "artifact_structured (ArtCorrupted m) = new_error ''artifact_corrupted'' m False"
| "artifact_structured (ArtIo m) = new_error ''artifact_io_error'' m False"
| "artifact_structured (ArtInvalid m) = new_error ''artifact_invalid'' m False"

section \<open>The disk and the store\<close>

type_synonym path = "string list"
type_synonym disk = "(path, bytes) fmap"

record artifact_store =
  st_root :: path
  st_sha :: "bytes \<Rightarrow> bytes"
  st_debug :: "string \<Rightarrow> string"

text \<open>
  \<open>df_write\<close> sees what has been written so far; \<open>df_copy = Some (n, m)\<close> stops a copy after \<open>n\<close>
  bytes with error \<open>m\<close>.
\<close>

record disk_faults =
  df_create :: "string option"
  df_write :: "bytes \<Rightarrow> string option"
  df_flush :: "string option"
  df_rename :: bool
  df_copy :: "(nat \<times> string) option"
  df_stat :: "string option"
  df_read :: "string option"

definition no_faults :: disk_faults where
  "no_faults = \<lparr>df_create = None, df_write = (\<lambda>_. None), df_flush = None, df_rename = False,
     df_copy = None, df_stat = None, df_read = None\<rparr>"

definition hash_byte :: "char \<Rightarrow> bool" where
  "hash_byte b \<longleftrightarrow> b \<in> set ''0123456789abcdef''"

definition validate_content_hash :: "artifact_store \<Rightarrow> string \<Rightarrow> (artifact_error, unit) result" where
  "validate_content_hash st h =
     (if length h \<noteq> 64 \<or> \<not> list_all hash_byte h
      then Inl (ArtInvalid (''Invalid content hash '' @ st_debug st h
             @ '': must be exactly 64 lowercase hexadecimal characters''))
      else Inr ())"

definition blobs_dir :: "artifact_store \<Rightarrow> path" where
  "blobs_dir st = st_root st @ [''blobs'']"

definition blob_path :: "artifact_store \<Rightarrow> string \<Rightarrow> (artifact_error, path) result" where
  "blob_path st h =
     try_bind (validate_content_hash st h) (\<lambda>_. Inr (blobs_dir st @ [h @ ''.blob'']))"

definition has_blob :: "artifact_store \<Rightarrow> disk \<Rightarrow> string \<Rightarrow> bool" where
  "has_blob st d h = (case blob_path st h of Inr p \<Rightarrow> fmlookup d p \<noteq> None | Inl _ \<Rightarrow> False)"

definition no_such_file :: artifact_error where
  "no_such_file = ArtIo ''No such file or directory (os error 2)''"

definition hash_file :: "artifact_store \<Rightarrow> disk_faults \<Rightarrow> disk \<Rightarrow> path \<Rightarrow> (artifact_error, string) result" where
  "hash_file st f d p =
     (case fmlookup d p of
        None \<Rightarrow> Inl no_such_file
      | Some bs \<Rightarrow> (case df_read f of Some m \<Rightarrow> Inl (ArtIo m) | None \<Rightarrow> Inr (hex (st_sha st bs))))"

text \<open>A rename, or where it fails a copy and the removal of the source.\<close>

definition move_file :: "disk_faults \<Rightarrow> path \<Rightarrow> path \<Rightarrow> disk \<Rightarrow> disk \<times> (artifact_error, unit) result" where
  "move_file f src dst d =
     (case fmlookup d src of
        None \<Rightarrow> (d, Inl no_such_file)
      | Some bs \<Rightarrow>
          if \<not> df_rename f then (fmupd dst bs (fmdrop src d), Inr ())
          else (case df_copy f of
              Some (n, m) \<Rightarrow> (fmupd dst (take n bs) d, Inl (ArtIo m))
            | None \<Rightarrow> (fmdrop src (fmupd dst bs d), Inr ())))"

section \<open>Storing\<close>

fun debug_scope :: "artifact_scope \<Rightarrow> string" where
  "debug_scope SessionScope = ''Session''"
| "debug_scope (JobScope j) = ''Job(JobId(\"'' @ j @ ''\"))''"
| "debug_scope (ActorScope a) = ''Actor(ActorId(\"'' @ a @ ''\"))''"
| "debug_scope GlobalScope = ''Global''"

definition store_denied :: "artifact_scope \<Rightarrow> artifact_error" where
  "store_denied scope =
     ArtAccessDenied (''Credential does not have permission to store artifact with scope '' @ debug_scope scope)"

text \<open>What successive calls of the reader give; the end of the list is \<open>Ok(0)\<close>.\<close>

datatype read_event = ReadOk bytes | ReadInterrupted | ReadFails string

fun spool_loop ::
  "(bytes \<Rightarrow> string option) \<Rightarrow> nat \<Rightarrow> read_event list \<Rightarrow> bytes \<Rightarrow> (artifact_error, bytes) result" where
  "spool_loop wfault limit [] acc = Inr acc"
| "spool_loop wfault limit (ReadInterrupted # es) acc = spool_loop wfault limit es acc"
| "spool_loop wfault limit (ReadFails m # es) acc = Inl (ArtIo m)"
| "spool_loop wfault limit (ReadOk bs # es) acc =
     (if bs = [] then Inr acc
      else if limit < length acc + length bs
      then Inl (ArtLimitExceeded (''Artifact size exceeded limit of '' @ show_nat limit
             @ '' bytes (read '' @ show_nat (length acc + length bs) @ '' bytes so far)''))
      else (case wfault acc of Some m \<Rightarrow> Inl (ArtIo m) | None \<Rightarrow> spool_loop wfault limit es (acc @ bs)))"

definition tmp_path :: "artifact_store \<Rightarrow> artifact_id \<Rightarrow> nat \<Rightarrow> path" where
  "tmp_path st i nanos = st_root st @ [''tmp'', ''spool_'' @ i @ ''_'' @ show_nat nanos @ ''.tmp'']"

text \<open>The values of the metadata that the caller of a store operation chooses.\<close>

record artifact_request =
  rq_id :: artifact_id
  rq_media :: string
  rq_origin :: artifact_origin
  rq_retention :: artifact_retention
  rq_scope :: artifact_scope

definition new_metadata :: "artifact_request \<Rightarrow> string \<Rightarrow> nat \<Rightarrow> nat \<Rightarrow> scope_credential \<Rightarrow> artifact_metadata" where
  "new_metadata rq h len millis c =
     \<lparr>am_id = rq_id rq, am_hash = h, am_media = rq_media rq, am_length = len, am_origin = rq_origin rq,
      am_retention = rq_retention rq, am_scope = rq_scope rq, am_created = millis mod 2 ^ 64,
      am_session = cr_session c\<rparr>"

definition store_stream ::
  "artifact_store \<Rightarrow> disk_faults \<Rightarrow> nat \<times> nat \<Rightarrow> disk \<Rightarrow> artifact_request \<Rightarrow> read_event list \<Rightarrow> nat
   \<Rightarrow> scope_credential \<Rightarrow> disk \<times> (artifact_error, artifact_metadata) result" where
  "store_stream st f clock d rq reader limit c =
     (let (nanos, millis) = clock; tmp = tmp_path st (rq_id rq) nanos in
      if \<not> allows_store c (rq_scope rq) (cr_session c) then (d, Inl (store_denied (rq_scope rq)))
      else (case df_create f of
          Some m \<Rightarrow> (d, Inl (ArtIo m))
        | None \<Rightarrow>
            (case spool_loop (df_write f) limit reader [] of
               Inl e \<Rightarrow> (fmdrop tmp d, Inl e)
             | Inr content \<Rightarrow>
                 (case df_flush f of
                    Some m \<Rightarrow> (fmdrop tmp d, Inl (ArtIo m))
                  | None \<Rightarrow>
                      let h = hex (st_sha st content); d1 = fmupd tmp content d in
                      (case blob_path st h of
                         Inl e \<Rightarrow> (d1, Inl e)
                       | Inr target \<Rightarrow>
                           (case (if fmlookup d1 target \<noteq> None then (fmdrop tmp d1, Inr ())
                                  else move_file f tmp target d1) of
                              (d2, Inl e) \<Rightarrow> (d2, Inl e)
                            | (d2, Inr _) \<Rightarrow> (d2, Inr (new_metadata rq h (length content) millis c))))))))"

text \<open>A slice is read in pieces of at most 64 KiB.\<close>

function slice_reads :: "bytes \<Rightarrow> read_event list" where
  "slice_reads bs = (if bs = [] then [] else ReadOk (take 65536 bs) # slice_reads (drop 65536 bs))"
  by pat_completeness auto
termination by (relation "measure length") auto

declare slice_reads.simps [simp del]

definition store_bytes ::
  "artifact_store \<Rightarrow> disk_faults \<Rightarrow> nat \<times> nat \<Rightarrow> disk \<Rightarrow> artifact_request \<Rightarrow> bytes \<Rightarrow> nat
   \<Rightarrow> scope_credential \<Rightarrow> disk \<times> (artifact_error, artifact_metadata) result" where
  "store_bytes st f clock d rq content limit c =
     (if limit < length content
      then (d, Inl (ArtLimitExceeded (''in-memory artifact ('' @ show_nat (length content)
             @ '' bytes) exceeds limit of '' @ show_nat limit @ '' bytes'')))
      else store_stream st f clock d rq (slice_reads content) limit c)"

definition ingest_spooled_file ::
  "artifact_store \<Rightarrow> disk_faults \<Rightarrow> nat \<Rightarrow> disk \<Rightarrow> artifact_request \<Rightarrow> path \<Rightarrow> string \<Rightarrow> nat
   \<Rightarrow> scope_credential \<Rightarrow> disk \<times> (artifact_error, artifact_metadata) result" where
  "ingest_spooled_file st f millis d rq src expected len c =
     (if \<not> allows_store c (rq_scope rq) (cr_session c) then (d, Inl (store_denied (rq_scope rq)))
      else (case blob_path st expected of
          Inl e \<Rightarrow> (d, Inl e)
        | Inr target \<Rightarrow>
            if fmlookup d target = None
            then (case move_file f src target d of
                (d1, Inl e) \<Rightarrow> (d1, Inl e)
              | (d1, Inr _) \<Rightarrow>
                  (case hash_file st f d1 target of
                     Inl e \<Rightarrow> (d1, Inl e)
                   | Inr actual \<Rightarrow>
                       if actual \<noteq> expected
                       then (fmdrop target d1, Inl (ArtCorrupted (''Spooled file hash mismatch: expected ''
                               @ expected @ '', got '' @ actual)))
                       else (d1, Inr (new_metadata rq expected len millis c))))
            else (fmdrop src d, Inr (new_metadata rq expected len millis c))))"

section \<open>Reading\<close>

definition get_artifact ::
  "artifact_store \<Rightarrow> disk_faults \<Rightarrow> disk \<Rightarrow> artifact_metadata \<Rightarrow> scope_credential
   \<Rightarrow> (artifact_error, path) result" where
  "get_artifact st f d md c =
     (if \<not> allows c md
      then Inl (ArtAccessDenied (''Access to artifact '' @ am_id md @ '' denied for provided credential''))
      else try_bind (blob_path st (am_hash md)) (\<lambda>p.
        case fmlookup d p of
          None \<Rightarrow> Inl (ArtNotFound (''Underlying blob for artifact '' @ am_id md @ '' (hash '' @ am_hash md
                    @ '') missing on disk''))
        | Some bs \<Rightarrow>
            (case df_stat f of
               Some m \<Rightarrow> Inl (ArtIo m)
             | None \<Rightarrow>
                 if length bs \<noteq> am_length md
                 then Inl (ArtCorrupted (''Artifact size mismatch for '' @ am_id md @ '': metadata states ''
                        @ show_nat (am_length md) @ '' bytes, disk file is '' @ show_nat (length bs) @ '' bytes''))
                 else Inr p)))"

definition artifact_read_bounded :: "disk_faults \<Rightarrow> disk \<Rightarrow> path \<Rightarrow> nat \<Rightarrow> (artifact_error, bytes) result" where
  "artifact_read_bounded f d p limit =
     (case fmlookup d p of
        None \<Rightarrow> Inl no_such_file
      | Some bs \<Rightarrow> (case df_read f of Some m \<Rightarrow> Inl (ArtIo m) | None \<Rightarrow> Inr (take limit bs)))"

definition read_bounded ::
  "artifact_store \<Rightarrow> disk_faults \<Rightarrow> disk \<Rightarrow> artifact_metadata \<Rightarrow> nat \<Rightarrow> scope_credential
   \<Rightarrow> (artifact_error, bytes) result" where
  "read_bounded st f d md limit c =
     try_bind (get_artifact st f d md c) (\<lambda>p.
     try_bind (artifact_read_bounded f d p limit) (\<lambda>content.
       if length content = am_length md
       then (let computed = hex (st_sha st content) in
             if computed \<noteq> am_hash md then Inl (ArtHashMismatch (am_hash md) computed) else Inr content)
       else Inr content))"

end
