(* ===== verification/ArtifactProps.thy ===== *)
theory ArtifactProps
  imports Artifact
begin

text \<open>
  Lemmas on the artifact store: what each operation does to the blobs, that blobs are never
  changed or removed whatever the operating system refuses, and the content-addressing
  invariant.  The locale \<open>blob_sink\<close> is what the output streams need of the store.
\<close>

section \<open>Blobs\<close>

definition blob_name :: "artifact_store \<Rightarrow> string \<Rightarrow> path" where
  "blob_name st h = blobs_dir st @ [h @ ''.blob'']"

definition valid_hash :: "string \<Rightarrow> bool" where
  "valid_hash h \<longleftrightarrow> length h = 64 \<and> list_all hash_byte h"

definition sha32 :: "artifact_store \<Rightarrow> bool" where
  "sha32 st \<longleftrightarrow> (\<forall>bs. length (st_sha st bs) = 32)"

definition outside :: "artifact_store \<Rightarrow> path \<Rightarrow> bool" where
  "outside st p \<longleftrightarrow> butlast p \<noteq> blobs_dir st"

definition blobs_ok :: "artifact_store \<Rightarrow> disk \<Rightarrow> bool" where
  "blobs_ok st d \<longleftrightarrow> (\<forall>h bs. valid_hash h \<and> fmlookup d (blob_name st h) = Some bs \<longrightarrow> hex (st_sha st bs) = h)"

definition kept :: "artifact_store \<Rightarrow> disk \<Rightarrow> disk \<Rightarrow> bool" where
  "kept st d d' \<longleftrightarrow> (\<forall>h bs. fmlookup d (blob_name st h) = Some bs \<longrightarrow> fmlookup d' (blob_name st h) = Some bs)"

definition no_collision :: "artifact_store \<Rightarrow> disk \<Rightarrow> bytes \<Rightarrow> bool" where
  "no_collision st d content \<longleftrightarrow>
     (\<forall>p bs. fmlookup d p = Some bs \<longrightarrow> hex (st_sha st bs) = hex (st_sha st content) \<longrightarrow> bs = content)"

lemma blob_name_eq [simp]: "blob_name st h = blob_name st h' \<longleftrightarrow> h = h'"
  by (simp add: blob_name_def)

lemma blob_path_Inr_iff: "blob_path st h = Inr p \<longleftrightarrow> valid_hash h \<and> p = blob_name st h"
  by (auto simp: blob_path_def validate_content_hash_def valid_hash_def blob_name_def try_bind_Inr_iff)

lemma blob_path_valid [simp]: "valid_hash h \<Longrightarrow> blob_path st h = Inr (blob_name st h)"
  by (simp add: blob_path_Inr_iff)

lemma outside_neq [simp]: "outside st p \<Longrightarrow> p \<noteq> blob_name st h" "outside st p \<Longrightarrow> blob_name st h \<noteq> p"
  by (auto simp: outside_def blob_name_def blobs_dir_def butlast_append)

lemma tmp_path_outside [simp]: "outside st (tmp_path st i n)"
  by (simp add: outside_def tmp_path_def blobs_dir_def butlast_append)

lemma hash_byte_hex_digit: "n < 16 \<Longrightarrow> hash_byte (hex_digit n)"
proof -
  assume "n < 16"
  then have "n \<in> set [0..<16]" by simp
  moreover have "list_all (\<lambda>n. hash_byte (hex_digit n)) [0..<16]" by code_simp
  ultimately show ?thesis by (simp add: list_all_iff)
qed

lemma length_hex [simp]: "length (hex bs) = 2 * length bs"
  by (induction bs) (simp_all add: hex_def)

lemma hex_hash_bytes: "list_all hash_byte (hex bs)"
proof (induction bs)
  case (Cons b bs)
  have "unat b < 256" using unsigned_less[of b] by simp
  then show ?case using Cons by (simp add: hex_def hash_byte_hex_digit)
qed (simp add: hex_def)

lemma valid_hash_hex [simp]: "sha32 st \<Longrightarrow> valid_hash (hex (st_sha st bs))"
  by (simp add: valid_hash_def sha32_def hex_hash_bytes)

text \<open>Every blob of the second disk was there before or carries its own hash.\<close>

definition honest :: "artifact_store \<Rightarrow> disk \<Rightarrow> disk \<Rightarrow> bool" where
  "honest st d d' \<longleftrightarrow> (\<forall>h bs. fmlookup d' (blob_name st h) = Some bs
     \<longrightarrow> fmlookup d (blob_name st h) = Some bs \<or> hex (st_sha st bs) = h)"

lemma blobs_ok_honest: "blobs_ok st d \<Longrightarrow> honest st d d' \<Longrightarrow> blobs_ok st d'"
  by (auto simp: blobs_ok_def honest_def)

lemma honest_refl [simp]: "honest st d d"
  by (simp add: honest_def)

lemma honest_drop [simp]: "honest st d d' \<Longrightarrow> honest st d (fmdrop p d')"
  by (simp add: honest_def)

lemma honest_write: "outside st p \<Longrightarrow> honest st d d' \<Longrightarrow> honest st d (fmupd p bs d')"
  by (auto simp: honest_def)

lemma honest_blob: "honest st d d' \<Longrightarrow> hex (st_sha st bs) = h \<Longrightarrow> honest st d (fmupd (blob_name st h) bs d')"
  by (auto simp: honest_def)

lemma kept_refl [simp]: "kept st d d"
  by (simp add: kept_def)

lemma kept_trans: "kept st d d' \<Longrightarrow> kept st d' d'' \<Longrightarrow> kept st d d''"
  by (simp add: kept_def)

lemma kept_drop [simp]: "outside st p \<Longrightarrow> kept st d (fmdrop p d)"
  by (simp add: kept_def)

lemma kept_write: "outside st p \<Longrightarrow> kept st d (fmupd p bs d)"
  by (auto simp: kept_def)

lemma kept_new: "fmlookup d (blob_name st h) = None \<Longrightarrow> kept st d (fmupd (blob_name st h) bs d)"
  by (auto simp: kept_def)

section \<open>Spooling\<close>

text \<open>What a reader delivers before its end, and that it does not fail.\<close>

fun delivered :: "read_event list \<Rightarrow> bytes" where
  "delivered [] = []"
| "delivered (ReadInterrupted # es) = delivered es"
| "delivered (ReadFails m # es) = []"
| "delivered (ReadOk bs # es) = (if bs = [] then [] else bs @ delivered es)"

definition reader_ok :: "read_event list \<Rightarrow> bool" where
  "reader_ok es \<longleftrightarrow> list_all (\<lambda>e. case e of ReadFails _ \<Rightarrow> False | _ \<Rightarrow> True) es"

lemma spool_loop_Inr:
  "spool_loop wfault limit es acc = Inr content \<Longrightarrow> length acc \<le> limit
     \<Longrightarrow> content = acc @ delivered es \<and> length content \<le> limit"
  by (induction wfault limit es acc rule: spool_loop.induct) (auto split: if_splits option.splits)

lemma spool_loop_quota:
  assumes "reader_ok es" "length acc \<le> limit"
  shows "if length (acc @ delivered es) \<le> limit
         then spool_loop (\<lambda>_. None) limit es acc = Inr (acc @ delivered es)
         else \<exists>m. spool_loop (\<lambda>_. None) limit es acc = Inl (ArtLimitExceeded m)"
  using assms
proof (induction "\<lambda>_::bytes. None :: string option" limit es acc rule: spool_loop.induct)
  case (4 limit bs es acc)
  show ?case
  proof (cases "bs = [] \<or> limit < length acc + length bs")
    case True
    then show ?thesis using "4.prems" by auto
  next
    case False
    then have "length (acc @ bs) \<le> limit" "reader_ok es" using "4.prems" by (auto simp: reader_ok_def)
    with "4.hyps" False show ?thesis by simp
  qed
qed (auto simp: reader_ok_def)

lemma delivered_slice [simp]: "delivered (slice_reads bs) = bs"
  by (induction bs rule: slice_reads.induct) (subst slice_reads.simps, simp)

lemma reader_ok_slice [simp]: "reader_ok (slice_reads bs)"
  by (induction bs rule: slice_reads.induct) (subst slice_reads.simps, simp add: reader_ok_def)

section \<open>The operations\<close>

lemma move_file_cases:
  assumes "move_file f src dst d = (d', r)" and "src \<noteq> dst"
  obtains (missing) "fmlookup d src = None" "d' = d" "r = Inl no_such_file"
  | (moved) bs where "fmlookup d src = Some bs" "d' = fmupd dst bs (fmdrop src d)" "r = Inr ()"
  | (torn) bs n m where "fmlookup d src = Some bs" "d' = fmupd dst (take n bs) d" "r = Inl (ArtIo m)"
      "df_copy f = Some (n, m)"
proof -
  have "fmdrop src (fmupd dst bs d) = fmupd dst bs (fmdrop src d)" for bs
    using assms(2) by (intro fmap_ext) simp
  then show thesis
    using assms missing moved torn by (auto simp: move_file_def split: option.splits if_splits prod.splits)
qed

lemma move_file_kept:
  assumes "move_file f src (blob_name st h) d = (d', r)" "outside st src" "fmlookup d (blob_name st h) = None"
  shows "kept st d d'"
  using assms(1) outside_neq(1)[OF assms(2)]
  by (cases rule: move_file_cases) (use assms in \<open>auto simp: kept_def\<close>)

lemma store_stream_ok:
  assumes s: "store_stream st f clock d rq reader limit c = (d', Inr md)" and sha: "sha32 st"
  defines "content \<equiv> delivered reader"
  defines "h \<equiv> hex (st_sha st content)"
  shows "allows_store c (rq_scope rq) (cr_session c)" "length content \<le> limit"
    "md = new_metadata rq h (length content) (snd clock) c"
    "fmlookup d' (blob_name st h) =
       Some (case fmlookup d (blob_name st h) of None \<Rightarrow> content | Some bs \<Rightarrow> bs)"
    "k \<noteq> h \<Longrightarrow> fmlookup d' (blob_name st k) = fmlookup d (blob_name st k)"
proof -
  let ?tmp = "tmp_path st (rq_id rq) (fst clock)"
  let ?d1 = "fmupd ?tmp content d"
  obtain content' where a: "allows_store c (rq_scope rq) (cr_session c)"
    and l': "spool_loop (df_write f) limit reader [] = Inr content'"
    and m: "(if fmlookup (fmupd ?tmp content' d) (blob_name st (hex (st_sha st content'))) \<noteq> None
              then (fmdrop ?tmp (fmupd ?tmp content' d), Inr ())
              else move_file f ?tmp (blob_name st (hex (st_sha st content'))) (fmupd ?tmp content' d)) = (d', Inr ())"
    and md': "md = new_metadata rq (hex (st_sha st content')) (length content') (snd clock) c"
    using s valid_hash_hex[OF sha]
    by (auto simp: store_stream_def Let_def case_prod_beta prod_eq_iff split: if_splits option.splits sum.splits prod.splits)
  have l: "content' = content" "length content \<le> limit" using spool_loop_Inr[OF l'] by (auto simp: content_def)
  note m = m[unfolded l(1), folded h_def] and md = md'[unfolded l(1), folded h_def]
  show "allows_store c (rq_scope rq) (cr_session c)" by (rule a)
  show "length content \<le> limit" by (rule l(2))
  show "md = new_metadata rq h (length content) (snd clock) c" by (rule md)
  have both: "fmlookup d' (blob_name st h) =
       Some (case fmlookup d (blob_name st h) of None \<Rightarrow> content | Some bs \<Rightarrow> bs)
     \<and> (k \<noteq> h \<longrightarrow> fmlookup d' (blob_name st k) = fmlookup d (blob_name st k))" for k
  proof (cases "fmlookup d (blob_name st h)")
    case None
    then have mv: "move_file f ?tmp (blob_name st h) ?d1 = (d', Inr ())" using m by (simp split: if_splits)
    show ?thesis using mv outside_neq(1)[OF tmp_path_outside]
      by (cases rule: move_file_cases) (use None in auto)
  next
    case (Some bs)
    with m have "d' = fmdrop ?tmp ?d1" by (simp split: if_splits)
    then show ?thesis using Some by simp
  qed
  then show "fmlookup d' (blob_name st h) =
       Some (case fmlookup d (blob_name st h) of None \<Rightarrow> content | Some bs \<Rightarrow> bs)" by blast
  show "k \<noteq> h \<Longrightarrow> fmlookup d' (blob_name st k) = fmlookup d (blob_name st k)" using both by blast
qed

lemma store_stream_kept:
  assumes s: "store_stream st f clock d rq reader limit c = (d', r)"
  shows "kept st d d'"
proof -
  let ?tmp = "tmp_path st (rq_id rq) (fst clock)"
  have w: "kept st d (fmupd ?tmp content d)" for content by (simp add: kept_write)
  have drop: "kept st d (fmdrop ?tmp (fmupd ?tmp content d))" for content
    by (simp add: kept_def)
  have mv: "kept st d (fst (move_file f ?tmp (blob_name st h) (fmupd ?tmp content d)))"
    if "fmlookup d (blob_name st h) = None" for h content
    using kept_trans[OF w move_file_kept[OF prod.collapse[symmetric] tmp_path_outside]] that by simp
  show ?thesis
    using s w drop mv
    by (auto simp: store_stream_def Let_def case_prod_beta prod_eq_iff blob_path_Inr_iff
        split: if_splits option.splits sum.splits)
qed

lemma ingest_ok:
  assumes s: "ingest_spooled_file st f millis d rq src h len c = (d', Inr md)" and o: "outside st src"
  shows "allows_store c (rq_scope rq) (cr_session c)" "valid_hash h"
    "md = new_metadata rq h len millis c"
    "fmlookup d (blob_name st h) = Some bs \<Longrightarrow> fmlookup d' (blob_name st h) = Some bs"
    "fmlookup d (blob_name st h) = None \<Longrightarrow> fmlookup d src \<noteq> None
       \<and> fmlookup d' (blob_name st h) = fmlookup d src \<and> hex (st_sha st (the (fmlookup d src))) = h"
    "k \<noteq> h \<Longrightarrow> fmlookup d' (blob_name st k) = fmlookup d (blob_name st k)"
    "fmlookup d' src = None"
proof -
  show "allows_store c (rq_scope rq) (cr_session c)" "valid_hash h" "md = new_metadata rq h len millis c"
    using s by (auto simp: ingest_spooled_file_def blob_path_Inr_iff
        split: if_splits sum.splits option.splits prod.splits)
  then have v: "blob_path st h = Inr (blob_name st h)" by simp
  have n: "src \<noteq> blob_name st h" using o by simp
  have "(case fmlookup d (blob_name st h) of
      Some bs \<Rightarrow> d' = fmdrop src d
    | None \<Rightarrow> \<exists>bs. fmlookup d src = Some bs \<and> d' = fmupd (blob_name st h) bs (fmdrop src d)
        \<and> hex (st_sha st bs) = h)"
  proof (cases "fmlookup d (blob_name st h)")
    case None
    with s v obtain d1 where m: "move_file f src (blob_name st h) d = (d1, Inr ())" and d: "d' = d1"
      and hf: "hash_file st f d1 (blob_name st h) = Inr h"
      by (auto simp: ingest_spooled_file_def split: if_splits sum.splits prod.splits)
    from m n show ?thesis
      by (cases rule: move_file_cases)
        (use None d hf in \<open>auto simp: hash_file_def split: option.splits\<close>)
  next
    case (Some bs)
    with s v show ?thesis by (auto simp: ingest_spooled_file_def split: if_splits)
  qed
  then show "fmlookup d (blob_name st h) = Some bs \<Longrightarrow> fmlookup d' (blob_name st h) = Some bs"
    "fmlookup d (blob_name st h) = None \<Longrightarrow> fmlookup d src \<noteq> None
       \<and> fmlookup d' (blob_name st h) = fmlookup d src \<and> hex (st_sha st (the (fmlookup d src))) = h"
    "k \<noteq> h \<Longrightarrow> fmlookup d' (blob_name st k) = fmlookup d (blob_name st k)"
    "fmlookup d' src = None"
    using o n by (auto split: option.splits)
qed

lemma ingest_kept:
  assumes s: "ingest_spooled_file st f millis d rq src h len c = (d', r)" and o: "outside st src"
  shows "kept st d d'"
proof -
  have mv: "kept st d (fst (move_file f src (blob_name st h) d))" if "fmlookup d (blob_name st h) = None"
    using move_file_kept[OF prod.collapse[symmetric] o that] .
  have "kept st d (fmdrop (blob_name st h) d1)" if "kept st d d1" "fmlookup d (blob_name st h) = None" for d1
    using that by (auto simp: kept_def)
  then show ?thesis
    using s o mv
    by (auto simp: ingest_spooled_file_def Let_def case_prod_beta prod_eq_iff blob_path_Inr_iff
        split: if_splits option.splits sum.splits)
qed

lemma store_stream_honest:
  assumes s: "store_stream st f clock d rq reader limit c = (d', r)" and f: "df_copy f = None"
  shows "honest st d d'"
proof -
  let ?tmp = "tmp_path st (rq_id rq) (fst clock)"
  have w: "honest st d (fmupd ?tmp content d)" for content by (simp add: honest_write)
  have drop: "honest st d (fmdrop ?tmp (fmupd ?tmp content d))" for content by (simp add: w)
  have mv: "honest st d (fst (move_file f ?tmp (blob_name st (hex (st_sha st content))) (fmupd ?tmp content d)))"
    for content
    using f by (auto simp: move_file_def intro!: honest_blob honest_drop w)
  show ?thesis
    using s w drop mv
    by (auto simp: store_stream_def Let_def case_prod_beta prod_eq_iff blob_path_Inr_iff
        split: if_splits option.splits sum.splits)
qed

lemma ingest_honest:
  assumes s: "ingest_spooled_file st f millis d rq src h len c = (d', r)" and o: "outside st src"
    and f: "df_copy f = None" "df_read f = None"
  shows "honest st d d'"
proof (cases "fmlookup d (blob_name st h)")
  case (Some bs)
  then show ?thesis using s by (auto simp: ingest_spooled_file_def blob_path_Inr_iff split: if_splits sum.splits)
next
  case None
  show ?thesis
  proof (cases "move_file f src (blob_name st h) d")
    case (Pair d1 r1)
    from Pair outside_neq(1)[OF o] show ?thesis
    proof (cases rule: move_file_cases)
      case (moved bs)
      have "honest st d (fmdrop (blob_name st h) d1)" using moved(2) o by (simp add: honest_def)
      moreover have "hex (st_sha st bs) = h \<Longrightarrow> honest st d d1" using moved(2) by (simp add: honest_blob)
      ultimately show ?thesis using s None Pair moved f
        by (auto simp: ingest_spooled_file_def hash_file_def blob_path_Inr_iff split: if_splits sum.splits)
    qed (use s None Pair f in \<open>auto simp: ingest_spooled_file_def blob_path_Inr_iff split: if_splits sum.splits\<close>)
  qed
qed

section \<open>Reading back\<close>

lemma read_bounded_blob:
  assumes "allows c md" "valid_hash (am_hash md)" "fmlookup d (blob_name st (am_hash md)) = Some bs"
    "length bs = am_length md" "hex (st_sha st bs) = am_hash md"
  shows "read_bounded st no_faults d md n c = Inr (take n bs)"
  using assms by (auto simp: read_bounded_def get_artifact_def artifact_read_bounded_def no_faults_def
      min_def Let_def)

text \<open>A caller that may store may read what it stored.\<close>

lemma allows_own: "allows_store c (am_scope md) (cr_session c) \<Longrightarrow> am_session md = cr_session c \<Longrightarrow> allows c md"
  by (cases "am_scope md"; cases "cr_session c") (auto simp: allows_store_def allows_def split: if_splits)

section \<open>Histories of the store\<close>

inductive store_step :: "artifact_store \<Rightarrow> disk \<Rightarrow> disk \<Rightarrow> bool" for st where
  stream: "store_stream st f clock d rq reader limit c = (d', r) \<Longrightarrow> store_step st d d'"
| content: "store_bytes st f clock d rq content limit c = (d', r) \<Longrightarrow> store_step st d d'"
| ingest: "outside st src \<Longrightarrow> ingest_spooled_file st f millis d rq src h len c = (d', r) \<Longrightarrow> store_step st d d'"
| other: "outside st p \<Longrightarrow> store_step st d (fmupd p bs d)"

inductive store_steps :: "artifact_store \<Rightarrow> disk \<Rightarrow> disk \<Rightarrow> bool" for st where
  stay: "store_steps st d d"
| go: "store_steps st d d' \<Longrightarrow> store_step st d' d'' \<Longrightarrow> store_steps st d d''"

lemma store_bytes_cases:
  assumes "store_bytes st f clock d rq content limit c = (d', r)"
  obtains (limit) m where "limit < length content" "d' = d" "r = Inl (ArtLimitExceeded m)"
  | (stream) "length content \<le> limit" "store_stream st f clock d rq (slice_reads content) limit c = (d', r)"
  using assms by (auto simp: store_bytes_def split: if_splits)

lemma store_steps_kept: "store_steps st d d' \<Longrightarrow> kept st d d'"
proof (induction rule: store_steps.induct)
  case (go d d' d'')
  from go.hyps(2) have "kept st d' d''"
  proof cases
    case (content f clock rq content limit c r)
    then show ?thesis by (cases rule: store_bytes_cases) (auto intro: store_stream_kept)
  qed (auto intro: store_stream_kept ingest_kept kept_write)
  with go.IH show ?case by (rule kept_trans)
qed simp

section \<open>What output streams need of a store\<close>

text \<open>
  \<open>ingest d src h len\<close> takes over the file \<open>src\<close> under hash \<open>h\<close>, \<open>fetch d md\<close> reads it in full.
\<close>

locale blob_sink =
  fixes sane :: "disk \<Rightarrow> bool"
    and distinct_from :: "disk \<Rightarrow> bytes \<Rightarrow> bool"
    and owned :: "path \<Rightarrow> bool"
    and digest :: "bytes \<Rightarrow> string"
    and ingest :: "disk \<Rightarrow> path \<Rightarrow> string \<Rightarrow> nat \<Rightarrow> disk \<times> (artifact_error, artifact_metadata) result"
    and fetch :: "disk \<Rightarrow> artifact_metadata \<Rightarrow> (artifact_error, bytes) result"
  assumes ingest_sane: "sane d \<Longrightarrow> owned src \<Longrightarrow> ingest d src h len = (d', r) \<Longrightarrow> sane d'"
    and ingest_fetch: "sane d \<Longrightarrow> owned src \<Longrightarrow> fmlookup d src = Some bs \<Longrightarrow> distinct_from d bs
       \<Longrightarrow> ingest d src (digest bs) (length bs) = (d', Inr md) \<Longrightarrow> fetch d' md = Inr bs"
    and ingest_consumes: "owned src \<Longrightarrow> ingest d src h len = (d', Inr md) \<Longrightarrow> fmlookup d' src = None"
    and ingest_sized: "owned src \<Longrightarrow> ingest d src h len = (d', Inr md) \<Longrightarrow> am_length md = len"
begin

text \<open>A file taken over is in the store and only there.\<close>

lemma takes_over:
  assumes "sane d" "owned src" "fmlookup d src = Some bs" "distinct_from d bs"
    and "ingest d src (digest bs) (length bs) = (d', Inr md)"
  shows "sane d' \<and> fetch d' md = Inr bs \<and> fmlookup d' src = None \<and> am_length md = length bs"
  using ingest_sane[OF assms(1,2,5)] ingest_fetch[OF assms] ingest_consumes[OF assms(2,5)]
    ingest_sized[OF assms(2,5)] by simp

end

text \<open>
  The artifact store is such a sink as long as no copy stops half way and the placed blob can be
  read for its verification.
\<close>

definition steady :: "disk_faults \<Rightarrow> disk_faults" where
  "steady f = f\<lparr>df_copy := None, df_read := None\<rparr>"

interpretation artifacts: blob_sink "\<lambda>d. sha32 st \<and> blobs_ok st d" "no_collision st" "outside st"
  "\<lambda>bs. hex (st_sha st bs)" "\<lambda>d src h len. ingest_spooled_file st (steady f) millis d rq src h len c"
  "\<lambda>d md. read_bounded st no_faults d md (am_length md) c" for st f millis rq c
proof
  fix d d' src h len r
  assume "sha32 st \<and> blobs_ok st d" "outside st src"
    "ingest_spooled_file st (steady f) millis d rq src h len c = (d', r)"
  then show "sha32 st \<and> blobs_ok st d'"
    using ingest_honest[of st "steady f" millis d rq src h len c d' r] blobs_ok_honest
    by (auto simp: steady_def)
next
  fix d d' src bs md
  let ?h = "hex (st_sha st bs)"
  assume a: "sha32 st \<and> blobs_ok st d" "outside st src" "fmlookup d src = Some bs" "no_collision st d bs"
    and i: "ingest_spooled_file st (steady f) millis d rq src ?h (length bs) c = (d', Inr md)"
  note ok = ingest_ok[OF i a(2)]
  have found: "fmlookup d' (blob_name st ?h) = Some bs"
  proof (cases "fmlookup d (blob_name st ?h)")
    case None
    then show ?thesis using ok(5) a(3) by simp
  next
    case (Some bs')
    then have "bs' = bs" using a(1,4) ok(2) by (auto simp: blobs_ok_def no_collision_def)
    then show ?thesis using ok(4) Some by simp
  qed
  have f: "am_hash md = ?h" "am_length md = length bs" "am_scope md = rq_scope rq" "am_session md = cr_session c"
    using ok(3) by (simp_all add: new_metadata_def)
  have "allows c md" using allows_own[of c md] ok(1) f(3,4) by simp
  then have "read_bounded st no_faults d' md (length bs) c = Inr (take (length bs) bs)"
    by (rule read_bounded_blob) (simp_all only: f(1,2) ok(2) found)
  then show "read_bounded st no_faults d' md (am_length md) c = Inr bs" by (simp add: f(2))
next
  fix d d' src h len md
  assume o: "outside st src" and i: "ingest_spooled_file st (steady f) millis d rq src h len c = (d', Inr md)"
  show "fmlookup d' src = None" by (rule ingest_ok(7)[OF i o])
  show "am_length md = len" using ingest_ok(3)[OF i o] by (simp add: new_metadata_def)
qed

end
