(* ===== verification/ArtifactClaims.thy ===== *)
theory ArtifactClaims
  imports ArtifactProps
begin

text \<open>
  The properties of the artifact store (\<open>omp-runtime/src/artifact.rs\<close>), with instances on a store
  whose hash is constant.
\<close>

section \<open>A sample store\<close>

definition sample_store :: artifact_store where
  "sample_store = \<lparr>st_root = [''r''], st_sha = (\<lambda>_. replicate 32 0), st_debug = id\<rparr>"

definition sample_request :: "artifact_scope \<Rightarrow> artifact_request" where
  "sample_request s = \<lparr>rq_id = ''a'', rq_media = ''text/plain'', rq_origin = SystemOrigin,
     rq_retention = SessionRetention, rq_scope = s\<rparr>"

definition zero_hash :: string where "zero_hash = hex (replicate 32 0)"

lemma sample_sha32: "sha32 sample_store"
  by (simp add: sha32_def sample_store_def)

lemma sample_digest [simp]: "hex (st_sha sample_store bs) = zero_hash"
  by (simp add: sample_store_def zero_hash_def)

lemma zero_hash_valid [simp]: "valid_hash zero_hash"
  using valid_hash_hex[OF sample_sha32, of "[]"] by simp

lemma empty_disk [simp]: "blobs_ok st fmempty" "no_collision st fmempty bs"
  by (simp_all add: blobs_ok_def no_collision_def)

lemma sample_stored:
  "\<exists>d'. store_stream sample_store no_faults (0, 0) fmempty (sample_request SessionScope) [ReadOk [7]] 10
       (session_credential ''s'')
     = (d', Inr (new_metadata (sample_request SessionScope) zero_hash 1 0 (session_credential ''s'')))"
  by (simp add: store_stream_def no_faults_def allows_store_def sample_request_def session_credential_def
      move_file_def Let_def)

definition sample_metadata :: artifact_metadata where
  "sample_metadata = new_metadata (sample_request SessionScope) zero_hash 1 0 (session_credential ''s'')"

lemma sample_allows [simp]: "allows (session_credential ''s'') sample_metadata"
  by (simp add: sample_metadata_def allows_def new_metadata_def session_credential_def sample_request_def)

section \<open>Properties\<close>

text \<open>
  C14: What is stored can be read back: if a store operation on a sound disk reports success,
  then after any later store operations and foreign writes, whatever faults they meet, every
  caller the metadata allows reads exactly the bytes the reader delivered (the first
  \<open>n\<close> of them), provided no other content on the disk has the same SHA-256.
\<close>

theorem artifact_roundtrip:
  assumes "sha32 st" "blobs_ok st d" "no_collision st d (delivered reader)"
    and "store_stream st f clock d rq reader limit c = (d', Inr md)"
    and "store_steps st d' d''" and "allows c' md"
  shows "read_bounded st no_faults d'' md n c' = Inr (take n (delivered reader))
     \<and> am_length md = length (delivered reader) \<and> am_length md \<le> limit"
proof -
  let ?h = "hex (st_sha st (delivered reader))"
  note ok = store_stream_ok[OF assms(4,1)]
  have "fmlookup d' (blob_name st ?h) = Some (delivered reader)"
    using ok(4) assms(2,3) valid_hash_hex[OF assms(1)]
    by (auto simp: blobs_ok_def no_collision_def split: option.splits)
  then have "fmlookup d'' (blob_name st ?h) = Some (delivered reader)"
    using store_steps_kept[OF assms(5)] by (simp add: kept_def)
  moreover have f: "am_hash md = ?h" "am_length md = length (delivered reader)"
    using ok(3) by (simp_all add: new_metadata_def)
  ultimately have "read_bounded st no_faults d'' md n c' = Inr (take n (delivered reader))"
    by (intro read_bounded_blob[OF assms(6)]) (simp_all only: f valid_hash_hex[OF assms(1)])
  then show ?thesis using f(2) ok(2) by simp
qed

theorem artifact_roundtrip_witness:
  "\<exists>d md. read_bounded sample_store no_faults d md 1 (session_credential ''s'') = Inr [7]"
proof -
  obtain d' where "store_stream sample_store no_faults (0, 0) fmempty (sample_request SessionScope)
      [ReadOk [7]] 10 (session_credential ''s'') = (d', Inr sample_metadata)"
    using sample_stored by (auto simp: sample_metadata_def)
  from artifact_roundtrip[OF sample_sha32 _ _ this store_steps.stay sample_allows, of 1] show ?thesis by auto
qed

text \<open>
  C15: Isolation: whoever reads the bytes of an artifact is the host, or the artifact is global
  and was published by the host, or reader and writer share what the scope names: the session,
  or the actor or job without belonging to two different sessions.  The writer itself may
  always read.
\<close>

theorem artifact_isolation:
  assumes "sha32 st" "store_stream st f clock d rq reader limit c = (d', Inr md)"
  shows "allows c md \<and>
    (read_bounded st g d'' md n r = Inr content \<longrightarrow>
       cr_host r
       \<or> (case rq_scope rq of
            GlobalScope \<Rightarrow> cr_host c
          | SessionScope \<Rightarrow> cr_session r \<noteq> None \<and> cr_session r = cr_session c
          | ActorScope a \<Rightarrow> cr_actor r = Some a \<and> (cr_host c \<or> cr_actor c = Some a)
              \<and> (cr_session r = None \<or> cr_session c = None \<or> cr_session r = cr_session c)
          | JobScope j \<Rightarrow> cr_job r = Some j \<and> (cr_host c \<or> cr_job c = Some j)
              \<and> (cr_session r = None \<or> cr_session c = None \<or> cr_session r = cr_session c)))"
proof -
  have md: "am_scope md = rq_scope rq" "am_session md = cr_session c" and
    w: "allows_store c (rq_scope rq) (cr_session c)"
    using store_stream_ok(1,3)[OF assms(2,1)] by (simp_all add: new_metadata_def)
  have "allows r md" if "read_bounded st g d'' md n r = Inr content"
    using that by (auto simp: read_bounded_def get_artifact_def try_bind_Inr_iff split: if_splits)
  then show ?thesis
    using allows_own[of c md] w md
    by (cases "rq_scope rq"; cases "cr_session r"; cases "cr_session c")
      (auto simp: allows_def allows_store_def split: if_splits)
qed

theorem artifact_isolation_witness:
  "allows (session_credential ''s'') sample_metadata
   \<and> (\<forall>g d n content. read_bounded sample_store g d sample_metadata n (session_credential ''t'') \<noteq> Inr content)"
proof -
  obtain d' where "store_stream sample_store no_faults (0, 0) fmempty (sample_request SessionScope)
      [ReadOk [7]] 10 (session_credential ''s'') = (d', Inr sample_metadata)"
    using sample_stored by (auto simp: sample_metadata_def)
  from artifact_isolation[OF sample_sha32 this, where r = "session_credential ''t''"]
  show ?thesis by (auto simp: sample_request_def session_credential_def)
qed

text \<open>
  C16: The quota is exact: with a permitted caller and no faults, storing succeeds if and only if
  the data fit the limit; otherwise the operation reports that the limit is exceeded and leaves
  every file but its own temporary as it was.  A slice in memory is treated the same.
\<close>

theorem store_quota_exact:
  assumes "sha32 st" "allows_store c (rq_scope rq) (cr_session c)" "reader_ok reader"
    and "store_stream st no_faults clock d rq reader limit c = (d', r)"
  shows "(if length (delivered reader) \<le> limit
         then r = Inr (new_metadata rq (hex (st_sha st (delivered reader))) (length (delivered reader)) (snd clock) c)
         else (\<exists>m. r = Inl (ArtLimitExceeded m)) \<and> d' = fmdrop (tmp_path st (rq_id rq) (fst clock)) d)
    \<and> (length content \<le> limit \<longleftrightarrow> is_ok (snd (store_bytes st no_faults clock d rq content limit c)))"
proof -
  have q: "if length (delivered es) \<le> limit
         then snd (store_stream st no_faults clock d rq es limit c) =
           Inr (new_metadata rq (hex (st_sha st (delivered es))) (length (delivered es)) (snd clock) c)
         else \<exists>m. store_stream st no_faults clock d rq es limit c =
           (fmdrop (tmp_path st (rq_id rq) (fst clock)) d, Inl (ArtLimitExceeded m))"
    if "reader_ok es" for es
    using spool_loop_quota[OF that, of "[]" limit] assms(2) valid_hash_hex[OF assms(1)]
    by (auto simp: store_stream_def no_faults_def Let_def case_prod_beta move_file_def split: if_splits)
  have part1: "if length (delivered reader) \<le> limit
         then r = Inr (new_metadata rq (hex (st_sha st (delivered reader))) (length (delivered reader)) (snd clock) c)
         else (\<exists>m. r = Inl (ArtLimitExceeded m)) \<and> d' = fmdrop (tmp_path st (rq_id rq) (fst clock)) d"
    using q[OF assms(3)] assms(4) by (auto split: if_splits)
  have part2: "length content \<le> limit \<longleftrightarrow> is_ok (snd (store_bytes st no_faults clock d rq content limit c))"
    using q[OF reader_ok_slice, of content] by (auto simp: store_bytes_def split: if_splits)
  show ?thesis using part1 part2 by (intro conjI)
qed

theorem store_quota_exact_witness:
  "\<exists>d' m. store_stream sample_store no_faults (0, 0) fmempty (sample_request SessionScope)
      [ReadOk [7, 7]] 1 (session_credential ''s'') = (d', Inl (ArtLimitExceeded m)) \<and> fmlookup d' [] = None"
proof (cases "store_stream sample_store no_faults (0, 0) fmempty (sample_request SessionScope)
      [ReadOk [7, 7]] 1 (session_credential ''s'')")
  case (Pair d' r)
  from store_quota_exact[OF sample_sha32 _ _ this, THEN conjunct1] Pair show ?thesis
    by (auto simp: allows_store_def session_credential_def sample_request_def reader_ok_def)
qed

text \<open>
  C17: A copy that stops half way is never noticed: when a spool cannot be renamed into the
  store and the copy fails after \<open>n\<close> bytes, the truncated file keeps the name of the whole
  content.  The next ingestion of the intact spool is then reported as a success, deletes the
  spool, and every read of the artifact it returned finds a corrupted blob.
\<close>

theorem torn_copy_poisons_blob:
  assumes "allows_store c (rq_scope rq) (cr_session c)" "sha32 st" "outside st src"
    and "fmlookup d src = Some content" "n < length content"
    and "fmlookup d (blob_name st (hex (st_sha st content))) = None"
    and "df_rename f" "df_copy f = Some (n, m)"
  shows "\<exists>d1 d2 md.
     ingest_spooled_file st f t1 d rq src (hex (st_sha st content)) (length content) c = (d1, Inl (ArtIo m))
     \<and> ingest_spooled_file st no_faults t2 d1 rq src (hex (st_sha st content)) (length content) c = (d2, Inr md)
     \<and> fmlookup d1 src = Some content \<and> fmlookup d2 src = None
     \<and> (\<exists>e. read_bounded st no_faults d2 md k c = Inl (ArtCorrupted e))"
proof -
  let ?h = "hex (st_sha st content)"
  let ?d1 = "fmupd (blob_name st ?h) (take n content) d"
  let ?md = "new_metadata rq ?h (length content) t2 c"
  have v: "blob_path st ?h = Inr (blob_name st ?h)" using assms(2) by simp
  have "ingest_spooled_file st f t1 d rq src ?h (length content) c = (?d1, Inl (ArtIo m))"
    using assms v by (simp add: ingest_spooled_file_def move_file_def)
  moreover have "ingest_spooled_file st no_faults t2 ?d1 rq src ?h (length content) c = (fmdrop src ?d1, Inr ?md)"
    using assms v by (simp add: ingest_spooled_file_def)
  moreover have "allows c ?md"
    using allows_own[of c ?md] assms(1) by (simp add: new_metadata_def)
  then have "\<exists>e. read_bounded st no_faults (fmdrop src ?d1) ?md k c = Inl (ArtCorrupted e)"
    using assms v by (simp add: read_bounded_def get_artifact_def new_metadata_def no_faults_def)
  moreover have "fmlookup ?d1 src = Some content" "fmlookup (fmdrop src ?d1) src = None"
    using assms by simp_all
  ultimately show ?thesis by blast
qed

theorem torn_copy_poisons_blob_witness:
  "\<exists>d1 d2 md e.
     ingest_spooled_file sample_store (no_faults\<lparr>df_rename := True, df_copy := Some (1, ''disk full'')\<rparr>) 0
       (fmupd [''s''] [7, 8] fmempty) (sample_request GlobalScope) [''s''] zero_hash 2 host_credential
       = (d1, Inl (ArtIo ''disk full''))
     \<and> ingest_spooled_file sample_store no_faults 0 d1 (sample_request GlobalScope) [''s''] zero_hash 2
         host_credential = (d2, Inr md)
     \<and> read_bounded sample_store no_faults d2 md 2 host_credential = Inl (ArtCorrupted e)"
proof -
  have l: "length [7 :: 8 word, 8] = 2" by simp
  have p: "allows_store host_credential (rq_scope (sample_request GlobalScope)) (cr_session host_credential)"
    "outside sample_store [''s'']" "fmlookup (fmupd [''s''] [7, 8] fmempty) [''s''] = Some [7 :: 8 word, 8]"
    "fmlookup (fmupd [''s''] [7, 8] fmempty) (blob_name sample_store (hex (st_sha sample_store [7 :: 8 word, 8]))) = None"
    "df_rename (no_faults\<lparr>df_rename := True, df_copy := Some (1, ''disk full'')\<rparr>)"
    "df_copy (no_faults\<lparr>df_rename := True, df_copy := Some (1, ''disk full'')\<rparr>) = Some (1, ''disk full'')"
    by (simp_all add: allows_store_def host_credential_def outside_def blobs_dir_def sample_store_def blob_name_def)
  from torn_copy_poisons_blob[OF p(1) sample_sha32 p(2,3) _ p(4,5,6), of 0 0 2, unfolded l sample_digest]
  show ?thesis by auto
qed

end
