(* ===== verification/Stream.thy ===== *)
theory Stream
  imports ArtifactProps
begin

text \<open>
  The bounded output streams of \<open>omp-runtime/src/stream.rs\<close>: a resident buffer with a byte and a
  line limit beside a disk spool with a limit of its own, the accumulator of both streams of a
  process, and the hand-over of a spool to the artifact store.  The content of an open spool file
  is part of the spool; the file is on the disk once the spool is finished.  What the operating
  system reports on a call is an argument of the operation that makes it.
\<close>

section \<open>The disk spool\<close>

datatype stream_kind = Stdout | Stderr | Combined

record stream_chunk =
  ch_kind :: stream_kind
  ch_data :: bytes
  ch_timestamp :: nat

record spool_summary =
  sum_path :: path
  sum_hash :: string
  sum_length :: nat
  sum_truncated :: bool

record stream_spool =
  sp_writer :: bool
  sp_path :: path
  sp_file :: bytes
  sp_hashed :: bytes
  sp_bytes :: nat
  sp_max :: nat
  sp_truncated :: bool

text \<open>The operating system creates the file under a path of its choice or refuses.\<close>

definition new_spool :: "(string, path) result \<Rightarrow> nat \<Rightarrow> (string, stream_spool) result" where
  "new_spool opened limit =
     try_bind opened (\<lambda>p. Inr \<lparr>sp_writer = True, sp_path = p, sp_file = [], sp_hashed = [], sp_bytes = 0,
       sp_max = limit, sp_truncated = False\<rparr>)"

definition write_chunk :: "string option \<Rightarrow> stream_spool \<Rightarrow> bytes \<Rightarrow> stream_spool \<times> (string, unit) result" where
  "write_chunk fault sp chunk =
     (if sp_truncated sp then (sp, Inr ())
      else if \<not> sp_writer sp then (sp, Inl ''Spool writer already closed'')
      else
        let remaining = sp_max sp - sp_bytes sp in
        if remaining = 0 then (sp\<lparr>sp_truncated := True\<rparr>, Inr ())
        else
          let to_write = min (length chunk) remaining;
              sp1 = (if to_write < length chunk then sp\<lparr>sp_truncated := True\<rparr> else sp) in
          if 0 < to_write
          then (case fault of
              Some m \<Rightarrow> (sp1, Inl m)
            | None \<Rightarrow> (sp1\<lparr>sp_file := sp_file sp @ take to_write chunk,
                          sp_hashed := sp_hashed sp @ take to_write chunk,
                          sp_bytes := sp_bytes sp + to_write\<rparr>, Inr ()))
          else (sp1, Inr ()))"

text \<open>
  \<open>finish\<close> consumes the spool.  \<open>fault = Some (n, m)\<close>: flushing failed with \<open>m\<close> when \<open>n\<close> bytes were on
  the disk; the file stays, because the writer has been taken.
\<close>

definition finish ::
  "(bytes \<Rightarrow> bytes) \<Rightarrow> (nat \<times> string) option \<Rightarrow> disk \<Rightarrow> stream_spool \<Rightarrow> disk \<times> (string, spool_summary) result" where
  "finish sha fault d sp =
     (case (if sp_writer sp then fault else None) of
        Some (n, m) \<Rightarrow> (fmupd (sp_path sp) (take n (sp_file sp)) d, Inl m)
      | None \<Rightarrow> (fmupd (sp_path sp) (sp_file sp) d,
          Inr \<lparr>sum_path = sp_path sp, sum_hash = hex (sha (sp_hashed sp)), sum_length = sp_bytes sp,
               sum_truncated = sp_truncated sp\<rparr>))"

section \<open>The bounded stream\<close>

record bounded_stream =
  bs_kind :: stream_kind
  bs_max_bytes :: nat
  bs_max_lines :: nat
  bs_buffer :: bytes
  bs_spool :: "stream_spool option"
  bs_spool_error :: "string option"
  bs_observed_bytes :: nat
  bs_observed_lines :: nat
  bs_accepted_lines :: nat
  bs_truncated :: bool

definition USIZE_MAX :: nat where "USIZE_MAX = 2 ^ 64 - 1"

definition saturating_add :: "nat \<Rightarrow> nat \<Rightarrow> nat" where
  "saturating_add a b = min (a + b) USIZE_MAX"

definition new_with_limits ::
  "stream_kind \<Rightarrow> nat \<Rightarrow> nat \<Rightarrow> nat \<Rightarrow> bool \<Rightarrow> (string, path) result \<Rightarrow> bounded_stream" where
  "new_with_limits kind mb ml max_artifact capture_spill opened =
     (let (spool, spool_error) =
          (if capture_spill
           then (case new_spool opened max_artifact of
               Inr s \<Rightarrow> (Some s, None)
             | Inl e \<Rightarrow> (None, Some (''Failed to initialize disk spool: '' @ e)))
           else (None, None)) in
      \<lparr>bs_kind = kind, bs_max_bytes = mb, bs_max_lines = ml, bs_buffer = [], bs_spool = spool,
       bs_spool_error = spool_error, bs_observed_bytes = 0, bs_observed_lines = 0,
       bs_accepted_lines = 0, bs_truncated = False\<rparr>)"

definition new_stream :: "stream_kind \<Rightarrow> nat \<Rightarrow> nat \<Rightarrow> bool \<Rightarrow> (string, path) result \<Rightarrow> bounded_stream" where
  "new_stream kind mb ml capture_spill opened =
     new_with_limits kind mb ml (100 * 1024 * 1024) capture_spill opened"

definition count_lines :: "bytes \<Rightarrow> nat" where
  "count_lines bs = length (filter (\<lambda>b. b = 10) bs)"

text \<open>The loop over the slice: bytes accepted, the line count, and whether the limit was hit.\<close>

fun accept_bytes :: "nat \<Rightarrow> nat \<Rightarrow> bytes \<Rightarrow> nat \<times> nat \<times> bool" where
  "accept_bytes ml lines [] = (0, lines, False)"
| "accept_bytes ml lines (b # bs) =
     (if b = 10 \<and> ml < lines + 1 then (0, lines + 1, True)
      else let (n, l, t) = accept_bytes ml (if b = 10 then lines + 1 else lines) bs in (Suc n, l, t))"

definition spool_push :: "string option \<Rightarrow> bounded_stream \<Rightarrow> bytes \<Rightarrow> bounded_stream" where
  "spool_push fault s chunk =
     (case bs_spool s of
        None \<Rightarrow> s
      | Some sp \<Rightarrow>
          (case write_chunk fault sp chunk of
             (_, Inl e) \<Rightarrow> s\<lparr>bs_spool_error := Some (''Failed writing to disk spool: '' @ e), bs_spool := None\<rparr>
           | (sp', Inr _) \<Rightarrow> s\<lparr>bs_spool := Some sp'\<rparr>))"

definition push :: "string option \<Rightarrow> bounded_stream \<Rightarrow> bytes \<Rightarrow> bounded_stream" where
  "push fault s0 chunk =
     (let s = spool_push fault
          (s0\<lparr>bs_observed_bytes := saturating_add (bs_observed_bytes s0) (length chunk),
              bs_observed_lines := saturating_add (bs_observed_lines s0) (count_lines chunk)\<rparr>) chunk in
      if bs_truncated s then s
      else
        let remaining = bs_max_bytes s - length (bs_buffer s) in
        if remaining = 0 \<and> chunk \<noteq> [] then s\<lparr>bs_truncated := True\<rparr>
        else
          let bytes_to_take = min (length chunk) remaining;
              slice = take bytes_to_take chunk;
              (accepted, lines, over) = accept_bytes (bs_max_lines s) (bs_accepted_lines s) slice in
          s\<lparr>bs_buffer := bs_buffer s @ take accepted slice,
            bs_accepted_lines := min lines (bs_max_lines s),
            bs_truncated := over \<or> bytes_to_take < length chunk \<or> accepted < bytes_to_take\<rparr>)"

definition is_spool_truncated :: "bounded_stream \<Rightarrow> bool" where
  "is_spool_truncated s = (case bs_spool s of Some sp \<Rightarrow> sp_truncated sp | None \<Rightarrow> False)"

definition finish_spool ::
  "(bytes \<Rightarrow> bytes) \<Rightarrow> (nat \<times> string) option \<Rightarrow> disk \<Rightarrow> bounded_stream
   \<Rightarrow> bounded_stream \<times> disk \<times> spool_summary option" where
  "finish_spool sha fault d s =
     (case bs_spool s of
        None \<Rightarrow> (s, d, None)
      | Some sp \<Rightarrow>
          (case finish sha fault d sp of
             (d', Inr summary) \<Rightarrow> (s\<lparr>bs_spool := None\<rparr>, d', Some summary)
           | (d', Inl _) \<Rightarrow> (s\<lparr>bs_spool := None\<rparr>, d', None)))"

definition persist_to_artifact_store ::
  "artifact_store \<Rightarrow> disk_faults \<Rightarrow> (nat \<times> string) option \<Rightarrow> nat \<Rightarrow> disk \<Rightarrow> bounded_stream
   \<Rightarrow> artifact_request \<Rightarrow> scope_credential
   \<Rightarrow> bounded_stream \<times> disk \<times> (artifact_error, artifact_metadata option) result" where
  "persist_to_artifact_store st f fault millis d s rq c =
     (case bs_spool_error s of
        Some e \<Rightarrow> (s, d, Inl (ArtIo e))
      | None \<Rightarrow>
          (case bs_spool s of
             None \<Rightarrow> (s, d, Inr None)
           | Some sp \<Rightarrow>
               let s' = s\<lparr>bs_spool := None\<rparr> in
               (case finish (st_sha st) fault d sp of
                  (d1, Inl m) \<Rightarrow> (s', d1, Inl (ArtIo m))
                | (d1, Inr summary) \<Rightarrow>
                    (case ingest_spooled_file st f millis d1 rq (sum_path summary) (sum_hash summary)
                        (sum_length summary) c of
                       (d2, Inl e) \<Rightarrow> (s', d2, Inl e)
                     | (d2, Inr md) \<Rightarrow> (s', d2, Inr (Some md))))))"

fun debug_kind :: "stream_kind \<Rightarrow> string" where
  "debug_kind Stdout = ''Stdout''"
| "debug_kind Stderr = ''Stderr''"
| "debug_kind Combined = ''Combined''"

definition truncation_diag_of :: "bounded_stream \<Rightarrow> artifact_id option \<Rightarrow> bool \<Rightarrow> truncation_diag option" where
  "truncation_diag_of s aid can_fetch =
     (if \<not> bs_truncated s then None
      else Some \<lparr>limit_bytes = bs_max_bytes s, diag_observed_bytes = bs_observed_bytes s,
        limit_lines = bs_max_lines s, diag_observed_lines = bs_observed_lines s,
        diag_artifact_id = aid, fetchable = can_fetch,
        diag_reason = debug_kind (bs_kind s) @ '' stream truncated after exceeding limits''\<rparr>)"

section \<open>The accumulator\<close>

record store_context =
  sc_store :: artifact_store
  sc_origin :: artifact_origin
  sc_scope :: artifact_scope
  sc_credential :: scope_credential

record accumulator =
  ac_stdout :: bounded_stream
  ac_stderr :: bounded_stream
  ac_event_count :: nat
  ac_max_events :: nat
  ac_events_truncated :: bool
  ac_context :: "store_context option"

definition with_spool_dir ::
  "limit_policy \<Rightarrow> bool \<Rightarrow> (string, path) result \<Rightarrow> (string, path) result \<Rightarrow> accumulator" where
  "with_spool_dir limits capture_spill out err =
     \<lparr>ac_stdout = new_with_limits Stdout (max_bytes limits) (max_lines limits) (max_artifact_bytes limits)
        capture_spill out,
      ac_stderr = new_with_limits Stderr (max_bytes limits) (max_lines limits) (max_artifact_bytes limits)
        capture_spill err,
      ac_event_count = 0, ac_max_events = max_events limits, ac_events_truncated = False,
      ac_context = None\<rparr>"

definition with_store ::
  "limit_policy \<Rightarrow> (string, path) result \<Rightarrow> (string, path) result \<Rightarrow> store_context \<Rightarrow> accumulator" where
  "with_store limits out err ctx = (with_spool_dir limits True out err)\<lparr>ac_context := Some ctx\<rparr>"

definition push_stdout :: "string option \<Rightarrow> accumulator \<Rightarrow> bytes \<Rightarrow> accumulator" where
  "push_stdout fault a chunk = a\<lparr>ac_stdout := push fault (ac_stdout a) chunk\<rparr>"

definition push_stderr :: "string option \<Rightarrow> accumulator \<Rightarrow> bytes \<Rightarrow> accumulator" where
  "push_stderr fault a chunk = a\<lparr>ac_stderr := push fault (ac_stderr a) chunk\<rparr>"

definition push_chunk :: "string option \<Rightarrow> accumulator \<Rightarrow> stream_chunk \<Rightarrow> accumulator" where
  "push_chunk fault a c =
     (case ch_kind c of
        Stdout \<Rightarrow> push_stdout fault a (ch_data c)
      | Stderr \<Rightarrow> push_stderr fault a (ch_data c)
      | Combined \<Rightarrow> push_stdout fault a (ch_data c))"

definition record_event :: "accumulator \<Rightarrow> accumulator \<times> bool" where
  "record_event a =
     (let a1 = a\<lparr>ac_event_count := ac_event_count a + 1\<rparr> in
      if ac_max_events a1 < ac_event_count a1 then (a1\<lparr>ac_events_truncated := True\<rparr>, False) else (a1, True))"

definition is_truncated :: "accumulator \<Rightarrow> bool" where
  "is_truncated a \<longleftrightarrow> bs_truncated (ac_stdout a) \<or> bs_truncated (ac_stderr a) \<or> ac_events_truncated a"

definition output_request :: "artifact_id \<Rightarrow> artifact_origin \<Rightarrow> artifact_scope \<Rightarrow> artifact_request" where
  "output_request i origin scope =
     \<lparr>rq_id = i, rq_media = ''text/plain'', rq_origin = origin, rq_retention = SessionRetention, rq_scope = scope\<rparr>"

definition has_output :: "bounded_stream \<Rightarrow> bool" where
  "has_output s \<longleftrightarrow> bs_spool s \<noteq> None \<and> 0 < bs_observed_bytes s"

text \<open>
  Both spools go to the store in turn; an error of the first leaves the second alone.  The
  identifiers are minted, the clocks and faults those of the two ingestions.
\<close>

definition persist_artifacts ::
  "artifact_store \<Rightarrow> (disk_faults \<times> (nat \<times> string) option \<times> nat) \<times> (disk_faults \<times> (nat \<times> string) option \<times> nat)
   \<Rightarrow> artifact_id \<times> artifact_id \<Rightarrow> disk \<Rightarrow> accumulator \<Rightarrow> artifact_origin \<Rightarrow> artifact_scope \<Rightarrow> scope_credential
   \<Rightarrow> accumulator \<times> disk \<times> (artifact_error, artifact_metadata list) result" where
  "persist_artifacts st env ids d a origin scope c =
     (let ((f1, flt1, t1), (f2, flt2, t2)) = env;
          (s1, d1, r1) = (if has_output (ac_stdout a)
             then persist_to_artifact_store st f1 flt1 t1 d (ac_stdout a)
                    (output_request (fst ids) origin scope) c
             else (ac_stdout a, d, Inr None));
          a1 = a\<lparr>ac_stdout := s1\<rparr> in
      case r1 of
        Inl e \<Rightarrow> (a1, d1, Inl e)
      | Inr m1 \<Rightarrow>
          let (s2, d2, r2) = (if has_output (ac_stderr a1)
                then persist_to_artifact_store st f2 flt2 t2 d1 (ac_stderr a1)
                       (output_request (snd ids) origin scope) c
                else (ac_stderr a1, d1, Inr None));
              a2 = a1\<lparr>ac_stderr := s2\<rparr> in
          (case r2 of
             Inl e \<Rightarrow> (a2, d2, Inl e)
           | Inr m2 \<Rightarrow> (a2, d2, Inr (case_option [] (\<lambda>m. [m]) m1 @ case_option [] (\<lambda>m. [m]) m2))))"

definition finish_artifacts ::
  "(disk_faults \<times> (nat \<times> string) option \<times> nat) \<times> (disk_faults \<times> (nat \<times> string) option \<times> nat)
   \<Rightarrow> artifact_id \<times> artifact_id \<Rightarrow> disk \<Rightarrow> accumulator
   \<Rightarrow> accumulator \<times> disk \<times> (artifact_error, artifact_metadata list) result" where
  "finish_artifacts env ids d a =
     (case ac_context a of
        Some ctx \<Rightarrow> persist_artifacts (sc_store ctx) env ids d a (sc_origin ctx) (sc_scope ctx) (sc_credential ctx)
      | None \<Rightarrow> (a, d, Inr []))"

end
