(* ===== verification/StreamClaims.thy ===== *)
theory StreamClaims
  imports Stream ArtifactClaims
begin

text \<open>
  The properties of the output streams (\<open>omp-runtime/src/stream.rs\<close>): the resident buffer is a
  window on the whole output that does not depend on how the output was cut into chunks, the
  spool is the output up to its limit, and what is persisted can be read back.
\<close>

section \<open>The window\<close>

text \<open>The longest beginning of the output within \<open>mb\<close> bytes and \<open>ml\<close> line ends.\<close>

fun window :: "nat \<Rightarrow> nat \<Rightarrow> bytes \<Rightarrow> bytes" where
  "window mb ml [] = []"
| "window 0 ml (b # bs) = []"
| "window (Suc mb) ml (b # bs) =
     (if b = 10 then (case ml of 0 \<Rightarrow> [] | Suc k \<Rightarrow> b # window mb k bs) else b # window mb ml bs)"

lemma count_lines_simps [simp]:
  "count_lines [] = 0" "count_lines (b # bs) = (if b = 10 then Suc (count_lines bs) else count_lines bs)"
  "count_lines (xs @ ys) = count_lines xs + count_lines ys"
  by (simp_all add: count_lines_def)

lemma window_fits: "window mb ml bs = bs \<longleftrightarrow> length bs \<le> mb \<and> count_lines bs \<le> ml"
  by (induction mb ml bs rule: window.induct) (auto split: nat.splits)

lemma window_bounds: "length (window mb ml bs) \<le> mb \<and> count_lines (window mb ml bs) \<le> ml"
  by (induction mb ml bs rule: window.induct) (auto split: nat.splits)

lemma window_prefix: "\<exists>rest. bs = window mb ml bs @ rest"
  by (induction mb ml bs rule: window.induct) (auto split: nat.splits)

lemma window_append:
  "window mb ml (bs @ cs) =
     (if window mb ml bs = bs then bs @ window (mb - length bs) (ml - count_lines bs) cs else window mb ml bs)"
proof (induction mb ml bs rule: window.induct)
  case (2 ml b bs)
  then show ?case by simp
next
  case (3 mb ml b bs)
  then show ?case by (cases ml) simp_all
qed simp

text \<open>The loop of \<open>push\<close> takes the window of the chunk.\<close>

lemma accept_bytes_window:
  assumes "lines \<le> ml" and "accept_bytes ml lines bs = (n, l, over)"
  shows "take n bs = window (length bs) (ml - lines) bs \<and> (over \<longleftrightarrow> n < length bs) \<and> n \<le> length bs
     \<and> (\<not> over \<longrightarrow> l = lines + count_lines bs \<and> l \<le> ml) \<and> (over \<longrightarrow> l = Suc ml)"
  using assms
proof (induction ml lines bs arbitrary: n l over rule: accept_bytes.induct)
  case (2 ml lines b bs)
  show ?case
  proof (cases "b = 10 \<and> ml < lines + 1")
    case True
    then show ?thesis using "2.prems" by auto
  next
    case False
    let ?l = "if b = 10 then lines + 1 else lines"
    obtain n' where a: "accept_bytes ml ?l bs = (n', l, over)" "n = Suc n'"
      using "2.prems"(2) False by (auto split: prod.splits)
    have le: "?l \<le> ml" using False "2.prems"(1) by auto
    show ?thesis
    proof (cases "b = 10")
      case True
      then have "ml - lines = Suc (ml - Suc lines)" using le by simp
      then show ?thesis using "2.IH"[OF False le a(1)] a(2) True by auto
    next
      case b: False
      then show ?thesis using "2.IH"[OF False le a(1)] a(2) by (cases "ml - lines") auto
    qed
  qed
qed simp

lemma window_take: "window (length (take k bs)) ml (take k bs) = window k ml bs"
proof (induction k ml bs rule: window.induct)
  case (3 mb ml b bs)
  then show ?case by (cases ml) simp_all
qed simp_all

section \<open>One push\<close>

lemma spool_push_keeps [simp]:
  "bs_buffer (spool_push f s c) = bs_buffer s" "bs_truncated (spool_push f s c) = bs_truncated s"
  "bs_max_bytes (spool_push f s c) = bs_max_bytes s" "bs_max_lines (spool_push f s c) = bs_max_lines s"
  "bs_accepted_lines (spool_push f s c) = bs_accepted_lines s"
  "bs_observed_bytes (spool_push f s c) = bs_observed_bytes s"
  "bs_observed_lines (spool_push f s c) = bs_observed_lines s"
  by (auto simp: spool_push_def split: option.splits prod.splits sum.splits)

lemma spool_push_observed [simp]:
  "bs_spool (spool_push f (s\<lparr>bs_observed_bytes := x, bs_observed_lines := y\<rparr>) c) = bs_spool (spool_push f s c)"
  "bs_spool_error (spool_push f (s\<lparr>bs_observed_bytes := x, bs_observed_lines := y\<rparr>) c)
     = bs_spool_error (spool_push f s c)"
  by (simp_all add: spool_push_def split: option.splits prod.splits sum.splits)

lemma stream_push_keeps [simp]:
  "bs_max_bytes (push f s c) = bs_max_bytes s" "bs_max_lines (push f s c) = bs_max_lines s"
  "bs_observed_bytes (push f s c) = saturating_add (bs_observed_bytes s) (length c)"
  "bs_observed_lines (push f s c) = saturating_add (bs_observed_lines s) (count_lines c)"
  "bs_spool (push f s c) = bs_spool (spool_push f s c)"
  "bs_spool_error (push f s c) = bs_spool_error (spool_push f s c)"
  by (simp_all add: push_def Let_def split: prod.splits)

text \<open>The buffer after the input \<open>xs\<close>.\<close>

definition windowed :: "bounded_stream \<Rightarrow> bytes \<Rightarrow> bool" where
  "windowed s xs \<longleftrightarrow>
     bs_buffer s = window (bs_max_bytes s) (bs_max_lines s) xs \<and> (bs_truncated s \<longleftrightarrow> bs_buffer s \<noteq> xs)
     \<and> (\<not> bs_truncated s \<longrightarrow> bs_accepted_lines s = count_lines xs)"

lemma push_windowed:
  assumes w: "windowed s xs"
  shows "windowed (push f s c) (xs @ c)"
proof (cases "bs_truncated s")
  case True
  then have p: "bs_buffer (push f s c) = bs_buffer s" "bs_truncated (push f s c)"
    by (simp_all add: push_def Let_def)
  let ?w = "window (bs_max_bytes s) (bs_max_lines s) xs"
  have ne: "?w \<noteq> xs" using w True unfolding windowed_def by metis
  obtain rest where r: "xs = ?w @ rest" using window_prefix by blast
  with ne have "rest \<noteq> []" by auto
  moreover have "length xs = length ?w + length rest" using arg_cong[OF r, of length] by simp
  ultimately have "length ?w < length (xs @ c)" by simp
  then have "?w \<noteq> xs @ c" by (metis less_irrefl)
  moreover have "window (bs_max_bytes s) (bs_max_lines s) (xs @ c) = ?w" using ne by (simp add: window_append)
  moreover have "bs_buffer s = ?w" using w by (simp add: windowed_def)
  ultimately show ?thesis using p by (simp add: windowed_def)
next
  case False
  then have buf: "bs_buffer s = xs" "window (bs_max_bytes s) (bs_max_lines s) xs = xs"
    and lines: "bs_accepted_lines s = count_lines xs" using w by (auto simp: windowed_def)
  have fits: "length xs \<le> bs_max_bytes s" "count_lines xs \<le> bs_max_lines s"
    using buf(2) window_fits by blast+
  let ?rem = "bs_max_bytes s - length xs" and ?ml = "bs_max_lines s"
  have wa: "window (bs_max_bytes s) ?ml (xs @ c) = xs @ window ?rem (?ml - count_lines xs) c"
    using buf(2) by (simp add: window_append)
  show ?thesis
  proof (cases "?rem = 0 \<and> c \<noteq> []")
    case True
    then have "window ?rem (?ml - count_lines xs) c = []" by (cases c) auto
    moreover have "bs_buffer (push f s c) = xs" "bs_truncated (push f s c)"
      using True False buf(1) by (auto simp: push_def Let_def)
    ultimately show ?thesis using wa True by (simp add: windowed_def)
  next
    case nz: False
    let ?sl = "take (min (length c) ?rem) c"
    obtain n l over where a: "accept_bytes ?ml (count_lines xs) ?sl = (n, l, over)" by (metis prod_cases3)
    note aw = accept_bytes_window[OF fits(2) a]
    have sl: "?sl = take ?rem c" by (simp add: min_def)
    have p: "bs_buffer (push f s c) = xs @ take n ?sl"
      "bs_truncated (push f s c) \<longleftrightarrow> over \<or> min (length c) ?rem < length c \<or> n < min (length c) ?rem"
      "bs_accepted_lines (push f s c) = min l ?ml"
      using nz False buf(1) lines a by (auto simp: push_def Let_def)
    have "take n ?sl = window ?rem (?ml - count_lines xs) c"
      using aw unfolding sl by (simp only: window_take)
    then have buf': "bs_buffer (push f s c) = window (bs_max_bytes s) ?ml (xs @ c)" using p(1) wa by simp
    have tr: "bs_truncated (push f s c) \<longleftrightarrow> take n ?sl \<noteq> c"
      using p(2) aw by (auto simp: min_def take_all_iff dest: arg_cong[of _ _ length] split: if_splits)
    have "l = count_lines (xs @ c) \<and> l \<le> ?ml" if "take n ?sl = c"
    proof -
      have "\<not> over" "length c \<le> ?rem" using that tr p(2) by (auto simp: min_def split: if_splits)
      moreover from this have "?sl = c" by (simp add: min_def)
      ultimately show ?thesis using aw by (metis count_lines_simps(3))
    qed
    then show ?thesis using buf' tr p(1,3) unfolding windowed_def by auto
  qed
qed

lemma saturating_twice: "saturating_add (saturating_add a b) c = saturating_add a (b + c)"
  by (simp add: saturating_add_def)

lemma fold_push_windowed:
  "windowed s xs \<Longrightarrow> bs_observed_bytes s = min (length xs) USIZE_MAX
     \<Longrightarrow> bs_observed_lines s = min (count_lines xs) USIZE_MAX
     \<Longrightarrow> s' = fold (\<lambda>(f, c) s. push f s c) fcs s
     \<Longrightarrow> windowed s' (xs @ concat (map snd fcs)) \<and> bs_max_bytes s' = bs_max_bytes s
       \<and> bs_max_lines s' = bs_max_lines s
       \<and> bs_observed_bytes s' = min (length (xs @ concat (map snd fcs))) USIZE_MAX
       \<and> bs_observed_lines s' = min (count_lines (xs @ concat (map snd fcs))) USIZE_MAX"
proof (induction fcs arbitrary: s xs)
  case (Cons fc fcs)
  obtain f c where fc: "fc = (f, c)" by (cases fc)
  have "bs_observed_bytes (push f s c) = min (length (xs @ c)) USIZE_MAX"
    "bs_observed_lines (push f s c) = min (count_lines (xs @ c)) USIZE_MAX"
    using Cons.prems(2,3) by (simp_all add: saturating_add_def)
  from Cons.IH[OF push_windowed[OF Cons.prems(1)] this] Cons.prems(4) fc show ?case by simp
qed simp

lemma new_stream_fields [simp]:
  "bs_max_bytes (new_with_limits k mb ml ma cs op) = mb" "bs_max_lines (new_with_limits k mb ml ma cs op) = ml"
  "bs_buffer (new_with_limits k mb ml ma cs op) = []" "\<not> bs_truncated (new_with_limits k mb ml ma cs op)"
  "bs_observed_bytes (new_with_limits k mb ml ma cs op) = 0" "bs_observed_lines (new_with_limits k mb ml ma cs op) = 0"
  "bs_accepted_lines (new_with_limits k mb ml ma cs op) = 0"
  by (simp_all add: new_with_limits_def split: prod.splits)

section \<open>The spool\<close>

definition spooled :: "stream_spool \<Rightarrow> bytes \<Rightarrow> bool" where
  "spooled sp xs \<longleftrightarrow>
     sp_writer sp \<and> sp_file sp = take (sp_max sp) xs \<and> sp_hashed sp = sp_file sp
     \<and> sp_bytes sp = length (sp_file sp) \<and> (sp_truncated sp \<longrightarrow> sp_max sp \<le> length xs)
     \<and> (sp_max sp < length xs \<longrightarrow> sp_truncated sp)"

lemma write_chunk_spooled:
  assumes "spooled sp xs"
  shows "\<exists>sp'. write_chunk None sp c = (sp', Inr ()) \<and> spooled sp' (xs @ c) \<and> sp_max sp' = sp_max sp
     \<and> sp_path sp' = sp_path sp"
  using assms by (auto simp: write_chunk_def spooled_def Let_def min_def)

lemma push_spooled:
  assumes "bs_spool s = Some sp" "spooled sp xs" "bs_spool_error s = None"
  shows "\<exists>sp'. bs_spool (push None s c) = Some sp' \<and> spooled sp' (xs @ c) \<and> sp_max sp' = sp_max sp
     \<and> sp_path sp' = sp_path sp \<and> bs_spool_error (push None s c) = None"
  using write_chunk_spooled[OF assms(2), of c] assms(1,3) by (auto simp: spool_push_def)

lemma fold_push_spooled:
  "bs_spool s = Some sp \<Longrightarrow> spooled sp xs \<Longrightarrow> bs_spool_error s = None
     \<Longrightarrow> \<exists>sp'. bs_spool (fold (\<lambda>c s. push None s c) cs s) = Some sp' \<and> spooled sp' (xs @ concat cs)
       \<and> sp_max sp' = sp_max sp \<and> sp_path sp' = sp_path sp
       \<and> bs_spool_error (fold (\<lambda>c s. push None s c) cs s) = None"
proof (induction cs arbitrary: s sp xs)
  case (Cons c cs)
  from push_spooled[OF Cons.prems, of c] obtain sp' where sp: "bs_spool (push None s c) = Some sp'"
    "spooled sp' (xs @ c)" "sp_max sp' = sp_max sp" "sp_path sp' = sp_path sp" "bs_spool_error (push None s c) = None"
    by blast
  from Cons.IH[OF sp(1,2,5)] sp(3,4) show ?case by auto
qed auto

section \<open>Properties\<close>

text \<open>
  C18: The resident buffer is a window on the output: however the output was cut into chunks, and
  whatever faults the spool met, the buffer is the longest beginning of the output within the
  byte and line limits; the stream calls itself truncated exactly when something is missing from
  it; and the counters report the whole output (saturating).
\<close>

theorem buffer_is_window:
  assumes "s = fold (\<lambda>(f, c) s. push f s c) chunks (new_with_limits kind mb ml ma capture opened)"
  defines "everything \<equiv> concat (map snd chunks)"
  shows "(bs_buffer s = window mb ml everything)
    \<and> (length (bs_buffer s) \<le> mb \<and> count_lines (bs_buffer s) \<le> ml)
    \<and> (bs_truncated s \<longleftrightarrow> mb < length everything \<or> ml < count_lines everything)
    \<and> (bs_observed_bytes s = min (length everything) USIZE_MAX
         \<and> bs_observed_lines s = min (count_lines everything) USIZE_MAX)"
proof -
  have w0: "windowed (new_with_limits kind mb ml ma capture opened) []" by (simp add: windowed_def)
  note w = fold_push_windowed[OF w0 _ _ assms(1)]
  have b: "bs_buffer s = window mb ml everything" using w by (simp add: windowed_def everything_def)
  have part2: "length (bs_buffer s) \<le> mb \<and> count_lines (bs_buffer s) \<le> ml" unfolding b by (rule window_bounds)
  have "bs_truncated s \<longleftrightarrow> bs_buffer s \<noteq> everything" using w by (simp add: windowed_def everything_def)
  also have "\<dots> \<longleftrightarrow> mb < length everything \<or> ml < count_lines everything"
    unfolding b window_fits by (simp add: not_le)
  finally have part3: "bs_truncated s \<longleftrightarrow> mb < length everything \<or> ml < count_lines everything" .
  have part4: "bs_observed_bytes s = min (length everything) USIZE_MAX
      \<and> bs_observed_lines s = min (count_lines everything) USIZE_MAX" using w by (simp add: everything_def)
  show ?thesis using b part2 part3 part4 by simp
qed

theorem buffer_is_window_witness:
  "bs_buffer (fold (\<lambda>(f, c) s. push f s c) [(None, [65, 10]), (None, [66, 10, 67])]
      (new_with_limits Stdout 10 1 5 True (Inr [''p'']))) = [65, 10, 66]"
proof -
  have "window 10 1 (concat (map snd [(None :: string option, [65, 10]), (None, [66, 10, 67])])) = [65, 10, 66]"
    by code_simp
  then show ?thesis
    using buffer_is_window[of _ "[(None, [65, 10]), (None, [66, 10, 67])]" Stdout 10 1 5 True "Inr [''p'']", OF refl, THEN conjunct1]
    by (simp only:)
qed

text \<open>
  C19: Persisted output reads back: with no fault while the output was collected, handing the
  spool to the artifact store without a torn copy gives an artifact of exactly the first
  \<open>max_artifact_bytes\<close> bytes of the output, whatever the limits of the resident buffer; the
  spool file is gone and the stream holds no spool any more.
\<close>

theorem persisted_output_reads_back:
  assumes "s = fold (\<lambda>c s. push None s c) chunks (new_with_limits kind mb ml ma True (Inr p))"
    and "sha32 st" "blobs_ok st d" "no_collision st d (take ma (concat chunks))" "outside st p"
    and "persist_to_artifact_store st (steady f) None millis d s rq c = (s', d', Inr r)"
  shows "\<exists>md. r = Some md \<and> read_bounded st no_faults d' md (am_length md) c = Inr (take ma (concat chunks))
     \<and> am_length md = min ma (length (concat chunks)) \<and> blobs_ok st d' \<and> fmlookup d' p = None
     \<and> bs_spool s' = None"
proof -
  let ?out = "take ma (concat chunks)"
  let ?s0 = "new_with_limits kind mb ml ma True (Inr p)"
  obtain sp where sp: "bs_spool ?s0 = Some sp" "spooled sp []" "bs_spool_error ?s0 = None" "sp_max sp = ma" "sp_path sp = p"
    by (simp add: new_with_limits_def new_spool_def spooled_def)
  from fold_push_spooled[OF sp(1-3), of chunks] assms(1) sp(4,5)
  obtain sp' where sp': "bs_spool s = Some sp'" "spooled sp' (concat chunks)" "sp_max sp' = ma" "sp_path sp' = p"
    "bs_spool_error s = None" by auto
  let ?d1 = "fmupd p ?out d"
  obtain md where r: "r = Some md" "s' = s\<lparr>bs_spool := None\<rparr>"
    and i: "ingest_spooled_file st (steady f) millis ?d1 rq p (hex (st_sha st ?out)) (length ?out) c = (d', Inr md)"
    using assms(6) sp' by (auto simp: persist_to_artifact_store_def finish_def spooled_def Let_def min_def split: sum.splits prod.splits)
  have "blobs_ok st ?d1" using assms(3,5) by (auto simp: blobs_ok_def)
  moreover have "no_collision st ?d1 ?out" using assms(4) by (auto simp: no_collision_def)
  ultimately have t: "(sha32 st \<and> blobs_ok st d') \<and> read_bounded st no_faults d' md (am_length md) c = Inr ?out
      \<and> fmlookup d' p = None \<and> am_length md = length ?out"
    using assms(2,5) by (intro artifacts.takes_over[OF _ _ _ _ i]) simp_all
  then show ?thesis using r by (auto simp: min.commute)
qed

theorem persisted_output_reads_back_witness:
  "\<exists>d md. read_bounded sample_store no_faults d md (am_length md) host_credential = Inr [65, 66]"
proof -
  have o: "outside sample_store [''p'']" by (simp add: outside_def sample_store_def blobs_dir_def)
  let ?s = "fold (\<lambda>c s. push None s c) [[65], [66, 67]] (new_with_limits Stdout 1 1 2 True (Inr [''p'']))"
  obtain s' d' r where p: "persist_to_artifact_store sample_store (steady no_faults) None 0 fmempty ?s
      (sample_request SessionScope) host_credential = (s', d', Inr r)"
  proof -
    have "\<exists>s' d' r. persist_to_artifact_store sample_store (steady no_faults) None 0 fmempty ?s
      (sample_request SessionScope) host_credential = (s', d', Inr r)"
      by (simp add: push_def spool_push_def write_chunk_def new_with_limits_def new_spool_def saturating_add_def
          count_lines_def persist_to_artifact_store_def finish_def ingest_spooled_file_def allows_store_def
          host_credential_def move_file_def hash_file_def steady_def no_faults_def Let_def
          o)
    then show thesis using that by blast
  qed
  from persisted_output_reads_back[OF refl sample_sha32 _ _ o p] show ?thesis by auto
qed

section \<open>The accumulator\<close>

text \<open>What the readers of a process feed it, with the answers of \<open>record_event\<close>.\<close>

datatype ac_input = Chunk "string option" stream_chunk | Event

fun feed :: "ac_input \<Rightarrow> accumulator \<times> bool list \<Rightarrow> accumulator \<times> bool list" where
  "feed (Chunk f c) (a, oks) = (push_chunk f a c, oks)"
| "feed Event (a, oks) = (let (a', ok) = record_event a in (a', oks @ [ok]))"

fun to_stdout :: "ac_input \<Rightarrow> (string option \<times> bytes) list" where
  "to_stdout (Chunk f c) = (if ch_kind c = Stderr then [] else [(f, ch_data c)])"
| "to_stdout Event = []"

fun to_stderr :: "ac_input \<Rightarrow> (string option \<times> bytes) list" where
  "to_stderr (Chunk f c) = (if ch_kind c = Stderr then [(f, ch_data c)] else [])"
| "to_stderr Event = []"

definition event_count :: "ac_input list \<Rightarrow> nat" where
  "event_count is = length (filter (\<lambda>i. i = Event) is)"

lemma feed_streams:
  "ac_stdout (fst (fold feed is x)) = fold (\<lambda>(f, c) s. push f s c) (concat (map to_stdout is)) (ac_stdout (fst x))
   \<and> ac_stderr (fst (fold feed is x)) = fold (\<lambda>(f, c) s. push f s c) (concat (map to_stderr is)) (ac_stderr (fst x))"
proof (induction "is" arbitrary: x)
  case (Cons i "is")
  obtain a oks where x: "x = (a, oks)" by (cases x)
  show ?case
  proof (cases i)
    case (Chunk f c)
    then show ?thesis using Cons[of "feed i x"] x
      by (cases "ch_kind c") (simp_all add: push_chunk_def push_stdout_def push_stderr_def)
  next
    case Event
    then show ?thesis using Cons[of "feed i x"] x by (simp add: record_event_def Let_def)
  qed
qed simp

lemma feed_events:
  "ac_max_events a = m \<Longrightarrow> oks = map (\<lambda>k. k < m) [0..<ac_event_count a]
     \<Longrightarrow> ac_events_truncated a \<longleftrightarrow> m < ac_event_count a
     \<Longrightarrow> fold feed is (a, oks) = (a', oks') \<Longrightarrow>
   oks' = map (\<lambda>k. k < m) [0..<ac_event_count a'] \<and> ac_event_count a' = ac_event_count a + event_count is
     \<and> (ac_events_truncated a' \<longleftrightarrow> m < ac_event_count a')"
proof (induction "is" arbitrary: a oks)
  case (Cons i "is")
  show ?case
  proof (cases i)
    case (Chunk f c)
    have "ac_max_events (push_chunk f a c) = m" "ac_event_count (push_chunk f a c) = ac_event_count a"
      "ac_events_truncated (push_chunk f a c) = ac_events_truncated a"
      using Cons.prems(1) by (cases "ch_kind c"; simp add: push_chunk_def push_stdout_def push_stderr_def)+
    then show ?thesis using Cons.IH[of "push_chunk f a c" oks] Cons.prems Chunk by (simp add: event_count_def)
  next
    case Event
    obtain a1 ok where r: "record_event a = (a1, ok)" by (cases "record_event a")
    have "ac_max_events a1 = m" "ac_event_count a1 = Suc (ac_event_count a)" "ok \<longleftrightarrow> ac_event_count a < m"
      "ac_events_truncated a1 \<longleftrightarrow> m < Suc (ac_event_count a)"
      using r Cons.prems(1,3) by (auto simp: record_event_def Let_def split: if_splits)
    then show ?thesis using Cons.IH[of a1 "oks @ [ok]"] Cons.prems Event r by (simp add: event_count_def)
  qed
qed (simp add: event_count_def)

text \<open>
  The accumulator is bounded and honest: after any chunks of either stream and any events,
  each buffer is the window on its own stream, \<open>record_event\<close> has accepted exactly the first
  \<open>max_events\<close> events, and the accumulator calls itself truncated exactly when output of one of
  the streams or an event went over its limit.
\<close>

theorem accumulator_bounded:
  assumes "fold feed inputs (with_spool_dir limits capture out err, []) = (a, oks)"
  defines "xs \<equiv> concat (map snd (concat (map to_stdout inputs)))"
  defines "ys \<equiv> concat (map snd (concat (map to_stderr inputs)))"
  shows "(bs_buffer (ac_stdout a) = window (max_bytes limits) (max_lines limits) xs)
    \<and> (bs_buffer (ac_stderr a) = window (max_bytes limits) (max_lines limits) ys)
    \<and> (oks = map (\<lambda>k. k < max_events limits) [0..<event_count inputs])
    \<and> (is_truncated a \<longleftrightarrow> max_bytes limits < length xs \<or> max_lines limits < count_lines xs
       \<or> max_bytes limits < length ys \<or> max_lines limits < count_lines ys
       \<or> max_events limits < event_count inputs)"
proof -
  let ?a = "with_spool_dir limits capture out err"
  have s: "ac_stdout a = fold (\<lambda>(f, c) s. push f s c) (concat (map to_stdout inputs))
        (new_with_limits Stdout (max_bytes limits) (max_lines limits) (max_artifact_bytes limits) capture out)"
    "ac_stderr a = fold (\<lambda>(f, c) s. push f s c) (concat (map to_stderr inputs))
        (new_with_limits Stderr (max_bytes limits) (max_lines limits) (max_artifact_bytes limits) capture err)"
    using feed_streams[of inputs "(?a, [])"] assms(1) by (simp_all add: with_spool_dir_def)
  have "windowed (new_with_limits k mb ml ma capture op) []" for k mb ml ma op by (simp add: windowed_def)
  note w = fold_push_windowed[OF this _ _ s(1), simplified, folded xs_def]
    fold_push_windowed[OF this _ _ s(2), simplified, folded ys_def]
  have out: "bs_buffer (ac_stdout a) = window (max_bytes limits) (max_lines limits) xs"
    and err: "bs_buffer (ac_stderr a) = window (max_bytes limits) (max_lines limits) ys"
    using w by (simp_all add: windowed_def)
  have e: "oks = map (\<lambda>k. k < max_events limits) [0..<ac_event_count a]" "ac_event_count a = event_count inputs"
    "ac_events_truncated a \<longleftrightarrow> max_events limits < ac_event_count a"
    using feed_events[OF _ _ _ assms(1), of "max_events limits"] by (simp_all add: with_spool_dir_def)
  have part3: "oks = map (\<lambda>k. k < max_events limits) [0..<event_count inputs]" using e(1,2) by simp
  have t: "bs_truncated (ac_stdout a) \<longleftrightarrow> bs_buffer (ac_stdout a) \<noteq> xs"
    "bs_truncated (ac_stderr a) \<longleftrightarrow> bs_buffer (ac_stderr a) \<noteq> ys"
    using w by (simp_all add: windowed_def)
  have part4: "is_truncated a \<longleftrightarrow> max_bytes limits < length xs \<or> max_lines limits < count_lines xs
       \<or> max_bytes limits < length ys \<or> max_lines limits < count_lines ys
       \<or> max_events limits < event_count inputs"
    unfolding is_truncated_def t out err window_fits e(2,3) by (auto simp: not_le)
  show ?thesis using out err part3 part4 by (intro conjI)
qed

theorem accumulator_bounded_witness:
  "snd (fold feed [Event, Chunk None \<lparr>ch_kind = Stdout, ch_data = [65], ch_timestamp = 0\<rparr>, Event]
     (with_spool_dir (default_limits\<lparr>max_events := 1\<rparr>) False (Inl []) (Inl []), [])) = [True, False]"
proof (cases "fold feed [Event, Chunk None \<lparr>ch_kind = Stdout, ch_data = [65], ch_timestamp = 0\<rparr>, Event]
     (with_spool_dir (default_limits\<lparr>max_events := 1\<rparr>) False (Inl []) (Inl []), [])")
  case (Pair a oks)
  have "map (\<lambda>k. k < (1 :: nat)) [0..<2] = [True, False]" by code_simp
  then show ?thesis using accumulator_bounded[OF Pair, THEN conjunct2, THEN conjunct2, THEN conjunct1] Pair by (simp add: event_count_def numeral_2_eq_2)
qed

end
