(* ===== verification/Replication.thy ===== *)
theory Replication
  imports Journal
begin

text \<open>
  Actors, errors and subscriber queues of \<open>omp-server\<close>: the roles and their permissions
  (\<open>role.rs\<close>), the errors (\<open>error.rs\<close>) and the bounded queue of replication messages of one
  subscriber (\<open>replication.rs\<close>).
\<close>

section \<open>Roles\<close>

datatype actor_role = Controller | InteractiveDriver | Spectator | SubagentInspector | AutomationWorker

datatype permission =
    ReadSnapshot | SubscribePatches | SubmitCommand | Approve | SignalJob | ChangeConVar
  | WriteWorkspace | SubmitPatch | ManageSession | AccessArtifact | AttachSubagent

fun has_permission :: "actor_role \<Rightarrow> permission \<Rightarrow> bool" where
  "has_permission Controller p = True"
| "has_permission InteractiveDriver p = (p \<in> {ReadSnapshot, SubscribePatches, SubmitCommand, Approve,
     SignalJob, ChangeConVar, SubmitPatch, AccessArtifact, AttachSubagent})"
| "has_permission Spectator p = (p \<in> {ReadSnapshot, SubscribePatches, AccessArtifact})"
| "has_permission SubagentInspector p = (p \<in> {ReadSnapshot, SubscribePatches, AccessArtifact})"
| "has_permission AutomationWorker p = (p \<in> {ReadSnapshot, SubscribePatches, SubmitCommand, SignalJob,
     WriteWorkspace, SubmitPatch, AccessArtifact})"

fun debug_role :: "actor_role \<Rightarrow> string" where
  "debug_role Controller = ''Controller''"
| "debug_role InteractiveDriver = ''InteractiveDriver''"
| "debug_role Spectator = ''Spectator''"
| "debug_role SubagentInspector = ''SubagentInspector''"
| "debug_role AutomationWorker = ''AutomationWorker''"

fun debug_permission :: "permission \<Rightarrow> string" where
  "debug_permission ReadSnapshot = ''ReadSnapshot''"
| "debug_permission SubscribePatches = ''SubscribePatches''"
| "debug_permission SubmitCommand = ''SubmitCommand''"
| "debug_permission Approve = ''Approve''"
| "debug_permission SignalJob = ''SignalJob''"
| "debug_permission ChangeConVar = ''ChangeConVar''"
| "debug_permission WriteWorkspace = ''WriteWorkspace''"
| "debug_permission SubmitPatch = ''SubmitPatch''"
| "debug_permission ManageSession = ''ManageSession''"
| "debug_permission AccessArtifact = ''AccessArtifact''"
| "debug_permission AttachSubagent = ''AttachSubagent''"

record actor_session =
  as_actor :: actor_id
  as_role :: actor_role
  as_token :: "string option"
  as_capabilities :: "string list"
  as_attached :: nat

definition new_actor_session :: "actor_id \<Rightarrow> actor_role \<Rightarrow> actor_session" where
  "new_actor_session a r =
     \<lparr>as_actor = a, as_role = r, as_token = None, as_capabilities = [], as_attached = 0\<rparr>"

definition with_token :: "actor_session \<Rightarrow> string \<Rightarrow> actor_session" where
  "with_token s t = s\<lparr>as_token := Some t\<rparr>"

definition with_capabilities :: "actor_session \<Rightarrow> string list \<Rightarrow> actor_session" where
  "with_capabilities s cs = s\<lparr>as_capabilities := cs\<rparr>"

definition has_capability :: "actor_session \<Rightarrow> string \<Rightarrow> bool" where
  "has_capability s cap \<longleftrightarrow> list_ex (\<lambda>c. c = cap) (as_capabilities s)"

section \<open>Errors\<close>

text \<open>
  \<open>ServerPanicked\<close> is not an error of the source: it stands for a panic of \<open>container\<close>, and the
  service invariant excludes it.
\<close>

datatype server_error =
    Unauthorized actor_id actor_role string
  | StaleBaseOffset nat nat
  | OffsetUnavailable nat nat
  | ActorNotFound string
  | ActorAlreadyAttached string
  | ServerState state_error
  | Execution structured_error
  | SubscriberQueueFull string
  | SubscriberLagged nat
  | ArtifactNotFound string
  | ArtifactScopeViolation string string
  | CommandReplayed string
  | InvalidCommand string
  | InvalidPatch string
  | JobNotFound string
  | HandshakeFailed string
  | SessionTerminated string
  | UnsupportedTransport string
  | ServerIo string
  | WireLimit string
  | ServerPanicked

fun show_server_error :: "server_error \<Rightarrow> string" where
  "show_server_error (Unauthorized a r act) =
     ''actor '' @ [CHR 0x27] @ a @ [CHR 0x27] @ '' with role '' @ debug_role r @ '' is unauthorized for '' @ act"
| "show_server_error (StaleBaseOffset actual expected) =
     ''stale base offset: provided '' @ show_nat actual @ '', current authoritative offset '' @ show_nat expected"
| "show_server_error (OffsetUnavailable requested oldest) =
     ''offset '' @ show_nat requested @ '' unavailable (oldest retained '' @ show_nat oldest @ '')''"
| "show_server_error (ActorNotFound m) = ''actor not found: '' @ m"
| "show_server_error (ActorAlreadyAttached m) = ''actor already attached: '' @ m"
| "show_server_error (ServerState e) = ''underlying state error: '' @ show_state_error e"
| "show_server_error (Execution e) = ''host execution failed: '' @ show_error e"
| "show_server_error (SubscriberQueueFull m) = ''subscriber queue full for actor: '' @ m"
| "show_server_error (SubscriberLagged n) =
     ''subscriber lagged: dropped '' @ show_nat n @ '' presentation frames''"
| "show_server_error (ArtifactNotFound m) = ''artifact not found: '' @ m"
| "show_server_error (ArtifactScopeViolation art a) =
     ''artifact scope violation: actor '' @ [CHR 0x27] @ a @ [CHR 0x27] @ '' cannot access artifact ''
       @ [CHR 0x27] @ art @ [CHR 0x27]"
| "show_server_error (CommandReplayed m) = ''command replayed or duplicated: '' @ m"
| "show_server_error (InvalidCommand m) = ''invalid command: '' @ m"
| "show_server_error (InvalidPatch m) = ''invalid patch: '' @ m"
| "show_server_error (JobNotFound m) = ''job not found: '' @ m"
| "show_server_error (HandshakeFailed m) = ''handshake failed: '' @ m"
| "show_server_error (SessionTerminated m) = ''session terminated: '' @ m"
| "show_server_error (UnsupportedTransport m) =
     ''unsupported transport '' @ [CHR 0x27] @ m @ [CHR 0x27]
       @ '': network transport requires an external framing provider; use in-memory transport or local channel''"
| "show_server_error (ServerIo m) = ''i/o error: '' @ m"
| "show_server_error (WireLimit m) = ''wire limit exceeded: '' @ m"
| "show_server_error ServerPanicked = ''''"

fun server_error_code :: "server_error \<Rightarrow> string \<times> bool" where
  "server_error_code (Unauthorized _ _ _) = (''unauthorized'', False)"
| "server_error_code (StaleBaseOffset _ _) = (''stale_base_offset'', True)"
| "server_error_code (OffsetUnavailable _ _) = (''offset_unavailable'', False)"
| "server_error_code (ActorNotFound _) = (''actor_not_found'', False)"
| "server_error_code (ActorAlreadyAttached _) = (''actor_already_attached'', False)"
| "server_error_code (SubscriberQueueFull _) = (''subscriber_queue_full'', True)"
| "server_error_code (SubscriberLagged _) = (''subscriber_lagged'', False)"
| "server_error_code (ArtifactNotFound _) = (''artifact_not_found'', False)"
| "server_error_code (ArtifactScopeViolation _ _) = (''artifact_scope_violation'', False)"
| "server_error_code (CommandReplayed _) = (''command_replayed'', False)"
| "server_error_code (InvalidCommand _) = (''invalid_command'', False)"
| "server_error_code (InvalidPatch _) = (''invalid_patch'', False)"
| "server_error_code (JobNotFound _) = (''job_not_found'', False)"
| "server_error_code (HandshakeFailed _) = (''handshake_failed'', False)"
| "server_error_code (SessionTerminated _) = (''session_terminated'', False)"
| "server_error_code (UnsupportedTransport _) = (''unsupported_transport'', False)"
| "server_error_code (ServerIo _) = (''io_error'', False)"
| "server_error_code (WireLimit _) = (''wire_size_limit'', False)"
| "server_error_code (ServerState _) = ('''', False)"
| "server_error_code (Execution _) = ('''', False)"
| "server_error_code ServerPanicked = ('''', False)"

definition server_structured :: "server_error \<Rightarrow> structured_error" where
  "server_structured e =
     (case e of
        ServerState s \<Rightarrow> state_error_structured s
      | Execution s \<Rightarrow> s
      | _ \<Rightarrow> (let (code, retryable) = server_error_code e in new_error code (show_server_error e) retryable))"

definition check_permission :: "actor_session \<Rightarrow> permission \<Rightarrow> (server_error, unit) result" where
  "check_permission s p =
     (if has_permission (as_role s) p then Inr ()
      else Inl (Unauthorized (as_actor s) (as_role s) (debug_permission p)))"

section \<open>Subscriber queues\<close>

datatype replication_message =
    Resync session_snapshot journal_offset
  | PatchMsg patch
  | Presentation string json
  | Heartbeat nat journal_offset
  | Lagged nat

record subscriber_queue =
  sq_actor :: actor_id
  sq_role :: actor_role
  sq_last :: journal_offset
  sq_capacity :: nat
  sq_queue :: "replication_message list"
  sq_dropped :: nat
  sq_resync :: bool

definition MAX_SUBSCRIBE_CAPACITY :: nat where "MAX_SUBSCRIBE_CAPACITY = 4096"
definition MIN_SUBSCRIBE_CAPACITY :: nat where "MIN_SUBSCRIBE_CAPACITY = 16"

definition new_queue :: "actor_id \<Rightarrow> actor_role \<Rightarrow> journal_offset \<Rightarrow> nat \<Rightarrow> subscriber_queue" where
  "new_queue a r start capacity =
     \<lparr>sq_actor = a, sq_role = r, sq_last = start,
      sq_capacity = min MAX_SUBSCRIBE_CAPACITY (max MIN_SUBSCRIBE_CAPACITY capacity),
      sq_queue = [], sq_dropped = 0, sq_resync = False\<rparr>"

text \<open>The loop over the queue from its back: the new frame replaces the last one of its view.\<close>

fun coalesce :: "string \<Rightarrow> json \<Rightarrow> replication_message list \<Rightarrow> replication_message list option" where
  "coalesce v pl [] = None"
| "coalesce v pl (Presentation w p # rest) =
     (if w = v then Some (Presentation w pl # rest)
      else map_option (\<lambda>r. Presentation w p # r) (coalesce v pl rest))"
| "coalesce v pl (m # rest) = map_option (\<lambda>r. m # r) (coalesce v pl rest)"

fun queue_push :: "subscriber_queue \<Rightarrow> replication_message \<Rightarrow> subscriber_queue \<times> (server_error, unit) result" where
  "queue_push q (Presentation v pl) =
     (case coalesce v pl (rev (sq_queue q)) of
        Some r \<Rightarrow> (q\<lparr>sq_queue := rev r, sq_dropped := sq_dropped q + 1\<rparr>, Inr ())
      | None \<Rightarrow>
          if sq_capacity q \<le> length (sq_queue q) then (q\<lparr>sq_dropped := sq_dropped q + 1\<rparr>, Inr ())
          else (q\<lparr>sq_queue := sq_queue q @ [Presentation v pl]\<rparr>, Inr ()))"
| "queue_push q (PatchMsg p) =
     (if sq_resync q then (q, Inr ())
      else if sq_capacity q \<le> length (sq_queue q)
      then (q\<lparr>sq_resync := True, sq_queue := []\<rparr>, Inl (SubscriberQueueFull (sq_actor q)))
      else (q\<lparr>sq_last := result_offset p, sq_queue := sq_queue q @ [PatchMsg p]\<rparr>, Inr ()))"
| "queue_push q (Resync s offset) =
     (q\<lparr>sq_queue := [Resync s offset], sq_last := offset, sq_resync := False\<rparr>, Inr ())"
| "queue_push q other =
     (if length (sq_queue q) < sq_capacity q then (q\<lparr>sq_queue := sq_queue q @ [other]\<rparr>, Inr ())
      else (q, Inr ()))"

definition queue_pop :: "subscriber_queue \<Rightarrow> subscriber_queue \<times> replication_message option" where
  "queue_pop q =
     (case sq_queue q of [] \<Rightarrow> (q, None) | m # rest \<Rightarrow> (q\<lparr>sq_queue := rest\<rparr>, Some m))"

definition take_dropped_presentation_count :: "subscriber_queue \<Rightarrow> subscriber_queue \<times> nat" where
  "take_dropped_presentation_count q = (q\<lparr>sq_dropped := 0\<rparr>, sq_dropped q)"

end
