(* ===== verification/PatchLog.thy ===== *)
theory PatchLog
  imports JournalReach Replication
begin

text \<open>
  The interface between the server and the journal: a log of patches with the document each of
  its beginnings leads to.  The locale \<open>patch_log\<close> states what replication needs of it and
  shows that a subscriber queue fed from such a log keeps its follower in step; the journal is
  such a log as long as its history has one branch.
\<close>

section \<open>Followers\<close>

text \<open>
  What a follower does with a message: a snapshot replaces its copy, a patch is applied to it,
  everything else is presentation.  \<open>None\<close>: it has no copy, or lost it.
\<close>

fun deliver ::
  "(session_snapshot \<Rightarrow> patch \<Rightarrow> session_snapshot option) \<Rightarrow> session_snapshot option
   \<Rightarrow> replication_message \<Rightarrow> session_snapshot option" where
  "deliver play v (Resync s k) = Some s"
| "deliver play v (PatchMsg p) = Option.bind v (\<lambda>s. play s p)"
| "deliver play v (Presentation w j) = v"
| "deliver play v (Heartbeat t k) = v"
| "deliver play v (Lagged n) = v"

fun patches :: "replication_message list \<Rightarrow> patch list" where
  "patches [] = []"
| "patches (PatchMsg p # ms) = p # patches ms"
| "patches (Resync s k # ms) = patches ms"
| "patches (Presentation w j # ms) = patches ms"
| "patches (Heartbeat t k # ms) = patches ms"
| "patches (Lagged n # ms) = patches ms"

fun is_resync :: "replication_message \<Rightarrow> bool" where
  "is_resync (Resync s k) = True"
| "is_resync _ = False"

lemma patches_append [simp]: "patches (ms @ ns) = patches ms @ patches ns"
proof (induction ms)
  case (Cons m ms)
  then show ?case by (cases m) simp_all
qed simp

lemma patches_length: "length (patches ms) \<le> length ms"
proof (induction ms)
  case (Cons m ms)
  then show ?case by (cases m) simp_all
qed simp

lemma coalesce_same:
  "coalesce v pl ms = Some ns \<Longrightarrow> patches ns = patches ms \<and> length ns = length ms
     \<and> list_all (Not \<circ> is_resync) ns = list_all (Not \<circ> is_resync) ms"
  by (induction v pl ms arbitrary: ns rule: coalesce.induct) (auto split: if_splits)

lemma patches_rev: "patches (rev ms) = rev (patches ms)"
proof (induction ms)
  case (Cons m ms)
  then show ?case by (cases m) simp_all
qed simp

definition capacity_ok :: "subscriber_queue \<Rightarrow> bool" where
  "capacity_ok q \<longleftrightarrow> 0 < sq_capacity q \<and> sq_capacity q \<le> MAX_SUBSCRIBE_CAPACITY"

lemma capacity_ok_updates [simp]:
  "capacity_ok (q\<lparr>sq_queue := ms\<rparr>) = capacity_ok q" "capacity_ok (q\<lparr>sq_dropped := n\<rparr>) = capacity_ok q"
  "capacity_ok (q\<lparr>sq_last := k\<rparr>) = capacity_ok q" "capacity_ok (q\<lparr>sq_resync := b\<rparr>) = capacity_ok q"
  by (simp_all add: capacity_ok_def)

text \<open>
  The copy \<open>v\<close> of a follower with queue \<open>q\<close> over the log \<open>lg\<close> whose beginnings lead to the documents
  \<open>pst\<close>: the copy is a document of the past and the queued patches lead from it to the present,
  unless the queue waits for a resync.
\<close>

definition tracks ::
  "patch list \<Rightarrow> (nat \<Rightarrow> session_snapshot option) \<Rightarrow> subscriber_queue \<Rightarrow> session_snapshot option \<Rightarrow> bool" where
  "tracks lg pst q v \<longleftrightarrow>
     (\<exists>s. v = Some s \<and> pst (ss_offset s) = Some s
        \<and> patches (sq_queue q) = (if sq_resync q then [] else drop (ss_offset s) lg))
     \<and> list_all (Not \<circ> is_resync) (sq_queue q) \<and> length (sq_queue q) \<le> sq_capacity q \<and> capacity_ok q"

text \<open>Presentation frames, heartbeats and lag reports change nothing for a follower.\<close>

lemma tracks_other:
  assumes "tracks lg pst q v" "case m of Resync _ _ \<Rightarrow> False | PatchMsg _ \<Rightarrow> False | _ \<Rightarrow> True"
  shows "tracks lg pst (fst (queue_push q m)) v"
proof (cases m)
  case (Presentation w j)
  show ?thesis
  proof (cases "coalesce w j (rev (sq_queue q))")
    case None
    then show ?thesis using assms(1) Presentation by (auto simp: tracks_def)
  next
    case (Some ns)
    then have n: "patches ns = rev (patches (sq_queue q))" "length ns = length (sq_queue q)"
      "list_all (Not \<circ> is_resync) ns = list_all (Not \<circ> is_resync) (sq_queue q)"
      using coalesce_same[OF Some] by (simp_all add: patches_rev)
    show ?thesis using assms(1) Presentation Some n by (auto simp: tracks_def patches_rev)
  qed
qed (use assms in \<open>auto simp: tracks_def\<close>)

section \<open>The interface\<close>

locale patch_log =
  fixes inv :: "'j \<Rightarrow> bool"
    and doc :: "'j \<Rightarrow> session_snapshot"
    and log :: "'j \<Rightarrow> patch list"
    and past :: "'j \<Rightarrow> nat \<Rightarrow> session_snapshot option"
    and play :: "session_snapshot \<Rightarrow> patch \<Rightarrow> session_snapshot option"
    and append :: "'w \<Rightarrow> 'j \<Rightarrow> patch \<Rightarrow> 'j \<times> (state_error, nat) result"
  assumes doc_past: "inv j \<Longrightarrow> past j (length (log j)) = Some (doc j)"
    and past_offset: "inv j \<Longrightarrow> past j k = Some s \<Longrightarrow> ss_offset s = k \<and> k \<le> length (log j)"
    and past_play: "inv j \<Longrightarrow> k < length (log j) \<Longrightarrow> past j k = Some s \<Longrightarrow> play s (log j ! k) = past j (Suc k)"
    and past_total: "inv j \<Longrightarrow> k \<le> length (log j) \<Longrightarrow> past j k \<noteq> None"
    and append_ok: "inv j \<Longrightarrow> append w j p = (j', Inr n) \<Longrightarrow>
          inv j' \<and> log j' = log j @ [p] \<and> n = length (log j') \<and> (\<forall>k \<le> length (log j). past j' k = past j k)"
    and append_error: "inv j \<Longrightarrow> append w j p = (j', Inl e) \<Longrightarrow>
          inv j' \<and> log j' = log j \<and> past j' = past j \<and> doc j' = doc j"
begin

lemma tracks_drained:
  assumes "inv j" "tracks (log j) (past j) q v" "sq_queue q = []" "\<not> sq_resync q"
  shows "v = Some (doc j)"
proof -
  obtain s where s: "v = Some s" "past j (ss_offset s) = Some s" "drop (ss_offset s) (log j) = []"
    using assms(2-4) by (auto simp: tracks_def)
  then have "ss_offset s = length (log j)" using past_offset[OF assms(1) s(2)] by simp
  then show ?thesis using s(1,2) doc_past[OF assms(1)] by simp
qed

lemma tracks_pop:
  assumes "inv j" "tracks (log j) (past j) q v" "\<not> sq_resync q" "queue_pop q = (q', Some m)"
  shows "tracks (log j) (past j) q' (deliver play v m)"
proof -
  obtain s where s: "v = Some s" "past j (ss_offset s) = Some s" "patches (sq_queue q) = drop (ss_offset s) (log j)"
    using assms(2,3) by (auto simp: tracks_def)
  have q: "sq_queue q = m # sq_queue q'" "q' = q\<lparr>sq_queue := sq_queue q'\<rparr>" "sq_resync q' = sq_resync q"
    "sq_capacity q' = sq_capacity q" "capacity_ok q' = capacity_ok q"
    using assms(4) by (auto simp: queue_pop_def split: list.splits)
  show ?thesis
  proof (cases m)
    case (PatchMsg p)
    then have c: "p # patches (sq_queue q') = drop (ss_offset s) (log j)" using s(3) q(1) by simp
    then have lt: "ss_offset s < length (log j)" by (metis drop_all leI list.distinct(1))
    then have p: "p = log j ! ss_offset s" "patches (sq_queue q') = drop (Suc (ss_offset s)) (log j)"
      using c by (simp_all add: Cons_nth_drop_Suc[symmetric])
    obtain t where t: "past j (Suc (ss_offset s)) = Some t" using past_total[OF assms(1), of "Suc (ss_offset s)"] lt by auto
    have "play s p = Some t" using past_play[OF assms(1) lt s(2)] t p(1) by simp
    moreover have "ss_offset t = Suc (ss_offset s)" using past_offset[OF assms(1) t] by simp
    ultimately show ?thesis using assms(2,3) s PatchMsg q p(2) t by (auto simp: tracks_def)
  qed (use assms(2,3) q s(1) in \<open>auto simp: tracks_def\<close>)
qed

lemma tracks_append:
  assumes "inv j" "append w j p = (j', Inr n)" "tracks (log j) (past j) q v"
  shows "tracks (log j') (past j') (fst (queue_push q (PatchMsg p))) v"
proof -
  note a = append_ok[OF assms(1,2)]
  obtain s where s: "v = Some s" "past j (ss_offset s) = Some s"
    "patches (sq_queue q) = (if sq_resync q then [] else drop (ss_offset s) (log j))"
    using assms(3) by (auto simp: tracks_def)
  have le: "ss_offset s \<le> length (log j)" using past_offset[OF assms(1) s(2)] by simp
  then show ?thesis using assms(3) s a by (auto simp: tracks_def)
qed

lemma tracks_append_error:
  assumes "inv j" "append w j p = (j', Inl e)" "tracks (log j) (past j) q v"
  shows "tracks (log j') (past j') q v"
  using append_error[OF assms(1,2)] assms(3) by simp

text \<open>A new subscription: the missing patches are queued for a follower that has a past document.\<close>

lemma tracks_resume:
  assumes "inv j" "past j (ss_offset s) = Some s" "sq_queue q = []" "\<not> sq_resync q" "capacity_ok q"
  shows "tracks (log j) (past j) (fold (\<lambda>p q. fst (queue_push q (PatchMsg p))) (drop (ss_offset s) (log j)) q) (Some s)"
proof -
  have "tracks ps (past j) (fold (\<lambda>p q. fst (queue_push q (PatchMsg p))) (drop (ss_offset s) ps) q) (Some s)"
    if "ss_offset s \<le> length ps" for ps
    using that
  proof (induction ps rule: rev_induct)
    case Nil
    then show ?case using assms by (simp add: tracks_def)
  next
    case (snoc p ps)
    show ?case
    proof (cases "ss_offset s \<le> length ps")
      case True
      then show ?thesis using snoc.IH by (auto simp: tracks_def)
    next
      case False
      then show ?thesis using snoc.prems assms by (simp add: tracks_def)
    qed
  qed
  then show ?thesis using past_offset[OF assms(1,2)] by simp
qed

lemma tracks_fresh:
  assumes "inv j" "patches (sq_queue q) = []" "list_all (Not \<circ> is_resync) (sq_queue q)"
    "length (sq_queue q) \<le> sq_capacity q" "capacity_ok q"
  shows "tracks (log j) (past j) q (Some (doc j))"
proof -
  have "ss_offset (doc j) = length (log j)" "past j (length (log j)) = Some (doc j)"
    using past_offset[OF assms(1) doc_past[OF assms(1)]] doc_past[OF assms(1)] by simp_all
  then show ?thesis using assms by (simp add: tracks_def)
qed

end

end
