(* ===== verification/JournalLog.thy ===== *)
theory JournalLog
  imports PatchLog
begin

text \<open>
  The journal as a log of patches: its records in order, what one append adds, and the
  interpretation of \<open>patch_log\<close> for journals whose history is a single branch.
\<close>

section \<open>Records in order\<close>

lemma records_map:
  assumes "journal_ok c j"
  shows "journal_records j = map (\<lambda>k. the (fmlookup (jn_records j) k)) [1..<Suc (latest_offset j)]"
proof -
  have d: "fset (fmdom (jn_records j)) = {1..latest_offset j}" using journal_okD(1)[OF assms] .
  have "sorted_list_of_fset (fmdom (jn_records j)) = sorted_list_of_set {1..latest_offset j}"
    by (simp add: sorted_list_of_fset.rep_eq d)
  also have "\<dots> = [1..<Suc (latest_offset j)]"
    by (metis atLeastLessThanSuc_atLeastAtMost sorted_list_of_set_range)
  finally show ?thesis by (simp add: journal_records_def fmvalues_def sorted_list_of_fmap_def)
qed

lemma length_records [simp]: "journal_ok c j \<Longrightarrow> length (journal_records j) = latest_offset j"
  by (simp add: records_map del: upt_Suc)

lemma records_nth:
  assumes "journal_ok c j" "k < latest_offset j"
  shows "fmlookup (jn_records j) (Suc k) = Some (journal_records j ! k)"
proof -
  obtain r where "fmlookup (jn_records j) (Suc k) = Some r"
    using journal_ok_lookup[OF assms(1), of "Suc k"] assms(2) by auto
  then show ?thesis using assms by (simp add: records_map del: upt_Suc)
qed

lemma records_offset:
  assumes "journal_ok c j" "k < latest_offset j"
  shows "jr_offset (journal_records j ! k) = Suc k"
  using journal_okD(2)[OF assms(1) records_nth[OF assms]] by (simp add: record_ok_def)

lemma records_cong: "jn_records j = jn_records j' \<Longrightarrow> journal_records j = journal_records j'"
  by (simp add: journal_records_def)

text \<open>The records after an offset are a suffix.\<close>

lemma records_after:
  assumes "journal_ok c j"
  shows "filter (\<lambda>r. n < jr_offset r) (journal_records j) = drop n (journal_records j)"
proof -
  have "filter (\<lambda>r. n < jr_offset r) xs = drop n xs"
    if "\<And>k. k < length xs \<Longrightarrow> jr_offset (xs ! k) = Suc k" for xs
    using that
  proof (induction xs rule: rev_induct)
    case (snoc x xs)
    have "filter (\<lambda>r. n < jr_offset r) xs = drop n xs"
      using snoc.prems by (intro snoc.IH) (metis length_append less_SucI nth_append length_append_singleton)
    moreover have "jr_offset x = Suc (length xs)" using snoc.prems[of "length xs"] by simp
    ultimately show ?case by auto
  qed simp
  from this[of "journal_records j"] show ?thesis using records_offset[OF assms] length_records[OF assms] by simp
qed

section \<open>One append\<close>

lemma append_patch_ok:
  assumes ok: "journal_ok c j" and a: "append_patch c now fault j p = (j', Inr n)"
  shows "journal_ok c j'" "n = Suc (latest_offset j)" "latest_offset j' = n"
    "ss_session (jn_snapshot j') = ss_session (jn_snapshot j)"
    "\<exists>r. jn_records j' = fmupd n r (jn_records j) \<and> journal_records j' = journal_records j @ [r]
       \<and> jr_patch r = p \<and> jr_offset r = n \<and> jr_parent r = latest_offset j
       \<and> jr_branch r = ss_branch (jn_snapshot j) \<and> apply_record c r (jn_snapshot j) = Inr (jn_snapshot j')"
proof -
  have a': "append_on c now fault (j\<lparr>jn_snapshot := jn_snapshot j\<rparr>) p (ss_branch (jn_snapshot j)) = (j', Inr n)"
    using a by (simp add: append_patch_def)
  have so: "ss_offset (jn_snapshot j) = latest_offset j"
    using journal_ok_snapshot[OF ok] by (simp add: good_snapshot_def)
  obtain r where r: "n = Suc (latest_offset j)" "journal_ok c j'" "latest_offset j' = n"
    "ss_session (jn_snapshot j') = ss_session (jn_snapshot j)"
    "jn_records j' = fmupd n r (jn_records j)" "record_ok (ss_session (jn_snapshot j)) n r"
    "jr_parent r = latest_offset j" "jr_patch r = p" "jr_branch r = ss_branch (jn_snapshot j)"
    "apply_record c r (jn_snapshot j) = Inr (jn_snapshot j')"
    using append_on_result[OF ok based_self[OF ok] a'] so by auto
  show "journal_ok c j'" "n = Suc (latest_offset j)" "latest_offset j' = n"
    "ss_session (jn_snapshot j') = ss_session (jn_snapshot j)" by (fact r)+
  have u: "[1..<Suc (latest_offset j')] = [1..<Suc (latest_offset j)] @ [Suc (latest_offset j)]"
    using r(1,3) by simp
  have "journal_records j' = journal_records j @ [r]"
    unfolding records_map[OF r(2)] records_map[OF ok] u by (simp add: r(1,5) del: upt_Suc)
  then show "\<exists>r. jn_records j' = fmupd n r (jn_records j) \<and> journal_records j' = journal_records j @ [r]
       \<and> jr_patch r = p \<and> jr_offset r = n \<and> jr_parent r = latest_offset j
       \<and> jr_branch r = ss_branch (jn_snapshot j) \<and> apply_record c r (jn_snapshot j) = Inr (jn_snapshot j')"
    using r by (auto simp: record_ok_def)
qed

lemma append_patch_failed:
  assumes ok: "journal_ok c j" and a: "append_patch c now fault j p = (j', Inl e)"
  shows "journal_ok c j'" "jn_records j' = jn_records j" "jn_snapshot j' = jn_snapshot j"
    "jn_recovery j' = jn_recovery j" "e \<noteq> Diverges"
proof -
  have a': "append_on c now fault (j\<lparr>jn_snapshot := jn_snapshot j\<rparr>) p (ss_branch (jn_snapshot j)) = (j', Inl e)"
    using a by (simp add: append_patch_def)
  show "jn_records j' = jn_records j" "jn_snapshot j' = jn_snapshot j" "jn_recovery j' = jn_recovery j" "e \<noteq> Diverges"
    using append_on_result[OF ok based_self[OF ok] a'] by simp_all
  then show "journal_ok c j'" using journal_ok_cong[of c j j'] ok by simp
qed

section \<open>Journals of one branch\<close>

definition linear :: "journal \<Rightarrow> bool" where
  "linear j \<longleftrightarrow> (\<forall>k r. fmlookup (jn_records j) k = Some r \<longrightarrow> k = Suc (jr_parent r) \<and> jr_branch r = ''main'')"

definition past_of :: "codec \<Rightarrow> journal \<Rightarrow> nat \<Rightarrow> session_snapshot option" where
  "past_of c j k = (case materialize c j k of Inr s \<Rightarrow> Some s | Inl _ \<Rightarrow> None)"

definition play_patch :: "codec \<Rightarrow> session_snapshot \<Rightarrow> patch \<Rightarrow> session_snapshot option" where
  "play_patch c s p = (case apply_patch (cd_json c) s p of (s', Inr _) \<Rightarrow> Some s' | (_, Inl _) \<Rightarrow> None)"

definition log_of :: "journal \<Rightarrow> patch list" where
  "log_of j = map jr_patch (journal_records j)"

lemma past_of_Some_iff:
  "journal_ok c j \<Longrightarrow> past_of c j k = Some s \<longleftrightarrow> materialize c j k = Inr s"
  by (auto simp: past_of_def split: sum.splits)

lemma past_of_bound:
  assumes "journal_ok c j" "past_of c j k = Some s"
  shows "k \<le> latest_offset j" "ss_offset s = k" "wf_snapshot s"
  using materialize_known[OF assms(1)] assms(2) unfolding past_of_Some_iff[OF assms(1)]
  by (auto simp: good_snapshot_def)

lemma linear_step:
  assumes ok: "journal_ok c j" and l: "linear j" and k: "k < latest_offset j" and p: "past_of c j k = Some s"
    and b: "ss_branch s = ''main''"
  shows "\<exists>t. past_of c j (Suc k) = Some t \<and> play_patch c s (log_of j ! k) = Some t \<and> ss_branch t = ''main''"
proof -
  let ?r = "journal_records j ! k"
  have r: "fmlookup (jn_records j) (Suc k) = Some ?r" using records_nth[OF ok k] .
  have d: "descending (jn_records j)" using journal_okD[OF ok] by blast
  have "Suc k = Suc (jr_parent ?r) \<and> jr_branch ?r = ''main''" using l r unfolding linear_def by blast
  then have rp: "jr_parent ?r = k" "jr_branch ?r = ''main''" by simp_all
  have m: "materialize c j (Suc k) = apply_record c ?r s"
    unfolding materialize_eq materialize_at_rec[OF d r nat.distinct(2)]
    using p rp(1) past_of_Some_iff[OF ok] by (simp add: materialize_eq)
  obtain t where t: "materialize c j (Suc k) = Inr t"
    using materialize_known[OF ok, of "Suc k"] journal_okD(3)[OF ok, of "Suc k"] k by (auto simp: materialize_eq)
  obtain s' where s': "apply_patch (cd_json c) s (jr_patch ?r) = (s', Inr ())" "t = s'\<lparr>ss_branch := ''main''\<rparr>"
    using m[unfolded t, symmetric] rp(2) unfolding apply_record_Inr_iff by auto
  have "ss_branch s' = ''main''"
    using apply_patch_ok(2)[OF past_of_bound(3)[OF ok p] s'(1)] b by (simp add: evolves_def)
  then have "t = s'" using s'(2) by simp
  moreover have "log_of j ! k = jr_patch ?r" using k ok by (simp add: log_of_def)
  ultimately show ?thesis using t s' \<open>ss_branch s' = _\<close> by (simp add: past_of_def play_patch_def)
qed

lemma linear_past_branch:
  assumes ok: "journal_ok c j" and l: "linear j"
  shows "past_of c j k = Some s \<Longrightarrow> ss_branch s = ''main''"
proof (induction k arbitrary: s)
  case 0
  then show ?case
    by (auto simp: past_of_def materialize_eq materialize_at_0 empty_snapshot_fields split: sum.splits)
next
  case (Suc k)
  have k: "k < latest_offset j" using past_of_bound(1)[OF ok Suc.prems] by simp
  obtain u where u: "past_of c j k = Some u"
    using journal_okD(3)[OF ok, of k] k by (auto simp: past_of_def materialize_eq)
  from linear_step[OF ok l k u Suc.IH[OF u]] Suc.prems show ?case by auto
qed

interpretation journal_log: patch_log "\<lambda>j. journal_ok c j \<and> linear j" jn_snapshot log_of "past_of c"
  "play_patch c" "\<lambda>(now, fault) j p. append_patch c now fault j p" for c
proof
  fix j
  assume "journal_ok c j \<and> linear j"
  then have ok: "journal_ok c j" by simp
  show "past_of c j (length (log_of j)) = Some (jn_snapshot j)"
    using journal_okD(4)[OF ok] ok by (simp add: log_of_def past_of_def materialize_eq)
next
  fix j k s
  assume "journal_ok c j \<and> linear j" "past_of c j k = Some s"
  then show "ss_offset s = k \<and> k \<le> length (log_of j)" using past_of_bound by (auto simp: log_of_def)
next
  fix j k s
  assume "journal_ok c j \<and> linear j" "k < length (log_of j)" "past_of c j k = Some s"
  then show "play_patch c s (log_of j ! k) = past_of c j (Suc k)"
    using linear_step linear_past_branch by (metis length_map length_records log_of_def)
next
  fix j k
  assume "journal_ok c j \<and> linear j" "k \<le> length (log_of j)"
  then show "past_of c j k \<noteq> None"
    using journal_okD(3)[of c j k] by (auto simp: past_of_def log_of_def materialize_eq)
next
  fix w j p j' n
  assume i: "journal_ok c j \<and> linear j" and a: "(case w of (now, fault) \<Rightarrow> \<lambda>j p. append_patch c now fault j p) j p = (j', Inr n)"
  obtain now fault where w: "w = (now, fault)" by (cases w)
  from i a have ok: "journal_ok c j" "append_patch c now fault j p = (j', Inr n)" by (simp_all add: w)
  note o = append_patch_ok[OF ok]
  obtain r where r: "jn_records j' = fmupd n r (jn_records j)" "journal_records j' = journal_records j @ [r]"
    "jr_patch r = p" "jr_parent r = latest_offset j" "jr_branch r = ss_branch (jn_snapshot j)" using o(5) by blast
  have "ss_branch (jn_snapshot j) = ''main''"
    using linear_past_branch[OF ok(1), of "latest_offset j"] i journal_okD(4)[OF ok(1)]
    by (simp add: past_of_def materialize_eq)
  then have "linear j'" using i r o(2) by (auto simp: linear_def split: if_splits)
  moreover have "past_of c j' k = past_of c j k" if "k \<le> latest_offset j" for k
    using journal_step_history[OF ok(1) journal_step.append[OF ok(2)] that] by (simp add: past_of_def)
  ultimately show "(journal_ok c j' \<and> linear j') \<and> log_of j' = log_of j @ [p] \<and> n = length (log_of j')
      \<and> (\<forall>k \<le> length (log_of j). past_of c j' k = past_of c j k)"
    using o r ok(1) by (simp add: log_of_def)
next
  fix w j p j' e
  assume i: "journal_ok c j \<and> linear j" and a: "(case w of (now, fault) \<Rightarrow> \<lambda>j p. append_patch c now fault j p) j p = (j', Inl e)"
  obtain now fault where w: "w = (now, fault)" by (cases w)
  from i a have ok: "journal_ok c j" "append_patch c now fault j p = (j', Inl e)" by (simp_all add: w)
  note f = append_patch_failed[OF ok]
  then show "(journal_ok c j' \<and> linear j') \<and> log_of j' = log_of j \<and> past_of c j' = past_of c j
      \<and> jn_snapshot j' = jn_snapshot j"
    using i records_cong[OF f(2)] by (auto simp: linear_def log_of_def past_of_def materialize_eq fun_eq_iff)
qed

end
