(* ===== verification/Service.thy ===== *)
theory Service
  imports Replication
begin

text \<open>
  The session service of \<open>omp-server/src/service.rs\<close>: attached actors, subscriber queues and the
  commands seen, around the session journal.  Identifiers that are minted, the clock and the
  fault of the one journal write of an operation are in the record \<open>env\<close>; the serde encoders and
  decoders of approval requests and artifact records are in the record \<open>wire\<close>.
\<close>

section \<open>State\<close>

record handshake_request =
  hq_version :: protocol_version
  hq_actor :: actor_id
  hq_role :: actor_role
  hq_token :: "string option"
  hq_capabilities :: "string list"

record handshake_response =
  hp_version :: protocol_version
  hp_session :: session_id
  hp_offset :: journal_offset
  hp_role :: actor_role
  hp_capabilities :: "string list"

datatype artifact_scope_spec = SpecSession | SpecGlobal | SpecActor actor_id | SpecJob job_id

record artifact_record =
  ar_id :: artifact_id
  ar_origin :: actor_id
  ar_media :: string
  ar_size :: nat
  ar_scope :: artifact_scope_spec
  ar_allowed :: "actor_id list option"

definition new_artifact_record :: "artifact_id \<Rightarrow> actor_id \<Rightarrow> string \<Rightarrow> nat \<Rightarrow> artifact_record" where
  "new_artifact_record i a media len =
     \<lparr>ar_id = i, ar_origin = a, ar_media = media, ar_size = len, ar_scope = SpecSession, ar_allowed = None\<rparr>"

definition with_scope :: "artifact_record \<Rightarrow> artifact_scope_spec \<Rightarrow> artifact_record" where
  "with_scope r s = r\<lparr>ar_scope := s\<rparr>"

definition with_allowed_actors :: "artifact_record \<Rightarrow> actor_id list \<Rightarrow> artifact_record" where
  "with_allowed_actors r as = r\<lparr>ar_allowed := Some as\<rparr>"

record approval_request =
  ap_id :: string
  ap_by :: actor_id
  ap_action :: string
  ap_approved :: "bool option"

datatype server_endpoint = InMemory | Tcp string | UnixSocket string | NamedPipe string

record wire =
  wi_approval_enc :: "approval_request \<Rightarrow> (string, json) result"
  wi_approval_dec :: "json \<Rightarrow> approval_request option"
  wi_artifact_enc :: "artifact_record \<Rightarrow> json option"
  wi_artifact_dec :: "json \<Rightarrow> artifact_record option"

record env =
  ev_codec :: codec
  ev_wire :: wire
  ev_now :: "(string, nat) result"
  ev_fault :: write_fault
  ev_element :: element_id
  ev_branch :: branch_id

record service =
  sv_session :: session_id
  sv_journal :: journal
  sv_actors :: "(actor_id, actor_session) fmap"
  sv_subscribers :: "(actor_id, subscriber_queue) fmap"
  sv_seen :: "string set"
  sv_capacity :: nat
  sv_terminated :: bool

fun receipt_ids :: "patch_op \<Rightarrow> string list" where
  "receipt_ids (Create _ _ e) =
     (if el_kind e = ''command_receipt''
      then (case fmlookup (attributes e) ''command_id'' of Some (TString i) \<Rightarrow> [i] | _ \<Rightarrow> [])
      else [])"
| "receipt_ids _ = []"

definition recorded_commands :: "journal_record list \<Rightarrow> string set" where
  "recorded_commands rs = set (concat (map (\<lambda>r. concat (map receipt_ids (ops (jr_patch r)))) rs))"

definition new_service :: "journal \<Rightarrow> service" where
  "new_service j =
     \<lparr>sv_session = ss_session (jn_snapshot j), sv_journal = j, sv_actors = fmempty, sv_subscribers = fmempty,
      sv_seen = recorded_commands (journal_records j), sv_capacity = 128, sv_terminated = False\<rparr>"

definition sv_snapshot :: "service \<Rightarrow> session_snapshot" where
  "sv_snapshot sv = jn_snapshot (sv_journal sv)"

definition current_offset :: "service \<Rightarrow> journal_offset" where
  "current_offset sv = JournalOffset (ss_offset (sv_snapshot sv))"

definition bind_endpoint :: "server_endpoint \<Rightarrow> (server_error, server_endpoint) result" where
  "bind_endpoint e =
     (case e of
        InMemory \<Rightarrow> Inr InMemory
      | Tcp a \<Rightarrow> Inl (UnsupportedTransport (''tcp://'' @ a))
      | UnixSocket p \<Rightarrow> Inl (UnsupportedTransport (''unix://'' @ p))
      | NamedPipe p \<Rightarrow> Inl (UnsupportedTransport (''pipe://'' @ p)))"

section \<open>Guards\<close>

text \<open>The \<open>?\<close> operator in an operation that changes the service.\<close>

definition try_sv ::
  "service \<Rightarrow> (server_error, 'a) result \<Rightarrow> ('a \<Rightarrow> service \<times> (server_error, 'b) result)
   \<Rightarrow> service \<times> (server_error, 'b) result" where
  "try_sv sv r k = (case r of Inl e \<Rightarrow> (sv, Inl e) | Inr a \<Rightarrow> k a)"

lemma try_sv_simps [simp]: "try_sv sv (Inl e) k = (sv, Inl e)" "try_sv sv (Inr a) k = k a"
  by (simp_all add: try_sv_def)

definition get_actor :: "service \<Rightarrow> actor_id \<Rightarrow> (server_error, actor_session) result" where
  "get_actor sv a = ok_or (ActorNotFound a) (fmlookup (sv_actors sv) a)"

definition permitted :: "service \<Rightarrow> actor_id \<Rightarrow> permission \<Rightarrow> (server_error, actor_session) result" where
  "permitted sv a p =
     try_bind (get_actor sv a) (\<lambda>s. try_bind (check_permission s p) (\<lambda>_. Inr s))"

definition authorized :: "service \<Rightarrow> actor_id \<Rightarrow> permission \<Rightarrow> (server_error, actor_session) result" where
  "authorized sv a p =
     (if sv_terminated sv then Inl (SessionTerminated (sv_session sv)) else permitted sv a p)"

definition sv_container :: "session_snapshot \<Rightarrow> string \<Rightarrow> (server_error, element_id) result" where
  "sv_container s name = ok_or ServerPanicked (container s name)"

definition child_count :: "session_snapshot \<Rightarrow> element_id \<Rightarrow> nat" where
  "child_count s k = length (children s k) mod 2 ^ 32"

section \<open>Writing to the journal\<close>

definition broadcast :: "service \<Rightarrow> replication_message \<Rightarrow> service" where
  "broadcast sv m = sv\<lparr>sv_subscribers := fmmap (\<lambda>q. fst (queue_push q m)) (sv_subscribers sv)\<rparr>"

definition append_to :: "env \<Rightarrow> service \<Rightarrow> patch \<Rightarrow> service \<times> (server_error, nat) result" where
  "append_to ev sv p =
     (let (j', r) = append_patch (ev_codec ev) (ev_now ev) (ev_fault ev) (sv_journal sv) p in
      (sv\<lparr>sv_journal := j'\<rparr>, map_err ServerState r))"

definition submit_patch_internal ::
  "env \<Rightarrow> service \<Rightarrow> patch \<Rightarrow> service \<times> (server_error, journal_offset) result" where
  "submit_patch_internal ev sv p =
     (case append_to ev sv p of
        (sv', Inl e) \<Rightarrow> (sv', Inl e)
      | (sv', Inr k) \<Rightarrow> (broadcast sv' (PatchMsg p), Inr (JournalOffset k)))"

definition sv_replicate :: "service \<Rightarrow> nat \<Rightarrow> service" where
  "sv_replicate sv since =
     fold (\<lambda>p sv. broadcast sv (PatchMsg p))
       (map jr_patch (filter (\<lambda>r. since < jr_offset r) (journal_records (sv_journal sv)))) sv"

text \<open>\<open>journal.append_patch(..)?; self.replicate(offset)\<close>.\<close>

definition append_and_replicate :: "env \<Rightarrow> service \<Rightarrow> patch \<Rightarrow> service \<times> (server_error, unit) result" where
  "append_and_replicate ev sv p =
     (case append_to ev sv p of
        (sv', Inl e) \<Rightarrow> (sv', Inl e)
      | (sv', Inr _) \<Rightarrow> (sv_replicate sv' (ss_offset (sv_snapshot sv)), Inr ()))"

text \<open>The patch every operation builds on the current snapshot.\<close>

definition next_patch :: "service \<Rightarrow> actor_id \<Rightarrow> string \<Rightarrow> patch_op list \<Rightarrow> patch" where
  "next_patch sv a why os =
     \<lparr>base_offset = current_offset sv, result_offset = next_offset (sv_journal sv), patch_by = Actor a,
      reason = why, ops = os\<rparr>"

section \<open>Actors\<close>

definition actor_element :: "element_id \<Rightarrow> actor_session \<Rightarrow> element_snapshot" where
  "actor_element i s =
     (new_element i ''actor'')\<lparr>attributes :=
        fmupd ''attached_at_epoch_ms'' (TInteger (word_of_nat (as_attached s)))
          (fmupd ''role'' (TString (debug_role (as_role s)))
            (fmupd ''actor_id'' (TString (as_actor s)) fmempty))\<rparr>"

definition id_or_minted :: "env \<Rightarrow> string \<Rightarrow> element_id" where
  "id_or_minted ev v = (case new_id v of Inr i \<Rightarrow> i | Inl _ \<Rightarrow> ev_element ev)"

definition records_actor :: "actor_id \<Rightarrow> element_snapshot \<Rightarrow> bool" where
  "records_actor a e \<longleftrightarrow>
     el_id e = ''actor-'' @ a \<or> fmlookup (attributes e) ''actor_id'' = Some (TString a)"

definition attach_actor :: "env \<Rightarrow> service \<Rightarrow> actor_session \<Rightarrow> service \<times> (server_error, unit) result" where
  "attach_actor ev sv s =
     (let a = as_actor s in
      if fmlookup (sv_actors sv) a \<noteq> None then (sv, Inl (ActorAlreadyAttached a))
      else try_sv sv (sv_container (sv_snapshot sv) ''actors'') (\<lambda>k.
        let already_recorded = list_ex (records_actor a) (children (sv_snapshot sv) k) in
        if \<not> already_recorded \<and> \<not> sv_terminated sv
        then (case submit_patch_internal ev sv (next_patch sv a ''attach actor''
                 [Create k (child_count (sv_snapshot sv) k) (actor_element (id_or_minted ev (''actor-'' @ a)) s)]) of
            (sv', Inl e) \<Rightarrow> (sv', Inl e)
          | (sv', Inr _) \<Rightarrow> (sv'\<lparr>sv_actors := fmupd a s (sv_actors sv')\<rparr>, Inr ()))
        else (sv\<lparr>sv_actors := fmupd a s (sv_actors sv)\<rparr>, Inr ())))"

definition handshake ::
  "env \<Rightarrow> service \<Rightarrow> handshake_request \<Rightarrow> service \<times> (server_error, handshake_response) result" where
  "handshake ev sv req =
     try_sv sv (map_err (\<lambda>e. HandshakeFailed (show_error e))
         (negotiate CURRENT (hq_version req) (set (hq_capabilities req)) {JOURNAL_FORMAT})) (\<lambda>_.
       let session = with_capabilities (new_actor_session (hq_actor req) (hq_role req)) (hq_capabilities req) in
       (case attach_actor ev sv session of
          (sv', Inl e) \<Rightarrow> (sv', Inl e)
        | (sv', Inr _) \<Rightarrow>
            (sv', Inr \<lparr>hp_version = CURRENT, hp_session = sv_session sv', hp_offset = current_offset sv',
               hp_role = as_role session, hp_capabilities = as_capabilities session\<rparr>)))"

definition detach_actor ::
  "service \<Rightarrow> actor_id \<Rightarrow> actor_id \<Rightarrow> service \<times> (server_error, unit) result" where
  "detach_actor sv caller target =
     try_sv sv (if caller \<noteq> target then map_sum id (\<lambda>_. ()) (permitted sv caller ManageSession) else Inr ()) (\<lambda>_.
       (sv\<lparr>sv_actors := fmdrop target (sv_actors sv), sv_subscribers := fmdrop target (sv_subscribers sv)\<rparr>, Inr ()))"

section \<open>Reading and subscribing\<close>

definition get_snapshot ::
  "env \<Rightarrow> service \<Rightarrow> actor_id \<Rightarrow> journal_offset option \<Rightarrow> (server_error, session_snapshot) result" where
  "get_snapshot ev sv a offset =
     try_bind (permitted sv a ReadSnapshot) (\<lambda>_.
       case offset of
         Some off \<Rightarrow>
           if latest_offset (sv_journal sv) < offset_nat off
           then Inl (OffsetUnavailable (offset_nat off) 0)
           else map_err ServerState (materialize (ev_codec ev) (sv_journal sv) (offset_nat off))
       | None \<Rightarrow> Inr (resume_latest (sv_journal sv)))"

definition subscribe ::
  "service \<Rightarrow> actor_id \<Rightarrow> journal_offset option \<Rightarrow> nat option
   \<Rightarrow> service \<times> (server_error, replication_message) result" where
  "subscribe sv a last_offset capacity_override =
     try_sv sv (permitted sv a SubscribePatches) (\<lambda>s.
       let capacity = (case capacity_override of Some n \<Rightarrow> n | None \<Rightarrow> sv_capacity sv);
           current = current_offset sv;
           q0 = new_queue a (as_role s) (case last_offset of Some o' \<Rightarrow> o' | None \<Rightarrow> JournalOffset 0) capacity;
           resync = Resync (resume_latest (sv_journal sv)) current;
           (q, initial) =
             (case last_offset of
                None \<Rightarrow> (q0, resync)
              | Some off \<Rightarrow>
                  if offset_nat current < offset_nat off then (q0, resync)
                  else
                    let rs = journal_records (sv_journal sv);
                        oldest = (case rs of [] \<Rightarrow> 0 | r # _ \<Rightarrow> jr_offset r) in
                    if offset_nat off < oldest \<and> 0 < offset_nat off then (q0, resync)
                    else (fold (\<lambda>r q. fst (queue_push q (PatchMsg (jr_patch r))))
                            (filter (\<lambda>r. offset_nat off < jr_offset r) rs) q0,
                          Heartbeat 0 current))
       in (sv\<lparr>sv_subscribers := fmupd a q (sv_subscribers sv)\<rparr>, Inr initial))"

definition poll_subscriber :: "service \<Rightarrow> actor_id \<Rightarrow> service \<times> replication_message option" where
  "poll_subscriber sv a =
     (case fmlookup (sv_subscribers sv) a of
        None \<Rightarrow> (sv, None)
      | Some q \<Rightarrow>
          if sq_resync q
          then (sv\<lparr>sv_subscribers := fmupd a (q\<lparr>sq_resync := False\<rparr>) (sv_subscribers sv)\<rparr>,
                Some (Resync (resume_latest (sv_journal sv)) (current_offset sv)))
          else (let (q', m) = queue_pop q in
                (sv\<lparr>sv_subscribers := fmupd a q' (sv_subscribers sv)\<rparr>, m)))"

definition publish_presentation :: "service \<Rightarrow> string \<Rightarrow> json \<Rightarrow> service" where
  "publish_presentation sv view_id pl = broadcast sv (Presentation view_id pl)"

section \<open>Patches and commands\<close>

definition submit_patch ::
  "env \<Rightarrow> service \<Rightarrow> actor_id \<Rightarrow> patch \<Rightarrow> service \<times> (server_error, journal_offset) result" where
  "submit_patch ev sv a p =
     try_sv sv (authorized sv a SubmitPatch) (\<lambda>_.
       let expected = ss_offset (sv_snapshot sv) in
       if offset_nat (base_offset p) \<noteq> expected
       then (sv, Inl (StaleBaseOffset (offset_nat (base_offset p)) expected))
       else try_sv sv (map_err (\<lambda>e. InvalidPatch (show_error e)) (validate (cd_json (ev_codec ev)) p)) (\<lambda>_.
         submit_patch_internal ev sv (p\<lparr>patch_by := Actor a\<rparr>)))"

definition receipt_element :: "element_id \<Rightarrow> string \<Rightarrow> element_snapshot" where
  "receipt_element i cmd =
     (new_element i ''command_receipt'')\<lparr>attributes := fmupd ''command_id'' (TString cmd) fmempty\<rparr>"

text \<open>``command\_id must contain 1--128 bytes'' has an en dash, three bytes in UTF-8.\<close>

definition command_id_bounds :: string where
  "command_id_bounds =
     ''command_id must contain 1'' @ [CHR 0xE2, CHR 0x80, CHR 0x93] @ ''128 bytes''"

definition submit_command ::
  "env \<Rightarrow> service \<Rightarrow> actor_id \<Rightarrow> string \<Rightarrow> service \<times> (server_error, unit) result" where
  "submit_command ev sv a command_id =
     try_sv sv (authorized sv a SubmitCommand) (\<lambda>_.
       let trimmed = trim command_id in
       if trimmed = [] \<or> 128 < length trimmed then (sv, Inl (InvalidCommand command_id_bounds))
       else if trimmed \<in> sv_seen sv then (sv, Inl (CommandReplayed trimmed))
       else try_sv sv (sv_container (sv_snapshot sv) ''meta'') (\<lambda>k.
         (case submit_patch_internal ev sv (next_patch sv a ''accept command''
                 [Create k (child_count (sv_snapshot sv) k) (receipt_element (ev_element ev) trimmed)]) of
            (sv', Inl e) \<Rightarrow> (sv', Inl e)
          | (sv', Inr _) \<Rightarrow> (sv'\<lparr>sv_seen := insert trimmed (sv_seen sv')\<rparr>, Inr ()))))"

definition has_seen_command :: "service \<Rightarrow> string \<Rightarrow> bool" where
  "has_seen_command sv cmd \<longleftrightarrow> trim cmd \<in> sv_seen sv"

definition change_convar ::
  "env \<Rightarrow> service \<Rightarrow> actor_id \<Rightarrow> string \<Rightarrow> typed_value \<Rightarrow> service \<times> (server_error, journal_offset) result" where
  "change_convar ev sv a name value =
     try_sv sv (authorized sv a ChangeConVar) (\<lambda>_.
       let trimmed = trim name in
       if trimmed = [] then (sv, Inl (InvalidCommand ''convar name cannot be empty''))
       else try_sv sv (sv_container (sv_snapshot sv) ''convars'') (\<lambda>k.
         submit_patch_internal ev sv (next_patch sv a (''change convar '' @ trimmed) [SetAttribute k trimmed value])))"

section \<open>Approvals and jobs\<close>

definition approval_element :: "element_id \<Rightarrow> json \<Rightarrow> element_snapshot" where
  "approval_element i pl =
     (new_element i ''approval'')\<lparr>attributes := fmupd ''status'' (TString ''pending'') fmempty, el_payload := Some pl\<rparr>"

definition request_approval ::
  "env \<Rightarrow> service \<Rightarrow> actor_id \<Rightarrow> string \<Rightarrow> string \<Rightarrow> service \<times> (server_error, unit) result" where
  "request_approval ev sv a request_id action =
     try_sv sv (authorized sv a SubmitCommand) (\<lambda>_.
       let trimmed = trim request_id in
       if trimmed = [] then (sv, Inl (InvalidCommand ''request_id cannot be empty''))
       else try_sv sv (map_err (\<lambda>e. InvalidCommand (show_error e)) (new_id trimmed)) (\<lambda>i.
         try_sv sv (map_err InvalidCommand (wi_approval_enc (ev_wire ev)
             \<lparr>ap_id = trimmed, ap_by = a, ap_action = action, ap_approved = None\<rparr>)) (\<lambda>pl.
           try_sv sv (sv_container (sv_snapshot sv) ''approvals'') (\<lambda>k.
             append_and_replicate ev sv (next_patch sv a ''request approval''
               [Create k (child_count (sv_snapshot sv) k) (approval_element i pl)])))))"

definition resolve_approval ::
  "env \<Rightarrow> service \<Rightarrow> actor_id \<Rightarrow> string \<Rightarrow> bool \<Rightarrow> service \<times> (server_error, unit) result" where
  "resolve_approval ev sv a request_id decision =
     try_sv sv (authorized sv a Approve) (\<lambda>_.
       try_sv sv (map_err (\<lambda>e. InvalidCommand (show_error e)) (new_id request_id)) (\<lambda>i.
         try_sv sv (sv_container (sv_snapshot sv) ''approvals'') (\<lambda>k.
           try_sv sv (ok_or (InvalidCommand ''Approval request not found'')
               (find (\<lambda>n. el_id n = i) (children (sv_snapshot sv) k))) (\<lambda>n.
             if fmlookup (attributes n) ''status'' \<noteq> Some (TString ''pending'')
             then (sv, Inl (InvalidCommand ''Approval already resolved''))
             else append_and_replicate ev sv (next_patch sv a ''resolve approval''
               [SetAttribute i ''status'' (TString (if decision then ''approved'' else ''denied'')),
                SetAttribute i ''approved'' (TBool decision)])))))"

definition approvals :: "wire \<Rightarrow> session_snapshot \<Rightarrow> (server_error, (string, approval_request) fmap) result" where
  "approvals w s =
     try_bind (sv_container s ''approvals'') (\<lambda>k.
       Inr (fmap_of_list (rev (List.map_filter (\<lambda>n.
         (case el_payload n of
            None \<Rightarrow> None
          | Some pl \<Rightarrow>
              (case wi_approval_dec w pl of
                 None \<Rightarrow> None
               | Some ap \<Rightarrow>
                   Some (el_id n, (case fmlookup (attributes n) ''approved'' of
                       Some (TBool v) \<Rightarrow> ap\<lparr>ap_approved := Some v\<rparr>
                     | _ \<Rightarrow> ap))))) (children s k)))))"

definition job_signals :: "string list" where
  "job_signals = [''interrupt'', ''terminate'', ''kill'', ''SIGINT'', ''SIGTERM'', ''SIGKILL'']"

definition signal_job ::
  "env \<Rightarrow> service \<Rightarrow> actor_id \<Rightarrow> job_id \<Rightarrow> string \<Rightarrow> service \<times> (server_error, unit) result" where
  "signal_job ev sv a job signal =
     try_sv sv (authorized sv a SignalJob) (\<lambda>_.
       if signal \<notin> set job_signals then (sv, Inl (InvalidCommand ''Unsupported job signal''))
       else try_sv sv (map_err (\<lambda>e. InvalidCommand (show_error e)) (new_id (''job-'' @ job))) (\<lambda>i.
         try_sv sv (ok_or ServerPanicked (active_jobs (sv_snapshot sv))) (\<lambda>js.
           if \<not> list_ex (\<lambda>e. el_id e = i) js then (sv, Inl (JobNotFound job))
           else append_and_replicate ev sv (next_patch sv a ''request job signal''
             [SetAttribute i ''requested_signal'' (TString signal)]))))"

section \<open>Artifacts\<close>

fun scope_text :: "artifact_scope_spec \<Rightarrow> string" where
  "scope_text SpecSession = ''Session''"
| "scope_text SpecGlobal = ''Global''"
| "scope_text (SpecActor a) = ''Actor:'' @ a"
| "scope_text (SpecJob j) = ''Job:'' @ j"

definition artifact_element :: "wire \<Rightarrow> element_id \<Rightarrow> artifact_record \<Rightarrow> element_snapshot" where
  "artifact_element w i r =
     (new_element i ''artifact'')\<lparr>attributes :=
        fmupd ''scope'' (TString (scope_text (ar_scope r)))
          (fmupd ''origin_actor'' (TString (ar_origin r))
            (fmupd ''size_bytes'' (TInteger (word_of_nat (ar_size r)))
              (fmupd ''media_type'' (TString (ar_media r))
                (fmupd ''artifact_id'' (TString (ar_id r)) fmempty)))),
      el_payload := Some (case wi_artifact_enc w r of Some j \<Rightarrow> j | None \<Rightarrow> JNull)\<rparr>"

definition register_artifact ::
  "env \<Rightarrow> service \<Rightarrow> actor_id \<Rightarrow> artifact_record \<Rightarrow> service \<times> (server_error, journal_offset) result" where
  "register_artifact ev sv a r =
     try_sv sv (authorized sv a WriteWorkspace) (\<lambda>_.
       try_sv sv (sv_container (sv_snapshot sv) ''artifacts'') (\<lambda>k.
         submit_patch_internal ev sv (next_patch sv a (''register artifact '' @ ar_id r)
           [Create k (child_count (sv_snapshot sv) k)
              (artifact_element (ev_wire ev) (id_or_minted ev (''artifact-'' @ ar_id r)) r)])))"

text \<open>\<open>payload.get("id").and_then(|v| v.as_str())\<close>.\<close>

definition payload_id :: "json \<Rightarrow> string option" where
  "payload_id pl =
     (case pl of
        JObject kvs \<Rightarrow> (case map_of kvs ''id'' of Some (JString s) \<Rightarrow> Some s | _ \<Rightarrow> None)
      | _ \<Rightarrow> None)"

definition names_artifact :: "artifact_id \<Rightarrow> element_snapshot \<Rightarrow> bool" where
  "names_artifact i e \<longleftrightarrow>
     el_id e = ''artifact-'' @ i
     \<or> fmlookup (attributes e) ''artifact_id'' = Some (TString i)
     \<or> (case el_payload e of Some pl \<Rightarrow> payload_id pl = Some i | None \<Rightarrow> False)"

definition text_attribute :: "element_snapshot \<Rightarrow> string \<Rightarrow> string option" where
  "text_attribute e name = (case fmlookup (attributes e) name of Some (TString s) \<Rightarrow> Some s | _ \<Rightarrow> None)"

definition checked_id :: "string \<Rightarrow> string option" where
  "checked_id s = (case new_id s of Inr i \<Rightarrow> Some i | Inl _ \<Rightarrow> None)"

definition scope_of_text :: "string \<Rightarrow> artifact_scope_spec option" where
  "scope_of_text s =
     (if s = ''Global'' then Some SpecGlobal
      else if s = ''Session'' then Some SpecSession
      else (case strip_prefix ''Actor:'' s of
          Some rest \<Rightarrow> map_option SpecActor (checked_id rest)
        | None \<Rightarrow>
            (case strip_prefix ''Job:'' s of
               Some rest \<Rightarrow> map_option SpecJob (checked_id rest)
             | None \<Rightarrow> None)))"

definition parse_artifact_from_element :: "element_snapshot \<Rightarrow> artifact_id \<Rightarrow> artifact_record" where
  "parse_artifact_from_element e i =
     \<lparr>ar_id = i,
      ar_origin = (case Option.bind (text_attribute e ''origin_actor'') checked_id of
          Some a \<Rightarrow> a | None \<Rightarrow> ''unknown''),
      ar_media = (case text_attribute e ''media_type'' of Some m \<Rightarrow> m | None \<Rightarrow> ''application/octet-stream''),
      ar_size = (case fmlookup (attributes e) ''size_bytes'' of Some (TInteger n) \<Rightarrow> unat n | _ \<Rightarrow> 0),
      ar_scope = (case Option.bind (text_attribute e ''scope'') scope_of_text of Some s \<Rightarrow> s | None \<Rightarrow> SpecSession),
      ar_allowed = None\<rparr>"

definition scope_violation :: "artifact_id \<Rightarrow> actor_session \<Rightarrow> server_error" where
  "scope_violation i s = ArtifactScopeViolation i (as_actor s)"

definition extract_artifact_from_snapshot ::
  "wire \<Rightarrow> session_snapshot \<Rightarrow> actor_session \<Rightarrow> artifact_id \<Rightarrow> (server_error, artifact_record) result" where
  "extract_artifact_from_snapshot w snap s i =
     try_bind (sv_container snap ''artifacts'') (\<lambda>k.
     try_bind (ok_or (ArtifactNotFound i) (find (names_artifact i) (children snap k))) (\<lambda>e.
       let r = (case el_payload e of
             Some pl \<Rightarrow> (case wi_artifact_dec w pl of Some r \<Rightarrow> r | None \<Rightarrow> parse_artifact_from_element e i)
           | None \<Rightarrow> parse_artifact_from_element e i) in
       if as_role s \<noteq> Controller
       then (if (case ar_allowed r of Some as \<Rightarrow> as_actor s \<notin> set as | None \<Rightarrow> False)
             then Inl (scope_violation i s)
             else (case ar_scope r of
                 SpecGlobal \<Rightarrow> Inr r
               | SpecSession \<Rightarrow> Inr r
               | SpecActor a \<Rightarrow> if a \<noteq> as_actor s then Inl (scope_violation i s) else Inr r
               | SpecJob _ \<Rightarrow> Inr r))
       else Inr r))"

definition service_get_artifact ::
  "env \<Rightarrow> service \<Rightarrow> actor_id \<Rightarrow> artifact_id \<Rightarrow> (server_error, artifact_record) result" where
  "service_get_artifact ev sv a i =
     try_bind (permitted sv a AccessArtifact) (\<lambda>s. extract_artifact_from_snapshot (ev_wire ev) (sv_snapshot sv) s i)"

definition get_artifact_at ::
  "env \<Rightarrow> service \<Rightarrow> actor_id \<Rightarrow> artifact_id \<Rightarrow> journal_offset \<Rightarrow> (server_error, artifact_record) result" where
  "get_artifact_at ev sv a i off =
     try_bind (permitted sv a AccessArtifact) (\<lambda>s.
     try_bind (get_snapshot ev sv a (Some off)) (\<lambda>snap.
       extract_artifact_from_snapshot (ev_wire ev) snap s i))"

section \<open>Branches and the end of a session\<close>

definition fork_session ::
  "env \<Rightarrow> service \<Rightarrow> actor_id \<Rightarrow> nat \<Rightarrow> service \<times> (server_error, branch_id) result" where
  "fork_session ev sv a offset =
     try_sv sv (authorized sv a ManageSession) (\<lambda>_.
       case fork_at (ev_codec ev) (ev_now ev) (ev_fault ev) (ev_branch ev) (ev_element ev) (sv_journal sv) offset of
         None \<Rightarrow> (sv, Inl ServerPanicked)
       | Some (j', r) \<Rightarrow> (sv\<lparr>sv_journal := j'\<rparr>, map_err ServerState r))"

definition rewind_session ::
  "env \<Rightarrow> service \<Rightarrow> actor_id \<Rightarrow> nat \<Rightarrow> service \<times> (server_error, branch_id) result" where
  "rewind_session ev sv a offset =
     try_sv sv (authorized sv a ManageSession) (\<lambda>_.
       case rewind_to (ev_codec ev) (ev_now ev) (ev_fault ev) (ev_branch ev) (ev_element ev) (sv_journal sv) offset of
         None \<Rightarrow> (sv, Inl ServerPanicked)
       | Some (j', r) \<Rightarrow> (sv\<lparr>sv_journal := j'\<rparr>, map_err ServerState r))"

definition service_select_branch ::
  "env \<Rightarrow> service \<Rightarrow> actor_id \<Rightarrow> branch_id \<Rightarrow> service \<times> (server_error, journal_offset) result" where
  "service_select_branch ev sv a branch =
     try_sv sv (authorized sv a ManageSession) (\<lambda>_.
       let (j', r) = select_branch (ev_codec ev) (ev_now ev) (ev_fault ev) (sv_journal sv) branch in
       (sv\<lparr>sv_journal := j'\<rparr>, try_bind (map_err ServerState r) (\<lambda>k. Inr (JournalOffset k))))"

definition terminate_session :: "service \<Rightarrow> actor_id \<Rightarrow> service \<times> (server_error, unit) result" where
  "terminate_session sv a =
     try_sv sv (permitted sv a ManageSession) (\<lambda>_. (sv\<lparr>sv_terminated := True\<rparr>, Inr ()))"

end
