(* ===== verification/ServiceInv.thy ===== *)
theory ServiceInv
  imports JournalLog Service
begin

text \<open>
  What an operation of the service can do to journal and subscribers: nothing, one failed append,
  or one append followed by the broadcast of its patch.  The steps of a service, the invariant,
  and the relation between a service and the clients that follow it.
\<close>

section \<open>Effects\<close>

definition failed_append :: "codec \<Rightarrow> service \<Rightarrow> service \<Rightarrow> bool" where
  "failed_append c sv sv' \<longleftrightarrow>
     (\<exists>now fault p e. append_patch c now fault (sv_journal sv) p = (sv_journal sv', Inl e))
     \<and> sv_subscribers sv' = sv_subscribers sv"

definition wrote :: "codec \<Rightarrow> service \<Rightarrow> patch \<Rightarrow> service \<Rightarrow> bool" where
  "wrote c sv p sv' \<longleftrightarrow>
     (\<exists>now fault n. append_patch c now fault (sv_journal sv) p = (sv_journal sv', Inr n))
     \<and> sv_subscribers sv' = fmmap (\<lambda>q. fst (queue_push q (PatchMsg p))) (sv_subscribers sv)"

definition idle :: "service \<Rightarrow> service \<Rightarrow> bool" where
  "idle sv sv' \<longleftrightarrow> sv_journal sv' = sv_journal sv \<and> sv_subscribers sv' = sv_subscribers sv"

definition keeps :: "service \<Rightarrow> service \<Rightarrow> bool" where
  "keeps sv sv' \<longleftrightarrow> sv_session sv' = sv_session sv \<and> sv_terminated sv' = sv_terminated sv
     \<and> sv_seen sv \<subseteq> sv_seen sv' \<and> sv_capacity sv' = sv_capacity sv"

definition effect :: "codec \<Rightarrow> service \<Rightarrow> service \<Rightarrow> bool" where
  "effect c sv sv' \<longleftrightarrow> (idle sv sv' \<or> failed_append c sv sv' \<or> (\<exists>p. wrote c sv p sv')) \<and> keeps sv sv'"

lemma effect_refl [simp]: "effect c sv sv" "keeps sv sv"
  by (simp_all add: effect_def idle_def keeps_def)

lemma try_sv_effect:
  assumes "try_sv sv r k = (sv', x)" "\<And>a y. r = Inr a \<Longrightarrow> k a = (sv', y) \<Longrightarrow> effect c sv sv'"
  shows "effect c sv sv'"
  using assms by (cases r) auto

lemma broadcast_keeps [simp]:
  "sv_journal (broadcast sv m) = sv_journal sv" "sv_session (broadcast sv m) = sv_session sv"
  "sv_actors (broadcast sv m) = sv_actors sv" "sv_seen (broadcast sv m) = sv_seen sv"
  "sv_terminated (broadcast sv m) = sv_terminated sv" "sv_capacity (broadcast sv m) = sv_capacity sv"
  "sv_subscribers (broadcast sv m) = fmmap (\<lambda>q. fst (queue_push q m)) (sv_subscribers sv)"
  by (simp_all add: broadcast_def)

lemma append_to_cases:
  assumes "append_to ev sv p = (sv', r)"
  obtains (failed) j' e where "r = Inl (ServerState e)" "sv' = sv\<lparr>sv_journal := j'\<rparr>"
      "append_patch (ev_codec ev) (ev_now ev) (ev_fault ev) (sv_journal sv) p = (j', Inl e)"
  | (appended) j' n where "r = Inr n" "sv' = sv\<lparr>sv_journal := j'\<rparr>"
      "append_patch (ev_codec ev) (ev_now ev) (ev_fault ev) (sv_journal sv) p = (j', Inr n)"
proof -
  obtain j' x where a: "append_patch (ev_codec ev) (ev_now ev) (ev_fault ev) (sv_journal sv) p = (j', x)"
    by (cases "append_patch (ev_codec ev) (ev_now ev) (ev_fault ev) (sv_journal sv) p") auto
  then show thesis using assms failed appended by (cases x) (auto simp: append_to_def)
qed

lemma submit_patch_internal_cases:
  assumes "submit_patch_internal ev sv p = (sv', r)"
  obtains (failed) j' e where "r = Inl (ServerState e)" "sv' = sv\<lparr>sv_journal := j'\<rparr>"
      "append_patch (ev_codec ev) (ev_now ev) (ev_fault ev) (sv_journal sv) p = (j', Inl e)"
  | (written) j' n where "r = Inr (JournalOffset n)" "sv' = broadcast (sv\<lparr>sv_journal := j'\<rparr>) (PatchMsg p)"
      "append_patch (ev_codec ev) (ev_now ev) (ev_fault ev) (sv_journal sv) p = (j', Inr n)"
proof -
  obtain sv1 x where a: "append_to ev sv p = (sv1, x)" by (cases "append_to ev sv p") auto
  then show thesis
    by (cases rule: append_to_cases) (use assms a that in \<open>auto simp: submit_patch_internal_def\<close>)
qed

text \<open>In a journal the new record is the only one after the old snapshot, so replicating is broadcasting.\<close>

lemma append_and_replicate_cases:
  assumes "append_and_replicate ev sv p = (sv', r)" and ok: "journal_ok (ev_codec ev) (sv_journal sv)"
  obtains (failed) j' e where "r = Inl (ServerState e)" "sv' = sv\<lparr>sv_journal := j'\<rparr>"
      "append_patch (ev_codec ev) (ev_now ev) (ev_fault ev) (sv_journal sv) p = (j', Inl e)"
  | (written) j' n where "r = Inr ()" "sv' = broadcast (sv\<lparr>sv_journal := j'\<rparr>) (PatchMsg p)"
      "append_patch (ev_codec ev) (ev_now ev) (ev_fault ev) (sv_journal sv) p = (j', Inr n)"
proof -
  obtain sv1 x where a: "append_to ev sv p = (sv1, x)" by (cases "append_to ev sv p") auto
  then show thesis
  proof (cases rule: append_to_cases)
    case (failed j' e)
    then show thesis using assms(1) a that(1) by (auto simp: append_and_replicate_def)
  next
    case (appended j' n)
    note o = append_patch_ok[OF ok appended(3)]
    obtain q where q: "journal_records j' = journal_records (sv_journal sv) @ [q]" "jr_patch q = p"
      using o(5) by blast
    have so: "ss_offset (sv_snapshot sv) = latest_offset (sv_journal sv)"
      using journal_ok_snapshot[OF ok] by (simp add: good_snapshot_def sv_snapshot_def)
    have "filter (\<lambda>r. ss_offset (sv_snapshot sv) < jr_offset r) (journal_records j')
        = drop (latest_offset (sv_journal sv)) (journal_records j')"
      unfolding so by (rule records_after[OF o(1)])
    then have "filter (\<lambda>r. ss_offset (sv_snapshot sv) < jr_offset r) (journal_records j') = [q]"
      using ok by (simp add: q(1) del: filter_append)
    then have "sv' = broadcast sv1 (PatchMsg p)" "r = Inr ()"
      using assms(1) a appended(1,2) by (simp_all add: append_and_replicate_def sv_replicate_def q(2))
    then show thesis using that(2) appended by simp
  qed
qed

lemma effect_failed:
  "append_patch c now fault (sv_journal sv) p = (j', Inl e) \<Longrightarrow> effect c sv (sv\<lparr>sv_journal := j'\<rparr>)"
  by (auto simp: effect_def failed_append_def keeps_def)

lemma effect_wrote:
  "append_patch c now fault (sv_journal sv) p = (j', Inr n) \<Longrightarrow> sv_journal sv' = j'
     \<Longrightarrow> sv_subscribers sv' = fmmap (\<lambda>q. fst (queue_push q (PatchMsg p))) (sv_subscribers sv) \<Longrightarrow> keeps sv sv'
     \<Longrightarrow> effect c sv sv'"
  by (auto simp: effect_def wrote_def)

lemma submit_patch_internal_effect:
  "submit_patch_internal ev sv p = (sv', r) \<Longrightarrow> effect (ev_codec ev) sv sv'"
  by (erule submit_patch_internal_cases) (auto simp: effect_failed keeps_def intro: effect_wrote)

lemma append_and_replicate_effect:
  "append_and_replicate ev sv p = (sv', r) \<Longrightarrow> journal_ok (ev_codec ev) (sv_journal sv)
     \<Longrightarrow> effect (ev_codec ev) sv sv'"
  by (erule append_and_replicate_cases) (auto simp: effect_failed keeps_def intro: effect_wrote)

text \<open>Changing the table of actors or adding to the commands seen makes no difference.\<close>

lemma effect_actors [simp]: "effect c sv (sv_actors_update f sv') = effect c sv sv'"
  by (simp add: effect_def idle_def failed_append_def wrote_def keeps_def)

lemma effect_seen: "effect c sv sv' \<Longrightarrow> effect c sv (sv'\<lparr>sv_seen := insert x (sv_seen sv')\<rparr>)"
  by (auto simp: effect_def idle_def failed_append_def wrote_def keeps_def)

section \<open>Every writing operation\<close>

lemma attach_actor_effect:
  assumes "attach_actor ev sv s = (sv', r)"
  shows "effect (ev_codec ev) sv sv'"
proof -
  have "effect (ev_codec ev) sv sv'"
    if "attach_actor ev sv s = (sv', r)" "fmlookup (sv_actors sv) (as_actor s) = None"
    using that unfolding attach_actor_def
    by (auto simp: Let_def dest!: submit_patch_internal_effect intro: effect_seen
        split: if_splits prod.splits sum.splits elim!: try_sv_effect)
  then show ?thesis using assms by (auto simp: attach_actor_def Let_def split: if_splits)
qed

lemma handshake_effect: "handshake ev sv req = (sv', r) \<Longrightarrow> effect (ev_codec ev) sv sv'"
  unfolding handshake_def
  by (erule try_sv_effect) (auto simp: Let_def split: prod.splits sum.splits dest: attach_actor_effect)

lemma submit_patch_effect: "submit_patch ev sv a p = (sv', r) \<Longrightarrow> effect (ev_codec ev) sv sv'"
  unfolding submit_patch_def
  by (auto simp: Let_def dest!: submit_patch_internal_effect split: if_splits elim!: try_sv_effect)

lemma submit_command_effect: "submit_command ev sv a cmd = (sv', r) \<Longrightarrow> effect (ev_codec ev) sv sv'"
  unfolding submit_command_def
  by (auto simp: Let_def dest!: submit_patch_internal_effect intro: effect_seen
      split: if_splits prod.splits sum.splits elim!: try_sv_effect)

lemma change_convar_effect: "change_convar ev sv a n v = (sv', r) \<Longrightarrow> effect (ev_codec ev) sv sv'"
  unfolding change_convar_def
  by (auto simp: Let_def dest!: submit_patch_internal_effect split: if_splits elim!: try_sv_effect)

lemma register_artifact_effect: "register_artifact ev sv a x = (sv', r) \<Longrightarrow> effect (ev_codec ev) sv sv'"
  unfolding register_artifact_def
  by (auto dest!: submit_patch_internal_effect elim!: try_sv_effect)

lemma request_approval_effect:
  "request_approval ev sv a i act = (sv', r) \<Longrightarrow> journal_ok (ev_codec ev) (sv_journal sv)
     \<Longrightarrow> effect (ev_codec ev) sv sv'"
  unfolding request_approval_def
  by (auto simp: Let_def dest: append_and_replicate_effect split: if_splits elim!: try_sv_effect)

lemma resolve_approval_effect:
  "resolve_approval ev sv a i d = (sv', r) \<Longrightarrow> journal_ok (ev_codec ev) (sv_journal sv)
     \<Longrightarrow> effect (ev_codec ev) sv sv'"
  unfolding resolve_approval_def
  by (auto dest: append_and_replicate_effect split: if_splits elim!: try_sv_effect)

lemma signal_job_effect:
  "signal_job ev sv a i d = (sv', r) \<Longrightarrow> journal_ok (ev_codec ev) (sv_journal sv)
     \<Longrightarrow> effect (ev_codec ev) sv sv'"
  unfolding signal_job_def
  by (auto dest: append_and_replicate_effect split: if_splits elim!: try_sv_effect)

section \<open>Steps\<close>

text \<open>An operation that may write one patch, with any environment over the codec \<open>c\<close>.\<close>

inductive writing_step :: "codec \<Rightarrow> service \<Rightarrow> service \<Rightarrow> bool" for c where
  attach: "ev_codec ev = c \<Longrightarrow> attach_actor ev sv s = (sv', r1) \<Longrightarrow> writing_step c sv sv'"
| hello: "ev_codec ev = c \<Longrightarrow> handshake ev sv req = (sv', r2) \<Longrightarrow> writing_step c sv sv'"
| patch: "ev_codec ev = c \<Longrightarrow> submit_patch ev sv a p = (sv', r3) \<Longrightarrow> writing_step c sv sv'"
| command: "ev_codec ev = c \<Longrightarrow> submit_command ev sv a cmd = (sv', r4) \<Longrightarrow> writing_step c sv sv'"
| convar: "ev_codec ev = c \<Longrightarrow> change_convar ev sv a n v = (sv', r5) \<Longrightarrow> writing_step c sv sv'"
| artifact: "ev_codec ev = c \<Longrightarrow> register_artifact ev sv a art = (sv', r6) \<Longrightarrow> writing_step c sv sv'"
| ask: "ev_codec ev = c \<Longrightarrow> request_approval ev sv a i act = (sv', r7) \<Longrightarrow> writing_step c sv sv'"
| answer: "ev_codec ev = c \<Longrightarrow> resolve_approval ev sv a i d = (sv', r8) \<Longrightarrow> writing_step c sv sv'"
| signal: "ev_codec ev = c \<Longrightarrow> signal_job ev sv a i sig = (sv', r9) \<Longrightarrow> writing_step c sv sv'"

lemma writing_step_effect:
  assumes "writing_step c sv sv'" "journal_ok c (sv_journal sv)"
  shows "effect c sv sv'"
  using assms
  by (induction rule: writing_step.induct)
    (blast intro: attach_actor_effect handshake_effect submit_patch_effect submit_command_effect
      change_convar_effect register_artifact_effect request_approval_effect resolve_approval_effect signal_job_effect)+

lemma effect_journal:
  assumes "effect c sv sv'" "journal_ok c (sv_journal sv)"
  shows "journal_ok c (sv_journal sv')" "linear (sv_journal sv) \<Longrightarrow> linear (sv_journal sv')"
proof -
  have "journal_ok c (sv_journal sv') \<and> (linear (sv_journal sv) \<longrightarrow> linear (sv_journal sv'))"
    using assms(1) unfolding effect_def
  proof (elim conjE disjE exE)
    assume "idle sv sv'"
    then show ?thesis using assms(2) by (simp add: idle_def)
  next
    assume "failed_append c sv sv'"
    then obtain now fault p e where "append_patch c now fault (sv_journal sv) p = (sv_journal sv', Inl e)"
      by (auto simp: failed_append_def)
    from append_patch_failed[OF assms(2) this] show ?thesis by (simp add: linear_def)
  next
    fix p
    assume "wrote c sv p sv'"
    then obtain now fault n where a: "append_patch c now fault (sv_journal sv) p = (sv_journal sv', Inr n)"
      by (auto simp: wrote_def)
    have "linear (sv_journal sv')" if "linear (sv_journal sv)"
      using journal_log.append_ok[of c "sv_journal sv" "(now, fault)" p "sv_journal sv'" n] a assms(2) that by simp
    then show ?thesis using append_patch_ok(1)[OF assms(2) a] by simp
  qed
  then show "journal_ok c (sv_journal sv')" "linear (sv_journal sv) \<Longrightarrow> linear (sv_journal sv')" by simp_all
qed

section \<open>Clients that follow the session\<close>

type_synonym copies = "actor_id \<Rightarrow> session_snapshot option"

text \<open>
  A service whose history stays on one branch, with the copy of the document every client has:
  a client polls, subscribes without a copy, or subscribes again from the offset of its copy.
\<close>

inductive follow_step :: "codec \<Rightarrow> service \<times> copies \<Rightarrow> service \<times> copies \<Rightarrow> bool" for c where
  writes: "writing_step c sv sv' \<Longrightarrow> follow_step c (sv, v) (sv', v)"
| publish: "follow_step c (sv, v) (publish_presentation sv w pl, v)"
| detach: "detach_actor sv a b = (sv', r) \<Longrightarrow> follow_step c (sv, v) (sv', v)"
| terminate: "terminate_session sv a = (sv', r) \<Longrightarrow> follow_step c (sv, v) (sv', v)"
| poll: "poll_subscriber sv a = (sv', Some m) \<Longrightarrow>
    follow_step c (sv, v) (sv', v(a := deliver (play_patch c) (v a) m))"
| fresh: "subscribe sv a None n = (sv', Inr m) \<Longrightarrow>
    follow_step c (sv, v) (sv', v(a := deliver (play_patch c) (v a) m))"
| resume: "v a = Some s \<Longrightarrow> subscribe sv a (Some (JournalOffset (ss_offset s))) n = (sv', Inr m) \<Longrightarrow>
    follow_step c (sv, v) (sv', v(a := deliver (play_patch c) (v a) m))"

inductive follow_reachable :: "codec \<Rightarrow> service \<times> copies \<Rightarrow> bool" for c where
  start: "journal_ok c j \<Longrightarrow> linear j \<Longrightarrow> follow_reachable c (new_service j, \<lambda>_. None)"
| go: "follow_reachable c x \<Longrightarrow> follow_step c x y \<Longrightarrow> follow_reachable c y"

definition following :: "codec \<Rightarrow> service \<times> copies \<Rightarrow> bool" where
  "following c x \<longleftrightarrow>
     (let (sv, v) = x; j = sv_journal sv in
      (journal_ok c j \<and> linear j)
      \<and> (\<forall>a q. fmlookup (sv_subscribers sv) a = Some q \<longrightarrow> tracks (log_of j) (past_of c j) q (v a))
      \<and> (\<forall>a s. v a = Some s \<longrightarrow> past_of c j (ss_offset s) = Some s))"

lemma tracks_copy: "tracks lg pst q (Some s) \<Longrightarrow> pst (ss_offset s) = Some s"
  by (simp add: tracks_def)

lemma followingI:
  assumes "journal_ok c (sv_journal sv)" "linear (sv_journal sv)"
    "\<And>a q. fmlookup (sv_subscribers sv) a = Some q \<Longrightarrow> tracks (log_of (sv_journal sv)) (past_of c (sv_journal sv)) q (v a)"
    "\<And>a s. v a = Some s \<Longrightarrow> past_of c (sv_journal sv) (ss_offset s) = Some s"
  shows "following c (sv, v)"
  using assms by (simp add: following_def Let_def)

lemma followingD:
  assumes "following c (sv, v)"
  shows "journal_ok c (sv_journal sv)" "linear (sv_journal sv)"
    "fmlookup (sv_subscribers sv) a = Some q \<Longrightarrow> tracks (log_of (sv_journal sv)) (past_of c (sv_journal sv)) q (v a)"
    "v a = Some s \<Longrightarrow> past_of c (sv_journal sv) (ss_offset s) = Some s"
  using assms by (simp_all add: following_def Let_def)

lemma following_effect:
  assumes f: "following c (sv, v)" and e: "effect c sv sv'"
  shows "following c (sv', v)"
proof (rule followingI)
  note d = followingD[OF f]
  show "journal_ok c (sv_journal sv')" "linear (sv_journal sv')" using effect_journal[OF e d(1)] d(2) by simp_all
  have i: "journal_ok c (sv_journal sv) \<and> linear (sv_journal sv)" using d(1,2) by simp
  have "(\<forall>a q. fmlookup (sv_subscribers sv') a = Some q \<longrightarrow> tracks (log_of (sv_journal sv')) (past_of c (sv_journal sv')) q (v a))
     \<and> (\<forall>a s. v a = Some s \<longrightarrow> past_of c (sv_journal sv') (ss_offset s) = Some s)"
    using e unfolding effect_def
  proof (elim conjE disjE exE)
    assume "idle sv sv'"
    then show ?thesis using d(3,4) by (simp add: idle_def)
  next
    assume "failed_append c sv sv'"
    then obtain now fault p x where "(\<lambda>(now, fault) j p. append_patch c now fault j p) (now, fault) (sv_journal sv) p = (sv_journal sv', Inl x)"
      "sv_subscribers sv' = sv_subscribers sv"
      by (auto simp: failed_append_def)
    then show ?thesis using journal_log.append_error[OF i] d(3,4) by metis
  next
    fix p
    assume "wrote c sv p sv'"
    then obtain now fault n where a: "(\<lambda>(now, fault) j p. append_patch c now fault j p) (now, fault) (sv_journal sv) p = (sv_journal sv', Inr n)"
      and s: "sv_subscribers sv' = fmmap (\<lambda>q. fst (queue_push q (PatchMsg p))) (sv_subscribers sv)"
      by (auto simp: wrote_def)
    have "past_of c (sv_journal sv') (ss_offset s) = Some s" if "v b = Some s" for b s
      using journal_log.append_ok[OF i a] journal_log.past_offset[OF i d(4)[OF that]] d(4)[OF that] by simp
    then show ?thesis using journal_log.tracks_append[OF i a] d(3) s by (auto simp del: queue_push.simps)
  qed
  then show "\<And>a q. fmlookup (sv_subscribers sv') a = Some q \<Longrightarrow> tracks (log_of (sv_journal sv')) (past_of c (sv_journal sv')) q (v a)"
    "\<And>a s. v a = Some s \<Longrightarrow> past_of c (sv_journal sv') (ss_offset s) = Some s" by blast+
qed

text \<open>One queue and the copy of its client change, the journal does not.\<close>

lemma following_one:
  assumes f: "following c (sv, v)" and t: "tracks (log_of (sv_journal sv)) (past_of c (sv_journal sv)) q (Some s)"
  shows "following c (sv\<lparr>sv_subscribers := fmupd a q (sv_subscribers sv)\<rparr>, v(a := Some s))"
  using followingD[OF f] t tracks_copy[OF t] by (intro followingI) (auto split: if_splits)

lemma following_poll:
  assumes f: "following c (sv, v)" and p: "poll_subscriber sv a = (sv', Some m)"
  shows "following c (sv', v(a := deliver (play_patch c) (v a) m))"
proof -
  note d = followingD[OF f]
  have i: "journal_ok c (sv_journal sv) \<and> linear (sv_journal sv)" using d(1,2) by simp
  obtain q where q: "fmlookup (sv_subscribers sv) a = Some q" using p by (auto simp: poll_subscriber_def split: option.splits)
  note t = d(3)[OF q]
  show ?thesis
  proof (cases "sq_resync q")
    case True
    then have m: "sv' = sv\<lparr>sv_subscribers := fmupd a (q\<lparr>sq_resync := False\<rparr>) (sv_subscribers sv)\<rparr>"
      "deliver (play_patch c) (v a) m = Some (jn_snapshot (sv_journal sv))"
      using p q by (auto simp: poll_subscriber_def resume_latest_def)
    have "tracks (log_of (sv_journal sv)) (past_of c (sv_journal sv)) (q\<lparr>sq_resync := False\<rparr>)
        (Some (jn_snapshot (sv_journal sv)))"
      by (rule journal_log.tracks_fresh[OF i]) (use t True in \<open>auto simp: tracks_def\<close>)
    from following_one[OF f this] show ?thesis using m by simp
  next
    case False
    then obtain q' where pop: "queue_pop q = (q', Some m)"
      and s: "sv' = sv\<lparr>sv_subscribers := fmupd a q' (sv_subscribers sv)\<rparr>"
      using p q by (auto simp: poll_subscriber_def split: prod.splits)
    note t' = journal_log.tracks_pop[OF i t False pop]
    then obtain s where s': "deliver (play_patch c) (v a) m = Some s" by (auto simp: tracks_def)
    from following_one[OF f t'[unfolded s']] show ?thesis using s s' by simp
  qed
qed

lemma new_queue_fields [simp]:
  "sq_queue (new_queue a r k n) = []" "\<not> sq_resync (new_queue a r k n)" "capacity_ok (new_queue a r k n)"
  by (simp_all add: capacity_ok_def new_queue_def MAX_SUBSCRIBE_CAPACITY_def MIN_SUBSCRIBE_CAPACITY_def)

lemma following_fresh:
  assumes f: "following c (sv, v)" and p: "subscribe sv a None n = (sv', Inr m)"
  shows "following c (sv', v(a := deliver (play_patch c) (v a) m))"
proof -
  note d = followingD[OF f]
  have i: "journal_ok c (sv_journal sv) \<and> linear (sv_journal sv)" using d(1,2) by simp
  obtain r k where s: "sv' = sv\<lparr>sv_subscribers := fmupd a (new_queue a r (JournalOffset 0) k) (sv_subscribers sv)\<rparr>"
    "m = Resync (jn_snapshot (sv_journal sv)) (current_offset sv)"
    using p by (cases "permitted sv a SubscribePatches") (auto simp: subscribe_def resume_latest_def Let_def)
  have "tracks (log_of (sv_journal sv)) (past_of c (sv_journal sv)) (new_queue a r (JournalOffset 0) k)
      (Some (jn_snapshot (sv_journal sv)))"
    by (rule journal_log.tracks_fresh[OF i]) simp_all
  from following_one[OF f this] show ?thesis using s by simp
qed

lemma following_resume:
  assumes f: "following c (sv, v)" and va: "v a = Some s"
    and p: "subscribe sv a (Some (JournalOffset (ss_offset s))) n = (sv', Inr m)"
  shows "following c (sv', v(a := deliver (play_patch c) (v a) m))"
proof -
  note d = followingD[OF f]
  have i: "journal_ok c (sv_journal sv) \<and> linear (sv_journal sv)" using d(1,2) by simp
  let ?j = "sv_journal sv"
  have ps: "past_of c ?j (ss_offset s) = Some s" using d(4)[OF va] .
  have le: "ss_offset s \<le> latest_offset ?j" using past_of_bound(1)[OF d(1) ps] .
  have so: "offset_nat (current_offset sv) = latest_offset ?j"
    using journal_ok_snapshot[OF d(1)] by (simp add: good_snapshot_def current_offset_def sv_snapshot_def)
  have old: "\<not> (ss_offset s < (case journal_records ?j of [] \<Rightarrow> 0 | r # _ \<Rightarrow> jr_offset r) \<and> 0 < ss_offset s)"
    using records_offset[OF d(1), of 0] length_records[OF d(1)] by (cases "journal_records ?j") auto
  obtain r k where sv': "sv' = sv\<lparr>sv_subscribers := fmupd a
        (fold (\<lambda>r q. fst (queue_push q (PatchMsg (jr_patch r)))) (drop (ss_offset s) (journal_records ?j))
           (new_queue a r (JournalOffset (ss_offset s)) k)) (sv_subscribers sv)\<rparr>"
    and m: "m = Heartbeat 0 (current_offset sv)"
    using p so le old records_after[OF d(1), of "ss_offset s"]
    by (cases "permitted sv a SubscribePatches") (auto simp: subscribe_def Let_def)
  have "fold (\<lambda>r q. fst (queue_push q (PatchMsg (jr_patch r)))) (drop (ss_offset s) (journal_records ?j)) q
      = fold (\<lambda>p q. fst (queue_push q (PatchMsg p))) (drop (ss_offset s) (log_of ?j)) q" for q
    by (simp add: log_of_def drop_map fold_map comp_def)
  with journal_log.tracks_resume[OF i ps, of "new_queue a r (JournalOffset (ss_offset s)) k"]
  have "tracks (log_of ?j) (past_of c ?j) (fold (\<lambda>r q. fst (queue_push q (PatchMsg (jr_patch r))))
      (drop (ss_offset s) (journal_records ?j)) (new_queue a r (JournalOffset (ss_offset s)) k)) (Some s)" by simp
  from following_one[OF f this, of a] show ?thesis using sv' m va by simp
qed

lemma follow_step_following: "follow_step c x y \<Longrightarrow> following c x \<Longrightarrow> following c y"
proof (induction rule: follow_step.induct)
  case (writes sv sv' v)
  then show ?case using following_effect writing_step_effect followingD(1) by blast
next
  case (publish sv v w pl)
  have "tracks lg pst (fst (queue_push q (Presentation w pl))) x" if "tracks lg pst q x" for lg pst q x
    by (rule tracks_other[OF that]) simp
  then show ?case
    using publish by (auto simp: following_def Let_def publish_presentation_def simp del: queue_push.simps)
next
  case (detach sv a b sv' r v)
  then have "sv_journal sv' = sv_journal sv"
    "\<And>x q. fmlookup (sv_subscribers sv') x = Some q \<Longrightarrow> fmlookup (sv_subscribers sv) x = Some q"
    by (auto simp: detach_actor_def try_sv_def split: sum.splits if_splits)
  then show ?case using detach.prems by (auto simp: following_def Let_def)
next
  case (terminate sv a sv' r v)
  then have "sv_journal sv' = sv_journal sv" "sv_subscribers sv' = sv_subscribers sv"
    by (auto simp: terminate_session_def try_sv_def split: sum.splits)
  then show ?case using terminate.prems by (auto simp: following_def Let_def)
next
  case (resume v a s sv n sv' m)
  from following_resume[OF resume(3,1,2)] show ?case .
qed (auto intro: following_poll following_fresh)

lemma follow_reachable_following: "follow_reachable c x \<Longrightarrow> following c x"
proof (induction rule: follow_reachable.induct)
  case (start j)
  then show ?case by (simp add: following_def new_service_def)
qed (rule follow_step_following)

end
