(* ===== verification/DomView.thy ===== *)
theory DomView
  imports DomProps
begin

text \<open>
  What the children of a container look like after one operation on the document: creating an
  element inserts it, editing an element changes it in place.
\<close>

lemma children_nodes: "ss_nodes s = ss_nodes t \<Longrightarrow> children s k = children t k"
proof -
  assume n: "ss_nodes s = ss_nodes t"
  have "snap_element s = snap_element t" by (rule ext) (simp add: snap_element_def snap_node_def n)
  then show ?thesis by (cases "fmlookup (ss_nodes t) k") (simp_all add: children_def n)
qed

lemma child_element:
  assumes wf: "wf_snapshot s" and n: "fmlookup (ss_nodes s) k = Some n" and c: "c \<in> set (nd_children n)"
  shows "\<exists>e. snap_element s c = Some e \<and> el_id e = c"
proof -
  note w = wf_snapshotD[OF wf]
  obtain m where m: "fmlookup (ss_nodes s) c = Some m" using linkedD(2)[OF w(1) n c] by blast
  then have "el_id (nd_element m) = c" using w(4) by (simp add: keyed_def)
  with m show ?thesis by (simp add: snap_element_def snap_node_def)
qed

lemma children_map:
  assumes wf: "wf_snapshot s" and n: "fmlookup (ss_nodes s) k = Some n"
  shows "children s k = map (the \<circ> snap_element s) (nd_children n)"
proof -
  have "map id (List.map_filter (snap_element s) (nd_children n)) = map (id \<circ> the \<circ> snap_element s) (nd_children n)"
    by (rule map_filter_total) (use child_element[OF wf n] in force)
  then show ?thesis by (simp add: children_def n)
qed

lemma map_vec_insert: "map f (vec_insert i x xs) = vec_insert i (f x) (map f xs)"
  by (simp add: vec_insert_def take_map drop_map)

lemma children_create:
  assumes wf: "wf_snapshot s" and a: "apply_create s k i e = (s', Inr u)"
  shows "children s' k = vec_insert i e (children s k)"
proof -
  note c = apply_create_InrD[OF a]
  obtain n where n: "fmlookup (ss_nodes s) k = Some n" using c(3) by blast
  have fresh: "fmlookup (ss_nodes s) (el_id e) = None"
    using wf_snapshotD(5)[OF wf, of "el_id e"] c(1) by (cases "fmlookup (ss_nodes s) (el_id e)") auto
  then have ne: "k \<noteq> el_id e" using n by auto
  have wf': "wf_snapshot s'" by (rule apply_create_wf[OF a wf])
  have n': "fmlookup (ss_nodes s') k = Some (n\<lparr>nd_children := vec_insert i (el_id e) (nd_children n)\<rparr>)"
    using c(4) n ne by (simp add: fmlookup_modify_node)
  have old: "snap_element s' x = snap_element s x" if "x \<in> set (nd_children n)" for x
  proof -
    have "x \<noteq> el_id e" using child_element[OF wf n that] fresh by (auto simp: snap_element_def snap_node_def)
    then show ?thesis
      by (simp add: c(4) snap_element_def snap_node_def fmlookup_modify_node option.map_comp comp_def)
  qed
  have "snap_element s' (el_id e) = Some e" by (simp add: c(4) snap_element_def snap_node_def)
  then show ?thesis
    using old unfolding children_map[OF wf' n'] children_map[OF wf n]
    by (simp add: map_vec_insert cong: map_cong)
qed

lemma children_edit:
  assumes wf: "wf_snapshot s" and a: "edit_element s i f u = (s', Inr v)" and f: "\<And>e. el_id (f e) = el_id e"
  shows "children s' k = map (\<lambda>e. if el_id e = i then f e else e) (children s k)"
proof -
  have s': "s' = s\<lparr>ss_nodes := modify_node i (\<lambda>m. m\<lparr>nd_element := f (nd_element m)\<rparr>) (ss_nodes s)\<rparr>"
    using a unfolding edit_element_def by (auto split: sum.splits)
  have wf': "wf_snapshot s'" by (rule edit_element_ok[OF a wf f])
  have el: "snap_element s' x = map_option (\<lambda>e. if x = i then f e else e) (snap_element s x)" for x
    by (cases "fmlookup (ss_nodes s) x") (auto simp: s' snap_element_def snap_node_def fmlookup_modify_node)
  show ?thesis
  proof (cases "fmlookup (ss_nodes s) k")
    case None
    then have "fmlookup (ss_nodes s') k = None" by (cases "k = i") (simp_all add: s' fmlookup_modify_node)
    with None show ?thesis by (simp add: children_def)
  next
    case (Some n)
    then obtain n' where n': "fmlookup (ss_nodes s') k = Some n'" "nd_children n' = nd_children n"
      by (cases "k = i") (auto simp: s' fmlookup_modify_node)
    have "(the \<circ> snap_element s') x = (\<lambda>e. if el_id e = i then f e else e) ((the \<circ> snap_element s) x)"
      if "x \<in> set (nd_children n)" for x
      using child_element[OF wf Some that] by (auto simp: el)
    then show ?thesis unfolding children_map[OF wf' n'(1)] children_map[OF wf Some] n'(2) by simp
  qed
qed

text \<open>
  A deletion removes the whole subtree below the element and nothing else: an element
  survives exactly when the deleted element is not among its ancestors-or-self; every survivor
  keeps its element and parent, and its child list except for the deleted child.
\<close>

lemma delete_removes_subtree:
  assumes "wf_snapshot s" "apply_one s (Delete k) = (s', Inr u)"
  shows "snap_node s' j =
     (if below (ss_nodes s) k j then None
      else map_option (\<lambda>n. n\<lparr>nd_children := filter (\<lambda>c. c \<noteq> k) (nd_children n)\<rparr>) (snap_node s j))"
proof -
  have ok: "apply_delete s k = (s', Inr u)" using assms(2) by simp
  note w = wf_snapshotD[OF assms(1)]
  obtain p i ns' where m: "mutable_location s k = Inr (p, i)"
    and l: "\<And>j. snap_node s' j \<noteq> None \<Longrightarrow> snap_node s' j =
      map_option (\<lambda>n. if j = p then n\<lparr>nd_children := vec_remove i (nd_children n)\<rparr> else n) (snap_node s j)"
  proof -
    obtain p i ns0 ns' rm where d: "mutable_location s k = Inr (p, i)"
      "ns0 = modify_node p (\<lambda>n. n\<lparr>nd_children := vec_remove i (nd_children n)\<rparr>) (ss_nodes s)"
      "s' = s\<lparr>ss_nodes := ns'\<rparr>" "del_inv (ss_nodes s) ns0 k ns' [] rm"
      using apply_delete_InrD[OF ok assms(1)] by blast
    have "snap_node s' j = map_option (\<lambda>n. if j = p then n\<lparr>nd_children := vec_remove i (nd_children n)\<rparr> else n)
        (snap_node s j)" if "snap_node s' j \<noteq> None" for j
      using that del_invD(3)[OF d(4), of j]
      by (cases "snap_node s j") (auto simp: snap_node_def d(2,3) fmlookup_modify_node split: if_splits)
    with d(1) that show ?thesis by blast
  qed
  obtain kn pn where k: "fmlookup (ss_nodes s) k = Some kn" "nd_parent kn = Some p"
    "fmlookup (ss_nodes s) p = Some pn" "i < length (nd_children pn)" "nd_children pn ! i = k"
    using mutable_locationD(2)[OF m] by blast
  have vr: "vec_remove i (nd_children pn) = filter (\<lambda>c. c \<noteq> k) (nd_children pn)"
    using filter_vec_remove[OF linkedD(1)[OF w(1) k(3)] k(4)] k(5) by simp
  have fl: "filter (\<lambda>c. c \<noteq> k) (nd_children n) = nd_children n" if "snap_node s j = Some n" "j \<noteq> p" for n
    using linkedD(2)[OF w(1), of j n k] that k(1,2) by (intro filter_True) (auto simp: snap_node_def)
  show ?thesis
    using apply_delete_dom[OF ok assms(1), of j] l[of j] k(3) vr fl
    by (cases "snap_node s j") (auto simp: snap_node_def split: if_splits)
qed

lemma siblings_apart:
  assumes wf: "wf_snapshot s" and p: "fmlookup (ss_nodes s) p = Some pn"
    and k: "k \<in> set (nd_children pn)" and j: "j \<in> set (nd_children pn)"
  shows "\<not> below (ss_nodes s) k p" "below (ss_nodes s) k j \<longleftrightarrow> j = k"
proof -
  note w = wf_snapshotD[OF wf]
  obtain kn where kn: "fmlookup (ss_nodes s) k = Some kn" "nd_parent kn = Some p" using linkedD(2)[OF w(1) p k] by blast
  obtain n where n: "fmlookup (ss_nodes s) j = Some n" "nd_parent n = Some p" using linkedD(2)[OF w(1) p j] by blast
  show out: "\<not> below (ss_nodes s) k p" by (rule below_parent_outside[OF w(3) kn])
  show "below (ss_nodes s) k j \<longleftrightarrow> j = k"
  proof
    assume "below (ss_nodes s) k j"
    then obtain xs where xs: "anc_path (ss_nodes s) j xs" "k \<in> set xs" by (auto simp: below_def)
    from xs(1) obtain ys where "xs = j # ys" "anc_path (ss_nodes s) p ys"
      using n by (cases rule: anc_path.cases) auto
    with xs(2) out show "j = k" by (auto simp: below_def)
  next
    assume "j = k"
    moreover obtain xs where "anc_path (ss_nodes s) k xs" using w(3) kn by (auto simp: grounded_def)
    ultimately show "below (ss_nodes s) k j" using anc_path_hd unfolding below_def by fastforce
  qed
qed

text \<open>Deleting a child takes it out of its container and leaves its siblings as they are.\<close>

lemma children_delete:
  assumes wf: "wf_snapshot s" and a: "apply_one s (Delete k) = (s', Inr u)"
    and p: "fmlookup (ss_nodes s) p = Some pn" and k: "k \<in> set (nd_children pn)"
  shows "children s' p = filter (\<lambda>e. el_id e \<noteq> k) (children s p)"
proof -
  note del = delete_removes_subtree[OF wf a]
  note apart = siblings_apart[OF wf p k]
  have wf': "wf_snapshot s'" by (rule apply_one_wf[OF wf a])
  have p': "fmlookup (ss_nodes s') p = Some (pn\<lparr>nd_children := filter (\<lambda>c. c \<noteq> k) (nd_children pn)\<rparr>)"
    using del[of p] apart(1)[OF k] p by (simp add: snap_node_def)
  have keep: "snap_element s' c = snap_element s c" if "c \<in> set (nd_children pn)" "c \<noteq> k" for c
    using del[of c] apart(2)[OF that(1)] that(2) by (cases "snap_node s c") (simp_all add: snap_element_def)
  have ids: "el_id (the (snap_element s c)) = c" if "c \<in> set (nd_children pn)" for c
    using child_element[OF wf p that] by auto
  show ?thesis
    unfolding children_map[OF wf' p'] children_map[OF wf p] filter_map comp_def
    using keep ids by (auto simp: intro!: map_cong filter_cong)
qed

end
