(* ===== verification/ServiceClaims.thy ===== *)
theory ServiceClaims
  imports ServiceInv JournalClaims DomView
begin

text \<open>
  The properties of the session service (\<open>omp-server/src/service.rs\<close>, \<open>replication.rs\<close> and
  \<open>role.rs\<close>): who may change a session, that commands are accepted once, that clients which
  follow a session converge to it, and what artifact scopes enforce.
\<close>

section \<open>A sample service\<close>

definition sample_artifact :: artifact_record where
  "sample_artifact = with_scope (new_artifact_record ''a'' ''host'' ''text/plain'' 1) (SpecJob ''j'')"

definition sample_wire :: wire where
  "sample_wire = \<lparr>wi_approval_enc = (\<lambda>_. Inr JNull), wi_approval_dec = (\<lambda>_. None),
     wi_artifact_enc = (\<lambda>_. Some JNull), wi_artifact_dec = (\<lambda>_. Some sample_artifact)\<rparr>"

text \<open>A codec that writes every record as no bytes at all.\<close>

definition wide_codec :: codec where
  "wide_codec = sample_codec\<lparr>cd_record_enc := \<lambda>_. Inr []\<rparr>"

definition sample_env :: env where
  "sample_env = \<lparr>ev_codec = wide_codec, ev_wire = sample_wire, ev_now = Inr 0, ev_fault = None,
     ev_element = ''minted'', ev_branch = ''minted''\<rparr>"

lemma sample_env_codec [simp]: "ev_codec sample_env = wide_codec"
  by (simp add: sample_env_def)

lemma wide_reachable: "journal_reachable wide_codec sample_journal" "sha_ok wide_codec" "header_ok wide_codec"
proof -
  have "create wide_codec None None ''s'' = Inr sample_journal"
    using sample_journal_create by (simp add: create_def wide_codec_def)
  then show "journal_reachable wide_codec sample_journal" by (rule journal_reachable.created)
  show "sha_ok wide_codec" "header_ok wide_codec"
    using sample_sha sample_header_ok by (simp_all add: wide_codec_def sha_ok_def header_ok_def)
qed

lemma wide_ok: "linear sample_journal" "journal_ok wide_codec sample_journal"
  using journal_reachable_inv[OF wide_reachable(1)] by (simp_all add: linear_def journal_inv_def)

text \<open>With it a clean journal takes every patch that applies to its document.\<close>

lemma wide_append:
  assumes "journal_ok wide_codec j" "\<not> jn_failed j" "jn_recovery j = None" "result_offset p = next_offset j"
    and "base_offset p = JournalOffset (ss_offset (jn_snapshot j))" "trim (reason p) \<noteq> []" "length (reason p) \<le> 4096"
    and "ops p = [Create k i e]" "op_ok (\<lambda>_. None) (Create k i e)" "op_enabled (jn_snapshot j) (Create k i e)"
  shows "\<exists>j'. append_on wide_codec (Inr t) None j p br = (j', Inr (latest_offset j + 1))"
proof -
  have js: "cd_json wide_codec = (\<lambda>_. None)" by (simp add: wide_codec_def sample_codec_def)
  have so: "ss_offset (jn_snapshot j) = latest_offset j"
    using journal_ok_snapshot[OF assms(1)] by (simp add: good_snapshot_def)
  have "patch_ok (\<lambda>_. None) p"
    using assms(4-9) so by (simp add: patch_ok_def next_offset_def less_journal_offset_def MAX_PATCH_OPS_def)
  then have v: "validate (\<lambda>_. None) p = Inr ()" by (simp add: validate_Inr_iff)
  obtain s1 u where "apply_create (jn_snapshot j) k i e = (s1, Inr u)"
    using apply_create_ok_iff[of "jn_snapshot j" k i e] assms(10)
    by (cases "apply_create (jn_snapshot j) k i e"; cases "snd (apply_create (jn_snapshot j) k i e)") auto
  then obtain s2 where ap: "apply_patch (\<lambda>_. None) (jn_snapshot j) p = (s2, Inr ())"
    using v assms(5,8) by (simp add: apply_patch_def)
  have ck: "record_checksum wide_codec r = Inr (hex (cd_sha wide_codec []))" for r
    by (simp add: record_checksum_def wide_codec_def)
  have en: "cd_record_enc wide_codec r = Inr []" for r by (simp add: wide_codec_def)
  show ?thesis
    using assms(2-4) ap
    by (simp add: append_on_def js ck en Let_def write_frame_def draft_record_def next_offset_def)
qed

definition sample_service :: service where
  "sample_service = (new_service sample_journal)\<lparr>sv_actors :=
     fmupd ''host'' (new_actor_session ''host'' Controller)
       (fmupd ''eve'' (new_actor_session ''eve'' Spectator) fmempty)\<rparr>"

lemma sample_service_fields [simp]:
  "sv_journal sample_service = sample_journal" "sv_subscribers sample_service = fmempty"
  "\<not> sv_terminated sample_service" "sv_session sample_service = ss_session (empty_snapshot ''s'')"
  by (simp_all add: sample_service_def new_service_def)

text \<open>The empty sample session takes a new element in any container.\<close>

definition sample_creation :: "actor_id \<Rightarrow> string \<Rightarrow> element_id \<Rightarrow> element_snapshot \<Rightarrow> patch" where
  "sample_creation a why k e =
     \<lparr>base_offset = JournalOffset 0, result_offset = next_offset sample_journal, patch_by = Actor a,
      reason = why, ops = [Create k (child_count (empty_snapshot ''s'') k) e]\<rparr>"

lemma sample_created:
  assumes "k \<in> set ROOTS" "el_id e \<notin> set ROOTS" "op_ok (\<lambda>_. None) (Create k 0 e)" "trim why \<noteq> []" "length why \<le> 4096"
  shows "\<exists>j'. append_on wide_codec (Inr t) None sample_journal (sample_creation a why k e) br = (j', Inr (Suc 0))"
proof -
  obtain n where n: "fmlookup (ss_nodes (empty_snapshot ''s'')) k = Some n"
    using assms(1) by (simp add: empty_snapshot_lookup)
  have "child_count (empty_snapshot ''s'') k \<le> length (nd_children n)"
    unfolding child_count_def children_map[OF wf_empty n] by simp
  then have "op_enabled (jn_snapshot sample_journal) (Create k (child_count (empty_snapshot ''s'') k) e)"
    using assms(2) n by (simp add: snap_node_def empty_snapshot_holds)
  moreover have "op_ok (\<lambda>_. None) (Create k (child_count (empty_snapshot ''s'') k) e)" using assms(3) by simp
  ultimately show ?thesis
    using wide_append[OF wide_ok(2), of "sample_creation a why k e" k "child_count (empty_snapshot ''s'') k" e t br] assms(4,5)
    by (auto simp: sample_creation_def)
qed

section \<open>Who may change a session\<close>

text \<open>The requests an attached actor can make of a session, and the permission each needs.\<close>

datatype request =
    ReqPatch patch
  | ReqCommand string
  | ReqConVar string typed_value
  | ReqAsk string string
  | ReqAnswer string bool
  | ReqSignal job_id string
  | ReqArtifact artifact_record
  | ReqFork nat
  | ReqRewind nat
  | ReqSelect branch_id
  | ReqTerminate

fun needs :: "request \<Rightarrow> permission" where
  "needs (ReqPatch p) = SubmitPatch"
| "needs (ReqCommand c) = SubmitCommand"
| "needs (ReqConVar n v) = ChangeConVar"
| "needs (ReqAsk i a) = SubmitCommand"
| "needs (ReqAnswer i d) = Approve"
| "needs (ReqSignal j s) = SignalJob"
| "needs (ReqArtifact r) = WriteWorkspace"
| "needs (ReqFork n) = ManageSession"
| "needs (ReqRewind n) = ManageSession"
| "needs (ReqSelect b) = ManageSession"
| "needs ReqTerminate = ManageSession"

definition drop_value :: "service \<times> (server_error, 'a) result \<Rightarrow> service \<times> (server_error, unit) result" where
  "drop_value x = (fst x, map_sum id (\<lambda>_. ()) (snd x))"

fun perform :: "env \<Rightarrow> service \<Rightarrow> actor_id \<Rightarrow> request \<Rightarrow> service \<times> (server_error, unit) result" where
  "perform ev sv a (ReqPatch p) = drop_value (submit_patch ev sv a p)"
| "perform ev sv a (ReqCommand c) = submit_command ev sv a c"
| "perform ev sv a (ReqConVar n v) = drop_value (change_convar ev sv a n v)"
| "perform ev sv a (ReqAsk i act) = request_approval ev sv a i act"
| "perform ev sv a (ReqAnswer i d) = resolve_approval ev sv a i d"
| "perform ev sv a (ReqSignal j s) = signal_job ev sv a j s"
| "perform ev sv a (ReqArtifact r) = drop_value (register_artifact ev sv a r)"
| "perform ev sv a (ReqFork n) = drop_value (fork_session ev sv a n)"
| "perform ev sv a (ReqRewind n) = drop_value (rewind_session ev sv a n)"
| "perform ev sv a (ReqSelect b) = drop_value (service_select_branch ev sv a b)"
| "perform ev sv a ReqTerminate = terminate_session sv a"

text \<open>Why a request is refused before anything is looked at, if it is.\<close>

definition refusal :: "service \<Rightarrow> actor_id \<Rightarrow> request \<Rightarrow> server_error option" where
  "refusal sv a rq =
     (if sv_terminated sv \<and> rq \<noteq> ReqTerminate then Some (SessionTerminated (sv_session sv))
      else (case fmlookup (sv_actors sv) a of
          None \<Rightarrow> Some (ActorNotFound a)
        | Some s \<Rightarrow>
            if has_permission (as_role s) (needs rq) then None
            else Some (Unauthorized (as_actor s) (as_role s) (debug_permission (needs rq)))))"

lemma drop_value_simps [simp]:
  "drop_value (sv, Inl e) = (sv, Inl e)" "drop_value (sv, Inr x) = (sv, Inr ())"
  by (simp_all add: drop_value_def)

lemmas service_ops = submit_patch_def submit_command_def change_convar_def request_approval_def
  resolve_approval_def signal_job_def register_artifact_def fork_session_def rewind_session_def
  service_select_branch_def terminate_session_def

lemma refused: "refusal sv a rq = Some e \<Longrightarrow> perform ev sv a rq = (sv, Inl e)"
  by (cases rq)
    (auto simp: refusal_def service_ops authorized_def permitted_def get_actor_def check_permission_def
      split: if_splits option.splits)

text \<open>
  C20: Only permitted actors change a session: a request of an actor that is not attached, or
  whose role lacks the permission the request needs, or any request but the one to terminate
  once the session is terminated, is refused with the error that says so, and journal,
  subscribers, actors and seen commands stay exactly as they were.  In particular spectators
  and inspectors change nothing, and only a controller forks, rewinds, selects or terminates.
\<close>

theorem only_permitted_actors_change:
  assumes "perform ev sv a rq = (sv', r)"
  shows "(refusal sv a rq = Some e \<longrightarrow> sv' = sv \<and> r = Inl e)
    \<and> (fmlookup (sv_actors sv) a = Some s \<longrightarrow> as_role s \<in> {Spectator, SubagentInspector} \<longrightarrow> sv' = sv)
    \<and> (fmlookup (sv_actors sv) a = Some s \<longrightarrow> needs rq = ManageSession \<longrightarrow> as_role s \<noteq> Controller \<longrightarrow> sv' = sv)"
proof -
  have part1: "refusal sv a rq = Some e \<longrightarrow> sv' = sv \<and> r = Inl e" using refused assms by auto
  have no: "sv' = sv" if hyp: "fmlookup (sv_actors sv) a = Some s" "\<not> has_permission (as_role s) (needs rq)"
  proof -
    obtain e where "refusal sv a rq = Some e" using hyp
      by (cases "sv_terminated sv \<and> rq \<noteq> ReqTerminate") (auto simp: refusal_def)
    from refused[OF this] assms show ?thesis by simp
  qed
  have part2: "fmlookup (sv_actors sv) a = Some s \<longrightarrow> as_role s \<in> {Spectator, SubagentInspector} \<longrightarrow> sv' = sv"
    using no by (cases rq) auto
  have part3: "fmlookup (sv_actors sv) a = Some s \<longrightarrow> needs rq = ManageSession \<longrightarrow> as_role s \<noteq> Controller \<longrightarrow> sv' = sv"
    using no by (cases "as_role s") auto
  show ?thesis using part1 part2 part3 by (intro conjI)
qed

theorem only_permitted_actors_change_witness:
  "fst (perform sample_env sample_service ''eve'' (ReqPatch (sample_patch []))) = sample_service"
proof (cases "perform sample_env sample_service ''eve'' (ReqPatch (sample_patch []))")
  case (Pair sv' r)
  have "fmlookup (sv_actors sample_service) ''eve'' = Some (new_actor_session ''eve'' Spectator)"
    by (simp add: sample_service_def)
  with only_permitted_actors_change[OF Pair, where s = "new_actor_session ''eve'' Spectator", THEN conjunct2, THEN conjunct1] Pair
  show ?thesis by (simp add: new_actor_session_def)
qed

section \<open>No panics\<close>

lemma sv_container_ok: "wf_snapshot s \<Longrightarrow> name \<in> set ROOTS \<Longrightarrow> sv_container s name = Inr name"
  using wf_container(2) by (simp add: sv_container_def)

lemma snapshot_wf: "journal_ok c (sv_journal sv) \<Longrightarrow> wf_snapshot (sv_snapshot sv)"
  using journal_ok_snapshot by (auto simp: good_snapshot_def sv_snapshot_def)

lemma append_to_no_panic: "append_to ev sv p = (sv', r) \<Longrightarrow> r \<noteq> Inl ServerPanicked"
  by (erule append_to_cases) auto

lemma submit_no_panic: "submit_patch_internal ev sv p = (sv', r) \<Longrightarrow> r \<noteq> Inl ServerPanicked"
  by (erule submit_patch_internal_cases) auto

lemma replicate_no_panic: "append_and_replicate ev sv p = (sv', r) \<Longrightarrow> r \<noteq> Inl ServerPanicked"
  using append_to_no_panic[of ev sv p]
  by (auto simp: append_and_replicate_def split: prod.splits sum.splits)

lemma try_panicE:
  assumes "try_sv sv x k = (sv', Inl ServerPanicked)"
  obtains "x = Inl ServerPanicked" | y where "x = Inr y" "k y = (sv', Inl ServerPanicked)"
  using assms by (cases x) auto

lemma authorized_no_panic [simp]: "authorized sv a p \<noteq> Inl ServerPanicked" "permitted sv a p \<noteq> Inl ServerPanicked"
  by (auto simp: authorized_def permitted_def get_actor_def check_permission_def result_simps split: if_splits)

lemma map_err_no_panic [simp]: "\<forall>e. g e \<noteq> ServerPanicked \<Longrightarrow> map_err g x \<noteq> Inl ServerPanicked"
  by (cases x) auto

lemma ok_or_no_panic [simp]: "e \<noteq> ServerPanicked \<Longrightarrow> ok_or e x \<noteq> Inl ServerPanicked"
  by (cases x) auto

lemma drop_no_panic [simp]: "snd (drop_value x) = Inl ServerPanicked \<longleftrightarrow> snd x = Inl ServerPanicked"
  by (cases x; cases "snd x") auto

lemma service_op_no_panic:
  assumes ok: "journal_ok (ev_codec ev) (sv_journal sv)"
  shows "submit_patch ev sv a p = (sv', r1) \<Longrightarrow> r1 \<noteq> Inl ServerPanicked"
    and "submit_command ev sv a c = (sv', r2) \<Longrightarrow> r2 \<noteq> Inl ServerPanicked"
    and "change_convar ev sv a n v = (sv', r3) \<Longrightarrow> r3 \<noteq> Inl ServerPanicked"
    and "request_approval ev sv a i act = (sv', r4) \<Longrightarrow> r4 \<noteq> Inl ServerPanicked"
    and "resolve_approval ev sv a i d = (sv', r5) \<Longrightarrow> r5 \<noteq> Inl ServerPanicked"
    and "signal_job ev sv a j sg = (sv', r6) \<Longrightarrow> r6 \<noteq> Inl ServerPanicked"
    and "register_artifact ev sv a art = (sv', r7) \<Longrightarrow> r7 \<noteq> Inl ServerPanicked"
    and "fork_session ev sv a k = (sv', r8) \<Longrightarrow> r8 \<noteq> Inl ServerPanicked"
    and "service_select_branch ev sv a b = (sv', r9) \<Longrightarrow> r9 \<noteq> Inl ServerPanicked"
    and "terminate_session sv a = (sv', r10) \<Longrightarrow> r10 \<noteq> Inl ServerPanicked"
    and "attach_actor ev sv s = (sv', r11) \<Longrightarrow> r11 \<noteq> Inl ServerPanicked"
proof -
  have wf: "wf_snapshot (sv_snapshot sv)" using snapshot_wf[OF ok] .
  have c: "sv_container (sv_snapshot sv) name = Inr name" if "name \<in> set ROOTS" for name
    using sv_container_ok[OF wf that] .
  have roots: "sv_container (sv_snapshot sv) ''meta'' = Inr ''meta''" "sv_container (sv_snapshot sv) ''convars'' = Inr ''convars''"
    "sv_container (sv_snapshot sv) ''approvals'' = Inr ''approvals''" "sv_container (sv_snapshot sv) ''artifacts'' = Inr ''artifacts''"
    "sv_container (sv_snapshot sv) ''actors'' = Inr ''actors''"
    by (simp_all add: c ROOTS_def)
  have jobs: "active_jobs (sv_snapshot sv) \<noteq> None"
    using wf_container(3)[OF wf, of "''jobs''"] by (simp add: active_jobs_def ROOTS_def)
  note base = authorized_no_panic map_err_no_panic ok_or_no_panic
  show "submit_patch ev sv a p = (sv', r1) \<Longrightarrow> r1 \<noteq> Inl ServerPanicked"
    unfolding submit_patch_def
    by (auto simp: Let_def dest: submit_no_panic split: if_splits elim!: try_panicE)
  show "submit_command ev sv a c = (sv', r2) \<Longrightarrow> r2 \<noteq> Inl ServerPanicked"
    unfolding submit_command_def roots
    by (auto simp: Let_def dest: submit_no_panic split: if_splits prod.splits sum.splits elim!: try_panicE)
  show "change_convar ev sv a n v = (sv', r3) \<Longrightarrow> r3 \<noteq> Inl ServerPanicked"
    unfolding change_convar_def roots
    by (auto simp: Let_def dest: submit_no_panic split: if_splits elim!: try_panicE)
  show "request_approval ev sv a i act = (sv', r4) \<Longrightarrow> r4 \<noteq> Inl ServerPanicked"
    unfolding request_approval_def roots
    by (auto simp: Let_def dest: replicate_no_panic split: if_splits elim!: try_panicE)
  show "resolve_approval ev sv a i d = (sv', r5) \<Longrightarrow> r5 \<noteq> Inl ServerPanicked"
    unfolding resolve_approval_def roots
    by (auto simp: Let_def dest: replicate_no_panic split: if_splits elim!: try_panicE)
  show "signal_job ev sv a j sg = (sv', r6) \<Longrightarrow> r6 \<noteq> Inl ServerPanicked"
    unfolding signal_job_def using jobs
    by (auto simp: Let_def dest: replicate_no_panic split: if_splits elim!: try_panicE)
  show "register_artifact ev sv a art = (sv', r7) \<Longrightarrow> r7 \<noteq> Inl ServerPanicked"
    unfolding register_artifact_def roots
    by (auto simp: Let_def dest: submit_no_panic split: if_splits elim!: try_panicE)
  show "fork_session ev sv a k = (sv', r8) \<Longrightarrow> r8 \<noteq> Inl ServerPanicked"
    unfolding fork_session_def
    using fork_at_no_panic[OF ok, of "ev_now ev" "ev_fault ev" "ev_branch ev" "ev_element ev" k]
    by (auto elim!: try_panicE)
  show "service_select_branch ev sv a b = (sv', r9) \<Longrightarrow> r9 \<noteq> Inl ServerPanicked"
    unfolding service_select_branch_def
    by (auto simp: result_simps split: prod.splits elim!: try_panicE)
  show "terminate_session sv a = (sv', r10) \<Longrightarrow> r10 \<noteq> Inl ServerPanicked"
    unfolding terminate_session_def by (auto elim!: try_panicE)
  show "attach_actor ev sv s = (sv', r11) \<Longrightarrow> r11 \<noteq> Inl ServerPanicked"
    unfolding attach_actor_def Let_def roots
    by (auto dest: submit_no_panic split: if_splits prod.splits sum.splits)
qed

lemma extract_no_panic:
  "wf_snapshot t \<Longrightarrow> extract_artifact_from_snapshot w t s i \<noteq> Inl ServerPanicked"
  using sv_container_ok[of t "''artifacts''"]
  by (auto simp: extract_artifact_from_snapshot_def ROOTS_def result_simps Let_def scope_violation_def
      split: if_splits option.splits artifact_scope_spec.splits)

lemma get_snapshot_wf:
  assumes ok: "journal_ok (ev_codec ev) (sv_journal sv)" and g: "get_snapshot ev sv a off = Inr t"
  shows "wf_snapshot t"
  using g materialize_known(2)[OF ok] journal_ok_snapshot[OF ok]
  by (auto simp: get_snapshot_def good_snapshot_def resume_latest_def result_simps split: option.splits if_splits)

lemma get_snapshot_no_panic: "get_snapshot ev sv a off \<noteq> Inl ServerPanicked"
  using authorized_no_panic(2)[of sv a ReadSnapshot] map_err_no_panic[of ServerState]
  by (auto simp: get_snapshot_def result_simps split: option.splits if_splits)

text \<open>
  C21: No operation panics.  Over a valid journal each operation of the service that can fail, the
  eleven requests that change the session, binding an endpoint, the handshake, attaching,
  detaching and looking up an actor, subscribing, reading a snapshot of any offset, an artifact
  now or as it was at any offset, and the approvals, gives a value of the source's result type:
  the panicking accessor of the document is never reached with a container that is missing, in
  the current document or in an old one, whatever the codec or the operating system report.  The
  operations that cannot fail (polling, publishing, replicating, the plain getters) call no such
  accessor; only \<open>write_workspace\<close>, which runs a tool, is not among the operations.
\<close>

theorem service_never_panics:
  assumes "journal_ok (ev_codec ev) (sv_journal sv)"
  shows "(snd (perform ev sv a rq) \<noteq> Inl ServerPanicked)
    \<and> (snd (handshake ev sv hq) \<noteq> Inl ServerPanicked)
    \<and> (snd (attach_actor ev sv s) \<noteq> Inl ServerPanicked)
    \<and> (snd (detach_actor sv a b) \<noteq> Inl ServerPanicked)
    \<and> (snd (subscribe sv a off cap) \<noteq> Inl ServerPanicked)
    \<and> (get_snapshot ev sv a off \<noteq> Inl ServerPanicked)
    \<and> (service_get_artifact ev sv a i \<noteq> Inl ServerPanicked)
    \<and> (get_artifact_at ev sv a i at \<noteq> Inl ServerPanicked)
    \<and> (approvals (ev_wire ev) (sv_snapshot sv) \<noteq> Inl ServerPanicked)
    \<and> (bind_endpoint ep \<noteq> Inl ServerPanicked)
    \<and> (get_actor sv a \<noteq> Inl ServerPanicked)"
proof (intro conjI)
  note no = service_op_no_panic[OF assms, OF prod.collapse[symmetric]]
  note wf = snapshot_wf[OF assms]
  have rw: "rewind_session = fork_session" by (intro ext) (simp add: rewind_session_def fork_session_def rewind_to_def)
  show "snd (perform ev sv a rq) \<noteq> Inl ServerPanicked"
    using no by (cases rq) (simp_all add: rw)
  show attach: "snd (attach_actor ev sv s) \<noteq> Inl ServerPanicked" for s by (rule no)
  then show "snd (handshake ev sv hq) \<noteq> Inl ServerPanicked"
    unfolding handshake_def Let_def
    by (cases "negotiate CURRENT (hq_version hq) (set (hq_capabilities hq)) {JOURNAL_FORMAT}")
      (auto split: prod.splits sum.splits intro: attach[THEN notE] dest: arg_cong[of _ _ snd])
  show "snd (detach_actor sv a b) \<noteq> Inl ServerPanicked"
    using authorized_no_panic(2)[of sv a ManageSession]
    by (cases "permitted sv a ManageSession") (auto simp: detach_actor_def try_sv_def)
  show "snd (subscribe sv a off cap) \<noteq> Inl ServerPanicked"
    using authorized_no_panic(2)[of sv a SubscribePatches]
    by (cases "permitted sv a SubscribePatches") (auto simp: subscribe_def try_sv_def Let_def split: prod.splits)
  show "get_snapshot ev sv a off \<noteq> Inl ServerPanicked" by (rule get_snapshot_no_panic)
  show "service_get_artifact ev sv a i \<noteq> Inl ServerPanicked"
    using extract_no_panic[OF wf] authorized_no_panic(2)[of sv a AccessArtifact]
    by (auto simp: service_get_artifact_def result_simps)
  show "get_artifact_at ev sv a i at \<noteq> Inl ServerPanicked"
    using extract_no_panic[OF get_snapshot_wf[OF assms]] authorized_no_panic(2)[of sv a AccessArtifact] get_snapshot_no_panic
    by (auto simp: get_artifact_at_def result_simps)
  show "approvals (ev_wire ev) (sv_snapshot sv) \<noteq> Inl ServerPanicked"
    using sv_container_ok[OF wf, of "''approvals''"] by (simp add: approvals_def ROOTS_def)
  show "bind_endpoint ep \<noteq> Inl ServerPanicked"
    by (simp add: bind_endpoint_def split: server_endpoint.splits)
  show "get_actor sv a \<noteq> Inl ServerPanicked"
    by (simp add: get_actor_def split: option.splits)
qed

theorem service_never_panics_witness:
  "snd (perform sample_env sample_service ''host'' (ReqSignal ''j'' ''kill'')) \<noteq> Inl ServerPanicked"
  using service_never_panics[of sample_env sample_service "''host''" "ReqSignal ''j'' ''kill''", THEN conjunct1] wide_ok(2)
  by simp

end
