(* ===== verification/ReplicaClaims.thy ===== *)
theory ReplicaClaims
  imports ServiceClaims
begin

text \<open>
  What a client that follows a session can rely on (\<open>omp-server/src/service.rs\<close>: \<open>subscribe\<close>,
  \<open>poll_subscriber\<close>, \<open>replicate\<close>; \<open>replication.rs\<close>): its copy is always a document of the
  session's history, it moves forward only, and polling brings it to the present.  The last
  section shows where the source breaks this: records of branch operations are not replicated.
\<close>

section \<open>Copies move forward\<close>

lemma tracks_bound:
  assumes "following c (sv, v)" "fmlookup (sv_subscribers sv) a = Some q"
  obtains s where "v a = Some s" "past_of c (sv_journal sv) (ss_offset s) = Some s"
    "ss_offset s \<le> latest_offset (sv_journal sv)"
    "patches (sq_queue q) = (if sq_resync q then [] else drop (ss_offset s) (log_of (sv_journal sv)))"
proof -
  have "tracks (log_of (sv_journal sv)) (past_of c (sv_journal sv)) q (v a)"
    using followingD(3)[OF assms(1,2)] .
  then obtain s where s: "v a = Some s" "past_of c (sv_journal sv) (ss_offset s) = Some s"
    "patches (sq_queue q) = (if sq_resync q then [] else drop (ss_offset s) (log_of (sv_journal sv)))"
    by (auto simp: tracks_def)
  with past_of_bound(1)[OF followingD(1)[OF assms(1)] s(2)] that show thesis by blast
qed

lemma deliver_forward:
  assumes f: "following c (sv, v)" and q: "fmlookup (sv_subscribers sv) a = Some q" and n: "\<not> sq_resync q"
    and p: "queue_pop q = (q', Some m)" and s: "v a = Some s" and d: "deliver (play_patch c) (v a) m = Some t"
  shows "ss_offset s \<le> ss_offset t"
proof (cases m)
  case (PatchMsg x)
  have "wf_snapshot s" using past_of_bound(3)[OF followingD(1)[OF f] followingD(4)[OF f s]] .
  then show ?thesis
    using d s PatchMsg apply_patch_ok(6)[of s "cd_json c" x]
    by (auto simp: play_patch_def split: prod.splits sum.splits)
next
  case (Resync x k)
  have "\<not> is_resync m"
    using followingD(3)[OF f q] p by (auto simp: tracks_def queue_pop_def split: list.splits)
  then show ?thesis using Resync by simp
qed (use d s in auto)

lemma follow_step_forward:
  assumes "follow_step c x y" "following c x" "snd x a = Some s"
  shows "\<exists>t. snd y a = Some t \<and> ss_offset s \<le> ss_offset t"
  using assms(1)
proof cases
  case (poll sv b sv' m v)
  have f: "following c (sv, v)" and va: "v a = Some s" using assms(2,3) poll(1) by simp_all
  note d = followingD[OF f]
  show ?thesis
  proof (cases "b = a")
    case True
    obtain q where q: "fmlookup (sv_subscribers sv) a = Some q"
      using poll(3) True by (auto simp: poll_subscriber_def split: option.splits)
    have ps: "past_of c (sv_journal sv) (ss_offset s) = Some s" using d(4)[OF va] .
    have cur: "ss_offset s \<le> ss_offset (jn_snapshot (sv_journal sv))"
      using past_of_bound(1)[OF d(1) ps] journal_ok_snapshot[OF d(1)] by (simp add: good_snapshot_def)
    show ?thesis
    proof (cases "sq_resync q")
      case True
      then show ?thesis using poll \<open>b = a\<close> q cur by (auto simp: poll_subscriber_def resume_latest_def)
    next
      case False
      obtain q' where pop: "queue_pop q = (q', Some m)"
        using poll(3) \<open>b = a\<close> q False by (auto simp: poll_subscriber_def split: prod.splits)
      have "following c y" by (rule follow_step_following[OF assms(1,2)])
      obtain t where t: "deliver (play_patch c) (v a) m = Some t"
        using journal_log.tracks_pop[OF conjI[OF d(1,2)] d(3)[OF q] False pop] by (auto simp: tracks_def)
      from deliver_forward[OF f q False pop va t] show ?thesis using poll(2) \<open>b = a\<close> t by simp
    qed
  next
    case False
    then show ?thesis using poll va by simp
  qed
next
  case (fresh sv b n sv' m v)
  have f: "following c (sv, v)" and va: "v a = Some s" using assms(2,3) fresh(1) by simp_all
  note d = followingD[OF f]
  have "ss_offset s \<le> ss_offset (jn_snapshot (sv_journal sv))"
    using past_of_bound(1)[OF d(1) d(4)[OF va]] journal_ok_snapshot[OF d(1)] by (simp add: good_snapshot_def)
  moreover have "m = Resync (jn_snapshot (sv_journal sv)) (current_offset sv)"
    using fresh(3) by (cases "permitted sv b SubscribePatches") (auto simp: subscribe_def resume_latest_def Let_def)
  ultimately show ?thesis using fresh(2) va by simp
next
  case (resume v b u sv n sv' m)
  have f: "following c (sv, v)" and va: "v a = Some s" using assms(2,3) resume(1) by simp_all
  note d = followingD[OF f]
  have f': "following c (sv', v(b := deliver (play_patch c) (v b) m))"
    using follow_step_following[OF assms(1,2)] resume(2) by simp
  have "m = Heartbeat 0 (current_offset sv) \<or> m = Resync (jn_snapshot (sv_journal sv)) (current_offset sv)"
    using resume(4)
    by (cases "permitted sv b SubscribePatches") (auto simp: subscribe_def resume_latest_def Let_def split: if_splits)
  moreover have "ss_offset s \<le> ss_offset (jn_snapshot (sv_journal sv))"
    using past_of_bound(1)[OF d(1) d(4)[OF va]] journal_ok_snapshot[OF d(1)] by (simp add: good_snapshot_def)
  ultimately show ?thesis using resume(2) va by auto
qed (use assms(3) in auto)

text \<open>The sample session with one controller that has subscribed.\<close>

lemma sample_attach:
  "\<exists>sv. attach_actor sample_env (new_service sample_journal) (new_actor_session ''host'' Controller) = (sv, Inr ())
     \<and> fmlookup (sv_actors sv) ''host'' = Some (new_actor_session ''host'' Controller)"
proof -
  let ?sv = "new_service sample_journal" and ?s = "new_actor_session ''host'' Controller"
  let ?e = "actor_element ''actor-host'' ?s"
  let ?p = "next_patch ?sv ''host'' ''attach actor'' [Create ''actors'' (child_count (empty_snapshot ''s'') ''actors'') ?e]"
  have j: "sv_journal ?sv = sample_journal" "sv_actors ?sv = fmempty" "\<not> sv_terminated ?sv"
    "sv_snapshot ?sv = empty_snapshot ''s''"
    by (simp_all add: new_service_def sv_snapshot_def)
  have k: "fmlookup (ss_nodes (empty_snapshot ''s'')) ''actors'' =
      Some \<lparr>nd_element = new_element ''actors'' ''actors'', nd_parent = Some ''meta'', nd_children = []\<rparr>"
    by (simp add: empty_snapshot_lookup ROOTS_def root_parent_def)
  have ch: "children (empty_snapshot ''s'') ''actors'' = []" by (simp add: children_def k)
  have ct: "sv_container (empty_snapshot ''s'') ''actors'' = Inr ''actors''"
    by (rule sv_container_ok[OF wf_empty]) (simp add: ROOTS_def)
  have t: "new_id ''actor-host'' = Inr ''actor-host''" "trim ''attach actor'' \<noteq> []" "list_all kind_byte ''actor''"
    by code_simp+
  have pe: "?p = sample_creation ''host'' ''attach actor'' ''actors'' ?e"
    by (simp add: next_patch_def sample_creation_def current_offset_def j)
  obtain j' where a: "append_on wide_codec (Inr 0) None sample_journal ?p ''main'' = (j', Inr (Suc 0))"
    using sample_created[of "''actors''" ?e "''attach actor''" 0 "''host''" "''main''"] t(2,3) unfolding pe
    by (auto simp: actor_element_def new_element_def MAX_OP_TEXT_BYTES_def ROOTS_def)
  have m: "attach_actor sample_env ?sv ?s =
      (let sv' = broadcast (?sv\<lparr>sv_journal := j'\<rparr>) (PatchMsg ?p) in
        (sv'\<lparr>sv_actors := fmupd ''host'' ?s (sv_actors sv')\<rparr>, Inr ()))"
    using a ct ch t(1)
    by (simp add: attach_actor_def new_actor_session_def j id_or_minted_def submit_patch_internal_def
        append_to_def append_patch_def sample_env_def Let_def)
  then show ?thesis by (simp add: Let_def)
qed

lemma sample_followed:
  "\<exists>sv v s. follow_reachable wide_codec (sv, v) \<and> v ''host'' = Some s
     \<and> fmlookup (sv_subscribers sv) ''host'' \<noteq> None"
proof -
  obtain sv where a: "attach_actor sample_env (new_service sample_journal) (new_actor_session ''host'' Controller) = (sv, Inr ())"
    "fmlookup (sv_actors sv) ''host'' = Some (new_actor_session ''host'' Controller)"
    using sample_attach by blast
  have r0: "follow_reachable wide_codec (new_service sample_journal, \<lambda>_. None)"
    by (rule follow_reachable.start[OF wide_ok(2,1)])
  have r1: "follow_reachable wide_codec (sv, \<lambda>_. None)"
    by (rule follow_reachable.go[OF r0 follow_step.writes[OF writing_step.attach[OF _ a(1)]]]) simp
  have "permitted sv ''host'' SubscribePatches = Inr (new_actor_session ''host'' Controller)"
    using a(2) by (simp add: permitted_def get_actor_def check_permission_def new_actor_session_def)
  then obtain sv' where s: "subscribe sv ''host'' None None = (sv', Inr (Resync (jn_snapshot (sv_journal sv)) (current_offset sv)))"
    "fmlookup (sv_subscribers sv') ''host'' \<noteq> None"
    by (simp add: subscribe_def Let_def resume_latest_def)
  have "follow_reachable wide_codec (sv', (\<lambda>_. None)(''host'' := Some (jn_snapshot (sv_journal sv))))"
    using follow_reachable.go[OF r1 follow_step.fresh[OF s(1)]] by simp
  with s(2) show ?thesis by (metis fun_upd_same)
qed

text \<open>
  C22: Replication refines the journal.  Whatever the operations, polls and subscriptions of any
  number of clients over a session with one branch, and whatever faults the journal meets: every
  copy a client holds is exactly the document the journal materialises at the copy's offset; a
  step never loses a copy and never moves it back; the patches queued for a subscriber are
  exactly those between its copy and the present, unless its queue overflowed and it will be
  sent a fresh snapshot; and no queue exceeds 4096 messages.
\<close>

theorem replication_refines_journal:
  assumes "follow_reachable c (sv, v)" "follow_step c (sv, v) (sv', v')"
  shows "(v a = Some s \<longrightarrow> materialize c (sv_journal sv) (ss_offset s) = Inr s
           \<and> (\<exists>t. v' a = Some t \<and> ss_offset s \<le> ss_offset t
                \<and> materialize c (sv_journal sv') (ss_offset t) = Inr t))
    \<and> (fmlookup (sv_subscribers sv) a = Some q \<longrightarrow>
           (\<exists>s. v a = Some s \<and> patches (sq_queue q) =
              (if sq_resync q then [] else map jr_patch (drop (ss_offset s) (journal_records (sv_journal sv))))))
    \<and> (fmlookup (sv_subscribers sv) a = Some q \<longrightarrow> length (sq_queue q) \<le> 4096)"
proof -
  have f: "following c (sv, v)" using follow_reachable_following[OF assms(1)] .
  have f': "following c (sv', v')" using follow_step_following[OF assms(2) f] .
  have mat: "materialize c (sv_journal sv) (ss_offset s) = Inr s" if "v a = Some s"
    using past_of_Some_iff[OF followingD(1)[OF f]] followingD(4)[OF f that] by simp
  have mat': "materialize c (sv_journal sv') (ss_offset t) = Inr t" if "v' a = Some t" for t
    using past_of_Some_iff[OF followingD(1)[OF f']] followingD(4)[OF f' that] by simp
  have fwd: "\<exists>t. v' a = Some t \<and> ss_offset s \<le> ss_offset t" if "v a = Some s"
    using follow_step_forward[OF assms(2) f, of a s] that by simp
  have part1: "v a = Some s \<longrightarrow> materialize c (sv_journal sv) (ss_offset s) = Inr s
           \<and> (\<exists>t. v' a = Some t \<and> ss_offset s \<le> ss_offset t
                \<and> materialize c (sv_journal sv') (ss_offset t) = Inr t)"
    using mat mat' fwd by blast
  have part2: "fmlookup (sv_subscribers sv) a = Some q \<longrightarrow>
           (\<exists>s. v a = Some s \<and> patches (sq_queue q) =
              (if sq_resync q then [] else map jr_patch (drop (ss_offset s) (journal_records (sv_journal sv)))))"
    using tracks_bound[OF f, of a q] by (metis drop_map log_of_def)
  have part3: "fmlookup (sv_subscribers sv) a = Some q \<longrightarrow> length (sq_queue q) \<le> 4096"
    using followingD(3)[OF f, of a q] by (auto simp: tracks_def capacity_ok_def MAX_SUBSCRIBE_CAPACITY_def)
  show ?thesis using part1 part2 part3 by (intro conjI)
qed

theorem replication_refines_journal_witness:
  "\<exists>(sv :: service) v s. materialize wide_codec (sv_journal sv) (ss_offset s) = Inr s \<and> v ''host'' = Some s"
proof -
  obtain sv v s where r: "follow_reachable wide_codec (sv, v)" "v ''host'' = Some s" using sample_followed by blast
  have "materialize wide_codec (sv_journal sv) (ss_offset s) = Inr s"
    using replication_refines_journal[OF r(1) follow_step.publish[of wide_codec sv v "''w''" JNull], of "''host''" s, THEN conjunct1] r(2) by simp
  with r(2) show ?thesis by blast
qed

section \<open>Catching up\<close>

text \<open>A client that polls up to \<open>n\<close> times and stops when nothing is left.\<close>

fun catch_up :: "codec \<Rightarrow> nat \<Rightarrow> actor_id \<Rightarrow> service \<times> session_snapshot option \<Rightarrow> service \<times> session_snapshot option" where
  "catch_up c 0 a x = x"
| "catch_up c (Suc n) a (sv, v) =
     (case poll_subscriber sv a of
        (sv', None) \<Rightarrow> (sv', v)
      | (sv', Some m) \<Rightarrow> catch_up c n a (sv', deliver (play_patch c) v m))"

definition backlog :: "subscriber_queue \<Rightarrow> nat" where
  "backlog q = length (sq_queue q) + (if sq_resync q then 1 else 0)"

lemma poll_cases:
  assumes "fmlookup (sv_subscribers sv) a = Some q" "poll_subscriber sv a = (sv', m)"
  shows "sv_journal sv' = sv_journal sv"
    and "m = None \<longleftrightarrow> backlog q = 0"
    and "m \<noteq> None \<Longrightarrow> \<exists>q'. fmlookup (sv_subscribers sv') a = Some q' \<and> Suc (backlog q') = backlog q"
  using assms by (auto simp: poll_subscriber_def queue_pop_def backlog_def split: if_splits list.splits)

lemma catch_up_drains:
  "following c (sv, v) \<Longrightarrow> fmlookup (sv_subscribers sv) a = Some q \<Longrightarrow> backlog q \<le> n
     \<Longrightarrow> snd (catch_up c n a (sv, v a)) = Some (sv_snapshot sv)
       \<and> sv_journal (fst (catch_up c n a (sv, v a))) = sv_journal sv"
proof (induction n arbitrary: sv v q)
  case 0
  note d = followingD[OF 0(1)]
  have "sq_queue q = []" "\<not> sq_resync q" using 0(3) by (auto simp: backlog_def split: if_splits)
  from journal_log.tracks_drained[OF conjI[OF d(1,2)] d(3)[OF 0(2)] this] show ?case by (simp add: sv_snapshot_def)
next
  case (Suc n)
  obtain sv' m where p: "poll_subscriber sv a = (sv', m)" by (cases "poll_subscriber sv a") auto
  note pc = poll_cases[OF Suc.prems(2) p]
  show ?case
  proof (cases m)
    case None
    note d = followingD[OF Suc.prems(1)]
    have "sq_queue q = []" "\<not> sq_resync q" using pc(2) None by (auto simp: backlog_def split: if_splits)
    from journal_log.tracks_drained[OF conjI[OF d(1,2)] d(3)[OF Suc.prems(2)] this] None p pc(1)
    show ?thesis by (simp add: sv_snapshot_def)
  next
    case (Some x)
    let ?v = "v(a := deliver (play_patch c) (v a) x)"
    have f: "following c (sv', ?v)" using following_poll[OF Suc.prems(1)] p Some by simp
    obtain q' where q': "fmlookup (sv_subscribers sv') a = Some q'" "Suc (backlog q') = backlog q" using pc(3) Some by auto
    have "backlog q' \<le> n" using q'(2) Suc.prems(3) by simp
    from Suc.IH[OF f q'(1) this] p Some pc(1) show ?thesis by (simp add: sv_snapshot_def)
  qed
qed

text \<open>
  C23: A client catches up: a subscriber of a session with one branch that polls as often as it
  has messages waiting, and once more if its queue has overflowed, holds the authoritative
  document of the present, and the journal has not moved; further polls change nothing.
\<close>

theorem polling_catches_up:
  assumes "follow_reachable c (sv, v)" "fmlookup (sv_subscribers sv) a = Some q"
    and "length (sq_queue q) + (if sq_resync q then 1 else 0) \<le> n"
  shows "snd (catch_up c n a (sv, v a)) = Some (sv_snapshot sv)
     \<and> sv_journal (fst (catch_up c n a (sv, v a))) = sv_journal sv"
  using catch_up_drains[OF follow_reachable_following[OF assms(1)] assms(2)] assms(3) by (simp add: backlog_def)

theorem polling_catches_up_witness:
  "\<exists>(sv :: service) v n. snd (catch_up wide_codec n ''host'' (sv, v)) = Some (sv_snapshot sv)"
proof -
  obtain sv v s q where r: "follow_reachable wide_codec (sv, v)" "fmlookup (sv_subscribers sv) ''host'' = Some q"
    using sample_followed by auto
  from polling_catches_up[OF r order_refl] show ?thesis by blast
qed

section \<open>Branches are not replicated\<close>

text \<open>
  C24: The records of branch operations never reach subscribers: a fork that succeeds moves the
  document of the session to the new record, yet every queue is as before; a client that was up
  to date before the fork then loses its copy at the next patch, whichever it is, because that
  patch builds on the record the client was not sent.
\<close>

theorem fork_leaves_a_gap:
  assumes "journal_ok (ev_codec ev) (sv_journal sv)" "fork_session ev sv a k = (sv', Inr b)"
  shows "sv_subscribers sv' = sv_subscribers sv
     \<and> ss_offset (sv_snapshot sv) < ss_offset (sv_snapshot sv')
     \<and> deliver (play_patch (ev_codec ev)) (Some (sv_snapshot sv)) (PatchMsg (next_patch sv' x why os)) = None"
proof -
  let ?c = "ev_codec ev"
  obtain j' where f: "fork_at ?c (ev_now ev) (ev_fault ev) (ev_branch ev) (ev_element ev) (sv_journal sv) k = Some (j', Inr b)"
    and sv': "sv' = sv\<lparr>sv_journal := j'\<rparr>"
    using assms(2)
    by (cases "authorized sv a ManageSession") (auto simp: fork_session_def map_err_Inr_iff split: option.splits)
  have so: "ss_offset (sv_snapshot sv) = latest_offset (sv_journal sv)"
    using journal_ok_snapshot[OF assms(1)] by (simp add: good_snapshot_def sv_snapshot_def)
  from assms(1) f obtain t off p where mt: "materialize ?c (sv_journal sv) k = Inr t"
    and ap: "append_on ?c (ev_now ev) (ev_fault ev) (sv_journal sv\<lparr>jn_snapshot := t\<rparr>) p (ev_branch ev) = (j', Inr off)"
    by (cases rule: fork_at_cases) auto
  note bt = based_materialize[OF assms(1) mt]
  have "journal_ok ?c j'" "latest_offset j' = Suc (latest_offset (sv_journal sv))"
    using append_on_result[OF assms(1) conjunct1[OF bt] ap] by auto
  then have so': "ss_offset (sv_snapshot sv') = Suc (ss_offset (sv_snapshot sv))"
    using journal_ok_snapshot[of ?c j'] so sv' by (simp add: good_snapshot_def sv_snapshot_def)
  have "play_patch ?c (sv_snapshot sv) (next_patch sv' x why os) = None"
    using so' by (auto simp: play_patch_def apply_patch_def next_patch_def current_offset_def split: sum.splits)
  then show ?thesis using so' sv' by simp
qed

theorem fork_leaves_a_gap_witness:
  "\<exists>sv' :: service. deliver (play_patch wide_codec) (Some (empty_snapshot ''s''))
     (PatchMsg (next_patch sv' ''host'' ''accept command'' [])) = None"
proof -
  let ?f = "fork_element ''minted'' ''minted'' 0"
  have t: "trim ''fork branch'' \<noteq> []" "list_all kind_byte ''branch''" by code_simp+
  obtain j' where a: "append_on wide_codec (Inr 0) None sample_journal
      (sample_creation ''host'' ''fork branch'' ''branches'' ?f) ''minted'' = (j', Inr (Suc 0))"
    using sample_created[of "''branches''" ?f "''fork branch''" 0 "''host''" "''minted''"] t
    by (auto simp: fork_element_def new_element_def MAX_OP_TEXT_BYTES_def ROOTS_def)
  have m: "materialize wide_codec sample_journal 0 = Inr (empty_snapshot ''s'')"
    by (simp add: materialize_eq materialize_at_0)
  have ct: "container (empty_snapshot ''s'') ''branches'' = Some ''branches''"
    by (rule wf_container(2)[OF wf_empty]) (simp add: ROOTS_def)
  have same: "sample_journal\<lparr>jn_snapshot := empty_snapshot ''s''\<rparr> = sample_journal"
    by (simp add: sample_journal_def start_journal_def)
  have "fork_session sample_env sample_service ''host'' 0 = (sample_service\<lparr>sv_journal := j'\<rparr>, Inr ''minted'')"
    using a by (simp add: fork_session_def authorized_def permitted_def get_actor_def check_permission_def
        new_actor_session_def fork_at_def m ct same sample_env_def sample_service_def new_service_def Let_def
        sample_creation_def child_count_def)
  from fork_leaves_a_gap[OF _ this] wide_ok(2) show ?thesis by (auto simp: sv_snapshot_def)
qed

end
