(* ===== verification/SessionClaims.thy ===== *)
theory SessionClaims
  imports ServiceClaims DomView
begin

text \<open>
  The life of a session over all operations of the service (\<open>omp-server/src/service.rs\<close>) and
  restarts from its journal file: commands are accepted once, approvals are answered once, and
  what an artifact's scope enforces.
\<close>

section \<open>The life of a session\<close>

inductive service_step :: "codec \<Rightarrow> service \<Rightarrow> service \<Rightarrow> bool" for c where
  writes: "writing_step c sv sv' \<Longrightarrow> service_step c sv sv'"
| detach: "detach_actor sv a b = (sv', r1) \<Longrightarrow> service_step c sv sv'"
| terminate: "terminate_session sv a = (sv', r2) \<Longrightarrow> service_step c sv sv'"
| publish: "service_step c sv (publish_presentation sv w pl)"
| subscribe: "subscribe sv a off n = (sv', r3) \<Longrightarrow> service_step c sv sv'"
| poll: "poll_subscriber sv a = (sv', m) \<Longrightarrow> service_step c sv sv'"
| fork: "ev_codec ev = c \<Longrightarrow> fork_session ev sv a k = (sv', r4) \<Longrightarrow> service_step c sv sv'"
| rewind: "ev_codec ev = c \<Longrightarrow> rewind_session ev sv a k = (sv', r5) \<Longrightarrow> service_step c sv sv'"
| select: "ev_codec ev = c \<Longrightarrow> service_select_branch ev sv a br = (sv', r6) \<Longrightarrow> service_step c sv sv'"
| restart: "all_storable c (sv_journal sv) \<Longrightarrow> open_file c None (jn_file (sv_journal sv)) = Inr j
     \<Longrightarrow> jn_recovery (sv_journal sv) = None \<Longrightarrow> \<not> jn_failed (sv_journal sv) \<Longrightarrow> service_step c sv (new_service j)"

inductive service_steps :: "codec \<Rightarrow> service \<Rightarrow> service \<Rightarrow> bool" for c where
  stay: "service_steps c sv sv"
| more: "service_steps c sv sv1 \<Longrightarrow> service_step c sv1 sv2 \<Longrightarrow> service_steps c sv sv2"

text \<open>A command that the session has recorded and remembers.\<close>

definition remembers :: "service \<Rightarrow> string \<Rightarrow> bool" where
  "remembers sv x \<longleftrightarrow> x \<in> sv_seen sv \<and> x \<in> recorded_commands (journal_records (sv_journal sv))"

lemma recorded_iff:
  assumes "journal_ok c j"
  shows "x \<in> recorded_commands (journal_records j) \<longleftrightarrow>
     (\<exists>k r. fmlookup (jn_records j) k = Some r \<and> x \<in> set (concat (map receipt_ids (ops (jr_patch r)))))"
proof -
  have dom: "k \<in> {1..latest_offset j} \<longleftrightarrow> (\<exists>r. fmlookup (jn_records j) k = Some r)" for k
    using journal_ok_lookup[OF assms, of k] by auto
  have "set (journal_records j) = (\<lambda>k. the (fmlookup (jn_records j) k)) ` {1..latest_offset j}"
    unfolding records_map[OF assms] by (simp add: atLeastLessThanSuc_atLeastAtMost del: upt_Suc)
  then have "r \<in> set (journal_records j) \<longleftrightarrow> (\<exists>k. fmlookup (jn_records j) k = Some r)" for r
    using dom by (metis (no_types, lifting) imageE imageI option.sel)
  then have "(\<exists>r \<in> set (journal_records j). P r) \<longleftrightarrow> (\<exists>k r. fmlookup (jn_records j) k = Some r \<and> P r)" for P
    by blast
  then show ?thesis unfolding recorded_commands_def by (simp only: set_concat set_map UN_iff bex_simps image_iff) auto
qed

lemma recorded_grows:
  assumes "journal_ok c j" "journal_step c j j'" "journal_ok c j'"
  shows "recorded_commands (journal_records j) \<subseteq> recorded_commands (journal_records j')"
proof
  fix x
  assume "x \<in> recorded_commands (journal_records j)"
  then obtain k r where r: "fmlookup (jn_records j) k = Some r" "x \<in> set (concat (map receipt_ids (ops (jr_patch r))))"
    unfolding recorded_iff[OF assms(1)] by blast
  have "k \<le> latest_offset j" using journal_ok_lookup[OF assms(1), of k] r(1) by simp
  then have "fmlookup (jn_records j') k = Some r"
    using journal_step_history[OF assms(1,2)] r(1) by simp
  then show "x \<in> recorded_commands (journal_records j')" unfolding recorded_iff[OF assms(3)] using r(2) by blast
qed

lemma remembers_journal_step:
  assumes "journal_inv c (sv_journal sv)" "journal_step c (sv_journal sv) (sv_journal sv')"
    and "sv_seen sv \<subseteq> sv_seen sv'" "remembers sv x"
  shows "journal_inv c (sv_journal sv') \<and> remembers sv' x"
proof -
  have i: "journal_inv c (sv_journal sv')" by (rule journal_step_inv[OF assms(2,1)])
  then show ?thesis
    using recorded_grows[OF _ assms(2)] assms(1,3,4) by (auto simp: journal_inv_def remembers_def)
qed

lemma remembers_effect:
  assumes "journal_inv c (sv_journal sv)" "effect c sv sv'" "remembers sv x"
  shows "journal_inv c (sv_journal sv') \<and> remembers sv' x"
  using assms(2) unfolding effect_def
proof (elim conjE disjE exE)
  assume "idle sv sv'" "keeps sv sv'"
  then show ?thesis using assms by (auto simp: idle_def keeps_def remembers_def)
next
  assume f: "failed_append c sv sv'" and k: "keeps sv sv'"
  then obtain now fault p e where "append_patch c now fault (sv_journal sv) p = (sv_journal sv', Inl e)"
    by (auto simp: failed_append_def)
  from remembers_journal_step[OF assms(1) journal_step.append[OF this]] k assms(3) show ?thesis by (simp add: keeps_def)
next
  fix p
  assume f: "wrote c sv p sv'" and k: "keeps sv sv'"
  then obtain now fault n where "append_patch c now fault (sv_journal sv) p = (sv_journal sv', Inr n)"
    by (auto simp: wrote_def)
  from remembers_journal_step[OF assms(1) journal_step.append[OF this]] k assms(3) show ?thesis by (simp add: keeps_def)
qed

lemma try_sv_cases:
  assumes "try_sv sv x k = (sv', r)"
  obtains (error) e where "sv' = sv" "r = Inl e" | (ok) y where "x = Inr y" "k y = (sv', r)"
  using assms by (cases x) auto

lemma fork_session_journal:
  "fork_session ev sv a k = (sv', r) \<Longrightarrow>
     sv' = sv \<or> (journal_step (ev_codec ev) (sv_journal sv) (sv_journal sv') \<and> sv_seen sv' = sv_seen sv)"
  unfolding fork_session_def
  by (erule try_sv_cases) (auto split: option.splits intro: journal_step.fork)

lemma select_branch_journal:
  "service_select_branch ev sv a br = (sv', r) \<Longrightarrow>
     sv' = sv \<or> (journal_step (ev_codec ev) (sv_journal sv) (sv_journal sv') \<and> sv_seen sv' = sv_seen sv)"
  unfolding service_select_branch_def
  by (erule try_sv_cases) (auto split: prod.splits intro: journal_step.select)

lemma quiet_step:
  "detach_actor sv a b = (sv', r1) \<Longrightarrow> sv_journal sv' = sv_journal sv \<and> sv_seen sv' = sv_seen sv"
  "terminate_session sv a = (sv', r2) \<Longrightarrow> sv_journal sv' = sv_journal sv \<and> sv_seen sv' = sv_seen sv"
  "subscribe sv a off n = (sv', r3) \<Longrightarrow> sv_journal sv' = sv_journal sv \<and> sv_seen sv' = sv_seen sv"
  "poll_subscriber sv a = (sv', m) \<Longrightarrow> sv_journal sv' = sv_journal sv \<and> sv_seen sv' = sv_seen sv"
  by (auto simp: detach_actor_def terminate_session_def subscribe_def poll_subscriber_def Let_def
      split: option.splits if_splits prod.splits elim!: try_sv_cases)

lemma service_step_remembers:
  assumes "service_step c sv sv'" "journal_inv c (sv_journal sv)" "sha_ok c" "header_ok c" "remembers sv x"
  shows "journal_inv c (sv_journal sv') \<and> remembers sv' x"
  using assms(1)
proof cases
  case writes
  have "journal_ok c (sv_journal sv)" using assms(2) by (simp add: journal_inv_def)
  from remembers_effect[OF assms(2) writing_step_effect[OF writes this] assms(5)] show ?thesis .
next
  case (fork ev a k r)
  then show ?thesis using fork_session_journal[OF fork(2)] remembers_journal_step[OF assms(2)] assms(2,5) by auto
next
  case (rewind ev a k r)
  have "fork_session ev sv a k = (sv', r)" using rewind(2) by (simp add: rewind_session_def fork_session_def rewind_to_def)
  then show ?thesis using fork_session_journal rewind(1) remembers_journal_step[OF assms(2)] assms(2,5) by blast
next
  case (select ev a br r)
  then show ?thesis using select_branch_journal[OF select(2)] remembers_journal_step[OF assms(2)] assms(2,5) by auto
next
  case (restart j)
  have "durable c (sv_journal sv)" using assms(2-4) restart(2) by (simp add: journal_inv_def)
  then have "jn_records j = jn_records (sv_journal sv)"
    using restart(3-5) by (auto simp: durable_def replays_def)
  moreover have "journal_inv c j" by (rule journal_reachable_inv[OF journal_reachable.opened[OF restart(3)]])
  ultimately show ?thesis using assms(5) restart(1) by (simp add: remembers_def new_service_def records_cong[of j])
qed (use assms(2,5) quiet_step in \<open>auto simp: remembers_def publish_presentation_def\<close>)

lemma service_steps_remember:
  "service_steps c sv sv' \<Longrightarrow> journal_inv c (sv_journal sv) \<Longrightarrow> sha_ok c \<Longrightarrow> header_ok c \<Longrightarrow> remembers sv x
     \<Longrightarrow> remembers sv' x \<and> journal_inv c (sv_journal sv')"
  by (induction rule: service_steps.induct) (use service_step_remembers in blast)+

section \<open>Commands\<close>

lemma submit_command_ok:
  assumes s: "submit_command ev sv a cmd = (sv', Inr ())" and ok: "journal_ok (ev_codec ev) (sv_journal sv)"
  shows "trim cmd \<in> sv_seen sv'" "trim cmd \<in> recorded_commands (journal_records (sv_journal sv'))"
    "trim cmd \<notin> sv_seen sv" "sv_journal sv' \<noteq> sv_journal sv"
proof -
  obtain k where k: "sv_container (sv_snapshot sv) ''meta'' = Inr k"
    and n: "trim cmd \<notin> sv_seen sv"
    and c: "(case submit_patch_internal ev sv (next_patch sv a ''accept command''
                 [Create k (child_count (sv_snapshot sv) k) (receipt_element (ev_element ev) (trim cmd))]) of
            (sv', Inl e) \<Rightarrow> (sv', Inl e)
          | (sv', Inr _) \<Rightarrow> (sv'\<lparr>sv_seen := insert (trim cmd) (sv_seen sv')\<rparr>, Inr ())) = (sv', Inr ())"
    using s unfolding submit_command_def
    by (auto simp: Let_def split: if_splits elim!: try_sv_cases)
  let ?p = "next_patch sv a ''accept command''
                 [Create k (child_count (sv_snapshot sv) k) (receipt_element (ev_element ev) (trim cmd))]"
  obtain sv1 off where i: "submit_patch_internal ev sv ?p = (sv1, Inr off)"
    and sv': "sv' = sv1\<lparr>sv_seen := insert (trim cmd) (sv_seen sv1)\<rparr>"
    using c by (auto split: prod.splits sum.splits)
  from i obtain j' n' where j': "sv_journal sv1 = j'"
    and a: "append_patch (ev_codec ev) (ev_now ev) (ev_fault ev) (sv_journal sv) ?p = (j', Inr n')"
    by (cases rule: submit_patch_internal_cases) auto
  note o = append_patch_ok[OF ok a]
  obtain r where r: "journal_records j' = journal_records (sv_journal sv) @ [r]" "jr_patch r = ?p" using o(5) by blast
  show "trim cmd \<in> sv_seen sv'" "trim cmd \<notin> sv_seen sv" using sv' n by simp_all
  show "trim cmd \<in> recorded_commands (journal_records (sv_journal sv'))"
    using r j' sv' by (simp add: recorded_commands_def next_patch_def receipt_element_def new_element_def)
  show "sv_journal sv' \<noteq> sv_journal sv" using r(1) j' sv' by auto
qed

text \<open>
  C25: A command is accepted once: after \<open>submit_command\<close> has accepted an identifier, no later
  submission of an identifier that trims to the same text is accepted, by whichever actor, after
  any operations of the service, branch operations included, and after any restarts of the
  service from the journal file; the submission changes nothing.
\<close>

theorem command_accepted_once:
  assumes "submit_command ev sv a cmd = (sv1, Inr ())" "journal_reachable (ev_codec ev) (sv_journal sv)"
    and "sha_ok (ev_codec ev)" "header_ok (ev_codec ev)" "service_steps (ev_codec ev) sv1 sv2"
    and "trim cmd' = trim cmd" "submit_command ev' sv2 b cmd' = (sv3, r)"
  shows "sv3 = sv2 \<and> (\<exists>e. r = Inl e)
     \<and> (authorized sv2 b SubmitCommand = Inr s \<longrightarrow> r = Inl (CommandReplayed (trim cmd)))"
proof -
  have inv: "journal_inv (ev_codec ev) (sv_journal sv)" by (rule journal_reachable_inv[OF assms(2)])
  then have ok: "journal_ok (ev_codec ev) (sv_journal sv)" by (simp add: journal_inv_def)
  note c = submit_command_ok[OF assms(1) ok]
  have ne: "trim cmd \<noteq> [] \<and> length (trim cmd) \<le> 128"
    using assms(1) by (auto simp: submit_command_def Let_def split: if_splits elim!: try_sv_cases)
  have i1: "journal_inv (ev_codec ev) (sv_journal sv1)"
  proof -
    have e: "effect (ev_codec ev) sv sv1" by (rule submit_command_effect[OF assms(1)])
    then consider "sv_journal sv1 = sv_journal sv" | "journal_step (ev_codec ev) (sv_journal sv) (sv_journal sv1)"
      by (auto simp: effect_def idle_def failed_append_def wrote_def intro: journal_step.append)
    then show ?thesis using inv journal_step_inv by cases auto
  qed
  have "remembers sv1 (trim cmd)" using c by (simp add: remembers_def)
  from service_steps_remember[OF assms(5) i1 assms(3,4) this] have m: "trim cmd' \<in> sv_seen sv2"
    by (simp add: remembers_def assms(6))
  show ?thesis using assms(7) m ne assms(6)
    unfolding submit_command_def by (cases "authorized sv2 b SubmitCommand") (auto simp: Let_def)
qed

lemma sample_command:
  "\<exists>sv. submit_command sample_env sample_service ''host'' ''c1'' = (sv, Inr ())"
proof -
  let ?r = "receipt_element ''minted'' ''c1''" and ?n = "child_count (empty_snapshot ''s'') ''meta''"
  let ?p = "next_patch sample_service ''host'' ''accept command'' [Create ''meta'' ?n ?r]"
  have sn: "sv_snapshot sample_service = empty_snapshot ''s''" by (simp add: sv_snapshot_def)
  have t: "trim ''c1'' = ''c1''" "trim ''accept command'' \<noteq> []" "list_all kind_byte ''command_receipt''" by code_simp+
  have ct: "sv_container (sv_snapshot sample_service) ''meta'' = Inr ''meta''"
    unfolding sn by (rule sv_container_ok[OF wf_empty]) (simp add: ROOTS_def)
  have pe: "?p = sample_creation ''host'' ''accept command'' ''meta'' ?r"
    by (simp add: next_patch_def sample_creation_def current_offset_def sn)
  obtain j' where a: "append_patch wide_codec (Inr 0) None sample_journal ?p = (j', Inr (Suc 0))"
    using sample_created[of "''meta''" ?r "''accept command''" 0 "''host''" "''main''"] t(2,3) unfolding pe
    by (auto simp: receipt_element_def new_element_def MAX_OP_TEXT_BYTES_def ROOTS_def append_patch_def)
  have seen: "''c1'' \<notin> sv_seen sample_service"
    by (simp add: sample_service_def new_service_def recorded_commands_def journal_records_def fmvalues_def
        sorted_list_of_fmap_def)
  have au: "authorized sample_service ''host'' SubmitCommand = Inr (new_actor_session ''host'' Controller)"
    by (simp add: authorized_def permitted_def get_actor_def check_permission_def sample_service_def new_service_def
        new_actor_session_def)
  have env: "ev_now sample_env = Inr 0" "ev_fault sample_env = None" "ev_element sample_env = ''minted''"
    by (simp_all add: sample_env_def)
  show ?thesis
    using a ct by (simp add: submit_command_def au t(1) seen Let_def submit_patch_internal_def append_to_def env sn)
qed

theorem command_accepted_once_witness:
  "\<exists>sv e. submit_command sample_env sample_service ''host'' ''c1'' = (sv, Inr ())
     \<and> submit_command sample_env sv ''host'' '' c1 '' = (sv, Inl e)"
proof -
  obtain sv where sv: "submit_command sample_env sample_service ''host'' ''c1'' = (sv, Inr ())"
    using sample_command by blast
  obtain sv3 r where again: "submit_command sample_env sv ''host'' '' c1 '' = (sv3, r)"
    by (cases "submit_command sample_env sv ''host'' '' c1 ''") auto
  have "trim '' c1 '' = trim ''c1''" by code_simp
  from command_accepted_once[OF sv _ _ _ service_steps.stay this again] wide_reachable sv again
  show ?thesis by auto
qed

section \<open>Artifacts\<close>

text \<open>The document after one operation of a patch, as far as children are concerned.\<close>

lemma appended_create:
  assumes ok: "journal_ok c j" and a: "append_patch c now fault j p = (j', Inr n)" and o: "ops p = [Create k i e]"
  shows "children (jn_snapshot j') k = vec_insert i e (children (jn_snapshot j) k)"
proof -
  have wf: "wf_snapshot (jn_snapshot j)" using journal_ok_snapshot[OF ok] by (simp add: good_snapshot_def)
  obtain r where r: "jr_patch r = p" "apply_record c r (jn_snapshot j) = Inr (jn_snapshot j')"
    using append_patch_ok(5)[OF ok a] by blast
  then obtain s' where "apply_patch (cd_json c) (jn_snapshot j) p = (s', Inr ())" "ss_nodes (jn_snapshot j') = ss_nodes s'"
    by (auto simp: apply_record_Inr_iff)
  then obtain s1 u where "apply_create (jn_snapshot j) k i e = (s1, Inr u)" "ss_nodes (jn_snapshot j') = ss_nodes s1"
    using o by (auto simp: apply_patch_def split: sum.splits if_splits prod.splits)
  then show ?thesis using children_create[OF wf] children_nodes[of "jn_snapshot j'" s1 k] by simp
qed

lemma find_vec_insert:
  "\<forall>x \<in> set xs. \<not> P x \<Longrightarrow> P e \<Longrightarrow> find P (vec_insert i e xs) = Some e"
proof -
  assume n: "\<forall>x \<in> set xs. \<not> P x" and e: "P e"
  have "find P (take i xs) = None" using n by (auto simp: find_None_iff dest: in_set_takeD)
  moreover have "find P (ys @ e # zs) = Some e" if "find P ys = None" for ys zs
    using that e by (induction ys) (auto split: if_splits)
  ultimately show ?thesis by (simp add: vec_insert_def)
qed

text \<open>
  C26: What an artifact's scope enforces.  A registered artifact is found again with the record
  it was registered with, if that record survives its encoding and no earlier artifact has its
  name; every attached actor gets it except, when the actor is not a controller, an actor that
  is missing from the list of allowed actors, or is not the actor an actor scope names; these
  get a scope violation.  A job scope keeps nobody out: the comment in the source asks for a
  controller or a matching job actor, the code does not.
\<close>

theorem artifact_scope_enforced:
  assumes "journal_ok (ev_codec ev) (sv_journal sv)" "register_artifact ev sv a r = (sv', Inr off)"
    and "wi_artifact_enc (ev_wire ev) r = Some pl" "wi_artifact_dec (ev_wire ev) pl = Some r"
    and "list_all (\<lambda>e. \<not> names_artifact (ar_id r) e) (children (sv_snapshot sv) ''artifacts'')"
    and "ev_wire ev' = ev_wire ev" "fmlookup (sv_actors sv') b = Some s"
  shows "service_get_artifact ev' sv' b (ar_id r) =
     (if as_role s = Controller
         \<or> ((case ar_allowed r of Some as \<Rightarrow> as_actor s \<in> set as | None \<Rightarrow> True)
            \<and> (case ar_scope r of SpecActor x \<Rightarrow> x = as_actor s | _ \<Rightarrow> True))
      then Inr r else Inl (ArtifactScopeViolation (ar_id r) (as_actor s)))"
proof -
  have wf: "wf_snapshot (sv_snapshot sv)" using snapshot_wf[OF assms(1)] .
  have ct: "sv_container (sv_snapshot sv) ''artifacts'' = Inr ''artifacts''"
    by (rule sv_container_ok[OF wf]) (simp add: ROOTS_def)
  let ?e = "artifact_element (ev_wire ev) (id_or_minted ev (''artifact-'' @ ar_id r)) r"
  let ?p = "next_patch sv a (''register artifact '' @ ar_id r)
       [Create ''artifacts'' (child_count (sv_snapshot sv) ''artifacts'') ?e]"
  have i: "submit_patch_internal ev sv ?p = (sv', Inr off)"
    using assms(2) ct by (auto simp: register_artifact_def elim!: try_sv_cases)
  obtain j' n' where j': "sv_journal sv' = j'"
    and ap: "append_patch (ev_codec ev) (ev_now ev) (ev_fault ev) (sv_journal sv) ?p = (j', Inr n')"
    using i by (cases rule: submit_patch_internal_cases) auto
  have ch: "children (sv_snapshot sv') ''artifacts'' =
      vec_insert (child_count (sv_snapshot sv) ''artifacts'') ?e (children (sv_snapshot sv) ''artifacts'')"
    using appended_create[OF assms(1) ap] j' by (simp add: sv_snapshot_def next_patch_def)
  have nm: "names_artifact (ar_id r) ?e"
    by (simp add: names_artifact_def artifact_element_def new_element_def)
  have fd: "find (names_artifact (ar_id r)) (children (sv_snapshot sv') ''artifacts'') = Some ?e"
    unfolding ch by (rule find_vec_insert) (use assms(5) nm in \<open>auto simp: list_all_iff\<close>)
  have wf': "wf_snapshot (sv_snapshot sv')"
    using snapshot_wf append_patch_ok(1)[OF assms(1) ap] j' by blast
  have ct': "sv_container (sv_snapshot sv') ''artifacts'' = Inr ''artifacts''"
    by (rule sv_container_ok[OF wf']) (simp add: ROOTS_def)
  have pl: "el_payload ?e = Some pl" by (simp add: artifact_element_def assms(3))
  have pm: "permitted sv' b AccessArtifact = Inr s"
    using assms(7) by (cases "as_role s") (simp_all add: permitted_def get_actor_def check_permission_def)
  show ?thesis
    using assms(4) pl
    by (simp add: service_get_artifact_def extract_artifact_from_snapshot_def pm ct' fd assms(6) Let_def
        scope_violation_def split: option.split artifact_scope_spec.split)
qed

theorem artifact_scope_enforced_witness:
  "\<exists>sv. service_get_artifact sample_env sv ''eve'' ''a'' = Inr sample_artifact \<and> ar_scope sample_artifact = SpecJob ''j''"
proof -
  let ?e = "artifact_element sample_wire ''artifact-a'' sample_artifact"
  let ?n = "child_count (empty_snapshot ''s'') ''artifacts''"
  let ?p = "next_patch sample_service ''host'' ''register artifact a'' [Create ''artifacts'' ?n ?e]"
  have sn: "sv_snapshot sample_service = empty_snapshot ''s''" by (simp add: sv_snapshot_def)
  have t: "new_id ''artifact-a'' = Inr ''artifact-a''" "trim ''register artifact a'' \<noteq> []" "list_all kind_byte ''artifact''"
    by code_simp+
  have id: "ar_id sample_artifact = ''a''" by (simp add: sample_artifact_def with_scope_def new_artifact_record_def)
  have ct: "sv_container (sv_snapshot sample_service) ''artifacts'' = Inr ''artifacts''"
    unfolding sn by (rule sv_container_ok[OF wf_empty]) (simp add: ROOTS_def)
  have pe: "?p = sample_creation ''host'' ''register artifact a'' ''artifacts'' ?e"
    by (simp add: next_patch_def sample_creation_def current_offset_def sn)
  obtain j' where a: "append_patch wide_codec (Inr 0) None sample_journal ?p = (j', Inr (Suc 0))"
    using sample_created[of "''artifacts''" ?e "''register artifact a''" 0 "''host''" "''main''"] t(2,3) unfolding pe
    by (auto simp: artifact_element_def new_element_def MAX_OP_TEXT_BYTES_def ROOTS_def append_patch_def)
  have au: "authorized sample_service ''host'' WriteWorkspace = Inr (new_actor_session ''host'' Controller)"
    by (simp add: authorized_def permitted_def get_actor_def check_permission_def sample_service_def new_service_def
        new_actor_session_def)
  have env: "ev_now sample_env = Inr 0" "ev_fault sample_env = None" "ev_wire sample_env = sample_wire"
    by (simp_all add: sample_env_def)
  obtain sv off where r: "register_artifact sample_env sample_service ''host'' sample_artifact = (sv, Inr off)"
    "sv_actors sv = sv_actors sample_service"
    using a ct t(1) by (simp add: register_artifact_def au id_or_minted_def id submit_patch_internal_def append_to_def env sn)
  have ch: "children (sv_snapshot sample_service) ''artifacts'' = []"
    unfolding sn by (simp add: children_def empty_snapshot_lookup) (simp add: ROOTS_def root_parent_def)
  have eve: "fmlookup (sv_actors sv) ''eve'' = Some (new_actor_session ''eve'' Spectator)"
    unfolding r(2) by (simp add: sample_service_def)
  have "service_get_artifact sample_env sv ''eve'' (ar_id sample_artifact) = Inr sample_artifact"
    using artifact_scope_enforced[OF _ r(1) _ _ _ refl eve] wide_ok(2) ch
    by (simp add: env sample_wire_def sample_artifact_def with_scope_def new_artifact_record_def)
  then show ?thesis by (auto simp: sample_artifact_def with_scope_def new_artifact_record_def)
qed

end
