(* ===== verification/Numbers.thy ===== *)
theory Numbers
  imports Types
begin

text \<open>
  The parts of Rust's \<open>core\<close> number formatting the control crate uses: \<open>str::parse\<close> for
  integers and for \<open>f64\<close>, the saturating cast \<open>f64 as i64\<close>, the rounding cast \<open>i64 as f64\<close>
  and the order of \<open>f64\<close>.  An \<open>f64\<close> is its bit pattern (type \<open>f64\<close> of \<open>Types\<close>), an \<open>i64\<close> a
  64-bit word read with \<open>sint\<close>.
\<close>

section \<open>Integers\<close>

datatype int_error = IntEmpty | InvalidDigit | PosOverflow | NegOverflow

fun show_int_error :: "int_error \<Rightarrow> string" where
  "show_int_error IntEmpty = ''cannot parse integer from empty string''"
| "show_int_error InvalidDigit = ''invalid digit found in string''"
| "show_int_error PosOverflow = ''number too large to fit in target type''"
| "show_int_error NegOverflow = ''number too small to fit in target type''"

definition digit_val :: "char \<Rightarrow> nat option" where
  "digit_val c = (if 48 \<le> byte_of c \<and> byte_of c \<le> 57 then Some (byte_of c - 48) else None)"

text \<open>The checked loop: the digit is looked at before the overflow of the multiplication.\<close>

fun parse_digits :: "int \<Rightarrow> int \<Rightarrow> bool \<Rightarrow> string \<Rightarrow> int \<Rightarrow> (int_error, int) result" where
  "parse_digits lo hi neg [] acc = Inr acc"
| "parse_digits lo hi neg (c # cs) acc =
     (case digit_val c of
        None \<Rightarrow> Inl InvalidDigit
      | Some d \<Rightarrow>
          let m = acc * 10; v = (if neg then m - int d else m + int d) in
          if m < lo \<or> hi < m \<or> v < lo \<or> hi < v then Inl (if neg then NegOverflow else PosOverflow)
          else parse_digits lo hi neg cs v)"

definition parse_int :: "int \<Rightarrow> int \<Rightarrow> string \<Rightarrow> (int_error, int) result" where
  "parse_int lo hi s =
     (case s of
        [] \<Rightarrow> Inl IntEmpty
      | c # cs \<Rightarrow>
          if cs = [] \<and> (c = CHR ''+'' \<or> c = CHR ''-'') then Inl InvalidDigit
          else if c = CHR ''+'' then parse_digits lo hi False cs 0
          else if c = CHR ''-'' \<and> lo < 0 then parse_digits lo hi True cs 0
          else parse_digits lo hi False s 0)"

definition parse_i64 :: "string \<Rightarrow> (int_error, 64 word) result" where
  "parse_i64 s =
     (case parse_int (- (2 ^ 63)) (2 ^ 63 - 1) s of Inl e \<Rightarrow> Inl e | Inr v \<Rightarrow> Inr (word_of_int v))"

definition parse_u32 :: "string \<Rightarrow> (int_error, nat) result" where
  "parse_u32 s = (case parse_int 0 (2 ^ 32 - 1) s of Inl e \<Rightarrow> Inl e | Inr v \<Rightarrow> Inr (nat v))"

definition show_i64 :: "64 word \<Rightarrow> string" where
  "show_i64 w = (if sint w < 0 then CHR ''-'' # show_nat (nat (- sint w)) else show_nat (nat (sint w)))"

section \<open>Floating point\<close>

definition f64_is_nan :: "f64 \<Rightarrow> bool" where
  "f64_is_nan b \<longleftrightarrow> 0x7FF0000000000000 < b AND 0x7FFFFFFFFFFFFFFF"

text \<open>The value of a number that is not NaN up to a strictly increasing map; both zeros are 0.\<close>

definition f64_rank :: "f64 \<Rightarrow> int" where
  "f64_rank b =
     (let m = uint (b AND 0x7FFFFFFFFFFFFFFF) in if bit b 63 then - m else m)"

definition f64_le :: "f64 \<Rightarrow> f64 \<Rightarrow> bool" where
  "f64_le a b \<longleftrightarrow> \<not> f64_is_nan a \<and> \<not> f64_is_nan b \<and> f64_rank a \<le> f64_rank b"

definition f64_eq :: "f64 \<Rightarrow> f64 \<Rightarrow> bool" where
  "f64_eq a b \<longleftrightarrow> \<not> f64_is_nan a \<and> \<not> f64_is_nan b \<and> f64_rank a = f64_rank b"

text \<open>Truncation of \<open>f64 as i64\<close>: NaN is 0, values out of range saturate.\<close>

definition f64_to_i64 :: "f64 \<Rightarrow> 64 word" where
  "f64_to_i64 b =
     (if f64_is_nan b then 0
      else
        let e = unat (drop_bit 52 b AND 2047);
            m = unat (b AND 0xFFFFFFFFFFFFF);
            sig = (if e = 0 then m else m + 2 ^ 52);
            v = (if 1075 \<le> e then sig * 2 ^ (e - 1075) else sig div 2 ^ (1075 - max e 1));
            i = (if bit b 63 then - int v else int v)
        in word_of_int (max (- (2 ^ 63)) (min (2 ^ 63 - 1) i)))"

fun bit_len :: "nat \<Rightarrow> nat" where
  "bit_len n = (if n = 0 then 0 else Suc (bit_len (n div 2)))"

declare bit_len.simps [simp del]

definition round_half_even :: "nat \<Rightarrow> nat \<Rightarrow> nat" where
  "round_half_even n d =
     (let q = n div d; r = 2 * (n mod d) in if d < r \<or> (r = d \<and> odd q) then q + 1 else q)"

text \<open>
  The \<open>f64\<close> nearest to \<open>num / den\<close>.  \<open>k\<close> is the binary exponent, at least that of the subnormal
  numbers; the significand is rounded to 53 bits, and a carry moves to the next exponent.
\<close>

definition round_f64 :: "bool \<Rightarrow> nat \<Rightarrow> nat \<Rightarrow> f64" where
  "round_f64 neg num den =
     (let sign = (if neg then 2 ^ 63 else 0) in
      if num = 0 then word_of_nat sign
      else
        let k0 = int (bit_len num) - int (bit_len den);
            k1 = (if 0 \<le> k0 then (if num < den * 2 ^ nat k0 then k0 - 1 else k0)
                  else (if num * 2 ^ nat (- k0) < den then k0 - 1 else k0));
            k = max k1 (- 1022);
            s = k - 52;
            q = (if 0 \<le> s then round_half_even num (den * 2 ^ nat s)
                 else round_half_even (num * 2 ^ nat (- s)) den);
            bits = nat (k + 1022) * 2 ^ 52 + q
        in word_of_nat (sign + min bits (2047 * 2 ^ 52)))"

definition i64_to_f64 :: "64 word \<Rightarrow> f64" where
  "i64_to_f64 w = round_f64 (sint w < 0) (nat \<bar>sint w\<bar>) 1"

text \<open>
  The grammar of \<open>f64::from_str\<close>: a sign, then \<open>inf\<close>, \<open>infinity\<close>, \<open>nan\<close> in any case or decimal
  digits with a point and an exponent.
\<close>

definition is_digit :: "char \<Rightarrow> bool" where
  "is_digit c \<longleftrightarrow> 48 \<le> byte_of c \<and> byte_of c \<le> 57"

definition digits_value :: "string \<Rightarrow> nat" where
  "digits_value cs = foldl (\<lambda>n c. n * 10 + (byte_of c - 48)) 0 cs"

definition parse_exponent :: "string \<Rightarrow> int option" where
  "parse_exponent s =
     (case s of
        [] \<Rightarrow> Some 0
      | c # cs \<Rightarrow>
          if c \<noteq> CHR ''e'' \<and> c \<noteq> CHR ''E'' then None
          else
            let neg = (cs \<noteq> [] \<and> hd cs = CHR ''-'');
                ds = (if cs \<noteq> [] \<and> (hd cs = CHR ''-'' \<or> hd cs = CHR ''+'') then tl cs else cs)
            in if ds = [] \<or> \<not> list_all is_digit ds then None
               else Some (if neg then - int (digits_value ds) else int (digits_value ds)))"

definition parse_decimal :: "bool \<Rightarrow> string \<Rightarrow> f64 option" where
  "parse_decimal neg s =
     (let whole = takeWhile is_digit s;
          r1 = dropWhile is_digit s;
          point = (r1 \<noteq> [] \<and> hd r1 = CHR ''.'');
          frac = (if point then takeWhile is_digit (tl r1) else []);
          r2 = (if point then dropWhile is_digit (tl r1) else r1)
      in if whole = [] \<and> frac = [] then None
         else map_option (\<lambda>e.
                let v = digits_value (whole @ frac); x = e - int (length frac)
                in if 0 \<le> x then round_f64 neg (v * 10 ^ nat x) 1 else round_f64 neg v (10 ^ nat (- x)))
              (parse_exponent r2))"

definition parse_f64 :: "string \<Rightarrow> (string, f64) result" where
  "parse_f64 s =
     (if s = [] then Inl ''cannot parse float from empty string''
      else
        let neg = (hd s = CHR ''-'');
            body = (if hd s = CHR ''-'' \<or> hd s = CHR ''+'' then tl s else s);
            low = to_ascii_lowercase body;
            sign = (if neg then 2 ^ 63 else 0) :: f64
        in case parse_decimal neg body of
             Some x \<Rightarrow> Inr x
           | None \<Rightarrow>
               if low = ''inf'' \<or> low = ''infinity'' then Inr (sign OR 0x7FF0000000000000)
               else if low = ''nan'' then Inr (sign OR 0x7FF8000000000000)
               else Inl ''invalid float literal'')"

end
