(* ===== verification/ConVar.thy ===== *)
theory ConVar
  imports Numbers Dom
begin

text \<open>
  The configuration variables of crate \<open>omp-control\<close> (\<open>convar.rs\<close>): flags, three-valued
  switches, the conversions of the trait \<open>ConVarType\<close>, and the store with its validators,
  deferred change hooks, cheat protection, hydration from the session document and the patch
  that records what changed.  A closure the host supplies is a HOL function where its result
  matters (validator, parser, serializer); a change hook only has effects, so it is a handle
  and the store carries the calls it made in the ghost field \<open>st_ran\<close>.  \<open>serde_json\<close> and the
  printing of floating-point numbers are the record \<open>text_env\<close>.
\<close>

section \<open>Flags and three-valued switches\<close>

type_synonym convar_flags = "32 word"

definition FLAG_NONE :: convar_flags where "FLAG_NONE = 0"
definition FLAG_SESSION :: convar_flags where "FLAG_SESSION = push_bit 0 1"
definition FLAG_REPLICATED :: convar_flags where "FLAG_REPLICATED = push_bit 1 1"
definition FLAG_USERINFO :: convar_flags where "FLAG_USERINFO = push_bit 2 1"
definition FLAG_ARCHIVE :: convar_flags where "FLAG_ARCHIVE = push_bit 3 1"
definition FLAG_CHEAT :: convar_flags where "FLAG_CHEAT = push_bit 4 1"
definition FLAG_NOTIFY :: convar_flags where "FLAG_NOTIFY = push_bit 5 1"
definition FLAG_READONLY :: convar_flags where "FLAG_READONLY = push_bit 6 1"
definition FLAG_INHERIT :: convar_flags where "FLAG_INHERIT = push_bit 7 1"

definition flags_contains :: "convar_flags \<Rightarrow> convar_flags \<Rightarrow> bool" where
  "flags_contains f other \<longleftrightarrow> f AND other = other"

definition flags_union :: "convar_flags \<Rightarrow> convar_flags \<Rightarrow> convar_flags" where
  "flags_union f other = f OR other"

definition flags_intersects :: "convar_flags \<Rightarrow> convar_flags \<Rightarrow> bool" where
  "flags_intersects f other \<longleftrightarrow> f AND other \<noteq> 0"

datatype tri_state = TriFalse | TriTrue | TriUnknown

fun show_tri :: "tri_state \<Rightarrow> string" where
  "show_tri TriFalse = ''0''"
| "show_tri TriTrue = ''1''"
| "show_tri TriUnknown = ''unknown''"

datatype convar_error =
    CvNotFound string
  | CvReadOnly string
  | CvCheatProtected string
  | CvInvalidValue string string
  | CvTypeMismatch string string string

fun show_convar_error :: "convar_error \<Rightarrow> string" where
  "show_convar_error (CvNotFound n) = ''convar '' @ [CHR 0x27] @ n @ [CHR 0x27] @ '' not found''"
| "show_convar_error (CvReadOnly n) = ''convar '' @ [CHR 0x27] @ n @ [CHR 0x27] @ '' is read-only''"
| "show_convar_error (CvCheatProtected n) =
     ''convar '' @ [CHR 0x27] @ n @ [CHR 0x27] @ '' is cheat-protected and cheats are not enabled''"
| "show_convar_error (CvInvalidValue n r) =
     ''invalid value for convar '' @ [CHR 0x27] @ n @ [CHR 0x27] @ '': '' @ r"
| "show_convar_error (CvTypeMismatch n e a) =
     ''type mismatch for convar '' @ [CHR 0x27] @ n @ [CHR 0x27] @ '': expected '' @ e @ '', got '' @ a"

definition quoted :: "string \<Rightarrow> string" where
  "quoted s = [CHR 0x27] @ s @ [CHR 0x27]"

definition true_words :: "string list" where "true_words = [''1'', ''true'', ''yes'', ''on'']"
definition false_words :: "string list" where "false_words = [''0'', ''false'', ''no'', ''off'']"

definition tri_of_str :: "string \<Rightarrow> (convar_error, tri_state) result" where
  "tri_of_str s =
     (let w = to_ascii_lowercase (trim s) in
      if w \<in> set true_words then Inr TriTrue
      else if w \<in> set false_words then Inr TriFalse
      else if w \<in> set [''unknown'', ''auto'', ''default'', ''?'', ''null'', ''none''] then Inr TriUnknown
      else Inl (CvInvalidValue ''tristate'' (''expected boolean or '' @ quoted ''unknown'' @ '', got '' @ quoted w)))"

section \<open>Conversions\<close>

record text_env =
  tx_parse_json :: "string \<Rightarrow> (string, json) result"
  tx_show_json :: "json \<Rightarrow> string"
  tx_show_f64 :: "f64 \<Rightarrow> string"
  tx_lower :: "string \<Rightarrow> string"

text \<open>The trait \<open>ConVarType\<close> as the record of its three functions.\<close>

record 'a convar_type =
  ct_to :: "'a \<Rightarrow> typed_value"
  ct_from :: "typed_value \<Rightarrow> (string, 'a) result"
  ct_parse :: "string \<Rightarrow> (string, 'a) result"

fun bool_from_typed :: "typed_value \<Rightarrow> (string, bool) result" where
  "bool_from_typed (TBool b) = Inr b"
| "bool_from_typed (TInteger i) = Inr (i \<noteq> 0)"
| "bool_from_typed (TString s) =
     (let w = to_ascii_lowercase (trim s) in
      if w \<in> set true_words then Inr True
      else if w \<in> set false_words then Inr False
      else if w \<in> set [''unknown'', ''auto'', ''default'', ''?'']
      then Inl (''cannot convert '' @ quoted ''unknown'' @ '' tristate to boolean; explicit value required'')
      else Inl (''cannot convert '' @ quoted s @ '' to bool''))"
| "bool_from_typed _ = Inl ''expected boolean''"

definition bool_parse_str :: "string \<Rightarrow> (string, bool) result" where
  "bool_parse_str raw =
     (let w = to_ascii_lowercase (trim raw) in
      if w \<in> set true_words then Inr True
      else if w \<in> set false_words then Inr False
      else if w \<in> set [''unknown'', ''auto'', ''default'', ''?'']
      then Inl (''cannot convert '' @ quoted ''unknown'' @ '' to boolean; explicit value required'')
      else Inl (''invalid boolean: '' @ quoted raw))"

definition bool_type :: "bool convar_type" where
  "bool_type = \<lparr>ct_to = TBool, ct_from = bool_from_typed, ct_parse = bool_parse_str\<rparr>"

definition i64_parse_str :: "string \<Rightarrow> (string, 64 word) result" where
  "i64_parse_str raw =
     map_err (\<lambda>e. ''cannot parse integer '' @ quoted raw @ '': '' @ show_int_error e) (parse_i64 (trim raw))"

fun i64_from_typed :: "typed_value \<Rightarrow> (string, 64 word) result" where
  "i64_from_typed (TInteger i) = Inr i"
| "i64_from_typed (TNumber n) = Inr (f64_to_i64 n)"
| "i64_from_typed (TString s) = i64_parse_str s"
| "i64_from_typed _ = Inl ''expected integer''"

definition i64_type :: "64 word convar_type" where
  "i64_type = \<lparr>ct_to = TInteger, ct_from = i64_from_typed, ct_parse = i64_parse_str\<rparr>"

definition f64_parse_str :: "string \<Rightarrow> (string, f64) result" where
  "f64_parse_str raw =
     map_err (\<lambda>e. ''cannot parse float '' @ quoted raw @ '': '' @ e) (parse_f64 (trim raw))"

fun f64_from_typed :: "typed_value \<Rightarrow> (string, f64) result" where
  "f64_from_typed (TNumber n) = Inr n"
| "f64_from_typed (TInteger i) = Inr (i64_to_f64 i)"
| "f64_from_typed (TString s) = f64_parse_str s"
| "f64_from_typed _ = Inl ''expected number''"

definition f64_type :: "f64 convar_type" where
  "f64_type = \<lparr>ct_to = TNumber, ct_from = f64_from_typed, ct_parse = f64_parse_str\<rparr>"

definition show_bool :: "bool \<Rightarrow> string" where
  "show_bool b = (if b then ''true'' else ''false'')"

fun string_from_typed :: "text_env \<Rightarrow> typed_value \<Rightarrow> (string, string) result" where
  "string_from_typed tx (TString s) = Inr s"
| "string_from_typed tx (TBool b) = Inr (show_bool b)"
| "string_from_typed tx (TInteger i) = Inr (show_i64 i)"
| "string_from_typed tx (TNumber n) = Inr (tx_show_f64 tx n)"
| "string_from_typed tx TNull = Inr ''''"
| "string_from_typed tx (TJson j) = Inr (tx_show_json tx j)"

definition string_type :: "text_env \<Rightarrow> string convar_type" where
  "string_type tx = \<lparr>ct_to = TString, ct_from = string_from_typed tx, ct_parse = Inr\<rparr>"

fun tri_to_typed :: "tri_state \<Rightarrow> typed_value" where
  "tri_to_typed TriFalse = TBool False"
| "tri_to_typed TriTrue = TBool True"
| "tri_to_typed TriUnknown = TString ''unknown''"

definition tri_parse_str :: "string \<Rightarrow> (string, tri_state) result" where
  "tri_parse_str raw = map_err show_convar_error (tri_of_str raw)"

fun tri_from_typed :: "typed_value \<Rightarrow> (string, tri_state) result" where
  "tri_from_typed (TBool b) = Inr (if b then TriTrue else TriFalse)"
| "tri_from_typed (TString s) = tri_parse_str s"
| "tri_from_typed (TInteger i) =
     (if i = 0 then Inr TriFalse else if i = 1 then Inr TriTrue
      else Inl (''tristate integer must be 0 or 1, got '' @ show_i64 i))"
| "tri_from_typed TNull = Inr TriUnknown"
| "tri_from_typed _ = Inl ''expected tristate value''"

definition tri_type :: "tri_state convar_type" where
  "tri_type = \<lparr>ct_to = tri_to_typed, ct_from = tri_from_typed, ct_parse = tri_parse_str\<rparr>"

definition opt_i64_to_typed :: "64 word option \<Rightarrow> typed_value" where
  "opt_i64_to_typed x = (case x of Some i \<Rightarrow> TInteger i | None \<Rightarrow> TNull)"

definition opt_i64_parse_str :: "string \<Rightarrow> (string, 64 word option) result" where
  "opt_i64_parse_str raw =
     (let t = trim raw in
      if t = [] \<or> to_ascii_lowercase t = ''null'' \<or> to_ascii_lowercase t = ''none'' then Inr None
      else try_bind
             (map_err (\<lambda>e. ''cannot parse integer '' @ quoted raw @ '': '' @ show_int_error e) (parse_i64 t))
             (\<lambda>i. Inr (Some i)))"

fun opt_i64_from_typed :: "typed_value \<Rightarrow> (string, 64 word option) result" where
  "opt_i64_from_typed TNull = Inr None"
| "opt_i64_from_typed (TInteger i) = Inr (Some i)"
| "opt_i64_from_typed (TNumber n) = Inr (Some (f64_to_i64 n))"
| "opt_i64_from_typed (TString s) = opt_i64_parse_str s"
| "opt_i64_from_typed _ = Inl ''expected nullable integer''"

definition opt_i64_type :: "64 word option convar_type" where
  "opt_i64_type = \<lparr>ct_to = opt_i64_to_typed, ct_from = opt_i64_from_typed, ct_parse = opt_i64_parse_str\<rparr>"

definition json_to_typed :: "json \<Rightarrow> typed_value" where
  "json_to_typed j = (if j = JNull then TNull else TJson j)"

definition json_parse_str :: "text_env \<Rightarrow> string \<Rightarrow> (string, json) result" where
  "json_parse_str tx raw =
     (let t = trim raw in
      if t = [] \<or> to_ascii_lowercase t = ''null'' then Inr JNull
      else map_err (\<lambda>e. ''cannot parse JSON '' @ quoted raw @ '': '' @ e) (tx_parse_json tx t))"

definition json_of_i64 :: "64 word \<Rightarrow> json" where
  "json_of_i64 i = JNumber (if sint i < 0 then NegInt i else PosInt i)"

definition json_of_f64 :: "f64 \<Rightarrow> json" where
  "json_of_f64 n = (if f64_is_finite n then JNumber (JFloat n) else JNull)"

fun json_from_typed :: "text_env \<Rightarrow> typed_value \<Rightarrow> (string, json) result" where
  "json_from_typed tx TNull = Inr JNull"
| "json_from_typed tx (TJson j) = Inr j"
| "json_from_typed tx (TString s) = json_parse_str tx s"
| "json_from_typed tx (TBool b) = Inr (JBool b)"
| "json_from_typed tx (TInteger i) = Inr (json_of_i64 i)"
| "json_from_typed tx (TNumber n) = Inr (json_of_f64 n)"

definition json_type :: "text_env \<Rightarrow> json convar_type" where
  "json_type tx = \<lparr>ct_to = json_to_typed, ct_from = json_from_typed tx, ct_parse = json_parse_str tx\<rparr>"

section \<open>Definitions and the store\<close>

type_synonym hook = nat

record convar_definition =
  df_name :: string
  df_help :: string
  df_flags :: convar_flags
  df_default :: typed_value
  df_validator :: "(typed_value \<Rightarrow> (string, unit) result) option"
  df_serializer :: "(typed_value \<Rightarrow> string) option"
  df_hook :: "hook option"
  df_parser :: "(string \<Rightarrow> (string, typed_value) result) option"

definition new_definition :: "string \<Rightarrow> typed_value \<Rightarrow> string \<Rightarrow> convar_flags \<Rightarrow> convar_definition" where
  "new_definition name dflt help flags =
     \<lparr>df_name = name, df_help = help, df_flags = flags, df_default = dflt, df_validator = None,
      df_serializer = None, df_hook = None, df_parser = None\<rparr>"

text \<open>A typed declaration \<open>ConVar<T>\<close>; \<open>cv_validator\<close> is set by \<open>with_validator\<close>, and so on.\<close>

record 'a convar =
  cv_name :: string
  cv_default :: 'a
  cv_help :: string
  cv_flags :: convar_flags
  cv_validator :: "(typed_value \<Rightarrow> (string, unit) result) option"
  cv_serializer :: "(typed_value \<Rightarrow> string) option"
  cv_hook :: "hook option"

definition new_convar :: "string \<Rightarrow> 'a \<Rightarrow> string \<Rightarrow> convar_flags \<Rightarrow> 'a convar" where
  "new_convar name dflt help flags =
     \<lparr>cv_name = name, cv_default = dflt, cv_help = help, cv_flags = flags, cv_validator = None,
      cv_serializer = None, cv_hook = None\<rparr>"

definition with_validator :: "'a convar \<Rightarrow> (typed_value \<Rightarrow> (string, unit) result) \<Rightarrow> 'a convar" where
  "with_validator cv v = cv\<lparr>cv_validator := Some v\<rparr>"

definition to_definition :: "'a convar_type \<Rightarrow> 'a convar \<Rightarrow> convar_definition" where
  "to_definition T cv =
     (new_definition (cv_name cv) (ct_to T (cv_default cv)) (cv_help cv) (cv_flags cv))
       \<lparr>df_validator := cv_validator cv, df_serializer := cv_serializer cv, df_hook := cv_hook cv,
        df_parser := Some (\<lambda>s. try_bind (ct_parse T s) (\<lambda>v. Inr (ct_to T v)))\<rparr>"

record convar_store =
  st_definitions :: "(string, convar_definition) fmap"
  st_values :: "(string, typed_value) fmap"
  st_dirty :: "string fset"
  st_cheats :: bool
  st_defer :: bool
  st_pending :: "(hook \<times> typed_value \<times> typed_value) list"
  st_ran :: "(hook \<times> typed_value \<times> typed_value) list"

definition new_store :: convar_store where
  "new_store =
     \<lparr>st_definitions = fmempty, st_values = fmempty, st_dirty = {||}, st_cheats = False,
      st_defer = False, st_pending = [], st_ran = []\<rparr>"

definition set_cheats_enabled :: "convar_store \<Rightarrow> bool \<Rightarrow> convar_store" where
  "set_cheats_enabled st b = st\<lparr>st_cheats := b\<rparr>"

definition begin_transaction :: "convar_store \<Rightarrow> convar_store" where
  "begin_transaction st = st\<lparr>st_defer := True, st_pending := []\<rparr>"

definition commit_transaction :: "convar_store \<Rightarrow> convar_store" where
  "commit_transaction st =
     st\<lparr>st_defer := False, st_pending := [], st_ran := st_ran st @ st_pending st\<rparr>"

definition register_def :: "convar_definition \<Rightarrow> convar_store \<Rightarrow> convar_store" where
  "register_def d st =
     st\<lparr>st_values := (if df_name d |\<in>| fmdom (st_values st) then st_values st
                      else fmupd (df_name d) (df_default d) (st_values st)),
        st_definitions := fmupd (df_name d) d (st_definitions st)\<rparr>"

definition register :: "'a convar_type \<Rightarrow> 'a convar \<Rightarrow> convar_store \<Rightarrow> convar_store" where
  "register T cv st = register_def (to_definition T cv) st"

definition get_typed :: "string \<Rightarrow> 'a convar_type \<Rightarrow> convar_store \<Rightarrow> string \<Rightarrow> (convar_error, 'a) result" where
  "get_typed type_name T st name =
     try_bind (ok_or (CvNotFound name) (fmlookup (st_values st) name)) (\<lambda>v.
       map_err (\<lambda>e. CvTypeMismatch name type_name e) (ct_from T v))"

section \<open>Setting values\<close>

text \<open>\<open>compatible\<close> of \<open>set\<close>: the variant of the value is that of the default.\<close>

fun compatible :: "typed_value \<Rightarrow> typed_value \<Rightarrow> bool" where
  "compatible TNull _ = True"
| "compatible (TBool _) (TBool _) = True"
| "compatible (TInteger _) (TInteger _) = True"
| "compatible (TNumber _) (TNumber _) = True"
| "compatible (TString _) (TString _) = True"
| "compatible (TJson _) (TJson _) = True"
| "compatible (TString d) (TBool _) \<longleftrightarrow> d = ''unknown''"
| "compatible _ _ = False"

definition truthy :: "typed_value \<Rightarrow> bool" where
  "truthy v =
     (case v of
        TBool b \<Rightarrow> b
      | TInteger i \<Rightarrow> i \<noteq> 0
      | TString s \<Rightarrow> to_ascii_lowercase s \<in> set true_words
      | _ \<Rightarrow> False)"

text \<open>The guards \<open>set\<close>, \<open>set_from_str\<close> and \<open>reset\<close> share.\<close>

definition writable_def :: "convar_store \<Rightarrow> string \<Rightarrow> (convar_error, convar_definition) result" where
  "writable_def st name =
     try_bind (ok_or (CvNotFound name) (fmlookup (st_definitions st) name)) (\<lambda>d.
       if flags_contains (df_flags d) FLAG_READONLY then Inl (CvReadOnly name)
       else if flags_contains (df_flags d) FLAG_CHEAT \<and> \<not> st_cheats st then Inl (CvCheatProtected name)
       else Inr d)"

definition run_hook :: "convar_definition \<Rightarrow> typed_value \<Rightarrow> typed_value \<Rightarrow> convar_store \<Rightarrow> convar_store" where
  "run_hook d old_val new_val st =
     (case df_hook d of
        None \<Rightarrow> st
      | Some h \<Rightarrow>
          if st_defer st then st\<lparr>st_pending := st_pending st @ [(h, old_val, new_val)]\<rparr>
          else st\<lparr>st_ran := st_ran st @ [(h, old_val, new_val)]\<rparr>)"

definition store_value :: "convar_definition \<Rightarrow> string \<Rightarrow> typed_value \<Rightarrow> convar_store \<Rightarrow> convar_store" where
  "store_value d name v st =
     (let old_val = (case fmlookup (st_values st) name of Some x \<Rightarrow> x | None \<Rightarrow> TNull);
          st1 = run_hook d old_val v st;
          st2 = (if flags_contains (df_flags d) FLAG_SESSION
                 then st1\<lparr>st_dirty := finsert name (st_dirty st1)\<rparr> else st1);
          st3 = (if name = ''sv_cheats'' then st2\<lparr>st_cheats := truthy v\<rparr> else st2)
      in st3\<lparr>st_values := fmupd name v (st_values st3)\<rparr>)"

definition convar_set ::
  "convar_store \<Rightarrow> string \<Rightarrow> typed_value \<Rightarrow> convar_store \<times> (convar_error, typed_value) result" where
  "convar_set st name v =
     (case writable_def st name of
        Inl e \<Rightarrow> (st, Inl e)
      | Inr d \<Rightarrow>
          if \<not> compatible (df_default d) v
          then (st, Inl (CvInvalidValue name ''value does not match the declared type''))
          else (case (case df_validator d of None \<Rightarrow> Inr () | Some check \<Rightarrow> check v) of
              Inl r \<Rightarrow> (st, Inl (CvInvalidValue name r))
            | Inr _ \<Rightarrow> (store_value d name v st, Inr v)))"

text \<open>
  A string default accepts any text; the word \<open>unknown\<close> is normalised, in whatever case it is
  written.
\<close>

definition parse_by_default :: "text_env \<Rightarrow> typed_value \<Rightarrow> string \<Rightarrow> (string, typed_value) result" where
  "parse_by_default tx dflt raw =
     (case dflt of
        TBool _ \<Rightarrow> try_bind (bool_parse_str raw) (\<lambda>b. Inr (TBool b))
      | TInteger _ \<Rightarrow> try_bind (i64_parse_str raw) (\<lambda>i. Inr (TInteger i))
      | TNumber _ \<Rightarrow> try_bind (f64_parse_str raw) (\<lambda>n. Inr (TNumber n))
      | TString _ \<Rightarrow>
          (case tri_of_str raw of
             Inr t \<Rightarrow> Inr (if to_ascii_lowercase (trim raw) = ''unknown'' then tri_to_typed t else TString raw)
           | Inl _ \<Rightarrow> Inr (TString raw))
      | TNull \<Rightarrow> Inr (TString raw)
      | TJson _ \<Rightarrow> try_bind (tx_parse_json tx raw) (\<lambda>j. Inr (TJson j)))"

definition set_from_str ::
  "text_env \<Rightarrow> convar_store \<Rightarrow> string \<Rightarrow> string \<Rightarrow> convar_store \<times> (convar_error, typed_value) result" where
  "set_from_str tx st name raw =
     (case writable_def st name of
        Inl e \<Rightarrow> (st, Inl e)
      | Inr d \<Rightarrow>
          (case map_err (CvInvalidValue name)
                  (case df_parser d of Some p \<Rightarrow> p raw | None \<Rightarrow> parse_by_default tx (df_default d) raw) of
             Inl e \<Rightarrow> (st, Inl e)
           | Inr v \<Rightarrow> convar_set st name v))"

definition convar_reset :: "convar_store \<Rightarrow> string \<Rightarrow> convar_store \<times> (convar_error, typed_value) result" where
  "convar_reset st name =
     (case writable_def st name of
        Inl e \<Rightarrow> (st, Inl e)
      | Inr d \<Rightarrow> convar_set st name (df_default d))"

text \<open>\<open>iter()\<close>: every declared variable with its effective value, in key order.\<close>

definition convar_iter :: "convar_store \<Rightarrow> (string \<times> convar_definition \<times> typed_value) list" where
  "convar_iter st =
     map (\<lambda>(k, d). (k, d, case fmlookup (st_values st) k of Some v \<Rightarrow> v | None \<Rightarrow> df_default d))
       (sorted_list_of_fmap (st_definitions st))"

section \<open>The session document\<close>

definition hydrate_values ::
  "(string, typed_value) fmap \<Rightarrow> (string \<times> convar_definition) list
   \<Rightarrow> (string, typed_value) fmap \<Rightarrow> (string, typed_value) fmap" where
  "hydrate_values globals defs vs =
     fold (\<lambda>(name, d) vs.
         if flags_contains (df_flags d) FLAG_SESSION
         then fmupd name (case fmlookup globals name of Some v \<Rightarrow> v | None \<Rightarrow> df_default d) vs
         else vs) defs vs"

text \<open>\<open>None\<close> is the panic of \<open>session_globals\<close> when the container is missing.\<close>

definition convar_hydrate :: "convar_store \<Rightarrow> session_snapshot \<Rightarrow> convar_store option" where
  "convar_hydrate st s =
     map_option (\<lambda>globals.
         let vs = hydrate_values globals (sorted_list_of_fmap (st_definitions st)) (st_values st)
         in st\<lparr>st_values := vs,
               st_cheats := (case fmlookup vs ''sv_cheats'' of Some v \<Rightarrow> truthy v | None \<Rightarrow> False),
               st_pending := [], st_defer := False, st_dirty := {||}\<rparr>)
       (session_globals s)"

lemma map_filter_append [simp]: "List.map_filter f (xs @ ys) = List.map_filter f xs @ List.map_filter f ys"
  by (induction xs) (auto simp: List.map_filter_simps split: option.splits)

definition drain_session_patch ::
  "convar_store \<Rightarrow> journal_offset \<Rightarrow> journal_offset \<Rightarrow> actor_id \<Rightarrow> element_id \<Rightarrow> convar_store \<times> patch option" where
  "drain_session_patch st base_off result_off a k =
     (if st_dirty st = {||} then (st, None)
      else (st\<lparr>st_dirty := {||}\<rparr>,
        Some \<lparr>base_offset = base_off, result_offset = result_off, patch_by = Actor a,
              reason = ''convar session mutation'',
              ops = List.map_filter (\<lambda>key. map_option (SetAttribute k key) (fmlookup (st_values st) key))
                      (sorted_list_of_fset (st_dirty st))\<rparr>))"

definition seed_child :: "convar_store \<Rightarrow> convar_store" where
  "seed_child st =
     st\<lparr>st_dirty := fset_of_list (map fst (filter (\<lambda>(_, d). flags_contains (df_flags d) FLAG_SESSION)
                       (sorted_list_of_fmap (st_definitions st)))),
        st_defer := False, st_pending := [], st_ran := []\<rparr>"

section \<open>The built-in variables\<close>

definition check_that :: "(typed_value \<Rightarrow> bool) \<Rightarrow> string \<Rightarrow> typed_value \<Rightarrow> (string, unit) result" where
  "check_that P msg v = (if P v then Inr () else Inl msg)"

definition f64_within :: "f64 \<Rightarrow> f64 \<Rightarrow> typed_value \<Rightarrow> bool" where
  "f64_within lo hi v = (case v of TNumber n \<Rightarrow> f64_le lo n \<and> f64_le n hi | _ \<Rightarrow> False)"

definition positive_integer :: "typed_value \<Rightarrow> bool" where
  "positive_integer v = (case v of TInteger i \<Rightarrow> 0 < sint i | _ \<Rightarrow> False)"

definition null_or_positive :: "typed_value \<Rightarrow> bool" where
  "null_or_positive v = (v = TNull \<or> positive_integer v)"

definition one_of :: "string list \<Rightarrow> typed_value \<Rightarrow> bool" where
  "one_of words v = (case v of TString s \<Rightarrow> s \<in> set words | _ \<Rightarrow> False)"

definition null_or_json :: "typed_value \<Rightarrow> bool" where
  "null_or_json v = (case v of TNull \<Rightarrow> True | TJson _ \<Rightarrow> True | _ \<Rightarrow> False)"

definition session_replicated :: convar_flags where
  "session_replicated = flags_union FLAG_SESSION FLAG_REPLICATED"

definition client_archived :: convar_flags where
  "client_archived = flags_union (flags_union FLAG_SESSION FLAG_USERINFO) FLAG_ARCHIVE"

definition builtin_definitions :: "text_env \<Rightarrow> convar_definition list" where
  "builtin_definitions tx =
    [to_definition (string_type tx)
       (new_convar ''ai_model'' ''''
        ''Active inference model identifier'' session_replicated),
     to_definition (string_type tx)
       (new_convar ''ai_provider'' ''''
        ''Active inference provider adapter'' session_replicated),
     to_definition (string_type tx)
       (new_convar ''ai_endpoint'' ''''
        ''Custom API endpoint for active inference provider'' session_replicated),
     to_definition (string_type tx)
       (new_convar ''ai_api_key_env'' ''''
        ''Host environment variable name referencing provider API key'' session_replicated),
     to_definition (string_type tx)
       (new_convar ''ai_thinking'' ''auto''
        ''Reasoning effort: 'auto' (provider default), 'off', or a level the model advertises (/effort)'' session_replicated),
     to_definition (json_type tx) (with_validator
       (new_convar ''ai_thinking_levels'' JNull
        ''Supported thinking/reasoning effort levels advertised by provider metadata'' (flags_union session_replicated FLAG_READONLY))
        (check_that null_or_json ''ai_thinking_levels must be JSON or null'')),
     to_definition bool_type
       (new_convar ''ai_fastmode'' False
        ''Fast mode inference toggle'' session_replicated),
     to_definition f64_type (with_validator
       (new_convar ''ai_temperature'' 0x3FE6666666666666
        ''Sampling temperature'' session_replicated)
        (check_that (f64_within 0 0x4000000000000000) ''ai_temperature must be between 0.0 and 2.0'')),
     to_definition opt_i64_type (with_validator
       (new_convar ''ai_max_tokens'' None
        ''Maximum completion tokens per turn (positive integer or null)'' session_replicated)
        (check_that null_or_positive ''ai_max_tokens must be positive or null'')),
     to_definition opt_i64_type (with_validator
       (new_convar ''ai_context_length'' None
        ''Nominal context window token length advertised by provider metadata'' (flags_union session_replicated FLAG_READONLY))
        (check_that null_or_positive ''ai_context_length must be positive or null'')),
     to_definition f64_type (with_validator
       (new_convar ''ai_compaction_threshold'' 0x3FE999999999999A
        ''Fraction of the advertised context window at which older turns are elided'' session_replicated)
        (check_that (f64_within 0 0x3FF0000000000000) ''ai_compaction_threshold must be between 0.0 and 1.0'')),
     to_definition bool_type
       (new_convar ''cl_showthinking'' True
        ''Show thinking/reasoning blocks in the client interface'' client_archived),
     to_definition (string_type tx)
       (new_convar ''cl_theme'' ''default''
        ''Active client color theme'' client_archived),
     to_definition (string_type tx) (with_validator
       (new_convar ''cl_icon_mode'' ''unicode''
        ''Icon presentation mode (unicode/nerd/ascii)'' client_archived)
        (check_that (one_of [''unicode'', ''nerd'', ''ascii'']) (''cl_icon_mode must be '' @ quoted ''unicode'' @ '', '' @ quoted ''nerd'' @ '', or '' @ quoted ''ascii''))),
     to_definition (string_type tx) (with_validator
       (new_convar ''cl_resize_policy'' ''rebuild''
        ''Terminal resize policy (rebuild/preserve/append)'' client_archived)
        (check_that (one_of [''rebuild'', ''preserve'', ''append'']) (''cl_resize_policy must be '' @ quoted ''rebuild'' @ '', '' @ quoted ''preserve'' @ '', or '' @ quoted ''append''))),
     to_definition bool_type
       (new_convar ''sandbox_network'' False
        ''Permit network access in sandbox jobs'' session_replicated),
     to_definition (string_type tx) (with_validator
       (new_convar ''sandbox_write_scope'' ''workspace''
        ''Filesystem write boundary for sandbox jobs (workspace/none)'' session_replicated)
        (check_that (one_of [''workspace'', ''none'']) ''sandbox_write_scope must be workspace or none'')),
     to_definition i64_type (with_validator
       (new_convar ''job_max_concurrency'' 4
        ''Maximum concurrent background jobs'' session_replicated)
        (check_that positive_integer ''job_max_concurrency must be positive'')),
     to_definition i64_type (with_validator
       (new_convar ''tool_max_output_bytes'' 1048576
        ''Maximum allowed output bytes for a tool before truncation'' session_replicated)
        (check_that positive_integer ''tool_max_output_bytes must be positive'')),
     to_definition (string_type tx)
       (new_convar ''ai_provider_name'' ''''
        ''Name of the active provider in the session's provider registry'' session_replicated),
     to_definition i64_type (with_validator
       (new_convar ''ai_request_timeout_secs'' 300
        ''Idle budget in seconds for a provider request before the stream is treated as stalled'' session_replicated)
        (check_that (\<lambda>v. case v of TInteger i \<Rightarrow> 10 \<le> sint i \<and> sint i \<le> 1800 | _ \<Rightarrow> False) ''ai_request_timeout_secs must be between 10 and 1800'')),
     to_definition i64_type (with_validator
       (new_convar ''tool_max_runtime_ms'' 300000
        ''Maximum runtime in milliseconds for a tool before timeout'' session_replicated)
        (check_that positive_integer ''tool_max_runtime_ms must be positive'')),
     to_definition bool_type
       (new_convar ''sv_cheats'' False
        ''Enable privileged/cheat commands and convars'' (flags_union FLAG_SESSION FLAG_NOTIFY))]"

definition register_builtin_convars :: "text_env \<Rightarrow> convar_store \<Rightarrow> convar_store" where
  "register_builtin_convars tx st = fold register_def (builtin_definitions tx) st"

end
