(* ===== verification/Command.thy ===== *)
theory Command
  imports ConVar
begin

text \<open>
  The command language of crate \<open>omp-control\<close> (\<open>command.rs\<close>): splitting a script into
  statements, splitting a statement into tokens, and parsing the tokens.  The source walks over
  the characters of a UTF-8 string; every character it treats specially is ASCII or white
  space, so the model walks over the bytes.
\<close>

section \<open>Commands and errors\<close>

datatype provider_action =
    PaShow
  | PaRefresh
  | PaConfigure string string string "string option"
  | PaSelect string
  | PaList
  | PaAdd string string string string "string option"
  | PaUse string
  | PaRemove string

fun is_pure_configuration :: "provider_action \<Rightarrow> bool" where
  "is_pure_configuration (PaAdd _ _ _ _ _) = True"
| "is_pure_configuration (PaRemove _) = True"
| "is_pure_configuration PaList = True"
| "is_pure_configuration _ = False"

datatype command =
    SetConVar string string
  | GetConVar string
  | BindKey string string
  | Unbind string
  | Toggle string "string list"
  | Alias string string
  | Unalias string
  | Exec string
  | Echo string
  | Force string "string option" "nat option"
  | Effort "string option"
  | ToolCall string json
  | DynDiscovery "string option" "string option" bool
  | CancelJob string
  | Provider provider_action
  | Custom string "string list"

datatype command_error =
    CmParse string
  | CmConVar convar_error
  | CmRecursionLimit string nat
  | CmExpansionLimit nat nat
  | CmUnknown string
  | CmMissing string string

fun convar_error_code :: "convar_error \<Rightarrow> string" where
  "convar_error_code (CvNotFound _) = ''cmd_convar_not_found''"
| "convar_error_code (CvReadOnly _) = ''cmd_convar_read_only''"
| "convar_error_code (CvCheatProtected _) = ''cmd_cheat_protected''"
| "convar_error_code (CvInvalidValue _ _) = ''cmd_convar_invalid_value''"
| "convar_error_code (CvTypeMismatch _ _ _) = ''cmd_convar_type_mismatch''"

fun command_structured :: "command_error \<Rightarrow> structured_error" where
  "command_structured (CmParse m) = new_error ''cmd_parse_error'' m False"
| "command_structured (CmConVar e) = new_error (convar_error_code e) (show_convar_error e) False"
| "command_structured (CmRecursionLimit name depth) =
     new_error ''cmd_recursion_limit''
       (''alias recursion limit exceeded at depth '' @ show_nat depth @ '' on '' @ quoted name) False"
| "command_structured (CmExpansionLimit bytes limit) =
     new_error ''cmd_expansion_limit''
       (''expansion budget exceeded: '' @ show_nat bytes @ '' bytes > '' @ show_nat limit @ '' max'') False"
| "command_structured (CmUnknown c) = new_error ''cmd_unknown'' (''unknown command: '' @ c) False"
| "command_structured (CmMissing c a) =
     new_error ''cmd_missing_arg'' (''command '' @ quoted c @ '' missing argument: '' @ a) False"

section \<open>Statements\<close>

definition NL :: char where "NL = CHR 0x0A"
definition BACKSLASH :: char where "BACKSLASH = CHR 0x5C"
definition DQUOTE :: char where "DQUOTE = CHR 0x22"

definition skip_line :: "string \<Rightarrow> string" where
  "skip_line s = drop 1 (dropWhile (\<lambda>c. c \<noteq> NL) s)"

lemma skip_line_length: "length (skip_line s) \<le> length s"
  unfolding skip_line_def by (simp add: le_diff_conv le_SucI length_dropWhile_le)

definition statement_of :: "string \<Rightarrow> string list" where
  "statement_of cur = (if trim cur \<noteq> [] then [trim cur] else [])"

text \<open>A comment ends a statement; a \<open>current\<close> that is only white space survives it.\<close>

function split_loop :: "string \<Rightarrow> string \<Rightarrow> bool \<Rightarrow> string list" where
  "split_loop [] cur q = statement_of cur"
| "split_loop (c # cs) cur q =
     (if c = BACKSLASH then
        (case cs of
           [] \<Rightarrow> split_loop [] (cur @ [BACKSLASH]) q
         | n # cs' \<Rightarrow> split_loop cs' (cur @ [BACKSLASH, n]) q)
      else if c = DQUOTE then split_loop cs (cur @ [DQUOTE]) (\<not> q)
      else if c = CHR ''/'' \<and> \<not> q \<and> cs \<noteq> [] \<and> hd cs = CHR ''/'' \<and> (cur = [] \<or> white_suffix_len cur \<noteq> 0)
      then statement_of cur @ split_loop (skip_line (tl cs)) (if trim cur \<noteq> [] then [] else cur) q
      else if c = CHR ''#'' \<and> \<not> q
      then statement_of cur @ split_loop (skip_line cs) (if trim cur \<noteq> [] then [] else cur) q
      else if (c = CHR '';'' \<or> c = NL \<or> c = CHR 0x0D) \<and> \<not> q
      then statement_of cur @ split_loop cs [] q
      else split_loop cs (cur @ [c]) q)"
  by pat_completeness auto
termination
  by (relation "measure (\<lambda>(cs, _, _). length cs)")
    (auto simp: less_Suc_eq_le intro: skip_line_length le_trans[OF skip_line_length])

declare split_loop.simps [simp del]

definition split_statements :: "string \<Rightarrow> string list" where
  "split_statements s = split_loop s [] False"

section \<open>Tokens\<close>

definition unescape :: "char \<Rightarrow> string" where
  "unescape n =
     (if n = CHR ''n'' then [NL] else if n = CHR ''t'' then [CHR 0x09] else if n = CHR ''r'' then [CHR 0x0D]
      else if n = DQUOTE then [DQUOTE] else if n = BACKSLASH then [BACKSLASH] else [BACKSLASH, n])"

function token_loop :: "string \<Rightarrow> string \<Rightarrow> bool \<Rightarrow> string list \<Rightarrow> (command_error, string list) result" where
  "token_loop [] cur q ts =
     (if q then Inl (CmParse ''unclosed quote in command'')
      else Inr (if cur \<noteq> [] then ts @ [cur] else ts))"
| "token_loop (c # cs) cur q ts =
     (if c = BACKSLASH then
        (case cs of
           [] \<Rightarrow> token_loop [] (cur @ [BACKSLASH]) q ts
         | n # cs' \<Rightarrow> token_loop cs' (cur @ unescape n) q ts)
      else if c = DQUOTE then token_loop cs cur (\<not> q) ts
      else if white_len (c # cs) \<noteq> 0 \<and> \<not> q
      then token_loop (drop (white_len (c # cs)) (c # cs)) [] q (if cur \<noteq> [] then ts @ [cur] else ts)
      else token_loop cs (cur @ [c]) q ts)"
  by pat_completeness auto
termination
  by (relation "measure (\<lambda>(cs, _, _, _). length cs)") (auto simp del: white_len.simps)

declare token_loop.simps [simp del]

definition tokenize_line :: "string \<Rightarrow> (command_error, string list) result" where
  "tokenize_line s = token_loop s [] False []"

fun join_words :: "string \<Rightarrow> string list \<Rightarrow> string" where
  "join_words sep [] = []"
| "join_words sep [w] = w"
| "join_words sep (w # v # ws) = w @ sep @ join_words sep (v # ws)"

section \<open>Parsing\<close>

definition starts_with :: "string \<Rightarrow> string \<Rightarrow> bool" where
  "starts_with p s \<longleftrightarrow> take (length p) s = p"

fun contains_str :: "string \<Rightarrow> string \<Rightarrow> bool" where
  "contains_str p [] \<longleftrightarrow> p = []"
| "contains_str p (c # cs) \<longleftrightarrow> starts_with p (c # cs) \<or> contains_str p cs"

definition endpoint_default_adapter :: "string \<Rightarrow> string" where
  "endpoint_default_adapter endpoint =
     (if starts_with ''https://api.anthropic.com/'' endpoint then ''anthropic'' else ''openai_compatible'')"

definition is_allowed_key_env :: "string \<Rightarrow> bool" where
  "is_allowed_key_env name \<longleftrightarrow>
     name \<in> set [''OMP_API_KEY'', ''ANTHROPIC_API_KEY'', ''OPENAI_API_KEY'', ''OPENAI_COMPATIBLE_API_KEY'']
     \<or> starts_with ''OMP_TEST_'' name \<and> contains_str ''KEY'' name"

fun provider_options ::
  "string list \<Rightarrow> string list \<Rightarrow> string \<times> string \<times> string option
   \<Rightarrow> (command_error, string \<times> string \<times> string option) result" where
  "provider_options seen [] acc = Inr acc"
| "provider_options seen [x] acc = Inl (CmParse ''provider option needs a value'')"
| "provider_options seen (k # v # rest) (adapter, key_env, model) =
     (if k \<in> set seen then Inl (CmParse ''duplicate provider option'')
      else if k = ''--adapter'' then provider_options (k # seen) rest (v, key_env, model)
      else if k = ''--key-env'' then
        (if \<not> is_allowed_key_env v
         then Inl (CmParse ''key-env must be OMP_API_KEY, ANTHROPIC_API_KEY, OPENAI_API_KEY, or OPENAI_COMPATIBLE_API_KEY'')
         else provider_options (k # seen) rest (adapter, v, model))
      else if k = ''--model'' then provider_options (k # seen) rest (adapter, key_env, Some v)
      else Inl (CmParse ''unknown provider option; use /provider --help''))"

definition parse_provider_options ::
  "string \<Rightarrow> string list \<Rightarrow> (command_error, string \<times> string \<times> string option) result" where
  "parse_provider_options adapter options = provider_options [] options (adapter, ''OMP_API_KEY'', None)"

definition provider_usage :: string where
  "provider_usage = ''Usage: /provider [list | add <name> <endpoint> [--adapter <dialect>] [--key-env <ENV>] [--model <id>] | use <name> | remove <name> | refresh | select <id> | <endpoint> [options]]. Providers are recorded in the session, so switching costs no retyping; the model list names the provider each model came from. Default dialect: OpenAI-compatible; key: OMP_API_KEY. Never paste API keys into commands. Reasoning effort: /effort <level>.''"

definition parse_provider :: "string list \<Rightarrow> (command_error, command) result" where
  "parse_provider args =
     (case args of
        [] \<Rightarrow> Inr (Provider PaShow)
      | sub # rest \<Rightarrow>
          if sub = ''refresh'' \<and> rest = [] then Inr (Provider PaRefresh)
          else if sub = ''select'' \<and> length rest = 1 then Inr (Provider (PaSelect (hd rest)))
          else if sub = ''list'' \<and> rest = [] then Inr (Provider PaList)
          else if sub = ''use'' \<and> length rest = 1 then Inr (Provider (PaUse (hd rest)))
          else if sub = ''remove'' \<and> length rest = 1 then Inr (Provider (PaRemove (hd rest)))
          else if sub = ''add'' \<and> 2 \<le> length rest
          then try_bind (parse_provider_options (endpoint_default_adapter (rest ! 1)) (drop 2 rest))
                 (\<lambda>(adapter, key_env, model). Inr (Provider (PaAdd (rest ! 0) (rest ! 1) adapter key_env model)))
          else if sub = ''--help'' \<or> sub = ''help'' then Inr (Echo provider_usage)
          else try_bind (parse_provider_options (endpoint_default_adapter sub) rest)
                 (\<lambda>(adapter, key_env, model). Inr (Provider (PaConfigure sub adapter key_env model))))"

text \<open>
  \<open>force write Please call write 3\<close>: a trailing number is the number of attempts when at least
  one word stands between it and the tool.
\<close>

definition parse_force :: "string list \<Rightarrow> (command_error, command) result" where
  "parse_force args =
     (case args of
        [] \<Rightarrow> Inl (CmMissing ''force'' ''tool'')
      | tool # words \<Rightarrow>
          if words = [] then Inr (Force tool None None)
          else if 2 \<le> length words \<and> is_ok (parse_u32 (last words))
          then Inr (Force tool (Some (join_words '' '' (butlast words)))
                 (case parse_u32 (last words) of Inr n \<Rightarrow> Some n | Inl _ \<Rightarrow> None))
          else Inr (Force tool (Some (join_words '' '' words)) None))"

definition need_arg :: "string \<Rightarrow> string \<Rightarrow> string list \<Rightarrow> (string \<Rightarrow> string list \<Rightarrow> (command_error, command) result)
   \<Rightarrow> (command_error, command) result" where
  "need_arg cmd arg args k = (case args of [] \<Rightarrow> Inl (CmMissing cmd arg) | a # rest \<Rightarrow> k a rest)"

definition parse_tool :: "text_env \<Rightarrow> string \<Rightarrow> string list \<Rightarrow> (command_error, command) result" where
  "parse_tool tx name words =
     (case tx_parse_json tx (if words = [] then ''{}'' else join_words '' '' words) of
        Inl e \<Rightarrow> Inl (CmParse (''tool input is not valid JSON: '' @ e @ ''; quote the argument or pass {}''))
      | Inr j \<Rightarrow> Inr (ToolCall name j))"

definition parse_tokens :: "text_env \<Rightarrow> string \<Rightarrow> string list \<Rightarrow> (command_error, command) result" where
  "parse_tokens tx verb args =
     (let v = to_ascii_lowercase verb in
      if v = ''bind'' then need_arg ''bind'' ''key'' args (\<lambda>a rest. Inr (BindKey a (join_words '' '' rest)))
      else if v = ''unbind'' then need_arg ''unbind'' ''key'' args (\<lambda>a _. Inr (Unbind a))
      else if v = ''toggle'' then need_arg ''toggle'' ''name'' args (\<lambda>a rest. Inr (Toggle a rest))
      else if v = ''alias'' then need_arg ''alias'' ''name'' args (\<lambda>a rest. Inr (Alias a (join_words '' '' rest)))
      else if v = ''unalias'' then need_arg ''unalias'' ''name'' args (\<lambda>a _. Inr (Unalias a))
      else if v = ''exec'' then need_arg ''exec'' ''path'' args (\<lambda>a _. Inr (Exec a))
      else if v = ''echo'' then Inr (Echo (join_words '' '' args))
      else if v = ''force'' \<or> v = ''/force'' then parse_force args
      else if v = ''tool'' \<or> v = ''call'' then need_arg ''tool'' ''name'' args (parse_tool tx)
      else if v = ''dyn'' then
        Inr (DynDiscovery (if args \<noteq> [] \<and> \<not> starts_with ''--'' (hd args) then Some (hd args) else None) None
               (''--help'' \<in> set args \<or> ''-h'' \<in> set args))
      else if v = ''cancel'' then need_arg ''cancel'' ''job_id'' args (\<lambda>a _. Inr (CancelJob a))
      else if v = ''job'' \<and> 2 \<le> length args \<and> to_ascii_lowercase (args ! 0) = ''cancel''
      then Inr (CancelJob (args ! 1))
      else if v \<in> set [''effort'', ''/effort'', ''reasoning'', ''/reasoning'']
      then Inr (Effort (case args of [] \<Rightarrow> None | a # _ \<Rightarrow> Some (tx_lower tx (trim a))))
      else if v = ''provider'' \<or> v = ''/provider'' then parse_provider args
      else (case args of
          [] \<Rightarrow> Inr (GetConVar verb)
        | [a] \<Rightarrow> Inr (SetConVar verb a)
        | _ \<Rightarrow> Inr (Custom verb args)))"

definition parse_statement :: "text_env \<Rightarrow> string \<Rightarrow> (command_error, command) result" where
  "parse_statement tx s =
     try_bind (tokenize_line s) (\<lambda>ts.
       case ts of [] \<Rightarrow> Inl (CmParse ''empty statement'') | verb # args \<Rightarrow> parse_tokens tx verb args)"

fun parse_all :: "text_env \<Rightarrow> string list \<Rightarrow> (command_error, command list) result" where
  "parse_all tx [] = Inr []"
| "parse_all tx (s # ss) = try_bind (parse_statement tx s) (\<lambda>c. try_bind (parse_all tx ss) (\<lambda>cs. Inr (c # cs)))"

definition parse_script :: "text_env \<Rightarrow> string \<Rightarrow> (command_error, command list) result" where
  "parse_script tx s = parse_all tx (split_statements s)"

end
