(* ===== verification/CommandEngine.thy ===== *)
theory CommandEngine
  imports Command
begin

text \<open>
  The command engine of crate \<open>omp-control\<close> (\<open>command.rs\<close>): alias expansion within a depth and a
  byte budget, execution of a script against the variable store as one transaction, and the
  patch that records the effects.  The loader of \<open>exec\<close> is the host's: a function that threads
  its own state.
\<close>

section \<open>Effects and the engine\<close>

datatype command_effect =
    ConVarUpdated string typed_value typed_value convar_flags
  | ConVarQueried string typed_value
  | Bound string string
  | Unbound string
  | Aliased string string
  | Unaliased string
  | ExecRequested string
  | Output string
  | ForcePushed string string nat
  | ToolExecuted string json
  | DynDiscovered "string option"
  | JobCancelled string
  | ProviderEffect provider_action
  | EffortEffect "string option"

record command_engine =
  en_binds :: "(string, string) fmap"
  en_aliases :: "(string, string) fmap"
  en_max_depth :: nat
  en_max_bytes :: nat

definition new_engine :: command_engine where
  "new_engine = \<lparr>en_binds = fmempty, en_aliases = fmempty, en_max_depth = 16, en_max_bytes = 65536\<rparr>"

definition with_engine_limits :: "nat \<Rightarrow> nat \<Rightarrow> command_engine" where
  "with_engine_limits depth bytes =
     \<lparr>en_binds = fmempty, en_aliases = fmempty, en_max_depth = depth, en_max_bytes = bytes\<rparr>"

text \<open>\<open>hydrate_from_dom\<close>: the string attributes \<open>bind:<key>\<close> and \<open>alias:<name>\<close> of the container.\<close>

definition hydrate_entry ::
  "(string \<times> typed_value) \<Rightarrow> command_engine \<Rightarrow> command_engine" where
  "hydrate_entry nv en =
     (case snd nv of
        TString cmd \<Rightarrow>
          (case strip_prefix ''bind:'' (fst nv) of
             Some key \<Rightarrow> en\<lparr>en_binds := fmupd key cmd (en_binds en)\<rparr>
           | None \<Rightarrow>
               (case strip_prefix ''alias:'' (fst nv) of
                  Some name \<Rightarrow> en\<lparr>en_aliases := fmupd name cmd (en_aliases en)\<rparr>
                | None \<Rightarrow> en))
      | _ \<Rightarrow> en)"

definition engine_hydrate :: "command_engine \<Rightarrow> session_snapshot \<Rightarrow> command_engine option" where
  "engine_hydrate en s =
     map_option (\<lambda>globals. fold hydrate_entry (sorted_list_of_fmap globals)
         (en\<lparr>en_binds := fmempty, en_aliases := fmempty\<rparr>))
       (session_globals s)"

section \<open>Alias expansion\<close>

text \<open>
  Which commands are looked up as aliases, and the text that replaces them.  A statement of
  exactly two words is parsed as \<open>SetConVar\<close> and never looked up.
\<close>

fun alias_text :: "command_engine \<Rightarrow> command \<Rightarrow> (string \<times> string) option" where
  "alias_text en (GetConVar name) = map_option (\<lambda>t. (name, t)) (fmlookup (en_aliases en) name)"
| "alias_text en (Custom name args) =
     map_option (\<lambda>t. (name, if args = [] then t else t @ '' '' @ join_words '' '' args))
       (fmlookup (en_aliases en) name)"
| "alias_text en _ = None"

text \<open>
  \<open>visited\<close> is passed down: the source pushes a name before the recursive call and pops it after.
  The byte count is threaded through.  The measure counts what is left of the depth.
\<close>

function expand_command ::
    "text_env \<Rightarrow> command_engine \<Rightarrow> nat \<Rightarrow> string list \<Rightarrow> nat \<Rightarrow> string
     \<Rightarrow> (command_error, command list \<times> nat) result"
  and expand_commands ::
    "text_env \<Rightarrow> command_engine \<Rightarrow> nat \<Rightarrow> string list \<Rightarrow> nat \<Rightarrow> command list
     \<Rightarrow> (command_error, command list \<times> nat) result" where
  "expand_command tx en depth visited used text =
     (let used' = used + length text in
      if en_max_bytes en < used' then Inl (CmExpansionLimit used' (en_max_bytes en))
      else if en_max_depth en < depth
      then Inl (CmRecursionLimit (if visited = [] then [] else last visited) depth)
      else (case parse_script tx text of
          Inl e \<Rightarrow> Inl e
        | Inr cs \<Rightarrow> expand_commands tx en depth visited used' cs))"
| "expand_commands tx en depth visited used [] = Inr ([], used)"
| "expand_commands tx en depth visited used (c # cs) =
     (case (case alias_text en c of
              None \<Rightarrow> Inr ([c], used)
            | Some nt \<Rightarrow>
                if fst nt \<in> set visited then Inl (CmRecursionLimit (fst nt) depth)
                else expand_command tx en (Suc depth) (visited @ [fst nt]) used (snd nt)) of
        Inl e \<Rightarrow> Inl e
      | Inr x \<Rightarrow>
          (case expand_commands tx en depth visited (snd x) cs of
             Inl e \<Rightarrow> Inl e
           | Inr y \<Rightarrow> Inr (fst x @ fst y, snd y)))"
  by pat_completeness auto
termination
  by (relation "measures
        [\<lambda>x. case x of Inl (tx, en, depth, _) \<Rightarrow> 3 * (en_max_depth en + 1 - depth)
                 | Inr (tx, en, depth, _) \<Rightarrow> (if en_max_depth en + 1 \<le> depth then 1 else 3 * (en_max_depth en + 1 - depth) - 1),
         \<lambda>x. case x of Inl _ \<Rightarrow> 0 | Inr (_, _, _, _, _, cs) \<Rightarrow> length cs]") auto

declare expand_command.simps [simp del] expand_commands.simps(2) [simp del]

section \<open>Execution\<close>

definition flags_of :: "convar_store \<Rightarrow> string \<Rightarrow> convar_flags" where
  "flags_of st name = (case fmlookup (st_definitions st) name of Some d \<Rightarrow> df_flags d | None \<Rightarrow> 0)"

definition value_of :: "convar_store \<Rightarrow> string \<Rightarrow> typed_value" where
  "value_of st name = (case fmlookup (st_values st) name of Some v \<Rightarrow> v | None \<Rightarrow> TNull)"

definition update_convar ::
  "text_env \<Rightarrow> convar_store \<Rightarrow> string \<Rightarrow> typed_value \<Rightarrow> string
   \<Rightarrow> convar_store \<times> (command_error, command_effect list) result" where
  "update_convar tx st name old_val raw =
     (case set_from_str tx st name raw of
        (st', Inl e) \<Rightarrow> (st', Inl (CmConVar e))
      | (st', Inr v) \<Rightarrow> (st', Inr [ConVarUpdated name old_val v (flags_of st name)]))"

definition toggle_default :: "string \<Rightarrow> typed_value \<Rightarrow> (command_error, string) result" where
  "toggle_default name cur =
     (let refused = Inl (CmConVar (CvInvalidValue name
            ''cannot toggle non-boolean convar without explicit target values'')) in
      case cur of
        TBool b \<Rightarrow> Inr (show_bool (\<not> b))
      | TInteger i \<Rightarrow> Inr (if i = 0 then ''1'' else ''0'')
      | TString s \<Rightarrow>
          (case tri_of_str s of
             Inr TriTrue \<Rightarrow> Inr ''0''
           | Inr _ \<Rightarrow> Inr ''1''
           | Inl _ \<Rightarrow> refused)
      | TNull \<Rightarrow> Inr ''1''
      | _ \<Rightarrow> refused)"

fun parse_values ::
  "string \<Rightarrow> convar_definition \<Rightarrow> string list \<Rightarrow> (command_error, typed_value list) result" where
  "parse_values name d [] = Inr []"
| "parse_values name d (w # ws) =
     try_bind (case df_parser d of
         Some p \<Rightarrow> map_err (\<lambda>r. CmConVar (CvInvalidValue name r)) (p w)
       | None \<Rightarrow> Inr (TString w))
       (\<lambda>v. try_bind (parse_values name d ws) (\<lambda>vs. Inr (v # vs)))"

text \<open>\<open>TypedValue\<close> derives \<open>PartialEq\<close>: two numbers are compared as floating-point numbers.\<close>

fun json_eq :: "json \<Rightarrow> json \<Rightarrow> bool" where
  "json_eq (JNumber (JFloat a)) (JNumber (JFloat b)) = f64_eq a b"
| "json_eq (JArray xs) (JArray ys) = list_all2 json_eq xs ys"
| "json_eq (JObject xs) (JObject ys) =
     list_all2 (\<lambda>p q. fst p = fst q \<and> json_eq (snd p) (snd q)) xs ys"
| "json_eq a b = (a = b)"

fun typed_eq :: "typed_value \<Rightarrow> typed_value \<Rightarrow> bool" where
  "typed_eq (TNumber a) (TNumber b) = f64_eq a b"
| "typed_eq (TJson a) (TJson b) = json_eq a b"
| "typed_eq a b = (a = b)"

definition toggle_cycle ::
  "convar_store \<Rightarrow> string \<Rightarrow> typed_value \<Rightarrow> string list \<Rightarrow> (command_error, string) result" where
  "toggle_cycle st name cur words =
     try_bind (ok_or (CmConVar (CvNotFound name)) (fmlookup (st_definitions st) name)) (\<lambda>d.
     try_bind (parse_values name d words) (\<lambda>vs.
       let i = (case vec_position (\<lambda>v. typed_eq v cur) vs of Some i \<Rightarrow> i | None \<Rightarrow> length words - 1)
       in Inr (words ! ((i + 1) mod length words))))"

fun execute_one ::
  "text_env \<Rightarrow> command_engine \<Rightarrow> convar_store \<Rightarrow> command
   \<Rightarrow> command_engine \<times> convar_store \<times> (command_error, command_effect list) result" where
  "execute_one tx en st (SetConVar name raw) = (en, update_convar tx st name (value_of st name) raw)"
| "execute_one tx en st (GetConVar name) =
     (en, st, case fmlookup (st_values st) name of
        Some v \<Rightarrow> Inr [ConVarQueried name v]
      | None \<Rightarrow> Inl (CmConVar (CvNotFound name)))"
| "execute_one tx en st (BindKey key cmd) =
     (en\<lparr>en_binds := fmupd key cmd (en_binds en)\<rparr>, st, Inr [Bound key cmd])"
| "execute_one tx en st (Unbind key) = (en\<lparr>en_binds := fmdrop key (en_binds en)\<rparr>, st, Inr [Unbound key])"
| "execute_one tx en st (Toggle name words) =
     (case fmlookup (st_values st) name of
        None \<Rightarrow> (en, st, Inl (CmConVar (CvNotFound name)))
      | Some cur \<Rightarrow>
          (case (if words = [] then toggle_default name cur else toggle_cycle st name cur words) of
             Inl e \<Rightarrow> (en, st, Inl e)
           | Inr raw \<Rightarrow> (en, update_convar tx st name cur raw)))"
| "execute_one tx en st (Alias name cmd) =
     (en\<lparr>en_aliases := fmupd name cmd (en_aliases en)\<rparr>, st, Inr [Aliased name cmd])"
| "execute_one tx en st (Unalias name) =
     (en\<lparr>en_aliases := fmdrop name (en_aliases en)\<rparr>, st, Inr [Unaliased name])"
| "execute_one tx en st (Exec path) = (en, st, Inr [ExecRequested path])"
| "execute_one tx en st (Echo message) = (en, st, Inr [Output message])"
| "execute_one tx en st (Force tool reminder attempts) =
     (en, st, Inr [ForcePushed tool
        (case reminder of Some r \<Rightarrow> r | None \<Rightarrow> ''invoke tool '' @ tool)
        (case attempts of Some n \<Rightarrow> n | None \<Rightarrow> 3)])"
| "execute_one tx en st (ToolCall name input) = (en, st, Inr [ToolExecuted name input])"
| "execute_one tx en st (DynDiscovery query action help) = (en, st, Inr [DynDiscovered query])"
| "execute_one tx en st (CancelJob j) = (en, st, Inr [JobCancelled j])"
| "execute_one tx en st (Provider a) = (en, st, Inr [ProviderEffect a])"
| "execute_one tx en st (Effort level) = (en, st, Inr [EffortEffect level])"
| "execute_one tx en st (Custom name args) =
     (if name |\<in>| fmdom (st_definitions st)
      then (en, update_convar tx st name (value_of st name) (join_words '' '' args))
      else (en, st, Inl (CmUnknown name)))"

fun exec_path :: "command \<Rightarrow> string option" where
  "exec_path (Exec path) = Some path"
| "exec_path _ = None"

text \<open>
  What a stream carries along: the engine, the store, the state of the loader, the bytes
  expanded so far and the effects.  The depth limit is the engine's; no command changes it, so
  it is the argument \<open>md\<close>.
\<close>

record 'l run_state =
  rn_engine :: command_engine
  rn_store :: convar_store
  rn_loader :: 'l
  rn_bytes :: nat
  rn_effects :: "command_effect list"

type_synonym 'l loader = "'l \<Rightarrow> string \<Rightarrow> 'l \<times> (command_error, string) result"

function run_statements ::
    "text_env \<Rightarrow> 'l loader \<Rightarrow> nat \<Rightarrow> nat \<Rightarrow> 'l run_state \<Rightarrow> string list
     \<Rightarrow> 'l run_state \<times> (command_error, unit) result"
  and run_commands ::
    "text_env \<Rightarrow> 'l loader \<Rightarrow> nat \<Rightarrow> nat \<Rightarrow> 'l run_state \<Rightarrow> command list
     \<Rightarrow> 'l run_state \<times> (command_error, unit) result" where
  "run_statements tx load md depth r [] = (r, Inr ())"
| "run_statements tx load md depth r (s # ss) =
     (case expand_command tx (rn_engine r) depth [] (rn_bytes r) s of
        Inl e \<Rightarrow> (r, Inl e)
      | Inr (cs, used) \<Rightarrow>
          (case run_commands tx load md depth (r\<lparr>rn_bytes := used\<rparr>) cs of
             (r', Inl e) \<Rightarrow> (r', Inl e)
           | (r', Inr _) \<Rightarrow> run_statements tx load md depth r' ss))"
| "run_commands tx load md depth r [] = (r, Inr ())"
| "run_commands tx load md depth r (c # cs) =
     (case exec_path c of
        Some path \<Rightarrow>
          if md \<le> depth then (r, Inl (CmRecursionLimit path depth))
          else (case load (rn_loader r) path of
              (l', Inl e) \<Rightarrow> (r\<lparr>rn_loader := l'\<rparr>, Inl e)
            | (l', Inr source) \<Rightarrow>
                (case run_statements tx load md (Suc depth) (r\<lparr>rn_loader := l'\<rparr>) (split_statements source) of
                   (r', Inl e) \<Rightarrow> (r', Inl e)
                 | (r', Inr _) \<Rightarrow>
                     run_commands tx load md depth
                       (r'\<lparr>rn_effects := rn_effects r' @ [ExecRequested path]\<rparr>) cs))
      | None \<Rightarrow>
          (case execute_one tx (rn_engine r) (rn_store r) c of
             (en', st', Inl e) \<Rightarrow> (r\<lparr>rn_engine := en', rn_store := st'\<rparr>, Inl e)
           | (en', st', Inr es) \<Rightarrow>
               run_commands tx load md depth
                 (r\<lparr>rn_engine := en', rn_store := st', rn_effects := rn_effects r @ es\<rparr>) cs))"
  by pat_completeness auto
termination
  by (relation "measures
        [\<lambda>x. case x of Inl (_, _, md, depth, _) \<Rightarrow> md - depth | Inr (_, _, md, depth, _) \<Rightarrow> md - depth,
         \<lambda>x. case x of Inl _ \<Rightarrow> 1 | Inr _ \<Rightarrow> 0,
         \<lambda>x. case x of Inl (_, _, _, _, _, ss) \<Rightarrow> length ss | Inr (_, _, _, _, _, cs) \<Rightarrow> length cs]") auto

declare run_statements.simps(2) [simp del] run_commands.simps(2) [simp del]

text \<open>
  A failed stream restores the clones of the engine and the store; the hooks that have already
  been called cannot be taken back, so the ghost log of the present store is kept.
\<close>

definition execute_loaded ::
  "text_env \<Rightarrow> 'l loader \<Rightarrow> 'l \<Rightarrow> command_engine \<Rightarrow> convar_store \<Rightarrow> string
   \<Rightarrow> command_engine \<times> convar_store \<times> 'l \<times> (command_error, command_effect list) result" where
  "execute_loaded tx load l en st script =
     (let outer = st_defer st;
          st0 = (if outer then st else begin_transaction st);
          r0 = \<lparr>rn_engine = en, rn_store = st0, rn_loader = l, rn_bytes = 0, rn_effects = []\<rparr>
      in case run_statements tx load (en_max_depth en) 0 r0 (split_statements script) of
          (r, Inl e) \<Rightarrow> (en, st\<lparr>st_ran := st_ran (rn_store r)\<rparr>, rn_loader r, Inl e)
        | (r, Inr _) \<Rightarrow>
            (rn_engine r, if outer then rn_store r else commit_transaction (rn_store r),
             rn_loader r, Inr (rn_effects r)))"

definition no_loader :: "unit loader" where
  "no_loader u path = (u, Inl (CmParse (''exec requires a host cfg loader: '' @ path)))"

definition execute_script ::
  "text_env \<Rightarrow> command_engine \<Rightarrow> convar_store \<Rightarrow> string
   \<Rightarrow> command_engine \<times> convar_store \<times> (command_error, command_effect list) result" where
  "execute_script tx en st script =
     (case execute_loaded tx no_loader () en st script of (en', st', _, res) \<Rightarrow> (en', st', res))"

definition apply_cfg_stream ::
  "text_env \<Rightarrow> convar_store \<Rightarrow> command_engine \<Rightarrow> string
   \<Rightarrow> command_engine \<times> convar_store \<times> (command_error, command_effect list) result" where
  "apply_cfg_stream tx st en script = execute_script tx en st script"

section \<open>Recording the effects\<close>

definition bind_key :: "string \<Rightarrow> string" where "bind_key key = ''bind:'' @ key"
definition alias_key :: "string \<Rightarrow> string" where "alias_key name = ''alias:'' @ name"

fun effect_op :: "element_id \<Rightarrow> command_effect \<Rightarrow> patch_op option" where
  "effect_op k (ConVarUpdated name _ v flags) =
     (if flags_contains flags FLAG_SESSION then Some (SetAttribute k name v) else None)"
| "effect_op k (Bound key cmd) = Some (SetAttribute k (bind_key key) (TString cmd))"
| "effect_op k (Aliased name cmd) = Some (SetAttribute k (alias_key name) (TString cmd))"
| "effect_op k (Unbound key) = Some (RemoveAttribute k (bind_key key))"
| "effect_op k (Unaliased name) = Some (RemoveAttribute k (alias_key name))"
| "effect_op k _ = None"

definition command_effects_to_patch ::
  "command_effect list \<Rightarrow> journal_offset \<Rightarrow> journal_offset \<Rightarrow> actor_id \<Rightarrow> element_id \<Rightarrow> patch option" where
  "command_effects_to_patch effects base_off result_off a k =
     (let os = List.map_filter (effect_op k) effects in
      if os = [] then None
      else Some \<lparr>base_offset = base_off, result_offset = result_off, patch_by = Actor a,
                 reason = ''command effects'', ops = os\<rparr>)"

end
