(* ===== verification/CommandRun.thy ===== *)
theory CommandRun
  imports CommandEngine
begin

text \<open>
  What a stream of commands keeps.  The locale \<open>stream_contract\<close> is the contract between the
  stream and a property \<open>P k r\<close> of its state with \<open>k\<close> commands still to run: what expansion, the
  loader and every single command keep holds after the whole stream.  It is interpreted for the
  byte budget, which bounds the number of effects, and for the deferral of change hooks;
  \<open>CommandRecord\<close> interprets it for the recorded session and the validity of values.
\<close>

section \<open>Counting statements and commands\<close>

lemma trim_Nil [simp]: "trim [] = []"
  by (simp add: trim_def trim_start.simps[of "[]"])

lemma statement_of_length: "length (statement_of cur) + length (if trim cur \<noteq> [] then [] else cur) \<le> length cur"
  by (cases cur) (auto simp: statement_of_def)

lemma split_loop_length: "length (split_loop s cur q) \<le> length cur + length s"
proof (induction s cur q rule: split_loop.induct)
  case (1 cur q)
  then show ?case using statement_of_length[of cur] by (simp add: split_loop.simps)
next
  case (2 c cs cur q)
  have k: "length (skip_line (tl cs)) \<le> length cs" "length (skip_line cs) \<le> length cs"
    using skip_line_length[of "tl cs"] skip_line_length[of cs] by simp_all
  note t = statement_of_length[of cur]
  show ?case
  proof (cases "c = BACKSLASH")
    case True
    then show ?thesis using 2(1,2) by (subst split_loop.simps) (auto split: list.splits)
  next
    case False
    then show ?thesis
      using 2(3-7)[OF False] t k
      by (subst split_loop.simps) (auto simp: trans_le_add1)
  qed
qed

lemma parse_all_length: "parse_all tx ss = Inr cs \<Longrightarrow> length cs = length ss"
  by (induction ss arbitrary: cs) (auto simp: result_simps)

lemma parse_script_length: "parse_script tx s = Inr cs \<Longrightarrow> length cs \<le> length s"
  using split_loop_length[of s "[]" False] by (auto simp: parse_script_def split_statements_def dest: parse_all_length)

lemma expand_bounded:
  "expand_command tx en depth visited used s = Inr (cs, n) \<Longrightarrow>
     length cs + used \<le> n \<and> n \<le> en_max_bytes en"
  "expand_commands tx en depth visited used cmds = Inr (ds, m) \<Longrightarrow>
     length ds + used \<le> m + length cmds \<and> used \<le> m \<and> (used \<le> en_max_bytes en \<longrightarrow> m \<le> en_max_bytes en)"
proof (induction tx en depth visited used s and tx en depth visited used cmds
    arbitrary: cs n and ds m rule: expand_command_expand_commands.induct)
  case (1 tx en depth visited us s)
  from 1(2) obtain cmds where p: "parse_script tx s = Inr cmds" "us + length s \<le> en_max_bytes en"
    "\<not> en_max_depth en < depth" "expand_commands tx en depth visited (us + length s) cmds = Inr (cs, n)"
    by (auto simp: expand_command.simps Let_def split: if_splits sum.splits)
  with 1(1)[OF refl _ _ p(1), of cs n] parse_script_length[OF p(1)] show ?case by auto
next
  case (2 tx en depth visited us)
  then show ?case by simp
next
  case (3 tx en depth visited us c cmds)
  show ?case
  proof (cases "alias_text en c")
    case None
    with 3(3) obtain y where "expand_commands tx en depth visited us cmds = Inr y" "ds = c # fst y" "m = snd y"
      by (auto simp: expand_commands.simps split: sum.splits)
    with 3(2)[of "([c], us)" "fst y" "snd y"] None show ?thesis by auto
  next
    case (Some nt)
    with 3(3) obtain x y where x: "fst nt \<notin> set visited"
      "expand_command tx en (Suc depth) (visited @ [fst nt]) us (snd nt) = Inr x"
      "expand_commands tx en depth visited (snd x) cmds = Inr y" "ds = fst x @ fst y" "m = snd y"
      by (auto simp: expand_commands.simps split: sum.splits if_splits)
    with 3(1)[OF Some x(1), of "fst x" "snd x"] 3(2)[of x "fst y" "snd y"] Some show ?thesis by auto
  qed
qed

section \<open>The contract of a stream\<close>

lemma update_convar_one: "update_convar tx st name v raw = (st', Inr es) \<Longrightarrow> length es = 1"
  by (auto simp: update_convar_def split: prod.splits sum.splits)

lemma convar_set_error: "convar_set st name v = (st', Inl e) \<Longrightarrow> st' = st"
  by (auto simp: convar_set_def split: sum.splits if_splits)

lemma set_from_str_error: "set_from_str tx st name raw = (st', Inl e) \<Longrightarrow> st' = st"
  by (auto simp: set_from_str_def dest: convar_set_error split: sum.splits)

lemma update_convar_error: "update_convar tx st name v raw = (st', Inl e) \<Longrightarrow> st' = st"
  by (auto simp: update_convar_def dest: set_from_str_error split: prod.splits sum.splits)

lemma execute_one_effects: "execute_one tx en st c = (en', st', Inr es) \<Longrightarrow> length es = 1"
  by (cases c) (auto dest: update_convar_one split: option.splits sum.splits if_splits)

lemma execute_one_error: "execute_one tx en st c = (en', st', Inl e) \<Longrightarrow> en' = en \<and> st' = st"
  by (cases c) (auto dest: update_convar_error split: option.splits sum.splits if_splits)

lemma execute_one_limits:
  "execute_one tx en st c = (en', st', r) \<Longrightarrow>
     en_max_bytes en' = en_max_bytes en \<and> en_max_depth en' = en_max_depth en"
  by (cases c) (auto split: option.splits sum.splits if_splits)

locale stream_contract =
  fixes tx :: text_env and P :: "nat \<Rightarrow> 'l run_state \<Rightarrow> bool"
  assumes expanded: "P k r \<Longrightarrow> expand_command tx (rn_engine r) depth [] (rn_bytes r) s = Inr (cs, n)
      \<Longrightarrow> P (k + length cs) (r\<lparr>rn_bytes := n\<rparr>)"
    and loaded: "P k r \<Longrightarrow> P k (r\<lparr>rn_loader := l\<rparr>)"
    and included: "P (Suc k) r \<Longrightarrow> P k (r\<lparr>rn_effects := rn_effects r @ [ExecRequested path]\<rparr>)"
    and executed: "P (Suc k) r \<Longrightarrow> exec_path c = None
      \<Longrightarrow> execute_one tx (rn_engine r) (rn_store r) c = (en', st', Inr es)
      \<Longrightarrow> P k (r\<lparr>rn_engine := en', rn_store := st', rn_effects := rn_effects r @ es\<rparr>)"
begin

lemma stream_keeps:
  "run_statements tx' load md depth r ss = (r', res) \<Longrightarrow> tx' = tx \<Longrightarrow> P k r \<Longrightarrow>
     (\<exists>k'. P k' r') \<and> (res = Inr () \<longrightarrow> P k r')"
  "run_commands tx' load md depth r cs = (r', res) \<Longrightarrow> tx' = tx \<Longrightarrow> P (k + length cs) r \<Longrightarrow>
     (\<exists>k'. P k' r') \<and> (res = Inr () \<longrightarrow> P k r')"
proof (induction tx' load md depth r ss and tx' load md depth r cs
    arbitrary: r' res k and r' res k rule: run_statements_run_commands.induct)
  case (1 tx' load md depth r)
  then show ?case by auto
next
  case (2 tx' load md depth r s ss)
  show ?case
  proof (cases "expand_command tx' (rn_engine r) depth [] (rn_bytes r) s")
    case (Inl e)
    with 2(3,5) show ?thesis by (auto simp: run_statements.simps)
  next
    case (Inr x)
    obtain cs n where x: "x = (cs, n)" by (cases x)
    obtain r1 q where c: "run_commands tx' load md depth (r\<lparr>rn_bytes := n\<rparr>) cs = (r1, q)"
      by (cases "run_commands tx' load md depth (r\<lparr>rn_bytes := n\<rparr>) cs")
    note ih = 2(1)[OF Inr x[symmetric] c 2(4) expanded[OF 2(5) Inr[unfolded x 2(4)]]]
    show ?thesis
    proof (cases q)
      case (Inl e)
      with 2(3) \<open>expand_command _ _ _ _ _ _ = _\<close> x c ih show ?thesis by (auto simp: run_statements.simps)
    next
      case (Inr u)
      with 2(3) \<open>expand_command _ _ _ _ _ _ = _\<close> x c have step: "run_statements tx' load md depth r1 ss = (r', res)"
        by (auto simp: run_statements.simps)
      have "P k r1" using ih Inr by simp
      from 2(2)[OF \<open>expand_command _ _ _ _ _ _ = _\<close> x[symmetric] c[symmetric] Inr step 2(4) this] show ?thesis .
    qed
  qed
next
  case (3 tx' load md depth r)
  then show ?case by auto
next
  case (4 tx' load md depth r c cs)
  have p: "P (Suc (k + length cs)) r" using 4(6) by simp
  show ?case
  proof (cases "exec_path c")
    case None
    obtain en' st' q where o: "execute_one tx' (rn_engine r) (rn_store r) c = (en', st', q)"
      by (cases "execute_one tx' (rn_engine r) (rn_store r) c") auto
    show ?thesis
    proof (cases q)
      case (Inl e)
      with 4(4) None o p execute_one_error[of tx' "rn_engine r" "rn_store r" c en' st' e] show ?thesis
        by (auto simp: run_commands.simps)
    next
      case (Inr es)
      with 4(4) None o have "run_commands tx' load md depth
          (r\<lparr>rn_engine := en', rn_store := st', rn_effects := rn_effects r @ es\<rparr>) cs = (r', res)"
        by (simp add: run_commands.simps)
      from 4(1)[OF None o[symmetric] refl Inr this 4(5) executed[OF p None o[unfolded Inr 4(5)]]] show ?thesis .
    qed
  next
    case (Some path)
    obtain l q where l: "load (rn_loader r) path = (l, q)" by (cases "load (rn_loader r) path")
    show ?thesis
    proof (cases "md \<le> depth \<or> (\<exists>e. q = Inl e)")
      case True
      with 4(4) Some l have "res \<noteq> Inr ()" "r' = r \<or> r' = r\<lparr>rn_loader := l\<rparr>"
        by (auto simp: run_commands.simps split: if_splits)
      with p loaded[OF p] show ?thesis by blast
    next
      case False
      then obtain src where q: "\<not> md \<le> depth" "q = Inr src" by (cases q) auto
      obtain r1 q1 where s: "run_statements tx' load md (Suc depth) (r\<lparr>rn_loader := l\<rparr>) (split_statements src) = (r1, q1)"
        by (cases "run_statements tx' load md (Suc depth) (r\<lparr>rn_loader := l\<rparr>) (split_statements src)")
      note ih = 4(2)[OF Some q(1) l[symmetric] q(2) s 4(5) loaded[OF p]]
      show ?thesis
      proof (cases q1)
        case (Inl e)
        with 4(4) Some l q s ih show ?thesis by (auto simp: run_commands.simps)
      next
        case (Inr u)
        with 4(4) Some l q s have "run_commands tx' load md depth
            (r1\<lparr>rn_effects := rn_effects r1 @ [ExecRequested path]\<rparr>) cs = (r', res)"
          by (simp add: run_commands.simps)
        moreover have "P (k + length cs) (r1\<lparr>rn_effects := rn_effects r1 @ [ExecRequested path]\<rparr>)"
          using ih Inr by (intro included) simp
        ultimately show ?thesis by (rule 4(3)[OF Some q(1) l[symmetric] q(2) s[symmetric] Inr _ 4(5)])
      qed
    qed
  qed
qed

end


text \<open>
  The byte budget: a command still to run has been paid for when its text was expanded, so the
  effects never outnumber the bytes.
\<close>

definition in_budget :: "nat \<Rightarrow> nat \<Rightarrow> nat \<Rightarrow> 'l run_state \<Rightarrow> bool" where
  "in_budget m d k r \<longleftrightarrow>
     length (rn_effects r) + k \<le> rn_bytes r \<and> rn_bytes r \<le> m \<and> en_max_bytes (rn_engine r) = m
     \<and> en_max_depth (rn_engine r) = d"

interpretation budget: stream_contract tx "in_budget m d" for tx m d
proof (unfold_locales, goal_cases)
  case (1 k r depth s cs n)
  then show ?case using expand_bounded(1)[OF 1(2)] by (auto simp: in_budget_def)
next
  case (4 k r c en' st' es)
  then show ?case using execute_one_effects[OF 4(3)] execute_one_limits[OF 4(3)] by (auto simp: in_budget_def)
qed (auto simp: in_budget_def)

text \<open>
  Deferral: inside a transaction no hook is called; the calls that are due are exactly those of
  the recorded updates, in their order.
\<close>

definition due_calls ::
  "(string, convar_definition) fmap \<Rightarrow> command_effect list \<Rightarrow> (hook \<times> typed_value \<times> typed_value) list" where
  "due_calls defs es =
     List.map_filter (\<lambda>ef. case ef of
         ConVarUpdated name old_val new_val _ \<Rightarrow>
           map_option (\<lambda>h. (h, old_val, new_val)) (Option.bind (fmlookup defs name) df_hook)
       | _ \<Rightarrow> None) es"

definition deferring :: "convar_store \<Rightarrow> nat \<Rightarrow> 'l run_state \<Rightarrow> bool" where
  "deferring st k r \<longleftrightarrow>
     st_defer (rn_store r) \<and> st_definitions (rn_store r) = st_definitions st \<and> st_ran (rn_store r) = st_ran st
     \<and> st_pending (rn_store r) = st_pending st @ due_calls (st_definitions st) (rn_effects r)"

lemma due_calls_append: "due_calls defs (es @ fs) = due_calls defs es @ due_calls defs fs"
  by (simp add: due_calls_def)

lemma writable_def_Inr_iff:
  "writable_def st name = Inr d \<longleftrightarrow>
     fmlookup (st_definitions st) name = Some d \<and> \<not> flags_contains (df_flags d) FLAG_READONLY
     \<and> (flags_contains (df_flags d) FLAG_CHEAT \<longrightarrow> st_cheats st)"
  by (auto simp: writable_def_def result_simps)

lemma convar_set_ok:
  assumes "convar_set st name v = (st', Inr w)"
  obtains d where "fmlookup (st_definitions st) name = Some d" "compatible (df_default d) v"
    "\<forall>check. df_validator d = Some check \<longrightarrow> check v = Inr ()"
    "\<not> flags_contains (df_flags d) FLAG_READONLY"
    "flags_contains (df_flags d) FLAG_CHEAT \<longrightarrow> st_cheats st"
    "st' = store_value d name v st" "w = v"
proof -
  obtain d where d1: "writable_def st name = Inr d"
    using assms by (cases "writable_def st name") (simp_all add: convar_set_def)
  have d: "writable_def st name = Inr d" "compatible (df_default d) v"
    "(case df_validator d of None \<Rightarrow> Inr () | Some check \<Rightarrow> check v) = Inr ()"
    "st' = store_value d name v st" "w = v"
    using assms d1 unfolding convar_set_def
    by (cases "compatible (df_default d) v";
        cases "case df_validator d of None \<Rightarrow> Inr () | Some check \<Rightarrow> check v"; simp)+
  from d(3) have c: "\<forall>check. df_validator d = Some check \<longrightarrow> check v = Inr ()" by auto
  from d(1) have w: "fmlookup (st_definitions st) name = Some d" "\<not> flags_contains (df_flags d) FLAG_READONLY"
    "flags_contains (df_flags d) FLAG_CHEAT \<longrightarrow> st_cheats st"
    unfolding writable_def_Inr_iff by blast+
  show ?thesis by (rule that[OF w(1) d(2) c w(2,3) d(4,5)])
qed

lemma set_from_str_ok:
  assumes "set_from_str tx st name raw = (st', Inr w)"
  obtains d where "fmlookup (st_definitions st) name = Some d" "compatible (df_default d) w"
    "\<forall>check. df_validator d = Some check \<longrightarrow> check w = Inr ()"
    "\<not> flags_contains (df_flags d) FLAG_READONLY"
    "flags_contains (df_flags d) FLAG_CHEAT \<longrightarrow> st_cheats st"
    "st' = store_value d name w st"
proof -
  from assms obtain v where "convar_set st name v = (st', Inr w)"
    by (auto simp: set_from_str_def split: sum.splits)
  from convar_set_ok[OF this] that show ?thesis by metis
qed

text \<open>Every command but the updates of variables leaves the store alone.\<close>

lemma execute_one_cases:
  assumes "execute_one tx en st c = (en', st', Inr es)"
  obtains (updated) name v d where "fmlookup (st_definitions st) name = Some d" "compatible (df_default d) v"
      "\<forall>check. df_validator d = Some check \<longrightarrow> check v = Inr ()"
      "\<not> flags_contains (df_flags d) FLAG_READONLY" "flags_contains (df_flags d) FLAG_CHEAT \<longrightarrow> st_cheats st"
      "en' = en" "st' = store_value d name v st" "es = [ConVarUpdated name (value_of st name) v (df_flags d)]"
  | (bound) key cmd where "en' = en\<lparr>en_binds := fmupd key cmd (en_binds en)\<rparr>" "st' = st" "es = [Bound key cmd]"
  | (unbound) key where "en' = en\<lparr>en_binds := fmdrop key (en_binds en)\<rparr>" "st' = st" "es = [Unbound key]"
  | (aliased) name cmd where "en' = en\<lparr>en_aliases := fmupd name cmd (en_aliases en)\<rparr>" "st' = st" "es = [Aliased name cmd]"
  | (unaliased) name where "en' = en\<lparr>en_aliases := fmdrop name (en_aliases en)\<rparr>" "st' = st" "es = [Unaliased name]"
  | (other) ef where "en' = en" "st' = st" "es = [ef]" "effect_op k ef = None" "\<forall>n a b f. ef \<noteq> ConVarUpdated n a b f"
proof -
  have upd: thesis if "update_convar tx st name (value_of st name) raw = (st', Inr es)" "en' = en" for name raw
  proof -
    from that(1) obtain v where v: "set_from_str tx st name raw = (st', Inr v)"
      "es = [ConVarUpdated name (value_of st name) v (flags_of st name)]"
      by (auto simp: update_convar_def split: prod.splits sum.splits)
    from v(1) show thesis
    proof (rule set_from_str_ok)
      fix d
      assume d: "fmlookup (st_definitions st) name = Some d" "compatible (df_default d) v"
        "\<forall>check. df_validator d = Some check \<longrightarrow> check v = Inr ()"
        "\<not> flags_contains (df_flags d) FLAG_READONLY" "flags_contains (df_flags d) FLAG_CHEAT \<longrightarrow> st_cheats st"
        "st' = store_value d name v st"
      show thesis by (rule updated[OF d(1-5) that(2) d(6)]) (simp add: v(2) flags_of_def d(1))
    qed
  qed
  show thesis
  proof (cases c)
    case (Toggle name words)
    with assms obtain cur raw where "fmlookup (st_values st) name = Some cur"
      "update_convar tx st name cur raw = (st', Inr es)" "en' = en"
      by (auto split: option.splits sum.splits)
    with upd[of name raw] show thesis by (simp add: value_of_def)
  next
    case (Custom name args)
    with assms upd[of name] show thesis by (auto split: if_splits)
  qed (use assms upd bound unbound aliased unaliased other in
      \<open>auto split: option.splits\<close>)
qed

interpretation deferral: stream_contract tx "deferring st" for tx st
proof (unfold_locales, goal_cases)
  case (4 k r c en' st' es)
  from 4(3) show ?case
    by (rule execute_one_cases[where k = "[]"])
      (use 4(1) in \<open>auto simp: deferring_def due_calls_append store_value_def run_hook_def value_of_def
        due_calls_def List.map_filter_simps Let_def split: option.splits command_effect.splits\<close>)
next
  case (3 k r path)
  then show ?case by (simp add: deferring_def due_calls_append) (simp add: due_calls_def List.map_filter_simps)
qed (auto simp: deferring_def)


text \<open>A script is a stream run from the state below.\<close>

definition script_start :: "command_engine \<Rightarrow> convar_store \<Rightarrow> 'l \<Rightarrow> 'l run_state" where
  "script_start en st l =
     \<lparr>rn_engine = en, rn_store = (if st_defer st then st else begin_transaction st), rn_loader = l,
      rn_bytes = 0, rn_effects = []\<rparr>"

lemma execute_loaded_run:
  assumes "execute_loaded tx load l en st script = (en', st', l', r)"
  obtains (failed) r1 e where
      "run_statements tx load (en_max_depth en) 0 (script_start en st l) (split_statements script) = (r1, Inl e)"
      "en' = en" "st' = st\<lparr>st_ran := st_ran (rn_store r1)\<rparr>" "r = Inl e"
  | (succeeded) r1 where
      "run_statements tx load (en_max_depth en) 0 (script_start en st l) (split_statements script) = (r1, Inr ())"
      "en' = rn_engine r1" "st' = (if st_defer st then rn_store r1 else commit_transaction (rn_store r1))"
      "r = Inr (rn_effects r1)"
proof (cases "run_statements tx load (en_max_depth en) 0 (script_start en st l) (split_statements script)")
  case (Pair r1 q)
  note def = execute_loaded_def[of tx load l en st script, folded script_start_def, unfolded Let_def, folded script_start_def]
  show thesis
  proof (cases q)
    case (Inl e)
    with assms Pair show thesis by (intro failed) (auto simp: def)
  next
    case (Inr u)
    with assms Pair show thesis by (intro succeeded) (auto simp: def)
  qed
qed

lemma script_budget:
  assumes "execute_loaded tx load l en st script = (en', st', l', r)"
  shows "en_max_bytes en' = en_max_bytes en \<and> en_max_depth en' = en_max_depth en
    \<and> (\<forall>es. r = Inr es \<longrightarrow> length es \<le> en_max_bytes en)"
proof -
  have "in_budget (en_max_bytes en) (en_max_depth en) 0 (script_start en st l)"
    by (simp add: in_budget_def script_start_def)
  note keeps = budget.stream_keeps(1)[OF _ refl this]
  from assms show ?thesis
    by (cases rule: execute_loaded_run) (auto dest: keeps simp: in_budget_def)
qed

end
