(* ===== verification/CommandRecord.thy ===== *)
theory CommandRecord
  imports CommandRun DomProps
begin

text \<open>
  How the effects of a script reach the session document and come back.  The attributes of the
  \<open>convars\<close> container are the abstract state; hydration reads it, the recorded operations
  write it, and \<open>synced\<close> relates it to the engine and the store.  The interpretations of
  \<open>stream_contract\<close> here say that a stream keeps the relation and the validity of the values.
\<close>

section \<open>Hydration as a function of the attributes\<close>

definition hydrated :: "typed_value option \<Rightarrow> string option" where
  "hydrated v = (case v of Some (TString s) \<Rightarrow> Some s | _ \<Rightarrow> None)"

lemma strip_key [simp]:
  "strip_prefix ''bind:'' n = Some k \<longleftrightarrow> n = bind_key k"
  "strip_prefix ''alias:'' n = Some k \<longleftrightarrow> n = alias_key k"
  "strip_prefix ''bind:'' (bind_key k) = Some k"
  "strip_prefix ''alias:'' (alias_key k) = Some k"
  "strip_prefix ''bind:'' (alias_key k) = None"
  unfolding bind_key_def alias_key_def
  by (rule strip_prefix_Some_iff)+ (simp_all add: strip_prefix_def)

lemma key_distinct [simp]:
  "bind_key a = bind_key b \<longleftrightarrow> a = b" "alias_key a = alias_key b \<longleftrightarrow> a = b"
  "bind_key a \<noteq> alias_key b" "alias_key a \<noteq> bind_key b"
  by (simp_all add: bind_key_def alias_key_def)

lemma hydrate_entry_lookup:
  "fmlookup (en_binds (hydrate_entry (n, v) en)) k =
     (if n = bind_key k \<and> hydrated (Some v) \<noteq> None then hydrated (Some v) else fmlookup (en_binds en) k)"
  "fmlookup (en_aliases (hydrate_entry (n, v) en)) k =
     (if n = alias_key k \<and> hydrated (Some v) \<noteq> None then hydrated (Some v) else fmlookup (en_aliases en) k)"
  "en_max_depth (hydrate_entry (n, v) en) = en_max_depth en"
  "en_max_bytes (hydrate_entry (n, v) en) = en_max_bytes en"
  by (auto simp: hydrate_entry_def hydrated_def split: typed_value.splits option.splits)

lemma hydrate_entries:
  "distinct (map fst xs) \<Longrightarrow>
     fmlookup (en_binds (fold hydrate_entry xs en)) k =
       (case hydrated (map_of xs (bind_key k)) of Some s \<Rightarrow> Some s | None \<Rightarrow> fmlookup (en_binds en) k)
     \<and> fmlookup (en_aliases (fold hydrate_entry xs en)) k =
       (case hydrated (map_of xs (alias_key k)) of Some s \<Rightarrow> Some s | None \<Rightarrow> fmlookup (en_aliases en) k)
     \<and> en_max_depth (fold hydrate_entry xs en) = en_max_depth en
     \<and> en_max_bytes (fold hydrate_entry xs en) = en_max_bytes en"
proof (induction xs arbitrary: en)
  case Nil
  then show ?case by (simp add: hydrated_def)
next
  case (Cons x xs)
  obtain n v where x: "x = (n, v)" by (cases x)
  have other: "map_of xs n = None" using Cons.prems x by (auto simp: map_of_eq_None_iff)
  note e = hydrate_entry_lookup(1,2)[of n v en k] hydrate_entry_lookup(3,4)[of n v en]
  show ?case
  proof (cases "n = bind_key k \<or> n = alias_key k")
    case True
    with Cons.IH[of "hydrate_entry x en"] Cons.prems e other show ?thesis
      by (auto simp: x hydrated_def split: option.splits typed_value.splits)
  next
    case False
    then have f: "bind_key k \<noteq> n" "alias_key k \<noteq> n" by auto
    from Cons.IH[of "hydrate_entry (n, v) en"] Cons.prems e f f[symmetric] show ?thesis by (simp add: x cong: option.case_cong)
  qed
qed

lemma hydrate_values_lookup:
  "distinct (map fst defs) \<Longrightarrow>
     fmlookup (hydrate_values g defs vs) n =
       (case map_of defs n of
          Some d \<Rightarrow> if flags_contains (df_flags d) FLAG_SESSION
                    then Some (case fmlookup g n of Some v \<Rightarrow> v | None \<Rightarrow> df_default d)
                    else fmlookup vs n
        | None \<Rightarrow> fmlookup vs n)"
proof (induction defs arbitrary: vs)
  case Nil
  then show ?case by (simp add: hydrate_values_def)
next
  case (Cons x xs)
  then have "map_of xs (fst x) = None" by (auto simp: map_of_eq_None_iff)
  with Cons show ?case by (cases x) (auto simp: hydrate_values_def split: option.splits)
qed

definition session_def :: "(string, convar_definition) fmap \<Rightarrow> string \<Rightarrow> convar_definition \<Rightarrow> bool" where
  "session_def defs n d \<longleftrightarrow> fmlookup defs n = Some d \<and> flags_contains (df_flags d) FLAG_SESSION"

definition cheats_of :: "(string, typed_value) fmap \<Rightarrow> bool" where
  "cheats_of vs = (case fmlookup vs ''sv_cheats'' of Some v \<Rightarrow> truthy v | None \<Rightarrow> False)"

text \<open>The engine and the store say what the attributes \<open>g\<close> of the container say.\<close>

definition synced :: "(string, typed_value) fmap \<Rightarrow> command_engine \<Rightarrow> convar_store \<Rightarrow> bool" where
  "synced g en st \<longleftrightarrow>
     (\<forall>k. fmlookup (en_binds en) k = hydrated (fmlookup g (bind_key k)))
     \<and> (\<forall>k. fmlookup (en_aliases en) k = hydrated (fmlookup g (alias_key k)))
     \<and> (\<forall>n d. session_def (st_definitions st) n d \<longrightarrow>
           fmlookup (st_values st) n = Some (case fmlookup g n of Some v \<Rightarrow> v | None \<Rightarrow> df_default d))
     \<and> st_cheats st = cheats_of (st_values st)"

lemma distinct_sorted_fmap [simp]: "distinct (map fst (sorted_list_of_fmap m))"
  by (simp add: sorted_list_of_fmap_def comp_def sorted_list_of_fset.rep_eq)

lemma engine_hydrate_Some:
  assumes "session_globals s = Some g"
  obtains en' where "engine_hydrate en s = Some en'"
    "\<forall>k. fmlookup (en_binds en') k = hydrated (fmlookup g (bind_key k))"
    "\<forall>k. fmlookup (en_aliases en') k = hydrated (fmlookup g (alias_key k))"
    "en_max_depth en' = en_max_depth en" "en_max_bytes en' = en_max_bytes en"
proof
  let ?en = "fold hydrate_entry (sorted_list_of_fmap g) (en\<lparr>en_binds := fmempty, en_aliases := fmempty\<rparr>)"
  show "engine_hydrate en s = Some ?en" by (simp add: engine_hydrate_def assms)
  note h = hydrate_entries[of "sorted_list_of_fmap g" "en\<lparr>en_binds := fmempty, en_aliases := fmempty\<rparr>", simplified]
  show "\<forall>k. fmlookup (en_binds ?en) k = hydrated (fmlookup g (bind_key k))"
    "\<forall>k. fmlookup (en_aliases ?en) k = hydrated (fmlookup g (alias_key k))"
    "en_max_depth ?en = en_max_depth en" "en_max_bytes ?en = en_max_bytes en"
    using h by (auto split: option.splits)
qed

lemma convar_hydrate_Some:
  assumes "session_globals s = Some g"
  obtains st' where "convar_hydrate st s = Some st'" "st_definitions st' = st_definitions st"
    "\<forall>n d. session_def (st_definitions st) n d \<longrightarrow>
        fmlookup (st_values st') n = Some (case fmlookup g n of Some v \<Rightarrow> v | None \<Rightarrow> df_default d)"
    "\<forall>n. (\<forall>d. \<not> session_def (st_definitions st) n d) \<longrightarrow> fmlookup (st_values st') n = fmlookup (st_values st) n"
    "st_cheats st' = cheats_of (st_values st')" "st_dirty st' = {||}" "st_pending st' = []" "\<not> st_defer st'"
    "st_ran st' = st_ran st"
proof -
  let ?vs = "hydrate_values g (sorted_list_of_fmap (st_definitions st)) (st_values st)"
  note h = hydrate_values_lookup[of "sorted_list_of_fmap (st_definitions st)" g "st_values st", simplified]
  show thesis
    by (rule that[of "st\<lparr>st_values := ?vs, st_cheats := cheats_of ?vs, st_pending := [], st_defer := False, st_dirty := {||}\<rparr>"])
      (auto simp: convar_hydrate_def assms Let_def cheats_of_def h session_def_def split: option.splits)
qed

lemma hydrate_synced:
  assumes "engine_hydrate en0 s = Some en" "convar_hydrate st0 s = Some st" "session_globals s = Some g"
  shows "synced g en st"
  using assms(1,2) engine_hydrate_Some[OF assms(3), of en0] convar_hydrate_Some[OF assms(3), of st0]
  unfolding synced_def by (metis option.inject)

section \<open>Recorded operations\<close>

fun record_op :: "patch_op \<Rightarrow> (string, typed_value) fmap \<Rightarrow> (string, typed_value) fmap" where
  "record_op (SetAttribute _ n v) g = fmupd n v g"
| "record_op (RemoveAttribute _ n) g = fmdrop n g"
| "record_op _ g = g"

text \<open>No variable has a name of the form \<open>bind:..\<close> or \<open>alias:..\<close>.\<close>

definition plain_names :: "(string, convar_definition) fmap \<Rightarrow> bool" where
  "plain_names defs \<longleftrightarrow>
     fBall (fmdom defs) (\<lambda>n. strip_prefix ''bind:'' n = None \<and> strip_prefix ''alias:'' n = None)"

lemma plain_namesD:
  "plain_names defs \<Longrightarrow> fmlookup defs n = Some d \<Longrightarrow> n \<noteq> bind_key k \<and> n \<noteq> alias_key k"
  unfolding plain_names_def by (metis fbspec fmdomI option.distinct(1) strip_key)

definition recorded ::
  "element_id \<Rightarrow> (string, typed_value) fmap \<Rightarrow> (string, convar_definition) fmap \<Rightarrow> nat \<Rightarrow> 'l run_state \<Rightarrow> bool" where
  "recorded k g defs n r \<longleftrightarrow>
     synced (fold record_op (List.map_filter (effect_op k) (rn_effects r)) g) (rn_engine r) (rn_store r)
     \<and> st_definitions (rn_store r) = defs \<and> plain_names defs"

lemma store_value_fields [simp]:
  "st_definitions (store_value d n v st) = st_definitions st"
  "st_values (store_value d n v st) = fmupd n v (st_values st)"
  "st_cheats (store_value d n v st) = (if n = ''sv_cheats'' then truthy v else st_cheats st)"
  by (auto simp: store_value_def run_hook_def Let_def split: option.splits)

lemma synced_update:
  assumes "synced g en st" "plain_names (st_definitions st)" "fmlookup (st_definitions st) n = Some d"
  shows "synced (if flags_contains (df_flags d) FLAG_SESSION then fmupd n v g else g) en (store_value d n v st)"
  using assms plain_namesD[OF assms(2,3)]
  by (auto simp: synced_def session_def_def cheats_of_def)

interpretation recording: stream_contract tx "recorded k g defs" for tx k g defs
proof (unfold_locales, goal_cases)
  case (3 n r path)
  then show ?case by (simp add: recorded_def List.map_filter_simps)
next
  case (4 n r c en' st' es)
  let ?g = "fold record_op (List.map_filter (effect_op k) (rn_effects r)) g"
  have s: "synced ?g (rn_engine r) (rn_store r)" "plain_names (st_definitions (rn_store r))"
      "st_definitions (rn_store r) = defs" "plain_names defs"
    using 4(1) by (auto simp: recorded_def)
  have plain: "\<not> session_def (st_definitions (rn_store r)) (bind_key m) d"
    "\<not> session_def (st_definitions (rn_store r)) (alias_key m) d" for m d
    using plain_namesD[OF s(2)] by (auto simp: session_def_def)
  from 4(3) show ?case
  proof (rule execute_one_cases[where k = k], goal_cases)
    case (1 name v d)
    with synced_update[OF s(1,2) 1(1), of v] s(3,4) show ?case
      by (auto simp: recorded_def List.map_filter_simps split: if_splits)
  qed (use s plain in \<open>auto simp: recorded_def List.map_filter_simps synced_def hydrated_def split: if_splits\<close>)
qed (auto simp: recorded_def)

section \<open>Valid values\<close>

text \<open>
  A value is the declared default, or one that has the declared type and passed the validator
  and is not of a read-only variable; or it was installed, unchecked, by the last hydration from
  a document whose session values are \<open>g\<close>.
\<close>

definition value_ok :: "(string, typed_value) fmap \<Rightarrow> string \<Rightarrow> convar_definition \<Rightarrow> typed_value \<Rightarrow> bool" where
  "value_ok g n d v \<longleftrightarrow>
     v = df_default d
     \<or> \<not> flags_contains (df_flags d) FLAG_READONLY \<and> compatible (df_default d) v
       \<and> (\<forall>check. df_validator d = Some check \<longrightarrow> check v = Inr ())
     \<or> flags_contains (df_flags d) FLAG_SESSION \<and> fmlookup g n = Some v"

definition values_ok :: "(string, typed_value) fmap \<Rightarrow> convar_store \<Rightarrow> bool" where
  "values_ok g st \<longleftrightarrow>
     (\<forall>n d. fmlookup (st_definitions st) n = Some d \<longrightarrow>
        (\<exists>v. fmlookup (st_values st) n = Some v \<and> value_ok g n d v))"

definition checked :: "(string, typed_value) fmap \<Rightarrow> (string, convar_definition) fmap \<Rightarrow> nat \<Rightarrow> 'l run_state \<Rightarrow> bool" where
  "checked g defs n r \<longleftrightarrow> values_ok g (rn_store r) \<and> st_definitions (rn_store r) = defs"

lemma store_value_ok:
  assumes "values_ok g st" "fmlookup (st_definitions st) n = Some d" "compatible (df_default d) v"
    "\<forall>check. df_validator d = Some check \<longrightarrow> check v = Inr ()" "\<not> flags_contains (df_flags d) FLAG_READONLY"
  shows "values_ok g (store_value d n v st)"
  using assms by (auto simp: values_ok_def value_ok_def)

text \<open>Hydration forgets what was installed before: each session variable gets the new value or its default.\<close>

lemma values_ok_hydrate:
  assumes "values_ok g st" "session_globals s = Some g'" "convar_hydrate st s = Some st'"
  shows "values_ok g' st'"
proof -
  obtain st1 where h: "convar_hydrate st s = Some st1" "st_definitions st1 = st_definitions st"
    "\<forall>n d. session_def (st_definitions st) n d \<longrightarrow>
        fmlookup (st_values st1) n = Some (case fmlookup g' n of Some v \<Rightarrow> v | None \<Rightarrow> df_default d)"
    "\<forall>n. (\<forall>d. \<not> session_def (st_definitions st) n d) \<longrightarrow> fmlookup (st_values st1) n = fmlookup (st_values st) n"
    using convar_hydrate_Some[OF assms(2), of st] by metis
  have "\<exists>v. fmlookup (st_values st1) n = Some v \<and> value_ok g' n d v" if d: "fmlookup (st_definitions st) n = Some d" for n d
  proof (cases "flags_contains (df_flags d) FLAG_SESSION")
    case True
    with d h(3) show ?thesis by (cases "fmlookup g' n") (auto simp: session_def_def value_ok_def)
  next
    case False
    with d have "\<forall>d. \<not> session_def (st_definitions st) n d" by (auto simp: session_def_def)
    with h(4) have "fmlookup (st_values st1) n = fmlookup (st_values st) n" by blast
    moreover obtain v where "fmlookup (st_values st) n = Some v" "value_ok g n d v" using assms(1) d by (auto simp: values_ok_def)
    ultimately show ?thesis using False by (auto simp: value_ok_def)
  qed
  with h(1,2) assms(3) show ?thesis by (simp add: values_ok_def)
qed

interpretation validity: stream_contract tx "checked g defs" for tx g defs
proof (unfold_locales, goal_cases)
  case (4 n r c en' st' es)
  from 4(3) show ?case
  proof (rule execute_one_cases[where k = "[]"], goal_cases)
    case (1 name v d)
    with store_value_ok[OF _ 1(1-4)] 4(1) show ?case by (auto simp: checked_def)
  qed (use 4(1) in \<open>auto simp: checked_def\<close>)
qed (auto simp: checked_def)

end
