(* ===== verification/CommandClaims.thy ===== *)
theory CommandClaims
  imports CommandRecord DomClaims
begin

text \<open>
  The properties of the command engine and the configuration variables, with concrete instances.
\<close>

section \<open>Samples\<close>

definition sample_text :: text_env where
  "sample_text =
     \<lparr>tx_parse_json = (\<lambda>s. if s = ''{}'' then Inr (JObject []) else Inl ''expected value''),
      tx_show_json = (\<lambda>_. ''{}''), tx_show_f64 = (\<lambda>_. ''0''), tx_lower = to_ascii_lowercase\<rparr>"

text \<open>A store with one variable that has a hook.\<close>

definition hooked_store :: convar_store where
  "hooked_store = register_def
     ((new_definition ''f'' (TBool False) ''Fast mode'' FLAG_SESSION)\<lparr>df_hook := Some 7\<rparr>)
     new_store"

section \<open>Scripts are transactions\<close>

text \<open>
  C27: A script is a transaction.  When it fails, the engine and the store are as before, no
  change hook has been called and none is left pending.  When it succeeds, exactly one call is
  due for each recorded update of a variable with a hook, in the order of the updates and with
  the old and new values; outside a transaction these calls have been made and the transaction
  is closed, inside one they are queued behind the earlier ones.
\<close>

theorem script_atomic:
  assumes "execute_loaded tx load l en st script = (en', st', l', r)"
  shows "case r of
      Inl e \<Rightarrow> en' = en \<and> st' = st
    | Inr es \<Rightarrow>
        let calls = due_calls (st_definitions st) es in
        st_definitions st' = st_definitions st \<and>
        (if st_defer st
         then st_ran st' = st_ran st \<and> st_pending st' = st_pending st @ calls \<and> st_defer st'
         else st_ran st' = st_ran st @ calls \<and> st_pending st' = [] \<and> \<not> st_defer st')"
proof -
  let ?st0 = "rn_store (script_start en st l)"
  have "deferring ?st0 0 (script_start en st l)"
    by (simp add: deferring_def due_calls_def List.map_filter_simps script_start_def begin_transaction_def)
  note keeps = deferral.stream_keeps(1)[OF _ refl this]
  have f: "st_definitions ?st0 = st_definitions st" "st_ran ?st0 = st_ran st"
    "st_pending ?st0 = (if st_defer st then st_pending st else [])"
    by (simp_all add: script_start_def begin_transaction_def)
  from assms show ?thesis
  proof (cases rule: execute_loaded_run)
    case (failed r1 e)
    with keeps[OF failed(1)] f show ?thesis by (auto simp: deferring_def)
  next
    case (succeeded r1)
    with keeps[OF succeeded(1)] f show ?thesis by (auto simp: deferring_def commit_transaction_def Let_def)
  qed
qed

lemma sample_script_fails:
  "snd (snd (snd (execute_loaded sample_text no_loader () (with_engine_limits 3 20) hooked_store ''f 1;x'')))
     = Inl (CmConVar (CvNotFound ''x''))"
  by code_simp

theorem script_atomic_witness:
  "fst (snd (execute_loaded sample_text no_loader () (with_engine_limits 3 20) hooked_store ''f 1;x''))
     = hooked_store"
proof (cases "execute_loaded sample_text no_loader () (with_engine_limits 3 20) hooked_store ''f 1;x''")
  case (fields en st l r)
  with sample_script_fails have "r = Inl (CmConVar (CvNotFound ''x''))" by simp
  with script_atomic[OF fields] fields show ?thesis by simp
qed

text \<open>
  Aliases and included files cannot make a script run away: every script terminates, and a
  successful one has at most as many effects as the byte limit of the engine, whatever the
  aliases and the loader are.  The limits themselves are never changed.
\<close>

theorem script_bounded:
  assumes "execute_loaded tx load l en st script = (en', st', l', r)"
  shows "en_max_bytes en' = en_max_bytes en \<and> (\<forall>es. r = Inr es \<longrightarrow> length es \<le> en_max_bytes en)"
  using script_budget[OF assms] by simp

theorem script_bounded_witness:
  "\<forall>es. snd (snd (snd (execute_loaded sample_text no_loader () (with_engine_limits 3 20) hooked_store ''a;a;a'')))
     = Inr es \<longrightarrow> length es \<le> 20"
proof (cases "execute_loaded sample_text no_loader () (with_engine_limits 3 20) hooked_store ''a;a;a''")
  case (fields en st l r)
  from script_bounded[OF fields] fields show ?thesis by (simp add: with_engine_limits_def)
qed

text \<open>
  An alias called with exactly one argument is parsed as an assignment, which is never looked up
  as an alias: with no argument and with two it is expanded, with one it fails.
\<close>

definition greeting_engine :: command_engine where
  "greeting_engine = (with_engine_limits 3 40)\<lparr>en_aliases := fmupd ''g'' ''echo'' fmempty\<rparr>"

lemma alias_loses_single_argument:
  "snd (snd (execute_script sample_text greeting_engine hooked_store ''g'')) = Inr [Output '''']"
  "snd (snd (execute_script sample_text greeting_engine hooked_store ''g x'')) = Inl (CmConVar (CvNotFound ''g''))"
  "snd (snd (execute_script sample_text greeting_engine hooked_store ''g x y'')) = Inr [Output ''x y'']"
  by code_simp+

section \<open>Settings and the session document\<close>

lemma session_globals_Some:
  "session_globals s = Some g \<longleftrightarrow> (\<exists>e. snap_element s ''convars'' = Some e \<and> g = attributes e)"
proof -
  have "new_id ''convars'' = Inr ''convars''" by code_simp
  then show ?thesis
    by (auto simp: session_globals_def try_session_globals_def try_container_def snap_element_def snap_node_def
        split: option.splits)
qed

definition records_settings :: "patch_op \<Rightarrow> bool" where
  "records_settings x \<longleftrightarrow>
     (case x of SetAttribute k _ _ \<Rightarrow> k = ''convars'' | RemoveAttribute k _ \<Rightarrow> k = ''convars'' | _ \<Rightarrow> False)"

lemma edit_globals:
  assumes "session_globals s = Some g"
  shows "edit_element s ''convars'' (\<lambda>e. e\<lparr>attributes := f (attributes e)\<rparr>) u = (t, r) \<Longrightarrow> session_globals t = Some (f g)"
  using assms unfolding session_globals_Some
  by (auto simp: edit_element_def require_def snap_element_def snap_node_def fmlookup_modify_node split: option.splits)

lemma apply_ops_globals:
  "session_globals s = Some g \<Longrightarrow> list_all records_settings xs \<Longrightarrow> apply_ops s xs us = (s', Inr ())
     \<Longrightarrow> session_globals s' = Some (fold record_op xs g)"
proof (induction xs arbitrary: s g us)
  case Nil
  then show ?case by simp
next
  case (Cons x xs)
  from Cons.prems(2) consider (put) n v where "x = SetAttribute ''convars'' n v" | (drop) n where "x = RemoveAttribute ''convars'' n"
    by (cases x) (auto simp: records_settings_def)
  then have "session_globals t = Some (record_op x g)" if "apply_one s x = (t, r)" for t r
    using that edit_globals[OF Cons.prems(1), of "fmupd _ _"] edit_globals[OF Cons.prems(1), of "fmdrop _"]
    by cases auto
  with Cons show ?case by (auto split: prod.splits sum.splits)
qed

lemma effect_ops_record: "list_all records_settings (List.map_filter (effect_op ''convars'') es)"
proof (induction es)
  case (Cons ef es)
  then show ?case
    by (cases ef) (auto simp: List.map_filter_simps records_settings_def)
qed (simp add: List.map_filter_simps)

lemma apply_patch_globals:
  assumes "session_globals s = Some g" "list_all records_settings (ops p)" "apply_patch js s p = (s', Inr ())"
  shows "session_globals s' = Some (fold record_op (ops p) g)"
proof -
  from assms(3) obtain t where "apply_ops s (ops p) [] = (t, Inr ())" "s' = t\<lparr>ss_offset := offset_nat (result_offset p)\<rparr>"
    by (auto simp: apply_patch_def split: sum.splits if_splits prod.splits)
  with apply_ops_globals[OF assms(1,2)] show ?thesis
    by (simp add: session_globals_Some snap_element_def snap_node_def)
qed

text \<open>Hydrating an engine and a store that agree with the document changes neither.\<close>

lemma synced_hydrate:
  assumes "synced g en st" "session_globals s = Some g"
  shows "engine_hydrate en s = Some en"
    and "convar_hydrate st s = Some (st\<lparr>st_pending := [], st_defer := False, st_dirty := {||}\<rparr>)"
proof -
  obtain en' where e: "engine_hydrate en s = Some en'"
    "\<forall>k. fmlookup (en_binds en') k = hydrated (fmlookup g (bind_key k))"
    "\<forall>k. fmlookup (en_aliases en') k = hydrated (fmlookup g (alias_key k))"
    "en_max_depth en' = en_max_depth en" "en_max_bytes en' = en_max_bytes en"
    using engine_hydrate_Some[OF assms(2), of en] by blast
  have "en_binds en' = en_binds en" "en_aliases en' = en_aliases en"
    using e(2,3) assms(1) by (auto simp: synced_def intro: fmap_ext)
  with e show "engine_hydrate en s = Some en" by simp
  obtain st' where h: "convar_hydrate st s = Some st'" "st_definitions st' = st_definitions st"
    "\<forall>n d. session_def (st_definitions st) n d \<longrightarrow>
        fmlookup (st_values st') n = Some (case fmlookup g n of Some v \<Rightarrow> v | None \<Rightarrow> df_default d)"
    "\<forall>n. (\<forall>d. \<not> session_def (st_definitions st) n d) \<longrightarrow> fmlookup (st_values st') n = fmlookup (st_values st) n"
    "st_cheats st' = cheats_of (st_values st')" "st_dirty st' = {||}" "st_pending st' = []" "\<not> st_defer st'"
    "st_ran st' = st_ran st"
    using convar_hydrate_Some[OF assms(2), of st] by blast
  have v: "st_values st' = st_values st"
  proof (rule fmap_ext)
    fix n
    show "fmlookup (st_values st') n = fmlookup (st_values st) n"
      using h(3,4) assms(1) by (cases "\<exists>d. session_def (st_definitions st) n d") (auto simp: synced_def)
  qed
  with h assms(1) show "convar_hydrate st s = Some (st\<lparr>st_pending := [], st_defer := False, st_dirty := {||}\<rparr>)"
    by (simp add: synced_def)
qed


lemma synced_pending [simp]:
  "synced g en (st\<lparr>st_defer := b, st_pending := hs\<rparr>) = synced g en st"
  "synced g en (commit_transaction st) = synced g en st"
  "st_definitions (commit_transaction st) = st_definitions st"
  "st_values (commit_transaction st) = st_values st"
  by (simp_all add: synced_def commit_transaction_def)

lemma script_synced:
  assumes "synced g en st" "plain_names (st_definitions st)"
    "execute_loaded tx load l en st script = (en', st', l', Inr es)"
  shows "synced (fold record_op (List.map_filter (effect_op k) es) g) en' st' \<and> st_definitions st' = st_definitions st"
proof -
  have "recorded k g (st_definitions st) 0 (script_start en st l)"
    using assms(1,2) by (simp add: recorded_def script_start_def begin_transaction_def List.map_filter_simps)
  note keeps = recording.stream_keeps(1)[OF _ refl this]
  from assms(3) show ?thesis
    by (cases rule: execute_loaded_run) (auto dest: keeps simp: recorded_def)
qed

definition recorded_in :: "(json \<Rightarrow> string option) \<Rightarrow> session_snapshot \<Rightarrow> patch option \<Rightarrow> session_snapshot \<Rightarrow> bool" where
  "recorded_in js s p s' \<longleftrightarrow>
     (case p of None \<Rightarrow> s' = s | Some p \<Rightarrow> apply_patch js s p = (s', Inr ()))"

lemma recorded_globals:
  assumes "recorded_in js s (command_effects_to_patch es b r a ''convars'') s'" "session_globals s = Some g"
  shows "session_globals s' = Some (fold record_op (List.map_filter (effect_op ''convars'') es) g)"
proof (cases "List.map_filter (effect_op ''convars'') es = []")
  case True
  with assms show ?thesis by (simp add: recorded_in_def command_effects_to_patch_def)
next
  case False
  let ?p = "\<lparr>base_offset = b, result_offset = r, patch_by = Actor a, reason = ''command effects'',
             ops = List.map_filter (effect_op ''convars'') es\<rparr>"
  from False assms(1) have "apply_patch js s ?p = (s', Inr ())"
    by (simp add: recorded_in_def command_effects_to_patch_def)
  from apply_patch_globals[OF assms(2) _ this] show ?thesis by (simp add: effect_ops_record)
qed

text \<open>
  C28: Settings survive a restart.  Let an engine and a store be hydrated from the session
  document, let a script succeed and its effects be recorded in the document as the patch the
  engine makes of them.  Then hydrating the original engine from the new document gives the
  bindings and aliases the running engine has, and hydrating the original store gives every
  session variable the value it has in the running store, with nothing marked dirty or pending.
\<close>

theorem settings_survive_restart:
  assumes "engine_hydrate en0 s = Some en" "convar_hydrate st0 s = Some st"
    "plain_names (st_definitions st0)"
    "execute_loaded tx load l en st script = (en', st', l', Inr es)"
    "recorded_in js s (command_effects_to_patch es b r a ''convars'') s'"
  shows "engine_hydrate en0 s' = Some en'
    \<and> (\<exists>st1. convar_hydrate st0 s' = Some st1 \<and> st_dirty st1 = {||} \<and> st_pending st1 = []
         \<and> st_cheats st1 = cheats_of (st_values st1)
         \<and> (\<forall>n d. session_def (st_definitions st0) n d \<longrightarrow> fmlookup (st_values st1) n = fmlookup (st_values st') n))"
proof -
  obtain g where g: "session_globals s = Some g" using assms(1) by (auto simp: engine_hydrate_def)
  define g' where "g' = fold record_op (List.map_filter (effect_op ''convars'') es) g"
  have defs: "st_definitions st = st_definitions st0"
    using convar_hydrate_Some[OF g, of st0] assms(2) by (metis option.inject)
  have "synced g en st" using hydrate_synced[OF assms(1,2) g] .
  from script_synced[OF this _ assms(4)] have sy: "synced g' en' st'" and defs': "st_definitions st' = st_definitions st0"
    using assms(3) by (simp_all add: g'_def defs)
  have g1: "session_globals s' = Some g'" using recorded_globals[OF assms(5) g] by (simp add: g'_def)
  have limits: "en_max_depth en' = en_max_depth en0" "en_max_bytes en' = en_max_bytes en0"
    using script_budget[OF assms(4)] engine_hydrate_Some[OF g, of en0] assms(1) by (metis option.inject)+
  obtain en1 where e1: "engine_hydrate en0 s' = Some en1"
      "\<forall>k. fmlookup (en_binds en1) k = hydrated (fmlookup g' (bind_key k))"
      "\<forall>k. fmlookup (en_aliases en1) k = hydrated (fmlookup g' (alias_key k))"
      "en_max_depth en1 = en_max_depth en0" "en_max_bytes en1 = en_max_bytes en0"
    using engine_hydrate_Some[OF g1, of en0] .
  have "en_binds en1 = en_binds en'" "en_aliases en1 = en_aliases en'"
    using e1(2,3) sy by (auto simp: synced_def intro: fmap_ext)
  with e1 limits have "en1 = en'" by simp
  moreover obtain st1 where "convar_hydrate st0 s' = Some st1"
    "\<forall>n d. session_def (st_definitions st0) n d \<longrightarrow>
        fmlookup (st_values st1) n = Some (case fmlookup g' n of Some v \<Rightarrow> v | None \<Rightarrow> df_default d)"
    "st_cheats st1 = cheats_of (st_values st1)" "st_dirty st1 = {||}" "st_pending st1 = []"
    using convar_hydrate_Some[OF g1, of st0] .
  ultimately show ?thesis using e1(1) sy by (auto simp: synced_def defs')
qed

definition setup_result :: "command_engine \<times> convar_store \<times> unit \<times> (command_error, command_effect list) result" where
  "setup_result =
     execute_loaded sample_text no_loader ()
       (the (engine_hydrate (with_engine_limits 3 40) (empty_snapshot ''s'')))
       (the (convar_hydrate hooked_store (empty_snapshot ''s''))) ''f 1;alias q z''"

definition setup_effects :: "command_effect list" where
  "setup_effects = [ConVarUpdated ''f'' (TBool False) (TBool True) FLAG_SESSION, Aliased ''q'' ''z'']"

definition setup_ops :: "patch_op list" where
  "setup_ops = [SetAttribute ''convars'' ''f'' (TBool True), SetAttribute ''convars'' ''alias:q'' (TString ''z'')]"

lemma setup_succeeds: "snd (snd (snd setup_result)) = Inr setup_effects"
  by code_simp

lemma setup_patch:
  "command_effects_to_patch setup_effects (JournalOffset 0) (JournalOffset 1) ''host'' ''convars''
     = Some ((sample_patch setup_ops)\<lparr>reason := ''command effects''\<rparr>)"
proof -
  have "List.map_filter (effect_op ''convars'') setup_effects = setup_ops" by code_simp
  moreover have "setup_ops \<noteq> []" by (simp add: setup_ops_def)
  ultimately show ?thesis by (simp add: command_effects_to_patch_def sample_patch_def)
qed

lemma setup_recorded:
  "\<exists>s'. recorded_in (\<lambda>_. None) (empty_snapshot ''s'')
     (command_effects_to_patch setup_effects (JournalOffset 0) (JournalOffset 1) ''host'' ''convars'') s'"
proof -
  have "trim ''command effects'' = ''command effects''" by code_simp
  then have v: "validate (\<lambda>_. None) ((sample_patch setup_ops)\<lparr>reason := ''command effects''\<rparr>) = Inr ()"
    by (simp add: validate_Inr_iff patch_ok_def sample_patch_def less_journal_offset_def MAX_PATCH_OPS_def MAX_OP_TEXT_BYTES_def MAX_WIRE_BYTES_def setup_ops_def)
  show ?thesis
    unfolding recorded_in_def setup_patch apply_patch_def
    by (simp add: v[unfolded sample_patch_def setup_ops_def, simplified] setup_ops_def sample_patch_def edit_element_def require_def snap_node_def
        empty_snapshot_lookup ROOTS_mem fmlookup_modify_node)
qed


lemma setup_hydrates:
  "\<exists>en st. engine_hydrate (with_engine_limits 3 40) (empty_snapshot ''s'') = Some en
     \<and> convar_hydrate hooked_store (empty_snapshot ''s'') = Some st"
proof -
  obtain g where "session_globals (empty_snapshot ''s'') = Some g"
    by (simp add: session_globals_Some snap_element_def snap_node_def empty_snapshot_lookup ROOTS_mem)
  then show ?thesis by (simp add: engine_hydrate_def convar_hydrate_def)
qed

theorem settings_survive_restart_witness:
  "\<exists>s'. engine_hydrate (with_engine_limits 3 40) s' = Some (fst setup_result)"
proof -
  obtain en st where h: "engine_hydrate (with_engine_limits 3 40) (empty_snapshot ''s'') = Some en"
    "convar_hydrate hooked_store (empty_snapshot ''s'') = Some st"
    using setup_hydrates by blast
  have p: "plain_names (st_definitions hooked_store)" by code_simp
  obtain en' st' l' where r: "setup_result = (en', st', l', Inr setup_effects)"
    using setup_succeeds by (metis prod.collapse)
  obtain s' where s: "recorded_in (\<lambda>_. None) (empty_snapshot ''s'')
     (command_effects_to_patch setup_effects (JournalOffset 0) (JournalOffset 1) ''host'' ''convars'') s'"
    using setup_recorded by blast
  from settings_survive_restart[OF h p r[unfolded setup_result_def h option.sel] s] r show ?thesis by (metis fst_conv)
qed


section \<open>Values of the configuration variables\<close>

text \<open>
  The stores a host can reach from the built-in variables: every operation of the store, the
  scripts, and hydration from any document, which the host runs before every turn and command.
  A definition registered later has a new name.  The index is what the document of the last
  hydration says of the session (nothing, before the first).
\<close>

inductive store_reachable ::
  "text_env \<Rightarrow> 'l loader \<Rightarrow> (string, typed_value) fmap \<Rightarrow> convar_store \<Rightarrow> bool" for tx load where
  builtin: "store_reachable tx load fmempty (register_builtin_convars tx new_store)"
| fresh: "store_reachable tx load g st \<Longrightarrow> df_name d |\<notin>| fmdom (st_values st)
    \<Longrightarrow> store_reachable tx load g (register_def d st)"
| set_value: "store_reachable tx load g st \<Longrightarrow> store_reachable tx load g (fst (convar_set st n v))"
| set_text: "store_reachable tx load g st \<Longrightarrow> store_reachable tx load g (fst (set_from_str tx st n raw))"
| reset: "store_reachable tx load g st \<Longrightarrow> store_reachable tx load g (fst (convar_reset st n))"
| cheats: "store_reachable tx load g st \<Longrightarrow> store_reachable tx load g (set_cheats_enabled st b)"
| begins: "store_reachable tx load g st \<Longrightarrow> store_reachable tx load g (begin_transaction st)"
| commits: "store_reachable tx load g st \<Longrightarrow> store_reachable tx load g (commit_transaction st)"
| drains: "store_reachable tx load g st \<Longrightarrow> store_reachable tx load g (fst (drain_session_patch st b r a k))"
| seeds: "store_reachable tx load g st \<Longrightarrow> store_reachable tx load g (seed_child st)"
| hydrates: "store_reachable tx load g st \<Longrightarrow> session_globals s = Some g' \<Longrightarrow> convar_hydrate st s = Some st'
    \<Longrightarrow> store_reachable tx load g' st'"
| script: "store_reachable tx load g st \<Longrightarrow> execute_loaded tx load l en st src = (en', st', l', res)
    \<Longrightarrow> store_reachable tx load g st'"

lemma values_ok_new: "values_ok g new_store"
  by (simp add: values_ok_def new_store_def)

lemma values_ok_register:
  assumes "values_ok g st" "df_name d |\<notin>| fmdom (st_values st)"
  shows "values_ok g (register_def d st)"
  using assms by (auto simp: values_ok_def value_ok_def register_def_def fmdom_notD)

lemma values_ok_fields [simp]:
  "values_ok g (st\<lparr>st_ran := h\<rparr>) = values_ok g st" "values_ok g (set_cheats_enabled st b) = values_ok g st"
  "values_ok g (begin_transaction st) = values_ok g st" "values_ok g (commit_transaction st) = values_ok g st"
  "values_ok g (seed_child st) = values_ok g st" "values_ok g (fst (drain_session_patch st b' r a k)) = values_ok g st"
  by (simp_all add: values_ok_def set_cheats_enabled_def begin_transaction_def commit_transaction_def seed_child_def
      drain_session_patch_def)

lemma values_ok_set:
  assumes "values_ok g st"
  shows "values_ok g (fst (convar_set st n v))"
proof (cases "convar_set st n v")
  case (Pair st' q)
  show ?thesis
  proof (cases q)
    case (Inl e)
    with Pair have "st' = st"
      by (auto simp: convar_set_def split: sum.splits if_splits)
    with Pair assms show ?thesis by simp
  next
    case (Inr w)
    with Pair have "convar_set st n v = (st', Inr w)" by simp
    then show ?thesis
      by (rule convar_set_ok) (use assms Pair in \<open>auto intro: store_value_ok\<close>)
  qed
qed

lemma values_ok_set_text: "values_ok g st \<Longrightarrow> values_ok g (fst (set_from_str tx st n raw))"
  using values_ok_set by (auto simp: set_from_str_def split: sum.splits)

lemma values_ok_reset: "values_ok g st \<Longrightarrow> values_ok g (fst (convar_reset st n))"
  using values_ok_set by (auto simp: convar_reset_def split: sum.splits)

lemma values_ok_script:
  assumes "values_ok g st" "execute_loaded tx load l en st script = (en', st', l', res)"
  shows "values_ok g st'"
proof -
  have "checked g (st_definitions st) 0 (script_start en st l)"
    using assms(1) by (simp add: checked_def script_start_def) (simp add: begin_transaction_def)
  note keeps = validity.stream_keeps(1)[OF _ refl this]
  from assms(2) show ?thesis
    by (cases rule: execute_loaded_run) (use assms(1) in \<open>auto dest: keeps simp: checked_def\<close>)
qed

lemma values_ok_register_builtin: "values_ok g (register_builtin_convars tx new_store)"
proof -
  have distinct: "distinct (map df_name ds) \<Longrightarrow> (\<forall>d\<in>set ds. df_name d |\<notin>| fmdom (st_values st)) \<Longrightarrow> values_ok g st
      \<Longrightarrow> values_ok g (fold register_def ds st)" for ds st
  proof (induction ds arbitrary: st)
    case (Cons d ds)
    then have "values_ok g (register_def d st)" by (intro values_ok_register) auto
    moreover have "\<forall>x\<in>set ds. df_name x |\<notin>| fmdom (st_values (register_def d st))"
      using Cons.prems(1,2) by (auto simp: register_def_def) (metis image_eqI)+
    ultimately show ?case using Cons by simp
  qed simp
  have "distinct (map df_name (builtin_definitions tx))"
    by (simp add: builtin_definitions_def to_definition_def new_definition_def with_validator_def new_convar_def)
  then show ?thesis
    unfolding register_builtin_convars_def
    by (rule distinct[OF _ _ values_ok_new]) (simp add: new_store_def)
qed

text \<open>
  C29: In every reachable store a declared variable has a value, and that value is its declared
  default; or one of the declared type that passed the validator of its declaration, and then
  the variable is not read-only; or, for a variable of the session, exactly what the document of
  the last hydration gives it.  So no command, script or program assignment ever stores an
  unchecked value, and only hydration, which checks nothing, can.
\<close>

theorem convar_values_valid:
  assumes "store_reachable tx load g st" "fmlookup (st_definitions st) n = Some d"
  shows "\<exists>v. fmlookup (st_values st) n = Some v \<and>
    (v = df_default d \<or>
     \<not> flags_contains (df_flags d) FLAG_READONLY \<and> compatible (df_default d) v \<and>
     (case df_validator d of None \<Rightarrow> True | Some check \<Rightarrow> check v = Inr ()) \<or>
     flags_contains (df_flags d) FLAG_SESSION \<and> fmlookup g n = Some v)"
proof -
  have "values_ok g st" using assms(1)
    by (induction)
      (auto intro: values_ok_register_builtin values_ok_register values_ok_set values_ok_set_text values_ok_reset
        dest: values_ok_script values_ok_hydrate)
  then obtain v where v: "fmlookup (st_values st) n = Some v" "value_ok g n d v"
    using assms(2) unfolding values_ok_def by blast
  then show ?thesis unfolding value_ok_def by (cases "df_validator d") auto
qed

text \<open>The host's variables after hydration from a document that sets one of them, and an assignment.\<close>

definition windowed_document :: session_snapshot where
  "windowed_document = fst (apply_one (empty_snapshot ''s'') (SetAttribute ''convars'' ''ai_context_length'' (TInteger 8192)))"

lemma convar_set_definitions: "st_definitions (fst (convar_set st n v)) = st_definitions st"
proof (cases "snd (convar_set st n v)")
  case (Inl e)
  then have "fst (convar_set st n v) = st"
    unfolding convar_set_def
    by (cases "writable_def st n"; simp split: if_splits sum.splits)
  then show ?thesis by simp
next
  case (Inr w)
  then have "convar_set st n v = (fst (convar_set st n v), Inr w)" by (simp add: prod_eq_iff)
  from convar_set_ok[OF this] show ?thesis by (metis store_value_fields(1))
qed

theorem convar_values_valid_witness:
  "\<exists>g st. session_globals windowed_document = Some g \<and> fmlookup g ''ai_context_length'' = Some (TInteger 8192)
     \<and> convar_hydrate (register_builtin_convars sample_text new_store) windowed_document = Some st
     \<and> (\<exists>v. fmlookup (st_values (fst (convar_set st ''cl_theme'' (TString ''x'')))) ''ai_context_length'' = Some v)"
proof -
  obtain g where g: "session_globals windowed_document = Some g" "fmlookup g ''ai_context_length'' = Some (TInteger 8192)"
  proof -
    have "Option.bind (session_globals windowed_document) (\<lambda>g. fmlookup g ''ai_context_length'') = Some (TInteger 8192)" by code_simp
    with that show thesis by (cases "session_globals windowed_document") auto
  qed
  let ?b = "register_builtin_convars sample_text new_store"
  obtain st where st: "convar_hydrate ?b windowed_document = Some st" "st_definitions st = st_definitions ?b"
    using convar_hydrate_Some[OF g(1), of ?b] by metis
  have "fmlookup (st_definitions ?b) ''ai_context_length'' \<noteq> None" by code_simp
  then obtain d where "fmlookup (st_definitions (fst (convar_set st ''cl_theme'' (TString ''x'')))) ''ai_context_length'' = Some d"
    using st(2) by (auto simp: convar_set_definitions)
  from convar_values_valid[OF set_value[OF hydrates[OF builtin[of sample_text no_loader] g(1) st(1)]] this] g st(1)
  show ?thesis by blast
qed

text \<open>
  \<open>sv_cheats\<close> is declared as a boolean, so a number is refused before the branch that would
  normalise it.
\<close>

lemma cheats_number_refused:
  "snd (convar_set (register_builtin_convars sample_text new_store) ''sv_cheats'' (TInteger 1))
     = Inl (CvInvalidValue ''sv_cheats'' ''value does not match the declared type'')"
  by code_simp

end
