(* ===== verification/Inference.thy ===== *)
theory Inference
  imports ConVar
begin

text \<open>
  The inference vocabulary of crate \<open>omp-inference\<close>: provider capabilities
  (\<open>capability.rs\<close>), semantic messages and the request a turn sends (\<open>request.rs\<close>), and the
  escalation of a forced tool call (\<open>tool_force.rs\<close>).  A \<open>u32\<close> or \<open>usize\<close> is a natural number;
  the only arithmetic on them is the attempt counter, which wraps as a release build does.
\<close>

section \<open>Capabilities\<close>

datatype capability_state = Supported | Unsupported | CapUnknown

fun to_opt_bool :: "capability_state \<Rightarrow> bool option" where
  "to_opt_bool Supported = Some True"
| "to_opt_bool Unsupported = Some False"
| "to_opt_bool CapUnknown = None"

fun show_capability_state :: "capability_state \<Rightarrow> string" where
  "show_capability_state Supported = ''supported''"
| "show_capability_state Unsupported = ''unsupported''"
| "show_capability_state CapUnknown = ''unknown''"

definition capability_state_of_str :: "text_env \<Rightarrow> string \<Rightarrow> (string, capability_state) result" where
  "capability_state_of_str tx s =
     (let w = tx_lower tx (trim s) in
      if w \<in> set [''supported'', ''true'', ''yes'', ''1''] then Inr Supported
      else if w \<in> set [''unsupported'', ''false'', ''no'', ''0''] then Inr Unsupported
      else if w \<in> set [''unknown'', ''unverified'', ''?''] then Inr CapUnknown
      else Inl (''invalid TriState value: '' @ quoted w))"

datatype provider_capability =
    AuthRefresh | Streaming | SimpleStreaming | TokenCount | UsageQuery | ModelDiscovery | Embeddings
  | ImageVideoGeneration | Search | RemoteCompaction | ConstrainedSampling | NativeToolChoice
  | DeveloperRole | MidSessionSystemPrompts | DialectParsing

definition all_capabilities :: "provider_capability list" where
  "all_capabilities =
     [AuthRefresh, Streaming, SimpleStreaming, TokenCount, UsageQuery, ModelDiscovery, Embeddings,
      ImageVideoGeneration, Search, RemoteCompaction, ConstrainedSampling, NativeToolChoice,
      DeveloperRole, MidSessionSystemPrompts, DialectParsing]"

fun capability_str :: "provider_capability \<Rightarrow> string" where
  "capability_str AuthRefresh = ''auth_refresh''"
| "capability_str Streaming = ''streaming''"
| "capability_str SimpleStreaming = ''simple_streaming''"
| "capability_str TokenCount = ''token_count''"
| "capability_str UsageQuery = ''usage_query''"
| "capability_str ModelDiscovery = ''model_discovery''"
| "capability_str Embeddings = ''embeddings''"
| "capability_str ImageVideoGeneration = ''image_video_generation''"
| "capability_str Search = ''search''"
| "capability_str RemoteCompaction = ''remote_compaction''"
| "capability_str ConstrainedSampling = ''constrained_sampling''"
| "capability_str NativeToolChoice = ''native_tool_choice''"
| "capability_str DeveloperRole = ''developer_role''"
| "capability_str MidSessionSystemPrompts = ''mid_session_system_prompts''"
| "capability_str DialectParsing = ''dialect_parsing''"

definition capability_of_str :: "text_env \<Rightarrow> string \<Rightarrow> (string, provider_capability) result" where
  "capability_of_str tx s =
     (let w = map (\<lambda>c. if c = CHR ''-'' then CHR ''_'' else c) (tx_lower tx (trim s)) in
      ok_or (''unknown provider capability: '' @ quoted w)
        (find (\<lambda>c. capability_str c = w) all_capabilities))"

datatype native_tool_cost = CostFree | Costly | CostUnknown

record capability_profile =
  cp_capabilities :: "(provider_capability, capability_state) fmap"
  cp_native_tool_cost :: native_tool_cost

definition new_profile :: capability_profile where
  "new_profile =
     \<lparr>cp_capabilities = fmap_of_list (map (\<lambda>c. (c, CapUnknown)) all_capabilities),
      cp_native_tool_cost = CostUnknown\<rparr>"

definition profile_get :: "capability_profile \<Rightarrow> provider_capability \<Rightarrow> capability_state" where
  "profile_get p c = (case fmlookup (cp_capabilities p) c of Some s \<Rightarrow> s | None \<Rightarrow> CapUnknown)"

definition profile_set :: "capability_profile \<Rightarrow> provider_capability \<Rightarrow> capability_state \<Rightarrow> capability_profile" where
  "profile_set p c s = p\<lparr>cp_capabilities := fmupd c s (cp_capabilities p)\<rparr>"

definition supports :: "capability_profile \<Rightarrow> provider_capability \<Rightarrow> bool" where
  "supports p c \<longleftrightarrow> profile_get p c = Supported"

definition profile_unsupported :: "capability_profile \<Rightarrow> provider_capability \<Rightarrow> bool" where
  "profile_unsupported p c \<longleftrightarrow> profile_get p c = Unsupported"

definition profile_unknown :: "capability_profile \<Rightarrow> provider_capability \<Rightarrow> bool" where
  "profile_unknown p c \<longleftrightarrow> profile_get p c = CapUnknown"

lemma capability_roundtrip:
  "find (\<lambda>c. capability_str c = capability_str x) all_capabilities = Some x"
  by (cases x) (simp_all add: all_capabilities_def)

section \<open>Messages and requests\<close>

datatype message_role = RoleSystem | RoleDeveloper | RoleUser | RoleAssistant | RoleTool

fun message_role_str :: "message_role \<Rightarrow> string" where
  "message_role_str RoleSystem = ''system''"
| "message_role_str RoleDeveloper = ''developer''"
| "message_role_str RoleUser = ''user''"
| "message_role_str RoleAssistant = ''assistant''"
| "message_role_str RoleTool = ''tool''"

datatype content_part =
    PartText string
  | PartImage string string
  | PartArtifact artifact_id "(nat \<times> nat) option"

datatype message_content = ContentText string | ContentParts "content_part list"

definition unsupported_part :: "string \<Rightarrow> structured_error" where
  "unsupported_part m = new_error ''unsupported_content_part'' m False"

fun parts_text :: "content_part list \<Rightarrow> string \<Rightarrow> (structured_error, string) result" where
  "parts_text [] acc = Inr acc"
| "parts_text (PartText t # ps) acc = parts_text ps ((if acc = [] then acc else acc @ [CHR 0x0A]) @ t)"
| "parts_text (PartImage _ _ # ps) acc =
     Inl (unsupported_part ''Image content parts require a multimodal-capable wire format and cannot be flattened to text'')"
| "parts_text (PartArtifact _ _ # ps) acc =
     Inl (unsupported_part ''ArtifactRef content parts must be resolved to text before request translation'')"

fun content_text :: "message_content \<Rightarrow> (structured_error, string) result" where
  "content_text (ContentText s) = Inr s"
| "content_text (ContentParts ps) = parts_text ps []"

record tool_call_spec =
  tc_id :: tool_call_id
  tc_name :: string
  tc_arguments :: json

record semantic_message =
  msg_role :: message_role
  msg_content :: message_content
  msg_tool_calls :: "tool_call_spec list"
  msg_tool_call_id :: "tool_call_id option"
  msg_name :: "string option"

definition plain_message :: "message_role \<Rightarrow> string \<Rightarrow> semantic_message" where
  "plain_message r text =
     \<lparr>msg_role = r, msg_content = ContentText text, msg_tool_calls = [], msg_tool_call_id = None, msg_name = None\<rparr>"

definition user_message :: "string \<Rightarrow> semantic_message" where "user_message = plain_message RoleUser"
definition assistant_message :: "string \<Rightarrow> semantic_message" where "assistant_message = plain_message RoleAssistant"
definition system_message :: "string \<Rightarrow> semantic_message" where "system_message = plain_message RoleSystem"

definition tool_result_message :: "tool_call_id \<Rightarrow> string \<Rightarrow> semantic_message" where
  "tool_result_message i text = (plain_message RoleTool text)\<lparr>msg_tool_call_id := Some i\<rparr>"

datatype message_fold =
    Handoff string nat nat
  | Shake nat nat
  | RemoteState string nat

record tool_schema =
  ts_name :: string
  ts_description :: string
  ts_parameters :: json

datatype thinking_mode =
    ThinkingNone | ThinkingDisabled | ThinkingAuto | ThinkingEnabled "nat option" | ThinkingAdaptive | ThinkingEffort string

datatype tool_choice = ChoiceNone | ChoiceAuto | ChoiceRequired | ChoiceForced string

type_synonym f32 = "32 word"

record sampling_params =
  sp_temperature :: "f32 option"
  sp_top_p :: "f32 option"
  sp_max_tokens :: "nat option"
  sp_stop :: "string list"

definition default_sampling :: sampling_params where
  "default_sampling = \<lparr>sp_temperature = Some 0x3F333333, sp_top_p = None, sp_max_tokens = None, sp_stop = []\<rparr>"

record grammar_spec =
  gr_kind :: string
  gr_definition :: string

datatype compaction_strategy = StrategyHandoff | StrategyShake | StrategyRemote

record compaction_policy =
  cpo_threshold :: nat
  cpo_strategy :: compaction_strategy

definition default_compaction :: compaction_policy where
  "default_compaction = \<lparr>cpo_threshold = 100000, cpo_strategy = StrategyHandoff\<rparr>"

record inference_request =
  ir_messages :: "semantic_message list"
  ir_folds :: "message_fold list"
  ir_tools :: "tool_schema list"
  ir_thinking :: thinking_mode
  ir_tool_choice :: tool_choice
  ir_strict :: bool
  ir_grammar :: "grammar_spec option"
  ir_sampling :: sampling_params
  ir_usage :: bool
  ir_compaction :: compaction_policy

definition new_request :: inference_request where
  "new_request =
     \<lparr>ir_messages = [], ir_folds = [], ir_tools = [], ir_thinking = ThinkingNone, ir_tool_choice = ChoiceAuto,
      ir_strict = False, ir_grammar = None, ir_sampling = default_sampling, ir_usage = True,
      ir_compaction = default_compaction\<rparr>"

section \<open>Forcing a tool\<close>

definition wrap_u32 :: "nat \<Rightarrow> nat" where
  "wrap_u32 n = n mod 2 ^ 32"

datatype tool_force_action =
    SoftInstructionOnly string nat
  | NativeForceFree string
  | NativeForceEscalated string nat

datatype tool_force_outcome =
    Satisfied string nat
  | RetryRequired string nat nat bool

record tool_force_policy =
  tf_tool :: string
  tf_max :: nat
  tf_current :: nat
  tf_escalated :: bool
  tf_reminder :: "string option"

definition new_policy :: "string \<Rightarrow> tool_force_policy" where
  "new_policy tool = \<lparr>tf_tool = tool, tf_max = 3, tf_current = 0, tf_escalated = False, tf_reminder = None\<rparr>"

definition policy_with_max :: "tool_force_policy \<Rightarrow> nat \<Rightarrow> tool_force_policy" where
  "policy_with_max p m = p\<lparr>tf_max := max m 1\<rparr>"

definition policy_with_reminder :: "tool_force_policy \<Rightarrow> string \<Rightarrow> tool_force_policy" where
  "policy_with_reminder p r = p\<lparr>tf_reminder := Some r\<rparr>"

text \<open>A \<open>json!\<close> object lists its keys in order.\<close>

definition json_nat :: "nat \<Rightarrow> json" where
  "json_nat n = JNumber (PosInt (word_of_nat n))"

definition exhausted :: "tool_force_policy \<Rightarrow> string \<Rightarrow> (string \<times> json) list \<Rightarrow> structured_error" where
  "exhausted p m extra =
     (new_error ''exhausted_tool_requirement'' m False)\<lparr>err_diagnostics := Some (JObject
        ([(''attempts'', json_nat (tf_current p)), (''escalated'', JBool (tf_escalated p)),
          (''max_attempts'', json_nat (tf_max p)), (''tool'', JString (tf_tool p))] @ extra))\<rparr>"

definition force_directive :: "tool_force_policy \<Rightarrow> semantic_message" where
  "force_directive p =
     (plain_message RoleUser
        (case tf_reminder p of
           Some r \<Rightarrow> ''[Directive: You MUST call tool '' @ quoted (tf_tool p) @ '' next. Instruction: '' @ r @ '']''
         | None \<Rightarrow> ''[Directive: You MUST call tool '' @ quoted (tf_tool p)
                     @ '' with valid parameters in your next response.]''))
       \<lparr>msg_name := Some ''tool_force_directive''\<rparr>"

definition policy_prepare ::
  "tool_force_policy \<Rightarrow> inference_request \<Rightarrow> capability_profile
   \<Rightarrow> tool_force_policy \<times> inference_request \<times> (structured_error, tool_force_action) result" where
  "policy_prepare p req caps =
     (if tf_max p \<le> tf_current p
      then (p, req, Inl (exhausted p (''Forced tool requirement for '' @ quoted (tf_tool p) @ '' exhausted after ''
             @ show_nat (tf_max p) @ '' attempts'') []))
      else
        let req1 = req\<lparr>ir_messages := ir_messages req @ [force_directive p]\<rparr> in
        if \<not> supports caps NativeToolChoice
        then (p, req1\<lparr>ir_tool_choice := ChoiceAuto\<rparr>, Inr (SoftInstructionOnly (tf_tool p) (tf_current p)))
        else if cp_native_tool_cost caps = CostFree
        then (p, req1\<lparr>ir_tool_choice := ChoiceForced (tf_tool p)\<rparr>, Inr (NativeForceFree (tf_tool p)))
        else if tf_current p = 0
        then (p, req1\<lparr>ir_tool_choice := ChoiceAuto\<rparr>, Inr (SoftInstructionOnly (tf_tool p) 0))
        else (p\<lparr>tf_escalated := True\<rparr>, req1\<lparr>ir_tool_choice := ChoiceForced (tf_tool p)\<rparr>,
              Inr (NativeForceEscalated (tf_tool p) (tf_current p))))"

definition policy_record ::
  "tool_force_policy \<Rightarrow> string list \<Rightarrow> tool_force_policy \<times> (structured_error, tool_force_outcome) result" where
  "policy_record p called =
     (if tf_tool p \<in> set called then (p, Inr (Satisfied (tf_tool p) (wrap_u32 (tf_current p + 1))))
      else
        let p1 = p\<lparr>tf_current := wrap_u32 (tf_current p + 1)\<rparr> in
        if tf_max p1 \<le> tf_current p1
        then (p1, Inl (exhausted p1 (''Model failed to invoke required tool '' @ quoted (tf_tool p) @ '' within ''
               @ show_nat (tf_max p) @ '' attempts'')
               [(''tools_actually_called'', JArray (map JString called))]))
        else (p1, Inr (RetryRequired (tf_tool p) (tf_current p1) (tf_max p1) True)))"

end
