(* ===== verification/Summary.thy ===== *)
theory Summary
  imports Inference
begin

text \<open>
  The durable form of context compaction: the nodes of the summary graph (\<open>summary.rs\<close> of crate
  \<open>omp-types\<close>), the token estimate and the budget (\<open>compaction.rs\<close> of crate \<open>omp-inference\<close>).
\<close>

section \<open>Nodes\<close>

definition SUMMARIES_CONTAINER :: string where "SUMMARIES_CONTAINER = ''summaries''"
definition SUMMARY_NODE_KIND :: string where "SUMMARY_NODE_KIND = ''summary_node''"
definition SUMMARY_KIND_ATTRIBUTE :: string where "SUMMARY_KIND_ATTRIBUTE = ''node_kind''"

datatype summary_kind = Leaf | Condensed

fun summary_kind_str :: "summary_kind \<Rightarrow> string" where
  "summary_kind_str Leaf = ''leaf''"
| "summary_kind_str Condensed = ''condensed''"

definition parse_summary_kind :: "string \<Rightarrow> summary_kind option" where
  "parse_summary_kind s = (if s = ''leaf'' then Some Leaf else if s = ''condensed'' then Some Condensed else None)"

text \<open>Token counts and offsets are \<open>u64\<close>; they are natural numbers here and 64 bits wide in JSON.\<close>

record summary_node =
  sm_covered :: "element_id list"
  sm_children :: "element_id list"
  sm_tokens :: nat
  sm_offset :: nat

definition default_summary :: summary_node where
  "default_summary = \<lparr>sm_covered = [], sm_children = [], sm_tokens = 0, sm_offset = 0\<rparr>"

definition summary_encode :: "summary_node \<Rightarrow> json" where
  "summary_encode n = JObject
     [(''children'', JArray (map JString (sm_children n))),
      (''covered'', JArray (map JString (sm_covered n))),
      (''covered_tokens'', json_nat (sm_tokens n)),
      (''created_offset'', json_nat (sm_offset n))]"

text \<open>\<open>entry_ids what\<close> reads an array of identifiers.\<close>

fun entry_ids :: "string \<Rightarrow> json list \<Rightarrow> (string, element_id list) result" where
  "entry_ids what [] = Inr []"
| "entry_ids what (JString s # js) =
     try_bind (map_err err_message (new_id s)) (\<lambda>i. try_bind (entry_ids what js) (\<lambda>ids. Inr (i # ids)))"
| "entry_ids what (_ # js) = Inl (what @ '' entries must be strings'')"

definition array_field :: "(string \<times> json) list \<Rightarrow> string \<Rightarrow> json list option" where
  "array_field kvs key = (case map_of kvs key of Some (JArray js) \<Rightarrow> Some js | _ \<Rightarrow> None)"

definition u64_field :: "(string \<times> json) list \<Rightarrow> string \<Rightarrow> nat" where
  "u64_field kvs key = (case map_of kvs key of Some (JNumber (PosInt w)) \<Rightarrow> unat w | _ \<Rightarrow> 0)"

definition summary_decode :: "json \<Rightarrow> (string, summary_node) result" where
  "summary_decode j =
     (case j of
        JObject kvs \<Rightarrow>
          (case find (\<lambda>(k, _). k \<notin> set [''covered'', ''children'', ''covered_tokens'', ''created_offset'']) kvs of
             Some (k, _) \<Rightarrow> Inl (''unknown summary node field: '' @ k)
           | None \<Rightarrow>
               try_bind (ok_or ''summary node payload requires a covered array'' (array_field kvs ''covered'')) (\<lambda>cs.
               try_bind (entry_ids ''covered'' cs) (\<lambda>cov.
               try_bind (entry_ids ''children'' (case array_field kvs ''children'' of Some js \<Rightarrow> js | None \<Rightarrow> []))
                 (\<lambda>ch. Inr \<lparr>sm_covered = cov, sm_children = ch, sm_tokens = u64_field kvs ''covered_tokens'',
                            sm_offset = u64_field kvs ''created_offset''\<rparr>))))
      | _ \<Rightarrow> Inl ''summary node payload must be an object'')"

definition summary_of_element :: "element_snapshot \<Rightarrow> (string, summary_node) result" where
  "summary_of_element e =
     (if el_kind e \<noteq> SUMMARY_NODE_KIND
      then Inl (''element '' @ el_id e @ '' is a '' @ el_kind e @ '', not a '' @ SUMMARY_NODE_KIND)
      else try_bind (ok_or (''summary node '' @ el_id e @ '' carries no payload'') (el_payload e)) summary_decode)"

definition summary_element :: "summary_node \<Rightarrow> element_id \<Rightarrow> summary_kind \<Rightarrow> string \<Rightarrow> element_snapshot" where
  "summary_element n i kind txt =
     (new_element i SUMMARY_NODE_KIND)
       \<lparr>attributes := fmap_of_list
          [(SUMMARY_KIND_ATTRIBUTE, TString (summary_kind_str kind)),
           (''covered_count'', TInteger (word_of_nat (length (sm_covered n)))),
           (''covered_tokens'', TInteger (word_of_nat (sm_tokens n))),
           (''created_offset'', TInteger (word_of_nat (sm_offset n)))],
        el_text := txt, el_payload := Some (summary_encode n)\<rparr>"

definition summary_kind_of :: "element_snapshot \<Rightarrow> summary_kind option" where
  "summary_kind_of e =
     (case fmlookup (attributes e) SUMMARY_KIND_ATTRIBUTE of
        Some (TString s) \<Rightarrow> parse_summary_kind s
      | _ \<Rightarrow> None)"

definition add_new :: "'a list \<Rightarrow> 'a list \<Rightarrow> 'a list" where
  "add_new acc xs = fold (\<lambda>x acc. if x \<in> set acc then acc else acc @ [x]) xs acc"

lemma visiting_decreases:
  assumes "i \<notin> set visited" "fmlookup nodes i = Some n"
  shows "card (fset (fmdom nodes) - insert i (set visited)) < card (fset (fmdom nodes) - set visited)"
proof (rule psubset_card_mono)
  have "i \<in> fset (fmdom nodes)" using assms(2) by (simp add: fmdomI)
  then show "fset (fmdom nodes) - insert i (set visited) \<subset> fset (fmdom nodes) - set visited"
    using assms(1) by blast
qed simp

lemma visiting_not_increases:
  "card (fset (fmdom nodes) - insert i (set visited)) \<le> card (fset (fmdom nodes) - set visited)"
  by (rule card_mono) auto

text \<open>Breadth first; \<open>acc\<close> is both the expansion and the set \<open>seen\<close>.\<close>

function expand_loop ::
  "(element_id, summary_node) fmap \<Rightarrow> element_id list \<Rightarrow> element_id list \<Rightarrow> element_id list \<Rightarrow> element_id list" where
  "expand_loop nodes visited acc [] = acc"
| "expand_loop nodes visited acc (i # queue) =
     (if i \<in> set visited then expand_loop nodes visited acc queue
      else (case fmlookup nodes i of
          None \<Rightarrow> expand_loop nodes (i # visited) acc queue
        | Some n \<Rightarrow>
            expand_loop nodes (i # visited) (add_new acc (sm_covered n)) (queue @ sm_children n)))"
  by pat_completeness auto
termination
proof (relation "measures [\<lambda>(nodes, visited, _, _). card (fset (fmdom nodes) - set visited), \<lambda>(_, _, _, queue). length queue]",
    goal_cases)
  case (3 nodes visited acc i queue)
  then show ?case using visiting_not_increases[of nodes i visited] by (auto simp: le_less)
next
  case (4 nodes visited acc i queue n)
  then show ?case using visiting_decreases[of i visited nodes n] by simp
qed auto

definition expand_covered :: "(element_id, summary_node) fmap \<Rightarrow> element_id \<Rightarrow> element_id list" where
  "expand_covered nodes root = expand_loop nodes [] [] [root]"

section \<open>Tokens and the budget\<close>

definition is_continuation :: "char \<Rightarrow> bool" where
  "is_continuation c \<longleftrightarrow> 128 \<le> byte_of c \<and> byte_of c < 192"

definition ascii_bytes :: "string \<Rightarrow> nat" where
  "ascii_bytes s = length (filter (\<lambda>c. byte_of c < 128) s)"

definition wide_chars :: "string \<Rightarrow> nat" where
  "wide_chars s = length (filter (\<lambda>c. 192 \<le> byte_of c) s)"

definition estimate_tokens :: "string \<Rightarrow> nat" where
  "estimate_tokens s = (ascii_bytes s + 3) div 4 + wide_chars s * 2"

record compaction_budget =
  bu_soft :: nat
  bu_hard :: nat

text \<open>A finite number is \<open>sig * 2 ^ e\<close>.\<close>

definition f64_parts :: "f64 \<Rightarrow> nat \<times> int" where
  "f64_parts b =
     (let e = unat (drop_bit 52 b AND 2047); m = unat (b AND 0xFFFFFFFFFFFFF)
      in (if e = 0 then m else m + 2 ^ 52, int (max e 1) - 1075))"

definition f64_mul :: "f64 \<Rightarrow> f64 \<Rightarrow> f64" where
  "f64_mul a b =
     (let (sa, ea) = f64_parts a; (sb, eb) = f64_parts b; e = ea + eb; neg = (bit a 63 \<noteq> bit b 63)
      in if 0 \<le> e then round_f64 neg (sa * sb * 2 ^ nat e) 1 else round_f64 neg (sa * sb) (2 ^ nat (- e)))"

definition f64_floor_nat :: "f64 \<Rightarrow> nat" where
  "f64_floor_nat b = (let (sig, e) = f64_parts b in if 0 \<le> e then sig * 2 ^ nat e else sig div 2 ^ nat (- e))"

definition derive_budget :: "nat \<Rightarrow> f64 \<Rightarrow> nat \<Rightarrow> compaction_budget option" where
  "derive_budget window threshold reserve =
     (if window = 0 \<or> window \<le> reserve then None
      else if window - reserve < window div 4 then None
      else
        let ratio = (if f64_is_finite threshold
              then (if f64_le threshold 0x3FB999999999999A then 0x3FB999999999999A
                    else if f64_le 0x3FF0000000000000 threshold then 0x3FF0000000000000 else threshold)
              else 0x3FE999999999999A);
            hard = window - reserve;
            soft = max 1 (f64_floor_nat (f64_mul (round_f64 False window 1) ratio))
        in Some \<lparr>bu_soft = max (min soft hard) 1, bu_hard = hard\<rparr>)"

definition target_tokens :: "compaction_budget \<Rightarrow> nat" where
  "target_tokens b = max (bu_soft b div 2) 1"

definition should_trigger :: "compaction_budget \<Rightarrow> nat \<Rightarrow> bool" where
  "should_trigger b projected \<longleftrightarrow> bu_soft b \<le> projected"

definition exceeds_hard_bound :: "compaction_budget \<Rightarrow> nat \<Rightarrow> bool" where
  "exceeds_hard_bound b projected \<longleftrightarrow> bu_hard b < projected"

end
