(* ===== verification/Director.thy ===== *)
theory Director
  imports Summary Command
begin

text \<open>
  The directors of crate \<open>omp-control\<close> (\<open>director.rs\<close>, \<open>agent_loop.rs\<close>): the four built-in
  policies, their durable form as a \<open>DirectorSpec\<close>, the stack that prepares a request from the
  outside in and decides a candidate yield from the inside out, and the action the host loop
  takes.  The trait object \<open>dyn Director\<close> is the sum of the built-in directors, the only
  implementations outside tests.  Lower-casing and the Unicode class of alphanumeric characters
  are arguments (\<open>tx_lower\<close>, \<open>alnum\<close> on the UTF-8 bytes of one character).
\<close>

section \<open>Views, specs and decisions\<close>

record tool_call_info =
  ti_id :: tool_call_id
  ti_name :: string
  ti_arguments :: json

record agent_view =
  av_actor :: actor_id
  av_session :: session_id
  av_model :: string
  av_tools :: "string list"
  av_workspace :: "string option"
  av_todos :: "string list"

record turn_view =
  tv_index :: nat
  tv_text :: "string option"
  tv_calls :: "tool_call_info list"
  tv_executed :: "tool_call_info list"
  tv_finish :: "string option"

record director_spec =
  ds_id :: director_id
  ds_kind :: string
  ds_state :: json
  ds_element :: "element_id option"

datatype yield_decision =
    Pass
  | Continue "string option"
  | YieldTurn
  | Push director_spec
  | Done
  | FailWith structured_error

section \<open>Reading a JSON state\<close>

definition json_get :: "json \<Rightarrow> string \<Rightarrow> json option" where
  "json_get j key = (case j of JObject kvs \<Rightarrow> map_of kvs key | _ \<Rightarrow> None)"

definition json_str :: "json \<Rightarrow> string option" where
  "json_str j = (case j of JString s \<Rightarrow> Some s | _ \<Rightarrow> None)"

definition json_bool :: "json \<Rightarrow> bool option" where
  "json_bool j = (case j of JBool b \<Rightarrow> Some b | _ \<Rightarrow> None)"

definition json_u64 :: "json \<Rightarrow> nat option" where
  "json_u64 j = (case j of JNumber (PosInt w) \<Rightarrow> Some (unat w) | _ \<Rightarrow> None)"

fun json_strings :: "json list \<Rightarrow> string list option" where
  "json_strings [] = Some []"
| "json_strings (JString s # js) = map_option (\<lambda>ss. s # ss) (json_strings js)"
| "json_strings (_ # js) = None"

definition json_string_list :: "json \<Rightarrow> string list option" where
  "json_string_list j = (case j of JArray js \<Rightarrow> json_strings js | _ \<Rightarrow> None)"

definition get_str :: "json \<Rightarrow> string \<Rightarrow> string option" where
  "get_str j key = Option.bind (json_get j key) json_str"

definition get_flag :: "json \<Rightarrow> string \<Rightarrow> bool" where
  "get_flag j key = (case Option.bind (json_get j key) json_bool of Some b \<Rightarrow> b | None \<Rightarrow> False)"

text \<open>\<open>as_u64().unwrap_or(d) as u32\<close> keeps the low 32 bits.\<close>

definition get_u32 :: "json \<Rightarrow> string \<Rightarrow> nat \<Rightarrow> nat" where
  "get_u32 j key d = wrap_u32 (case Option.bind (json_get j key) json_u64 of Some n \<Rightarrow> n | None \<Rightarrow> d)"

definition str_or_empty :: "string option \<Rightarrow> string" where
  "str_or_empty x = (case x of Some s \<Rightarrow> s | None \<Rightarrow> [])"

section \<open>The built-in directors\<close>

datatype failure_behavior = BehaveFail | YieldWithWarning

record force_tool =
  ft_id :: director_id
  ft_tool :: string
  ft_predicate :: "string option"
  ft_reminder :: string
  ft_attempts :: nat
  ft_max :: nat
  ft_behavior :: failure_behavior

record todo_reminder =
  td_id :: director_id
  td_todos :: "string list"
  td_reminded :: bool

record plan_mode =
  pm_id :: director_id
  pm_path :: string
  pm_inspected :: bool
  pm_proposed :: bool
  pm_asked :: bool

record goal_completion =
  gc_id :: director_id
  gc_goal :: string
  gc_completed :: bool

datatype director =
    ForceTool force_tool
  | TodoReminder todo_reminder
  | PlanMode plan_mode
  | GoalCompletion goal_completion

definition new_force_tool :: "director_id \<Rightarrow> string \<Rightarrow> string \<Rightarrow> nat \<Rightarrow> force_tool" where
  "new_force_tool i tool reminder m =
     \<lparr>ft_id = i, ft_tool = tool, ft_predicate = None, ft_reminder = reminder, ft_attempts = 0, ft_max = max m 1,
      ft_behavior = BehaveFail\<rparr>"

definition force_with_predicate :: "force_tool \<Rightarrow> string \<Rightarrow> force_tool" where
  "force_with_predicate f p = f\<lparr>ft_predicate := Some p\<rparr>"

definition force_with_behavior :: "force_tool \<Rightarrow> failure_behavior \<Rightarrow> force_tool" where
  "force_with_behavior f b = f\<lparr>ft_behavior := b\<rparr>"

definition new_todo_reminder :: "director_id \<Rightarrow> string list \<Rightarrow> todo_reminder" where
  "new_todo_reminder i todos = \<lparr>td_id = i, td_todos = todos, td_reminded = False\<rparr>"

definition new_plan_mode :: "director_id \<Rightarrow> string \<Rightarrow> plan_mode" where
  "new_plan_mode i path = \<lparr>pm_id = i, pm_path = path, pm_inspected = False, pm_proposed = False, pm_asked = False\<rparr>"

definition mark_plan_inspected :: "plan_mode \<Rightarrow> plan_mode" where "mark_plan_inspected p = p\<lparr>pm_inspected := True\<rparr>"
definition mark_plan_proposed :: "plan_mode \<Rightarrow> plan_mode" where "mark_plan_proposed p = p\<lparr>pm_proposed := True\<rparr>"
definition mark_question_asked :: "plan_mode \<Rightarrow> plan_mode" where "mark_question_asked p = p\<lparr>pm_asked := True\<rparr>"

definition new_goal :: "director_id \<Rightarrow> string \<Rightarrow> goal_completion" where
  "new_goal i goal = \<lparr>gc_id = i, gc_goal = goal, gc_completed = False\<rparr>"

definition mark_completed :: "goal_completion \<Rightarrow> goal_completion" where "mark_completed g = g\<lparr>gc_completed := True\<rparr>"

section \<open>Durable form\<close>

text \<open>
  The derived encoding of \<open>ForceToolFailureBehavior\<close>: a unit variant is its name; decoding also
  takes an object with that one key and a null.
\<close>

definition behavior_json :: "failure_behavior \<Rightarrow> json" where
  "behavior_json b = JString (case b of BehaveFail \<Rightarrow> ''Fail'' | YieldWithWarning \<Rightarrow> ''YieldWithWarning'')"

definition behavior_of_name :: "string \<Rightarrow> failure_behavior option" where
  "behavior_of_name s =
     (if s = ''Fail'' then Some BehaveFail else if s = ''YieldWithWarning'' then Some YieldWithWarning else None)"

definition behavior_of_json :: "json \<Rightarrow> failure_behavior option" where
  "behavior_of_json j =
     (case j of
        JString s \<Rightarrow> behavior_of_name s
      | JObject kvs \<Rightarrow> (case kvs of [(k, v)] \<Rightarrow> if v = JNull then behavior_of_name k else None | _ \<Rightarrow> None)
      | _ \<Rightarrow> None)"

fun director_id_of :: "director \<Rightarrow> director_id" where
  "director_id_of (ForceTool f) = ft_id f"
| "director_id_of (TodoReminder t) = td_id t"
| "director_id_of (PlanMode p) = pm_id p"
| "director_id_of (GoalCompletion g) = gc_id g"

fun director_kind :: "director \<Rightarrow> string" where
  "director_kind (ForceTool _) = ''ForceTool''"
| "director_kind (TodoReminder _) = ''TodoReminder''"
| "director_kind (PlanMode _) = ''PlanMode''"
| "director_kind (GoalCompletion _) = ''GoalCompletion''"

definition force_state :: "force_tool \<Rightarrow> json" where
  "force_state f = JObject
     [(''attempt_count'', json_nat (ft_attempts f)), (''failure_behavior'', behavior_json (ft_behavior f)),
      (''max_attempts'', json_nat (ft_max f)), (''reminder'', JString (ft_reminder f)),
      (''tool'', JString (ft_tool f)),
      (''until_predicate_id'', case ft_predicate f of Some p \<Rightarrow> JString p | None \<Rightarrow> JNull)]"

definition todo_state :: "todo_reminder \<Rightarrow> json" where
  "todo_state t = JObject
     [(''pending_todos'', JArray (map JString (td_todos t))), (''reminded'', JBool (td_reminded t))]"

definition plan_state :: "plan_mode \<Rightarrow> json" where
  "plan_state p = JObject
     [(''plan_file_inspected'', JBool (pm_inspected p)), (''plan_path'', JString (pm_path p)),
      (''proposed_plan'', JBool (pm_proposed p)), (''user_question_asked'', JBool (pm_asked p))]"

definition goal_state :: "goal_completion \<Rightarrow> json" where
  "goal_state g = JObject
     [(''completed'', JBool (gc_completed g)), (''goal_description'', JString (gc_goal g))]"

fun director_state :: "director \<Rightarrow> json" where
  "director_state (ForceTool f) = force_state f"
| "director_state (TodoReminder t) = todo_state t"
| "director_state (PlanMode p) = plan_state p"
| "director_state (GoalCompletion g) = goal_state g"

definition to_spec :: "director \<Rightarrow> director_spec" where
  "to_spec d = \<lparr>ds_id = director_id_of d, ds_kind = director_kind d, ds_state = director_state d, ds_element = None\<rparr>"

definition force_tool_of_spec :: "director_spec \<Rightarrow> (structured_error, force_tool) result" where
  "force_tool_of_spec sp =
     (let st = ds_state sp in
      try_bind (ok_or (new_error ''director_spec''
            (''ForceTool director requires a nonempty '' @ quoted ''tool'') False)
          (case get_str st ''tool'' of Some t \<Rightarrow> if trim t \<noteq> [] then Some t else None | None \<Rightarrow> None))
        (\<lambda>tool. Inr
          \<lparr>ft_id = ds_id sp, ft_tool = tool, ft_predicate = get_str st ''until_predicate_id'',
           ft_reminder = str_or_empty (get_str st ''reminder''),
           ft_attempts = get_u32 st ''attempt_count'' 0, ft_max = get_u32 st ''max_attempts'' 1,
           ft_behavior = (case Option.bind (json_get st ''failure_behavior'') behavior_of_json of
               Some b \<Rightarrow> b | None \<Rightarrow> BehaveFail)\<rparr>))"

definition todo_of_spec :: "director_spec \<Rightarrow> todo_reminder" where
  "todo_of_spec sp =
     \<lparr>td_id = ds_id sp,
      td_todos = (case Option.bind (json_get (ds_state sp) ''pending_todos'') json_string_list of
          Some ts \<Rightarrow> ts | None \<Rightarrow> []),
      td_reminded = get_flag (ds_state sp) ''reminded''\<rparr>"

definition plan_of_spec :: "director_spec \<Rightarrow> plan_mode" where
  "plan_of_spec sp =
     \<lparr>pm_id = ds_id sp, pm_path = str_or_empty (get_str (ds_state sp) ''plan_path''),
      pm_inspected = get_flag (ds_state sp) ''plan_file_inspected'',
      pm_proposed = get_flag (ds_state sp) ''proposed_plan'',
      pm_asked = get_flag (ds_state sp) ''user_question_asked''\<rparr>"

definition goal_of_spec :: "director_spec \<Rightarrow> goal_completion" where
  "goal_of_spec sp =
     \<lparr>gc_id = ds_id sp, gc_goal = str_or_empty (get_str (ds_state sp) ''goal_description''),
      gc_completed = get_flag (ds_state sp) ''completed''\<rparr>"

definition create_director_from_spec :: "director_spec \<Rightarrow> (structured_error, director) result" where
  "create_director_from_spec sp =
     (if ds_kind sp = ''ForceTool'' then try_bind (force_tool_of_spec sp) (\<lambda>f. Inr (ForceTool f))
      else if ds_kind sp = ''TodoReminder'' then Inr (TodoReminder (todo_of_spec sp))
      else if ds_kind sp = ''PlanMode'' then Inr (PlanMode (plan_of_spec sp))
      else if ds_kind sp = ''GoalCompletion'' then Inr (GoalCompletion (goal_of_spec sp))
      else Inl (new_error ''unknown_director_kind'' (''unknown director kind: '' @ quoted (ds_kind sp)) False))"

section \<open>Preparing a request\<close>

definition force_prepare :: "force_tool \<Rightarrow> inference_request \<Rightarrow> inference_request" where
  "force_prepare f r =
     (let r1 = r\<lparr>ir_tool_choice := ChoiceForced (ft_tool f)\<rparr> in
      if 0 < ft_attempts f
      then r1\<lparr>ir_messages := ir_messages r1 @ [system_message
             (''[Director Reminder (attempt '' @ show_nat (wrap_u32 (ft_attempts f + 1)) @ ''/'' @ show_nat (ft_max f)
              @ '')]: You MUST invoke tool '' @ quoted (ft_tool f) @ ''. '' @ ft_reminder f)]\<rparr>
      else r1)"

definition plan_prepare :: "plan_mode \<Rightarrow> inference_request \<Rightarrow> inference_request" where
  "plan_prepare p r =
     r\<lparr>ir_messages := ir_messages r @ [system_message
        (''[PlanMode Director]: Plan mode is ACTIVE for '' @ quoted (pm_path p)
         @ ''. You must inspect the plan file and either present a plan or ask a user question before yielding.'')]\<rparr>"

fun director_prepare :: "director \<Rightarrow> inference_request \<Rightarrow> (structured_error, inference_request) result" where
  "director_prepare (ForceTool f) r = Inr (force_prepare f r)"
| "director_prepare (TodoReminder _) r = Inr r"
| "director_prepare (PlanMode p) r = Inr (plan_prepare p r)"
| "director_prepare (GoalCompletion _) r = Inr r"

fun stack_prepare :: "director list \<Rightarrow> inference_request \<Rightarrow> (structured_error, inference_request) result" where
  "stack_prepare [] r = Inr r"
| "stack_prepare (d # ds) r = try_bind (director_prepare d r) (stack_prepare ds)"

section \<open>Deciding a yield\<close>

text \<open>The first and the last character of a UTF-8 string, as their bytes.\<close>

definition first_char :: "string \<Rightarrow> string option" where
  "first_char s = (case s of [] \<Rightarrow> None | c # cs \<Rightarrow> Some (c # takeWhile is_continuation cs))"

definition last_char :: "string \<Rightarrow> string option" where
  "last_char s =
     (if s = [] then None
      else let tail = takeWhile is_continuation (rev s); k = length tail
           in Some (rev (take (Suc k) (rev s))))"

definition not_alnum :: "(string \<Rightarrow> bool) \<Rightarrow> string option \<Rightarrow> bool" where
  "not_alnum alnum c = (case c of None \<Rightarrow> True | Some ch \<Rightarrow> \<not> alnum ch)"

text \<open>\<open>match_indices\<close>: leftmost, not overlapping; \<open>before\<close> is the text to the left.\<close>

function word_from :: "(string \<Rightarrow> bool) \<Rightarrow> string \<Rightarrow> string \<Rightarrow> string \<Rightarrow> bool" where
  "word_from alnum word before [] = False"
| "word_from alnum word before (c # cs) =
     (if word \<noteq> [] \<and> starts_with word (c # cs)
      then (if not_alnum alnum (last_char before) \<and> not_alnum alnum (first_char (drop (length word) (c # cs)))
            then True
            else word_from alnum word (before @ word) (drop (length word) (c # cs)))
      else word_from alnum word (before @ [c]) cs)"
  by pat_completeness auto
termination by (relation "measure (\<lambda>(_, _, _, s). length s)") auto

definition contains_word :: "(string \<Rightarrow> bool) \<Rightarrow> string \<Rightarrow> string \<Rightarrow> bool" where
  "contains_word alnum text word = (if word = [] then False else word_from alnum word [] text)"

definition ends_with :: "string \<Rightarrow> string \<Rightarrow> bool" where
  "ends_with suffix s \<longleftrightarrow> length suffix \<le> length s \<and> drop (length s - length suffix) s = suffix"

definition path_suffix_match :: "string \<Rightarrow> string \<Rightarrow> bool" where
  "path_suffix_match candidate expected \<longleftrightarrow>
     (if candidate = expected then True
      else if length candidate \<le> length expected then False
      else if \<not> ends_with expected candidate then False
      else candidate ! (length candidate - length expected - 1) \<in> {CHR ''/'', CHR 0x5C})"

definition matches_plan :: "plan_mode \<Rightarrow> json \<Rightarrow> bool" where
  "matches_plan p args =
     (case get_str args ''path'' of
        Some path \<Rightarrow> path_suffix_match path (pm_path p) \<or> path_suffix_match (pm_path p) path
      | None \<Rightarrow> False)"

definition plan_observe :: "text_env \<Rightarrow> (string \<Rightarrow> bool) \<Rightarrow> plan_mode \<Rightarrow> turn_view \<Rightarrow> plan_mode" where
  "plan_observe tx alnum p t =
     (let p1 = (case tv_text t of
            None \<Rightarrow> p
          | Some s \<Rightarrow>
              p\<lparr>pm_asked := pm_asked p \<or> contains_word alnum (tx_lower tx s) ''question'' \<or> CHR ''?'' \<in> set s,
                pm_proposed := pm_proposed p \<or> contains_word alnum (tx_lower tx s) ''plan''\<rparr>)
      in p1\<lparr>pm_inspected := pm_inspected p1
             \<or> list_ex (\<lambda>tc. to_ascii_lowercase (ti_name tc) \<in> set [''read'', ''write'', ''edit'']
                          \<and> matches_plan p1 (ti_arguments tc)) (tv_executed t @ tv_calls t)\<rparr>)"

definition invoked :: "string \<Rightarrow> turn_view \<Rightarrow> bool" where
  "invoked tool t \<longleftrightarrow> list_ex (\<lambda>tc. ti_name tc = tool) (tv_executed t) \<or> list_ex (\<lambda>tc. ti_name tc = tool) (tv_calls t)"

definition force_on_yield :: "force_tool \<Rightarrow> turn_view \<Rightarrow> force_tool \<times> yield_decision" where
  "force_on_yield f t =
     (if invoked (ft_tool f) t then (f, Done)
      else
        let f1 = f\<lparr>ft_attempts := wrap_u32 (ft_attempts f + 1)\<rparr> in
        (f1,
          if ft_attempts f1 < ft_max f1
          then Continue (Some (''Tool '' @ quoted (ft_tool f1) @ '' was required but not called. Attempt ''
                  @ show_nat (ft_attempts f1) @ ''/'' @ show_nat (ft_max f1) @ ''. '' @ ft_reminder f1))
          else (case ft_behavior f1 of
              BehaveFail \<Rightarrow> FailWith (new_error ''force_tool_exhausted''
                  (''ForceTool exhausted: tool '' @ quoted (ft_tool f1) @ '' was not invoked after ''
                   @ show_nat (ft_max f1) @ '' attempts'') False)
            | YieldWithWarning \<Rightarrow> YieldTurn)))"

definition todo_on_yield :: "todo_reminder \<Rightarrow> agent_view \<Rightarrow> todo_reminder \<times> yield_decision" where
  "todo_on_yield r a =
     (let r1 = (if av_todos a = [] then r else r\<lparr>td_todos := av_todos a\<rparr>) in
      if td_todos r1 = [] then (r1, Done)
      else if \<not> td_reminded r1
      then (r1\<lparr>td_reminded := True\<rparr>,
            Continue (Some (''Reminder: you have pending todos: '' @ join_words ''; '' (td_todos r1))))
      else (r1, Pass))"

definition plan_on_yield ::
  "text_env \<Rightarrow> (string \<Rightarrow> bool) \<Rightarrow> plan_mode \<Rightarrow> turn_view \<Rightarrow> plan_mode \<times> yield_decision" where
  "plan_on_yield tx alnum p t =
     (let p1 = plan_observe tx alnum p t in
      (p1,
        if \<not> pm_inspected p1
        then Continue (Some (''Plan mode requires accessing the plan file '' @ quoted (pm_path p1) @ '' before yielding.''))
        else if \<not> pm_proposed p1 \<and> \<not> pm_asked p1
        then Continue (Some ''Plan mode requires either proposing a plan or asking the user a clarifying question before yielding.'')
        else Pass))"

definition goal_on_yield :: "goal_completion \<Rightarrow> goal_completion \<times> yield_decision" where
  "goal_on_yield g = (g, if gc_completed g then Done else Pass)"

text \<open>No built-in director fails; the call through the trait could.\<close>

fun on_yield ::
  "text_env \<Rightarrow> (string \<Rightarrow> bool) \<Rightarrow> director \<Rightarrow> agent_view \<Rightarrow> turn_view
   \<Rightarrow> director \<times> (structured_error, yield_decision) result" where
  "on_yield tx alnum (ForceTool f) a t = map_prod ForceTool Inr (force_on_yield f t)"
| "on_yield tx alnum (TodoReminder r) a t = map_prod TodoReminder Inr (todo_on_yield r a)"
| "on_yield tx alnum (PlanMode p) a t = map_prod PlanMode Inr (plan_on_yield tx alnum p t)"
| "on_yield tx alnum (GoalCompletion g) a t = map_prod GoalCompletion Inr (goal_on_yield g)"

text \<open>The loop of \<open>handle_yield\<close> with \<open>idx\<close> counting down.\<close>

fun yield_loop ::
  "text_env \<Rightarrow> (string \<Rightarrow> bool) \<Rightarrow> agent_view \<Rightarrow> turn_view \<Rightarrow> nat \<Rightarrow> director list
   \<Rightarrow> director list \<times> (structured_error, yield_decision) result" where
  "yield_loop tx alnum a t 0 ds = (ds, Inr YieldTurn)"
| "yield_loop tx alnum a t (Suc i) ds =
     (case on_yield tx alnum (ds ! i) a t of
        (d, Inl e) \<Rightarrow> (ds[i := d], Inl e)
      | (d, Inr dec) \<Rightarrow>
          if dec = Pass then yield_loop tx alnum a t i (ds[i := d])
          else if dec = Done then yield_loop tx alnum a t i (vec_remove i (ds[i := d]))
          else (ds[i := d], Inr dec))"

definition handle_yield ::
  "text_env \<Rightarrow> (string \<Rightarrow> bool) \<Rightarrow> director list \<Rightarrow> agent_view \<Rightarrow> turn_view
   \<Rightarrow> director list \<times> (structured_error, yield_decision) result" where
  "handle_yield tx alnum ds a t = yield_loop tx alnum a t (length ds) ds"

datatype agent_turn_action =
    ExecuteTools "tool_call_info list"
  | ContinueInference "string option"
  | YieldToUser
  | PushDirector director_spec
  | HaltWithError structured_error

definition evaluate_agent_turn ::
  "text_env \<Rightarrow> (string \<Rightarrow> bool) \<Rightarrow> director list \<Rightarrow> agent_view \<Rightarrow> turn_view
   \<Rightarrow> director list \<times> (structured_error, agent_turn_action) result" where
  "evaluate_agent_turn tx alnum ds a t =
     (if tv_calls t \<noteq> [] then (ds, Inr (ExecuteTools (tv_calls t)))
      else (case handle_yield tx alnum ds a t of
          (ds', Inl e) \<Rightarrow> (ds', Inl e)
        | (ds', Inr dec) \<Rightarrow>
            (ds', Inr (case dec of
                 Continue prompt \<Rightarrow> ContinueInference prompt
               | YieldTurn \<Rightarrow> YieldToUser
               | Pass \<Rightarrow> YieldToUser
               | Done \<Rightarrow> YieldToUser
               | Push sp \<Rightarrow> PushDirector sp
               | FailWith e \<Rightarrow> HaltWithError e))))"

section \<open>The stack and the session document\<close>

definition to_specs :: "director list \<Rightarrow> director_spec list" where
  "to_specs ds = map to_spec ds"

fun from_specs :: "director_spec list \<Rightarrow> (structured_error, director list) result" where
  "from_specs [] = Inr []"
| "from_specs (sp # sps) =
     try_bind (create_director_from_spec sp) (\<lambda>d. try_bind (from_specs sps) (\<lambda>ds. Inr (d # ds)))"

definition spec_of_element :: "element_snapshot \<Rightarrow> director_spec" where
  "spec_of_element e =
     \<lparr>ds_id = (case new_id (el_id e) of Inr i \<Rightarrow> i | Inl _ \<Rightarrow> ''director''),
      ds_kind = (case fmlookup (attributes e) ''kind'' of Some (TString s) \<Rightarrow> s | _ \<Rightarrow> el_kind e),
      ds_state = (case el_payload e of Some j \<Rightarrow> j | None \<Rightarrow> JNull),
      ds_element = Some (el_id e)\<rparr>"

text \<open>\<open>None\<close> is the panic of \<open>active_directors\<close>.\<close>

definition stack_of_snapshot :: "session_snapshot \<Rightarrow> (structured_error, director list) result option" where
  "stack_of_snapshot s = map_option (\<lambda>es. from_specs (map spec_of_element es)) (active_directors s)"

definition director_element :: "element_id \<Rightarrow> director_spec \<Rightarrow> element_snapshot" where
  "director_element i sp =
     (new_element i ''director'')\<lparr>attributes := fmupd ''kind'' (TString (ds_kind sp)) fmempty,
                                   el_payload := Some (ds_state sp)\<rparr>"

definition bad_director_id :: "structured_error \<Rightarrow> structured_error" where
  "bad_director_id e =
     new_error ''invalid_director_id''
       (''Journal-derived director id is not a valid element id: '' @ show_error e) False"

definition director_spec_to_patch_op :: "element_id \<Rightarrow> nat \<Rightarrow> director_spec \<Rightarrow> (structured_error, patch_op) result" where
  "director_spec_to_patch_op parent index sp =
     try_bind (case ds_element sp of
         Some i \<Rightarrow> Inr i
       | None \<Rightarrow> map_err bad_director_id (new_id (''director-'' @ ds_id sp)))
       (\<lambda>i. Inr (Create parent index (director_element i sp)))"

definition create_director_push_patch ::
  "journal_offset \<Rightarrow> journal_offset \<Rightarrow> actor_id \<Rightarrow> element_id \<Rightarrow> nat \<Rightarrow> director_spec
   \<Rightarrow> (structured_error, patch) result" where
  "create_director_push_patch base_off result_off a parent index sp =
     try_bind (director_spec_to_patch_op parent index sp) (\<lambda>x. Inr
       \<lparr>base_offset = base_off, result_offset = result_off, patch_by = Actor a,
        reason = ''push director '' @ ds_kind sp, ops = [x]\<rparr>)"

end
