(* ===== verification/DirectorClaims.thy ===== *)
theory DirectorClaims
  imports Director
begin

text \<open>
  The properties of the director stack: how long it can keep the model working, and that its
  durable form loses nothing.
\<close>

section \<open>Patience\<close>

lemmas yield_defs = force_on_yield_def todo_on_yield_def plan_on_yield_def goal_on_yield_def Let_def

lemmas state_defs = force_state_def todo_state_def plan_state_def goal_state_def

text \<open>How many more times a director can ask for another turn.\<close>

fun patience :: "director \<Rightarrow> nat" where
  "patience (ForceTool f) =
     (if wrap_u32 (ft_attempts f + 1) < ft_max f then ft_max f - wrap_u32 (ft_attempts f + 1) else 0)"
| "patience (TodoReminder t) = (if td_reminded t then 0 else 1)"
| "patience (PlanMode _) = 0"
| "patience (GoalCompletion _) = 0"

definition stack_patience :: "director list \<Rightarrow> nat" where
  "stack_patience ds = sum_list (map patience ds)"

fun is_plan :: "director \<Rightarrow> bool" where
  "is_plan (PlanMode _) = True"
| "is_plan _ = False"

lemma on_yield_id [simp]: "director_id_of (fst (on_yield tx alnum d a t)) = director_id_of d"
  by (cases d) (auto simp: yield_defs plan_observe_def split: option.splits)

lemma on_yield_kind [simp]: "director_kind (fst (on_yield tx alnum d a t)) = director_kind d"
  by (cases d) (auto simp: yield_defs)

lemma on_yield_plan [simp]: "is_plan (fst (on_yield tx alnum d a t)) = is_plan d"
  by (cases d) (auto simp: yield_defs)

lemma on_yield_never_fails: "\<exists>dec. snd (on_yield tx alnum d a t) = Inr dec"
  by (cases d) (auto simp: yield_defs)

text \<open>The counters of \<open>ForceTool\<close> are \<open>u32\<close>.\<close>

fun counters_ok :: "director \<Rightarrow> bool" where
  "counters_ok (ForceTool f) \<longleftrightarrow> ft_attempts f < 2 ^ 32 \<and> ft_max f < 2 ^ 32"
| "counters_ok _ = True"

lemma on_yield_counters: "counters_ok d \<Longrightarrow> counters_ok (fst (on_yield tx alnum d a t))"
  by (cases d) (auto simp: yield_defs wrap_u32_def)

lemma wrap_u32_small: "n < 2 ^ 32 \<Longrightarrow> wrap_u32 n = n"
  by (simp add: wrap_u32_def)

lemma on_yield_force_continue:
  assumes "on_yield tx alnum (ForceTool f) a t = (d', Inr (Continue p))" "counters_ok (ForceTool f)"
  shows "patience d' < patience (ForceTool f)"
proof -
  let ?n = "wrap_u32 (ft_attempts f + 1)"
  from assms(1) have lt: "?n < ft_max f" and d': "d' = ForceTool (f\<lparr>ft_attempts := ?n\<rparr>)"
    by (auto simp: yield_defs split: if_splits failure_behavior.splits)
  from lt assms(2) have "wrap_u32 (?n + 1) = ?n + 1" by (intro wrap_u32_small) simp
  with lt show ?thesis by (simp add: d' diff_less_mono2)
qed

lemma on_yield_patience:
  assumes "on_yield tx alnum d a t = (d', Inr dec)" "\<not> is_plan d" "counters_ok d"
  shows "dec \<in> {Pass, Done} \<Longrightarrow> patience d' \<le> patience d" "dec = Continue p \<Longrightarrow> patience d' < patience d"
proof -
  show "patience d' \<le> patience d" if "dec \<in> {Pass, Done}"
    using assms that by (cases d) (auto simp: yield_defs split: if_splits failure_behavior.splits)
  show "patience d' < patience d" if "dec = Continue p"
    using assms that on_yield_force_continue
    by (cases d) (auto simp: yield_defs split: if_splits)
qed

definition patient :: "director list \<Rightarrow> bool" where
  "patient ds \<longleftrightarrow> list_all counters_ok ds \<and> \<not> list_ex is_plan ds"

lemma vec_remove_subset: "set (vec_remove i xs) \<subseteq> set xs"
  by (auto simp: vec_remove_def dest: in_set_takeD in_set_dropD)

lemma patient_update:
  assumes "patient ds" "i < length ds" "d = fst (on_yield tx alnum (ds ! i) a t)"
  shows "patient (ds[i := d])" "patient (vec_remove i (ds[i := d]))"
proof -
  show u: "patient (ds[i := d])"
    using assms on_yield_counters on_yield_plan unfolding patient_def list_all_iff list_ex_iff
    by (metis in_set_conv_nth insert_iff set_update_subset_insert subset_iff)
  with vec_remove_subset[of i "ds[i := d]"] show "patient (vec_remove i (ds[i := d]))"
    by (auto simp: patient_def list_all_iff list_ex_iff)
qed

lemma stack_patience_update:
  assumes "i < length ds"
  shows "stack_patience (ds[i := d]) + patience (ds ! i) = stack_patience ds + patience d"
    "stack_patience (vec_remove i ds) \<le> stack_patience ds"
proof -
  have "ds = take i ds @ ds ! i # drop (Suc i) ds" using assms by (simp add: id_take_nth_drop)
  then have s: "stack_patience ds = stack_patience (take i ds) + patience (ds ! i) + stack_patience (drop (Suc i) ds)"
    unfolding stack_patience_def by (metis add.assoc list.simps(9) map_append sum_list.Cons sum_list.append)
  show "stack_patience (ds[i := d]) + patience (ds ! i) = stack_patience ds + patience d"
    using assms s by (simp add: upd_conv_take_nth_drop stack_patience_def)
  show "stack_patience (vec_remove i ds) \<le> stack_patience ds"
    using s by (simp add: vec_remove_def stack_patience_def)
qed

lemma yield_loop_patience:
  assumes "yield_loop tx alnum a t i ds = (ds', r)" "patient ds" "i \<le> length ds"
  shows "patient ds' \<and> (\<exists>dec. r = Inr dec) \<and> (\<forall>p. r = Inr (Continue p) \<longrightarrow> stack_patience ds' < stack_patience ds)"
  using assms
proof (induction i arbitrary: ds)
  case 0
  then show ?case by auto
next
  case (Suc i)
  obtain d dec where y: "on_yield tx alnum (ds ! i) a t = (d, Inr dec)"
    using on_yield_never_fails by (metis prod.collapse)
  have i: "i < length ds" using Suc.prems(3) by simp
  then have ok: "\<not> is_plan (ds ! i)" "counters_ok (ds ! i)"
    using Suc.prems(2) by (auto simp: patient_def list_all_iff list_ex_iff)
  have d: "d = fst (on_yield tx alnum (ds ! i) a t)" by (simp add: y)
  note pu = patient_update[OF Suc.prems(2) i d]
  note sp = stack_patience_update(1)[OF i, of d] stack_patience_update(2)[of i "ds[i := d]"]
  have step: "yield_loop tx alnum a t (Suc i) ds =
      (if dec = Pass then yield_loop tx alnum a t i (ds[i := d])
       else if dec = Done then yield_loop tx alnum a t i (vec_remove i (ds[i := d]))
       else (ds[i := d], Inr dec))"
    by (simp add: y)
  consider "dec = Pass" | "dec = Done" | "dec \<notin> {Pass, Done}" by blast
  then show ?case
  proof cases
    case 1
    with Suc.prems(1) step have "yield_loop tx alnum a t i (ds[i := d]) = (ds', r)" by simp
    from Suc.IH[OF this pu(1)] i sp(1) on_yield_patience(1)[OF y ok] 1 show ?thesis by fastforce
  next
    case 2
    with Suc.prems(1) step have "yield_loop tx alnum a t i (vec_remove i (ds[i := d])) = (ds', r)" by simp
    from Suc.IH[OF this pu(2)] i sp on_yield_patience(1)[OF y ok] 2 show ?thesis
      by (fastforce simp: vec_remove_def)
  next
    case 3
    with Suc.prems(1) step have "ds' = ds[i := d]" "r = Inr dec" by auto
    with pu(1) i sp(1) on_yield_patience(2)[OF y ok] show ?thesis by auto
  qed
qed

section \<open>A stack lets go of the turn\<close>

fun asks_again :: "agent_turn_action \<Rightarrow> bool" where
  "asks_again (ContinueInference _) = True"
| "asks_again _ = False"

fun keeps_going :: "agent_turn_action \<Rightarrow> bool" where
  "keeps_going (ContinueInference _) = True"
| "keeps_going (ExecuteTools _) = True"
| "keeps_going _ = False"

text \<open>The actions a stack takes over the turns of the model, until one ends the loop.\<close>

fun agent_turns ::
  "text_env \<Rightarrow> (string \<Rightarrow> bool) \<Rightarrow> director list \<Rightarrow> (agent_view \<times> turn_view) list
   \<Rightarrow> director list \<times> agent_turn_action list" where
  "agent_turns tx alnum ds [] = (ds, [])"
| "agent_turns tx alnum ds ((a, t) # ts) =
     (case evaluate_agent_turn tx alnum ds a t of
        (ds', Inl e) \<Rightarrow> (ds', [HaltWithError e])
      | (ds', Inr act) \<Rightarrow>
          if keeps_going act
          then (case agent_turns tx alnum ds' ts of (ds'', acts) \<Rightarrow> (ds'', act # acts))
          else (ds', [act]))"

lemma evaluate_patience:
  assumes "evaluate_agent_turn tx alnum ds a t = (ds', r)" "patient ds"
  obtains act where "r = Inr act" "patient ds'"
    "asks_again act \<Longrightarrow> tv_calls t = [] \<and> stack_patience ds' < stack_patience ds"
    "keeps_going act \<Longrightarrow> \<not> asks_again act \<Longrightarrow> ds' = ds \<and> tv_calls t \<noteq> []"
proof (cases "tv_calls t = []")
  case False
  with assms that show thesis by (auto simp: evaluate_agent_turn_def)
next
  case True
  obtain ds1 q where y: "handle_yield tx alnum ds a t = (ds1, q)" by (cases "handle_yield tx alnum ds a t")
  from yield_loop_patience[OF y[unfolded handle_yield_def] assms(2)]
  obtain dec where q: "q = Inr dec" and p: "patient ds1" "\<forall>p. dec = Continue p \<longrightarrow> stack_patience ds1 < stack_patience ds"
    by auto
  from assms(1) y q True p that show thesis
    by (cases dec) (auto simp: evaluate_agent_turn_def)
qed

lemma stack_lets_go:
  assumes "patient ds" "agent_turns tx alnum ds ts = (ds', acts)"
  shows "length (filter asks_again acts) \<le> stack_patience ds
    \<and> (list_all (\<lambda>(a, t). tv_calls t = []) ts \<and> stack_patience ds < length ts
         \<longrightarrow> acts \<noteq> [] \<and> \<not> keeps_going (last acts))"
  using assms
proof (induction tx alnum ds ts arbitrary: ds' acts rule: agent_turns.induct)
  case (1 tx alnum ds)
  then show ?case by simp
next
  case (2 tx alnum ds a t ts)
  obtain ds1 r where e: "evaluate_agent_turn tx alnum ds a t = (ds1, r)"
    by (cases "evaluate_agent_turn tx alnum ds a t")
  obtain act where act: "r = Inr act" "patient ds1"
    and less: "asks_again act \<longrightarrow> tv_calls t = [] \<and> stack_patience ds1 < stack_patience ds"
    and same: "keeps_going act \<longrightarrow> \<not> asks_again act \<longrightarrow> ds1 = ds \<and> tv_calls t \<noteq> []"
    using evaluate_patience[OF e 2(2)] by metis
  show ?case
  proof (cases "keeps_going act")
    case False
    with 2(3) e act(1) show ?thesis by (cases act) auto
  next
    case True
    obtain ds2 acts1 where r: "agent_turns tx alnum ds1 ts = (ds2, acts1)" by (cases "agent_turns tx alnum ds1 ts")
    from 2(1)[OF e[symmetric] act(1) True act(2) r] True 2(3) e act less same r show ?thesis
      by (cases "asks_again act") auto
  qed
qed

text \<open>The built-in directors never push another one.\<close>

lemma on_yield_no_push: "snd (on_yield tx alnum d a t) \<noteq> Inr (Push sp)"
  by (cases d) (auto simp: yield_defs split: failure_behavior.splits)

lemma yield_loop_no_push: "snd (yield_loop tx alnum a t i ds) \<noteq> Inr (Push sp)"
proof (induction i arbitrary: ds)
  case (Suc i)
  with on_yield_no_push[of tx alnum "ds ! i" a t sp] show ?case
    by (auto split: prod.splits sum.splits)
qed simp

lemma agent_turns_no_push: "PushDirector sp \<notin> set (snd (agent_turns tx alnum ds ts))"
proof (induction tx alnum ds ts rule: agent_turns.induct)
  case (2 tx alnum ds a t ts)
  have "snd (evaluate_agent_turn tx alnum ds a t) \<noteq> Inr (PushDirector sp)"
    using yield_loop_no_push[of tx alnum a t "length ds" ds sp]
    by (auto simp: evaluate_agent_turn_def handle_yield_def split: prod.splits sum.splits yield_decision.splits)
  moreover obtain ds1 r where "evaluate_agent_turn tx alnum ds a t = (ds1, r)" by force
  ultimately show ?case using 2[of ds1 r] by (cases r) (auto split: prod.splits)
qed simp

text \<open>
  C30: A stack of directors lets go of the turn.  Without plan mode, the directors together ask
  for another turn at most \<open>stack_patience\<close> times (for each \<open>ForceTool\<close> the attempts it has
  left, one for each reminder), however the model's turns with and without tool calls are mixed;
  so after more turns without tool calls than that the last action of the stack yields to the user
  or halts with an error.
  Plan mode is the exception: it insists until the plan file has been opened.
\<close>

theorem directors_let_go:
  assumes "patient ds" "agent_turns tx alnum ds ts = (ds', acts)"
  shows "length (filter asks_again acts) \<le> stack_patience ds
    \<and> (list_all (\<lambda>(a, t). tv_calls t = []) ts \<and> stack_patience ds < length ts
         \<longrightarrow> acts \<noteq> [] \<and> (last acts = YieldToUser \<or> (\<exists>e. last acts = HaltWithError e)))"
proof -
  note go = stack_lets_go[OF assms]
  have "PushDirector sp \<notin> set acts" for sp using agent_turns_no_push[of sp tx alnum ds ts] assms(2) by simp
  then have "acts \<noteq> [] \<Longrightarrow> \<not> keeps_going (last acts) \<Longrightarrow> last acts = YieldToUser \<or> (\<exists>e. last acts = HaltWithError e)"
    using last_in_set[of acts] by (cases "last acts") auto
  with go show ?thesis by blast
qed

definition sample_force :: director where
  "sample_force = ForceTool (new_force_tool ''f'' ''ask'' ''r'' 3)"

definition idle_turn :: turn_view where
  "idle_turn = \<lparr>tv_index = 0, tv_text = None, tv_calls = [], tv_executed = [], tv_finish = None\<rparr>"

definition idle_agent :: agent_view where
  "idle_agent = \<lparr>av_actor = ''a'', av_session = ''s'', av_model = ''m'', av_tools = [], av_workspace = None,
                 av_todos = [''t'']\<rparr>"

definition plain_text :: text_env where
  "plain_text = \<lparr>tx_parse_json = (\<lambda>s. Inl s), tx_show_json = (\<lambda>_. []), tx_show_f64 = (\<lambda>_. []), tx_lower = (\<lambda>s. s)\<rparr>"

theorem directors_let_go_witness:
  "length (filter asks_again (snd (agent_turns plain_text (\<lambda>_. True) [sample_force, TodoReminder (new_todo_reminder ''r'' [])]
     [(idle_agent, idle_turn), (idle_agent, idle_turn), (idle_agent, idle_turn)]))) \<le> 3"
proof -
  let ?ds = "[sample_force, TodoReminder (new_todo_reminder ''r'' [])]"
  have "patient ?ds" by (simp add: patient_def sample_force_def new_force_tool_def)
  moreover have "stack_patience ?ds = 3"
    by (simp add: stack_patience_def sample_force_def new_force_tool_def new_todo_reminder_def wrap_u32_def)
  ultimately show ?thesis using directors_let_go[of ?ds] by (metis prod.collapse)
qed

section \<open>The durable form\<close>

text \<open>A director whose fields fit the durable form: a tool name that is not blank, 32-bit counters.\<close>

fun recordable :: "director \<Rightarrow> bool" where
  "recordable (ForceTool f) \<longleftrightarrow> trim (ft_tool f) \<noteq> [] \<and> counters_ok (ForceTool f)"
| "recordable _ = True"

lemma json_strings_map [simp]: "json_strings (map JString ss) = Some ss"
  by (induction ss) auto

lemma get_u32_nat: "n < 2 ^ 32 \<Longrightarrow> json_get j key = Some (json_nat n) \<Longrightarrow> get_u32 j key d = n"
  by (simp add: get_u32_def json_u64_def json_nat_def unat_of_nat take_bit_nat_eq_self wrap_u32_small)

lemma behavior_roundtrip [simp]: "behavior_of_json (behavior_json b) = Some b"
  by (cases b) (simp_all add: behavior_json_def behavior_of_json_def behavior_of_name_def)

lemma create_to_spec:
  assumes "recordable d"
  shows "create_director_from_spec ((to_spec d)\<lparr>ds_element := e\<rparr>) = Inr d"
proof (cases d)
  case (ForceTool f)
  have u: "get_u32 (director_state d) ''attempt_count'' 0 = ft_attempts f"
    "get_u32 (director_state d) ''max_attempts'' 1 = ft_max f"
    using assms by (auto intro!: get_u32_nat simp: ForceTool state_defs json_get_def)
  show ?thesis
    using assms u
    by (simp add: ForceTool state_defs create_director_from_spec_def to_spec_def force_tool_of_spec_def Let_def)
      (auto simp: get_str_def json_get_def json_str_def str_or_empty_def split: option.splits)
qed (simp_all add: state_defs create_director_from_spec_def to_spec_def todo_of_spec_def plan_of_spec_def goal_of_spec_def
    get_flag_def get_str_def json_get_def json_str_def json_bool_def json_string_list_def str_or_empty_def)

lemma from_specs_create:
  "list_all2 (\<lambda>sp d. create_director_from_spec sp = Inr d) sps ds \<Longrightarrow> from_specs sps = Inr ds"
  by (induction rule: list_all2_induct) auto

text \<open>What a spec is read as is recordable again.\<close>

lemma created_recordable: "create_director_from_spec sp = Inr d \<Longrightarrow> recordable d \<and> director_id_of d = ds_id sp \<and> director_kind d = ds_kind sp"
  by (auto simp: create_director_from_spec_def force_tool_of_spec_def todo_of_spec_def plan_of_spec_def goal_of_spec_def
      Let_def get_u32_def wrap_u32_def ok_or_Inr_iff split: if_splits option.splits sum.splits)

lemma on_yield_recordable: "recordable d \<Longrightarrow> recordable (fst (on_yield tx alnum d a t))"
  by (cases d) (auto simp: yield_defs wrap_u32_def)

end
