(* ===== verification/Host.thy ===== *)
theory Host
  imports Director CommandEngine Journal
begin

text \<open>
  The host session of crate \<open>omp-control\<close> (\<open>host.rs\<close>): how it writes to the session journal, its
  user and steering messages, pushing a director, and the patch that brings the directors of the
  document in line with the stack.  The stream of an assistant turn, tool calls and the loop over
  them are in \<open>HostTurn\<close>.  The clock, the disk and the random identifiers are the record
  \<open>host_world\<close>, indexed by the journal offset that is being written, so that a repeated write at
  the same offset meets the same clock and the same fault.  A panic of a container accessor is
  \<open>None\<close>.
\<close>

section \<open>Writing to the journal\<close>

record host_world =
  hw_codec :: codec
  hw_now :: "nat \<Rightarrow> (string, nat) result"
  hw_fault :: "nat \<Rightarrow> write_fault"
  hw_mint :: "nat \<Rightarrow> nat \<Rightarrow> string"

text \<open>\<open>hw_mint w n i\<close> is the \<open>i\<close>-th identifier drawn for the record at offset \<open>n\<close>.\<close>

definition mint :: "host_world \<Rightarrow> journal \<Rightarrow> nat \<Rightarrow> string" where
  "mint w j i = hw_mint w (offset_nat (next_offset j)) i"

definition host_append ::
  "host_world \<Rightarrow> actor_id \<Rightarrow> journal \<Rightarrow> nat \<Rightarrow> string \<Rightarrow> patch_op list
   \<Rightarrow> journal \<times> (structured_error, unit) result" where
  "host_append w owner j base why xs =
     (let n = offset_nat (next_offset j) in
      case append_patch (hw_codec w) (hw_now w n) (hw_fault w n) j
             \<lparr>base_offset = JournalOffset base, result_offset = next_offset j, patch_by = Actor owner,
              reason = why, ops = xs\<rparr> of
        (j', Inl e) \<Rightarrow> (j', Inl (state_error_structured e))
      | (j', Inr _) \<Rightarrow> (j', Inr ()))"

definition count_u32 :: "session_snapshot \<Rightarrow> element_id \<Rightarrow> nat" where
  "count_u32 s k = wrap_u32 (length (children s k))"

definition message_element :: "element_id \<Rightarrow> string \<Rightarrow> string \<Rightarrow> string \<Rightarrow> element_snapshot" where
  "message_element i kind role msg =
     (new_element i kind)\<lparr>attributes := fmupd ''role'' (TString role) fmempty, el_text := msg\<rparr>"

definition append_user_message ::
  "host_world \<Rightarrow> actor_id \<Rightarrow> journal \<Rightarrow> string \<Rightarrow> (journal \<times> (structured_error, unit) result) option" where
  "append_user_message w owner j msg =
     (let s = jn_snapshot j in
      map_option (\<lambda>body. host_append w owner j (ss_offset s) ''user turn''
          [Create body (count_u32 s body) (message_element (mint w j 0) ''user'' ''user'' msg)])
        (container s ''body''))"

definition append_steering_message ::
  "host_world \<Rightarrow> actor_id \<Rightarrow> journal \<Rightarrow> string \<Rightarrow> (journal \<times> (structured_error, unit) result) option" where
  "append_steering_message w owner j prompt =
     (let s = jn_snapshot j in
      map_option (\<lambda>body. host_append w owner j (latest_offset j) ''steering prompt''
          [Create body (count_u32 s body) (message_element (mint w j 0) ''steering'' ''system'' prompt)])
        (container s ''body''))"

section \<open>Directors in the document\<close>

definition push_director ::
  "host_world \<Rightarrow> actor_id \<Rightarrow> journal \<Rightarrow> director list \<Rightarrow> director_spec
   \<Rightarrow> (journal \<times> director list \<times> (structured_error, unit) result) option" where
  "push_director w owner j ds sp =
     (case create_director_from_spec sp of
        Inl e \<Rightarrow> Some (j, ds, Inl e)
      | Inr d \<Rightarrow>
          let s = jn_snapshot j in
          map_option (\<lambda>k.
              case (case ds_element sp of Some i \<Rightarrow> Inr i | None \<Rightarrow> map_err bad_director_id (new_id (ds_id sp))) of
                Inl e \<Rightarrow> (j, ds, Inl e)
              | Inr i \<Rightarrow>
                  (case host_append w owner j (latest_offset j) (''push director '' @ ds_kind sp)
                          [Create k (count_u32 s k) (director_element i sp)] of
                     (j', Inl e) \<Rightarrow> (j', ds, Inl e)
                   | (j', Inr _) \<Rightarrow> (j', ds @ [d], Inr ())))
            (container s ''directors''))"

text \<open>
  The patch that brings the document in line with the stack: changed states are replaced, and a
  director that has left the stack is deleted.
\<close>

definition spec_element :: "director_spec \<Rightarrow> element_id option" where
  "spec_element sp =
     (case ds_element sp of
        Some i \<Rightarrow> Some i
      | None \<Rightarrow> (case new_id (ds_id sp) of Inr i \<Rightarrow> Some i | Inl _ \<Rightarrow> None))"

definition update_op :: "session_snapshot \<Rightarrow> director_spec \<Rightarrow> patch_op option" where
  "update_op s sp =
     Option.bind (spec_element sp) (\<lambda>i.
       case snap_element s i of
         Some e \<Rightarrow> if el_payload e \<noteq> Some (ds_state sp) then Some (ReplacePayload i (ds_state sp)) else None
       | None \<Rightarrow> None)"

definition on_stack :: "director_spec list \<Rightarrow> element_snapshot \<Rightarrow> bool" where
  "on_stack sps e \<longleftrightarrow> list_ex (\<lambda>sp. ds_element sp = Some (el_id e) \<or> ds_id sp = el_id e) sps"

definition sync_ops :: "session_snapshot \<Rightarrow> director list \<Rightarrow> patch_op list option" where
  "sync_ops s ds =
     Option.bind (container s ''directors'') (\<lambda>_.
       map_option (\<lambda>es.
           List.map_filter (update_op s) (to_specs ds)
           @ map (\<lambda>e. Delete (el_id e)) (filter (\<lambda>e. \<not> on_stack (to_specs ds) e) es))
         (active_directors s))"

definition sync_directors_to_journal ::
  "host_world \<Rightarrow> actor_id \<Rightarrow> journal \<Rightarrow> director list
   \<Rightarrow> (journal \<times> (structured_error, unit) result) option" where
  "sync_directors_to_journal w owner j ds =
     map_option (\<lambda>xs.
         if xs = [] then (j, Inr ())
         else host_append w owner j (latest_offset j) ''sync director states'' xs)
       (sync_ops (jn_snapshot j) ds)"

end
