(* ===== verification/Compaction.thy ===== *)
theory Compaction
  imports Host
begin

text \<open>
  The planner of context compaction (\<open>compaction.rs\<close> of crate \<open>omp-control\<close>): which elements of
  the body a request leaves out, the summary nodes that record it in the journal, and how what
  is left is shortened until the budget holds.
\<close>

section \<open>Parameters\<close>

definition CONDENSE_FAN_IN :: nat where "CONDENSE_FAN_IN = 4"
definition MAX_NODE_TEXT_BYTES :: nat where "MAX_NODE_TEXT_BYTES = 8000"
definition MAX_PREVIEW_CHARS :: nat where "MAX_PREVIEW_CHARS = 96"
definition INVENTORY_LINE_TOKENS :: nat where "INVENTORY_LINE_TOKENS = 40"
definition NODE_HEADER_TOKENS :: nat where "NODE_HEADER_TOKENS = 24"
definition TRUNCATED_HEAD_CHARS :: nat where "TRUNCATED_HEAD_CHARS = 400"
definition TRUNCATED_TAIL_CHARS :: nat where "TRUNCATED_TAIL_CHARS = 200"
definition TRUNCATED_BYTES :: nat where "TRUNCATED_BYTES = TRUNCATED_HEAD_CHARS + TRUNCATED_TAIL_CHARS + 96"
definition MIN_OMITTED_ARGUMENT_TOKENS :: nat where "MIN_OMITTED_ARGUMENT_TOKENS = 64"

record compaction_config =
  cc_budget :: compaction_budget
  cc_keep :: nat
  cc_max_roots :: nat
  cc_overhead :: nat

record reduction =
  rd_text :: bool
  rd_args :: bool

definition no_reduction :: reduction where "no_reduction = \<lparr>rd_text = False, rd_args = False\<rparr>"

record compaction_outcome =
  co_folds :: "message_fold list"
  co_covered :: "element_id fset"
  co_reductions :: "(element_id, reduction) fmap"

definition no_compaction :: compaction_outcome where
  "no_compaction = \<lparr>co_folds = [], co_covered = {||}, co_reductions = fmempty\<rparr>"

section \<open>Shortening a text\<close>

definition is_boundary :: "string \<Rightarrow> nat \<Rightarrow> bool" where
  "is_boundary s i \<longleftrightarrow> i = 0 \<or> i = length s \<or> i < length s \<and> \<not> is_continuation (s ! i)"

fun boundary_below :: "string \<Rightarrow> nat \<Rightarrow> nat" where
  "boundary_below s 0 = 0"
| "boundary_below s (Suc i) = (if is_boundary s (Suc i) then Suc i else boundary_below s i)"

definition text_prefix :: "string \<Rightarrow> nat \<Rightarrow> string" where
  "text_prefix s limit = (if length s \<le> limit then s else take (boundary_below s limit) s)"

definition text_suffix :: "string \<Rightarrow> nat \<Rightarrow> string" where
  "text_suffix s limit =
     (if length s \<le> limit then s else dropWhile is_continuation (drop (length s - limit) s))"

definition ELLIPSIS :: string where "ELLIPSIS = [CHR 0xE2, CHR 0x80, CHR 0xA6]"
definition EM_DASH :: string where "EM_DASH = [CHR 0xE2, CHR 0x80, CHR 0x94]"

definition truncate_for_projection :: "string \<Rightarrow> string" where
  "truncate_for_projection s =
     (if length s \<le> TRUNCATED_HEAD_CHARS + TRUNCATED_TAIL_CHARS then s
      else
        let hd_part = text_prefix s TRUNCATED_HEAD_CHARS;
            tl_part = text_suffix s TRUNCATED_TAIL_CHARS
        in hd_part @ [NL] @ ''['' @ ELLIPSIS @ show_nat (length s - (length hd_part + length tl_part))
             @ '' chars truncated to fit the context window; the journal keeps the full text]'' @ [NL] @ tl_part)"

definition project_text :: "compaction_outcome \<Rightarrow> element_id \<Rightarrow> string \<Rightarrow> string" where
  "project_text co i s =
     (case fmlookup (co_reductions co) i of
        Some r \<Rightarrow> if rd_text r then truncate_for_projection s else s
      | None \<Rightarrow> s)"

definition omits_arguments :: "compaction_outcome \<Rightarrow> element_id \<Rightarrow> bool" where
  "omits_arguments co i = (case fmlookup (co_reductions co) i of Some r \<Rightarrow> rd_args r | None \<Rightarrow> False)"

section \<open>The body as the projection sees it\<close>

datatype entry_role = EntryUser | EntryAssistant | EntryToolCall | EntryInstructions

record body_entry =
  be_id :: element_id
  be_role :: entry_role
  be_args :: nat
  be_text :: nat
  be_pinned :: bool
  be_flight :: bool
  be_preview :: string

definition eligible :: "body_entry \<Rightarrow> bool" where
  "eligible e \<longleftrightarrow> \<not> be_pinned e \<and> \<not> be_flight e"

definition entry_tokens :: "body_entry \<Rightarrow> nat" where
  "entry_tokens e = be_args e + be_text e + (if be_role e = EntryToolCall then 8 else 0)"

definition next_reduction :: "body_entry \<Rightarrow> reduction option \<Rightarrow> (reduction \<times> nat) option" where
  "next_reduction e done_already =
     (let r = (case done_already of Some r \<Rightarrow> r | None \<Rightarrow> no_reduction);
          shown = (if rd_text r then min TRUNCATED_BYTES (be_text e) else be_text e)
      in if be_role e = EntryToolCall \<and> \<not> rd_args r \<and> MIN_OMITTED_ARGUMENT_TOKENS < be_args e \<and> shown < be_args e
         then Some (r\<lparr>rd_args := True\<rparr>, be_args e)
         else if \<not> rd_text r \<and> TRUNCATED_BYTES < be_text e
         then Some (r\<lparr>rd_text := True\<rparr>, be_text e - TRUNCATED_BYTES)
         else None)"

text \<open>\<open>split_whitespace\<close>\<close>

function split_white :: "string \<Rightarrow> string \<Rightarrow> string list" where
  "split_white cur [] = (if cur = [] then [] else [cur])"
| "split_white cur (c # cs) =
     (if white_len (c # cs) \<noteq> 0
      then (if cur = [] then [] else [cur]) @ split_white [] (drop (white_len (c # cs)) (c # cs))
      else split_white (cur @ [c]) cs)"
  by pat_completeness auto
termination by (relation "measure (\<lambda>(_, s). length s)") (auto simp del: white_len.simps)

function first_line :: "string \<Rightarrow> string" where
  "first_line s =
     (let line = takeWhile (\<lambda>c. c \<noteq> NL) s; rest = dropWhile (\<lambda>c. c \<noteq> NL) s
      in if trim line \<noteq> [] then line else if rest = [] then [] else first_line (tl rest))"
  by pat_completeness auto

termination
proof (relation "measure length", goal_cases)
  case (2 s)
  have "length (dropWhile (\<lambda>c. c \<noteq> NL) s) \<le> length s" by (rule length_dropWhile_le)
  with 2 show ?case by (cases "dropWhile (\<lambda>c. c \<noteq> NL) s") auto
qed simp

declare first_line.simps [simp del]

definition preview_line :: "string \<Rightarrow> string" where
  "preview_line s =
     (let c = join_words '' '' (split_white [] (first_line s));
          c1 = (if MAX_PREVIEW_CHARS < length c then text_prefix c MAX_PREVIEW_CHARS @ ELLIPSIS else c)
      in if c1 = [] then ''(empty)'' else c1)"

definition is_pinned :: "element_snapshot \<Rightarrow> bool" where
  "is_pinned e \<longleftrightarrow> fmlookup (attributes e) ''pinned'' = Some (TBool True)"

text \<open>Interrupted output of the model is not sent.\<close>

definition interrupted :: "element_snapshot \<Rightarrow> bool" where
  "interrupted e \<longleftrightarrow>
     (case fmlookup (attributes e) ''status'' of
        Some (TString v) \<Rightarrow> v \<in> set [''running'', ''failed'', ''cancelled'']
      | _ \<Rightarrow> False)
     \<or> fmlookup (attributes e) ''streaming'' = Some (TBool True)"

definition string_attribute :: "element_snapshot \<Rightarrow> string \<Rightarrow> string option" where
  "string_attribute e key = (case fmlookup (attributes e) key of Some (TString v) \<Rightarrow> Some v | _ \<Rightarrow> None)"

definition usable_call_id :: "element_snapshot \<Rightarrow> string option" where
  "usable_call_id e =
     Option.bind (string_attribute e ''call_id'') (\<lambda>v. if is_ok (new_id v) then Some v else None)"

definition child_of_kind :: "session_snapshot \<Rightarrow> element_id \<Rightarrow> string \<Rightarrow> element_snapshot option" where
  "child_of_kind s i kind = find (\<lambda>c. el_kind c = kind) (children s i)"

definition tool_entry :: "text_env \<Rightarrow> session_snapshot \<Rightarrow> element_snapshot \<Rightarrow> body_entry" where
  "tool_entry tx s e =
     (let res = child_of_kind s (el_id e) ''result'';
          args = (case Option.bind (child_of_kind s (el_id e) ''input'') el_payload of
              Some j \<Rightarrow> tx_show_json tx j | None \<Rightarrow> []);
          tool = (case string_attribute e ''tool'' of Some n \<Rightarrow> n | None \<Rightarrow> ''tool'');
          res_text = (case res of Some c \<Rightarrow> el_text c | None \<Rightarrow> [])
      in \<lparr>be_id = el_id e, be_role = EntryToolCall, be_args = estimate_tokens args, be_text = estimate_tokens res_text,
          be_pinned = is_pinned e, be_flight = (res = None),
          be_preview = ''tool '' @ tool @ ''('' @ preview_line args @ '') -> '' @ preview_line res_text\<rparr>)"

definition plain_entry :: "entry_role \<Rightarrow> string \<Rightarrow> bool \<Rightarrow> element_snapshot \<Rightarrow> body_entry" where
  "plain_entry r label flight e =
     \<lparr>be_id = el_id e, be_role = r, be_args = 0, be_text = estimate_tokens (el_text e), be_pinned = is_pinned e,
      be_flight = flight, be_preview = label @ '': '' @ preview_line (el_text e)\<rparr>"

definition entry_of :: "text_env \<Rightarrow> session_snapshot \<Rightarrow> element_snapshot \<Rightarrow> body_entry option" where
  "entry_of tx s e =
     (if el_kind e = ''user'' then Some (plain_entry EntryUser ''user'' False e)
      else if el_kind e = ''assistant''
      then (if interrupted e then None else Some (plain_entry EntryAssistant ''assistant'' False e))
      else if el_kind e = ''tool_call''
      then (if usable_call_id e = None then None else Some (tool_entry tx s e))
      else if el_kind e = ''system'' \<or> el_kind e = ''steering''
      then Some (plain_entry EntryInstructions ''instructions'' True e)
      else None)"

definition collect_entries :: "text_env \<Rightarrow> session_snapshot \<Rightarrow> body_entry list option" where
  "collect_entries tx s = map_option (List.map_filter (entry_of tx s)) (get_visible_body s)"

definition user_positions :: "body_entry list \<Rightarrow> nat list" where
  "user_positions es = filter (\<lambda>i. be_role (es ! i) = EntryUser) [0..<length es]"

definition recent_turn_boundary :: "body_entry list \<Rightarrow> nat \<Rightarrow> nat" where
  "recent_turn_boundary es keep =
     (let k = max keep 1; users = user_positions es
      in if length users \<le> k then 0 else users ! (length users - k))"

definition final_turn_boundary :: "body_entry list \<Rightarrow> nat" where
  "final_turn_boundary es = (let users = user_positions es in if users = [] then 0 else last users)"

section \<open>The summary graph\<close>

record summary_dag =
  dg_nodes :: "(element_id, summary_node) fmap"
  dg_texts :: "(element_id, string) fmap"
  dg_order :: "element_id list"
  dg_children :: "element_id fset"
  dg_unreadable :: nat

definition empty_dag :: summary_dag where
  "empty_dag = \<lparr>dg_nodes = fmempty, dg_texts = fmempty, dg_order = [], dg_children = {||}, dg_unreadable = 0\<rparr>"

definition add_element :: "element_snapshot \<Rightarrow> summary_dag \<Rightarrow> summary_dag" where
  "add_element e dag =
     (case summary_of_element e of
        Inl _ \<Rightarrow> dag\<lparr>dg_unreadable := Suc (dg_unreadable dag)\<rparr>
      | Inr n \<Rightarrow>
          dag\<lparr>dg_order := dg_order dag @ [el_id e], dg_children := dg_children dag |\<union>| fset_of_list (sm_children n),
              dg_texts := fmupd (el_id e) (el_text e) (dg_texts dag), dg_nodes := fmupd (el_id e) n (dg_nodes dag)\<rparr>)"

definition dag_of :: "element_snapshot list \<Rightarrow> summary_dag" where
  "dag_of es = fold add_element es empty_dag"

definition load_dag :: "session_snapshot \<Rightarrow> summary_dag option" where
  "load_dag s = map_option (\<lambda>k. dag_of (children s k)) (container s SUMMARIES_CONTAINER)"

definition dag_roots :: "summary_dag \<Rightarrow> element_id list" where
  "dag_roots dag = filter (\<lambda>i. i |\<notin>| dg_children dag) (dg_order dag)"

definition dag_covered :: "summary_dag \<Rightarrow> element_id fset" where
  "dag_covered dag = fset_of_list (concat (map (\<lambda>(_, n). sm_covered n) (sorted_list_of_fmap (dg_nodes dag))))"

definition node_of :: "summary_dag \<Rightarrow> element_id \<Rightarrow> summary_node" where
  "node_of dag i = (case fmlookup (dg_nodes dag) i of Some n \<Rightarrow> n | None \<Rightarrow> default_summary)"

definition text_of :: "summary_dag \<Rightarrow> element_id \<Rightarrow> string" where
  "text_of dag i = (case fmlookup (dg_texts dag) i of Some t \<Rightarrow> t | None \<Rightarrow> [])"

text \<open>
  The token index of the source is the map of the estimates of \<open>dg_texts\<close>, kept up to date with
  it; it is computed from the texts here.
\<close>

definition node_tokens :: "summary_dag \<Rightarrow> element_id \<Rightarrow> nat" where
  "node_tokens dag i = (case fmlookup (dg_texts dag) i of Some t \<Rightarrow> estimate_tokens t | None \<Rightarrow> 0)"

definition projection_tokens :: "summary_dag \<Rightarrow> nat" where
  "projection_tokens dag = sum_list (map (\<lambda>i. node_tokens dag i + NODE_HEADER_TOKENS) (dag_roots dag))"

definition render_fold :: "summary_dag \<Rightarrow> element_id \<Rightarrow> string" where
  "render_fold dag i =
     (let n = node_of dag i; k = max (length (expand_covered (dg_nodes dag) i)) (length (sm_covered n))
      in ''[compacted '' @ show_nat k @ '' earlier elements, ~'' @ show_nat (sm_tokens n)
         @ '' tokens. Expand the originals with Read summary://'' @ i @ '']'' @ [NL] @ text_of dag i)"

definition dag_folds :: "summary_dag \<Rightarrow> message_fold list" where
  "dag_folds dag =
     map (\<lambda>i. Handoff (render_fold dag i) (length (expand_covered (dg_nodes dag) i)) (sm_tokens (node_of dag i)))
       (dag_roots dag)"

definition reduced_cost :: "(element_id, reduction) fmap \<Rightarrow> body_entry \<Rightarrow> nat" where
  "reduced_cost reds e =
     (case fmlookup reds (be_id e) of
        None \<Rightarrow> entry_tokens e
      | Some r \<Rightarrow>
          let c0 = entry_tokens e;
              c1 = (if rd_args r then c0 - be_args e else c0)
          in if rd_text r then c1 - (be_text e - TRUNCATED_BYTES) else c1)"

definition projected_tokens ::
  "body_entry list \<Rightarrow> element_id fset \<Rightarrow> summary_dag \<Rightarrow> (element_id, reduction) fmap \<Rightarrow> nat \<Rightarrow> nat" where
  "projected_tokens es cov dag reds overhead =
     overhead + sum_list (map (reduced_cost reds) (filter (\<lambda>e. be_id e |\<notin>| cov) es)) + projection_tokens dag"

section \<open>Writing nodes\<close>

definition create_node ::
  "host_world \<Rightarrow> actor_id \<Rightarrow> journal \<Rightarrow> summary_node \<Rightarrow> summary_kind \<Rightarrow> string
   \<Rightarrow> (journal \<times> (structured_error, element_id) result) option" where
  "create_node w owner j n kind txt =
     (let s = jn_snapshot j in
      map_option (\<lambda>k.
          case new_id (''sum-'' @ mint w j 0) of
            Inl e \<Rightarrow> (j, Inl e)
          | Inr i \<Rightarrow>
              (case host_append w owner j (ss_offset s) (''compact context ('' @ summary_kind_str kind @ '')'')
                      [Create k (count_u32 s k) (summary_element n i kind txt)] of
                 (j', Inl e) \<Rightarrow> (j', Inl e)
               | (j', Inr _) \<Rightarrow> (j', Inr i)))
        (container s SUMMARIES_CONTAINER))"

definition replace_node_text ::
  "host_world \<Rightarrow> actor_id \<Rightarrow> journal \<Rightarrow> element_id \<Rightarrow> string \<Rightarrow> journal \<times> (structured_error, unit) result" where
  "replace_node_text w owner j i txt =
     host_append w owner j (ss_offset (jn_snapshot j)) ''cap compacted inventory'' [ReplaceText i txt]"

definition render_inventory :: "body_entry list \<Rightarrow> element_id list \<Rightarrow> string" where
  "render_inventory es ids =
     ''Elided transcript elements (originals retrievable by id):'' @ [NL] @
     concat (map (\<lambda>i. ''- '' @ (case find (\<lambda>e. be_id e = i) (rev es) of
           Some e \<Rightarrow> be_preview e | None \<Rightarrow> ''(element no longer in the transcript)'') @ [NL]) ids)"

definition render_condensed :: "summary_dag \<Rightarrow> element_id list \<Rightarrow> string" where
  "render_condensed dag ids =
     ''Condensed summary of earlier compactions (children keep the originals):'' @ [NL] @
     concat (map (\<lambda>i. ''- summary://'' @ i @ '' '' @ EM_DASH @ '' ''
         @ show_nat (max (length (expand_covered (dg_nodes dag) i)) (length (sm_covered (node_of dag i))))
         @ '' elements, ~'' @ show_nat (sm_tokens (node_of dag i)) @ '' tokens'' @ [NL]) ids)"

definition cap_node_text :: "string \<Rightarrow> string" where
  "cap_node_text s =
     text_prefix s (MAX_NODE_TEXT_BYTES div 2) @ [NL] @ ''['' @ ELLIPSIS
       @ ''] inventory capped; expand individual nodes with Read summary://<id>''"

text \<open>The caller has checked that \<open>ids\<close> is not empty.\<close>

definition commit_elision ::
  "host_world \<Rightarrow> actor_id \<Rightarrow> journal \<Rightarrow> body_entry list \<Rightarrow> element_id list \<Rightarrow> summary_dag
   \<Rightarrow> (journal \<times> (structured_error, summary_dag) result) option" where
  "commit_elision w owner j es ids dag =
     (let total = sum_list (List.map_filter (\<lambda>i. map_option entry_tokens (find (\<lambda>e. be_id e = i) (rev es))) ids);
          n = \<lparr>sm_covered = ids, sm_children = [], sm_tokens = total, sm_offset = ss_offset (jn_snapshot j)\<rparr>;
          txt = render_inventory es ids
      in map_option (\<lambda>(j', r). (j', case r of
           Inl e \<Rightarrow> Inl e
         | Inr i \<Rightarrow> Inr (dag\<lparr>dg_order := dg_order dag @ [i], dg_nodes := fmupd i n (dg_nodes dag),
                             dg_texts := fmupd i txt (dg_texts dag)\<rparr>)))
         (create_node w owner j n Leaf txt))"

section \<open>The plan\<close>

text \<open>Stage 1: from the oldest element on, until the target is reached.\<close>

fun soft_pass :: "nat \<Rightarrow> element_id fset \<Rightarrow> body_entry list \<Rightarrow> nat \<Rightarrow> element_id list \<times> nat" where
  "soft_pass target cov [] simulated = ([], simulated)"
| "soft_pass target cov (e # es) simulated =
     (if simulated \<le> target then ([], simulated)
      else if \<not> eligible e \<or> be_id e |\<in>| cov then soft_pass target cov es simulated
      else if entry_tokens e \<le> INVENTORY_LINE_TOKENS + NODE_HEADER_TOKENS then soft_pass target cov es simulated
      else (case soft_pass target cov es
                  (simulated - (entry_tokens e - (INVENTORY_LINE_TOKENS + NODE_HEADER_TOKENS))) of
              (ids, rest) \<Rightarrow> (be_id e # ids, rest)))"

text \<open>Stage 2: the whole completed history.\<close>

definition hard_pass :: "element_id fset \<Rightarrow> body_entry list \<Rightarrow> element_id list \<Rightarrow> element_id list" where
  "hard_pass cov es pending =
     fold (\<lambda>e p. if eligible e \<and> be_id e |\<notin>| cov \<and> be_id e \<notin> set p then p @ [be_id e] else p) es pending"

definition plan_elision :: "compaction_config \<Rightarrow> body_entry list \<Rightarrow> element_id fset \<Rightarrow> nat \<Rightarrow> element_id list" where
  "plan_elision cfg es cov projected =
     (let (pending, simulated) =
            (if should_trigger (cc_budget cfg) projected
             then soft_pass (target_tokens (cc_budget cfg)) cov (take (recent_turn_boundary es (cc_keep cfg)) es) projected
             else ([], projected))
      in if exceeds_hard_bound (cc_budget cfg) simulated
         then hard_pass cov (take (final_turn_boundary es) es) pending
         else pending)"

text \<open>
  Stage 2b: condensing folds the oldest roots.  The loop is bounded by the number of roots; running out of \<open>fuel\<close> is
  \<open>None\<close>, as a panic is.
\<close>

fun condense_loop ::
  "nat \<Rightarrow> host_world \<Rightarrow> actor_id \<Rightarrow> nat \<Rightarrow> journal \<Rightarrow> summary_dag
   \<Rightarrow> (journal \<times> (structured_error, summary_dag) result) option" where
  "condense_loop 0 w owner limit j dag = None"
| "condense_loop (Suc fuel) w owner limit j dag =
     (if length (dag_roots dag) \<le> max limit 1 then Some (j, Inr dag)
      else
        let ids = take CONDENSE_FAN_IN (dag_roots dag) in
        if length ids < 2 then Some (j, Inr dag)
        else (case create_node w owner j
                \<lparr>sm_covered = [], sm_children = ids,
                 sm_tokens = sum_list (map (\<lambda>i. sm_tokens (node_of dag i)) ids),
                 sm_offset = ss_offset (jn_snapshot j)\<rparr> Condensed (render_condensed dag ids) of
            None \<Rightarrow> None
          | Some (j', Inl e) \<Rightarrow> Some (j', Inl e)
          | Some (j', Inr _) \<Rightarrow>
              (case load_dag (jn_snapshot j') of
                 None \<Rightarrow> None
               | Some dag' \<Rightarrow> condense_loop fuel w owner limit j' dag')))"

fun truncation_rank :: "entry_role \<Rightarrow> nat" where
  "truncation_rank EntryToolCall = 0"
| "truncation_rank EntryAssistant = 1"
| "truncation_rank EntryUser = 2"
| "truncation_rank EntryInstructions = 3"

definition better :: "body_entry \<times> reduction \<times> nat \<Rightarrow> body_entry \<times> reduction \<times> nat \<Rightarrow> bool" where
  "better x y \<longleftrightarrow>
     (let a = truncation_rank (be_role (fst x)); b = truncation_rank (be_role (fst y))
      in a < b \<or> a = b \<and> snd (snd y) < snd (snd x))"

fun first_best :: "(body_entry \<times> reduction \<times> nat) list \<Rightarrow> (body_entry \<times> reduction \<times> nat) option" where
  "first_best [] = None"
| "first_best (x # xs) =
     (case first_best xs of None \<Rightarrow> Some x | Some y \<Rightarrow> Some (if better y x then y else x))"

definition candidates ::
  "body_entry list \<Rightarrow> element_id fset \<Rightarrow> (element_id, reduction) fmap \<Rightarrow> (body_entry \<times> reduction \<times> nat) list" where
  "candidates es cov reds =
     List.map_filter (\<lambda>e. map_option (\<lambda>(r, n). (e, r, n)) (next_reduction e (fmlookup reds (be_id e))))
       (filter (\<lambda>e. be_role e \<noteq> EntryInstructions) (filter (\<lambda>e. be_id e |\<notin>| cov) es))"

lemma first_best_mem: "first_best xs = Some x \<Longrightarrow> x \<in> set xs"
  by (induction xs arbitrary: x) (auto split: option.splits if_splits)

text \<open>How many reductions the body can still take.\<close>

definition flags_used :: "reduction option \<Rightarrow> nat" where
  "flags_used r = (case r of None \<Rightarrow> 0 | Some r \<Rightarrow> of_bool (rd_text r) + of_bool (rd_args r))"

definition reductions_left :: "body_entry list \<Rightarrow> (element_id, reduction) fmap \<Rightarrow> nat" where
  "reductions_left es reds = (\<Sum>i\<in>be_id ` set es. 2 - flags_used (fmlookup reds i))"

lemma next_reduction_flags:
  assumes "next_reduction e r = Some (r', n)"
  shows "flags_used (Some r') = Suc (flags_used r)" "flags_used r < 2" "0 < n"
proof -
  define r0 where "r0 = (case r of Some r \<Rightarrow> r | None \<Rightarrow> no_reduction)"
  have f: "flags_used r = of_bool (rd_text r0) + of_bool (rd_args r0)"
    by (simp add: r0_def flags_used_def no_reduction_def split: option.splits)
  from assms have "(r' = r0\<lparr>rd_args := True\<rparr> \<and> \<not> rd_args r0 \<and> 0 < n) \<or> (r' = r0\<lparr>rd_text := True\<rparr> \<and> \<not> rd_text r0 \<and> 0 < n)"
    unfolding next_reduction_def r0_def[symmetric] by (auto simp: Let_def split: if_splits)
  then show "flags_used (Some r') = Suc (flags_used r)" "flags_used r < 2" "0 < n"
    unfolding f by (auto simp: flags_used_def)
qed

lemma reduction_decreases:
  assumes "first_best (candidates es cov reds) = Some (e, r, n)"
  shows "reductions_left es (fmupd (be_id e) r reds) < reductions_left es reds"
proof -
  from first_best_mem[OF assms] have e: "e \<in> set es" and n: "next_reduction e (fmlookup reds (be_id e)) = Some (r, n)"
    by (auto simp: candidates_def List.map_filter_def)
  note f = next_reduction_flags[OF n]
  have i: "be_id e \<in> be_id ` set es" using e by simp
  show ?thesis
    unfolding reductions_left_def
  proof (rule sum_strict_mono_ex1)
    show "\<exists>i\<in>be_id ` set es. 2 - flags_used (fmlookup (fmupd (be_id e) r reds) i) < 2 - flags_used (fmlookup reds i)"
      by (rule bexI[OF _ i]) (use f in simp)
  qed (use f in auto)
qed

text \<open>Stage 3: shortening, the cheapest loss first.\<close>

function reduce_loop ::
  "compaction_config \<Rightarrow> body_entry list \<Rightarrow> element_id fset \<Rightarrow> summary_dag \<Rightarrow> (element_id, reduction) fmap
   \<Rightarrow> (element_id, reduction) fmap" where
  "reduce_loop cfg es cov dag reds =
     (if exceeds_hard_bound (cc_budget cfg) (projected_tokens es cov dag reds (cc_overhead cfg))
      then (case first_best (candidates es cov reds) of
          None \<Rightarrow> reds
        | Some x \<Rightarrow> reduce_loop cfg es cov dag (fmupd (be_id (fst x)) (fst (snd x)) reds))
      else reds)"
  by pat_completeness auto
termination
  by (relation "measure (\<lambda>(_, es, _, _, reds). reductions_left es reds)") (auto intro: reduction_decreases)

declare reduce_loop.simps [simp del]

text \<open>Last: the texts of the nodes, one after the other.\<close>

fun cap_loop ::
  "nat \<Rightarrow> host_world \<Rightarrow> actor_id \<Rightarrow> compaction_config \<Rightarrow> body_entry list \<Rightarrow> element_id fset
   \<Rightarrow> (element_id, reduction) fmap \<Rightarrow> journal \<Rightarrow> summary_dag
   \<Rightarrow> (journal \<times> (structured_error, summary_dag) result) option" where
  "cap_loop 0 w owner cfg es cov reds j dag = None"
| "cap_loop (Suc fuel) w owner cfg es cov reds j dag =
     (if \<not> exceeds_hard_bound (cc_budget cfg) (projected_tokens es cov dag reds (cc_overhead cfg))
      then Some (j, Inr dag)
      else (case find (\<lambda>i. MAX_NODE_TEXT_BYTES < length (text_of dag i)) (dag_roots dag) of
          None \<Rightarrow> Some (j, Inr dag)
        | Some i \<Rightarrow>
            let capped = cap_node_text (text_of dag i) in
            (case replace_node_text w owner j i capped of
               (j', Inl e) \<Rightarrow> Some (j', Inl e)
             | (j', Inr _) \<Rightarrow>
                 cap_loop fuel w owner cfg es cov reds j' (dag\<lparr>dg_texts := fmupd i capped (dg_texts dag)\<rparr>))))"

definition finish_plan ::
  "host_world \<Rightarrow> actor_id \<Rightarrow> compaction_config \<Rightarrow> body_entry list \<Rightarrow> element_id fset \<Rightarrow> journal \<Rightarrow> summary_dag
   \<Rightarrow> (journal \<times> (structured_error, compaction_outcome) result) option" where
  "finish_plan w owner cfg es cov j dag =
     (case condense_loop (Suc (length (dag_roots dag))) w owner (cc_max_roots cfg) j dag of
        None \<Rightarrow> None
      | Some (j1, Inl e) \<Rightarrow> Some (j1, Inl e)
      | Some (j1, Inr dag1) \<Rightarrow>
          let reds = reduce_loop cfg es cov dag1 fmempty in
          (case cap_loop (Suc (length (dag_roots dag1))) w owner cfg es cov reds j1 dag1 of
             None \<Rightarrow> None
           | Some (j2, Inl e) \<Rightarrow> Some (j2, Inl e)
           | Some (j2, Inr dag2) \<Rightarrow>
               Some (j2, Inr \<lparr>co_folds = dag_folds dag2, co_covered = cov, co_reductions = reds\<rparr>)))"

definition plan ::
  "text_env \<Rightarrow> host_world \<Rightarrow> actor_id \<Rightarrow> compaction_config \<Rightarrow> journal
   \<Rightarrow> (journal \<times> (structured_error, compaction_outcome) result) option" where
  "plan tx w owner cfg j =
     Option.bind (collect_entries tx (jn_snapshot j)) (\<lambda>es.
     Option.bind (load_dag (jn_snapshot j)) (\<lambda>dag.
       let cov = dag_covered dag in
       if 0 < dg_unreadable dag
       then Some (j, Inr \<lparr>co_folds = dag_folds dag, co_covered = cov, co_reductions = fmempty\<rparr>)
       else
         let pending = plan_elision cfg es cov (projected_tokens es cov dag fmempty (cc_overhead cfg)) in
         if pending = [] then finish_plan w owner cfg es cov j dag
         else (case commit_elision w owner j es pending dag of
             None \<Rightarrow> None
           | Some (j1, Inl e) \<Rightarrow> Some (j1, Inl e)
           | Some (j1, Inr dag1) \<Rightarrow> finish_plan w owner cfg es (cov |\<union>| fset_of_list pending) j1 dag1)))"

end
