(* ===== verification/HostProps.thy ===== *)
theory HostProps
  imports Host DirectorClaims DomView JournalLog "HOL-Library.Sublist"
begin

text \<open>
  How the stack of directors and the document keep up with each other: what a yield does to the
  stack, what the operations of \<open>sync_ops\<close> do to the children of the container, and that the
  stack read from the document afterwards is the stack that was written.
\<close>

section \<open>What a yield does to the stack\<close>

definition ident :: "director \<Rightarrow> string \<times> string" where
  "ident d = (director_id_of d, director_kind d)"

lemma subseq_vec_remove: "subseq (vec_remove i xs) xs"
proof -
  have "subseq (take i xs @ drop (Suc i) xs) (take i xs @ drop i xs)"
    by (intro list_emb_append_mono subseq_order.refl)
      (metis drop_Suc drop_tl subseq_order.refl subseq_drop_many tl_drop suffix_imp_subseq suffix_drop drop_drop add.commute plus_1_eq_Suc)
  then show ?thesis by (simp add: vec_remove_def)
qed

lemma yield_loop_shape:
  "yield_loop tx alnum a t i ds = (ds', r) \<Longrightarrow> i \<le> length ds \<Longrightarrow>
     subseq (map ident ds') (map ident ds) \<and> (list_all recordable ds \<longrightarrow> list_all recordable ds')"
proof (induction i arbitrary: ds)
  case 0
  then show ?case by simp
next
  case (Suc i)
  obtain d dec where y: "on_yield tx alnum (ds ! i) a t = (d, Inr dec)"
    using on_yield_never_fails by (metis prod.collapse)
  have i: "i < length ds" using Suc.prems(2) by simp
  have d: "d = fst (on_yield tx alnum (ds ! i) a t)" by (simp add: y)
  have same: "map ident (ds[i := d]) = map ident ds"
    using i by (simp add: d map_update ident_def list_update_same_conv)
  have du: "list_all recordable (ds[i := d])" if "list_all recordable ds"
    using that i on_yield_recordable[of "ds ! i" tx alnum a t]
    by (auto simp: list_all_iff d dest!: subsetD[OF set_update_subset_insert])
  have step: "yield_loop tx alnum a t (Suc i) ds =
      (if dec = Pass then yield_loop tx alnum a t i (ds[i := d])
       else if dec = Done then yield_loop tx alnum a t i (vec_remove i (ds[i := d]))
       else (ds[i := d], Inr dec))"
    by (simp add: y)
  consider "dec = Pass" | "dec = Done" | "dec \<notin> {Pass, Done}" by blast
  then show ?case
  proof cases
    case 1
    with Suc.prems(1) step have "yield_loop tx alnum a t i (ds[i := d]) = (ds', r)" by simp
    from Suc.IH[OF this] i same du show ?thesis by simp
  next
    case 2
    with Suc.prems(1) step have "yield_loop tx alnum a t i (vec_remove i (ds[i := d])) = (ds', r)" by simp
    note ih = Suc.IH[OF this]
    have "subseq (map ident (vec_remove i (ds[i := d]))) (map ident ds)"
      using subseq_map[OF subseq_vec_remove, of ident i "ds[i := d]"] same by simp
    moreover have "list_all recordable (vec_remove i (ds[i := d]))" if "list_all recordable ds"
      using du[OF that] vec_remove_subset[of i "ds[i := d]"] by (auto simp: list_all_iff)
    moreover have "i \<le> length (vec_remove i (ds[i := d]))" using i by (simp add: vec_remove_def)
    ultimately show ?thesis using ih subseq_order.trans by blast
  next
    case 3
    with Suc.prems(1) step have "ds' = ds[i := d]" by auto
    with same du show ?thesis by simp
  qed
qed

lemma subseq_subset: "subseq xs ys \<Longrightarrow> set xs \<subseteq> set ys"
  by (auto elim: list_emb_set)

lemma subseq_filter_eq:
  "subseq xs ys \<Longrightarrow> distinct ys \<Longrightarrow> filter (\<lambda>y. y \<in> set xs) ys = xs"
proof (induction rule: list_emb.induct)
  case (list_emb_Nil ys)
  then show ?case by simp
next
  case (list_emb_Cons xs ys y)
  with subseq_subset[OF list_emb_Cons.hyps] show ?case by auto
next
  case (list_emb_Cons2 x y xs ys)
  then have "filter (\<lambda>z. z = y \<or> z \<in> set xs) ys = filter (\<lambda>z. z \<in> set xs) ys"
    by (intro filter_cong) auto
  with list_emb_Cons2 show ?case by simp
qed

section \<open>What the operations do to the container\<close>

lemma apply_ops_append:
  "apply_ops s (xs @ ys) us = (s', Inr ()) \<Longrightarrow>
     \<exists>t vs. apply_ops s xs us = (t, Inr ()) \<and> apply_ops t ys vs = (s', Inr ())"
proof (induction xs arbitrary: s us)
  case (Cons x xs)
  then show ?case by (auto split: prod.splits sum.splits)
qed auto

text \<open>The container stays where it is; its children are the abstract state.\<close>

definition container_is :: "session_snapshot \<Rightarrow> element_id \<Rightarrow> element_snapshot list \<Rightarrow> bool" where
  "container_is s k es \<longleftrightarrow> wf_snapshot s \<and> fmlookup (ss_nodes s) k \<noteq> None \<and> children s k = es"

lemma container_is_ids:
  assumes "container_is s k es"
  obtains n where "fmlookup (ss_nodes s) k = Some n" "nd_children n = map el_id es"
    "distinct (map el_id es)" "\<And>e. e \<in> set es \<Longrightarrow> snap_element s (el_id e) = Some e"
proof -
  obtain n where n: "fmlookup (ss_nodes s) k = Some n" and wf: "wf_snapshot s" and es: "children s k = es"
    using assms by (auto simp: container_is_def)
  have el: "\<exists>e. snap_element s c = Some e \<and> el_id e = c" if "c \<in> set (nd_children n)" for c
    using child_element[OF wf n that] .
  have m: "es = map (the \<circ> snap_element s) (nd_children n)" using children_map[OF wf n] es by simp
  have ids: "map el_id es = nd_children n"
    unfolding m map_map by (rule map_idI) (use el in force)
  show thesis
    by (rule that[OF n ids[symmetric]])
      (use linkedD(1)[OF wf_snapshotD(1)[OF wf] n] ids el m in force)+
qed

fun with_state :: "patch_op \<Rightarrow> element_snapshot \<Rightarrow> element_snapshot" where
  "with_state (ReplacePayload i j) e = (if el_id e = i then e\<lparr>el_payload := Some j\<rparr> else e)"
| "with_state _ e = e"

fun is_replace :: "patch_op \<Rightarrow> bool" where
  "is_replace (ReplacePayload _ _) = True"
| "is_replace _ = False"

lemma replaces_container:
  "apply_ops s xs us = (s', Inr ()) \<Longrightarrow> list_all is_replace xs \<Longrightarrow> container_is s k es
     \<Longrightarrow> container_is s' k (map (fold with_state xs) es)"
proof (induction xs arbitrary: s us es)
  case (Cons x xs)
  then obtain i j where x: "x = ReplacePayload i j" by (cases x) auto
  from Cons.prems(1) obtain t u where t: "apply_one s x = (t, Inr u)" "apply_ops t xs (u # us) = (s', Inr ())"
    by (auto split: prod.splits sum.splits)
  have wf: "wf_snapshot s" using Cons.prems(3) by (simp add: container_is_def)
  from t(1) have e: "edit_element s i (\<lambda>e. e\<lparr>el_payload := Some j\<rparr>) (\<lambda>e. UndoPayload i (el_payload e)) = (t, Inr u)"
    by (simp add: x)
  have "container_is t k (map (with_state x) es)"
    using children_edit[OF wf e, of k] edit_element_ok[OF e wf] edit_element_undo[OF e] Cons.prems(3)
    by (auto simp: container_is_def x fmlookup_modify_node)
  from Cons.IH[OF t(2) _ this] Cons.prems(2) show ?case by (simp add: comp_def)
qed simp

lemma deletes_container:
  "apply_ops s (map Delete ds) us = (s', Inr ()) \<Longrightarrow> distinct ds \<Longrightarrow> set ds \<subseteq> el_id ` set es \<Longrightarrow> container_is s k es
     \<Longrightarrow> container_is s' k (filter (\<lambda>e. el_id e \<notin> set ds) es)"
proof (induction ds arbitrary: s us es)
  case (Cons d ds)
  from Cons.prems(1) obtain t u where t: "apply_one s (Delete d) = (t, Inr u)" "apply_ops t (map Delete ds) (u # us) = (s', Inr ())"
    by (auto split: prod.splits sum.splits)
  obtain n where n: "fmlookup (ss_nodes s) k = Some n" "nd_children n = map el_id es"
    using container_is_ids[OF Cons.prems(4)] by metis
  have wf: "wf_snapshot s" using Cons.prems(4) by (simp add: container_is_def)
  have d: "d \<in> set (nd_children n)" using Cons.prems(3) n(2) by auto
  have t': "container_is t k (filter (\<lambda>e. el_id e \<noteq> d) es)"
    using children_delete[OF wf t(1) n(1) d] apply_one_wf[OF wf t(1)] Cons.prems(4)
      delete_removes_subtree[OF wf t(1), of k] siblings_apart(1)[OF wf n(1) d d] n(1)
    by (simp add: container_is_def snap_node_def)
  have "set ds \<subseteq> el_id ` set (filter (\<lambda>e. el_id e \<noteq> d) es)"
    using Cons.prems(2,3) by (simp add: subset_iff image_iff) metis
  from Cons.IH[OF t(2) _ this t'] Cons.prems(2) show ?case by (simp add: conj_commute)
qed simp

section \<open>The stack comes back\<close>

text \<open>An element of the container and a director agree when the element is read as the director.\<close>

definition same_director :: "element_snapshot \<Rightarrow> director \<Rightarrow> bool" where
  "same_director e d \<longleftrightarrow> ident d = (ds_id (spec_of_element e), ds_kind (spec_of_element e))"

lemma from_specs_all2:
  "from_specs sps = Inr ds \<Longrightarrow> list_all2 (\<lambda>sp d. create_director_from_spec sp = Inr d) sps ds"
proof (induction sps arbitrary: ds)
  case (Cons sp sps)
  then show ?case by (auto simp: try_bind_Inr_iff)
qed simp

lemma spec_of_element_fields:
  assumes "valid_id (el_id e)"
  shows "ds_id (spec_of_element e) = el_id e"
  using assms by (simp add: spec_of_element_def new_id_Inr_iff[THEN iffD2])

lemma spec_with_state:
  "ds_kind (spec_of_element (e\<lparr>el_payload := Some j\<rparr>)) = ds_kind (spec_of_element e)"
  "ds_state (spec_of_element (e\<lparr>el_payload := Some j\<rparr>)) = j"
  by (simp_all add: spec_of_element_def split: option.splits typed_value.splits)

text \<open>The states that are written: each element of a director on the stack gets its state.\<close>

lemma update_states:
  assumes "distinct (map director_id_of ds)" "list_all (\<lambda>d. valid_id (director_id_of d)) ds"
    and "\<And>e. e \<in> set es \<Longrightarrow> el_id e \<in> director_id_of ` set ds \<Longrightarrow> snap_element s (el_id e) = Some e"
  shows "map (fold with_state (List.map_filter (update_op s) (to_specs ds))) es =
    map (\<lambda>e. case find (\<lambda>d. director_id_of d = el_id e) ds of
        Some d \<Rightarrow> e\<lparr>el_payload := Some (director_state d)\<rparr> | None \<Rightarrow> e) es"
proof (rule map_cong[OF refl])
  have keep: "el_id (with_state x e) = el_id e" for x e by (cases x) auto
  have fold_id: "el_id (fold with_state xs e) = el_id e" for xs e by (induction xs arbitrary: e) (simp_all add: keep)
  have absent: "fold with_state (List.map_filter (update_op s) (to_specs ds)) e = e"
    if "list_all (\<lambda>d. valid_id (director_id_of d)) ds" "el_id e \<notin> director_id_of ` set ds" for ds e
    using that
    by (induction ds)
      (auto simp: to_specs_def List.map_filter_simps update_op_def spec_element_def to_spec_def new_id_Inr_iff[THEN iffD2]
        split: option.splits)
  fix e assume "e \<in> set es"
  with assms have "el_id e \<in> director_id_of ` set ds \<Longrightarrow> snap_element s (el_id e) = Some e" by blast
  with assms(1,2)
  show "fold with_state (List.map_filter (update_op s) (to_specs ds)) e =
      (case find (\<lambda>d. director_id_of d = el_id e) ds of
        Some d \<Rightarrow> e\<lparr>el_payload := Some (director_state d)\<rparr> | None \<Rightarrow> e)"
  proof (induction ds)
    case Nil
    then show ?case by (simp add: to_specs_def List.map_filter_simps)
  next
    case (Cons d ds)
    have i: "spec_element (to_spec d) = Some (director_id_of d)"
      using Cons.prems(2) by (simp add: spec_element_def to_spec_def new_id_Inr_iff[THEN iffD2])
    show ?case
    proof (cases "director_id_of d = el_id e")
      case False
      then have "fold with_state (List.map_filter (update_op s) (to_specs (d # ds))) e
          = fold with_state (List.map_filter (update_op s) (to_specs ds)) e"
        by (auto simp: to_specs_def List.map_filter_simps update_op_def i split: option.splits)
      with Cons False show ?thesis by simp
    next
      case True
      with Cons.prems have s: "snap_element s (el_id e) = Some e" "el_id e \<notin> director_id_of ` set ds" by auto
      have up: "update_op s (to_spec d) =
          (if el_payload e \<noteq> Some (director_state d) then Some (ReplacePayload (el_id e) (director_state d)) else None)"
        using True s(1) i by (simp add: update_op_def) (simp add: to_spec_def)
      have nop: "e\<lparr>el_payload := Some (director_state d)\<rparr> = e" if "el_payload e = Some (director_state d)"
        using that by (cases e) simp
      from up have "fold with_state (List.map_filter (update_op s) (to_specs (d # ds))) e
          = fold with_state (List.map_filter (update_op s) (to_specs ds)) (e\<lparr>el_payload := Some (director_state d)\<rparr>)"
        by (cases "el_payload e = Some (director_state d)") (simp_all add: to_specs_def List.map_filter_simps nop)
      with True s(2) Cons.prems(2) absent[of ds "e\<lparr>el_payload := Some (director_state d)\<rparr>"] show ?thesis by simp
    qed
  qed
qed


text \<open>
  The states the stack has after a yield are those the document has after the patch of
  \<open>sync_ops\<close>: a stack read from the document is the stack that was written.
\<close>

lemma sync_restores:
  assumes c: "container_is s ''directors'' es" and v: "list_all (\<lambda>e. valid_id (el_id e)) es"
    and h: "from_specs (map spec_of_element es) = Inr ds0"
    and ds: "subseq (map ident ds) (map ident ds0)" "list_all recordable ds"
    and x: "sync_ops s ds = Some xs" "apply_ops s xs [] = (s', Inr ())"
  shows "\<exists>es'. container_is s' ''directors'' es' \<and> from_specs (map spec_of_element es') = Inr ds"
proof -
  obtain n where n: "fmlookup (ss_nodes s) ''directors'' = Some n" "distinct (map el_id es)"
    "\<And>e. e \<in> set es \<Longrightarrow> snap_element s (el_id e) = Some e"
    using container_is_ids[OF c] by metis
  have wf: "wf_snapshot s" and ch: "children s ''directors'' = es" using c by (simp_all add: container_is_def)
  note k = wf_container[OF wf, of "''directors''", unfolded ROOTS_def, simplified]
  have id0: "map ident ds0 = map (\<lambda>e. (el_id e, ds_kind (spec_of_element e))) es"
  proof -
    have "list_all2 (\<lambda>e d. create_director_from_spec (spec_of_element e) = Inr d) es ds0"
      using from_specs_all2[OF h] by (simp add: list_all2_map1)
    then show ?thesis using v
      by (induction rule: list_all2_induct) (auto simp: ident_def spec_of_element_fields dest!: created_recordable)
  qed
  define ids where "ids = map director_id_of ds"
  have fst_ident: "map fst (map ident ds) = ids" by (simp add: ids_def ident_def comp_def)
  have dist: "distinct (map ident ds0)"
    using n(2) by (simp add: id0 distinct_map inj_on_def)
  have sub: "subseq ids (map el_id es)"
    using subseq_map[OF ds(1), of fst] fst_ident id0 by (simp add: comp_def)
  have di: "distinct ids" using subseq_filter_eq[OF sub n(2)] n(2) by (metis distinct_filter)
  define f where "f = (\<lambda>e :: element_snapshot. (el_id e, ds_kind (spec_of_element e)))"
  define kept where "kept = filter (\<lambda>e. el_id e \<in> set ids) es"
  have mem: "el_id e \<in> set ids \<longleftrightarrow> f e \<in> set (map ident ds)" if e: "e \<in> set es" for e
  proof
    assume "el_id e \<in> set ids"
    then obtain d where d: "d \<in> set ds" "director_id_of d = el_id e" by (auto simp: ids_def)
    then have "ident d \<in> f ` set es" using subseq_subset[OF ds(1)] id0 by (auto simp: f_def)
    then obtain e' where e': "e' \<in> set es" "ident d = f e'" by auto
    then have "e' = e" using n(2) e d(2) by (auto simp: f_def ident_def distinct_map inj_on_def)
    with d(1) e'(2) show "f e \<in> set (map ident ds)" by force
  next
    assume "f e \<in> set (map ident ds)"
    then show "el_id e \<in> set ids" by (auto simp: f_def ids_def ident_def)
  qed
  have "map f kept = filter (\<lambda>p. p \<in> set (map ident ds)) (map f es)"
    unfolding kept_def filter_map comp_def by (intro arg_cong[of _ _ "map f"] filter_cong) (use mem in auto)
  also have "\<dots> = map ident ds"
    using subseq_filter_eq[OF ds(1) dist] id0 by (simp add: f_def)
  finally have m: "map f kept = map ident ds" .
  have len: "length kept = length ds" by (rule map_eq_imp_length_eq[OF m])
  have "f (kept ! i) = ident (ds ! i)" if "i < length ds" for i
    using arg_cong[OF m, of "\<lambda>l. l ! i"] that len by simp
  with len have pairs: "list_all2 (\<lambda>e d. f e = ident d) kept ds" by (simp add: list_all2_conv_all_nth)
  define upd where "upd = (\<lambda>e :: element_snapshot. case find (\<lambda>d. director_id_of d = el_id e) ds of
      Some d \<Rightarrow> e\<lparr>el_payload := Some (director_state d)\<rparr> | None \<Rightarrow> e)"
  define dels where "dels = map el_id (filter (\<lambda>e. \<not> on_stack (to_specs ds) e) es)"
  have stack: "on_stack (to_specs ds) e \<longleftrightarrow> el_id e \<in> set ids" for e
    by (auto simp: on_stack_def to_specs_def to_spec_def list_ex_iff ids_def intro: rev_image_eqI)
  have xs: "xs = List.map_filter (update_op s) (to_specs ds) @ map Delete dels"
    using x(1) k(2,3) ch by (simp add: sync_ops_def active_directors_def dels_def comp_def)
  obtain t vs where t: "apply_ops s (List.map_filter (update_op s) (to_specs ds)) [] = (t, Inr ())"
    "apply_ops t (map Delete dels) vs = (s', Inr ())"
    using apply_ops_append[OF x(2)[unfolded xs]] by blast
  have "list_all is_replace (List.map_filter (update_op s) (to_specs ds))"
    by (induction ds) (auto simp: to_specs_def List.map_filter_simps update_op_def split: option.splits if_splits bind_splits)
  note r = replaces_container[OF t(1) this c]
  have vd: "list_all (\<lambda>d. valid_id (director_id_of d)) ds"
    using subseq_subset[OF sub] v by (auto simp: list_all_iff ids_def)
  have "map (fold with_state (List.map_filter (update_op s) (to_specs ds))) es = map upd es"
    unfolding upd_def by (rule update_states[OF di[unfolded ids_def] vd]) (use n(3) in auto)
  with r have t': "container_is t ''directors'' (map upd es)" by simp
  have uid: "el_id (upd e) = el_id e" for e by (simp add: upd_def split: option.splits)
  have "distinct dels" using n(2) by (simp add: dels_def distinct_map_filter)
  moreover have "set dels \<subseteq> el_id ` set (map upd es)" using uid by (auto simp: dels_def image_image)
  ultimately have "container_is s' ''directors'' (filter (\<lambda>e. el_id e \<notin> set dels) (map upd es))"
    using deletes_container[OF t(2) _ _ t'] by blast
  moreover have "filter (\<lambda>e. el_id e \<notin> set dels) (map upd es) = map upd kept"
    unfolding filter_map comp_def uid kept_def
    by (intro arg_cong[of _ _ "map upd"] filter_cong) (use n(2) in \<open>auto simp: dels_def stack distinct_map inj_on_def\<close>)
  moreover have "from_specs (map spec_of_element (map upd kept)) = Inr ds"
  proof (rule from_specs_create)
    have "create_director_from_spec (spec_of_element (upd e)) = Inr d"
      if e: "e \<in> set kept" and d: "d \<in> set ds" and f: "f e = ident d" for e d
    proof -
      have "find (\<lambda>d. director_id_of d = el_id e) ds = Some d"
        using d f di by (auto simp: find_Some_iff ids_def f_def ident_def in_set_conv_nth distinct_conv_nth)
      then have u: "upd e = e\<lparr>el_payload := Some (director_state d)\<rparr>" by (simp add: upd_def)
      have "valid_id (el_id e)" using e v by (auto simp: kept_def list_all_iff)
      then have "spec_of_element (upd e) = (to_spec d)\<lparr>ds_element := Some (el_id e)\<rparr>"
        using f spec_of_element_fields[of e]
        by (simp add: u f_def ident_def to_spec_def) (simp add: spec_of_element_def split: option.splits typed_value.splits)
      then show ?thesis using create_to_spec ds(2) d by (simp add: list_all_iff)
    qed
    with pairs show "list_all2 (\<lambda>sp d. create_director_from_spec sp = Inr d) (map spec_of_element (map upd kept)) ds"
      by (auto simp: list_all2_conv_all_nth)
  qed
  ultimately show ?thesis by auto
qed

end
