(* ===== verification/HostJournal.thy ===== *)
theory HostJournal
  imports Compaction HostProps
begin

text \<open>
  What the host's writes do to the journal: a patch is applied and recorded or the document is
  unchanged, and a new element becomes the last child of its container.
\<close>

section \<open>One append\<close>

lemma host_append_ok:
  assumes ok: "journal_ok (hw_codec w) j" and a: "host_append w owner j base why xs = (j', Inr ())"
  shows "journal_ok (hw_codec w) j'" "latest_offset j' = Suc (latest_offset j)"
    "\<exists>t. apply_ops (jn_snapshot j) xs [] = (t, Inr ()) \<and> ss_nodes (jn_snapshot j') = ss_nodes t"
proof -
  define p where "p = \<lparr>base_offset = JournalOffset base, result_offset = next_offset j, patch_by = Actor owner, reason = why, ops = xs\<rparr>"
  obtain n where n: "append_patch (hw_codec w) (hw_now w (offset_nat (next_offset j))) (hw_fault w (offset_nat (next_offset j))) j p
      = (j', Inr n)"
    using a by (auto simp: host_append_def p_def Let_def split: prod.splits sum.splits)
  note o = append_patch_ok[OF ok n]
  show "journal_ok (hw_codec w) j'" "latest_offset j' = Suc (latest_offset j)" using o by simp_all
  obtain r where "jr_patch r = p" "apply_record (hw_codec w) r (jn_snapshot j) = Inr (jn_snapshot j')" using o(5) by blast
  then obtain s' where "apply_patch (cd_json (hw_codec w)) (jn_snapshot j) p = (s', Inr ())"
    "jn_snapshot j' = s'\<lparr>ss_branch := jr_branch r\<rparr>"
    by (auto simp: apply_record_Inr_iff)
  then show "\<exists>t. apply_ops (jn_snapshot j) xs [] = (t, Inr ()) \<and> ss_nodes (jn_snapshot j') = ss_nodes t"
    by (auto simp: apply_patch_def p_def split: sum.splits if_splits prod.splits)
qed

lemma host_append_failed:
  assumes ok: "journal_ok (hw_codec w) j" and a: "host_append w owner j base why xs = (j', Inl e)"
  shows "journal_ok (hw_codec w) j'" "jn_snapshot j' = jn_snapshot j"
proof -
  obtain e' where "append_patch (hw_codec w) (hw_now w (offset_nat (next_offset j))) (hw_fault w (offset_nat (next_offset j))) j
      \<lparr>base_offset = JournalOffset base, result_offset = next_offset j, patch_by = Actor owner, reason = why, ops = xs\<rparr> = (j', Inl e')"
    using a by (auto simp: host_append_def Let_def split: prod.splits sum.splits)
  from append_patch_failed[OF ok this] show "journal_ok (hw_codec w) j'" "jn_snapshot j' = jn_snapshot j" by simp_all
qed

lemma container_is_nodes:
  "ss_nodes s = ss_nodes t \<Longrightarrow> wf_snapshot s \<Longrightarrow> container_is t k es \<Longrightarrow> container_is s k es"
  using children_nodes[of s t k] by (simp add: container_is_def)

lemma journal_wf: "journal_ok c j \<Longrightarrow> wf_snapshot (jn_snapshot j)"
  using journal_ok_snapshot[of c j] by (simp add: good_snapshot_def)

lemma journal_container:
  assumes "journal_ok c j" "k \<in> set ROOTS"
  shows "container_is (jn_snapshot j) k (children (jn_snapshot j) k)" "container (jn_snapshot j) k = Some k"
    "container_children (jn_snapshot j) k = Some (children (jn_snapshot j) k)"
proof -
  note wf = journal_wf[OF assms(1)]
  note k = wf_container[OF wf assms(2)]
  show "container (jn_snapshot j) k = Some k"
    "container_children (jn_snapshot j) k = Some (children (jn_snapshot j) k)" by (rule k)+
  have "fmlookup (ss_nodes (jn_snapshot j)) k \<noteq> None"
    using k(1) unfolding try_container_def by (cases "fmlookup (ss_nodes (jn_snapshot j)) k") (auto split: sum.splits option.splits)
  then show "container_is (jn_snapshot j) k (children (jn_snapshot j) k)" using wf by (simp only: container_is_def simp_thms)
qed

text \<open>A create at the end of the container.\<close>

lemma create_appends:
  assumes "apply_ops s [Create k (count_u32 s k) e] us = (s', Inr ())" "container_is s k es" "length es < 2 ^ 32"
  shows "children s' k = es @ [e]" "el_id e \<notin> el_id ` set es"
proof -
  have wf: "wf_snapshot s" and es: "children s k = es" using assms(2) by (simp_all add: container_is_def)
  obtain u where a: "apply_create s k (count_u32 s k) e = (s', Inr u)"
  proof -
    obtain t r where "apply_create s k (count_u32 s k) e = (t, r)" by force
    with assms(1) that show thesis by (cases r) simp_all
  qed
  have "children s' k = vec_insert (length es) e es"
    using children_create[OF wf a] assms(3) unfolding count_u32_def es by (simp only: wrap_u32_small)
  then show "children s' k = es @ [e]" by (simp add: vec_insert_def)
  obtain n where n: "fmlookup (ss_nodes s) k = Some n" "nd_children n = map el_id es" using container_is_ids[OF assms(2)] by metis
  have "fmlookup (ss_nodes s) (el_id x) \<noteq> None" if "x \<in> set es" for x
    using child_element[OF wf n(1), of "el_id x"] n(2) that by (auto simp: snap_element_def snap_node_def)
  moreover have "fmlookup (ss_nodes s) (el_id e) = None"
    using apply_create_InrD(1)[OF a] wf_snapshotD(5)[OF wf, of "el_id e"] by (cases "fmlookup (ss_nodes s) (el_id e)") auto
  ultimately show "el_id e \<notin> el_id ` set es" by (metis imageE)
qed

section \<open>The stack of directors in the journal\<close>

definition ids_valid :: "element_snapshot list \<Rightarrow> bool" where
  "ids_valid es \<longleftrightarrow> list_all (\<lambda>e. valid_id (el_id e)) es"

lemma stack_of_container:
  "container_is s ''directors'' es \<Longrightarrow> stack_of_snapshot s = Some (from_specs (map spec_of_element es))"
  using wf_container[of s "''directors''"]
  by (simp add: container_is_def stack_of_snapshot_def ROOTS_def active_directors_def)

end
