(* ===== verification/HostSample.thy ===== *)
theory HostSample
  imports HostJournal JournalClaims
begin

text \<open>
  A host on a sample journal, for concrete instances: a codec that writes every record, a clock
  and a disk that do not fail, and identifiers made of the offset being written.
\<close>

definition plain_codec :: codec where
  "plain_codec = sample_codec\<lparr>cd_record_enc := \<lambda>_. Inr []\<rparr>"

definition plain_world :: host_world where
  "plain_world = \<lparr>hw_codec = plain_codec, hw_now = (\<lambda>_. Inr 0), hw_fault = (\<lambda>_. None),
     hw_mint = (\<lambda>n i. show_nat n @ ''-'' @ show_nat i)\<rparr>"

lemma plain_world_simps [simp]:
  "hw_codec plain_world = plain_codec" "hw_now plain_world n = Inr 0" "hw_fault plain_world n = None"
  "hw_mint plain_world n i = show_nat n @ ''-'' @ show_nat i"
  by (simp_all add: plain_world_def)

definition writable :: "journal \<Rightarrow> bool" where
  "writable j \<longleftrightarrow> journal_ok plain_codec j \<and> \<not> jn_failed j \<and> jn_recovery j = None"

lemma sample_writable: "writable sample_journal"
proof -
  have "create plain_codec None None ''s'' = Inr sample_journal"
    using sample_journal_create by (simp add: create_def plain_codec_def)
  then have "journal_inv plain_codec sample_journal"
    by (intro journal_reachable_inv journal_reachable.created)
  then show ?thesis by (simp add: writable_def journal_inv_def)
qed

text \<open>A writable journal takes every valid patch that applies.\<close>

lemma plain_append:
  assumes j: "writable j" and why: "trim why \<noteq> []" "length why \<le> 4096"
    and xs: "list_all (op_ok (\<lambda>_. None)) xs" "length xs \<le> 4096" "apply_ops (jn_snapshot j) xs [] = (t, Inr ())"
  shows "\<exists>j'. host_append plain_world owner j (latest_offset j) why xs = (j', Inr ()) \<and> writable j'
    \<and> ss_nodes (jn_snapshot j') = ss_nodes t \<and> ss_used (jn_snapshot j') = ss_used t
    \<and> latest_offset j' = Suc (latest_offset j)"
proof -
  have ok: "journal_ok plain_codec j" using j by (simp add: writable_def)
  have so: "ss_offset (jn_snapshot j) = latest_offset j" using journal_ok_snapshot[OF ok] by (simp add: good_snapshot_def)
  define p where "p = \<lparr>base_offset = JournalOffset (latest_offset j), result_offset = next_offset j, patch_by = Actor owner,
    reason = why, ops = xs\<rparr>"
  have js: "cd_json plain_codec = (\<lambda>_. None)" by (simp add: plain_codec_def sample_codec_def)
  have "patch_ok (\<lambda>_. None) p"
    using why xs(1,2) by (simp add: p_def patch_ok_def next_offset_def less_journal_offset_def MAX_PATCH_OPS_def)
  then have v: "validate (\<lambda>_. None) p = Inr ()" by (simp add: validate_Inr_iff)
  have ap: "apply_patch (\<lambda>_. None) (jn_snapshot j) p = (t\<lparr>ss_offset := Suc (latest_offset j)\<rparr>, Inr ())"
    unfolding apply_patch_def v using xs(3) so by (simp add: p_def next_offset_def)
  have ck: "record_checksum plain_codec r = Inr (hex (cd_sha plain_codec []))" for r
    by (simp add: record_checksum_def plain_codec_def)
  have en: "cd_record_enc plain_codec r = Inr []" for r by (simp add: plain_codec_def)
  obtain j' where j': "append_patch plain_codec (Inr 0) None j p = (j', Inr (Suc (latest_offset j)))"
    "jn_snapshot j' = t\<lparr>ss_offset := Suc (latest_offset j), ss_branch := ss_branch (jn_snapshot j)\<rparr>"
    "\<not> jn_failed j'" "jn_recovery j' = None"
  proof -
    have "\<exists>j'. append_patch plain_codec (Inr 0) None j p = (j', Inr (Suc (latest_offset j))) \<and>
        jn_snapshot j' = t\<lparr>ss_offset := Suc (latest_offset j), ss_branch := ss_branch (jn_snapshot j)\<rparr>
        \<and> \<not> jn_failed j' \<and> jn_recovery j' = None"
      using j unfolding writable_def append_patch_def append_on_def js ap
      by (simp add: p_def ck en Let_def write_frame_def draft_record_def next_offset_def)
    then show thesis using that by blast
  qed
  have "host_append plain_world owner j (latest_offset j) why xs = (j', Inr ())"
    using j'(1) by (simp add: host_append_def p_def Let_def)
  moreover from this host_append_ok[of plain_world j owner "latest_offset j" why xs j'] ok j'(3,4)
  have "writable j'" "latest_offset j' = Suc (latest_offset j)" by (simp_all add: writable_def)
  ultimately show ?thesis using j'(2) by auto
qed

section \<open>Adding elements\<close>

lemma create_beside:
  assumes wf: "wf_snapshot s" and a: "apply_create s k i e = (s', Inr u)" and h: "k' \<noteq> k" "fmlookup (ss_nodes s) k' \<noteq> None"
  shows "children s' k' = children s k'"
proof -
  note c = apply_create_InrD[OF a]
  have fresh: "fmlookup (ss_nodes s) (el_id e) = None"
    using wf_snapshotD(5)[OF wf, of "el_id e"] c(1) by (cases "fmlookup (ss_nodes s) (el_id e)") auto
  obtain n where n: "fmlookup (ss_nodes s) k' = Some n" using h(2) by blast
  have n': "fmlookup (ss_nodes s') k' = Some n" using n h(1) fresh by (auto simp: c(4) fmlookup_modify_node)
  have "snap_element s' x = snap_element s x" if "x \<in> set (nd_children n)" for x
  proof -
    have "x \<noteq> el_id e" using child_element[OF wf n that] fresh by (auto simp: snap_element_def snap_node_def)
    then show ?thesis
      by (simp add: c(4) snap_element_def snap_node_def fmlookup_modify_node option.map_comp comp_def)
  qed
  then show ?thesis
    unfolding children_map[OF apply_create_wf[OF a wf] n'] children_map[OF wf n] by (simp cong: map_cong)
qed

definition sample_view :: "journal \<Rightarrow> nat \<Rightarrow> element_id set \<Rightarrow> element_snapshot list \<Rightarrow> element_snapshot list \<Rightarrow> bool" where
  "sample_view j n U bs ss \<longleftrightarrow> writable j \<and> latest_offset j = n \<and> ss_offset (jn_snapshot j) = n \<and> ss_used (jn_snapshot j) = U
     \<and> children (jn_snapshot j) ''body'' = bs \<and> children (jn_snapshot j) ''summaries'' = ss"

lemma sample_view_start: "sample_view sample_journal 0 (set ROOTS) [] []"
proof -
  have "ss_used (empty_snapshot ''s'') = set ROOTS" by code_simp
  moreover have "ss_offset (empty_snapshot ''s'') = 0" by code_simp
  moreover have "children (empty_snapshot ''s'') k = []" if "k \<in> set ROOTS" "k \<noteq> ''root''" "k \<noteq> ''meta''" "k \<noteq> ''queues''" for k
    using that by (simp add: children_def empty_snapshot_lookup ROOTS_def root_parent_def List.map_filter_simps)
  ultimately show ?thesis using sample_writable by (simp add: sample_view_def ROOTS_def)
qed

lemma sample_insert:
  assumes v: "sample_view j n U bs ss" and k: "k = ''body'' \<or> k = ''summaries''"
    and e: "op_ok (\<lambda>_. None) (Create k 0 e)" "el_id e \<notin> U" and why: "trim why \<noteq> []" "length why \<le> 4096"
    and l: "length (children (jn_snapshot j) k) < 2 ^ 32"
  shows "\<exists>j'. host_append plain_world owner j n why [Create k (count_u32 (jn_snapshot j) k) e] = (j', Inr ())
    \<and> sample_view j' (Suc n) (insert (el_id e) U) (if k = ''body'' then bs @ [e] else bs) (if k = ''body'' then ss else ss @ [e])"
proof -
  let ?s = "jn_snapshot j"
  have w: "writable j" and n: "latest_offset j = n" using v by (simp_all add: sample_view_def)
  then have ok: "journal_ok plain_codec j" by (simp add: writable_def)
  note wf = journal_wf[OF ok]
  have r: "k \<in> set ROOTS" "''body'' \<in> set ROOTS" "''summaries'' \<in> set ROOTS" using k by (auto simp: ROOTS_def)
  note c = journal_container(1)[OF ok]
  obtain m where m: "fmlookup (ss_nodes ?s) k = Some m" "nd_children m = map el_id (children ?s k)"
    using container_is_ids[OF c[OF r(1)]] by metis
  have i: "count_u32 ?s k = length (nd_children m)" using l m(2) by (simp add: count_u32_def wrap_u32_small)
  have "el_id e \<notin> ss_used ?s" using e(2) v by (simp add: sample_view_def)
  then obtain t u where t: "apply_create ?s k (count_u32 ?s k) e = (t, Inr u)" "ss_used t = insert (el_id e) U"
    using m(1) i v by (simp add: apply_create_def require_def snap_node_def ok_or_def sample_view_def)
  have a: "apply_ops ?s [Create k (count_u32 ?s k) e] [] = (t, Inr ())" using t(1) by simp
  have "list_all (op_ok (\<lambda>_. None)) [Create k (count_u32 ?s k) e]" using e(1) by simp
  from plain_append[OF w why this _ a] n obtain j' where j': "host_append plain_world owner j n why [Create k (count_u32 ?s k) e] = (j', Inr ())"
    "writable j'" "ss_nodes (jn_snapshot j') = ss_nodes t" "ss_used (jn_snapshot j') = ss_used t" "latest_offset j' = Suc n"
    by auto
  have same: "children t k = children ?s k @ [e]" using create_appends(1)[OF a c[OF r(1)] l] .
  have other: "children t k' = children ?s k'" if "k' \<noteq> k" "k' \<in> set ROOTS" for k'
    using create_beside[OF wf t(1) that(1)] c[OF that(2)] by (simp add: container_is_def)
  have "ss_offset (jn_snapshot j') = Suc n"
    using j'(2,5) journal_ok_snapshot[of plain_codec j'] by (simp add: writable_def good_snapshot_def)
  moreover have "children (jn_snapshot j') ''body'' = (if k = ''body'' then bs @ [e] else bs)"
    "children (jn_snapshot j') ''summaries'' = (if k = ''body'' then ss else ss @ [e])"
    unfolding children_nodes[OF j'(3)] using same other[OF _ r(2)] other[OF _ r(3)] k v by (auto simp: sample_view_def)
  ultimately show ?thesis using j' t(2) by (auto simp: sample_view_def)
qed

section \<open>User messages\<close>

lemma show_zero: "show_nat 0 = ''0''" and show_small: "show_nat 1 = ''1''" "show_nat 2 = ''2''" "show_nat 3 = ''3''"
  by code_simp+

definition memo :: "nat \<Rightarrow> string \<Rightarrow> element_snapshot" where
  "memo n msg = message_element (show_nat n @ ''-0'') ''user'' ''user'' msg"

lemma memo_fields [simp]: "el_id (memo n m) = show_nat n @ ''-0''" "el_kind (memo n m) = ''user''" "el_text (memo n m) = m"
  by (simp_all add: memo_def message_element_def new_element_def)

lemma sample_message:
  assumes v: "sample_view j n U bs ss" and m: "length msg \<le> 100" and b: "length bs \<le> 100" and i: "show_nat (Suc n) @ ''-0'' \<notin> U"
  shows "\<exists>j'. append_user_message plain_world owner j msg = Some (j', Inr ())
    \<and> sample_view j' (Suc n) (insert (show_nat (Suc n) @ ''-0'') U) (bs @ [memo (Suc n) msg]) ss"
proof -
  have t: "trim ''user turn'' \<noteq> []" "length ''user turn'' \<le> 4096" by code_simp+
  have kb: "list_all kind_byte ''user''" by code_simp
  have "op_ok (\<lambda>_. None) (Create ''body'' 0 (memo (Suc n) msg))"
    using m kb by (simp add: MAX_OP_TEXT_BYTES_def MAX_WIRE_BYTES_def) (simp add: memo_def message_element_def new_element_def)
  moreover have "length (children (jn_snapshot j) ''body'') < 2 ^ 32" using v b by (simp add: sample_view_def)
  ultimately obtain j' where j': "host_append plain_world owner j n ''user turn''
      [Create ''body'' (count_u32 (jn_snapshot j) ''body'') (memo (Suc n) msg)] = (j', Inr ())"
    "sample_view j' (Suc n) (insert (show_nat (Suc n) @ ''-0'') U) (bs @ [memo (Suc n) msg]) ss"
    using sample_insert[OF v, of "''body''" "memo (Suc n) msg" "''user turn''" owner] t i by auto
  have ok: "journal_ok plain_codec j" and o: "ss_offset (jn_snapshot j) = n" "latest_offset j = n"
    using v by (simp_all add: sample_view_def writable_def)
  have c: "container (jn_snapshot j) ''body'' = Some ''body''"
    using journal_container(2)[OF ok, of "''body''"] by (simp add: ROOTS_def)
  have "mint plain_world j 0 = show_nat (Suc n) @ ''-0''"
    using o show_zero by (simp add: mint_def next_offset_def)
  then have "append_user_message plain_world owner j msg = Some (j', Inr ())"
    using j'(1) unfolding append_user_message_def c Let_def o memo_def by simp
  with j'(2) show ?thesis by blast
qed

end
