(* ===== verification/HostClaims.thy ===== *)
theory HostClaims
  imports HostSample
begin

text \<open>
  The stack of directors and the document (\<open>omp-control/src/host.rs\<close>): what a yield leaves on the
  stack is what a later turn reads from the journal.
\<close>

text \<open>
  C35: The document keeps the directors.  When the stack that the document holds has handled a
  yield and the host has written the difference to the journal, reading the document again gives
  exactly the stack the yield left, with every counter: a crash or a resume between turns
  changes nothing.  The identifiers of the stored directors must be valid.
\<close>

theorem directors_persist:
  assumes ok: "journal_ok (hw_codec w) j" and v: "ids_valid (children (jn_snapshot j) ''directors'')"
    and h: "stack_of_snapshot (jn_snapshot j) = Some (Inr ds0)"
    and y: "handle_yield tx alnum ds0 a t = (ds, r)"
    and x: "sync_directors_to_journal w owner j ds = Some (j', Inr ())"
  shows "stack_of_snapshot (jn_snapshot j') = Some (Inr ds)"
proof -
  define es where "es = children (jn_snapshot j) ''directors''"
  have k: "container_is (jn_snapshot j) ''directors'' es"
    using journal_container(1)[OF ok, of "''directors''"] by (simp add: ROOTS_def es_def)
  from h stack_of_container[OF k] have f: "from_specs (map spec_of_element es) = Inr ds0" by simp
  have "list_all recordable ds0"
    using from_specs_all2[OF f] by (induction rule: list_all2_induct) (auto dest: created_recordable)
  then have shape: "subseq (map ident ds) (map ident ds0)" "list_all recordable ds"
    using yield_loop_shape[of tx alnum a t "length ds0" ds0 ds r] y by (simp_all add: handle_yield_def)
  obtain xs where xs: "sync_ops (jn_snapshot j) ds = Some xs"
    "(if xs = [] then (j, Inr ()) else host_append w owner j (latest_offset j) ''sync director states'' xs) = (j', Inr ())"
    using x by (auto simp: sync_directors_to_journal_def)
  obtain t where t: "apply_ops (jn_snapshot j) xs [] = (t, Inr ())" "ss_nodes (jn_snapshot j') = ss_nodes t" "journal_ok (hw_codec w) j'"
  proof (cases "xs = []")
    case True
    with xs(2) ok that[of "jn_snapshot j"] show thesis by simp
  next
    case False
    with xs(2) host_append_ok[OF ok, of owner "latest_offset j" "''sync director states''" xs j'] that show thesis by auto
  qed
  obtain es' where "container_is t ''directors'' es'" "from_specs (map spec_of_element es') = Inr ds"
    using sync_restores[OF k v[unfolded ids_valid_def, folded es_def] f shape xs(1) t(1)] by blast
  with stack_of_container[OF container_is_nodes[OF t(2) journal_wf[OF t(3)]]] show ?thesis by simp
qed


section \<open>A sample stack\<close>

definition asking :: "nat \<Rightarrow> director" where
  "asking n = ForceTool \<lparr>ft_id = ''f'', ft_tool = ''ask'', ft_predicate = None, ft_reminder = ''r'', ft_attempts = n, ft_max = 3,
     ft_behavior = BehaveFail\<rparr>"

definition asking_element :: "nat \<Rightarrow> element_snapshot" where
  "asking_element n = director_element ''f'' (to_spec (asking n))"

lemma asking_element_facts:
  "el_id (asking_element n) = ''f''" "valid_id ''f''" "el_payload (asking_element n) = Some (director_state (asking n))"
  "spec_of_element (asking_element n) = (to_spec (asking n))\<lparr>ds_element := Some ''f''\<rparr>"
proof -
  have "valid_id ''f''" "new_id ''f'' = Inr ''f''" by code_simp+
  then show "el_id (asking_element n) = ''f''" "valid_id ''f''" "el_payload (asking_element n) = Some (director_state (asking n))"
    "spec_of_element (asking_element n) = (to_spec (asking n))\<lparr>ds_element := Some ''f''\<rparr>"
    by (simp_all add: asking_element_def director_element_def new_element_def spec_of_element_def to_spec_def asking_def)
qed

lemma asking_read: "n < 2 ^ 32 \<Longrightarrow> from_specs [spec_of_element (asking_element n)] = Inr [asking n]"
proof -
  assume n: "n < 2 ^ 32"
  have "trim ''ask'' \<noteq> []" by code_simp
  then have "recordable (asking n)" using n by (simp add: asking_def)
  from create_to_spec[OF this] show ?thesis by (simp add: asking_element_facts(4))
qed

lemma asking_yield: "fst (handle_yield plain_text (\<lambda>_. True) [asking 0] idle_agent idle_turn) = [asking 1]"
  by (simp add: handle_yield_def asking_def force_on_yield_def invoked_def idle_turn_def wrap_u32_def Let_def)

text \<open>The director is pushed, and the write after the yield replaces its counter.\<close>

lemma asking_pushed:
  "\<exists>j. writable j \<and> container_is (jn_snapshot j) ''directors'' [asking_element 0]"
proof -
  have ok: "journal_ok plain_codec sample_journal" using sample_writable by (simp add: writable_def)
  have r: "''directors'' \<in> set ROOTS" by (simp add: ROOTS_def)
  have empty: "children (empty_snapshot ''s'') ''directors'' = []"
    by (simp add: children_def empty_snapshot_lookup ROOTS_def root_parent_def List.map_filter_simps)
  have c: "container_is (jn_snapshot sample_journal) ''directors'' []" using journal_container(1)[OF ok r] empty by simp
  have kb: "list_all kind_byte ''director''" and why: "trim ''r'' \<noteq> []" by code_simp+
  have f: "''f'' \<notin> ss_used (empty_snapshot ''s'')" by code_simp
  obtain t u where "apply_create (empty_snapshot ''s'') ''directors'' 0 (asking_element 0) = (t, Inr u)"
    using f r by (simp add: apply_create_def require_def snap_node_def empty_snapshot_lookup ok_or_def asking_element_facts)
  then have a: "apply_ops (jn_snapshot sample_journal) [Create ''directors'' (count_u32 (jn_snapshot sample_journal) ''directors'') (asking_element 0)] [] = (t, Inr ())"
    by (simp add: count_u32_def empty wrap_u32_def)
  have o: "list_all (op_ok (\<lambda>_. None)) [Create ''directors'' (count_u32 (jn_snapshot sample_journal) ''directors'') (asking_element 0)]"
    using kb by (simp add: asking_element_def director_element_def new_element_def)
  obtain j where j: "writable j" "ss_nodes (jn_snapshot j) = ss_nodes t"
    using plain_append[OF sample_writable why _ o _ a] by auto
  have "children t ''directors'' = [asking_element 0]" using create_appends(1)[OF a c] by simp
  moreover have "journal_ok plain_codec j" using j(1) by (simp add: writable_def)
  ultimately have "container_is (jn_snapshot j) ''directors'' [asking_element 0]"
    using journal_container(1)[of plain_codec j "''directors''"] r children_nodes[OF j(2)] by simp
  with j(1) show ?thesis by blast
qed

lemma asking_synced:
  assumes j: "writable j" and c: "container_is (jn_snapshot j) ''directors'' [asking_element 0]"
  shows "\<exists>j'. sync_directors_to_journal plain_world ''host'' j [asking 1] = Some (j', Inr ())"
proof -
  let ?s = "jn_snapshot j"
  have ok: "journal_ok plain_codec j" using j by (simp add: writable_def)
  have r: "''directors'' \<in> set ROOTS" by (simp add: ROOTS_def)
  note jc = journal_container(2,3)[OF ok r]
  have e: "snap_element ?s ''f'' = Some (asking_element 0)"
    using container_is_ids[OF c] asking_element_facts(1) by (metis list.set_intros(1))
  have i: "new_id ''f'' = Inr ''f''" by code_simp
  have ne: "director_state (asking 0) \<noteq> director_state (asking 1)"
    by (simp add: asking_def force_state_def json_nat_def)
  have ch: "children ?s ''directors'' = [asking_element 0]" using c by (simp add: container_is_def)
  have xs: "sync_ops ?s [asking 1] = Some [ReplacePayload ''f'' (director_state (asking 1))]"
    using ne unfolding sync_ops_def active_directors_def jc ch
    by (simp add: to_specs_def to_spec_def List.map_filter_simps update_op_def spec_element_def e i asking_element_facts on_stack_def)
       (simp add: asking_def i e asking_element_facts force_state_def json_nat_def)
  obtain n where n: "fmlookup (ss_nodes ?s) ''f'' = Some n" using e by (auto simp: snap_element_def snap_node_def)
  obtain t where t: "apply_ops ?s [ReplacePayload ''f'' (director_state (asking 1))] [] = (t, Inr ())"
    by (simp add: edit_element_def require_def snap_node_def n ok_or_def)
  have why: "trim ''sync director states'' \<noteq> []" "length ''sync director states'' \<le> 4096" by code_simp+
  from plain_append[OF j why _ _ t, of "''host''"] show ?thesis
    unfolding sync_directors_to_journal_def xs by auto
qed

theorem directors_persist_witness:
  "\<exists>j j'. stack_of_snapshot (jn_snapshot j) = Some (Inr [asking 0])
     \<and> sync_directors_to_journal plain_world ''host'' j [asking 1] = Some (j', Inr ())
     \<and> stack_of_snapshot (jn_snapshot j') = Some (Inr [asking 1])"
proof -
  obtain j where j: "writable j" "container_is (jn_snapshot j) ''directors'' [asking_element 0]" using asking_pushed by blast
  have ok: "journal_ok (hw_codec plain_world) j" using j(1) by (simp add: writable_def)
  have v: "ids_valid (children (jn_snapshot j) ''directors'')"
    using j(2) asking_element_facts(1,2) by (simp add: container_is_def ids_valid_def)
  have h: "stack_of_snapshot (jn_snapshot j) = Some (Inr [asking 0])"
    using stack_of_container[OF j(2)] asking_read[of 0] by simp
  obtain j' where x: "sync_directors_to_journal plain_world ''host'' j [asking 1] = Some (j', Inr ())"
    using asking_synced[OF j] by blast
  obtain r where "handle_yield plain_text (\<lambda>_. True) [asking 0] idle_agent idle_turn = ([asking 1], r)"
    using asking_yield by (metis prod.collapse)
  from directors_persist[OF ok v h this x] h x show ?thesis by blast
qed

text \<open>
  A \<open>force\<close> command with a blank tool name journals its director unchecked (\<open>push_director\<close>
  validates first); from then on the stack cannot be read.
\<close>

lemma blank_force_unreadable:
  assumes "container_is s ''directors'' es" "e \<in> set es" "ds_kind (spec_of_element e) = ''ForceTool''"
    and "get_str (ds_state (spec_of_element e)) ''tool'' = Some t" "trim t = []"
  shows "\<exists>err. stack_of_snapshot s = Some (Inl err)"
proof -
  have "\<exists>err. create_director_from_spec (spec_of_element e) = Inl err"
    using assms(3-5) by (simp add: create_director_from_spec_def force_tool_of_spec_def Let_def ok_or_def)
  then have "\<exists>err. from_specs (map spec_of_element es) = Inl err" using assms(2)
  proof (induction es)
    case (Cons x xs)
    show ?case
    proof (cases "create_director_from_spec (spec_of_element x)")
      case (Inr d)
      with Cons.prems have "e \<in> set xs" by auto
      with Cons obtain err where "from_specs (map spec_of_element xs) = Inl err" by blast
      with Inr show ?thesis by simp
    qed simp
  qed simp
  with stack_of_container[OF assms(1)] show ?thesis by simp
qed

end
