(* ===== verification/HostTurn.thy ===== *)
theory HostTurn
  imports Compaction HostJournal
begin

text \<open>
  The turn of the host session (\<open>host.rs\<close> of crate \<open>omp-control\<close>): the request derived from the
  body, the stream of an assistant turn as it is journaled, tool calls with their settlement, and
  the bounded loop of \<open>run_turn\<close> over them.  What the loop reaches outside the journal is the
  record \<open>turn_env\<close>: the provider's stream of deltas and its result, the tool host, the child
  hosts, the cancellation flag and the clock of the stream.  A panic is \<open>None\<close>.
\<close>

definition DEFAULT_KEEP_RECENT_TURNS :: nat where "DEFAULT_KEEP_RECENT_TURNS = 2"
definition DEFAULT_MAX_ROOT_NODES :: nat where "DEFAULT_MAX_ROOT_NODES = 8"
definition STREAM_FLUSH_BYTES :: nat where "STREAM_FLUSH_BYTES = 65536"
definition COMPLETION_RESERVE_TOKENS :: nat where "COMPLETION_RESERVE_TOKENS = 4096"
definition COMPLETION_SAFETY_MARGIN_TOKENS :: nat where "COMPLETION_SAFETY_MARGIN_TOKENS = 1024"

section \<open>What comes from outside\<close>

datatype stream_delta = DeltaText string | DeltaThinking string

text \<open>A delta, whether the flush interval has elapsed, and whether the parent has cancelled.\<close>

record stream_event =
  se_delta :: stream_delta
  se_elapsed :: bool
  se_cancelled :: bool

record canonical_turn =
  ct_text :: string
  ct_thinking :: "string option"
  ct_calls :: "tool_call_spec list"
  ct_usage :: json
  ct_finish :: string

datatype diagnostic_severity = SeverityInfo | SeverityWarning | SeverityError

datatype output_format = FormatText | FormatJson | FormatMarkdown | FormatBinary

record tool_diagnostic =
  td_severity :: diagnostic_severity
  td_message :: string
  td_code :: "string option"
  td_details :: "json option"

record tool_usage =
  tu_duration :: nat
  tu_cpu :: "nat option"
  tu_memory :: "nat option"
  tu_read :: "nat option"
  tu_written :: "nat option"

record tool_output =
  to_content :: string
  to_payload :: "json option"
  to_truncated :: bool
  to_format :: output_format

record tool_result =
  tr_output :: tool_output
  tr_diagnostics :: "tool_diagnostic list"
  tr_usage :: "tool_usage option"
  tr_artifacts :: "artifact_id list"

definition text_output :: "string \<Rightarrow> tool_output" where
  "text_output s = \<lparr>to_content = s, to_payload = None, to_truncated = False, to_format = FormatText\<rparr>"

definition error_diagnostic :: "string \<Rightarrow> tool_diagnostic" where
  "error_diagnostic m = \<lparr>td_severity = SeverityError, td_message = m, td_code = None, td_details = None\<rparr>"

text \<open>The serialised forms; a field that is \<open>None\<close> is left out where the code says so.\<close>

fun severity_str :: "diagnostic_severity \<Rightarrow> string" where
  "severity_str SeverityInfo = ''info''"
| "severity_str SeverityWarning = ''warning''"
| "severity_str SeverityError = ''error''"

fun format_str :: "output_format \<Rightarrow> string" where
  "format_str FormatText = ''text''"
| "format_str FormatJson = ''json''"
| "format_str FormatMarkdown = ''markdown''"
| "format_str FormatBinary = ''binary''"

definition opt_field :: "string \<Rightarrow> json option \<Rightarrow> (string \<times> json) list" where
  "opt_field key v = (case v of Some j \<Rightarrow> [(key, j)] | None \<Rightarrow> [])"

definition diagnostic_json :: "tool_diagnostic \<Rightarrow> json" where
  "diagnostic_json d =
     JObject (opt_field ''code'' (map_option JString (td_code d)) @ opt_field ''details'' (td_details d)
       @ [(''message'', JString (td_message d)), (''severity'', JString (severity_str (td_severity d)))])"

definition usage_json :: "tool_usage \<Rightarrow> json" where
  "usage_json u =
     JObject (opt_field ''bytes_read'' (map_option json_nat (tu_read u)) @ opt_field ''bytes_written'' (map_option json_nat (tu_written u))
       @ opt_field ''cpu_time_ms'' (map_option json_nat (tu_cpu u)) @ [(''duration_ms'', json_nat (tu_duration u))]
       @ opt_field ''memory_bytes'' (map_option json_nat (tu_memory u)))"

definition error_json :: "structured_error \<Rightarrow> json" where
  "error_json e =
     JObject [(''code'', JString (err_code e)), (''diagnostics'', case err_diagnostics e of Some j \<Rightarrow> j | None \<Rightarrow> JNull),
       (''message'', JString (err_message e)), (''retryable'', JBool (err_retryable e))]"

section \<open>The stream of an assistant turn\<close>

definition flush_ops :: "host_world \<Rightarrow> journal \<Rightarrow> element_id \<Rightarrow> string \<Rightarrow> string \<Rightarrow> patch_op list" where
  "flush_ops w j i text thinking =
     (if text \<noteq> [] then [AppendText i text] else [])
     @ (if thinking \<noteq> []
        then (case child_of_kind (jn_snapshot j) i ''think'' of
            Some c \<Rightarrow> [AppendText (el_id c) thinking]
          | None \<Rightarrow> [Create i 0 ((new_element (mint w j 0) ''think'')\<lparr>el_text := thinking\<rparr>)])
        else [])"

definition flush_stream_buffers ::
  "host_world \<Rightarrow> actor_id \<Rightarrow> journal \<Rightarrow> element_id \<Rightarrow> string \<Rightarrow> string \<Rightarrow> journal \<times> (structured_error, unit) result" where
  "flush_stream_buffers w owner j i text thinking =
     (if text = [] \<and> thinking = [] then (j, Inr ())
      else host_append w owner j (ss_offset (jn_snapshot j)) ''assistant stream delta'' (flush_ops w j i text thinking))"

text \<open>
  The callback over the deltas of the provider: the journal, the buffers that are left, and the
  error that stopped it.  A flush takes the buffers whether or not it succeeds.
\<close>

definition cancelled_inference :: structured_error where
  "cancelled_inference = new_error ''cancelled'' ''Inference cancelled by parent'' False"

fun observe ::
  "host_world \<Rightarrow> actor_id \<Rightarrow> element_id \<Rightarrow> journal \<Rightarrow> string \<Rightarrow> string \<Rightarrow> stream_event list
   \<Rightarrow> journal \<times> string \<times> string \<times> structured_error option" where
  "observe w owner i j text thinking [] = (j, text, thinking, None)"
| "observe w owner i j text thinking (ev # evs) =
     (if se_cancelled ev then (j, text, thinking, Some cancelled_inference)
      else
        let text1 = (case se_delta ev of DeltaText t \<Rightarrow> text @ t | _ \<Rightarrow> text);
            thinking1 = (case se_delta ev of DeltaThinking t \<Rightarrow> thinking @ t | _ \<Rightarrow> thinking)
        in if STREAM_FLUSH_BYTES \<le> length text1 + length thinking1 \<or> se_elapsed ev
           then (case flush_stream_buffers w owner j i text1 thinking1 of
               (j1, Inl e) \<Rightarrow> (j1, [], [], Some e)
             | (j1, Inr _) \<Rightarrow> observe w owner i j1 [] [] evs)
           else observe w owner i j text1 thinking1 evs)"

definition assistant_element :: "element_id \<Rightarrow> element_snapshot" where
  "assistant_element i =
     (new_element i ''assistant'')\<lparr>attributes :=
        fmupd ''streaming'' (TBool True) (fmupd ''status'' (TString ''running'') (fmupd ''role'' (TString ''assistant'') fmempty))\<rparr>"

definition settle_turn_ops :: "journal \<Rightarrow> element_id \<Rightarrow> canonical_turn \<Rightarrow> patch_op list" where
  "settle_turn_ops j i turn =
     (case snap_element (jn_snapshot j) i of
        Some e \<Rightarrow> if el_text e \<noteq> ct_text turn then [ReplaceText i (ct_text turn)] else []
      | None \<Rightarrow> [])
     @ [SetAttribute i ''status'' (TString ''succeeded''), SetAttribute i ''finish_reason'' (TString (ct_finish turn)),
        SetAttribute i ''usage'' (TJson (ct_usage turn))]
     @ (case ct_thinking turn of Some t \<Rightarrow> [SetAttribute i ''thinking'' (TString t)] | None \<Rightarrow> [])
     @ map (\<lambda>c. Delete (el_id c)) (filter (\<lambda>c. el_kind c = ''think'') (children (jn_snapshot j) i))"

definition settle_error_ops :: "host_world \<Rightarrow> journal \<Rightarrow> element_id \<Rightarrow> structured_error \<Rightarrow> patch_op list" where
  "settle_error_ops w j i e =
     [SetAttribute i ''status'' (TString (if err_code e = ''cancelled'' then ''cancelled'' else ''failed'')),
      Create i (count_u32 (jn_snapshot j) i)
        ((new_element (mint w j 0) ''diag'')\<lparr>el_text := err_message e,
           attributes := fmupd ''code'' (TString (err_code e)) fmempty, el_payload := Some (error_json e)\<rparr>)]"

definition infer_assistant_turn ::
  "host_world \<Rightarrow> actor_id \<Rightarrow> journal \<Rightarrow> stream_event list \<times> (structured_error, canonical_turn) result
   \<Rightarrow> (journal \<times> (structured_error, canonical_turn) result) option" where
  "infer_assistant_turn w owner j reply =
     (let s = jn_snapshot j; i = mint w j 0 in
      Option.bind (container s ''body'') (\<lambda>body.
      map_option (\<lambda>visible.
        case host_append w owner j (ss_offset s) ''start assistant stream''
               [Create body (wrap_u32 (length visible)) (assistant_element i)] of
          (j1, Inl e) \<Rightarrow> (j1, Inl e)
        | (j1, Inr _) \<Rightarrow>
            (case observe w owner i j1 [] [] (fst reply) of
               (j2, text, thinking, stopped) \<Rightarrow>
                 let result = (case stopped of Some e \<Rightarrow> Inl e | None \<Rightarrow> snd reply) in
                 (case flush_stream_buffers w owner j2 i text thinking of
                    (j3, Inl e) \<Rightarrow> (j3, Inl e)
                  | (j3, Inr _) \<Rightarrow>
                      (case host_append w owner j3 (ss_offset (jn_snapshot j3)) ''settle assistant stream''
                             (SetAttribute i ''streaming'' (TBool False)
                              # (case result of Inr turn \<Rightarrow> settle_turn_ops j3 i turn | Inl e \<Rightarrow> settle_error_ops w j3 i e)) of
                         (j4, Inl e) \<Rightarrow> (j4, Inl e)
                       | (j4, Inr _) \<Rightarrow> (j4, result)))))
        (get_visible_body s)))"

section \<open>A tool call\<close>

definition call_intent :: "json \<Rightarrow> string" where
  "call_intent input = (case get_str input ''i'' of Some s \<Rightarrow> s | None \<Rightarrow> [])"

definition call_element :: "element_id \<Rightarrow> tool_call_id \<Rightarrow> string \<Rightarrow> json \<Rightarrow> element_snapshot" where
  "call_element i cid name input =
     (new_element i ''tool_call'')\<lparr>attributes :=
        fmupd ''intent'' (TString (call_intent input)) (fmupd ''status'' (TString ''running'')
          (fmupd ''version'' (TString ''1.0.0'') (fmupd ''tool'' (TString name) (fmupd ''call_id'' (TString cid) fmempty))))\<rparr>"

text \<open>What a failed execution is recorded as.\<close>

definition failed_result :: "structured_error \<Rightarrow> tool_result" where
  "failed_result e =
     \<lparr>tr_output = text_output (show_error e),
      tr_diagnostics = [(error_diagnostic (show_error e))\<lparr>td_code := Some (err_code e)\<rparr>],
      tr_usage = None, tr_artifacts = []\<rparr>"

definition result_failed :: "tool_result \<Rightarrow> bool" where
  "result_failed r \<longleftrightarrow> list_ex (\<lambda>d. td_severity d = SeverityError) (tr_diagnostics r)"

text \<open>The children of the settled call; each draws one identifier, in order.\<close>

definition result_elements :: "(nat \<Rightarrow> string) \<Rightarrow> tool_result \<Rightarrow> element_snapshot list" where
  "result_elements ids r =
     (let contents =
        [\<lambda>i. (new_element i ''result'')\<lparr>el_text := to_content (tr_output r), el_payload := to_payload (tr_output r),
            attributes := fmupd ''format'' (TJson (JString (format_str (to_format (tr_output r)))))
              (fmupd ''truncated'' (TBool (to_truncated (tr_output r))) fmempty)\<rparr>]
        @ map (\<lambda>d i. (new_element i ''diag'')\<lparr>el_text := td_message d, el_payload := Some (diagnostic_json d)\<rparr>) (tr_diagnostics r)
        @ (case tr_usage r of Some u \<Rightarrow> [\<lambda>i. (new_element i ''usage'')\<lparr>el_payload := Some (usage_json u)\<rparr>] | None \<Rightarrow> [])
        @ map (\<lambda>a i. (new_element i ''artifact_ref'')\<lparr>el_text := ''artifact://'' @ a\<rparr>) (tr_artifacts r)
      in map (\<lambda>(n, f). f (ids n)) (enumerate 0 contents))"

definition settle_call_ops :: "(nat \<Rightarrow> string) \<Rightarrow> element_id \<Rightarrow> tool_result \<Rightarrow> patch_op list" where
  "settle_call_ops ids i r =
     SetAttribute i ''status'' (TString (if result_failed r then ''failed'' else ''succeeded''))
     # map (\<lambda>(n, e). Create i (wrap_u32 n + 1) e) (enumerate 0 (result_elements ids r))"

definition execute_tool_inner ::
  "host_world \<Rightarrow> actor_id \<Rightarrow> (journal \<Rightarrow> string \<Rightarrow> json \<Rightarrow> tool_call_id \<Rightarrow> journal \<times> (structured_error, tool_result) result)
   \<Rightarrow> journal \<Rightarrow> string \<Rightarrow> json \<Rightarrow> tool_call_id option \<Rightarrow> (journal \<times> (structured_error, tool_call_id) result) option" where
  "execute_tool_inner w owner run j name input cid_opt =
     (let s = jn_snapshot j;
          cid = (case cid_opt of Some c \<Rightarrow> c | None \<Rightarrow> mint w j 2);
          i = mint w j 0
      in Option.bind (container s ''body'') (\<lambda>body.
         map_option (\<lambda>visible.
           case host_append w owner j (ss_offset s) (''invoke tool '' @ name)
                  [Create body (wrap_u32 (length visible)) (call_element i cid name input),
                   Create i 0 ((new_element (mint w j 1) ''input'')\<lparr>el_payload := Some input\<rparr>)] of
             (j1, Inl e) \<Rightarrow> (j1, Inl e)
           | (j1, Inr _) \<Rightarrow>
               (case run j1 name input cid of
                  (j2, execution) \<Rightarrow>
                    let r = (case execution of Inr r \<Rightarrow> r | Inl e \<Rightarrow> failed_result e) in
                    (case host_append w owner j2 (ss_offset (jn_snapshot j2)) (''settle tool '' @ name)
                            (settle_call_ops (mint w j2) i r) of
                       (j3, Inl e) \<Rightarrow> (j3, Inl e)
                     | (j3, Inr _) \<Rightarrow> (j3, Inr cid))))
           (get_visible_body s)))"

section \<open>The request of a turn\<close>

record permanent_tool =
  pt_name :: string
  pt_projection :: string
  pt_parameters :: json

definition OMITTED_ARGUMENTS :: json where
  "OMITTED_ARGUMENTS =
     JObject [(''omitted'', JString ''arguments elided to fit the context window; the journal keeps them'')]"

definition call_messages :: "session_snapshot \<Rightarrow> compaction_outcome \<Rightarrow> element_snapshot \<Rightarrow> semantic_message list" where
  "call_messages s co e =
     (case usable_call_id e of
        None \<Rightarrow> []
      | Some cid \<Rightarrow>
          let tool = (case string_attribute e ''tool'' of Some n \<Rightarrow> n | None \<Rightarrow> ''unknown'');
              args = (if omits_arguments co (el_id e) then OMITTED_ARGUMENTS
                      else (case Option.bind (child_of_kind s (el_id e) ''input'') el_payload of Some j \<Rightarrow> j | None \<Rightarrow> JNull))
          in (assistant_message [])\<lparr>msg_tool_calls := [\<lparr>tc_id = cid, tc_name = tool, tc_arguments = args\<rparr>]\<rparr>
             # (case child_of_kind s (el_id e) ''result'' of
                  Some r \<Rightarrow> [tool_result_message cid (project_text co (el_id e) (el_text r))]
                | None \<Rightarrow> []))"

definition messages_of :: "session_snapshot \<Rightarrow> compaction_outcome \<Rightarrow> element_snapshot \<Rightarrow> semantic_message list" where
  "messages_of s co e =
     (if el_id e |\<in>| co_covered co then []
      else if el_kind e = ''user'' then [user_message (project_text co (el_id e) (el_text e))]
      else if el_kind e = ''assistant''
      then (if interrupted e then []
            else [(assistant_message (project_text co (el_id e) (el_text e)))\<lparr>msg_tool_call_id :=
                    Option.bind (string_attribute e ''tool_call_id'') (\<lambda>v. if is_ok (new_id v) then Some v else None)\<rparr>])
      else if el_kind e = ''tool_call'' then call_messages s co e
      else if el_kind e \<in> {''steering'', ''system''} then [system_message (el_text e)]
      else [])"

text \<open>The cast \<open>f64 as f32\<close>: to the nearest, ties to even; too large is infinite.\<close>

definition f64_to_f32 :: "f64 \<Rightarrow> f32" where
  "f64_to_f32 b =
     (let sign = (if bit b 63 then 2 ^ 31 else 0 :: nat); m = unat (b AND 0xFFFFFFFFFFFFF) in
      if \<not> f64_is_finite b then word_of_nat (sign + 255 * 2 ^ 23 + (if m = 0 then 0 else 2 ^ 22))
      else case f64_parts b of (sig, e) \<Rightarrow>
        if sig = 0 then word_of_nat sign
        else
          let s = max (int (bit_len sig) - 24 + e) (- 149);
              q = (if s \<le> e then sig * 2 ^ nat (e - s) else round_half_even sig (2 ^ nat (s - e)))
          in word_of_nat (sign + min (nat (s + 149) * 2 ^ 23 + q) (255 * 2 ^ 23)))"

lemma f64_to_f32_samples: "f64_to_f32 0x3FE6666666666666 = 0x3F333333" "f64_to_f32 0 = 0" "f64_to_f32 0x4000000000000000 = 0x40000000"
  by (simp_all add: f64_to_f32_def f64_parts_def f64_is_finite_def bit_len.simps round_half_even_def Let_def)

text \<open>The settings read from the variables.\<close>

definition derive_thinking :: "string list option \<Rightarrow> string \<Rightarrow> (structured_error, thinking_mode) result" where
  "derive_thinking levels v =
     (if v \<in> {'''', ''auto'', ''unknown'', ''off'', ''none'', ''0''} then Inr ThinkingNone
      else if (case levels of Some ls \<Rightarrow> v \<notin> set ls | None \<Rightarrow> False)
      then Inl (new_error ''unsupported_thinking_level'' ''Thinking level is not advertised for the selected model'' False)
      else Inr (ThinkingEffort v))"

definition get_string :: "text_env \<Rightarrow> convar_store \<Rightarrow> string \<Rightarrow> string" where
  "get_string tx st name = (case get_typed ''String'' (string_type tx) st name of Inr v \<Rightarrow> v | Inl _ \<Rightarrow> [])"

definition get_positive :: "convar_store \<Rightarrow> string \<Rightarrow> nat option" where
  "get_positive st name =
     (case get_typed ''i64'' i64_type st name of
        Inr v \<Rightarrow> if 0 <s v then Some (unat v) else None
      | Inl _ \<Rightarrow> None)"

definition derive_inference_request ::
  "text_env \<Rightarrow> permanent_tool list \<Rightarrow> string list option \<Rightarrow> convar_store \<Rightarrow> session_snapshot \<Rightarrow> compaction_outcome
   \<Rightarrow> (structured_error, inference_request) result option" where
  "derive_inference_request tx tools levels st s co =
     map_option (\<lambda>visible.
       try_bind (derive_thinking levels (get_string tx st ''ai_thinking'')) (\<lambda>thinking.
         Inr \<lparr>ir_messages = concat (map (messages_of s co) visible), ir_folds = co_folds co,
              ir_tools = map (\<lambda>t. \<lparr>ts_name = pt_name t, ts_description = pt_name t @ '': '' @ pt_projection t,
                                   ts_parameters = pt_parameters t\<rparr>) tools,
              ir_thinking = thinking, ir_tool_choice = ChoiceAuto, ir_strict = False, ir_grammar = None,
              ir_sampling = \<lparr>sp_temperature = (case get_typed ''f64'' f64_type st ''ai_temperature'' of Inr v \<Rightarrow> Some (f64_to_f32 v) | Inl _ \<Rightarrow> None),
                             sp_top_p = None,
                             sp_max_tokens = Option.bind (get_positive st ''ai_max_tokens'') (\<lambda>n. if n < 2 ^ 32 then Some n else None),
                             sp_stop = []\<rparr>,
              ir_usage = True, ir_compaction = default_compaction\<rparr>))
       (get_visible_body s)"

section \<open>The budget of a turn\<close>

definition SATURATED :: nat where "SATURATED = 2 ^ 64 - 1"

definition compaction_config_of :: "convar_store \<Rightarrow> nat \<Rightarrow> compaction_config option" where
  "compaction_config_of st overhead =
     Option.bind (get_positive st ''ai_context_length'') (\<lambda>window.
       let ratio = (case get_typed ''f64'' f64_type st ''ai_compaction_threshold'' of Inr v \<Rightarrow> v | Inl _ \<Rightarrow> 0x3FE999999999999A);
           completion = (case get_positive st ''ai_max_tokens'' of Some n \<Rightarrow> n | None \<Rightarrow> COMPLETION_RESERVE_TOKENS);
           reserve = min SATURATED (completion + COMPLETION_SAFETY_MARGIN_TOKENS)
       in map_option (\<lambda>b. \<lparr>cc_budget = b, cc_keep = DEFAULT_KEEP_RECENT_TURNS, cc_max_roots = DEFAULT_MAX_ROOT_NODES,
                           cc_overhead = overhead\<rparr>)
            (derive_budget window ratio reserve))"

definition tool_schema_tokens :: "text_env \<Rightarrow> permanent_tool list \<Rightarrow> nat" where
  "tool_schema_tokens tx tools =
     sum_list (map (\<lambda>t. estimate_tokens (pt_name t) + estimate_tokens (pt_projection t)
                        + estimate_tokens (tx_show_json tx (pt_parameters t)) + 8) tools)"

section \<open>The loop\<close>

text \<open>
  What a turn finds of the provider after it has been set up from the variables, and the rest of
  the world the loop reaches.  Parameters with a number are drawn anew at each step.
\<close>

record provider_view =
  pv_injected :: bool
  pv_configured :: bool
  pv_model :: string
  pv_levels :: "string list option"
  pv_caps :: capability_profile

record turn_env =
  te_text :: text_env
  te_alnum :: "string \<Rightarrow> bool"
  te_world :: host_world
  te_owner :: actor_id
  te_workspace :: string
  te_tools :: "permanent_tool list"
  te_provider :: "convar_store \<Rightarrow> session_snapshot \<Rightarrow> (structured_error, provider_view) result"
  te_poll :: "nat \<Rightarrow> journal \<Rightarrow> journal \<times> (structured_error, unit) result"
  te_cancelled :: "nat \<Rightarrow> bool"
  te_shutdown :: "journal \<Rightarrow> journal \<times> (string, unit) result"
  te_infer :: "nat \<Rightarrow> inference_request \<Rightarrow> stream_event list \<times> (structured_error, canonical_turn) result"
  te_run :: "journal \<Rightarrow> string \<Rightarrow> json \<Rightarrow> tool_call_id \<Rightarrow> journal \<times> (structured_error, tool_result) result"

definition plan_compaction ::
  "turn_env \<Rightarrow> convar_store \<Rightarrow> journal \<Rightarrow> (journal \<times> (structured_error, compaction_outcome) result) option" where
  "plan_compaction te st j =
     (case compaction_config_of st (tool_schema_tokens (te_text te) (te_tools te)) of
        None \<Rightarrow> Some (j, Inr no_compaction)
      | Some cfg \<Rightarrow> plan (te_text te) (te_world te) (te_owner te) cfg j)"

definition force_policy :: "director list \<Rightarrow> string \<Rightarrow> tool_force_policy" where
  "force_policy ds tool =
     (case find (\<lambda>sp. ds_kind sp = ''ForceTool'' \<and> get_str (ds_state sp) ''tool'' = Some tool) (rev (to_specs ds)) of
        None \<Rightarrow> new_policy tool
      | Some sp \<Rightarrow> (new_policy tool)\<lparr>tf_current := get_u32 (ds_state sp) ''attempt_count'' 0,
                                        tf_max := get_u32 (ds_state sp) ''max_attempts'' 1\<rparr>)"

definition prepare_turn ::
  "director list \<Rightarrow> capability_profile \<Rightarrow> inference_request \<Rightarrow> (structured_error, inference_request) result" where
  "prepare_turn ds caps req =
     try_bind (stack_prepare ds req) (\<lambda>r.
       case ir_tool_choice r of
         ChoiceForced tool \<Rightarrow>
           (case policy_prepare (force_policy ds tool) r caps of
              (_, _, Inl e) \<Rightarrow> Inl e
            | (_, r1, Inr _) \<Rightarrow> Inr r1)
       | _ \<Rightarrow> Inr r)"

definition call_succeeded :: "element_snapshot list \<Rightarrow> tool_call_id \<Rightarrow> bool" where
  "call_succeeded visible cid \<longleftrightarrow>
     list_ex (\<lambda>e. fmlookup (attributes e) ''call_id'' = Some (TString cid)
       \<and> fmlookup (attributes e) ''status'' = Some (TString ''succeeded'')) visible"

text \<open>The calls of one turn, in order; the calls that succeeded are remembered for the directors.\<close>

fun run_calls ::
  "turn_env \<Rightarrow> tool_call_spec list \<Rightarrow> tool_call_info list \<Rightarrow> journal
   \<Rightarrow> (journal \<times> (structured_error, tool_call_info list) result) option" where
  "run_calls te [] executed j = Some (j, Inr executed)"
| "run_calls te (tc # tcs) executed j =
     (case execute_tool_inner (te_world te) (te_owner te) (te_run te) j (tc_name tc) (tc_arguments tc) (Some (tc_id tc)) of
        None \<Rightarrow> None
      | Some (j1, Inl e) \<Rightarrow> Some (j1, Inl e)
      | Some (j1, Inr cid) \<Rightarrow>
          (case get_visible_body (jn_snapshot j1) of
             None \<Rightarrow> None
           | Some visible \<Rightarrow>
               run_calls te tcs
                 (if call_succeeded visible cid
                  then executed @ [\<lparr>ti_id = tc_id tc, ti_name = tc_name tc, ti_arguments = tc_arguments tc\<rparr>]
                  else executed) j1))"

definition todo_title :: "element_snapshot \<Rightarrow> string" where
  "todo_title e =
     (if el_text e \<noteq> [] then el_text e
      else (case string_attribute e ''title'' of Some t \<Rightarrow> t | None \<Rightarrow> el_id e))"

definition agent_view_of :: "turn_env \<Rightarrow> provider_view \<Rightarrow> convar_store \<Rightarrow> session_snapshot \<Rightarrow> agent_view option" where
  "agent_view_of te pv st s =
     Option.bind (active_todos s) (\<lambda>todos.
     map_option (\<lambda>tools.
       \<lparr>av_actor = te_owner te, av_session = ss_session s,
        av_model = (if pv_model pv \<noteq> [] then pv_model pv else get_string (te_text te) st ''ai_model''),
        av_tools = map el_id tools, av_workspace = Some (te_workspace te), av_todos = map todo_title todos\<rparr>)
       (active_tool_roster s))"

definition turn_view_of :: "session_snapshot \<Rightarrow> canonical_turn \<Rightarrow> tool_call_info list \<Rightarrow> turn_view option" where
  "turn_view_of s turn executed =
     map_option (\<lambda>n. \<lparr>tv_index = wrap_u32 n, tv_text = Some (ct_text turn), tv_calls = [], tv_executed = executed,
                      tv_finish = Some (ct_finish turn)\<rparr>) (turn_count s)"

definition step_limit_error :: "nat \<Rightarrow> structured_error" where
  "step_limit_error n =
     new_error ''turn_step_limit_exceeded'' (''Agent turn exceeded maximum step budget ('' @ show_nat n @ '')'') False"

text \<open>What a settled turn without calls leads to: the directors decide, and the document records it.\<close>

datatype turn_outcome = TurnOver | TurnAgain "director list"

definition yield_turn ::
  "turn_env \<Rightarrow> provider_view \<Rightarrow> convar_store \<Rightarrow> director list \<Rightarrow> canonical_turn \<Rightarrow> tool_call_info list \<Rightarrow> journal
   \<Rightarrow> (journal \<times> director list \<times> (structured_error, turn_outcome) result) option" where
  "yield_turn te pv st ds turn executed j =
     Option.bind (turn_view_of (jn_snapshot j) turn executed) (\<lambda>tv.
     Option.bind (agent_view_of te pv st (jn_snapshot j)) (\<lambda>av.
       case handle_yield (te_text te) (te_alnum te) ds av tv of
         (ds1, Inl e) \<Rightarrow> Some (j, ds1, Inl e)
       | (ds1, Inr dec) \<Rightarrow>
           (case sync_directors_to_journal (te_world te) (te_owner te) j ds1 of
              None \<Rightarrow> None
            | Some (j1, Inl e) \<Rightarrow> Some (j1, ds1, Inl e)
            | Some (j1, Inr _) \<Rightarrow>
                (case dec of
                   Continue None \<Rightarrow> Some (j1, ds1, Inr (TurnAgain ds1))
                 | Continue (Some prompt) \<Rightarrow>
                     (case append_steering_message (te_world te) (te_owner te) j1 prompt of
                        None \<Rightarrow> None
                      | Some (j2, Inl e) \<Rightarrow> Some (j2, ds1, Inl e)
                      | Some (j2, Inr _) \<Rightarrow> Some (j2, ds1, Inr (TurnAgain ds1)))
                 | Push sp \<Rightarrow>
                     (case push_director (te_world te) (te_owner te) j1 ds1 sp of
                        None \<Rightarrow> None
                      | Some (j2, ds2, Inl e) \<Rightarrow> Some (j2, ds2, Inl e)
                      | Some (j2, ds2, Inr _) \<Rightarrow> Some (j2, ds2, Inr (TurnAgain ds2)))
                 | FailWith e \<Rightarrow> Some (j1, ds1, Inl e)
                 | _ \<Rightarrow> Some (j1, ds1, Inr TurnOver)))))"

text \<open>
  One round of the loop up to the settled assistant turn: children, cancellation, compaction, the
  request, and the stream.
\<close>

definition infer_round ::
  "turn_env \<Rightarrow> provider_view \<Rightarrow> convar_store \<Rightarrow> nat \<Rightarrow> director list \<Rightarrow> journal
   \<Rightarrow> (journal \<times> (structured_error, canonical_turn) result) option" where
  "infer_round te pv st n ds j =
     (case te_poll te n j of
        (j1, Inl e) \<Rightarrow> Some (j1, Inl e)
      | (j1, Inr _) \<Rightarrow>
          if te_cancelled te n
          then (case te_shutdown te j1 of
              (j2, Inl m) \<Rightarrow> Some (j2, Inl (new_error ''child_cancel'' m False))
            | (j2, Inr _) \<Rightarrow> Some (j2, Inl (new_error ''cancelled'' ''Child host cancelled by parent'' False)))
          else (case plan_compaction te st j1 of
              None \<Rightarrow> None
            | Some (j2, Inl e) \<Rightarrow> Some (j2, Inl e)
            | Some (j2, Inr co) \<Rightarrow>
                (case derive_inference_request (te_text te) (te_tools te) (pv_levels pv) st (jn_snapshot j2) co of
                   None \<Rightarrow> None
                 | Some (Inl e) \<Rightarrow> Some (j2, Inl e)
                 | Some (Inr req) \<Rightarrow>
                     (case prepare_turn ds (pv_caps pv) req of
                        Inl e \<Rightarrow> Some (j2, Inl e)
                      | Inr req1 \<Rightarrow> infer_assistant_turn (te_world te) (te_owner te) j2 (te_infer te n req1)))))"

fun turn_loop ::
  "turn_env \<Rightarrow> provider_view \<Rightarrow> convar_store \<Rightarrow> nat \<Rightarrow> nat \<Rightarrow> nat \<Rightarrow> director list \<Rightarrow> tool_call_info list \<Rightarrow> journal
   \<Rightarrow> (journal \<times> director list \<times> (structured_error, unit) result) option" where
  "turn_loop te pv st budget n 0 ds executed j = Some (j, ds, Inl (step_limit_error budget))"
| "turn_loop te pv st budget n (Suc k) ds executed j =
     (case infer_round te pv st n ds j of
        None \<Rightarrow> None
      | Some (j1, Inl e) \<Rightarrow> Some (j1, ds, Inl e)
      | Some (j1, Inr turn) \<Rightarrow>
          if ct_calls turn \<noteq> []
          then (case run_calls te (ct_calls turn) executed j1 of
              None \<Rightarrow> None
            | Some (j2, Inl e) \<Rightarrow> Some (j2, ds, Inl e)
            | Some (j2, Inr executed1) \<Rightarrow> turn_loop te pv st budget (Suc n) k ds executed1 j2)
          else (case yield_turn te pv st ds turn executed j1 of
              None \<Rightarrow> None
            | Some (j2, ds1, Inl e) \<Rightarrow> Some (j2, ds1, Inl e)
            | Some (j2, ds1, Inr TurnOver) \<Rightarrow> Some (j2, ds1, Inr ())
            | Some (j2, ds1, Inr (TurnAgain ds2)) \<Rightarrow> turn_loop te pv st budget (Suc n) k ds2 executed j2))"

definition refresh_failed :: "session_snapshot \<Rightarrow> bool option" where
  "refresh_failed s =
     map_option (\<lambda>k. case Option.bind (snap_element s k) (\<lambda>e. fmlookup (attributes e) ''provider_refresh_error'') of
         Some (TJson _) \<Rightarrow> True | _ \<Rightarrow> False) (container s ''capabilities'')"

definition run_turn ::
  "turn_env \<Rightarrow> nat \<Rightarrow> convar_store \<Rightarrow> director list \<Rightarrow> journal \<Rightarrow> string
   \<Rightarrow> (journal \<times> convar_store \<times> director list \<times> (structured_error, unit) result) option" where
  "run_turn te max_steps st0 ds0 j message =
     (let s = jn_snapshot j in
      Option.bind (convar_hydrate st0 s) (\<lambda>st.
        case te_provider te st s of
          Inl e \<Rightarrow> Some (j, st, ds0, Inl e)
        | Inr pv \<Rightarrow>
            Option.bind (if pv_injected pv then Some False else refresh_failed s) (\<lambda>failed.
              if failed
              then Some (j, st, ds0, Inl (new_error ''provider_catalog_unavailable''
                     ''Provider refresh failed; use /provider refresh before inference'' True))
              else if \<not> pv_configured pv
              then Some (j, st, ds0, Inl (new_error ''provider_not_configured''
                     ''No inference model is available. Use /provider <endpoint> --key-env OMP_API_KEY to discover models.'' False))
              else
                Option.bind (stack_of_snapshot s) (\<lambda>stack.
                  case stack of
                    Inl e \<Rightarrow> Some (j, st, ds0, Inl e)
                  | Inr ds \<Rightarrow>
                      (case append_user_message (te_world te) (te_owner te) j message of
                         None \<Rightarrow> None
                       | Some (j1, Inl e) \<Rightarrow> Some (j1, st, ds, Inl e)
                       | Some (j1, Inr _) \<Rightarrow>
                           map_option (\<lambda>(j2, ds1, r). (j2, st, ds1, r))
                             (turn_loop te pv st max_steps 0 max_steps ds [] j1))))))"

end
