(* ===== verification/HostTurnProps.thy ===== *)
theory HostTurnProps
  imports HostTurn HostSample
begin

text \<open>
  What the operations of a turn do to the element they settle: an element of the body, between
  the elements before and after it, and its children.  Every operation on the element, or on one
  of its children, leaves the rest of the body as it was.
\<close>

section \<open>An element of the body\<close>

definition in_body ::
  "session_snapshot \<Rightarrow> element_snapshot list \<Rightarrow> element_snapshot \<Rightarrow> element_snapshot list \<Rightarrow> element_snapshot list \<Rightarrow> bool" where
  "in_body s es e fs cs \<longleftrightarrow> wf_snapshot s \<and> children s ''body'' = es @ e # fs \<and> children s (el_id e) = cs"

lemma rooted_node:
  assumes "wf_snapshot s" "k \<in> set ROOTS"
  obtains n where "fmlookup (ss_nodes s) k = Some n" "nd_parent n = root_parent k"
  using wf_snapshotD(2)[OF assms(1)] assms(2) that unfolding rooted_def by blast

lemma body_node:
  assumes wf: "wf_snapshot s"
  obtains n where "fmlookup (ss_nodes s) ''body'' = Some n" "nd_parent n = Some ''root''"
    "nd_children n = map el_id (children s ''body'')"
proof -
  obtain n where n: "fmlookup (ss_nodes s) ''body'' = Some n" "nd_parent n = Some ''root''"
    using rooted_node[OF wf, of "''body''"] by (auto simp: ROOTS_def root_parent_def)
  with children_ids[OF wf, of "''body''" n] that show thesis by (simp add: snap_node_def)
qed

lemma body_element:
  assumes b: "in_body s es e fs cs"
  obtains n where "fmlookup (ss_nodes s) (el_id e) = Some n" "nd_element n = e" "nd_parent n = Some ''body''"
    "nd_children n = map el_id cs" "distinct (map el_id cs)"
proof -
  have wf: "wf_snapshot s" and ch: "children s ''body'' = es @ e # fs" and cs: "children s (el_id e) = cs"
    using b by (simp_all add: in_body_def)
  obtain m where m: "fmlookup (ss_nodes s) ''body'' = Some m" "nd_children m = map el_id (es @ e # fs)"
    using body_node[OF wf] ch by metis
  have "container_is s ''body'' (es @ e # fs)" using wf ch m(1) by (simp add: container_is_def)
  then have e: "snap_element s (el_id e) = Some e" using container_is_ids by (metis in_set_conv_decomp)
  obtain n where n: "fmlookup (ss_nodes s) (el_id e) = Some n" "nd_parent n = Some ''body''"
    using linkedD(2)[OF wf_snapshotD(1)[OF wf] m(1), of "el_id e"] m(2) by auto
  moreover have "nd_children n = map el_id cs" using children_ids[OF wf, of "el_id e" n] n(1) cs by (simp add: snap_node_def)
  moreover have "distinct (nd_children n)" by (rule linkedD(1)[OF wf_snapshotD(1)[OF wf] n(1)])
  moreover have "nd_element n = e" using e n(1) by (simp add: snap_element_def snap_node_def)
  ultimately show thesis using that by simp
qed

lemma in_body_apart:
  assumes b: "in_body s es e fs cs"
  shows "el_id e \<noteq> ''body''" "el_id e \<notin> el_id ` set es" "el_id e \<notin> el_id ` set fs" "snap_element s (el_id e) = Some e"
    "el_id e \<notin> el_id ` set cs" "c \<in> el_id ` set cs \<Longrightarrow> c \<notin> el_id ` set (es @ e # fs)" "c \<in> el_id ` set cs \<Longrightarrow> c \<notin> {''body'', ''root''}"
proof -
  have wf: "wf_snapshot s" and ch: "children s ''body'' = es @ e # fs" using b by (simp_all add: in_body_def)
  obtain m where m: "fmlookup (ss_nodes s) ''body'' = Some m" "nd_parent m = Some ''root''" "nd_children m = map el_id (es @ e # fs)"
    using body_node[OF wf] ch by metis
  obtain n where n: "fmlookup (ss_nodes s) (el_id e) = Some n" "nd_element n = e" "nd_parent n = Some ''body''" "nd_children n = map el_id cs"
    using body_element[OF b] by metis
  obtain r where r: "fmlookup (ss_nodes s) ''root'' = Some r" "nd_parent r = None"
    using rooted_node[OF wf, of "''root''"] by (auto simp: ROOTS_def root_parent_def)
  have l: "linked (ss_nodes s)" by (rule wf_snapshotD(1)[OF wf])
  show nb: "el_id e \<noteq> ''body''" using n(1,3) m(1,2) by auto
  have "distinct (map el_id (es @ e # fs))" using linkedD(1)[OF l m(1)] m(3) by simp
  then show "el_id e \<notin> el_id ` set es" "el_id e \<notin> el_id ` set fs" by auto
  show "snap_element s (el_id e) = Some e" using n(1,2) by (simp add: snap_element_def snap_node_def)
  have par: "\<exists>k. fmlookup (ss_nodes s) c = Some k \<and> nd_parent k = Some (el_id e)" if "c \<in> el_id ` set cs" for c
    using linkedD(2)[OF l n(1), of c] n(4) that by auto
  show "el_id e \<notin> el_id ` set cs" using par[of "el_id e"] n(1,3) nb by auto
  have bod: "\<exists>k. fmlookup (ss_nodes s) c = Some k \<and> nd_parent k = Some ''body''" if "c \<in> el_id ` set (es @ e # fs)" for c
    using linkedD(2)[OF l m(1), of c] m(3) that by auto
  show "c \<in> el_id ` set cs \<Longrightarrow> c \<notin> el_id ` set (es @ e # fs)" using par[of c] bod[of c] nb by auto
  have "el_id e \<noteq> ''root''" using r n(1,3) by auto
  then show "c \<in> el_id ` set cs \<Longrightarrow> c \<notin> {''body'', ''root''}" using par[of c] m(1,2) r by auto
qed

lemma edit_others: "i \<notin> el_id ` set xs \<Longrightarrow> map (\<lambda>e. if el_id e = i then f e else e) xs = xs"
  by (rule map_idI) auto

lemma edit_in_body:
  assumes b: "in_body s es e fs cs" and a: "edit_element s (el_id e) f u = (s', Inr v)" and f: "\<And>x. el_id (f x) = el_id x"
  shows "in_body s' es (f e) fs cs"
proof -
  have wf: "wf_snapshot s" using b by (simp add: in_body_def)
  note ch = children_edit[OF wf a f]
  show ?thesis using edit_element_ok[OF a wf f] ch[of "''body''"] ch[of "el_id e"] b in_body_apart[OF b]
    by (simp add: in_body_def edit_others f)
qed

lemma edit_child_in_body:
  assumes b: "in_body s es e fs cs" and c: "c \<in> el_id ` set cs"
    and a: "edit_element s c f u = (s', Inr v)" and f: "\<And>x. el_id (f x) = el_id x"
  shows "in_body s' es e fs (map (\<lambda>x. if el_id x = c then f x else x) cs)"
proof -
  have wf: "wf_snapshot s" using b by (simp add: in_body_def)
  note ch = children_edit[OF wf a f]
  show ?thesis using edit_element_ok[OF a wf f] ch[of "''body''"] ch[of "el_id e"] b edit_others[OF in_body_apart(6)[OF b c]]
    by (simp add: in_body_def)
qed

lemma create_child_in_body:
  assumes b: "in_body s es e fs cs" and a: "apply_create s (el_id e) k x = (s', Inr v)"
  shows "in_body s' es e fs (vec_insert k x cs)"
proof -
  have wf: "wf_snapshot s" using b by (simp add: in_body_def)
  obtain m where "fmlookup (ss_nodes s) ''body'' = Some m" using body_node[OF wf] by metis
  then show ?thesis
    using apply_create_wf[OF a wf] children_create[OF wf a] create_beside[OF wf a, of "''body''"] in_body_apart(1)[OF b] b
    by (simp add: in_body_def)
qed

lemma below_own:
  assumes b: "in_body s es e fs cs" and c: "c \<in> el_id ` set cs" and k: "k = ''body'' \<or> k \<in> el_id ` set (es @ e # fs)"
  shows "\<not> below (ss_nodes s) c k"
proof
  assume "below (ss_nodes s) c k"
  then obtain xs where xs: "anc_path (ss_nodes s) k xs" "c \<in> set xs" by (auto simp: below_def)
  have wf: "wf_snapshot s" and ch: "children s ''body'' = es @ e # fs" using b by (simp_all add: in_body_def)
  obtain m where m: "fmlookup (ss_nodes s) ''body'' = Some m" "nd_parent m = Some ''root''" "nd_children m = map el_id (es @ e # fs)"
    using body_node[OF wf] ch by metis
  obtain r where r: "fmlookup (ss_nodes s) ''root'' = Some r" "nd_parent r = None"
    using rooted_node[OF wf, of "''root''"] by (auto simp: ROOTS_def root_parent_def)
  have top: "set ys = {''root''}" if "anc_path (ss_nodes s) ''root'' ys" for ys
    using that r by (cases rule: anc_path.cases) auto
  have body: "set ys = {''body'', ''root''}" if "anc_path (ss_nodes s) ''body'' ys" for ys
    using that m(1,2) top by (cases rule: anc_path.cases) auto
  have "set xs \<subseteq> insert k {''body'', ''root''}"
  proof (cases "k = ''body''")
    case True
    with xs(1) body show ?thesis by auto
  next
    case False
    then obtain n where n: "fmlookup (ss_nodes s) k = Some n" "nd_parent n = Some ''body''"
      using k linkedD(2)[OF wf_snapshotD(1)[OF wf] m(1), of k] m(3) by auto
    from xs(1) show ?thesis using n body by (cases rule: anc_path.cases) auto
  qed
  with xs(2) in_body_apart(6,7)[OF b c] k show False by auto
qed

lemma delete_child_in_body:
  assumes b: "in_body s es e fs cs" and c: "c \<in> el_id ` set cs" and a: "apply_one s (Delete c) = (s', Inr v)"
  shows "in_body s' es e fs (filter (\<lambda>x. el_id x \<noteq> c) cs)"
proof -
  have wf: "wf_snapshot s" and ch: "children s ''body'' = es @ e # fs" using b by (simp_all add: in_body_def)
  have wf': "wf_snapshot s'" by (rule apply_one_wf[OF wf a])
  obtain m where m: "fmlookup (ss_nodes s) ''body'' = Some m" "nd_children m = map el_id (es @ e # fs)"
    using body_node[OF wf] ch by metis
  obtain n where n: "fmlookup (ss_nodes s) (el_id e) = Some n" "nd_children n = map el_id cs" using body_element[OF b] by metis
  note del = delete_removes_subtree[OF wf a]
  have nc: "filter (\<lambda>x. x \<noteq> c) (nd_children m) = nd_children m"
    using in_body_apart(6)[OF b c] m(2) by (intro filter_True) auto
  have m': "fmlookup (ss_nodes s') ''body'' = Some (m\<lparr>nd_children := nd_children m\<rparr>)"
    using del[of "''body''"] below_own[OF b c, of "''body''"] m(1) nc by (simp add: snap_node_def)
  have "snap_element s' x = snap_element s x" if "x \<in> set (nd_children m)" for x
    using del[of x] below_own[OF b c, of x] that m(2) by (cases "snap_node s x") (auto simp: snap_element_def)
  then have "children s' ''body'' = children s ''body''"
    unfolding children_map[OF wf' m'] children_map[OF wf m(1)] by simp
  moreover have "c \<in> set (nd_children n)" using c n(2) by auto
  ultimately show ?thesis using wf' children_delete[OF wf a n(1)] b by (simp add: in_body_def)
qed


lemma in_body_nodes: "ss_nodes s = ss_nodes t \<Longrightarrow> wf_snapshot s \<Longrightarrow> in_body t es e fs cs \<Longrightarrow> in_body s es e fs cs"
  using children_nodes[of s t] by (simp add: in_body_def)

text \<open>A new element at the end of the body.\<close>

lemma create_in_body:
  assumes c: "container_is s ''body'' es" and a: "apply_ops s [Create ''body'' (wrap_u32 (length es)) e] us = (s', Inr ())"
    and l: "length es < 2 ^ 32"
  shows "in_body s' es e [] []"
proof -
  have wf: "wf_snapshot s" and es: "children s ''body'' = es" using c by (simp_all add: container_is_def)
  obtain u where u: "apply_create s ''body'' (wrap_u32 (length es)) e = (s', Inr u)"
    using a by (auto split: prod.splits sum.splits)
  have "children s' ''body'' = es @ [e]" using create_appends(1)[OF _ c l] a es by (simp add: count_u32_def)
  moreover have "fmlookup (ss_nodes s') (el_id e) = Some \<lparr>nd_element = e, nd_parent = Some ''body'', nd_children = []\<rparr>"
    using apply_create_InrD(4)[OF u] by simp
  ultimately show ?thesis using apply_create_wf[OF u wf] by (simp add: in_body_def children_def List.map_filter_simps)
qed

section \<open>What a stream leaves\<close>

definition said :: "stream_event list \<Rightarrow> string" where
  "said evs = concat (map (\<lambda>ev. case se_delta ev of DeltaText t \<Rightarrow> t | _ \<Rightarrow> []) evs)"

definition thought :: "stream_event list \<Rightarrow> string" where
  "thought evs = concat (map (\<lambda>ev. case se_delta ev of DeltaThinking t \<Rightarrow> t | _ \<Rightarrow> []) evs)"

lemma said_simps [simp]:
  "said [] = []" "said (ev # evs) = (case se_delta ev of DeltaText t \<Rightarrow> t | _ \<Rightarrow> []) @ said evs"
  "thought [] = []" "thought (ev # evs) = (case se_delta ev of DeltaThinking t \<Rightarrow> t | _ \<Rightarrow> []) @ thought evs"
  by (simp_all add: said_def thought_def)

text \<open>The deltas before the cancellation.\<close>

abbreviation heard :: "stream_event list \<Rightarrow> stream_event list" where
  "heard evs \<equiv> takeWhile (\<lambda>ev. \<not> se_cancelled ev) evs"

definition think_is :: "element_snapshot list \<Rightarrow> string \<Rightarrow> bool" where
  "think_is cs th \<longleftrightarrow> (if th = [] then cs = [] else \<exists>x. cs = [x] \<and> el_kind x = ''think'' \<and> el_text x = th)"

definition streamed ::
  "session_snapshot \<Rightarrow> element_snapshot list \<Rightarrow> element_id \<Rightarrow> string \<Rightarrow> string \<Rightarrow> bool" where
  "streamed s es i tx th \<longleftrightarrow> (\<exists>cs. in_body s es ((assistant_element i)\<lparr>el_text := tx\<rparr>) [] cs \<and> think_is cs th)"

lemma assistant_fields [simp]:
  "el_id (assistant_element i) = i" "el_kind (assistant_element i) = ''assistant''" "el_text (assistant_element i) = []"
  by (simp_all add: assistant_element_def new_element_def)

lemma flush_ops_streamed:
  assumes s: "streamed (jn_snapshot j) es i tx th" and a: "apply_ops (jn_snapshot j) (flush_ops w j i t h) [] = (s', Inr ())"
  shows "streamed s' es i (tx @ t) (th @ h)"
proof -
  obtain cs where b: "in_body (jn_snapshot j) es ((assistant_element i)\<lparr>el_text := tx\<rparr>) [] cs" and c: "think_is cs th"
    using s by (auto simp: streamed_def)
  obtain s1 us where s1: "apply_ops (jn_snapshot j) (if t \<noteq> [] then [AppendText i t] else []) [] = (s1, Inr ())"
    "apply_ops s1 (if h \<noteq> [] then (case child_of_kind (jn_snapshot j) i ''think'' of
            Some c \<Rightarrow> [AppendText (el_id c) h]
          | None \<Rightarrow> [Create i 0 ((new_element (mint w j 0) ''think'')\<lparr>el_text := h\<rparr>)]) else []) us = (s', Inr ())"
    using apply_ops_append[OF a[unfolded flush_ops_def]] by blast
  have b1: "in_body s1 es ((assistant_element i)\<lparr>el_text := tx @ t\<rparr>) [] cs"
  proof (cases "t = []")
    case True
    with s1(1) b show ?thesis by simp
  next
    case False
    with s1(1) obtain v where "edit_element (jn_snapshot j) (el_id ((assistant_element i)\<lparr>el_text := tx\<rparr>))
        (\<lambda>e. e\<lparr>el_text := el_text e @ t\<rparr>) (\<lambda>e. UndoAppend i (length (el_text e))) = (s1, Inr v)"
      by (auto split: prod.splits sum.splits)
    from edit_in_body[OF b this] show ?thesis by simp
  qed
  show ?thesis
  proof (cases "h = []")
    case True
    with s1(2) b1 c show ?thesis by (auto simp: streamed_def)
  next
    case h: False
    have ch: "children (jn_snapshot j) i = cs" using b by (simp add: in_body_def)
    show ?thesis
    proof (cases "th = []")
      case True
      with c have "cs = []" by (simp add: think_is_def)
      then have "child_of_kind (jn_snapshot j) i ''think'' = None" by (simp add: child_of_kind_def ch)
      with s1(2) h obtain v where "apply_create s1 (el_id ((assistant_element i)\<lparr>el_text := tx @ t\<rparr>)) 0
          ((new_element (mint w j 0) ''think'')\<lparr>el_text := h\<rparr>) = (s', Inr v)"
        by (auto split: prod.splits sum.splits)
      from create_child_in_body[OF b1 this] \<open>cs = []\<close> True h show ?thesis
        by (auto simp: streamed_def think_is_def vec_insert_def new_element_def)
    next
      case False
      with c obtain x where x: "cs = [x]" "el_kind x = ''think''" "el_text x = th" by (auto simp: think_is_def)
      then have "child_of_kind (jn_snapshot j) i ''think'' = Some x" by (simp add: child_of_kind_def ch)
      with s1(2) h obtain v where "edit_element s1 (el_id x) (\<lambda>e. e\<lparr>el_text := el_text e @ h\<rparr>)
          (\<lambda>e. UndoAppend (el_id x) (length (el_text e))) = (s', Inr v)"
        by (auto split: prod.splits sum.splits)
      from edit_child_in_body[OF b1 _ this] x h show ?thesis by (auto simp: streamed_def think_is_def)
    qed
  qed
qed

lemma streamed_nodes: "ss_nodes s = ss_nodes t \<Longrightarrow> wf_snapshot s \<Longrightarrow> streamed t es i tx th \<Longrightarrow> streamed s es i tx th"
  unfolding streamed_def using in_body_nodes[of s t] by blast

text \<open>An error of the journal, as the host reports it.\<close>

definition store_error :: "structured_error \<Rightarrow> bool" where
  "store_error e \<longleftrightarrow> e \<in> range state_error_structured"

text \<open>An append that fails leaves the document as it was, and its error is one of the store.\<close>

lemma host_append_error: "host_append w owner j base why xs = (j', Inl e) \<Longrightarrow> store_error e"
  by (auto simp: store_error_def host_append_def Let_def split: prod.splits sum.splits)

lemma flush_streamed:
  assumes ok: "journal_ok (hw_codec w) j" and s: "streamed (jn_snapshot j) es i tx th"
    and a: "flush_stream_buffers w owner j i t h = (j', r)"
  shows "journal_ok (hw_codec w) j'"
    "case r of Inr _ \<Rightarrow> streamed (jn_snapshot j') es i (tx @ t) (th @ h)
       | Inl e \<Rightarrow> streamed (jn_snapshot j') es i tx th \<and> store_error e"
proof -
  have "journal_ok (hw_codec w) j' \<and> (case r of Inr _ \<Rightarrow> streamed (jn_snapshot j') es i (tx @ t) (th @ h)
       | Inl e \<Rightarrow> streamed (jn_snapshot j') es i tx th \<and> store_error e)"
  proof (cases "t = [] \<and> h = []")
    case True
    with a ok s show ?thesis by (auto simp: flush_stream_buffers_def)
  next
    case False
    with a have p: "host_append w owner j (ss_offset (jn_snapshot j)) ''assistant stream delta'' (flush_ops w j i t h) = (j', r)"
      by (auto simp: flush_stream_buffers_def)
    show ?thesis
    proof (cases r)
      case (Inl e)
      with host_append_failed[OF ok p[unfolded Inl]] host_append_error[OF p[unfolded Inl]] s show ?thesis by simp
    next
      case (Inr u)
      note o = host_append_ok[OF ok p[unfolded Inr, simplified]]
      from o(3) flush_ops_streamed[OF s] streamed_nodes[OF _ journal_wf[OF o(1)]] have "streamed (jn_snapshot j') es i (tx @ t) (th @ h)" by blast
      with o(1) Inr show ?thesis by simp
    qed
  qed
  then show "journal_ok (hw_codec w) j'"
    "case r of Inr _ \<Rightarrow> streamed (jn_snapshot j') es i (tx @ t) (th @ h)
       | Inl e \<Rightarrow> streamed (jn_snapshot j') es i tx th \<and> store_error e" by blast+
qed


lemma observe_streamed:
  assumes "journal_ok (hw_codec w) j" "streamed (jn_snapshot j) es i tx th" "observe w owner i j t h evs = (j', t', h', stop)"
  shows "journal_ok (hw_codec w) j' \<and> (\<exists>tx' th'. streamed (jn_snapshot j') es i tx' th' \<and>
    (case stop of
       None \<Rightarrow> list_all (\<lambda>ev. \<not> se_cancelled ev) evs \<and> tx' @ t' = tx @ t @ said evs \<and> th' @ h' = th @ h @ thought evs
     | Some e \<Rightarrow> store_error e \<or>
         e = cancelled_inference \<and> tx' @ t' = tx @ t @ said (heard evs) \<and> th' @ h' = th @ h @ thought (heard evs)))"
  using assms
proof (induction evs arbitrary: j tx th t h)
  case Nil
  then show ?case by auto
next
  case (Cons ev evs)
  note ok = Cons.prems(1) and s = Cons.prems(2)
  show ?case
  proof (cases "se_cancelled ev")
    case True
    with Cons.prems(3) have r: "j' = j" "t' = t" "h' = h" "stop = Some cancelled_inference" by simp_all
    show ?thesis unfolding r using ok s True by (intro conjI exI[of _ tx] exI[of _ th]) simp_all
  next
    case live: False
    define t1 where "t1 = (case se_delta ev of DeltaText u \<Rightarrow> t @ u | _ \<Rightarrow> t)"
    define h1 where "h1 = (case se_delta ev of DeltaThinking u \<Rightarrow> h @ u | _ \<Rightarrow> h)"
    have t1: "t1 @ u = t @ (case se_delta ev of DeltaText v \<Rightarrow> v | _ \<Rightarrow> []) @ u" for u
      by (simp add: t1_def split: stream_delta.splits)
    have h1: "h1 @ u = h @ (case se_delta ev of DeltaThinking v \<Rightarrow> v | _ \<Rightarrow> []) @ u" for u
      by (simp add: h1_def split: stream_delta.splits)
    show ?thesis
    proof (cases "STREAM_FLUSH_BYTES \<le> length t1 + length h1 \<or> se_elapsed ev")
      case False
      with Cons.prems(3) live have o: "observe w owner i j t1 h1 evs = (j', t', h', stop)"
        by (simp add: t1_def h1_def Let_def)
      from Cons.IH[OF ok s o] obtain tx' th' where ih: "journal_ok (hw_codec w) j'" "streamed (jn_snapshot j') es i tx' th'"
        "case stop of
           None \<Rightarrow> list_all (\<lambda>ev. \<not> se_cancelled ev) evs \<and> tx' @ t' = tx @ t1 @ said evs \<and> th' @ h' = th @ h1 @ thought evs
         | Some e \<Rightarrow> store_error e \<or>
             e = cancelled_inference \<and> tx' @ t' = tx @ t1 @ said (heard evs) \<and> th' @ h' = th @ h1 @ thought (heard evs)" by blast
      show ?thesis
        by (intro conjI ih(1) exI[of _ tx'] exI[of _ th'] ih(2)) (use ih(3) live in \<open>cases stop; simp add: t1 h1\<close>)
    next
      case True
      obtain j1 r where f: "flush_stream_buffers w owner j i t1 h1 = (j1, r)" by force
      note fs = flush_streamed[OF ok s f]
      have o: "(case r of Inl e \<Rightarrow> (j1, [], [], Some e) | Inr _ \<Rightarrow> observe w owner i j1 [] [] evs) = (j', t', h', stop)"
        using Cons.prems(3) live True f by (simp add: t1_def h1_def Let_def)
      show ?thesis
      proof (cases r)
        case (Inl e)
        with o fs have "j1 = j'" "stop = Some e" "streamed (jn_snapshot j1) es i tx th" "store_error e" by simp_all
        with fs(1) show ?thesis by (intro conjI exI[of _ tx] exI[of _ th]) simp_all
      next
        case (Inr u)
        with o fs(2) have o': "observe w owner i j1 [] [] evs = (j', t', h', stop)"
          and s1: "streamed (jn_snapshot j1) es i (tx @ t1) (th @ h1)" by simp_all
        from Cons.IH[OF fs(1) s1 o'] obtain tx' th' where ih: "journal_ok (hw_codec w) j'" "streamed (jn_snapshot j') es i tx' th'"
          "case stop of
             None \<Rightarrow> list_all (\<lambda>ev. \<not> se_cancelled ev) evs \<and> tx' @ t' = tx @ t1 @ said evs \<and> th' @ h' = th @ h1 @ thought evs
           | Some e \<Rightarrow> store_error e \<or>
               e = cancelled_inference \<and> tx' @ t' = tx @ t1 @ said (heard evs) \<and> th' @ h' = th @ h1 @ thought (heard evs)"
          by (simp only: append_Nil append_assoc) blast
        show ?thesis
          by (intro conjI ih(1) exI[of _ tx'] exI[of _ th'] ih(2)) (use ih(3) live in \<open>cases stop; simp add: t1 h1\<close>)
      qed
    qed
  qed
qed

section \<open>The settlement\<close>

text \<open>Operations that edit the element itself, each as a function of the element.\<close>

fun own_edit :: "patch_op \<Rightarrow> element_snapshot \<Rightarrow> element_snapshot" where
  "own_edit (SetAttribute k n v) e = e\<lparr>attributes := fmupd n v (attributes e)\<rparr>"
| "own_edit (ReplaceText k t) e = e\<lparr>el_text := t\<rparr>"
| "own_edit _ e = e"

fun edits :: "element_id \<Rightarrow> patch_op \<Rightarrow> bool" where
  "edits i (SetAttribute k n v) = (k = i)"
| "edits i (ReplaceText k t) = (k = i)"
| "edits i _ = False"

lemma own_edit_id [simp]: "el_id (own_edit x e) = el_id e" "el_kind (own_edit x e) = el_kind e"
  by (cases x; simp)+

lemma edits_in_body:
  "apply_ops s xs us = (s', Inr ()) \<Longrightarrow> list_all (edits (el_id e)) xs \<Longrightarrow> in_body s es e fs cs
     \<Longrightarrow> in_body s' es (fold own_edit xs e) fs cs"
proof (induction xs arbitrary: s us e)
  case (Cons x xs)
  from Cons.prems(1) obtain t u where t: "apply_one s x = (t, Inr u)" "apply_ops t xs (u # us) = (s', Inr ())"
    by (auto split: prod.splits sum.splits)
  have "in_body t es (own_edit x e) fs cs"
  proof (cases x)
    case (SetAttribute k n v)
    with t(1) Cons.prems(2) have "edit_element s (el_id e) (\<lambda>e. e\<lparr>attributes := fmupd n v (attributes e)\<rparr>)
        (\<lambda>e. UndoAttribute k n (fmlookup (attributes e) n)) = (t, Inr u)" by simp
    from edit_in_body[OF Cons.prems(3) this] SetAttribute show ?thesis by simp
  next
    case (ReplaceText k v)
    with t(1) Cons.prems(2) have "edit_element s (el_id e) (\<lambda>e. e\<lparr>el_text := v\<rparr>) (\<lambda>e. UndoText k (el_text e)) = (t, Inr u)" by simp
    from edit_in_body[OF Cons.prems(3) this] ReplaceText show ?thesis by simp
  qed (use Cons.prems(2) in simp_all)
  from Cons.IH[OF t(2) _ this] Cons.prems(2) show ?case by simp
qed simp

lemma deletes_in_body:
  "apply_ops s (map (\<lambda>c. Delete (el_id c)) ds) us = (s', Inr ()) \<Longrightarrow> distinct (map el_id ds) \<Longrightarrow> el_id ` set ds \<subseteq> el_id ` set cs
     \<Longrightarrow> in_body s es e fs cs \<Longrightarrow> in_body s' es e fs (filter (\<lambda>x. el_id x \<notin> el_id ` set ds) cs)"
proof (induction ds arbitrary: s us cs)
  case (Cons d ds)
  from Cons.prems(1) obtain t u where t: "apply_one s (Delete (el_id d)) = (t, Inr u)"
    "apply_ops t (map (\<lambda>c. Delete (el_id c)) ds) (u # us) = (s', Inr ())"
    by (auto split: prod.splits sum.splits)
  have d: "el_id d \<in> el_id ` set cs" using Cons.prems(3) by auto
  note b = delete_child_in_body[OF Cons.prems(4) d t(1)]
  have "el_id ` set ds \<subseteq> el_id ` set (filter (\<lambda>x. el_id x \<noteq> el_id d) cs)"
    using Cons.prems(2,3) by (simp add: subset_iff image_iff) metis
  from Cons.IH[OF t(2) _ this b] Cons.prems(2) show ?case by (simp add: conj_commute)
qed simp


text \<open>What the element of a settled turn is, attribute by attribute.\<close>

definition attr :: "element_snapshot \<Rightarrow> string \<Rightarrow> typed_value option" where
  "attr e n = fmlookup (attributes e) n"

definition answered :: "element_snapshot \<Rightarrow> canonical_turn \<Rightarrow> bool" where
  "answered e turn \<longleftrightarrow> el_kind e = ''assistant'' \<and> el_text e = ct_text turn \<and> attr e ''streaming'' = Some (TBool False)
     \<and> attr e ''status'' = Some (TString ''succeeded'') \<and> attr e ''finish_reason'' = Some (TString (ct_finish turn))
     \<and> attr e ''usage'' = Some (TJson (ct_usage turn)) \<and> attr e ''thinking'' = map_option TString (ct_thinking turn)"

definition broken_off :: "element_snapshot \<Rightarrow> string \<Rightarrow> structured_error \<Rightarrow> bool" where
  "broken_off e text err \<longleftrightarrow> el_kind e = ''assistant'' \<and> el_text e = text \<and> attr e ''streaming'' = Some (TBool False)
     \<and> attr e ''status'' = Some (TString (if err_code err = ''cancelled'' then ''cancelled'' else ''failed''))"

definition reported :: "element_snapshot \<Rightarrow> structured_error \<Rightarrow> bool" where
  "reported d err \<longleftrightarrow> el_kind d = ''diag'' \<and> el_text d = err_message err \<and> attr d ''code'' = Some (TString (err_code err))
     \<and> el_payload d = Some (error_json err)"

lemma settle_turn_streamed:
  assumes s: "streamed (jn_snapshot j) es i tx th"
    and a: "apply_ops (jn_snapshot j) (SetAttribute i ''streaming'' (TBool False) # settle_turn_ops j i turn) [] = (s', Inr ())"
  shows "\<exists>e. el_id e = i \<and> in_body s' es e [] [] \<and> answered e turn"
proof -
  define e0 where "e0 = (assistant_element i)\<lparr>el_text := tx\<rparr>"
  obtain cs where b: "in_body (jn_snapshot j) es e0 [] cs" and c: "think_is cs th" using s by (auto simp: streamed_def e0_def)
  have e0: "el_id e0 = i" "el_text e0 = tx" by (simp_all add: e0_def)
  have ch: "children (jn_snapshot j) i = cs" using b e0 by (simp add: in_body_def)
  have el: "snap_element (jn_snapshot j) i = Some e0" using in_body_apart(4)[OF b] e0 by simp
  define xs where "xs = SetAttribute i ''streaming'' (TBool False)
     # (if tx \<noteq> ct_text turn then [ReplaceText i (ct_text turn)] else [])
     @ [SetAttribute i ''status'' (TString ''succeeded''), SetAttribute i ''finish_reason'' (TString (ct_finish turn)),
        SetAttribute i ''usage'' (TJson (ct_usage turn))]
     @ (case ct_thinking turn of Some t \<Rightarrow> [SetAttribute i ''thinking'' (TString t)] | None \<Rightarrow> [])"
  have all: "filter (\<lambda>c. el_kind c = ''think'') cs = cs" using c by (auto simp: think_is_def split: if_splits)
  have "SetAttribute i ''streaming'' (TBool False) # settle_turn_ops j i turn = xs @ map (\<lambda>c. Delete (el_id c)) cs"
    by (simp add: settle_turn_ops_def el e0 ch all xs_def)
  then obtain t us where t: "apply_ops (jn_snapshot j) xs [] = (t, Inr ())"
    "apply_ops t (map (\<lambda>c. Delete (el_id c)) cs) us = (s', Inr ())"
    using apply_ops_append a by metis
  have "list_all (edits (el_id e0)) xs" by (simp add: xs_def e0 split: option.splits)
  note bt = edits_in_body[OF t(1) this b]
  have "distinct (map el_id cs)" using c by (auto simp: think_is_def split: if_splits)
  then have "in_body s' es (fold own_edit xs e0) [] []"
    using deletes_in_body[OF t(2) _ subset_refl bt] by (simp add: filter_empty_conv)
  moreover have "answered (fold own_edit xs e0) turn"
    by (cases "ct_thinking turn"; cases "tx = ct_text turn") (simp_all add: answered_def attr_def xs_def e0_def assistant_element_def new_element_def)
  moreover have "el_id (fold own_edit xs e0) = i"
    by (simp add: xs_def e0 split: option.splits)
  ultimately show ?thesis by blast
qed

lemma settle_error_streamed:
  assumes s: "streamed (jn_snapshot j) es i tx th"
    and a: "apply_ops (jn_snapshot j) (SetAttribute i ''streaming'' (TBool False) # settle_error_ops w j i err) [] = (s', Inr ())"
  shows "\<exists>e cs d. el_id e = i \<and> in_body s' es e [] (cs @ [d]) \<and> broken_off e tx err \<and> think_is cs th \<and> reported d err"
proof -
  define e0 where "e0 = (assistant_element i)\<lparr>el_text := tx\<rparr>"
  obtain cs where b: "in_body (jn_snapshot j) es e0 [] cs" and c: "think_is cs th" using s by (auto simp: streamed_def e0_def)
  have e0: "el_id e0 = i" "el_text e0 = tx" by (simp_all add: e0_def)
  have ch: "children (jn_snapshot j) i = cs" using b e0 by (simp add: in_body_def)
  define xs where "xs = [SetAttribute i ''streaming'' (TBool False),
     SetAttribute i ''status'' (TString (if err_code err = ''cancelled'' then ''cancelled'' else ''failed''))]"
  define d where "d = (new_element (mint w j 0) ''diag'')\<lparr>el_text := err_message err,
           attributes := fmupd ''code'' (TString (err_code err)) fmempty, el_payload := Some (error_json err)\<rparr>"
  have "length cs \<le> 1" using c by (auto simp: think_is_def split: if_splits)
  then have n: "count_u32 (jn_snapshot j) i = length cs" using wrap_u32_small[of "length cs"] by (simp add: count_u32_def ch)
  have "SetAttribute i ''streaming'' (TBool False) # settle_error_ops w j i err = xs @ [Create i (length cs) d]"
    by (simp add: settle_error_ops_def xs_def d_def n)
  then obtain t us where t: "apply_ops (jn_snapshot j) xs [] = (t, Inr ())" "apply_ops t [Create i (length cs) d] us = (s', Inr ())"
    using apply_ops_append a by metis
  have "list_all (edits (el_id e0)) xs" by (simp add: xs_def e0)
  note bt = edits_in_body[OF t(1) this b]
  define e where "e = fold own_edit xs e0"
  have e: "el_id e = i" by (simp add: e_def xs_def e0)
  obtain v where "apply_create t (el_id e) (length cs) d = (s', Inr v)"
    using t(2) e by (auto split: prod.splits sum.splits)
  from create_child_in_body[OF bt[folded e_def] this] have "in_body s' es e [] (cs @ [d])" by (simp add: vec_insert_def)
  moreover have "broken_off e tx err"
    by (simp add: broken_off_def attr_def e_def xs_def e0_def assistant_element_def new_element_def)
  moreover have "reported d err" by (simp add: reported_def d_def attr_def new_element_def)
  ultimately show ?thesis using e c by blast
qed


section \<open>The settlement of a tool call\<close>

lemma host_append_valid:
  assumes ok: "journal_ok (hw_codec w) j" and a: "host_append w owner j base why xs = (j', Inr ())"
  shows "length xs \<le> MAX_PATCH_OPS"
proof -
  define p where "p = \<lparr>base_offset = JournalOffset base, result_offset = next_offset j, patch_by = Actor owner, reason = why, ops = xs\<rparr>"
  obtain n where n: "append_patch (hw_codec w) (hw_now w (offset_nat (next_offset j))) (hw_fault w (offset_nat (next_offset j))) j p
      = (j', Inr n)"
    using a by (auto simp: host_append_def p_def Let_def split: prod.splits sum.splits)
  obtain r where "jr_patch r = p" "apply_record (hw_codec w) r (jn_snapshot j) = Inr (jn_snapshot j')"
    using append_patch_ok(5)[OF ok n] by blast
  then obtain s' where "apply_patch (cd_json (hw_codec w)) (jn_snapshot j) p = (s', Inr ())"
    by (auto simp: apply_record_Inr_iff)
  then have "validate (cd_json (hw_codec w)) p = Inr ()" by (auto simp: apply_patch_def split: sum.splits)
  then show ?thesis by (simp add: validate_Inr_iff patch_ok_def p_def)
qed

text \<open>New children, one after the other, behind the first ones.\<close>

lemma creates_in_body:
  "apply_ops s (map (\<lambda>(n, x). Create i (wrap_u32 n + 1) x) (enumerate k xs)) us = (s', Inr ()) \<Longrightarrow> el_id e = i
     \<Longrightarrow> length as = Suc k \<Longrightarrow> k + length xs < 2 ^ 32 \<Longrightarrow> in_body s es e fs (as @ bs) \<Longrightarrow> in_body s' es e fs (as @ xs @ bs)"
proof (induction xs arbitrary: s us k as)
  case (Cons x xs)
  from Cons.prems(4) have n: "wrap_u32 k + 1 = length as" using Cons.prems(3) by (simp add: wrap_u32_small)
  obtain t u where t: "apply_create s (el_id e) (length as) x = (t, Inr u)"
    "apply_ops t (map (\<lambda>(n, x). Create i (wrap_u32 n + 1) x) (enumerate (Suc k) xs)) (u # us) = (s', Inr ())"
    using Cons.prems(1,2) n by (auto split: prod.splits sum.splits)
  have "in_body t es e fs ((as @ [x]) @ bs)"
    using create_child_in_body[OF Cons.prems(5) t(1)] by (simp add: vec_insert_def)
  from Cons.IH[OF t(2) Cons.prems(2) _ _ this] Cons.prems(3,4) show ?case by simp
qed simp

text \<open>What the element of a call says of it.\<close>

definition call_of :: "element_snapshot \<Rightarrow> string \<Rightarrow> json \<Rightarrow> tool_call_id \<Rightarrow> string \<Rightarrow> bool" where
  "call_of e name input cid status \<longleftrightarrow> el_kind e = ''tool_call'' \<and> attr e ''tool'' = Some (TString name)
     \<and> attr e ''call_id'' = Some (TString cid) \<and> attr e ''intent'' = Some (TString (call_intent input))
     \<and> attr e ''status'' = Some (TString status)"

lemma call_fields [simp]: "el_id (call_element i cid name input) = i"
  by (simp add: call_element_def new_element_def)

lemma settle_call_in_body:
  assumes b: "in_body s es e fs (inp # ds)" and i: "el_id e = i" and n: "length (result_elements ids r) < 2 ^ 32"
    and a: "apply_ops s (settle_call_ops ids i r) [] = (s', Inr ())"
  shows "in_body s' es (own_edit (SetAttribute i ''status'' (TString (if result_failed r then ''failed'' else ''succeeded''))) e) fs
    (inp # result_elements ids r @ ds)"
proof -
  obtain t us where t: "apply_ops s [SetAttribute i ''status'' (TString (if result_failed r then ''failed'' else ''succeeded''))] [] = (t, Inr ())"
    "apply_ops t (map (\<lambda>(n, e). Create i (wrap_u32 n + 1) e) (enumerate 0 (result_elements ids r))) us = (s', Inr ())"
    using apply_ops_append[of s "[_]"] a unfolding settle_call_ops_def by (metis append_Cons append_Nil)
  have "in_body t es (own_edit (SetAttribute i ''status'' (TString (if result_failed r then ''failed'' else ''succeeded''))) e) fs ([inp] @ ds)"
    using edits_in_body[OF t(1) _ b] i by simp
  from creates_in_body[OF t(2) _ _ _ this] i n show ?thesis by simp
qed

text \<open>The new call with its input.\<close>

lemma invoke_in_body:
  assumes c: "container_is s ''body'' es" and l: "length es < 2 ^ 32" and e: "el_id e = i"
    and a: "apply_ops s [Create ''body'' (wrap_u32 (length es)) e, Create i 0 inp] [] = (s', Inr ())"
  shows "in_body s' es e [] [inp]"
proof -
  obtain t us where t: "apply_ops s [Create ''body'' (wrap_u32 (length es)) e] [] = (t, Inr ())" "apply_ops t [Create i 0 inp] us = (s', Inr ())"
    using apply_ops_append[of s "[_]"] a by (metis append_Cons append_Nil)
  note b = create_in_body[OF c t(1) l]
  obtain u where "apply_create t (el_id e) 0 inp = (s', Inr u)" using t(2) e by (auto split: prod.splits sum.splits)
  from create_child_in_body[OF b this] show ?thesis by (simp add: vec_insert_def)
qed

end
