(* ===== verification/HostTurnClaims.thy ===== *)
theory HostTurnClaims
  imports HostTurnProps
begin

text \<open>
  The turn of the host (\<open>omp-control/src/host.rs\<close>): what the journal holds of a provider's stream
  once the assistant turn has returned, and of a tool call once it is settled.
\<close>

section \<open>The assistant turn\<close>

text \<open>The flushes and the settlement after the stream, from a stream that has been observed.\<close>

lemma settled_stream:
  assumes ok: "journal_ok (hw_codec w) j" and s: "streamed (jn_snapshot j) es i tx th"
    and f: "flush_stream_buffers w owner j i t h = (j1, Inr ())"
    and a: "host_append w owner j1 (ss_offset (jn_snapshot j1)) ''settle assistant stream''
      (SetAttribute i ''streaming'' (TBool False)
       # (case result of Inr turn \<Rightarrow> settle_turn_ops j1 i turn | Inl e \<Rightarrow> settle_error_ops w j1 i e)) = (j', Inr ())"
  shows "journal_ok (hw_codec w) j'"
    "case result of
       Inr turn \<Rightarrow> \<exists>e. in_body (jn_snapshot j') es e [] [] \<and> answered e turn
     | Inl err \<Rightarrow> \<exists>e cs d. in_body (jn_snapshot j') es e [] (cs @ [d]) \<and> broken_off e (tx @ t) err
         \<and> think_is cs (th @ h) \<and> reported d err"
proof -
  note fs = flush_streamed[OF ok s f]
  note o = host_append_ok[OF fs(1) a]
  show "journal_ok (hw_codec w) j'" by (rule o(1))
  have s1: "streamed (jn_snapshot j1) es i (tx @ t) (th @ h)" using fs(2) by simp
  obtain t' where t': "apply_ops (jn_snapshot j1) (SetAttribute i ''streaming'' (TBool False)
       # (case result of Inr turn \<Rightarrow> settle_turn_ops j1 i turn | Inl e \<Rightarrow> settle_error_ops w j1 i e)) [] = (t', Inr ())"
    "ss_nodes (jn_snapshot j') = ss_nodes t'" using o(3) by blast
  note n = in_body_nodes[OF t'(2) journal_wf[OF o(1)]]
  show "case result of
       Inr turn \<Rightarrow> \<exists>e. in_body (jn_snapshot j') es e [] [] \<and> answered e turn
     | Inl err \<Rightarrow> \<exists>e cs d. in_body (jn_snapshot j') es e [] (cs @ [d]) \<and> broken_off e (tx @ t) err
         \<and> think_is cs (th @ h) \<and> reported d err"
  proof (cases result)
    case (Inl err)
    with t'(1) settle_error_streamed[OF s1] obtain e cs d where e: "in_body t' es e [] (cs @ [d])" "broken_off e (tx @ t) err"
      "think_is cs (th @ h)" "reported d err" by (metis sum.simps(5))
    from n[OF e(1)] e(2-4) Inl show ?thesis by (simp only: sum.simps) blast
  next
    case (Inr turn)
    with t'(1) settle_turn_streamed[OF s1] obtain e where e: "in_body t' es e [] []" "answered e turn" by (metis sum.simps(6))
    from n[OF e(1)] e(2) Inr show ?thesis by (simp only: sum.simps) blast
  qed
qed

lemma streamed_body: "streamed s es i tx th \<Longrightarrow> \<exists>e. children s ''body'' = es @ [e]"
  by (auto simp: streamed_def in_body_def)

text \<open>What the body is when an assistant turn has returned \<open>r\<close>.\<close>

definition settled_as ::
  "session_snapshot \<Rightarrow> element_snapshot list \<Rightarrow> stream_event list \<times> (structured_error, canonical_turn) result
   \<Rightarrow> (structured_error, canonical_turn) result \<Rightarrow> bool" where
  "settled_as s old reply r \<longleftrightarrow>
    (case r of
       Inr turn \<Rightarrow> snd reply = Inr turn \<and> list_all (\<lambda>ev. \<not> se_cancelled ev) (fst reply) \<and>
         (\<exists>e. in_body s old e [] [] \<and> answered e turn)
     | Inl err \<Rightarrow>
         if store_error err
         then \<exists>new. children s ''body'' = old @ new \<and> length new \<le> 1
         else (err = cancelled_inference \<or> snd reply = Inl err) \<and>
           (\<exists>e cs d. in_body s old e [] (cs @ [d]) \<and>
              broken_off e (said (heard (fst reply))) err \<and> think_is cs (thought (heard (fst reply))) \<and> reported d err))"

lemma start_stream:
  assumes ok: "journal_ok (hw_codec w) j" and l: "length (children (jn_snapshot j) ''body'') < 2 ^ 32"
    and a: "host_append w owner j (ss_offset (jn_snapshot j)) ''start assistant stream''
      [Create ''body'' (wrap_u32 (length (children (jn_snapshot j) ''body''))) (assistant_element i)] = (j1, Inr ())"
  shows "journal_ok (hw_codec w) j1" "streamed (jn_snapshot j1) (children (jn_snapshot j) ''body'') i [] []"
proof -
  note o = host_append_ok[OF ok a]
  show "journal_ok (hw_codec w) j1" by (rule o(1))
  have c: "container_is (jn_snapshot j) ''body'' (children (jn_snapshot j) ''body'')"
    using journal_container(1)[OF ok, of "''body''"] by (simp add: ROOTS_def)
  obtain t where t: "apply_ops (jn_snapshot j) [Create ''body'' (wrap_u32 (length (children (jn_snapshot j) ''body''))) (assistant_element i)] [] = (t, Inr ())"
    "ss_nodes (jn_snapshot j1) = ss_nodes t" using o(3) by blast
  have e0: "(assistant_element i)\<lparr>el_text := []\<rparr> = assistant_element i" by (simp add: assistant_element_def new_element_def)
  show "streamed (jn_snapshot j1) (children (jn_snapshot j) ''body'') i [] []"
    unfolding streamed_def think_is_def e0
    using in_body_nodes[OF t(2) journal_wf[OF o(1)] create_in_body[OF c t(1) l]] by simp
qed

text \<open>What the stream left unflushed, and how it stopped, against the events.\<close>

definition caught :: "string \<Rightarrow> string \<Rightarrow> stream_event list \<Rightarrow> structured_error option \<Rightarrow> bool" where
  "caught text thinking evs stop \<longleftrightarrow>
    (case stop of
       None \<Rightarrow> list_all (\<lambda>ev. \<not> se_cancelled ev) evs \<and> text = said evs \<and> thinking = thought evs
     | Some e \<Rightarrow> store_error e \<or> e = cancelled_inference \<and> text = said (heard evs) \<and> thinking = thought (heard evs))"

lemma settled_by_result:
  assumes c: "caught text thinking (fst reply) stop" and result: "result = (case stop of Some e \<Rightarrow> Inl e | None \<Rightarrow> snd reply)"
    and st: "case result of
       Inr turn \<Rightarrow> \<exists>e. in_body s old e [] [] \<and> answered e turn
     | Inl err \<Rightarrow> \<exists>e cs d. in_body s old e [] (cs @ [d]) \<and> broken_off e text err \<and> think_is cs thinking \<and> reported d err"
  shows "settled_as s old reply result"
proof (cases result)
  case (Inr turn)
  then have "stop = None" "snd reply = Inr turn" using result by (simp_all split: option.splits)
  with c st Inr show ?thesis by (simp add: settled_as_def caught_def)
next
  case (Inl err)
  obtain e cs d where e: "in_body s old e [] (cs @ [d])" "broken_off e text err" "think_is cs thinking" "reported d err"
    using st Inl by auto
  show ?thesis
  proof (cases "store_error err")
    case True
    moreover have "\<exists>new. children s ''body'' = old @ new \<and> length new \<le> 1"
      using e(1) by (intro exI[of _ "[e]"]) (simp add: in_body_def)
    ultimately show ?thesis using Inl by (simp add: settled_as_def)
  next
    case False
    have h: "heard (fst reply) = fst reply" if "list_all (\<lambda>ev. \<not> se_cancelled ev) (fst reply)"
      using that unfolding takeWhile_eq_all_conv list_all_iff .
    have "(err = cancelled_inference \<or> snd reply = Inl err) \<and> text = said (heard (fst reply)) \<and> thinking = thought (heard (fst reply))"
    proof (cases stop)
      case None
      with c have live: "list_all (\<lambda>ev. \<not> se_cancelled ev) (fst reply)" and "text = said (fst reply)" "thinking = thought (fst reply)"
        by (simp_all add: caught_def)
      with None Inl result show ?thesis unfolding h[OF live] by simp
    next
      case (Some e')
      then show ?thesis using c Inl result False by (simp add: caught_def)
    qed
    with e Inl False show ?thesis unfolding settled_as_def by (simp only: sum.simps if_False simp_thms) blast
  qed
qed

lemma finish_stream:
  assumes ok: "journal_ok (hw_codec w) j" and s: "streamed (jn_snapshot j) es i tx th" and c: "caught (tx @ t) (th @ h) (fst reply) stop"
    and result: "result = (case stop of Some e \<Rightarrow> Inl e | None \<Rightarrow> snd reply)"
    and f: "flush_stream_buffers w owner j i t h = (j1, r1)"
    and a: "host_append w owner j1 (ss_offset (jn_snapshot j1)) ''settle assistant stream''
      (SetAttribute i ''streaming'' (TBool False)
       # (case result of Inr turn \<Rightarrow> settle_turn_ops j1 i turn | Inl e \<Rightarrow> settle_error_ops w j1 i e)) = (j2, r2)"
    and eq: "(j', r) = (case r1 of Inl e \<Rightarrow> (j1, Inl e) | Inr _ \<Rightarrow> (case r2 of Inl e \<Rightarrow> (j2, Inl e) | Inr _ \<Rightarrow> (j2, result)))"
  shows "journal_ok (hw_codec w) j' \<and> settled_as (jn_snapshot j') es reply r"
proof -
  note fs = flush_streamed[OF ok s f]
  show ?thesis
  proof (cases r1)
    case (Inl e)
    with eq have "j' = j1" "r = Inl e" by simp_all
    moreover have "streamed (jn_snapshot j1) es i tx th" "store_error e" using fs(2) Inl by simp_all
    ultimately show ?thesis using fs(1) streamed_body[of "jn_snapshot j1" es i tx th] by (auto simp: settled_as_def)
  next
    case f1: (Inr u1)
    then have f': "flush_stream_buffers w owner j i t h = (j1, Inr ())" using f by simp
    have s1: "streamed (jn_snapshot j1) es i (tx @ t) (th @ h)" using fs(2) f1 by simp
    show ?thesis
    proof (cases r2)
      case (Inl e)
      with eq f1 have "j' = j2" "r = Inl e" by simp_all
      with host_append_failed[OF fs(1) a[unfolded Inl]] host_append_error[OF a[unfolded Inl]] streamed_body[OF s1]
      show ?thesis by (auto simp: settled_as_def)
    next
      case f2: (Inr u2)
      with a have a': "host_append w owner j1 (ss_offset (jn_snapshot j1)) ''settle assistant stream''
          (SetAttribute i ''streaming'' (TBool False)
           # (case result of Inr turn \<Rightarrow> settle_turn_ops j1 i turn | Inl e \<Rightarrow> settle_error_ops w j1 i e)) = (j2, Inr ())" by simp
      note st = settled_stream[OF ok s f' a']
      have "j' = j2" "r = result" using eq f1 f2 by simp_all
      with st(1) settled_by_result[OF c result st(2)] show ?thesis by simp
    qed
  qed
qed

lemma turn_settled:
  assumes ok: "journal_ok (hw_codec w) j" and l: "length (children (jn_snapshot j) ''body'') < 2 ^ 32"
    and i: "infer_assistant_turn w owner j reply = Some (j', r)"
  shows "journal_ok (hw_codec w) j' \<and> settled_as (jn_snapshot j') (children (jn_snapshot j) ''body'') reply r"
proof -
  let ?old = "children (jn_snapshot j) ''body''"
  have r: "''body'' \<in> set ROOTS" by (simp add: ROOTS_def)
  note c = journal_container[OF ok r]
  define i where "i = mint w j 0"
  obtain j1 r1 where h1: "host_append w owner j (ss_offset (jn_snapshot j)) ''start assistant stream''
      [Create ''body'' (wrap_u32 (length ?old)) (assistant_element i)] = (j1, r1)" by force
  obtain j2 t h stop where ob: "observe w owner i j1 [] [] (fst reply) = (j2, t, h, stop)" by (metis prod.exhaust)
  obtain j3 r3 where f: "flush_stream_buffers w owner j2 i t h = (j3, r3)" by force
  define result where "result = (case stop of Some e \<Rightarrow> Inl e | None \<Rightarrow> snd reply)"
  obtain j4 r4 where h4: "host_append w owner j3 (ss_offset (jn_snapshot j3)) ''settle assistant stream''
      (SetAttribute i ''streaming'' (TBool False)
       # (case result of Inr turn \<Rightarrow> settle_turn_ops j3 i turn | Inl e \<Rightarrow> settle_error_ops w j3 i e)) = (j4, r4)" by force
  have eq: "(j', r) = (case r1 of Inl e \<Rightarrow> (j1, Inl e) | Inr _ \<Rightarrow> (case r3 of Inl e \<Rightarrow> (j3, Inl e)
      | Inr _ \<Rightarrow> (case r4 of Inl e \<Rightarrow> (j4, Inl e) | Inr _ \<Rightarrow> (j4, result))))"
    using i h1 ob f h4 c unfolding infer_assistant_turn_def get_visible_body_def Let_def
    by (simp add: i_def[symmetric] result_def[symmetric] split: sum.splits)
  show ?thesis
  proof (cases r1)
    case (Inl e)
    with eq have "j' = j1" "r = Inl e" by simp_all
    with host_append_failed[OF ok h1[unfolded Inl]] host_append_error[OF h1[unfolded Inl]] show ?thesis by (simp add: settled_as_def)
  next
    case (Inr u)
    with h1 have h1': "host_append w owner j (ss_offset (jn_snapshot j)) ''start assistant stream''
      [Create ''body'' (wrap_u32 (length ?old)) (assistant_element i)] = (j1, Inr ())" by simp
    have s1: "journal_ok (hw_codec w) j1" "streamed (jn_snapshot j1) ?old i [] []"
      using start_stream[OF ok l h1'] by blast+
    obtain tx th where s2: "journal_ok (hw_codec w) j2" "streamed (jn_snapshot j2) ?old i tx th" "caught (tx @ t) (th @ h) (fst reply) stop"
      using observe_streamed[OF s1 ob] unfolding caught_def append_Nil by blast
    from finish_stream[OF s2 result_def f h4] eq Inr show ?thesis by simp
  qed
qed

lemma turn_returns: "journal_ok (hw_codec w) j \<Longrightarrow> \<exists>j' r. infer_assistant_turn w owner j reply = Some (j', r)"
  using journal_container(2,3)[of "hw_codec w" j "''body''"]
  by (auto simp: infer_assistant_turn_def get_visible_body_def ROOTS_def Let_def)

text \<open>
  C36: A provider's stream settles.  From a valid journal the assistant turn always returns, without
  a panic; then the body has at most one more element, at its end, and everything before it is as it was.  A turn that is returned is the
  provider's, no delta of it was cancelled, and the new element is final: it holds the text of the
  turn whatever was streamed, the status, the finish reason and the usage, it no longer streams,
  and the thinking that was streamed has been taken out.  An error other than one of the journal
  leaves an element that no longer streams either, with exactly the text and the thinking that
  were received before it (before the cancellation, when the parent cancelled), marked as failed
  or cancelled, and with a diagnostic as its last child.
\<close>

theorem assistant_turn_settles:
  assumes "journal_ok (hw_codec w) j" "length (children (jn_snapshot j) ''body'') < 2 ^ 32"
  shows "\<exists>j' r. infer_assistant_turn w owner j reply = Some (j', r) \<and> journal_ok (hw_codec w) j' \<and>
    (case r of
       Inr turn \<Rightarrow> snd reply = Inr turn \<and> list_all (\<lambda>ev. \<not> se_cancelled ev) (fst reply) \<and>
         (\<exists>e. in_body (jn_snapshot j') (children (jn_snapshot j) ''body'') e [] [] \<and> answered e turn)
     | Inl err \<Rightarrow>
         if store_error err
         then \<exists>new. children (jn_snapshot j') ''body'' = children (jn_snapshot j) ''body'' @ new \<and> length new \<le> 1
         else (err = cancelled_inference \<or> snd reply = Inl err) \<and>
           (\<exists>e cs d. in_body (jn_snapshot j') (children (jn_snapshot j) ''body'') e [] (cs @ [d]) \<and>
              broken_off e (said (heard (fst reply))) err \<and> think_is cs (thought (heard (fst reply))) \<and> reported d err))"
proof -
  obtain j' r where i: "infer_assistant_turn w owner j reply = Some (j', r)"
    using turn_returns[OF assms(1)] by blast
  with turn_settled[OF assms i] show ?thesis unfolding settled_as_def by blast
qed

text \<open>A turn of one delta on the sample journal: the text grows once and is then replaced.\<close>

lemma edits_apply:
  "in_body s es e fs cs \<Longrightarrow> list_all (edits (el_id e)) xs \<Longrightarrow> \<exists>t. apply_ops s xs us = (t, Inr ())"
proof (induction xs arbitrary: s e us)
  case (Cons x xs)
  obtain n where n: "fmlookup (ss_nodes s) (el_id e) = Some n" using body_element[OF Cons.prems(1)] by metis
  have "\<exists>t u. apply_one s x = (t, Inr u)"
    using Cons.prems(2) n by (cases x) (auto simp: edit_element_def require_def snap_node_def ok_or_def)
  then obtain t u where t: "apply_one s x = (t, Inr u)" by blast
  then have "apply_ops s [x] us = (t, Inr ())" by simp
  from edits_in_body[OF this _ Cons.prems(1)] Cons.prems(2) have "in_body t es (own_edit x e) fs cs" by simp
  from Cons.IH[OF this, of "u # us"] Cons.prems(2) t show ?case by simp
qed simp

lemma plain_write:
  assumes j: "writable j" and why: "trim why \<noteq> []" "length why \<le> 4096"
    and xs: "list_all (op_ok (\<lambda>_. None)) xs" "length xs \<le> 4096" "apply_ops (jn_snapshot j) xs [] = (t, Inr ())"
  shows "\<exists>j'. host_append plain_world owner j (ss_offset (jn_snapshot j)) why xs = (j', Inr ()) \<and> writable j'
    \<and> ss_nodes (jn_snapshot j') = ss_nodes t"
proof -
  have "journal_ok plain_codec j" using j by (simp add: writable_def)
  then have "ss_offset (jn_snapshot j) = latest_offset j" using journal_ok_snapshot by (simp add: good_snapshot_def)
  with plain_append[OF j why xs, of owner] show ?thesis by auto
qed

definition short_turn :: canonical_turn where
  "short_turn = \<lparr>ct_text = ''hi!'', ct_thinking = None, ct_calls = [], ct_usage = JNull, ct_finish = ''stop''\<rparr>"

definition one_delta :: stream_event where
  "one_delta = \<lparr>se_delta = DeltaText ''hi'', se_elapsed = False, se_cancelled = False\<rparr>"

lemma streamed_start: "streamed s es i [] [] \<Longrightarrow> in_body s es (assistant_element i) [] []"
proof -
  have e0: "(assistant_element i)\<lparr>el_text := []\<rparr> = assistant_element i" by (simp add: assistant_element_def new_element_def)
  assume "streamed s es i [] []"
  then show ?thesis unfolding streamed_def e0 think_is_def by auto
qed

lemma short_turn_runs:
  "\<exists>j'. infer_assistant_turn plain_world ''host'' sample_journal ([one_delta], Inr short_turn) = Some (j', Inr short_turn)"
proof -
  let ?j = sample_journal and ?i = "mint plain_world sample_journal 0"
  have ok: "journal_ok plain_codec ?j" and w: "writable ?j" using sample_writable by (simp_all add: writable_def)
  have body: "''body'' \<in> set ROOTS" by (simp add: ROOTS_def)
  note jc = journal_container[OF ok body]
  have empty: "children (jn_snapshot ?j) ''body'' = []" and off: "ss_offset (jn_snapshot ?j) = 0"
    using sample_view_start by (simp_all add: sample_view_def)
  have why: "trim ''start assistant stream'' \<noteq> []" "length ''start assistant stream'' \<le> 4096"
    "trim ''assistant stream delta'' \<noteq> []" "length ''assistant stream delta'' \<le> 4096"
    "trim ''settle assistant stream'' \<noteq> []" "length ''settle assistant stream'' \<le> 4096" by code_simp+
  have kb: "list_all kind_byte ''assistant''" by code_simp
  have i: "?i = ''1-0''"
    using sample_view_start show_zero show_small(1) by (simp add: mint_def sample_view_def next_offset_def)
  have fresh: "?i \<notin> set ROOTS" unfolding i by code_simp
  have o1: "op_ok (\<lambda>_. None) (Create ''body'' 0 (assistant_element ?i))"
    using kb by (simp add: assistant_element_def new_element_def MAX_OP_TEXT_BYTES_def)
  have "length (children (jn_snapshot ?j) ''body'') < 2 ^ 32" unfolding empty by simp
  from sample_insert[OF sample_view_start _ o1 _ why(1,2) this, of "''host''"] fresh off
  obtain j1 where j1: "host_append plain_world ''host'' ?j (ss_offset (jn_snapshot ?j)) ''start assistant stream''
      [Create ''body'' (wrap_u32 (length (children (jn_snapshot ?j) ''body''))) (assistant_element ?i)] = (j1, Inr ())" "writable j1"
    by (auto simp: count_u32_def sample_view_def)
  have "streamed (jn_snapshot j1) [] ?i [] []"
    using start_stream(2)[of plain_world ?j "''host''" ?i j1] ok j1(1) empty by simp
  note b1 = streamed_start[OF this]
  obtain n where n: "fmlookup (ss_nodes (jn_snapshot j1)) ?i = Some n" using body_element[OF b1] by (metis assistant_fields(1))
  obtain t2 where t2: "apply_ops (jn_snapshot j1) [AppendText ?i ''hi''] [] = (t2, Inr ())"
    by (simp add: edit_element_def require_def snap_node_def ok_or_def n)
  obtain j2 where j2: "host_append plain_world ''host'' j1 (ss_offset (jn_snapshot j1)) ''assistant stream delta'' [AppendText ?i ''hi''] = (j2, Inr ())"
    "writable j2" "ss_nodes (jn_snapshot j2) = ss_nodes t2"
    using plain_write[OF j1(2) why(3,4) _ _ t2, of "''host''"] by (auto simp: MAX_OP_TEXT_BYTES_def MAX_WIRE_BYTES_def)
  have f2: "flush_stream_buffers plain_world ''host'' j1 ?i ''hi'' [] = (j2, Inr ())"
    using j2(1) by (simp add: flush_stream_buffers_def flush_ops_def)
  have ok1: "journal_ok (hw_codec plain_world) j1" using j1(2) by (simp add: writable_def)
  have "streamed (jn_snapshot j1) [] ?i [] []" by fact
  from flush_streamed(2)[OF ok1 this f2] have s2: "streamed (jn_snapshot j2) [] ?i ''hi'' []" by simp
  define e2 where "e2 = (assistant_element ?i)\<lparr>el_text := ''hi''\<rparr>"
  have b2: "in_body (jn_snapshot j2) [] e2 [] []" using s2 by (simp add: streamed_def think_is_def e2_def)
  have e2: "el_id e2 = ?i" "el_text e2 = ''hi''" by (simp_all add: e2_def)
  let ?ops = "SetAttribute ?i ''streaming'' (TBool False) # settle_turn_ops j2 ?i short_turn"
  have ops: "?ops = [SetAttribute ?i ''streaming'' (TBool False), ReplaceText ?i ''hi!'', SetAttribute ?i ''status'' (TString ''succeeded''),
      SetAttribute ?i ''finish_reason'' (TString ''stop''), SetAttribute ?i ''usage'' (TJson JNull)]"
    using in_body_apart(4)[OF b2] b2 e2 by (simp add: settle_turn_ops_def short_turn_def in_body_def)
  obtain t3 where t3: "apply_ops (jn_snapshot j2) ?ops [] = (t3, Inr ())"
    using edits_apply[OF b2, of ?ops "[]"] e2(1) unfolding ops by auto
  have "list_all (op_ok (\<lambda>_. None)) ?ops" "length ?ops \<le> 4096" unfolding ops by (simp_all add: MAX_OP_TEXT_BYTES_def MAX_WIRE_BYTES_def)
  from plain_write[OF j2(2) why(5,6) this t3, of "''host''"] obtain j3 where
    j3: "host_append plain_world ''host'' j2 (ss_offset (jn_snapshot j2)) ''settle assistant stream'' ?ops = (j3, Inr ())" by blast
  have ob: "observe plain_world ''host'' ?i j1 [] [] [one_delta] = (j1, ''hi'', [], None)"
    by (simp add: one_delta_def STREAM_FLUSH_BYTES_def)
  show ?thesis
    unfolding infer_assistant_turn_def get_visible_body_def Let_def jc(2,3)
    using j1(1) ob f2 j3 by simp
qed

theorem assistant_turn_settles_witness:
  "\<exists>j e. infer_assistant_turn plain_world ''host'' sample_journal ([one_delta], Inr short_turn) = Some (j, Inr short_turn)
     \<and> in_body (jn_snapshot j) [] e [] [] \<and> answered e short_turn"
proof -
  obtain j where j: "infer_assistant_turn plain_world ''host'' sample_journal ([one_delta], Inr short_turn) = Some (j, Inr short_turn)"
    using short_turn_runs by blast
  have ok: "journal_ok (hw_codec plain_world) sample_journal" using sample_writable by (simp add: writable_def)
  have empty: "children (jn_snapshot sample_journal) ''body'' = []" using sample_view_start by (simp add: sample_view_def)
  from assistant_turn_settles[OF ok, of "''host''" "([one_delta], Inr short_turn)"] j show ?thesis unfolding empty by auto
qed

section \<open>A tool call\<close>

text \<open>
  What is asked of the tool host: it keeps the journal well-formed, and whatever it writes it
  leaves the call that is running, and all before it, as they are; it may add to either's end.
\<close>

definition keeps_calls ::
  "host_world \<Rightarrow> (journal \<Rightarrow> string \<Rightarrow> json \<Rightarrow> tool_call_id \<Rightarrow> journal \<times> (structured_error, tool_result) result) \<Rightarrow> bool" where
  "keeps_calls w run \<longleftrightarrow>
    (\<forall>j name input cid j' x es e cs. journal_ok (hw_codec w) j \<longrightarrow> run j name input cid = (j', x) \<longrightarrow> in_body (jn_snapshot j) es e [] cs
      \<longrightarrow> journal_ok (hw_codec w) j' \<and> (\<exists>fs ds. in_body (jn_snapshot j') es e fs (cs @ ds)))"

text \<open>What is recorded of an execution.\<close>

definition recorded :: "(structured_error, tool_result) result \<Rightarrow> tool_result" where
  "recorded x = (case x of Inr r \<Rightarrow> r | Inl e \<Rightarrow> failed_result e)"

lemma settle_journal:
  assumes ok: "journal_ok (hw_codec w) j" and b: "in_body (jn_snapshot j) es e fs (inp # ds)" and i: "el_id e = i"
    and e: "call_of e name input cid ''running''"
    and a: "host_append w owner j base why (settle_call_ops (mint w j) i r) = (j', Inr ())"
  shows "journal_ok (hw_codec w) j' \<and> (\<exists>e'. in_body (jn_snapshot j') es e' fs (inp # result_elements (mint w j) r @ ds)
    \<and> call_of e' name input cid (if result_failed r then ''failed'' else ''succeeded''))"
proof -
  note o = host_append_ok[OF ok a]
  obtain t where t: "apply_ops (jn_snapshot j) (settle_call_ops (mint w j) i r) [] = (t, Inr ())" "ss_nodes (jn_snapshot j') = ss_nodes t"
    using o(3) by blast
  have "length (result_elements (mint w j) r) < 2 ^ 32"
    using host_append_valid[OF ok a] by (simp add: settle_call_ops_def MAX_PATCH_OPS_def)
  from in_body_nodes[OF t(2) journal_wf[OF o(1)] settle_call_in_body[OF b i this t(1)]] e o(1)
  show ?thesis by (intro conjI exI[where x = "own_edit _ e"]) (assumption, assumption, simp add: call_of_def attr_def)
qed

text \<open>
  A tool call settles.  The tool runs on a journal that already holds the call, running, with
  its input.  Whatever it then does, a call that returns leaves its element in the
  body right behind what was there, with the name, the call identifier and the intent it was
  called with, no longer running: succeeded, or failed when the tool failed or gave an error
  diagnostic.  Its first child is the input, then come the result, the diagnostics, the usage and
  the artifacts of the execution, in that order.  The only errors that are returned are those of
  the journal: an error of the tool is recorded, and the turn goes on.  The tool host is a
  parameter: it may write to the journal but leaves the running call and what is before it alone.
\<close>

theorem tool_call_settles:
  assumes ok: "journal_ok (hw_codec w) j" and l: "length (children (jn_snapshot j) ''body'') < 2 ^ 32" and k: "keeps_calls w run"
    and x: "execute_tool_inner w owner run j name input c = Some (j', r)"
  shows "case r of
      Inr cid \<Rightarrow> journal_ok (hw_codec w) j' \<and> (\<forall>given. c = Some given \<longrightarrow> cid = given) \<and>
        (\<exists>j1 e1 ids e inp fs ds. let res = recorded (snd (run j1 name input cid)) in
           journal_ok (hw_codec w) j1 \<and> in_body (jn_snapshot j1) (children (jn_snapshot j) ''body'') e1 [] [inp]
           \<and> call_of e1 name input cid ''running''
           \<and> in_body (jn_snapshot j') (children (jn_snapshot j) ''body'') e fs (inp # result_elements ids res @ ds)
           \<and> call_of e name input cid (if result_failed res then ''failed'' else ''succeeded'')
           \<and> el_kind inp = ''input'' \<and> el_payload inp = Some input)
    | Inl e \<Rightarrow> store_error e"
proof -
  let ?old = "children (jn_snapshot j) ''body''"
  have body: "''body'' \<in> set ROOTS" by (simp add: ROOTS_def)
  note jc = journal_container[OF ok body]
  define cid where "cid = (case c of Some c \<Rightarrow> c | None \<Rightarrow> mint w j 2)"
  define i where "i = mint w j 0"
  define e0 where "e0 = call_element i cid name input"
  define inp where "inp = (new_element (mint w j 1) ''input'')\<lparr>el_payload := Some input\<rparr>"
  obtain j1 r1 where h1: "host_append w owner j (ss_offset (jn_snapshot j)) (''invoke tool '' @ name)
      [Create ''body'' (wrap_u32 (length ?old)) e0, Create i 0 inp] = (j1, r1)" by force
  obtain j2 x2 where run: "run j1 name input cid = (j2, x2)" by force
  obtain j3 r3 where h3: "host_append w owner j2 (ss_offset (jn_snapshot j2)) (''settle tool '' @ name)
      (settle_call_ops (mint w j2) i (recorded x2)) = (j3, r3)" by force
  have eq: "(j', r) = (case r1 of Inl e \<Rightarrow> (j1, Inl e) | Inr _ \<Rightarrow> (case r3 of Inl e \<Rightarrow> (j3, Inl e) | Inr _ \<Rightarrow> (j3, Inr cid)))"
    using x h1 run h3 jc(2,3) unfolding execute_tool_inner_def get_visible_body_def Let_def
    by (cases r1; cases r3) (simp_all add: i_def[symmetric] cid_def[symmetric] e0_def[symmetric] inp_def[symmetric] recorded_def del: One_nat_def)
  have e0: "el_id e0 = i" "call_of e0 name input cid ''running''"
    by (simp_all add: e0_def call_of_def attr_def call_element_def new_element_def)
  show ?thesis
  proof (cases "\<exists>e. r1 = Inl e \<or> r3 = Inl e")
    case True
    then obtain e where "r = Inl e" "r1 = Inl e \<or> r3 = Inl e" using eq by (cases r1; cases r3) auto
    with host_append_error[of w owner j] host_append_error[of w owner j2] h1 h3 show ?thesis by simp blast
  next
    case False
    have ok1: "r1 = Inr ()" using False by (cases r1) auto
    have ok3: "r3 = Inr ()" using False by (cases r3) auto
    note o = host_append_ok[OF ok h1[unfolded ok1]]
    obtain t where t: "apply_ops (jn_snapshot j) [Create ''body'' (wrap_u32 (length ?old)) e0, Create i 0 inp] [] = (t, Inr ())"
      "ss_nodes (jn_snapshot j1) = ss_nodes t" using o(3) by blast
    have b1: "in_body (jn_snapshot j1) ?old e0 [] [inp]"
      by (rule in_body_nodes[OF t(2) journal_wf[OF o(1)] invoke_in_body[OF jc(1) l e0(1) t(1)]])
    from k o(1) run this obtain fs ds where b: "journal_ok (hw_codec w) j2" "in_body (jn_snapshot j2) ?old e0 fs (inp # ds)"
      unfolding keeps_calls_def by fastforce
    have jr: "j' = j3" "r = Inr cid" using eq ok1 ok3 by simp_all
    have inp: "el_kind inp = ''input''" "el_payload inp = Some input" by (simp_all add: inp_def new_element_def)
    have x2: "snd (run j1 name input cid) = x2" by (simp add: run)
    have given: "\<forall>given. c = Some given \<longrightarrow> cid = given" by (simp add: cid_def)
    obtain e' where e': "journal_ok (hw_codec w) j3"
      "in_body (jn_snapshot j3) ?old e' fs (inp # result_elements (mint w j2) (recorded x2) @ ds)"
      "call_of e' name input cid (if result_failed (recorded x2) then ''failed'' else ''succeeded'')"
      using settle_journal[OF b e0 h3[unfolded ok3]] by blast
    show ?thesis unfolding jr sum.case Let_def
      by (intro conjI exI[of _ j1] exI[of _ e0] exI[of _ "mint w j2"] exI[of _ e'] exI[of _ inp] exI[of _ fs] exI[of _ ds])
        (use e' inp given o(1) b1 e0(2) in \<open>simp_all only: x2\<close>)
  qed
qed

end
