(* ===== verification/Restart.thy ===== *)
theory Restart
  imports HostTurnProps
begin

text \<open>
  What a worker does to the journal when it opens it again (\<open>worker.rs\<close> of crate \<open>omp-cli\<close>): the
  process that owned the running jobs, tool calls and streams is gone, so whatever is still
  marked as running is cancelled in one patch before the session goes on.  The world of the host
  is the record \<open>host_world\<close>; the subprocess protocol around it is not modelled.
\<close>

section \<open>The patch\<close>

definition cancel_op :: "element_id \<Rightarrow> patch_op" where
  "cancel_op i = SetAttribute i ''status'' (TString ''cancelled'')"

definition unfinished :: "element_snapshot \<Rightarrow> bool" where
  "unfinished e \<longleftrightarrow>
     (case fmlookup (attributes e) ''status'' of
        Some (TString v) \<Rightarrow> v \<in> {''queued'', ''running'', ''cancel_requested''} | _ \<Rightarrow> False)"

definition is_assistant :: "element_snapshot \<Rightarrow> bool" where
  "is_assistant e \<longleftrightarrow> el_kind e = ''assistant''
     \<or> el_kind e = ''message'' \<and> fmlookup (attributes e) ''role'' = Some (TString ''assistant'')"

definition restart_diag :: "element_id \<Rightarrow> string \<Rightarrow> element_snapshot" where
  "restart_diag i text =
     (new_element i ''diag'')\<lparr>el_text := text, attributes := fmupd ''code'' (TString ''worker_restart_cancelled'') fmempty\<rparr>"

text \<open>The operations for one element of the body, drawing identifiers from \<open>n\<close> on, and how many.\<close>

definition orphan_ops :: "(nat \<Rightarrow> string) \<Rightarrow> session_snapshot \<Rightarrow> nat \<Rightarrow> element_snapshot \<Rightarrow> patch_op list \<times> nat" where
  "orphan_ops ids s n e =
     (let i = el_id e; at = count_u32 s i in
      if el_kind e = ''tool_call''
      then (let has_result = list_ex (\<lambda>c. el_kind c = ''result'') (children s i) in
            if unfinished e \<or> \<not> has_result
            then (if has_result
                  then ([cancel_op i, Create i at (restart_diag (ids n) ''Tool execution cancelled by process restart'')], n + 1)
                  else ([cancel_op i,
                         Create i at ((new_element (ids n) ''result'')\<lparr>el_text := ''Tool call cancelled due to process termination''\<rparr>),
                         Create i at (restart_diag (ids (n + 1)) ''Tool execution cancelled by process restart'')], n + 2))
            else ([], n))
      else if is_assistant e \<and> (unfinished e \<or> fmlookup (attributes e) ''streaming'' = Some (TBool True))
      then ([cancel_op i, SetAttribute i ''streaming'' (TBool False),
             Create i at (restart_diag (ids n) ''Assistant inference interrupted by process restart'')], n + 1)
      else ([], n))"

fun body_ops :: "(nat \<Rightarrow> string) \<Rightarrow> session_snapshot \<Rightarrow> nat \<Rightarrow> element_snapshot list \<Rightarrow> patch_op list" where
  "body_ops ids s n [] = []"
| "body_ops ids s n (e # es) = (case orphan_ops ids s n e of (xs, m) \<Rightarrow> xs @ body_ops ids s m es)"

definition restart_ops :: "(nat \<Rightarrow> string) \<Rightarrow> session_snapshot \<Rightarrow> patch_op list option" where
  "restart_ops ids s =
     Option.bind (active_jobs s) (\<lambda>jobs.
     Option.bind (container s ''actors'') (\<lambda>actors.
     map_option (\<lambda>body.
         map (cancel_op \<circ> el_id) jobs
         @ map (cancel_op \<circ> el_id) (filter (\<lambda>e. el_kind e = ''subagent'' \<and> \<not> element_terminal e) (children s actors))
         @ body_ops ids s 0 body)
       (get_visible_body s)))"

definition reconcile_orphans :: "host_world \<Rightarrow> actor_id \<Rightarrow> journal \<Rightarrow> (journal \<times> (state_error, unit) result) option" where
  "reconcile_orphans w owner j =
     map_option (\<lambda>xs.
         if xs = [] then (j, Inr ())
         else
           let n = offset_nat (next_offset j) in
           case append_patch (hw_codec w) (hw_now w n) (hw_fault w n) j
                  \<lparr>base_offset = JournalOffset (ss_offset (jn_snapshot j)), result_offset = next_offset j, patch_by = Actor owner,
                   reason = ''reconcile orphan jobs, tool calls, and assistant turns after restart'', ops = xs\<rparr> of
             (j', Inl e) \<Rightarrow> (j', Inl e)
           | (j', Inr _) \<Rightarrow> (j', Inr ()))
       (restart_ops (mint w j) (jn_snapshot j))"

text \<open>An error of a command is recorded when the journal takes it; when not, it is dropped.\<close>

definition append_diagnostic_if_possible :: "host_world \<Rightarrow> actor_id \<Rightarrow> journal \<Rightarrow> structured_error \<Rightarrow> journal option" where
  "append_diagnostic_if_possible w owner j e =
     (let s = jn_snapshot j in
      map_option (\<lambda>body. fst (host_append w owner j (ss_offset s) ''command error diagnostic''
          [Create body (count_u32 s body)
             ((new_element (mint w j 0) ''diag'')\<lparr>el_text := err_message e,
                attributes := fmupd ''retryable'' (TBool (err_retryable e)) (fmupd ''code'' (TString (err_code e)) fmempty),
                el_payload := err_diagnostics e\<rparr>)]))
        (container s ''body''))"

section \<open>Documents as lists of children\<close>

text \<open>
  The abstract document: a function from an element to its children.  An attribute changes the
  element wherever it is listed, a creation inserts one child.
\<close>

fun kids_op :: "patch_op \<Rightarrow> (element_id \<Rightarrow> element_snapshot list) \<Rightarrow> element_id \<Rightarrow> element_snapshot list" where
  "kids_op (SetAttribute i n v) K = (\<lambda>k. map (\<lambda>e. if el_id e = i then own_edit (SetAttribute i n v) e else e) (K k))"
| "kids_op (Create p n e) K = K(p := vec_insert n e (K p))"
| "kids_op _ K = K"

fun simple_op :: "patch_op \<Rightarrow> bool" where
  "simple_op (SetAttribute i n v) = True"
| "simple_op (Create p n e) = True"
| "simple_op _ = False"

lemma absent_children: "fmlookup (ss_nodes s) k = None \<Longrightarrow> children s k = []"
  by (simp add: children_def)

lemma create_kids:
  assumes wf: "wf_snapshot s" and a: "apply_create s p n e = (s', Inr u)"
  shows "children s' = (children s)(p := vec_insert n e (children s p))"
proof
  fix k
  note c = apply_create_InrD[OF a]
  have fresh: "fmlookup (ss_nodes s) (el_id e) = None"
    using wf_snapshotD(5)[OF wf, of "el_id e"] c(1) by (cases "fmlookup (ss_nodes s) (el_id e)") auto
  obtain pn where pn: "fmlookup (ss_nodes s) p = Some pn" using c(3) by blast
  consider "k = p" | "k \<noteq> p" "fmlookup (ss_nodes s) k \<noteq> None" | "k = el_id e" | "k \<noteq> p" "k \<noteq> el_id e" "fmlookup (ss_nodes s) k = None"
    by blast
  then show "children s' k = ((children s)(p := vec_insert n e (children s p))) k"
  proof cases
    case 1
    with children_create[OF wf a] show ?thesis by simp
  next
    case 2
    with create_beside[OF wf a] show ?thesis by simp
  next
    case 3
    then have "k \<noteq> p" using fresh pn by auto
    moreover have "children s' k = []" using 3 c(4) by (simp add: children_def List.map_filter_simps)
    ultimately show ?thesis using 3 absent_children[OF fresh] by simp
  next
    case 4
    then have "fmlookup (ss_nodes s') k = None" using c(4) by (simp add: fmlookup_modify_node)
    with 4 show ?thesis by (simp add: absent_children)
  qed
qed

lemma apply_kids:
  "apply_ops s xs us = (s', Inr ()) \<Longrightarrow> list_all simple_op xs \<Longrightarrow> wf_snapshot s
     \<Longrightarrow> wf_snapshot s' \<and> children s' = fold kids_op xs (children s)"
proof (induction xs arbitrary: s us)
  case (Cons x xs)
  from Cons.prems(1) obtain t u where t: "apply_one s x = (t, Inr u)" "apply_ops t xs (u # us) = (s', Inr ())"
    by (auto split: prod.splits sum.splits)
  have "children t = kids_op x (children s)"
  proof (cases x)
    case (Create p n e)
    with t(1) create_kids[OF Cons.prems(3)] show ?thesis by simp
  next
    case (SetAttribute i n v)
    with t(1) have "edit_element s i (\<lambda>e. e\<lparr>attributes := fmupd n v (attributes e)\<rparr>)
        (\<lambda>e. UndoAttribute i n (fmlookup (attributes e) n)) = (t, Inr u)" by simp
    from children_edit[OF Cons.prems(3) this] SetAttribute show ?thesis by (simp add: fun_eq_iff)
  qed (use Cons.prems(2) in simp_all)
  with Cons.IH[OF t(2)] Cons.prems(2) apply_one_wf[OF Cons.prems(3) t(1)] show ?case by simp
qed simp

text \<open>Under a node that gets no child, every element has its own edits.\<close>

lemma kids_edited:
  "list_all simple_op xs \<Longrightarrow> (\<forall>n e. Create k n e \<notin> set xs) \<Longrightarrow>
     fold kids_op xs K k = map (\<lambda>e. fold own_edit (filter (edits (el_id e)) xs) e) (K k)"
proof (induction xs arbitrary: K)
  case (Cons x xs)
  show ?case
  proof (cases x)
    case (Create p n e)
    with Cons.prems(2) have "p \<noteq> k" by auto
    with Cons Create show ?thesis by simp
  next
    case (SetAttribute i n v)
    have "fold kids_op (x # xs) K k = map (\<lambda>e. fold own_edit (filter (edits (el_id e)) xs) e) (kids_op x K k)"
      using Cons by simp
    also have "\<dots> = map (\<lambda>e. fold own_edit (filter (edits (el_id e)) (x # xs)) e) (K k)"
      unfolding SetAttribute by (auto simp: own_edit_id)
    finally show ?thesis .
  qed (use Cons.prems(1) in simp_all)
qed simp

text \<open>A kind of child, once there, stays there; a created child is there.\<close>

lemma kids_kind: "\<exists>x\<in>set (K k). el_kind x = q \<Longrightarrow> \<exists>y\<in>set (fold kids_op xs K k). el_kind y = q"
proof (induction xs arbitrary: K)
  case (Cons a xs)
  have "\<exists>y\<in>set (kids_op a K k). el_kind y = q"
  proof (cases a)
    case (Create p n e)
    with Cons.prems show ?thesis by (auto simp: vec_simps)
  next
    case (SetAttribute i n v)
    from Cons.prems obtain x where x: "x \<in> set (K k)" "el_kind x = q" by blast
    define y where "y = (if el_id x = i then own_edit (SetAttribute i n v) x else x)"
    have "y \<in> set (kids_op a K k)" using x(1) by (simp add: SetAttribute y_def)
    moreover have "el_kind y = q" using x(2) by (simp add: y_def)
    ultimately show ?thesis by blast
  qed (use Cons.prems in simp_all)
  from Cons.IH[of "kids_op a K", OF this] show ?case by simp
qed simp

lemma kids_created: "Create k n e \<in> set xs \<Longrightarrow> \<exists>y\<in>set (fold kids_op xs K k). el_kind y = el_kind e"
proof (induction xs arbitrary: K)
  case (Cons a xs)
  show ?case
  proof (cases "Create k n e = a")
    case True
    then have "\<exists>y\<in>set (kids_op a K k). el_kind y = el_kind e" by (auto simp: vec_simps)
    from kids_kind[of "kids_op a K", OF this] show ?thesis by simp
  next
    case False
    with Cons show ?thesis by simp
  qed
qed simp


section \<open>The operations of the patch\<close>

text \<open>An element that was left running, or a call without a result.\<close>

definition orphaned :: "session_snapshot \<Rightarrow> element_snapshot \<Rightarrow> bool" where
  "orphaned s e \<longleftrightarrow>
     (if el_kind e = ''tool_call'' then unfinished e \<or> \<not> list_ex (\<lambda>c. el_kind c = ''result'') (children s (el_id e))
      else is_assistant e \<and> (unfinished e \<or> attr e ''streaming'' = Some (TBool True)))"

definition mild :: "patch_op \<Rightarrow> bool" where
  "mild x \<longleftrightarrow> (\<exists>i. x = cancel_op i \<or> x = SetAttribute i ''streaming'' (TBool False)) \<or> (\<exists>k n e. x = Create k n e)"

fun target :: "patch_op \<Rightarrow> element_id option" where
  "target (SetAttribute i n v) = Some i"
| "target (Create p n e) = Some p"
| "target _ = None"

lemma mild_simple: "mild x \<Longrightarrow> simple_op x"
  by (auto simp: mild_def cancel_op_def)

lemma orphan_ops_mem:
  "x \<in> set (fst (orphan_ops ids s n e)) \<Longrightarrow> mild x \<and> target x = Some (el_id e) \<and> orphaned s e"
  by (auto simp: orphan_ops_def orphaned_def attr_def mild_def cancel_op_def Let_def split: if_splits)

lemma orphan_ops_cover:
  assumes "orphaned s e"
  shows "cancel_op (el_id e) \<in> set (fst (orphan_ops ids s n e))"
    "el_kind e \<noteq> ''tool_call'' \<Longrightarrow> SetAttribute (el_id e) ''streaming'' (TBool False) \<in> set (fst (orphan_ops ids s n e))"
    "el_kind e = ''tool_call'' \<Longrightarrow> \<not> list_ex (\<lambda>c. el_kind c = ''result'') (children s (el_id e))
       \<Longrightarrow> \<exists>m r. Create (el_id e) m r \<in> set (fst (orphan_ops ids s n e)) \<and> el_kind r = ''result''"
proof -
  let ?s1 = "cancel_op (el_id e) \<in> set (fst (orphan_ops ids s n e))"
  let ?s2 = "SetAttribute (el_id e) ''streaming'' (TBool False) \<in> set (fst (orphan_ops ids s n e))"
  have "?s1 \<and> (el_kind e \<noteq> ''tool_call'' \<longrightarrow> ?s2)"
    using assms by (cases "el_kind e = ''tool_call''") (auto simp: orphan_ops_def orphaned_def attr_def Let_def)
  then show ?s1 "el_kind e \<noteq> ''tool_call'' \<Longrightarrow> ?s2" by blast+
  assume "el_kind e = ''tool_call''" "\<not> list_ex (\<lambda>c. el_kind c = ''result'') (children s (el_id e))"
  then have "Create (el_id e) (count_u32 s (el_id e)) ((new_element (ids n) ''result'')\<lparr>el_text := ''Tool call cancelled due to process termination''\<rparr>)
      \<in> set (fst (orphan_ops ids s n e))"
    by (simp add: orphan_ops_def Let_def)
  moreover have "el_kind ((new_element (ids n) ''result'')\<lparr>el_text := ''Tool call cancelled due to process termination''\<rparr>) = ''result''"
    by (simp add: new_element_def)
  ultimately show "\<exists>m r. Create (el_id e) m r \<in> set (fst (orphan_ops ids s n e)) \<and> el_kind r = ''result''" by blast
qed

lemma body_ops_mem: "x \<in> set (body_ops ids s n es) \<Longrightarrow> \<exists>e\<in>set es. mild x \<and> target x = Some (el_id e) \<and> orphaned s e"
proof (induction es arbitrary: n)
  case (Cons e es)
  obtain xs m where o: "orphan_ops ids s n e = (xs, m)" by force
  with Cons.prems consider "x \<in> set xs" | "x \<in> set (body_ops ids s m es)" by auto
  then show ?case
  proof cases
    case 1
    with orphan_ops_mem[of x ids s n e] o show ?thesis by auto
  next
    case 2
    from Cons.IH[OF this] show ?thesis by auto
  qed
qed simp

lemma body_ops_cover: "e \<in> set es \<Longrightarrow> \<exists>m. set (fst (orphan_ops ids s m e)) \<subseteq> set (body_ops ids s n es)"
proof (induction es arbitrary: n)
  case (Cons d es)
  obtain xs m where o: "orphan_ops ids s n d = (xs, m)" by force
  show ?case
  proof (cases "e = d")
    case True
    with o show ?thesis by (intro exI[of _ n]) auto
  next
    case False
    with Cons.prems obtain m' where "set (fst (orphan_ops ids s m' e)) \<subseteq> set (body_ops ids s m es)" using Cons.IH[of m] by auto
    with o show ?thesis by (intro exI[of _ m']) auto
  qed
qed simp

text \<open>What mild edits leave of an element.\<close>

lemma mild_edits:
  "list_all (\<lambda>x. mild x \<and> edits i x) xs \<Longrightarrow>
     (let e' = fold own_edit xs e in
      el_id e' = el_id e \<and> el_kind e' = el_kind e \<and> el_text e' = el_text e \<and> el_payload e' = el_payload e
      \<and> attr e' ''status'' = (if cancel_op i \<in> set xs then Some (TString ''cancelled'') else attr e ''status'')
      \<and> attr e' ''streaming'' = (if SetAttribute i ''streaming'' (TBool False) \<in> set xs then Some (TBool False) else attr e ''streaming'')
      \<and> (\<forall>n. n \<notin> {''status'', ''streaming''} \<longrightarrow> attr e' n = attr e n))"
proof (induction xs arbitrary: e)
  case (Cons x xs)
  from Cons.prems consider "x = cancel_op i" | "x = SetAttribute i ''streaming'' (TBool False)"
    by (auto simp: mild_def cancel_op_def)
  then show ?case
  proof cases
    case 1
    with Cons.IH[of "own_edit x e"] Cons.prems show ?thesis by (auto simp: Let_def cancel_op_def attr_def)
  next
    case 2
    with Cons.IH[of "own_edit x e"] Cons.prems show ?thesis by (auto simp: Let_def cancel_op_def attr_def)
  qed
qed simp


section \<open>The document afterwards\<close>

lemma child_parent:
  assumes wf: "wf_snapshot s" and e: "e \<in> set (children s k)"
  shows "Option.bind (snap_node s (el_id e)) nd_parent = Some k"
proof -
  obtain n where n: "fmlookup (ss_nodes s) k = Some n"
    using e absent_children[of s k] by (cases "fmlookup (ss_nodes s) k") auto
  then have "el_id e \<in> set (nd_children n)" using children_ids[OF wf, of k n] e by (metis image_eqI list.set_map snap_node_def)
  from linkedD(2)[OF wf_snapshotD(1)[OF wf] n this] show ?thesis by (auto simp: snap_node_def)
qed

lemma body_not_root:
  assumes wf: "wf_snapshot s" and e: "e \<in> set (children s ''body'')"
  shows "el_id e \<notin> set ROOTS"
proof
  assume r: "el_id e \<in> set ROOTS"
  obtain n where "fmlookup (ss_nodes s) (el_id e) = Some n" "nd_parent n = root_parent (el_id e)"
    using rooted_node[OF wf r] by blast
  with child_parent[OF wf e] have "root_parent (el_id e) = Some ''body''" by (simp add: snap_node_def)
  moreover have "root_parent q \<noteq> Some ''body''" for q by (simp add: root_parent_def)
  ultimately show False by blast
qed

lemma restart_ops_shape:
  assumes wf: "wf_snapshot s" and x: "restart_ops ids s = Some xs"
  shows "xs = map (cancel_op \<circ> el_id) (filter (\<lambda>e. \<not> element_terminal e) (children s ''jobs''))
     @ map (cancel_op \<circ> el_id) (filter (\<lambda>e. el_kind e = ''subagent'' \<and> \<not> element_terminal e) (children s ''actors''))
     @ body_ops ids s 0 (children s ''body'')"
  using x wf_container[OF wf, of "''jobs''"] wf_container[OF wf, of "''actors''"] wf_container[OF wf, of "''body''"]
  by (simp add: restart_ops_def active_jobs_def get_visible_body_def ROOTS_def)

text \<open>Under each of the three containers: the operations that reach an element there are its own.\<close>

lemma restart_targets:
  assumes wf: "wf_snapshot s" and x: "restart_ops ids s = Some xs" and e: "e \<in> set (children s k)"
  shows "x \<in> set xs \<Longrightarrow> mild x"
    "k = ''body'' \<Longrightarrow> x \<in> set xs \<Longrightarrow> target x = Some (el_id e) \<Longrightarrow> x \<in> set (body_ops ids s 0 (children s ''body'')) \<and> orphaned s e"
proof -
  note sh = restart_ops_shape[OF wf x]
  have same: "k1 = k2" if "e1 \<in> set (children s k1)" "e2 \<in> set (children s k2)" "el_id e1 = el_id e2" for e1 e2 k1 k2
    using child_parent[OF wf that(1)] child_parent[OF wf that(2)] that(3) by simp
  show "x \<in> set xs \<Longrightarrow> mild x"
    unfolding sh using body_ops_mem[of x ids s 0 "children s ''body''"] by (auto simp: mild_def)
  show "k = ''body'' \<Longrightarrow> x \<in> set xs \<Longrightarrow> target x = Some (el_id e) \<Longrightarrow> x \<in> set (body_ops ids s 0 (children s ''body'')) \<and> orphaned s e"
  proof -
    assume k: "k = ''body''" and xs: "x \<in> set xs" and t: "target x = Some (el_id e)"
    have "x \<notin> set (map (cancel_op \<circ> el_id) (filter P (children s c)))" if "c \<noteq> ''body''" for P c
    proof
      assume "x \<in> set (map (cancel_op \<circ> el_id) (filter P (children s c)))"
      then obtain e2 where "e2 \<in> set (children s c)" "x = cancel_op (el_id e2)" by auto
      with same[OF e this(1)] t k that show False by (simp add: cancel_op_def)
    qed
    with xs have b: "x \<in> set (body_ops ids s 0 (children s ''body''))" unfolding sh by simp
    from body_ops_mem[OF b] t obtain e' where e': "e' \<in> set (children s ''body'')" "el_id e' = el_id e" "orphaned s e'" by auto
    obtain n where "fmlookup (ss_nodes s) ''body'' = Some n" using body_node[OF wf] by metis
    then have "container_is s ''body'' (children s ''body'')" using wf by (simp add: container_is_def)
    from container_is_ids[OF this] e' e k have "e' = e" by (metis option.inject)
    with b e'(3) show "x \<in> set (body_ops ids s 0 (children s ''body'')) \<and> orphaned s e" by simp
  qed
qed

lemma reconcile_cases:
  assumes ok: "journal_ok (hw_codec w) j" and r: "reconcile_orphans w owner j = Some (j', Inr ())"
  obtains xs t where "restart_ops (mint w j) (jn_snapshot j) = Some xs" "apply_ops (jn_snapshot j) xs [] = (t, Inr ())"
    "ss_nodes (jn_snapshot j') = ss_nodes t" "journal_ok (hw_codec w) j'"
proof -
  obtain xs where xs: "restart_ops (mint w j) (jn_snapshot j) = Some xs" using r by (auto simp: reconcile_orphans_def)
  show thesis
  proof (cases "xs = []")
    case True
    with r xs have "j' = j" by (simp add: reconcile_orphans_def)
    with True ok that[OF xs, of "jn_snapshot j"] show thesis by simp
  next
    case False
    with r xs have "host_append w owner j (ss_offset (jn_snapshot j))
        ''reconcile orphan jobs, tool calls, and assistant turns after restart'' xs = (j', Inr ())"
      by (auto simp: reconcile_orphans_def host_append_def Let_def split: prod.splits sum.splits)
    note o = host_append_ok[OF ok this]
    from o(3) that[OF xs] o(1) show thesis by blast
  qed
qed

lemma element_terminal_cancelled: "attr e ''status'' = Some (TString ''cancelled'') \<Longrightarrow> element_terminal e"
proof -
  assume "attr e ''status'' = Some (TString ''cancelled'')"
  moreover have "status_of_dom_str ''cancelled'' = Some Cancelled" by code_simp
  ultimately show ?thesis by (simp add: element_terminal_def attr_def)
qed

text \<open>The children of a container after the patch, element by element.\<close>

definition reconciled :: "patch_op list \<Rightarrow> element_snapshot \<Rightarrow> element_snapshot" where
  "reconciled xs e = fold own_edit (filter (edits (el_id e)) xs) e"

lemma reconciled_fields:
  assumes "list_all mild xs"
  shows "el_id (reconciled xs e) = el_id e" "el_kind (reconciled xs e) = el_kind e" "el_text (reconciled xs e) = el_text e"
    "el_payload (reconciled xs e) = el_payload e" "n \<notin> {''status'', ''streaming''} \<Longrightarrow> attr (reconciled xs e) n = attr e n"
    "attr (reconciled xs e) ''status'' = (if cancel_op (el_id e) \<in> set xs then Some (TString ''cancelled'') else attr e ''status'')"
    "attr (reconciled xs e) ''streaming'' =
       (if SetAttribute (el_id e) ''streaming'' (TBool False) \<in> set xs then Some (TBool False) else attr e ''streaming'')"
proof -
  have "list_all (\<lambda>x. mild x \<and> edits (el_id e) x) (filter (edits (el_id e)) xs)"
    using assms by (auto simp: list_all_iff)
  note m = mild_edits[OF this, of e, unfolded Let_def, folded reconciled_def]
  then show "el_id (reconciled xs e) = el_id e" "el_kind (reconciled xs e) = el_kind e" "el_text (reconciled xs e) = el_text e"
    "el_payload (reconciled xs e) = el_payload e" "n \<notin> {''status'', ''streaming''} \<Longrightarrow> attr (reconciled xs e) n = attr e n"
    "attr (reconciled xs e) ''status'' = (if cancel_op (el_id e) \<in> set xs then Some (TString ''cancelled'') else attr e ''status'')"
    "attr (reconciled xs e) ''streaming'' =
       (if SetAttribute (el_id e) ''streaming'' (TBool False) \<in> set xs then Some (TBool False) else attr e ''streaming'')"
    by (auto simp: cancel_op_def)
qed

lemma reconciled_cancelled:
  assumes "list_all mild xs" "cancel_op (el_id e) \<in> set xs"
  shows "element_terminal (reconciled xs e)" "\<not> unfinished (reconciled xs e)"
proof -
  have "attr (reconciled xs e) ''status'' = Some (TString ''cancelled'')" using reconciled_fields(6)[OF assms(1)] assms(2) by simp
  then show "element_terminal (reconciled xs e)" "\<not> unfinished (reconciled xs e)"
    by (auto simp: element_terminal_cancelled unfinished_def attr_def)
qed

lemma kept_unfinished: "attr e' ''status'' = attr e ''status'' \<Longrightarrow> unfinished e' = unfinished e"
  by (simp add: unfinished_def attr_def)

lemma kept_assistant: "el_kind e' = el_kind e \<Longrightarrow> attr e' ''role'' = attr e ''role'' \<Longrightarrow> is_assistant e' = is_assistant e"
  by (simp add: is_assistant_def attr_def)

lemma restart_mild:
  assumes wf: "wf_snapshot s" and x: "restart_ops ids s = Some xs"
  shows "list_all mild xs"
  unfolding restart_ops_shape[OF wf x] list_all_iff using body_ops_mem[of _ ids s 0 "children s ''body''"] by (auto simp: mild_def)

lemma restart_creates:
  assumes wf: "wf_snapshot s" and x: "restart_ops ids s = Some xs" and k: "k \<in> set ROOTS"
  shows "Create k n e \<notin> set xs"
proof
  assume "Create k n e \<in> set xs"
  then have "Create k n e \<in> set (body_ops ids s 0 (children s ''body''))"
    unfolding restart_ops_shape[OF wf x] by (auto simp: cancel_op_def)
  from body_ops_mem[OF this] body_not_root[OF wf] k show False by auto
qed

lemma restart_container:
  assumes wf: "wf_snapshot s" and x: "restart_ops ids s = Some xs" and k: "k \<in> set ROOTS"
  shows "fold kids_op xs (children s) k = map (reconciled xs) (children s k)"
proof -
  have "list_all simple_op xs" using restart_mild[OF wf x] by (auto simp: list_all_iff mild_simple)
  from kids_edited[OF this, of k "children s"] restart_creates[OF wf x k] show ?thesis by (simp add: reconciled_def)
qed

lemma restart_keeps:
  assumes wf: "wf_snapshot s" and x: "restart_ops ids s = Some xs" and e: "e \<in> set (children s ''body'')" and o: "\<not> orphaned s e"
  shows "reconciled xs e = e"
proof -
  have "\<not> edits (el_id e) y" if "y \<in> set xs" for y
    using restart_targets(2)[OF wf x e refl that] o restart_targets(1)[OF wf x e that] by (auto simp: mild_def cancel_op_def)
  then have "filter (edits (el_id e)) xs = []" by (simp add: filter_empty_conv)
  then show ?thesis by (simp add: reconciled_def)
qed

lemma terminal_kept: "list_all mild xs \<Longrightarrow> element_terminal e \<Longrightarrow> element_terminal (reconciled xs e)"
  using reconciled_cancelled(1)[of xs e] reconciled_fields(6)[of xs e]
  by (cases "cancel_op (el_id e) \<in> set xs") (simp_all add: element_terminal_def attr_def)

lemma restart_no_orphan:
  assumes wf: "wf_snapshot s" and x: "restart_ops ids s = Some xs" and kids: "children s' = fold kids_op xs (children s)"
    and e: "e \<in> set (children s ''body'')"
  shows "\<not> orphaned s' (reconciled xs e)"
proof -
  note mild = restart_mild[OF wf x]
  note f = reconciled_fields[OF mild, where e = e]
  obtain m where cov: "set (fst (orphan_ops ids s m e)) \<subseteq> set xs"
    using body_ops_cover[OF e, of ids s 0] unfolding restart_ops_shape[OF wf x] by auto
  note oc = orphan_ops_cover[of s e ids m]
  have live: "\<not> unfinished (reconciled xs e)" if "orphaned s e \<or> \<not> unfinished e"
    using that oc(1) cov reconciled_cancelled(2)[OF mild, of e] f(6) kept_unfinished[of "reconciled xs e" e]
    by (cases "cancel_op (el_id e) \<in> set xs") auto
  consider (call) "el_kind e = ''tool_call''" | (turn) "el_kind e \<noteq> ''tool_call''" "is_assistant e"
    | (other) "el_kind e \<noteq> ''tool_call''" "\<not> is_assistant e" by blast
  then show ?thesis
  proof cases
    case call
    have "\<exists>y\<in>set (children s' (el_id e)). el_kind y = ''result''"
    proof (cases "list_ex (\<lambda>c. el_kind c = ''result'') (children s (el_id e))")
      case True
      then show ?thesis unfolding kids by (intro kids_kind) (auto simp: list_ex_iff)
    next
      case False
      with call have "orphaned s e" by (simp add: orphaned_def)
      from oc(3)[OF this call False] cov obtain n q where "Create (el_id e) n q \<in> set xs" "el_kind q = ''result''" by blast
      with kids_created[OF this(1), of "children s"] show ?thesis unfolding kids by simp
    qed
    moreover have "orphaned s e \<or> \<not> unfinished e" using call by (auto simp: orphaned_def)
    ultimately show ?thesis using call live f(1,2) by (auto simp: orphaned_def list_ex_iff)
  next
    case turn
    then have "orphaned s e \<or> \<not> unfinished e" by (auto simp: orphaned_def)
    moreover have "attr (reconciled xs e) ''streaming'' \<noteq> Some (TBool True)"
      using oc(2) cov f(7) turn by (cases "orphaned s e") (auto simp: orphaned_def)
    ultimately show ?thesis using turn live f(2) by (simp add: orphaned_def)
  next
    case other
    then have "\<not> is_assistant (reconciled xs e)" using kept_assistant[of "reconciled xs e" e] f(2) f(5)[of "''role''"] by simp
    then show ?thesis using other f(2) by (simp add: orphaned_def)
  qed
qed

text \<open>Without an orphan, a running job or a running subagent there is nothing to write.\<close>

lemma nothing_to_restart:
  assumes wf: "wf_snapshot s" and b: "list_all (\<lambda>e. \<not> orphaned s e) (children s ''body'')" and j: "active_jobs s = Some []"
    and a: "list_all (\<lambda>e. el_kind e \<noteq> ''subagent'' \<or> element_terminal e) (children s ''actors'')"
  shows "restart_ops ids s = Some []"
proof -
  have "x \<notin> set (body_ops ids s 0 (children s ''body''))" for x
    using body_ops_mem[of x ids s 0 "children s ''body''"] b unfolding list_all_iff by blast
  then have "body_ops ids s 0 (children s ''body'') = []" by (metis last_in_set)
  then show ?thesis
    using j a wf_container[OF wf, of "''actors''"] wf_container[OF wf, of "''body''"]
    by (simp add: restart_ops_def get_visible_body_def ROOTS_def filter_empty_conv list_all_iff)
qed

text \<open>
  A restart leaves nothing that claims to run.  After the reconciliation no element of the body
  is an orphan: no tool call is unfinished or without a result, and no assistant turn unfinished
  or streaming; no job is active and every subagent has ended.  The elements of the body are
  those that were there, in their order, with their text and payload; one that was no orphan is
  exactly as it was, and a second reconciliation writes nothing.
\<close>

theorem restart_settles:
  assumes ok: "journal_ok (hw_codec w) j" and r: "reconcile_orphans w owner j = Some (j', Inr ())"
  shows "journal_ok (hw_codec w) j'
    \<and> list_all (\<lambda>e. \<not> orphaned (jn_snapshot j') e) (children (jn_snapshot j') ''body'')
    \<and> active_jobs (jn_snapshot j') = Some []
    \<and> list_all (\<lambda>e. el_kind e \<noteq> ''subagent'' \<or> element_terminal e) (children (jn_snapshot j') ''actors'')
    \<and> list_all2 (\<lambda>e e'. el_id e' = el_id e \<and> el_kind e' = el_kind e \<and> el_text e' = el_text e \<and> el_payload e' = el_payload e
        \<and> (orphaned (jn_snapshot j) e \<or> e' = e)) (children (jn_snapshot j) ''body'') (children (jn_snapshot j') ''body'')
    \<and> reconcile_orphans w2 owner2 j' = Some (j', Inr ())"
proof (intro conjI)
  let ?s = "jn_snapshot j" and ?s' = "jn_snapshot j'"
  obtain xs t where xs: "restart_ops (mint w j) ?s = Some xs" and t: "apply_ops ?s xs [] = (t, Inr ())" "ss_nodes ?s' = ss_nodes t"
    and ok': "journal_ok (hw_codec w) j'" using reconcile_cases[OF ok r] by metis
  note wf = journal_wf[OF ok] and wf' = journal_wf[OF ok']
  note sh = restart_ops_shape[OF wf xs] and mild = restart_mild[OF wf xs]
  have kids: "children ?s' = fold kids_op xs (children ?s)"
    using apply_kids[OF t(1) _ wf] mild children_nodes[OF t(2)] by (auto simp: fun_eq_iff list_all_iff mild_simple)
  have cont: "children ?s' k = map (reconciled xs) (children ?s k)" if "k \<in> set ROOTS" for k
    using restart_container[OF wf xs that] by (simp add: kids)
  have roots: "''body'' \<in> set ROOTS" "''jobs'' \<in> set ROOTS" "''actors'' \<in> set ROOTS" by (simp_all add: ROOTS_def)
  have cancels: "cancel_op (el_id e) \<in> set xs"
    if "e \<in> set (children ?s ''jobs'') \<or> e \<in> set (children ?s ''actors'') \<and> el_kind e = ''subagent''" "\<not> element_terminal e" for e
    using that unfolding sh by auto
  have ended: "element_terminal (reconciled xs e)"
    if "e \<in> set (children ?s ''jobs'') \<or> e \<in> set (children ?s ''actors'') \<and> el_kind e = ''subagent''" for e
    using cancels[OF that] reconciled_cancelled(1)[OF mild] terminal_kept[OF mild] by blast
  show "journal_ok (hw_codec w) j'" by (rule ok')
  show body: "list_all (\<lambda>e. \<not> orphaned ?s' e) (children ?s' ''body'')"
    using cont[OF roots(1)] restart_no_orphan[OF wf xs kids] by (simp add: list_all_iff)
  show jobs: "active_jobs ?s' = Some []"
    using wf_container(3)[OF wf' roots(2)] cont[OF roots(2)] ended by (auto simp: active_jobs_def filter_empty_conv)
  show actors: "list_all (\<lambda>e. el_kind e \<noteq> ''subagent'' \<or> element_terminal e) (children ?s' ''actors'')"
    using cont[OF roots(3)] ended reconciled_fields(2)[OF mild] by (auto simp: list_all_iff)
  show "list_all2 (\<lambda>e e'. el_id e' = el_id e \<and> el_kind e' = el_kind e \<and> el_text e' = el_text e \<and> el_payload e' = el_payload e
        \<and> (orphaned ?s e \<or> e' = e)) (children ?s ''body'') (children ?s' ''body'')"
    unfolding cont[OF roots(1)] list_all2_map2
    using restart_keeps[OF wf xs] by (intro list.rel_refl_strong) (auto simp: reconciled_fields(1-4)[OF mild])
  show "reconcile_orphans w2 owner2 j' = Some (j', Inr ())"
    using nothing_to_restart[OF wf' body jobs actors] by (simp add: reconcile_orphans_def)
qed


section \<open>The request after a restart\<close>

text \<open>
  What a provider asks of a conversation: a result of a tool stands directly behind the message
  that calls the tool, and every call has its result.
\<close>

fun answered_calls :: "semantic_message list \<Rightarrow> bool" where
  "answered_calls [] = True"
| "answered_calls (m # ms) =
     (case msg_tool_calls m of
        [] \<Rightarrow> msg_role m \<noteq> RoleTool \<and> answered_calls ms
      | [tc] \<Rightarrow>
          (case ms of
             [] \<Rightarrow> False
           | r # rest \<Rightarrow> msg_role m = RoleAssistant \<and> msg_role r = RoleTool \<and> msg_tool_calls r = []
               \<and> msg_tool_call_id r = Some (tc_id tc) \<and> answered_calls rest)
      | _ \<Rightarrow> False)"

lemma answered_append: "answered_calls xs \<Longrightarrow> answered_calls ys \<Longrightarrow> answered_calls (xs @ ys)"
  by (induction xs rule: answered_calls.induct) (auto split: list.splits)

lemmas message_defs = user_message_def assistant_message_def system_message_def tool_result_message_def plain_message_def

lemma messages_answered:
  assumes "\<not> orphaned s e"
  shows "answered_calls (messages_of s co e)"
proof (cases "el_kind e = ''tool_call''")
  case True
  with assms have "list_ex (\<lambda>c. el_kind c = ''result'') (children s (el_id e))" by (simp add: orphaned_def)
  then have "child_of_kind s (el_id e) ''result'' \<noteq> None"
    by (auto simp: child_of_kind_def find_None_iff list_ex_iff)
  then obtain r where r: "child_of_kind s (el_id e) ''result'' = Some r" by blast
  show ?thesis
    using True r by (cases "usable_call_id e") (simp_all add: messages_of_def call_messages_def Let_def message_defs)
next
  case False
  then show ?thesis by (simp add: messages_of_def message_defs)
qed

text \<open>The composition: what a restarted session sends has no call without its result.\<close>

theorem restarted_request_answers:
  assumes ok: "journal_ok (hw_codec w) j" and r: "reconcile_orphans w owner j = Some (j', Inr ())"
    and q: "derive_inference_request tx tools levels st (jn_snapshot j') co = Some (Inr req)"
  shows "answered_calls (ir_messages req)"
proof -
  have ok': "journal_ok (hw_codec w) j'" and body: "list_all (\<lambda>e. \<not> orphaned (jn_snapshot j') e) (children (jn_snapshot j') ''body'')"
    using restart_settles[OF ok r] by blast+
  have "get_visible_body (jn_snapshot j') = Some (children (jn_snapshot j') ''body'')"
    using journal_container(3)[OF ok', of "''body''"] by (simp add: get_visible_body_def ROOTS_def)
  with q have "ir_messages req = concat (map (messages_of (jn_snapshot j') co) (children (jn_snapshot j') ''body''))"
    by (auto simp: derive_inference_request_def try_bind_Inr_iff)
  moreover have "answered_calls (concat (map (messages_of s co) es))" if "list_all (\<lambda>e. \<not> orphaned s e) es" for s es
    using that by (induction es) (simp_all add: messages_answered answered_append)
  ultimately show ?thesis using body by simp
qed

text \<open>
  Without it there can be one: a call that has no result is sent alone, as after a fork into the
  middle of a tool call, which reconciles nothing.
\<close>

lemma unanswered_call:
  assumes "el_kind e = ''tool_call''" "usable_call_id e = Some cid" "child_of_kind s (el_id e) ''result'' = None"
    "el_id e |\<notin>| co_covered co"
  shows "\<not> answered_calls (messages_of s co e)"
  using assms by (simp add: messages_of_def call_messages_def Let_def message_defs)

end
