(* ===== verification/SummaryGraph.thy ===== *)
theory SummaryGraph
  imports HostJournal
begin

text \<open>
  The graph of summary nodes: a node is read back from the element that stores it, a node that
  is a child has a parent later in the order, and every node is below a root, so the expansions
  of the roots contain every covered element.
\<close>

section \<open>Stored nodes\<close>

lemma entry_ids_strings: "list_all valid_id ids \<Longrightarrow> entry_ids what (map JString ids) = Inr ids"
  by (induction ids) (simp_all add: new_id_Inr_iff[THEN iffD2])

lemma summary_read:
  assumes "list_all valid_id (sm_covered n)" "list_all valid_id (sm_children n)"
  shows "\<exists>m. summary_of_element (summary_element n i kind txt) = Inr m
    \<and> sm_covered m = sm_covered n \<and> sm_children m = sm_children n"
  using assms
  by (simp add: summary_of_element_def summary_element_def SUMMARY_NODE_KIND_def new_element_def summary_encode_def
      summary_decode_def array_field_def entry_ids_strings)

section \<open>The expansion of a node\<close>

lemma set_add_new: "set (add_new acc xs) = set acc \<union> set xs"
  unfolding add_new_def by (induction xs arbitrary: acc) (auto split: if_splits)

definition below :: "(element_id, summary_node) fmap \<Rightarrow> element_id set \<Rightarrow> bool" where
  "below nodes V \<longleftrightarrow> (\<forall>v n. v \<in> V \<longrightarrow> fmlookup nodes v = Some n \<longrightarrow> set (sm_children n) \<subseteq> V)"

definition covers :: "(element_id, summary_node) fmap \<Rightarrow> element_id set \<Rightarrow> element_id set \<Rightarrow> bool" where
  "covers nodes V R \<longleftrightarrow> (\<forall>v n. v \<in> V \<longrightarrow> fmlookup nodes v = Some n \<longrightarrow> set (sm_covered n) \<subseteq> R)"

lemma expand_loop_closed:
  "(\<And>v n. v \<in> set visited \<Longrightarrow> fmlookup nodes v = Some n \<Longrightarrow>
       set (sm_children n) \<subseteq> set visited \<union> set queue \<and> set (sm_covered n) \<subseteq> set acc) \<Longrightarrow>
   \<exists>V. set visited \<union> set queue \<subseteq> V \<and> below nodes V \<and> set acc \<subseteq> set (expand_loop nodes visited acc queue)
     \<and> covers nodes V (set (expand_loop nodes visited acc queue))"
proof (induction nodes visited acc queue rule: expand_loop.induct)
  case (1 nodes visited acc)
  then show ?case by (intro exI[of _ "set visited"]) (auto simp: below_def covers_def)
next
  case (2 nodes visited acc i queue)
  show ?case
  proof (cases "i \<in> set visited")
    case True
    then have "set visited \<union> set (i # queue) = set visited \<union> set queue" by auto
    with 2(1)[OF True] 2(4) True show ?thesis by simp
  next
    case False
    show ?thesis
    proof (cases "fmlookup nodes i")
      case None
      have "\<exists>V. set (i # visited) \<union> set queue \<subseteq> V \<and> below nodes V \<and> set acc \<subseteq> set (expand_loop nodes (i # visited) acc queue)
          \<and> covers nodes V (set (expand_loop nodes (i # visited) acc queue))"
        by (rule 2(2)[OF False None]) (use 2(4) None in fastforce)
      with False None show ?thesis by simp
    next
      case (Some n)
      have "\<exists>V. set (i # visited) \<union> set (queue @ sm_children n) \<subseteq> V \<and> below nodes V
          \<and> set (add_new acc (sm_covered n))
              \<subseteq> set (expand_loop nodes (i # visited) (add_new acc (sm_covered n)) (queue @ sm_children n))
          \<and> covers nodes V (set (expand_loop nodes (i # visited) (add_new acc (sm_covered n)) (queue @ sm_children n)))"
        by (rule 2(3)[OF False Some]) (use 2(4) Some in \<open>fastforce simp: set_add_new\<close>)
      with False Some show ?thesis by (auto simp: set_add_new)
    qed
  qed
qed

lemma expand_covered_closed:
  "\<exists>V. root \<in> V \<and> below nodes V \<and> covers nodes V (set (expand_covered nodes root))"
  using expand_loop_closed[of "[]" nodes "[root]" "[]"] by (auto simp: expand_covered_def)

section \<open>Well-formed graphs\<close>

text \<open>Every node comes after its children, and the graph knows who is a child.\<close>

definition later_children :: "(element_id \<Rightarrow> element_id list) \<Rightarrow> element_id list \<Rightarrow> bool" where
  "later_children ch order \<longleftrightarrow> (\<forall>xs i ys. order = xs @ i # ys \<longrightarrow> set (ch i) \<subseteq> set xs)"

definition graph_ok :: "summary_dag \<Rightarrow> bool" where
  "graph_ok dag \<longleftrightarrow> distinct (dg_order dag) \<and> fset (fmdom (dg_nodes dag)) = set (dg_order dag)
     \<and> later_children (\<lambda>i. sm_children (node_of dag i)) (dg_order dag)
     \<and> fset (dg_children dag) = (\<Union>i\<in>set (dg_order dag). set (sm_children (node_of dag i)))"

lemma later_children_snoc:
  "later_children ch (xs @ [i]) \<longleftrightarrow> later_children ch xs \<and> set (ch i) \<subseteq> set xs"
  unfolding later_children_def
proof (intro iffI conjI allI impI)
  fix ys j zs
  assume "\<forall>ys j zs. xs @ [i] = ys @ j # zs \<longrightarrow> set (ch j) \<subseteq> set ys" "xs = ys @ j # zs"
  then show "set (ch j) \<subseteq> set ys" by simp
next
  assume "\<forall>ys j zs. xs @ [i] = ys @ j # zs \<longrightarrow> set (ch j) \<subseteq> set ys"
  then show "set (ch i) \<subseteq> set xs" by blast
next
  fix ys j zs
  assume a: "(\<forall>ys j zs. xs = ys @ j # zs \<longrightarrow> set (ch j) \<subseteq> set ys) \<and> set (ch i) \<subseteq> set xs" "xs @ [i] = ys @ j # zs"
  show "set (ch j) \<subseteq> set ys"
  proof (cases zs rule: rev_cases)
    case Nil
    with a show ?thesis by simp
  next
    case (snoc zs' z)
    with a(2) have "xs = ys @ j # zs'" by simp
    with a(1) show ?thesis by blast
  qed
qed

lemma later_children_cong:
  "(\<And>i. i \<in> set xs \<Longrightarrow> ch i = ch' i) \<Longrightarrow> later_children ch xs = later_children ch' xs"
  unfolding later_children_def by (metis in_set_conv_decomp)

text \<open>From every node a root is reached upwards, so what a closed set of nodes covers is covered by a root.\<close>

lemma below_root:
  assumes ok: "graph_ok dag" and i: "i \<in> set (dg_order dag)"
  shows "\<exists>r\<in>set (dag_roots dag). \<forall>V. r \<in> V \<longrightarrow> below (dg_nodes dag) V \<longrightarrow> i \<in> V"
proof -
  have "\<exists>r\<in>set (dag_roots dag). \<forall>V. r \<in> V \<longrightarrow> below (dg_nodes dag) V \<longrightarrow> i \<in> V"
    if "dg_order dag = xs @ i # ys" for xs i ys
    using that
  proof (induction "length ys" arbitrary: xs i ys rule: less_induct)
    case less
    show ?case
    proof (cases "i |\<in>| dg_children dag")
      case False
      with less.prems show ?thesis by (intro bexI[of _ i]) (auto simp: dag_roots_def)
    next
      case True
      then obtain p where p: "p \<in> set (dg_order dag)" "i \<in> set (sm_children (node_of dag p))"
        using ok by (auto simp: graph_ok_def)
      then obtain us vs where s: "dg_order dag = us @ p # vs" by (meson split_list)
      have "later_children (\<lambda>i. sm_children (node_of dag i)) (us @ p # vs)" using ok s by (simp add: graph_ok_def)
      with p(2) have "i \<in> set us" unfolding later_children_def by blast
      then obtain us1 us2 where u: "us = us1 @ i # us2" by (meson split_list)
      have "distinct (dg_order dag)" using ok by (simp add: graph_ok_def)
      then have "xs = us1 \<and> ys = us2 @ p # vs"
        using less.prems s u append_Cons_eq_iff[of i xs ys us1 "us2 @ p # vs"] by fastforce
      then have "length vs < length ys" by simp
      from less.hyps[OF this s] obtain r where r: "r \<in> set (dag_roots dag)"
        "\<And>V. r \<in> V \<Longrightarrow> below (dg_nodes dag) V \<Longrightarrow> p \<in> V" by blast
      obtain n where "fmlookup (dg_nodes dag) p = Some n"
        using p(1) ok by (metis (no_types) fmlookup_dom_iff graph_ok_def)
      with p(2) have "i \<in> V" if "p \<in> V" "below (dg_nodes dag) V" for V
        using that by (auto simp: below_def node_of_def)
      with r show ?thesis by blast
    qed
  qed
  with i show ?thesis by (meson split_list)
qed

lemma dag_covered_iff:
  "i |\<in>| dag_covered dag \<longleftrightarrow> (\<exists>k n. fmlookup (dg_nodes dag) k = Some n \<and> i \<in> set (sm_covered n))"
proof -
  have "set (sorted_list_of_fmap (dg_nodes dag)) = {(k, n). fmlookup (dg_nodes dag) k = Some n}"
    by (auto simp: sorted_list_of_fmap_def image_iff fmlookup_dom_iff)
  then show ?thesis by (auto simp: dag_covered_def fset_of_list_elem)
qed

lemma covered_under_root:
  assumes ok: "graph_ok dag" and i: "i |\<in>| dag_covered dag"
  shows "\<exists>r\<in>set (dag_roots dag). i \<in> set (expand_covered (dg_nodes dag) r)"
proof -
  obtain k n where k: "fmlookup (dg_nodes dag) k = Some n" "i \<in> set (sm_covered n)" using i unfolding dag_covered_iff by blast
  then have "k \<in> set (dg_order dag)" using ok by (metis fmdomI graph_ok_def)
  from below_root[OF ok this] obtain r where r: "r \<in> set (dag_roots dag)"
    "\<And>V. r \<in> V \<Longrightarrow> below (dg_nodes dag) V \<Longrightarrow> k \<in> V" by blast
  obtain V where V: "r \<in> V" "below (dg_nodes dag) V" "covers (dg_nodes dag) V (set (expand_covered (dg_nodes dag) r))"
    using expand_covered_closed by blast
  from r(2)[OF V(1,2)] V(3) k r(1) show ?thesis by (auto simp: covers_def)
qed

end
