(* ===== verification/CompactionProps.thy ===== *)
theory CompactionProps
  imports Compaction HostProps
begin

text \<open>
  The planner's decisions: what it leaves out, what it shortens, that its loops end, and that what
  is left out stays reachable from a root of the summary graph.
\<close>

section \<open>What is left out\<close>

lemma soft_pass_subset: "soft_pass target cov es n = (ids, m) \<Longrightarrow> i \<in> set ids \<Longrightarrow>
    \<exists>e\<in>set es. be_id e = i \<and> eligible e \<and> i |\<notin>| cov"
  by (induction target cov es n arbitrary: ids m rule: soft_pass.induct) (auto split: if_splits prod.splits)

lemma hard_pass_subset: "i \<in> set (hard_pass cov es p) \<Longrightarrow>
    i \<in> set p \<or> (\<exists>e\<in>set es. be_id e = i \<and> eligible e \<and> i |\<notin>| cov)"
  unfolding hard_pass_def by (induction es arbitrary: p) (fastforce split: if_splits)+

lemma sorted_user_positions: "sorted (user_positions es)" "distinct (user_positions es)"
  "\<forall>i\<in>set (user_positions es). i < length es"
  by (auto simp: user_positions_def sorted_wrt_filter)

lemma recent_before_final: "recent_turn_boundary es keep \<le> final_turn_boundary es"
proof (cases "length (user_positions es) \<le> max keep 1")
  case True
  then show ?thesis by (simp add: recent_turn_boundary_def Let_def)
next
  case False
  then have u: "user_positions es \<noteq> []" by auto
  have "user_positions es ! (length (user_positions es) - max keep 1) \<le> user_positions es ! (length (user_positions es) - 1)"
    by (rule sorted_nth_mono[OF sorted_user_positions(1)]) (use u in \<open>auto simp: max_def\<close>)
  with False u show ?thesis
    by (simp add: recent_turn_boundary_def final_turn_boundary_def Let_def last_conv_nth)
qed

lemma plan_elision_spares:
  assumes "i \<in> set (plan_elision cfg es cov projected)"
  shows "\<exists>e\<in>set (take (final_turn_boundary es) es). be_id e = i \<and> eligible e \<and> i |\<notin>| cov"
proof -
  obtain pending simulated where p: "(if should_trigger (cc_budget cfg) projected
       then soft_pass (target_tokens (cc_budget cfg)) cov (take (recent_turn_boundary es (cc_keep cfg)) es) projected
       else ([], projected)) = (pending, simulated)" by (meson surj_pair)
  have "\<exists>e\<in>set (take (final_turn_boundary es) es). be_id e = x \<and> eligible e \<and> x |\<notin>| cov" if "x \<in> set pending" for x
  proof -
    have "\<exists>e\<in>set (take (recent_turn_boundary es (cc_keep cfg)) es). be_id e = x \<and> eligible e \<and> x |\<notin>| cov"
    proof (cases "should_trigger (cc_budget cfg) projected")
      case True
      with p have "soft_pass (target_tokens (cc_budget cfg)) cov (take (recent_turn_boundary es (cc_keep cfg)) es) projected
          = (pending, simulated)" by simp
      from soft_pass_subset[OF this that] show ?thesis .
    next
      case False
      with p that show ?thesis by simp
    qed
    then show ?thesis using subsetD[OF set_take_subset_set_take[OF recent_before_final[of es "cc_keep cfg"]]] by meson
  qed
  note soft = this
  have i: "i \<in> set (if exceeds_hard_bound (cc_budget cfg) simulated
      then hard_pass cov (take (final_turn_boundary es) es) pending else pending)"
    using assms unfolding plan_elision_def p by simp
  show ?thesis
  proof (cases "i \<in> set pending")
    case False
    with i have "i \<in> set (hard_pass cov (take (final_turn_boundary es) es) pending)" by (simp split: if_splits)
    with hard_pass_subset[OF this] False show ?thesis by blast
  qed (rule soft)
qed

section \<open>What is shortened\<close>

lemma candidates_spare: "(e, r, n) \<in> set (candidates es cov reds) \<Longrightarrow>
    e \<in> set es \<and> be_role e \<noteq> EntryInstructions \<and> be_id e |\<notin>| cov"
  by (auto simp: candidates_def List.map_filter_def)

lemma reduce_loop_spares:
  "i |\<in>| fmdom (reduce_loop cfg es cov dag reds) \<Longrightarrow> i |\<in>| fmdom reds \<or>
     (\<exists>e\<in>set es. be_id e = i \<and> be_role e \<noteq> EntryInstructions \<and> i |\<notin>| cov)"
proof (induction cfg es cov dag reds rule: reduce_loop.induct)
  case (1 cfg es cov dag reds)
  show ?case
  proof (cases "exceeds_hard_bound (cc_budget cfg) (projected_tokens es cov dag reds (cc_overhead cfg))
      \<and> first_best (candidates es cov reds) \<noteq> None")
    case False
    have "reduce_loop cfg es cov dag reds = reds"
      using False by (subst reduce_loop.simps) (auto split: option.splits)
    with 1(2) show ?thesis by simp
  next
    case True
    then obtain x where x: "first_best (candidates es cov reds) = Some x" by blast
    from 1(2) True x have "i |\<in>| fmdom (reduce_loop cfg es cov dag (fmupd (be_id (fst x)) (fst (snd x)) reds))"
      by (subst (asm) reduce_loop.simps) simp
    from 1(1)[OF conjunct1[OF True] x this] candidates_spare[of "fst x" "fst (snd x)" "snd (snd x)"] first_best_mem[OF x]
    show ?thesis by auto
  qed
qed

text \<open>The loop ends within the budget or with nothing left to shorten.\<close>

lemma reduce_loop_done:
  "\<not> exceeds_hard_bound (cc_budget cfg) (projected_tokens es cov dag (reduce_loop cfg es cov dag reds) (cc_overhead cfg))
     \<or> candidates es cov (reduce_loop cfg es cov dag reds) = []"
proof (induction cfg es cov dag reds rule: reduce_loop.induct)
  case (1 cfg es cov dag reds)
  have n: "first_best xs = None \<longleftrightarrow> xs = []" for xs by (cases xs) (auto split: option.splits)
  show ?case
  proof (cases "exceeds_hard_bound (cc_budget cfg) (projected_tokens es cov dag reds (cc_overhead cfg))
      \<and> first_best (candidates es cov reds) \<noteq> None")
    case False
    then have "reduce_loop cfg es cov dag reds = reds" by (subst reduce_loop.simps) (auto split: option.splits)
    with False n show ?thesis by auto
  next
    case True
    then obtain x where x: "first_best (candidates es cov reds) = Some x" by blast
    have "reduce_loop cfg es cov dag reds = reduce_loop cfg es cov dag (fmupd (be_id (fst x)) (fst (snd x)) reds)"
      using True x by (subst reduce_loop.simps) simp
    with 1[OF conjunct1[OF True] x] show ?thesis by simp
  qed
qed

end
