(* ===== verification/CompactionPlan.thy ===== *)
theory CompactionPlan
  imports SummaryGraph CompactionProps
begin

text \<open>
  The planner and the journal together: the graph it works on is the one the journal stores,
  every round of condensing has fewer roots, and the graph stays well formed.
\<close>

section \<open>The same graph\<close>

definition node_shape :: "summary_dag \<Rightarrow> element_id \<Rightarrow> (element_id list \<times> element_id list) option" where
  "node_shape dag i = map_option (\<lambda>n. (sm_covered n, sm_children n)) (fmlookup (dg_nodes dag) i)"

definition same_graph :: "summary_dag \<Rightarrow> summary_dag \<Rightarrow> bool" where
  "same_graph d e \<longleftrightarrow> dg_order d = dg_order e \<and> dg_children d = dg_children e \<and> (\<forall>i. node_shape d i = node_shape e i)"

lemma same_graph_roots: "same_graph d e \<Longrightarrow> dag_roots d = dag_roots e"
  by (simp add: same_graph_def dag_roots_def)

lemma node_shape_of:
  "node_shape d i = node_shape e i \<Longrightarrow> sm_children (node_of d i) = sm_children (node_of e i)
     \<and> sm_covered (node_of d i) = sm_covered (node_of e i)
     \<and> (fmlookup (dg_nodes d) i = None \<longleftrightarrow> fmlookup (dg_nodes e) i = None)"
  by (cases "fmlookup (dg_nodes d) i"; cases "fmlookup (dg_nodes e) i") (auto simp: node_shape_def node_of_def)

lemma node_shape_dom: "(node_shape d i = None) = (i \<notin> fset (fmdom (dg_nodes d)))"
  by (simp add: node_shape_def fmlookup_dom_iff)

lemma same_graph_ok: "same_graph d e \<Longrightarrow> graph_ok d = graph_ok e"
proof -
  assume a: "same_graph d e"
  then have "sm_children (node_of d i) = sm_children (node_of e i)" for i
    using node_shape_of[of d i e] by (simp add: same_graph_def)
  then have ch: "(\<lambda>i. sm_children (node_of d i)) = (\<lambda>i. sm_children (node_of e i))" by blast
  have "i \<in> fset (fmdom (dg_nodes d)) \<longleftrightarrow> i \<in> fset (fmdom (dg_nodes e))" for i
    using a node_shape_dom[of d i] node_shape_dom[of e i] by (simp add: same_graph_def)
  then have "fset (fmdom (dg_nodes d)) = fset (fmdom (dg_nodes e))" by blast
  moreover have "(\<Union>i\<in>set (dg_order e). set (sm_children (node_of d i))) = (\<Union>i\<in>set (dg_order e). set (sm_children (node_of e i)))"
    by (simp add: fun_cong[OF ch])
  ultimately show ?thesis using a ch unfolding graph_ok_def same_graph_def by (simp only:)
qed

lemma expand_loop_cong:
  "(\<And>i. map_option (\<lambda>n. (sm_covered n, sm_children n)) (fmlookup nodes i)
       = map_option (\<lambda>n. (sm_covered n, sm_children n)) (fmlookup nodes' i)) \<Longrightarrow>
   expand_loop nodes visited acc queue = expand_loop nodes' visited acc queue"
proof (induction nodes visited acc queue rule: expand_loop.induct)
  case (2 nodes visited acc i queue)
  show ?case
  proof (cases "i \<in> set visited")
    case False
    show ?thesis
    proof (cases "fmlookup nodes i")
      case None
      with 2(4)[of i] have "fmlookup nodes' i = None" by (cases "fmlookup nodes' i") auto
      with 2(2)[OF False None 2(4)] None False show ?thesis by simp
    next
      case (Some n)
      with 2(4)[of i] obtain m where "fmlookup nodes' i = Some m" "sm_covered m = sm_covered n" "sm_children m = sm_children n"
        by (cases "fmlookup nodes' i") auto
      with 2(3)[OF False Some 2(4)] Some False show ?thesis by simp
    qed
  qed (use 2 in simp)
qed simp

lemma same_graph_expand:
  "same_graph d e \<Longrightarrow> expand_covered (dg_nodes d) r = expand_covered (dg_nodes e) r"
  unfolding expand_covered_def by (rule expand_loop_cong) (simp add: same_graph_def node_shape_def)

lemma dag_covered_shape: "i |\<in>| dag_covered dag \<longleftrightarrow> (\<exists>k x y. node_shape dag k = Some (x, y) \<and> i \<in> set x)"
  by (auto simp: dag_covered_iff node_shape_def)

lemma same_graph_covered: "same_graph d e \<Longrightarrow> dag_covered d = dag_covered e"
  by (rule fset_eqI) (simp add: dag_covered_shape same_graph_def)

section \<open>A node more\<close>

definition grows :: "summary_dag \<Rightarrow> element_id \<Rightarrow> element_id list \<Rightarrow> element_id list \<Rightarrow> summary_dag \<Rightarrow> bool" where
  "grows d i cov ch d' \<longleftrightarrow> dg_order d' = dg_order d @ [i] \<and> dg_children d' = dg_children d |\<union>| fset_of_list ch
     \<and> node_shape d' = (node_shape d)(i := Some (cov, ch))"

lemma grows_same: "same_graph d e \<Longrightarrow> grows d i cov ch d' \<Longrightarrow> grows e i cov ch e' \<Longrightarrow> same_graph d' e'"
  by (simp add: same_graph_def grows_def)

lemma grows_add:
  "summary_of_element x = Inr n \<Longrightarrow> grows d (el_id x) (sm_covered n) (sm_children n) (add_element x d)"
  by (auto simp: grows_def add_element_def node_shape_def)

lemma grows_ok:
  assumes g: "grows d i cov ch d'" and ok: "graph_ok d" and i: "i \<notin> set (dg_order d)" and ch: "set ch \<subseteq> set (dg_order d)"
  shows "graph_ok d'"
proof -
  have old: "sm_children (node_of d' k) = sm_children (node_of d k)" if "k \<in> set (dg_order d)" for k
  proof -
    have "node_shape d' k = node_shape d k" using that i g by (auto simp: grows_def)
    then show ?thesis using node_shape_of by blast
  qed
  have new: "sm_children (node_of d' i) = ch"
  proof -
    have "node_shape d' i = Some (cov, ch)" using g by (simp add: grows_def)
    then show ?thesis by (auto simp: node_shape_def node_of_def)
  qed
  have dom: "fset (fmdom (dg_nodes d')) = insert i (set (dg_order d))"
  proof -
    have "k \<in> fset (fmdom (dg_nodes d')) \<longleftrightarrow> k = i \<or> k \<in> fset (fmdom (dg_nodes d))" for k
      using node_shape_dom[of d' k] node_shape_dom[of d k] g by (cases "k = i") (simp_all add: grows_def)
    then show ?thesis using ok by (auto simp: graph_ok_def)
  qed
  have later: "later_children (\<lambda>k. sm_children (node_of d' k)) (dg_order d @ [i])"
    unfolding later_children_snoc using ok ch later_children_cong[OF old] by (simp add: new graph_ok_def)
  have "fset (dg_children d') = (\<Union>k\<in>set (dg_order d). set (sm_children (node_of d k))) \<union> set ch"
    using g ok by (auto simp: grows_def graph_ok_def fset_of_list.rep_eq)
  also have "\<dots> = (\<Union>k\<in>insert i (set (dg_order d)). set (sm_children (node_of d' k)))"
    using old new by auto
  finally show ?thesis using g ok i dom later by (simp add: graph_ok_def grows_def)
qed

lemma grows_covered:
  "grows d i cov ch d' \<Longrightarrow> node_shape d i = None \<Longrightarrow> dag_covered d' = dag_covered d |\<union>| fset_of_list cov"
proof (rule fset_eqI)
  fix x
  assume g: "grows d i cov ch d'" and n: "node_shape d i = None"
  have "x |\<in>| dag_covered d' \<longleftrightarrow> (\<exists>k xs ys. (if k = i then Some (cov, ch) else node_shape d k) = Some (xs, ys) \<and> x \<in> set xs)"
    using g by (simp add: dag_covered_shape grows_def)
  also have "\<dots> \<longleftrightarrow> (\<exists>k xs ys. node_shape d k = Some (xs, ys) \<and> x \<in> set xs) \<or> x \<in> set cov"
    using n by (metis option.distinct(1) option.inject prod.inject)
  finally show "x |\<in>| dag_covered d' \<longleftrightarrow> x |\<in>| dag_covered d |\<union>| fset_of_list cov"
    by (simp add: dag_covered_shape fset_of_list.rep_eq)
qed

lemma grows_roots:
  assumes "grows d i cov ch d'" "i \<notin> set (dg_order d)" "distinct (dg_order d)" "ch = take m (dag_roots d)"
  shows "length (dag_roots d') \<le> length (dag_roots d) - length ch + 1"
proof -
  have d: "distinct (dag_roots d)" using assms(3) by (simp add: dag_roots_def)
  have "filter (\<lambda>k. k |\<notin>| dg_children d') (dg_order d) = filter (\<lambda>k. k \<notin> set ch) (dag_roots d)"
    using assms(1) by (auto simp: dag_roots_def grows_def fset_of_list.rep_eq intro: filter_cong)
  also have "filter (\<lambda>k. k \<notin> set ch) (dag_roots d) = drop m (dag_roots d)"
  proof -
    have i: "set (take m (dag_roots d)) \<inter> set (drop m (dag_roots d)) = {}" by (rule set_take_disj_set_drop_if_distinct[OF d]) simp
    have "filter (\<lambda>k. k \<notin> set ch) (take m (dag_roots d) @ drop m (dag_roots d)) = drop m (dag_roots d)"
      using i unfolding filter_append assms(4) by (subst filter_True) (auto simp: filter_empty_conv)
    then show ?thesis by simp
  qed
  finally have "length (filter (\<lambda>k. k |\<notin>| dg_children d') (dg_order d)) = length (dag_roots d) - length ch"
    using assms(4) by simp
  then show ?thesis using assms(1) by (simp add: dag_roots_def[of d'] grows_def)
qed

section \<open>The graph of the journal\<close>

lemma dag_of_snoc: "dag_of (es @ [e]) = add_element e (dag_of es)"
  by (simp add: dag_of_def)

lemma dag_of_order: "dg_order (dag_of es) = map el_id (filter (\<lambda>e. is_ok (summary_of_element e)) es)"
  by (induction es rule: rev_induct) (auto simp: dag_of_snoc add_element_def dag_of_def empty_dag_def is_ok_def split: sum.splits)

definition dag_doc :: "codec \<Rightarrow> journal \<Rightarrow> element_snapshot list \<Rightarrow> summary_dag \<Rightarrow> bool" where
  "dag_doc c j es dag \<longleftrightarrow> journal_ok c j \<and> container_is (jn_snapshot j) SUMMARIES_CONTAINER es \<and> ids_valid es
     \<and> dg_unreadable (dag_of es) = 0 \<and> same_graph dag (dag_of es)"

lemma dag_doc_order:
  assumes "dag_doc c j es dag"
  shows "set (dg_order dag) \<subseteq> el_id ` set es" "distinct (dg_order dag)" "list_all valid_id (dag_roots dag)"
proof -
  have o: "dg_order dag = map el_id (filter (\<lambda>e. is_ok (summary_of_element e)) es)"
    using assms dag_of_order by (simp add: dag_doc_def same_graph_def)
  show sub: "set (dg_order dag) \<subseteq> el_id ` set es" unfolding o by auto
  have "distinct (map el_id es)" using assms container_is_ids[of "jn_snapshot j" SUMMARIES_CONTAINER es] by (metis dag_doc_def)
  then show "distinct (dg_order dag)" unfolding o by (rule distinct_map_filter)
  show "list_all valid_id (dag_roots dag)"
    using sub assms by (auto simp: dag_roots_def dag_doc_def ids_valid_def list_all_iff)
qed

lemma load_dag_doc: "dag_doc c j es dag \<Longrightarrow> load_dag (jn_snapshot j) = Some (dag_of es)"
  using journal_container(2)[of c j SUMMARIES_CONTAINER]
  by (simp add: dag_doc_def load_dag_def container_is_def ROOTS_def SUMMARIES_CONTAINER_def)

lemma create_node_doc:
  assumes d: "dag_doc (hw_codec w) j es dag" and l: "length es < 2 ^ 32"
    and v: "list_all valid_id (sm_covered n)" "list_all valid_id (sm_children n)"
  obtains (failed) j' e where "create_node w owner j n kind txt = Some (j', Inl e)"
      "journal_ok (hw_codec w) j'" "jn_snapshot j' = jn_snapshot j"
  | (created) j' i es' where "create_node w owner j n kind txt = Some (j', Inr i)" "dag_doc (hw_codec w) j' es' (dag_of es')"
      "length es' = Suc (length es)" "i \<notin> set (dg_order dag)" "grows (dag_of es) i (sm_covered n) (sm_children n) (dag_of es')"
proof -
  have ok: "journal_ok (hw_codec w) j" and k: "container_is (jn_snapshot j) SUMMARIES_CONTAINER es"
    using d by (simp_all add: dag_doc_def)
  have c: "container (jn_snapshot j) SUMMARIES_CONTAINER = Some SUMMARIES_CONTAINER"
    using journal_container(2)[OF ok] by (simp add: ROOTS_def SUMMARIES_CONTAINER_def)
  define x where "x = (\<lambda>i. summary_element n i kind txt)"
  define ap where "ap = (\<lambda>i. host_append w owner j (ss_offset (jn_snapshot j)) (''compact context ('' @ summary_kind_str kind @ '')'')
      [Create SUMMARIES_CONTAINER (count_u32 (jn_snapshot j) SUMMARIES_CONTAINER) (x i)])"
  have r: "create_node w owner j n kind txt = Some (case new_id (''sum-'' @ mint w j 0) of
      Inl e \<Rightarrow> (j, Inl e)
    | Inr i \<Rightarrow> (case ap i of (j', Inl e) \<Rightarrow> (j', Inl e) | (j', Inr _) \<Rightarrow> (j', Inr i)))"
    unfolding create_node_def c ap_def x_def Let_def by simp
  show thesis
  proof (cases "new_id (''sum-'' @ mint w j 0)")
    case (Inl e)
    with r ok failed show thesis by simp
  next
    case (Inr i)
    have vi: "valid_id i" using Inr by (simp add: new_id_Inr_iff)
    obtain j' res where a: "ap i = (j', res)" by force
    show thesis
    proof (cases res)
      case (Inl e)
      from a[unfolded ap_def Inl] have "journal_ok (hw_codec w) j'" "jn_snapshot j' = jn_snapshot j"
        by (rule host_append_failed[OF ok])+
      with r Inr a Inl show thesis by (intro failed[of j' e]) simp_all
    next
      case res: (Inr u)
      have "ap i = (j', Inr ())" using a res by simp
      note ho = host_append_ok[OF ok this[unfolded ap_def]]
      have ok': "journal_ok (hw_codec w) j'"
        and ops: "\<exists>t. apply_ops (jn_snapshot j) [Create SUMMARIES_CONTAINER (count_u32 (jn_snapshot j) SUMMARIES_CONTAINER) (x i)] [] = (t, Inr ())
          \<and> ss_nodes (jn_snapshot j') = ss_nodes t"
        by (fact ho)+
      from ops obtain t where t: "apply_ops (jn_snapshot j) [Create SUMMARIES_CONTAINER (count_u32 (jn_snapshot j) SUMMARIES_CONTAINER) (x i)] [] = (t, Inr ())"
        "ss_nodes (jn_snapshot j') = ss_nodes t" by blast
      have xi: "el_id (x i) = i" by (simp add: x_def summary_element_def new_element_def)
      note ca = create_appends[OF t(1) k l]
      have "container_is (jn_snapshot j') SUMMARIES_CONTAINER (es @ [x i])"
        using journal_container(1)[OF ok', of SUMMARIES_CONTAINER] ca(1) children_nodes[OF t(2)]
        by (simp add: ROOTS_def SUMMARIES_CONTAINER_def)
      moreover obtain m where m: "summary_of_element (x i) = Inr m" "sm_covered m = sm_covered n" "sm_children m = sm_children n"
        using summary_read[OF v] unfolding x_def by blast
      ultimately have "dag_doc (hw_codec w) j' (es @ [x i]) (dag_of (es @ [x i]))"
        using ok' d vi by (simp add: dag_doc_def ids_valid_def xi dag_of_snoc add_element_def same_graph_def)
      moreover have "i \<notin> set (dg_order dag)" using ca(2) dag_doc_order(1)[OF d] unfolding xi by blast
      moreover have "grows (dag_of es) i (sm_covered n) (sm_children n) (dag_of (es @ [x i]))"
        using grows_add[OF m(1), of "dag_of es"] by (simp add: dag_of_snoc m xi)
      moreover have "create_node w owner j n kind txt = Some (j', Inr i)" using r Inr a res by simp
      ultimately show thesis by (intro created[of j' i "es @ [x i]"]) simp_all
    qed
  qed
qed

section \<open>Leaving elements out\<close>

lemma commit_elision_doc:
  assumes d: "dag_doc (hw_codec w) j es dag" and l: "length es < 2 ^ 32" and v: "list_all valid_id ids"
  obtains (failed) j' e where "commit_elision w owner j bs ids dag = Some (j', Inl e)"
  | (committed) j' dag' es' where "commit_elision w owner j bs ids dag = Some (j', Inr dag')" "dag_doc (hw_codec w) j' es' dag'"
      "length es' = Suc (length es)" "graph_ok dag \<longrightarrow> graph_ok dag'"
      "graph_ok dag \<longrightarrow> dag_covered dag' = dag_covered dag |\<union>| fset_of_list ids"
proof -
  define n where "n = \<lparr>sm_covered = ids, sm_children = [],
    sm_tokens = sum_list (List.map_filter (\<lambda>i. map_option entry_tokens (find (\<lambda>e. be_id e = i) (rev bs))) ids),
    sm_offset = ss_offset (jn_snapshot j)\<rparr>"
  define add where "add = (\<lambda>i. dag\<lparr>dg_order := dg_order dag @ [i], dg_nodes := fmupd i n (dg_nodes dag),
    dg_texts := fmupd i (render_inventory bs ids) (dg_texts dag)\<rparr>)"
  have c: "commit_elision w owner j bs ids dag = map_option (\<lambda>(j', r). (j', case r of Inl e \<Rightarrow> Inl e | Inr i \<Rightarrow> Inr (add i)))
      (create_node w owner j n Leaf (render_inventory bs ids))"
    unfolding commit_elision_def n_def add_def Let_def by simp
  have nv: "list_all valid_id (sm_covered n)" "list_all valid_id (sm_children n)" "sm_covered n = ids" "sm_children n = []"
    using v by (simp_all add: n_def)
  note cn = create_node_doc[OF d l nv(1,2), of owner Leaf "render_inventory bs ids"]
  show thesis
  proof (cases rule: cn)
    case (1 j' e)
    then show thesis using c failed by simp
  next
    case created: (2 j' i es')
    have g: "grows dag i ids [] (add i)" by (auto simp: grows_def add_def node_shape_def n_def)
    have sg: "same_graph dag (dag_of es)" using d by (simp add: dag_doc_def)
    have "same_graph (add i) (dag_of es')" using grows_same[OF sg g] created(5) nv(3,4) by simp
    then have dd: "dag_doc (hw_codec w) j' es' (add i)" using created(2) by (simp add: dag_doc_def)
    have ok: "graph_ok (add i)" "dag_covered (add i) = dag_covered dag |\<union>| fset_of_list ids" if "graph_ok dag"
    proof -
      show "graph_ok (add i)" using grows_ok[OF g that created(4)] by simp
      have "node_shape dag i = None" using that created(4) by (simp add: node_shape_dom graph_ok_def)
      then show "dag_covered (add i) = dag_covered dag |\<union>| fset_of_list ids" by (rule grows_covered[OF g])
    qed
    show thesis by (rule committed[of j' "add i" es']) (use c created(1,3) dd ok in simp_all)
  qed
qed

section \<open>Condensing\<close>

definition condensed_node :: "nat \<Rightarrow> summary_dag \<Rightarrow> summary_node" where
  "condensed_node n dag = \<lparr>sm_covered = [], sm_children = take CONDENSE_FAN_IN (dag_roots dag),
     sm_tokens = sum_list (map (\<lambda>i. sm_tokens (node_of dag i)) (take CONDENSE_FAN_IN (dag_roots dag))), sm_offset = n\<rparr>"

lemma condense_step:
  "condense_loop (Suc fuel) w owner limit j dag =
     (if length (dag_roots dag) \<le> max limit 1 then Some (j, Inr dag)
      else (case create_node w owner j (condensed_node (ss_offset (jn_snapshot j)) dag) Condensed
                (render_condensed dag (take CONDENSE_FAN_IN (dag_roots dag))) of
            None \<Rightarrow> None
          | Some (j', Inl e) \<Rightarrow> Some (j', Inl e)
          | Some (j', Inr _) \<Rightarrow>
              (case load_dag (jn_snapshot j') of
                 None \<Rightarrow> None
               | Some dag' \<Rightarrow> condense_loop fuel w owner limit j' dag')))"
proof (cases "length (dag_roots dag) \<le> max limit 1")
  case False
  then have "\<not> length (take CONDENSE_FAN_IN (dag_roots dag)) < 2" by (simp add: CONDENSE_FAN_IN_def)
  with False show ?thesis unfolding condense_loop.simps condensed_node_def Let_def by (simp only: if_False)
qed simp

lemma condense_loop_doc:
  "dag_doc (hw_codec w) j es dag \<Longrightarrow> length (dag_roots dag) < fuel \<Longrightarrow> length es + length (dag_roots dag) < 2 ^ 32 \<Longrightarrow>
   \<exists>j' r. condense_loop fuel w owner limit j dag = Some (j', r) \<and>
     (\<forall>dag'. r = Inr dag' \<longrightarrow> (\<exists>es'. dag_doc (hw_codec w) j' es' dag')
        \<and> length (dag_roots dag') \<le> max limit 1
        \<and> (graph_ok dag \<longrightarrow> graph_ok dag' \<and> dag_covered dag' = dag_covered dag))"
proof (induction fuel arbitrary: j es dag)
  case 0
  then show ?case by simp
next
  case (Suc fuel)
  show ?case
  proof (cases "length (dag_roots dag) \<le> max limit 1")
    case True
    with Suc.prems(1) show ?thesis unfolding condense_step by auto
  next
    case False
    define n where "n = condensed_node (ss_offset (jn_snapshot j)) dag"
    have l: "length es < 2 ^ 32" using Suc.prems(3) by simp
    have ch: "sm_children n = take CONDENSE_FAN_IN (dag_roots dag)" and cov: "sm_covered n = []" by (simp_all add: n_def condensed_node_def)
    have v: "list_all valid_id (sm_covered n)" "list_all valid_id (sm_children n)"
      using dag_doc_order(3)[OF Suc.prems(1)] by (auto simp: ch cov list_all_iff dest: in_set_takeD)
    note cn = create_node_doc[OF Suc.prems(1) l v, of owner Condensed
        "render_condensed dag (take CONDENSE_FAN_IN (dag_roots dag))"]
    show ?thesis
    proof (cases rule: cn)
      case (1 j' e)
      with False show ?thesis unfolding condense_step by (simp add: n_def)
    next
      case created: (2 j' i es')
      have sg: "same_graph dag (dag_of es)" using Suc.prems(1) by (simp add: dag_doc_def)
      have g: "grows dag i [] (sm_children n) (dag_of es')"
        using created(5) sg cov by (auto simp: grows_def same_graph_def)
      note o = dag_doc_order[OF Suc.prems(1)]
      have "length (sm_children n) \<ge> 2" using False by (simp add: ch CONDENSE_FAN_IN_def)
      then have r: "length (dag_roots (dag_of es')) < length (dag_roots dag)"
        using grows_roots[OF g created(4) o(2) ch] ch by (simp add: CONDENSE_FAN_IN_def)
      obtain j'' res where ih: "condense_loop fuel w owner limit j' (dag_of es') = Some (j'', res)"
        "\<And>dag'. res = Inr dag' \<Longrightarrow> (\<exists>es'. dag_doc (hw_codec w) j'' es' dag') \<and> length (dag_roots dag') \<le> max limit 1
          \<and> (graph_ok (dag_of es') \<longrightarrow> graph_ok dag' \<and> dag_covered dag' = dag_covered (dag_of es'))"
        using Suc.IH[OF created(2)] r Suc.prems(2,3) created(3) by fastforce
      have "graph_ok (dag_of es') \<and> dag_covered (dag_of es') = dag_covered dag" if ok: "graph_ok dag"
      proof -
        have "set (sm_children n) \<subseteq> set (dg_order dag)" by (auto simp: ch dag_roots_def dest: in_set_takeD)
        moreover have "node_shape dag i = None" using ok created(4) by (simp add: node_shape_dom graph_ok_def)
        ultimately show ?thesis using grows_ok[OF g ok created(4)] grows_covered[OF g] by simp
      qed
      moreover have "condense_loop (Suc fuel) w owner limit j dag = Some (j'', res)"
        using False created(1) load_dag_doc[OF created(2)] ih(1) unfolding condense_step n_def[symmetric] by simp
      ultimately show ?thesis using ih(2) by auto
    qed
  qed
qed

section \<open>Capping the texts\<close>

lemma boundary_below_le: "boundary_below s n \<le> n"
  by (induction n) auto

lemma text_prefix_length: "length (text_prefix s n) \<le> n"
  using boundary_below_le[of s n] by (simp add: text_prefix_def)

lemma capped_small: "length (cap_node_text s) \<le> MAX_NODE_TEXT_BYTES"
  using text_prefix_length[of s "MAX_NODE_TEXT_BYTES div 2"]
  by (simp add: cap_node_text_def MAX_NODE_TEXT_BYTES_def ELLIPSIS_def)

definition oversize :: "summary_dag \<Rightarrow> element_id list" where
  "oversize dag = filter (\<lambda>i. MAX_NODE_TEXT_BYTES < length (text_of dag i)) (dag_roots dag)"

lemma find_oversize: "find (\<lambda>i. MAX_NODE_TEXT_BYTES < length (text_of dag i)) (dag_roots dag) =
    (case oversize dag of [] \<Rightarrow> None | i # _ \<Rightarrow> Some i)"
proof -
  have "find P xs = (case filter P xs of [] \<Rightarrow> None | x # _ \<Rightarrow> Some x)" for P and xs :: "'a list"
    by (induction xs) auto
  then show ?thesis by (simp add: oversize_def)
qed

definition retext :: "element_id \<Rightarrow> string \<Rightarrow> summary_dag \<Rightarrow> summary_dag" where
  "retext i t dag = dag\<lparr>dg_texts := fmupd i t (dg_texts dag)\<rparr>"

lemma retext_graph: "same_graph (retext i t dag) dag" "dag_roots (retext i t dag) = dag_roots dag"
  "dg_nodes (retext i t dag) = dg_nodes dag"
  by (simp_all add: same_graph_def retext_def node_shape_def dag_roots_def)

lemma retext_oversize:
  assumes "oversize dag = i # rest"
  shows "length (oversize (retext i (cap_node_text t) dag)) < length (oversize dag)"
proof -
  have "MAX_NODE_TEXT_BYTES < length (text_of (retext i (cap_node_text t) dag) k) \<longleftrightarrow>
      k \<noteq> i \<and> MAX_NODE_TEXT_BYTES < length (text_of dag k)" for k
    using capped_small[of t] by (auto simp: text_of_def retext_def)
  then have "oversize (retext i (cap_node_text t) dag) = filter (\<lambda>k. k \<noteq> i) (oversize dag)"
    by (simp add: oversize_def retext_graph filter_filter conj_commute)
  also have "length \<dots> < length (oversize dag)" using assms by (intro length_filter_less[of i]) auto
  finally show ?thesis .
qed

lemma replace_text_nodes:
  assumes ok: "journal_ok (hw_codec w) j" and r: "replace_node_text w owner j i t = (j', Inr ())"
  shows "journal_ok (hw_codec w) j'"
    and "container_is (jn_snapshot j) k es \<Longrightarrow>
      container_is (jn_snapshot j') k (map (\<lambda>e. if el_id e = i then e\<lparr>el_text := t\<rparr> else e) es)"
proof -
  note h = host_append_ok[OF ok r[unfolded replace_node_text_def]]
  show "journal_ok (hw_codec w) j'" by (rule h)
  assume c: "container_is (jn_snapshot j) k es"
  obtain s where s: "apply_ops (jn_snapshot j) [ReplaceText i t] [] = (s, Inr ())" "ss_nodes (jn_snapshot j') = ss_nodes s"
    using h(3) by blast
  obtain u where e: "edit_element (jn_snapshot j) i (\<lambda>e. e\<lparr>el_text := t\<rparr>) (\<lambda>e. UndoText i (el_text e)) = (s, Inr u)"
  proof -
    obtain s1 r1 where "edit_element (jn_snapshot j) i (\<lambda>e. e\<lparr>el_text := t\<rparr>) (\<lambda>e. UndoText i (el_text e)) = (s1, r1)" by force
    with s(1) that show thesis by (cases r1) simp_all
  qed
  have wf: "wf_snapshot (jn_snapshot j)" using c by (simp add: container_is_def)
  have "container_is s k (map (\<lambda>e. if el_id e = i then e\<lparr>el_text := t\<rparr> else e) es)"
    using children_edit[OF wf e, of k] edit_element_ok[OF e wf] edit_element_undo[OF e] c
    by (auto simp: container_is_def fmlookup_modify_node)
  then show "container_is (jn_snapshot j') k (map (\<lambda>e. if el_id e = i then e\<lparr>el_text := t\<rparr> else e) es)"
    by (rule container_is_nodes[OF s(2) journal_wf[OF h(1)]])
qed

lemma dag_of_retext:
  "node_shape (dag_of (map (\<lambda>e. if el_id e = i then e\<lparr>el_text := t\<rparr> else e) es)) = node_shape (dag_of es)
   \<and> dg_order (dag_of (map (\<lambda>e. if el_id e = i then e\<lparr>el_text := t\<rparr> else e) es)) = dg_order (dag_of es)
   \<and> dg_children (dag_of (map (\<lambda>e. if el_id e = i then e\<lparr>el_text := t\<rparr> else e) es)) = dg_children (dag_of es)
   \<and> dg_unreadable (dag_of (map (\<lambda>e. if el_id e = i then e\<lparr>el_text := t\<rparr> else e) es)) = dg_unreadable (dag_of es)"
proof (induction es rule: rev_induct)
  case (snoc e es)
  have "summary_of_element (e\<lparr>el_text := t\<rparr>) = summary_of_element e" by (simp add: summary_of_element_def)
  with snoc show ?case
    by (auto simp: dag_of_snoc add_element_def node_shape_def fun_eq_iff split: sum.splits)
qed simp

lemma retext_doc:
  assumes d: "dag_doc (hw_codec w) j es dag" and r: "replace_node_text w owner j i t = (j', Inr ())"
  shows "\<exists>es'. dag_doc (hw_codec w) j' es' (retext i t dag)"
proof -
  have ok: "journal_ok (hw_codec w) j" and c: "container_is (jn_snapshot j) SUMMARIES_CONTAINER es" using d by (simp_all add: dag_doc_def)
  note rt = replace_text_nodes[OF ok r]
  have "ids_valid (map (\<lambda>e. if el_id e = i then e\<lparr>el_text := t\<rparr> else e) es)"
    using d by (auto simp: dag_doc_def ids_valid_def list_all_iff)
  moreover have "same_graph (retext i t dag) (dag_of (map (\<lambda>e. if el_id e = i then e\<lparr>el_text := t\<rparr> else e) es))"
    using d retext_graph(1)[of i t dag] dag_of_retext[of i t es] by (simp add: dag_doc_def same_graph_def)
  ultimately have "dag_doc (hw_codec w) j' (map (\<lambda>e. if el_id e = i then e\<lparr>el_text := t\<rparr> else e) es) (retext i t dag)"
    using d rt(1) rt(2)[OF c] dag_of_retext[of i t es] by (simp add: dag_doc_def)
  then show ?thesis by blast
qed

lemma cap_loop_doc:
  "dag_doc (hw_codec w) j es dag \<Longrightarrow> length (oversize dag) < fuel \<Longrightarrow>
   \<exists>j' r. cap_loop fuel w owner cfg bs cov reds j dag = Some (j', r) \<and>
     (\<forall>dag'. r = Inr dag' \<longrightarrow> (\<exists>es'. dag_doc (hw_codec w) j' es' dag') \<and> same_graph dag' dag
        \<and> (\<not> exceeds_hard_bound (cc_budget cfg) (projected_tokens bs cov dag' reds (cc_overhead cfg)) \<or> oversize dag' = []))"
proof (induction fuel arbitrary: j es dag)
  case 0
  then show ?case by simp
next
  case (Suc fuel)
  show ?case
  proof (cases "exceeds_hard_bound (cc_budget cfg) (projected_tokens bs cov dag reds (cc_overhead cfg)) \<and> oversize dag \<noteq> []")
    case False
    have "cap_loop (Suc fuel) w owner cfg bs cov reds j dag = Some (j, Inr dag)"
      using False by (simp add: find_oversize split: list.splits)
    with False Suc.prems(1) show ?thesis by (auto simp: same_graph_def)
  next
    case True
    then obtain i rest where o: "oversize dag = i # rest" by (cases "oversize dag") auto
    obtain j' res where rt: "replace_node_text w owner j i (cap_node_text (text_of dag i)) = (j', res)" by force
    define dag1 where "dag1 = retext i (cap_node_text (text_of dag i)) dag"
    show ?thesis
    proof (cases res)
      case (Inl e)
      then show ?thesis using True o rt by (simp add: find_oversize)
    next
      case (Inr u)
      with rt have "replace_node_text w owner j i (cap_node_text (text_of dag i)) = (j', Inr ())" by simp
      from retext_doc[OF Suc.prems(1) this] obtain es1 where d1: "dag_doc (hw_codec w) j' es1 dag1" by (auto simp: dag1_def)
      have step: "cap_loop (Suc fuel) w owner cfg bs cov reds j dag = cap_loop fuel w owner cfg bs cov reds j' dag1"
        using True o rt Inr by (simp add: find_oversize dag1_def retext_def)
      have "length (oversize dag1) < fuel" using retext_oversize[OF o, of "text_of dag i"] Suc.prems(2) by (simp add: dag1_def)
      from Suc.IH[OF d1 this] show ?thesis
        unfolding step using retext_graph(1)[of i "cap_node_text (text_of dag i)" dag]
        by (auto simp: same_graph_def dag1_def)
    qed
  qed
qed

section \<open>The whole plan\<close>

lemma entry_of_id: "entry_of tx s e = Some b \<Longrightarrow> be_id b = el_id e"
  by (auto simp: entry_of_def plain_entry_def tool_entry_def Let_def split: if_splits)

lemma collect_entries_ids:
  "collect_entries tx s = Some bs \<Longrightarrow> get_visible_body s = Some es \<Longrightarrow> be_id ` set bs \<subseteq> el_id ` set es"
  by (fastforce simp: collect_entries_def List.map_filter_def dest: entry_of_id)

definition fits :: "compaction_config \<Rightarrow> body_entry list \<Rightarrow> element_id fset \<Rightarrow> (element_id, reduction) fmap \<Rightarrow> summary_dag \<Rightarrow> bool" where
  "fits cfg bs cov reds dag \<longleftrightarrow> projected_tokens bs cov dag reds (cc_overhead cfg) \<le> bu_hard (cc_budget cfg)"

definition used_up :: "body_entry list \<Rightarrow> element_id fset \<Rightarrow> (element_id, reduction) fmap \<Rightarrow> summary_dag \<Rightarrow> bool" where
  "used_up bs cov reds dag \<longleftrightarrow> candidates bs cov reds = []
     \<and> (\<forall>i\<in>set (dag_roots dag). length (text_of dag i) \<le> MAX_NODE_TEXT_BYTES)"

lemma oversize_Nil: "oversize dag = [] \<Longrightarrow> \<forall>i\<in>set (dag_roots dag). length (text_of dag i) \<le> MAX_NODE_TEXT_BYTES"
  by (auto simp: oversize_def filter_empty_conv)

definition planned :: "codec \<Rightarrow> compaction_config \<Rightarrow> body_entry list \<Rightarrow> element_id fset \<Rightarrow> summary_dag
    \<Rightarrow> journal \<Rightarrow> compaction_outcome \<Rightarrow> bool" where
  "planned c cfg bs cov dag j' co \<longleftrightarrow>
     (\<exists>dag1 dag2 es2. dag_doc c j' es2 dag2 \<and> co_folds co = dag_folds dag2 \<and> co_covered co = cov
        \<and> co_reductions co = reduce_loop cfg bs cov dag1 fmempty
        \<and> (graph_ok dag \<longrightarrow> graph_ok dag2 \<and> dag_covered dag2 = dag_covered dag)
        \<and> (fits cfg bs cov (co_reductions co) dag2 \<or> used_up bs cov (co_reductions co) dag2))"

lemma finish_plan_doc:
  assumes d: "dag_doc (hw_codec w) j es dag" and l: "length es + length (dag_roots dag) < 2 ^ 32"
  shows "\<exists>j' r. finish_plan w owner cfg bs cov j dag = Some (j', r)
    \<and> (\<forall>co. r = Inr co \<longrightarrow> planned (hw_codec w) cfg bs cov dag j' co)"
proof -
  obtain j1 r1 where c: "condense_loop (Suc (length (dag_roots dag))) w owner (cc_max_roots cfg) j dag = Some (j1, r1)"
    "\<And>dag1. r1 = Inr dag1 \<Longrightarrow> (\<exists>es1. dag_doc (hw_codec w) j1 es1 dag1)
       \<and> (graph_ok dag \<longrightarrow> graph_ok dag1 \<and> dag_covered dag1 = dag_covered dag)"
    using condense_loop_doc[OF d _ l, of "Suc (length (dag_roots dag))" owner "cc_max_roots cfg"] by auto
  show ?thesis
  proof (cases r1)
    case (Inl e)
    with c(1) show ?thesis by (simp add: finish_plan_def)
  next
    case (Inr dag1)
    define reds where "reds = reduce_loop cfg bs cov dag1 fmempty"
    obtain es1 where d1: "dag_doc (hw_codec w) j1 es1 dag1" using c(2)[OF Inr] by blast
    have "length (oversize dag1) < Suc (length (dag_roots dag1))" by (simp add: oversize_def le_imp_less_Suc)
    from cap_loop_doc[OF d1 this, of owner cfg bs cov reds] obtain j2 r2 where
      k: "cap_loop (Suc (length (dag_roots dag1))) w owner cfg bs cov reds j1 dag1 = Some (j2, r2)"
      "\<And>dag2. r2 = Inr dag2 \<Longrightarrow> (\<exists>es2. dag_doc (hw_codec w) j2 es2 dag2) \<and> same_graph dag2 dag1
        \<and> (\<not> exceeds_hard_bound (cc_budget cfg) (projected_tokens bs cov dag2 reds (cc_overhead cfg)) \<or> oversize dag2 = [])"
      by auto
    show ?thesis
    proof (cases r2)
      case (Inl e)
      with c(1) Inr k(1) show ?thesis by (simp add: finish_plan_def reds_def)
    next
      case r2: (Inr dag2)
      have f: "finish_plan w owner cfg bs cov j dag =
          Some (j2, Inr \<lparr>co_folds = dag_folds dag2, co_covered = cov, co_reductions = reds\<rparr>)"
        using c(1) Inr k(1) r2 by (simp add: finish_plan_def reds_def)
      obtain es2 where d2: "dag_doc (hw_codec w) j2 es2 dag2" and sg: "same_graph dag2 dag1" using k(2)[OF r2] by blast
      have g: "graph_ok dag \<longrightarrow> graph_ok dag2 \<and> dag_covered dag2 = dag_covered dag"
        using c(2)[OF Inr] same_graph_ok[OF sg] same_graph_covered[OF sg] by simp
      have "fits cfg bs cov reds dag2 \<or> used_up bs cov reds dag2"
      proof (cases "exceeds_hard_bound (cc_budget cfg) (projected_tokens bs cov dag1 reds (cc_overhead cfg))")
        case True
        then have "candidates bs cov reds = []"
          using reduce_loop_done[of cfg bs cov dag1 fmempty] by (simp add: reds_def)
        then show ?thesis
          using k(2)[OF r2] oversize_Nil[of dag2] by (auto simp: fits_def used_up_def exceeds_hard_bound_def)
      next
        case False
        then have "dag2 = dag1" using k(1) r2 by simp
        with False show ?thesis by (simp add: fits_def exceeds_hard_bound_def)
      qed
      with f d2 g show ?thesis by (auto simp: planned_def reds_def)
    qed
  qed
qed

text \<open>The document a plan starts from.\<close>

definition plan_input :: "codec \<Rightarrow> journal \<Rightarrow> element_snapshot list \<Rightarrow> bool" where
  "plan_input c j es \<longleftrightarrow> journal_ok c j \<and> children (jn_snapshot j) SUMMARIES_CONTAINER = es \<and> ids_valid es
     \<and> ids_valid (children (jn_snapshot j) ''body'') \<and> length es < 2 ^ 30"

lemma plan_input_dag:
  assumes "plan_input c j es"
  shows "load_dag (jn_snapshot j) = Some (dag_of es)"
    and "get_visible_body (jn_snapshot j) = Some (children (jn_snapshot j) ''body'')"
    and "dg_unreadable (dag_of es) = 0 \<Longrightarrow> dag_doc c j es (dag_of es)"
proof -
  have ok: "journal_ok c j" and es: "children (jn_snapshot j) SUMMARIES_CONTAINER = es" and v: "ids_valid es"
    using assms by (simp_all add: plan_input_def)
  have k: "SUMMARIES_CONTAINER \<in> set ROOTS" "''body'' \<in> set ROOTS" by (simp_all add: ROOTS_def SUMMARIES_CONTAINER_def)
  show "load_dag (jn_snapshot j) = Some (dag_of es)" by (simp add: load_dag_def journal_container(2)[OF ok k(1)] es)
  show "get_visible_body (jn_snapshot j) = Some (children (jn_snapshot j) ''body'')"
    by (simp add: get_visible_body_def journal_container(3)[OF ok k(2)])
  show "dag_doc c j es (dag_of es)" if "dg_unreadable (dag_of es) = 0"
    using ok v that journal_container(1)[OF ok k(1)] by (simp add: dag_doc_def es same_graph_def)
qed

lemma plan_doc:
  assumes i: "plan_input (hw_codec w) j es"
  shows "\<exists>j' r bs. plan tx w owner cfg j = Some (j', r) \<and> collect_entries tx (jn_snapshot j) = Some bs \<and>
    (\<forall>co. r = Inr co \<longrightarrow>
       (if 0 < dg_unreadable (dag_of es)
        then j' = j \<and> co = \<lparr>co_folds = dag_folds (dag_of es), co_covered = dag_covered (dag_of es), co_reductions = fmempty\<rparr>
        else \<exists>ids dag. ids = plan_elision cfg bs (dag_covered (dag_of es))
                   (projected_tokens bs (dag_covered (dag_of es)) (dag_of es) fmempty (cc_overhead cfg))
          \<and> planned (hw_codec w) cfg bs (dag_covered (dag_of es) |\<union>| fset_of_list ids) dag j' co
          \<and> (graph_ok (dag_of es) \<longrightarrow> graph_ok dag \<and> dag_covered dag = dag_covered (dag_of es) |\<union>| fset_of_list ids)))"
proof -
  define dag where "dag = dag_of es"
  note pd = plan_input_dag[OF i]
  obtain bs where bs: "collect_entries tx (jn_snapshot j) = Some bs" by (simp add: collect_entries_def pd(2))
  define ids where "ids = plan_elision cfg bs (dag_covered dag) (projected_tokens bs (dag_covered dag) dag fmempty (cc_overhead cfg))"
  have p: "plan tx w owner cfg j =
      (if 0 < dg_unreadable dag
       then Some (j, Inr \<lparr>co_folds = dag_folds dag, co_covered = dag_covered dag, co_reductions = fmempty\<rparr>)
       else if ids = [] then finish_plan w owner cfg bs (dag_covered dag) j dag
       else (case commit_elision w owner j bs ids dag of
             None \<Rightarrow> None
           | Some (j1, Inl e) \<Rightarrow> Some (j1, Inl e)
           | Some (j1, Inr dag1) \<Rightarrow> finish_plan w owner cfg bs (dag_covered dag |\<union>| fset_of_list ids) j1 dag1))"
    unfolding plan_def bs pd(1) Let_def bind.bind_lunit dag_def[symmetric] ids_def by simp
  show ?thesis
  proof (cases "0 < dg_unreadable dag")
    case True
    with p bs show ?thesis by (simp add: dag_def)
  next
    case False
    then have d: "dag_doc (hw_codec w) j es dag" using pd(3) by (simp add: dag_def)
    have l: "length es < 2 ^ 30" using i by (simp add: plan_input_def)
    have roots: "length (dag_roots dag) \<le> length es"
      unfolding dag_def dag_roots_def dag_of_order by (metis length_filter_le length_map order_trans)
    show ?thesis
    proof (cases "ids = []")
      case True
      obtain j' r where "finish_plan w owner cfg bs (dag_covered dag) j dag = Some (j', r)"
        "\<And>co. r = Inr co \<Longrightarrow> planned (hw_codec w) cfg bs (dag_covered dag) dag j' co"
        using finish_plan_doc[OF d, of owner cfg bs "dag_covered dag"] roots l by fastforce
      then show ?thesis using p False True bs by (intro exI[of _ j'] exI[of _ r] exI[of _ bs]) (auto simp: dag_def ids_def)
    next
      case nonempty: False
      have "be_id ` set bs \<subseteq> el_id ` set (children (jn_snapshot j) ''body'')" using collect_entries_ids[OF bs pd(2)] .
      then have v: "list_all valid_id ids"
        using i plan_elision_spares[of _ cfg bs "dag_covered dag"]
        by (fastforce simp: list_all_iff ids_def plan_input_def ids_valid_def dest: in_set_takeD)
      note ce = commit_elision_doc[OF d _ v, of owner bs]
      show ?thesis
      proof (cases rule: ce)
        case 1
        then show ?case using l by simp
      next
        case (2 j1 e)
        with p False nonempty bs show ?thesis by (simp add: dag_def)
      next
        case (3 j1 dag1 es1)
        have "length es1 + length (dag_roots dag1) < 2 ^ 32"
        proof -
          have "dag_roots dag1 = dag_roots (dag_of es1)" using 3(2) same_graph_roots by (simp add: dag_doc_def)
          then have "length (dag_roots dag1) \<le> length es1"
            unfolding dag_roots_def dag_of_order by (metis length_filter_le length_map order_trans)
          then show ?thesis using 3(3) l by simp
        qed
        from finish_plan_doc[OF 3(2) this, of owner cfg bs "dag_covered dag |\<union>| fset_of_list ids"]
        obtain j' r where f: "finish_plan w owner cfg bs (dag_covered dag |\<union>| fset_of_list ids) j1 dag1 = Some (j', r)"
          "\<And>co. r = Inr co \<Longrightarrow> planned (hw_codec w) cfg bs (dag_covered dag |\<union>| fset_of_list ids) dag1 j' co" by blast
        show ?thesis
          by (intro exI[of _ j'] exI[of _ r] exI[of _ bs])
            (use f p False nonempty bs 3(1,4,5) in \<open>auto simp: dag_def ids_def\<close>)
      qed
    qed
  qed
qed

end
