(* ===== verification/CompactionClaims.thy ===== *)
theory CompactionClaims
  imports CompactionPlan HostSample
begin

text \<open>
  The properties of context compaction (\<open>omp-control/src/compaction.rs\<close>), with an instance on a
  session of two messages of which the first has to be left out.
\<close>

section \<open>A sample plan\<close>

definition tight_config :: compaction_config where
  "tight_config = \<lparr>cc_budget = \<lparr>bu_soft = 1000, bu_hard = 1\<rparr>, cc_keep = 2, cc_max_roots = 8, cc_overhead = 0\<rparr>"

lemma kinds: "list_all kind_byte ''user''" "list_all kind_byte SUMMARY_NODE_KIND"
  by code_simp+

lemma two_memos: "\<exists>j. sample_view j 2 (set ROOTS \<union> {''1-0'', ''2-0''}) [memo 1 ''hi'', memo 2 ''ok''] []"
proof -
  have ids: "show_nat (Suc 0) @ ''-0'' \<notin> set ROOTS" "show_nat (Suc (Suc 0)) @ ''-0'' \<notin> insert (show_nat (Suc 0) @ ''-0'') (set ROOTS)"
    using show_small by (simp_all add: ROOTS_def numeral_2_eq_2)
  obtain j1 where "sample_view j1 (Suc 0) (insert (show_nat (Suc 0) @ ''-0'') (set ROOTS)) ([] @ [memo (Suc 0) ''hi'']) []"
    using sample_message[OF sample_view_start _ _ ids(1), of "''hi''"] by auto
  from sample_message[OF this _ _ ids(2), of "''ok''"] show ?thesis
    using show_small by (auto simp: numeral_2_eq_2 insert_commute)
qed

definition sample_plan :: "journal \<Rightarrow> (journal \<times> (structured_error, compaction_outcome) result) option" where
  "sample_plan = plan plain_text plain_world ''host'' tight_config"

lemma sample_plan_elides:
  assumes v: "sample_view j 2 (set ROOTS \<union> {''1-0'', ''2-0''}) [memo 1 ''hi'', memo 2 ''ok''] []"
  shows "\<exists>j' co. sample_plan j = Some (j', Inr co) \<and> co_covered co = {|''1-0''|} \<and> co_reductions co = fmempty"
proof -
  have ok: "journal_ok plain_codec j" using v by (simp add: sample_view_def writable_def)
  define b1 where "b1 = plain_entry EntryUser ''user'' False (memo 1 ''hi'')"
  define b2 where "b2 = plain_entry EntryUser ''user'' False (memo 2 ''ok'')"
  have bs: "collect_entries plain_text (jn_snapshot j) = Some [b1, b2]"
    using journal_container(3)[OF ok, of "''body''"] v
    by (simp add: collect_entries_def get_visible_body_def ROOTS_def sample_view_def List.map_filter_simps entry_of_def b1_def b2_def)
  have dag: "load_dag (jn_snapshot j) = Some empty_dag"
    using journal_container(2)[OF ok, of SUMMARIES_CONTAINER] v
    by (simp add: load_dag_def ROOTS_def SUMMARIES_CONTAINER_def sample_view_def dag_of_def)
  have b: "be_id b1 = ''1-0''" "be_id b2 = ''2-0''" "entry_tokens b1 = 1" "entry_tokens b2 = 1" "eligible b1" "be_role b1 = EntryUser" "be_role b2 = EntryUser"
    "be_text b2 = 1"
    unfolding b1_def b2_def by code_simp+
  have e: "dag_covered empty_dag = {||}" by (rule fset_eqI) (simp add: dag_covered_iff empty_dag_def)
  have p: "projected_tokens [b1, b2] {||} empty_dag fmempty 0 = 2" "dg_unreadable empty_dag = 0"
    by (simp_all add: empty_dag_def projected_tokens_def reduced_cost_def b projection_tokens_def dag_roots_def)
  have pe: "plan_elision tight_config [b1, b2] {||} 2 = [''1-0'']"
    by (simp add: plan_elision_def tight_config_def should_trigger_def exceeds_hard_bound_def final_turn_boundary_def
        user_positions_def b hard_pass_def)
  define n where "n = \<lparr>sm_covered = [''1-0''], sm_children = [], sm_tokens = 1, sm_offset = 2\<rparr>"
  define inv where "inv = render_inventory [b1, b2] [''1-0'']"
  have inv: "length inv \<le> 100" unfolding inv_def b1_def b2_def by code_simp
  have why: "trim ''compact context (leaf)'' \<noteq> []" "length ''compact context (leaf)'' \<le> 4096" by code_simp+
  define x where "x = summary_element n ''sum-3-0'' Leaf inv"
  have ox: "op_ok (\<lambda>_. None) (Create ''summaries'' 0 x)"
    using kinds(2) inv
    by (simp add: x_def summary_element_def new_element_def MAX_OP_TEXT_BYTES_def MAX_WIRE_BYTES_def SUMMARY_NODE_KIND_def)
  have ix: "el_id x \<notin> set ROOTS \<union> {''1-0'', ''2-0''}" by (simp add: x_def summary_element_def new_element_def ROOTS_def)
  obtain j' where j': "host_append plain_world ''host'' j 2 ''compact context (leaf)''
      [Create ''summaries'' (count_u32 (jn_snapshot j) ''summaries'') x] = (j', Inr ())"
    using sample_insert[OF v _ ox ix why, of "''host''"] v by (auto simp: sample_view_def)
  have c: "container (jn_snapshot j) SUMMARIES_CONTAINER = Some ''summaries''"
    using journal_container(2)[OF ok, of SUMMARIES_CONTAINER] by (simp add: ROOTS_def SUMMARIES_CONTAINER_def)
  have m: "new_id (''sum-'' @ mint plain_world j 0) = Inr ''sum-3-0''"
  proof -
    have "mint plain_world j 0 = ''3-0''" using v show_small show_zero by (simp add: mint_def next_offset_def sample_view_def)
    moreover have "new_id ''sum-3-0'' = Inr ''sum-3-0''" by code_simp
    ultimately show ?thesis by simp
  qed
  have so: "ss_offset (jn_snapshot j) = 2" using v by (simp add: sample_view_def)
  have cn: "create_node plain_world ''host'' j n Leaf inv = Some (j', Inr ''sum-3-0'')"
    using j' unfolding create_node_def c Let_def m so x_def by simp
  define dag1 where "dag1 = empty_dag\<lparr>dg_order := [''sum-3-0''], dg_nodes := fmupd ''sum-3-0'' n fmempty, dg_texts := fmupd ''sum-3-0'' inv fmempty\<rparr>"
  have ce: "commit_elision plain_world ''host'' j [b1, b2] [''1-0''] empty_dag = Some (j', Inr dag1)"
    unfolding commit_elision_def Let_def so inv_def[symmetric]
    using cn[unfolded n_def] by (simp add: List.map_filter_simps b dag1_def n_def) (simp add: empty_dag_def)
  have r: "dag_roots dag1 = [''sum-3-0'']" by (simp add: dag_roots_def dag1_def empty_dag_def)
  have cl: "condense_loop (Suc (length (dag_roots dag1))) plain_world ''host'' 8 j' dag1 = Some (j', Inr dag1)"
    by (simp add: r)
  have "candidates [b1, b2] {|''1-0''|} fmempty = []"
    by (simp add: candidates_def b List.map_filter_simps next_reduction_def no_reduction_def TRUNCATED_BYTES_def)
  then have rl: "reduce_loop tight_config [b1, b2] {|''1-0''|} dag1 fmempty = fmempty"
    by (subst reduce_loop.simps) simp
  have "find (\<lambda>i. MAX_NODE_TEXT_BYTES < length (text_of dag1 i)) (dag_roots dag1) = None"
  proof -
    have "text_of dag1 ''sum-3-0'' = inv" by (simp add: text_of_def dag1_def)
    then show ?thesis using inv by (simp add: r MAX_NODE_TEXT_BYTES_def)
  qed
  then have kl: "cap_loop (Suc (length (dag_roots dag1))) plain_world ''host'' tight_config [b1, b2] {|''1-0''|} fmempty j' dag1
      = Some (j', Inr dag1)"
    by simp
  have mr: "cc_max_roots tight_config = 8" by (simp add: tight_config_def)
  have "finish_plan plain_world ''host'' tight_config [b1, b2] {|''1-0''|} j' dag1 =
      Some (j', Inr \<lparr>co_folds = dag_folds dag1, co_covered = {|''1-0''|}, co_reductions = fmempty\<rparr>)"
    unfolding finish_plan_def mr cl by (simp only: option.case sum.case prod.case Let_def rl kl)
  then have "sample_plan j = Some (j', Inr \<lparr>co_folds = dag_folds dag1, co_covered = {|''1-0''|}, co_reductions = fmempty\<rparr>)"
    unfolding sample_plan_def plan_def bs dag bind.bind_lunit Let_def e p using pe ce p
    by (simp add: tight_config_def)
  then show ?thesis by (auto simp del: plan_def)
qed

lemma sample_input: "sample_view j n U bs ss \<Longrightarrow> ids_valid bs \<Longrightarrow> ids_valid ss \<Longrightarrow> length ss < 2 ^ 30 \<Longrightarrow> plan_input plain_codec j ss"
  by (simp add: plan_input_def sample_view_def writable_def SUMMARIES_CONTAINER_def)

lemma memo_valid: "ids_valid [memo 1 m, memo 2 m']"
proof -
  have "valid_id ''1-0''" "valid_id ''2-0''" by code_simp+
  then show ?thesis using show_small by (simp add: ids_valid_def)
qed

section \<open>Properties\<close>

text \<open>
  C33: Planning always comes back.  On any well-formed journal whose summary and body elements have
  valid identifiers and which has fewer than 2^30 summary nodes, the planner returns an outcome or
  an error for every configuration, clock and disk: no loop of it runs on, and no accessor panics.
\<close>

theorem plan_returns:
  assumes "plan_input (hw_codec w) j es"
  shows "\<exists>j' r. plan tx w owner cfg j = Some (j', r)"
  using plan_doc[OF assms] by blast

theorem plan_returns_witness: "\<exists>j' r. plan plain_text plain_world ''host'' tight_config sample_journal = Some (j', r)"
proof -
  have "plan_input (hw_codec plain_world) sample_journal []"
    using sample_input[OF sample_view_start] by (simp add: ids_valid_def)
  from plan_returns[OF this] show ?thesis .
qed

text \<open>
  C32: A plan leaves out only completed history.  What an outcome covers is what the document's
  nodes covered before plus elements before the last user message that are neither pinned nor
  running, and nothing covered becomes uncovered; what it shortens is visible and is not an
  instruction.
\<close>

theorem plan_spares:
  assumes i: "plan_input (hw_codec w) j es" and p: "plan tx w owner cfg j = Some (j', Inr co)"
    and bs: "collect_entries tx (jn_snapshot j) = Some bs"
  shows "dag_covered (dag_of es) |\<subseteq>| co_covered co
    \<and> (\<forall>x. x |\<in>| co_covered co \<longrightarrow> x |\<in>| dag_covered (dag_of es)
         \<or> (\<exists>b\<in>set (take (final_turn_boundary bs) bs). be_id b = x \<and> \<not> be_pinned b \<and> \<not> be_flight b))
    \<and> (\<forall>x. x |\<in>| fmdom (co_reductions co) \<longrightarrow> x |\<notin>| co_covered co
         \<and> (\<exists>b\<in>set bs. be_id b = x \<and> be_role b \<noteq> EntryInstructions))"
proof (cases "0 < dg_unreadable (dag_of es)")
  case True
  with plan_doc[OF i, of tx owner cfg] p show ?thesis by auto
next
  case False
  define ids where "ids = plan_elision cfg bs (dag_covered (dag_of es))
      (projected_tokens bs (dag_covered (dag_of es)) (dag_of es) fmempty (cc_overhead cfg))"
  obtain dag where pl: "planned (hw_codec w) cfg bs (dag_covered (dag_of es) |\<union>| fset_of_list ids) dag j' co"
    using plan_doc[OF i, of tx owner cfg] p bs False by (auto simp: ids_def)
  then have cov: "co_covered co = dag_covered (dag_of es) |\<union>| fset_of_list ids"
    and red: "\<exists>dag1. co_reductions co = reduce_loop cfg bs (co_covered co) dag1 fmempty" by (auto simp: planned_def)
  have "\<exists>b\<in>set (take (final_turn_boundary bs) bs). be_id b = x \<and> \<not> be_pinned b \<and> \<not> be_flight b" if "x \<in> set ids" for x
    using plan_elision_spares[OF that[unfolded ids_def]] by (auto simp: eligible_def)
  moreover have "x |\<notin>| co_covered co \<and> (\<exists>b\<in>set bs. be_id b = x \<and> be_role b \<noteq> EntryInstructions)"
    if "x |\<in>| fmdom (co_reductions co)" for x
  proof -
    obtain dag1 where "co_reductions co = reduce_loop cfg bs (co_covered co) dag1 fmempty" using red by blast
    with that reduce_loop_spares[of x cfg bs "co_covered co" dag1 fmempty] show ?thesis by auto
  qed
  ultimately show ?thesis by (auto simp: cov fset_of_list.rep_eq)
qed

theorem plan_spares_witness:
  "\<exists>j j' co. plan plain_text plain_world ''host'' tight_config j = Some (j', Inr co) \<and> co_covered co = {|''1-0''|}
     \<and> (\<exists>bs. collect_entries plain_text (jn_snapshot j) = Some bs
          \<and> (\<exists>b\<in>set (take (final_turn_boundary bs) bs). be_id b = ''1-0'' \<and> \<not> be_pinned b))"
proof -
  obtain j where v: "sample_view j 2 (set ROOTS \<union> {''1-0'', ''2-0''}) [memo 1 ''hi'', memo 2 ''ok''] []" using two_memos by blast
  obtain j' co where p: "sample_plan j = Some (j', Inr co)" "co_covered co = {|''1-0''|}" using sample_plan_elides[OF v] by blast
  have i: "plan_input (hw_codec plain_world) j []" using sample_input[OF v memo_valid] by (simp add: ids_valid_def)
  obtain bs where bs: "collect_entries plain_text (jn_snapshot j) = Some bs"
    using plan_input_dag(2)[OF i] by (simp add: collect_entries_def)
  have "dag_covered (dag_of []) = {||}" by (rule fset_eqI) (simp add: dag_of_def dag_covered_iff empty_dag_def)
  then have "\<exists>b\<in>set (take (final_turn_boundary bs) bs). be_id b = ''1-0'' \<and> \<not> be_pinned b"
    using plan_spares[OF i p(1)[unfolded sample_plan_def] bs] p(2) by auto
  with p bs show ?thesis unfolding sample_plan_def by blast
qed

text \<open>The elements a fold stands for.\<close>

fun fold_elements :: "message_fold \<Rightarrow> nat" where
  "fold_elements (Handoff _ n _) = n"
| "fold_elements (Shake n _) = n"
| "fold_elements (RemoteState _ n) = n"

text \<open>
  C31: Compaction loses nothing.  If the summary nodes of the document form a well-formed graph
  (every child stored before its parent) then so do those after a plan; the document's nodes
  cover exactly what the outcome leaves out; every element left out is reached from a root; and
  the request shows one fold for each root, which counts what the root expands to.
\<close>

theorem plan_lossless:
  assumes i: "plan_input (hw_codec w) j es" and p: "plan tx w owner cfg j = Some (j', Inr co)" and g: "graph_ok (dag_of es)"
  shows "\<exists>dag. load_dag (jn_snapshot j') = Some dag \<and> graph_ok dag \<and> dag_covered dag = co_covered co
    \<and> (\<forall>x. x |\<in>| co_covered co \<longrightarrow> (\<exists>r\<in>set (dag_roots dag). x \<in> set (expand_covered (dg_nodes dag) r)))
    \<and> map fold_elements (co_folds co) = map (\<lambda>r. length (expand_covered (dg_nodes dag) r)) (dag_roots dag)"
proof -
  have folds: "map fold_elements (dag_folds d) = map (\<lambda>r. length (expand_covered (dg_nodes d) r)) (dag_roots d)" for d
    by (simp add: dag_folds_def comp_def)
  show ?thesis
  proof (cases "0 < dg_unreadable (dag_of es)")
    case True
    then have "j' = j" "co_folds co = dag_folds (dag_of es)" "co_covered co = dag_covered (dag_of es)"
      using plan_doc[OF i, of tx owner cfg] p by auto
    then show ?thesis using plan_input_dag(1)[OF i] g folds covered_under_root[OF g] by auto
  next
    case False
    then obtain bs ids dag where "planned (hw_codec w) cfg bs (dag_covered (dag_of es) |\<union>| fset_of_list ids) dag j' co"
      "graph_ok dag" "dag_covered dag = dag_covered (dag_of es) |\<union>| fset_of_list ids"
      using plan_doc[OF i, of tx owner cfg] p g by auto
    then obtain d2 es2 where d2: "dag_doc (hw_codec w) j' es2 d2" "co_folds co = dag_folds d2" "graph_ok d2"
      "dag_covered d2 = co_covered co" by (auto simp: planned_def)
    have sg: "same_graph d2 (dag_of es2)" using d2(1) by (simp add: dag_doc_def)
    have "graph_ok (dag_of es2)" "dag_covered (dag_of es2) = co_covered co"
      using same_graph_ok[OF sg] same_graph_covered[OF sg] d2(3,4) by simp_all
    then show ?thesis
      using load_dag_doc[OF d2(1)] d2(2) folds[of d2] covered_under_root[of "dag_of es2"] same_graph_roots[OF sg] same_graph_expand[OF sg]
      by auto
  qed
qed

lemma empty_graph_ok: "graph_ok (dag_of [])"
  by (simp add: graph_ok_def dag_of_def empty_dag_def later_children_def)

theorem plan_lossless_witness:
  "\<exists>j j' co dag. plan plain_text plain_world ''host'' tight_config j = Some (j', Inr co) \<and> load_dag (jn_snapshot j') = Some dag
     \<and> (\<exists>r\<in>set (dag_roots dag). ''1-0'' \<in> set (expand_covered (dg_nodes dag) r))"
proof -
  obtain j where v: "sample_view j 2 (set ROOTS \<union> {''1-0'', ''2-0''}) [memo 1 ''hi'', memo 2 ''ok''] []" using two_memos by blast
  obtain j' co where p: "sample_plan j = Some (j', Inr co)" "co_covered co = {|''1-0''|}" using sample_plan_elides[OF v] by blast
  have i: "plan_input (hw_codec plain_world) j []" using sample_input[OF v memo_valid] by (simp add: ids_valid_def)
  from plan_lossless[OF i p(1)[unfolded sample_plan_def] empty_graph_ok] p show ?thesis
    unfolding sample_plan_def by (metis finsertI1)
qed

text \<open>
  C34: The planner stops only when the request fits or nothing is left to take.  When the summary
  nodes are readable, either the projection of the outcome is within the hard bound, or no
  visible element has a shortening left and no text of a root exceeds the cap.
\<close>

theorem plan_fits_or_used_up:
  assumes i: "plan_input (hw_codec w) j es" and p: "plan tx w owner cfg j = Some (j', Inr co)"
    and bs: "collect_entries tx (jn_snapshot j) = Some bs" and r: "dg_unreadable (dag_of es) = 0"
  shows "\<exists>dag. co_folds co = dag_folds dag
    \<and> (projected_tokens bs (co_covered co) dag (co_reductions co) (cc_overhead cfg) \<le> bu_hard (cc_budget cfg)
       \<or> candidates bs (co_covered co) (co_reductions co) = []
         \<and> (\<forall>x\<in>set (dag_roots dag). length (text_of dag x) \<le> MAX_NODE_TEXT_BYTES))"
proof -
  obtain ids dag where "planned (hw_codec w) cfg bs (dag_covered (dag_of es) |\<union>| fset_of_list ids) dag j' co"
    using plan_doc[OF i, of tx owner cfg] p bs r by auto
  then obtain d2 where "co_folds co = dag_folds d2"
    "fits cfg bs (co_covered co) (co_reductions co) d2 \<or> used_up bs (co_covered co) (co_reductions co) d2"
    by (auto simp: planned_def)
  then show ?thesis unfolding fits_def used_up_def by blast
qed

theorem plan_fits_or_used_up_witness:
  "\<exists>j j' co bs dag. plan plain_text plain_world ''host'' tight_config j = Some (j', Inr co) \<and> co_folds co = dag_folds dag
    \<and> (projected_tokens bs (co_covered co) dag (co_reductions co) 0 \<le> 1 \<or> candidates bs (co_covered co) (co_reductions co) = [])"
proof -
  obtain j where v: "sample_view j 2 (set ROOTS \<union> {''1-0'', ''2-0''}) [memo 1 ''hi'', memo 2 ''ok''] []" using two_memos by blast
  obtain j' co where p: "sample_plan j = Some (j', Inr co)" using sample_plan_elides[OF v] by blast
  have i: "plan_input (hw_codec plain_world) j []" using sample_input[OF v memo_valid] by (simp add: ids_valid_def)
  obtain bs where bs: "collect_entries plain_text (jn_snapshot j) = Some bs"
    using plan_input_dag(2)[OF i] by (simp add: collect_entries_def)
  have "dg_unreadable (dag_of []) = 0" by (simp add: dag_of_def empty_dag_def)
  from plan_fits_or_used_up[OF i p[unfolded sample_plan_def] bs this] p show ?thesis
    unfolding sample_plan_def by (fastforce simp: tight_config_def)
qed

end
