(* ===== verification/Speculation.thy ===== *)
theory Speculation
  imports Summary
begin

text \<open>
  Speculative compaction (\<open>compaction.rs\<close> of crate \<open>omp-inference\<close>): a fold computed beside a
  running session is taken only if the session has not moved.  The clock is an argument.
\<close>

record compaction_snapshot =
  cs_branch :: branch_id
  cs_offset :: nat
  cs_tokens :: nat
  cs_threshold :: nat
  cs_created :: nat

definition create_snapshot :: "nat \<Rightarrow> branch_id \<Rightarrow> nat \<Rightarrow> nat \<Rightarrow> nat \<Rightarrow> compaction_snapshot" where
  "create_snapshot now branch offset current threshold =
     \<lparr>cs_branch = branch, cs_offset = offset, cs_tokens = current, cs_threshold = threshold, cs_created = now\<rparr>"

definition trigger_reached :: "nat \<Rightarrow> nat \<Rightarrow> bool" where
  "trigger_reached current threshold \<longleftrightarrow> threshold \<le> current"

definition validate_and_splice ::
  "compaction_snapshot \<Rightarrow> branch_id \<Rightarrow> nat \<Rightarrow> message_fold \<Rightarrow> (structured_error, message_fold) result" where
  "validate_and_splice sn branch offset candidate =
     (if branch \<noteq> cs_branch sn
      then Inl ((new_error ''compaction_branch_diverged''
          (''Speculative compaction for branch '' @ quoted (cs_branch sn) @ '' discarded because active branch switched to ''
           @ quoted branch) False)\<lparr>err_diagnostics := Some (JObject
             [(''current_branch'', JString branch), (''current_offset'', json_nat offset),
              (''snapshot_branch'', JString (cs_branch sn)), (''snapshot_offset'', json_nat (cs_offset sn))])\<rparr>)
      else if offset \<noteq> cs_offset sn
      then Inl ((new_error ''compaction_snapshot_changed''
          (''Speculative compaction base offset '' @ show_nat (cs_offset sn) @ '' differs from current offset ''
           @ show_nat offset) False)\<lparr>err_diagnostics := Some (JObject
             [(''branch_id'', JString branch), (''current_offset'', json_nat offset),
              (''snapshot_offset'', json_nat (cs_offset sn))])\<rparr>)
      else Inr candidate)"

definition is_stale :: "compaction_snapshot \<Rightarrow> branch_id \<Rightarrow> nat \<Rightarrow> bool" where
  "is_stale sn branch offset \<longleftrightarrow> branch \<noteq> cs_branch sn \<or> offset \<noteq> cs_offset sn"

definition discard_if_stale :: "compaction_snapshot \<Rightarrow> branch_id \<Rightarrow> nat \<Rightarrow> message_fold \<Rightarrow> message_fold option" where
  "discard_if_stale sn branch offset candidate = (if is_stale sn branch offset then None else Some candidate)"

lemma splice_iff_fresh:
  "validate_and_splice sn branch offset candidate = Inr f \<longleftrightarrow> discard_if_stale sn branch offset candidate = Some f"
  by (simp add: validate_and_splice_def discard_if_stale_def is_stale_def)

end
