(* ===== verification/Utf8.thy ===== *)
theory Utf8
  imports Summary
begin

text \<open>
  A UTF-8 string as the list of its characters, each a byte string: a first byte and the
  continuation bytes after it.  Strings of the model are any bytes; \<open>utf8\<close> says that each
  character has the length its first byte announces, which every Rust string satisfies.
\<close>

function utf8_chars :: "string \<Rightarrow> string list" where
  "utf8_chars [] = []"
| "utf8_chars (b # bs) = (b # takeWhile is_continuation bs) # utf8_chars (dropWhile is_continuation bs)"
  by pat_completeness auto
termination
proof (relation "measure length", goal_cases)
  case (2 b bs)
  have "length (dropWhile is_continuation bs) \<le> length bs" by (rule length_dropWhile_le)
  then show ?case by simp
qed simp

text \<open>The first byte says how long the character is.\<close>

definition utf8_len :: "char \<Rightarrow> nat" where
  "utf8_len b = (let x = byte_of b in if x < 128 then 1 else if x < 192 then 0 else if x < 224 then 2 else if x < 240 then 3 else 4)"

definition char_ok :: "string \<Rightarrow> bool" where
  "char_ok c \<longleftrightarrow> c \<noteq> [] \<and> list_all is_continuation (tl c) \<and> length c = utf8_len (hd c)"

definition utf8 :: "string \<Rightarrow> bool" where
  "utf8 s \<longleftrightarrow> list_all char_ok (utf8_chars s)"

text \<open>The scalar value of a character.\<close>

definition low6 :: "char \<Rightarrow> nat" where
  "low6 b = byte_of b mod 64"

fun scalar :: "string \<Rightarrow> nat" where
  "scalar [a] = byte_of a"
| "scalar [a, b] = byte_of a mod 32 * 64 + low6 b"
| "scalar [a, b, c] = byte_of a mod 16 * 4096 + low6 b * 64 + low6 c"
| "scalar [a, b, c, d] = byte_of a mod 8 * 262144 + low6 b * 4096 + low6 c * 64 + low6 d"
| "scalar _ = 0"

lemma concat_utf8_chars [simp]: "concat (utf8_chars s) = s"
  by (induction s rule: utf8_chars.induct) simp_all

lemma utf8_chars_nonempty: "c \<in> set (utf8_chars s) \<Longrightarrow> c \<noteq> []"
  by (induction s rule: utf8_chars.induct) auto

lemma char_ok_start: "char_ok c \<Longrightarrow> \<exists>b bs. c = b # bs \<and> \<not> is_continuation b \<and> list_all is_continuation bs"
  by (cases c) (auto simp: char_ok_def utf8_len_def is_continuation_def Let_def split: if_splits)

lemma utf8_chars_concat: "list_all char_ok cs \<Longrightarrow> utf8_chars (concat cs) = cs"
proof (induction cs)
  case (Cons c cs)
  then obtain b bs where c: "c = b # bs" "list_all is_continuation bs" using char_ok_start[of c] by auto
  have t: "takeWhile is_continuation (concat cs) = []" and d: "dropWhile is_continuation (concat cs) = concat cs"
    using Cons.prems char_ok_start by (cases cs; fastforce)+
  have all: "\<And>x. x \<in> set bs \<Longrightarrow> is_continuation x" using c(2) by (simp add: list_all_iff)
  have "takeWhile is_continuation (bs @ concat cs) = bs" "dropWhile is_continuation (bs @ concat cs) = concat cs"
    using takeWhile_append2[OF all, where ys = "concat cs"] dropWhile_append2[OF all, where ys = "concat cs"] t d by simp_all
  with Cons c show ?case by simp
qed simp

lemma utf8_concat: "list_all char_ok cs \<Longrightarrow> utf8 (concat cs)"
  by (simp add: utf8_def utf8_chars_concat)

lemma utf8_append: "utf8 s \<Longrightarrow> utf8 t \<Longrightarrow> utf8_chars (s @ t) = utf8_chars s @ utf8_chars t"
  using utf8_chars_concat[of "utf8_chars s @ utf8_chars t"] by (simp add: utf8_def)

lemma utf8_append_ok: "utf8 s \<Longrightarrow> utf8 t \<Longrightarrow> utf8 (s @ t)"
  using utf8_append[of s t] by (simp add: utf8_def)

lemma utf8_Nil [simp]: "utf8 []"
  by (simp add: utf8_def)

lemma utf8_ascii: "byte_of b < 128 \<Longrightarrow> char_ok [b]"
  by (simp add: char_ok_def utf8_len_def)

end
