(* ===== verification/RichText.thy ===== *)
theory RichText
  imports Utf8
begin

text \<open>
  Styled text for the terminal (\<open>richtext.rs\<close> of crate \<open>omp-render\<close>): sanitising, grapheme
  clusters and their width, runs of one style, splitting into lines and cutting to a width.
\<close>

section \<open>Styles\<close>

datatype semantic_color = ColInfo | ColMuted | ColWarning | ColError | ColSuccess | ColPrimary | ColAccent

datatype color = Semantic semantic_color | Rgb "8 word" "8 word" "8 word" | Ansi256 "8 word" | ColReset | ColDefault

record modifier =
  mo_bold :: bool
  mo_dim :: bool
  mo_italic :: bool
  mo_underline :: bool
  mo_inverse :: bool
  mo_strike :: bool

record style =
  sy_fg :: "color option"
  sy_bg :: "color option"
  sy_modifier :: modifier

definition no_modifier :: modifier where
  "no_modifier = \<lparr>mo_bold = False, mo_dim = False, mo_italic = False, mo_underline = False, mo_inverse = False,
     mo_strike = False\<rparr>"

definition new_style :: style where "new_style = \<lparr>sy_fg = None, sy_bg = None, sy_modifier = no_modifier\<rparr>"
definition style_fg :: "style \<Rightarrow> color \<Rightarrow> style" where "style_fg s c = s\<lparr>sy_fg := Some c\<rparr>"
definition style_bg :: "style \<Rightarrow> color \<Rightarrow> style" where "style_bg s c = s\<lparr>sy_bg := Some c\<rparr>"
definition semantic_style :: "semantic_color \<Rightarrow> style" where "semantic_style c = new_style\<lparr>sy_fg := Some (Semantic c)\<rparr>"
definition style_bold :: "style \<Rightarrow> style" where "style_bold s = s\<lparr>sy_modifier := (sy_modifier s)\<lparr>mo_bold := True\<rparr>\<rparr>"
definition style_dim :: "style \<Rightarrow> style" where "style_dim s = s\<lparr>sy_modifier := (sy_modifier s)\<lparr>mo_dim := True\<rparr>\<rparr>"
definition style_italic :: "style \<Rightarrow> style" where "style_italic s = s\<lparr>sy_modifier := (sy_modifier s)\<lparr>mo_italic := True\<rparr>\<rparr>"
definition style_underline :: "style \<Rightarrow> style" where
  "style_underline s = s\<lparr>sy_modifier := (sy_modifier s)\<lparr>mo_underline := True\<rparr>\<rparr>"
definition style_inverse :: "style \<Rightarrow> style" where "style_inverse s = s\<lparr>sy_modifier := (sy_modifier s)\<lparr>mo_inverse := True\<rparr>\<rparr>"
definition style_strike :: "style \<Rightarrow> style" where "style_strike s = s\<lparr>sy_modifier := (sy_modifier s)\<lparr>mo_strike := True\<rparr>\<rparr>"

section \<open>Sanitising\<close>

fun skip_csi :: "string list \<Rightarrow> string list" where
  "skip_csi [] = []"
| "skip_csi (c # cs) = (if 0x40 \<le> scalar c \<and> scalar c \<le> 0x7E then cs else skip_csi cs)"

text \<open>OSC, DCS, PM, APC and SOS end at BEL or ESC; a backslash after ESC belongs to the end.\<close>

fun skip_string :: "string list \<Rightarrow> string list" where
  "skip_string [] = []"
| "skip_string (c # cs) =
     (if scalar c = 7 then cs
      else if scalar c = 0x1B then (case cs of d # ds \<Rightarrow> if scalar d = 0x5C then ds else cs | [] \<Rightarrow> [])
      else skip_string cs)"

lemma skip_csi_length: "length (skip_csi cs) \<le> length cs"
  by (induction cs) auto

lemma skip_string_length: "length (skip_string cs) \<le> length cs"
  by (induction cs) (auto split: list.splits)

definition is_control :: "nat \<Rightarrow> bool" where
  "is_control u \<longleftrightarrow> u \<le> 0x1F \<or> 0x7F \<le> u \<and> u \<le> 0x9F"

definition is_bidi_override :: "nat \<Rightarrow> bool" where
  "is_bidi_override u \<longleftrightarrow> 0x202A \<le> u \<and> u \<le> 0x202E \<or> 0x2066 \<le> u \<and> u \<le> 0x2069"

definition kept_char :: "nat \<Rightarrow> bool" where
  "kept_char u \<longleftrightarrow> u \<in> {10, 13, 9} \<or> \<not> is_control u \<and> \<not> is_bidi_override u"

function sanitize_chars :: "string list \<Rightarrow> string list" where
  "sanitize_chars [] = []"
| "sanitize_chars (c # cs) =
     (if scalar c = 0x1B
      then (case cs of
          [] \<Rightarrow> []
        | d # ds \<Rightarrow>
            if scalar d = 0x5B then sanitize_chars (skip_csi ds)
            else if scalar d \<in> {0x5D, 0x50, 0x5E, 0x5F, 0x58} then sanitize_chars (skip_string ds)
            else sanitize_chars ds)
      else if kept_char (scalar c) then c # sanitize_chars cs
      else sanitize_chars cs)"
  by pat_completeness auto
termination
proof (relation "measure length", goal_cases)
  case (2 c cs d ds)
  then show ?case using skip_csi_length[of ds] by simp
next
  case (3 c cs d ds)
  then show ?case using skip_string_length[of ds] by simp
qed auto

definition sanitize_text :: "string \<Rightarrow> string" where
  "sanitize_text s = concat (sanitize_chars (utf8_chars s))"

section \<open>Clusters and widths\<close>

definition between :: "nat \<Rightarrow> nat \<Rightarrow> nat \<Rightarrow> bool" where
  "between a b u \<longleftrightarrow> a \<le> u \<and> u \<le> b"

definition is_extender :: "nat \<Rightarrow> bool" where
  "is_extender u \<longleftrightarrow> between 0x0300 0x036F u \<or> between 0x1AB0 0x1AFF u \<or> between 0x1DC0 0x1DFF u
     \<or> between 0x20D0 0x20FF u \<or> between 0xFE20 0xFE2F u \<or> between 0xFE00 0xFE0F u \<or> between 0xE0100 0xE01EF u
     \<or> between 0x1F3FB 0x1F3FF u \<or> between 0xE0020 0xE007F u \<or> u = 0x200D \<or> between 0x200B 0x200D u"

definition is_emoji_base :: "nat \<Rightarrow> bool" where
  "is_emoji_base u \<longleftrightarrow> between 0x1F300 0x1FAFF u \<or> between 0x1F000 0x1F02F u \<or> between 0x1F0A0 0x1F0FF u
     \<or> between 0x2600 0x26FF u \<or> between 0x2700 0x27BF u \<or> between 0x2B50 0x2B55 u \<or> between 0x231A 0x231B u
     \<or> between 0x23E9 0x23EC u \<or> between 0x23F0 0x23F3 u"

definition is_east_asian_wide :: "nat \<Rightarrow> bool" where
  "is_east_asian_wide u \<longleftrightarrow> between 0x1100 0x115F u \<or> between 0x2329 0x232A u \<or> between 0x2E80 0xA4CF u
     \<or> between 0xAC00 0xD7A3 u \<or> between 0xF900 0xFAFF u \<or> between 0xFE10 0xFE19 u \<or> between 0xFE30 0xFE6F u
     \<or> between 0xFF00 0xFF60 u \<or> between 0xFFE0 0xFFE6 u"

definition is_regional :: "nat \<Rightarrow> bool" where "is_regional u \<longleftrightarrow> between 0x1F1E6 0x1F1FF u"

definition ZWJ :: nat where "ZWJ = 0x200D"
definition VS16 :: nat where "VS16 = 0xFE0F"

definition cluster_width :: "string list \<Rightarrow> nat" where
  "cluster_width cl =
     (case cl of
        [] \<Rightarrow> 0
      | c # _ \<Rightarrow>
          let u = scalar c in
          if is_control u \<or> between 0x200B 0x200D u \<or> u = 0xFEFF then 0
          else if is_regional u then (if 2 \<le> length (filter (\<lambda>c. is_regional (scalar c)) cl) then 2 else 1)
          else if is_emoji_base u \<or> VS16 \<in> scalar ` set cl \<or> ZWJ \<in> scalar ` set cl then 2
          else if is_east_asian_wide u then 2
          else 1)"

text \<open>
  The inner loop of \<open>grapheme_clusters\<close>: what belongs to the cluster that has been started, and
  the rest.
\<close>

fun extend_cluster :: "string list \<Rightarrow> string list \<times> string list" where
  "extend_cluster [] = ([], [])"
| "extend_cluster (c # cs) =
     (if scalar c = ZWJ
      then (case cs of
          [] \<Rightarrow> ([c], [])
        | d # ds \<Rightarrow> (case extend_cluster ds of (es, rest) \<Rightarrow> (c # d # es, rest)))
      else if is_extender (scalar c) then (case extend_cluster cs of (es, rest) \<Rightarrow> (c # es, rest))
      else ([], c # cs))"

lemma extend_cluster_parts: "extend_cluster cs = (es, rest) \<Longrightarrow> es @ rest = cs"
  by (induction cs arbitrary: es rest rule: extend_cluster.induct) (auto split: if_splits prod.splits list.splits)

text \<open>A cluster starts with one character, or with two regional indicators.\<close>

definition cluster_start :: "string list \<Rightarrow> string list \<times> string list" where
  "cluster_start cs =
     (case cs of
        c # d # ds \<Rightarrow> if is_regional (scalar c) \<and> is_regional (scalar d) then ([c, d], ds) else ([c], d # ds)
      | _ \<Rightarrow> (cs, []))"

lemma cluster_start_parts: "cluster_start cs = (b, rest) \<Longrightarrow> b @ rest = cs \<and> (cs \<noteq> [] \<longrightarrow> b \<noteq> [])"
  by (auto simp: cluster_start_def split: list.splits if_splits)

definition next_cluster :: "string list \<Rightarrow> string list \<times> string list" where
  "next_cluster cs = (let (b, r) = cluster_start cs; (es, rest) = extend_cluster r in (b @ es, rest))"

lemma next_cluster_parts: "next_cluster cs = (g, rest) \<Longrightarrow> g @ rest = cs \<and> (cs \<noteq> [] \<longrightarrow> g \<noteq> [])"
  unfolding next_cluster_def Let_def
  by (auto split: prod.splits dest!: cluster_start_parts extend_cluster_parts)

function clusters :: "string list \<Rightarrow> string list list" where
  "clusters cs = (if cs = [] then [] else fst (next_cluster cs) # clusters (snd (next_cluster cs)))"
  by pat_completeness auto
termination
proof (relation "measure length", goal_cases)
  case (2 cs)
  obtain g rest where n: "next_cluster cs = (g, rest)" by force
  from next_cluster_parts[OF n] 2 have "cs = g @ rest" "g \<noteq> []" by auto
  then have "length rest < length cs" by simp
  with n show ?case by simp
qed simp

declare clusters.simps [simp del]

definition grapheme_clusters :: "string \<Rightarrow> string list" where
  "grapheme_clusters s = map concat (clusters (utf8_chars s))"

definition grapheme_cluster_width :: "string \<Rightarrow> nat" where
  "grapheme_cluster_width g = cluster_width (utf8_chars g)"

definition str_visible_width :: "string \<Rightarrow> nat" where
  "str_visible_width s = sum_list (map grapheme_cluster_width (grapheme_clusters s))"

section \<open>Rich text\<close>

record run =
  rn_style :: style
  rn_text :: string

type_synonym rich_text = "run list"

definition new_run :: "style \<Rightarrow> string \<Rightarrow> run" where
  "new_run sty s = \<lparr>rn_style = sty, rn_text = sanitize_text s\<rparr>"

definition run_width :: "run \<Rightarrow> nat" where "run_width r = str_visible_width (rn_text r)"

definition push_text :: "rich_text \<Rightarrow> style \<Rightarrow> string \<Rightarrow> rich_text" where
  "push_text rs sty s =
     (let t = sanitize_text s in
      if t = [] then rs
      else if rs \<noteq> [] \<and> rn_style (last rs) = sty
      then butlast rs @ [(last rs)\<lparr>rn_text := rn_text (last rs) @ t\<rparr>]
      else rs @ [\<lparr>rn_style = sty, rn_text = t\<rparr>])"

definition push_plain :: "rich_text \<Rightarrow> string \<Rightarrow> rich_text" where "push_plain rs s = push_text rs new_style s"

definition push_semantic :: "rich_text \<Rightarrow> semantic_color \<Rightarrow> string \<Rightarrow> rich_text" where
  "push_semantic rs c s = push_text rs (semantic_style c) s"

definition from_plain :: "string \<Rightarrow> rich_text" where "from_plain s = push_plain [] s"
definition from_styled :: "style \<Rightarrow> string \<Rightarrow> rich_text" where "from_styled sty s = push_text [] sty s"
definition from_semantic :: "semantic_color \<Rightarrow> string \<Rightarrow> rich_text" where "from_semantic c s = push_semantic [] c s"

definition rich_empty :: "rich_text \<Rightarrow> bool" where "rich_empty rs \<longleftrightarrow> list_all (\<lambda>r. rn_text r = []) rs"
definition plain_of :: "rich_text \<Rightarrow> string" where "plain_of rs = concat (map rn_text rs)"
definition rich_width :: "rich_text \<Rightarrow> nat" where "rich_width rs = sum_list (map run_width rs)"

text \<open>\<open>str::split\<close> at line feeds; the result is never empty.\<close>

fun split_nl :: "string \<Rightarrow> string list" where
  "split_nl [] = [[]]"
| "split_nl (c # cs) =
     (if c = CHR 0x0A then [] # split_nl cs
      else (case split_nl cs of p # ps \<Rightarrow> (c # p) # ps | [] \<Rightarrow> [[c]]))"

fun split_run :: "style \<Rightarrow> string list \<Rightarrow> rich_text list \<Rightarrow> rich_text \<Rightarrow> rich_text list \<times> rich_text" where
  "split_run sty [] ls cur = (ls, cur)"
| "split_run sty (p # ps) ls cur =
     (let cur1 = (if p = [] then cur else push_text cur sty p)
      in if ps = [] then (ls, cur1) else split_run sty ps (ls @ [cur1]) [])"

definition rich_split_lines :: "rich_text \<Rightarrow> rich_text list" where
  "rich_split_lines rs =
     (case fold (\<lambda>r (ls, cur). split_run (rn_style r) (split_nl (rn_text r)) ls cur) rs ([], []) of
        (ls, cur) \<Rightarrow> ls @ [cur])"

text \<open>The clusters of a run within the budget that is left; whether the budget was exceeded.\<close>

fun take_clusters :: "nat \<Rightarrow> nat \<Rightarrow> string list \<Rightarrow> string \<Rightarrow> string \<times> nat \<times> bool" where
  "take_clusters budget acc [] buf = (buf, acc, False)"
| "take_clusters budget acc (g # gs) buf =
     (if budget < acc + grapheme_cluster_width g then (buf, acc, True)
      else take_clusters budget (acc + grapheme_cluster_width g) gs (buf @ g))"

definition push_nonempty :: "rich_text \<Rightarrow> style \<Rightarrow> string \<Rightarrow> rich_text" where
  "push_nonempty rs sty s = (if s = [] then rs else push_text rs sty s)"

fun truncate_runs :: "nat \<Rightarrow> string \<Rightarrow> nat \<Rightarrow> run list \<Rightarrow> rich_text \<Rightarrow> rich_text" where
  "truncate_runs budget ell acc [] out = push_nonempty out new_style ell"
| "truncate_runs budget ell acc (r # rs) out =
     (case take_clusters budget acc (grapheme_clusters (rn_text r)) [] of
        (buf, acc', True) \<Rightarrow> push_nonempty (push_nonempty out (rn_style r) buf) (rn_style r) ell
      | (buf, acc', False) \<Rightarrow> truncate_runs budget ell acc' rs (push_nonempty out (rn_style r) buf))"

definition truncate_width :: "rich_text \<Rightarrow> nat \<Rightarrow> string option \<Rightarrow> rich_text" where
  "truncate_width rs max_width ellipsis =
     (if rich_width rs \<le> max_width then rs
      else let ell = (case ellipsis of Some e \<Rightarrow> e | None \<Rightarrow> [])
           in truncate_runs (max_width - str_visible_width ell) ell 0 rs [])"

end
