(* ===== verification/Editor.thy ===== *)
theory Editor
  imports RichText Compaction "HOL-Library.Monad_Syntax"
begin

text \<open>
  The input line editor (\<open>editor.rs\<close> of crate \<open>omp-cli\<close>, without the palette): the text with its
  byte cursor, history recall, the key handlers and the soft-wrapped view.  The text is a UTF-8
  byte string, so a slice that is not at character boundaries panics: every operation returns
  \<open>None\<close> where the code would panic.  The grapheme segmentation (crate
  \<open>unicode_segmentation\<close>) and the display width of a grapheme (crate \<open>unicode_width\<close>) are the
  parameters \<open>G\<close> and \<open>W\<close>.
\<close>

definition MAX_HISTORY_ENTRIES :: nat where "MAX_HISTORY_ENTRIES = 200"
definition MAX_BUFFER_BYTES :: nat where "MAX_BUFFER_BYTES = 65536"

section \<open>Strings\<close>

abbreviation CRET :: char where "CRET \<equiv> CHR 0x0D"
abbreviation TAB :: char where "TAB \<equiv> CHR 0x09"

text \<open>Slicing, draining and inserting by byte offsets.\<close>

definition str_slice :: "nat \<Rightarrow> nat \<Rightarrow> string \<Rightarrow> string option" where
  "str_slice a b s = (if a \<le> b \<and> is_boundary s a \<and> is_boundary s b then Some (take (b - a) (drop a s)) else None)"

definition str_to :: "nat \<Rightarrow> string \<Rightarrow> string option" where "str_to b s = str_slice 0 b s"
definition str_from :: "nat \<Rightarrow> string \<Rightarrow> string option" where "str_from a s = str_slice a (length s) s"

definition str_drain :: "nat \<Rightarrow> nat \<Rightarrow> string \<Rightarrow> string option" where
  "str_drain a b s = (if a \<le> b \<and> is_boundary s a \<and> is_boundary s b then Some (take a s @ drop b s) else None)"

definition str_insert :: "nat \<Rightarrow> string \<Rightarrow> string \<Rightarrow> string option" where
  "str_insert i t s = (if is_boundary s i then Some (take i s @ t @ drop i s) else None)"

definition find_nl :: "string \<Rightarrow> nat option" where
  "find_nl s = (let n = length (takeWhile (\<lambda>c. c \<noteq> CHR 0x0A) s) in if n < length s then Some n else None)"

definition rfind_nl :: "string \<Rightarrow> nat option" where
  "rfind_nl s = map_option (\<lambda>n. length s - 1 - n) (find_nl (rev s))"

text \<open>The start of the line that ends with this text, and \<open>char_indices\<close>, \<open>grapheme_indices\<close>.\<close>

definition line_start :: "string \<Rightarrow> nat" where
  "line_start before = (case rfind_nl before of Some i \<Rightarrow> i + 1 | None \<Rightarrow> 0)"

fun indices :: "nat \<Rightarrow> string list \<Rightarrow> (nat \<times> string) list" where
  "indices i [] = []"
| "indices i (p # ps) = (i, p) # indices (i + length p) ps"

definition is_white :: "string \<Rightarrow> bool" where "is_white c \<longleftrightarrow> white_len c \<noteq> 0"

fun normalize_chars :: "string list \<Rightarrow> string list" where
  "normalize_chars [] = []"
| "normalize_chars (c # cs) =
     (if c = [CRET]
      then [CHR 0x0A] # (case cs of
          [] \<Rightarrow> []
        | d # ds \<Rightarrow> if d = [CHR 0x0A] then normalize_chars ds else normalize_chars cs)
      else if c = [TAB] then replicate 4 '' '' @ normalize_chars cs
      else c # normalize_chars cs)"

definition sanitize_and_normalize :: "string \<Rightarrow> string" where
  "sanitize_and_normalize s = sanitize_text (concat (normalize_chars (utf8_chars s)))"

fun budget_boundary :: "nat \<Rightarrow> (nat \<times> string) list \<Rightarrow> nat \<Rightarrow> nat" where
  "budget_boundary limit [] boundary = boundary"
| "budget_boundary limit ((i, g) # gs) boundary =
     (if limit < i + length g then boundary else budget_boundary limit gs (i + length g))"

definition truncate_to_grapheme_budget :: "(string \<Rightarrow> string list) \<Rightarrow> string \<Rightarrow> nat \<Rightarrow> string option" where
  "truncate_to_grapheme_budget G s limit =
     (if length s \<le> limit then Some s
      else str_to (budget_boundary limit (indices 0 (G s)) 0) s)"

section \<open>The editor\<close>

record editor =
  ed_text :: string
  ed_cursor :: nat
  ed_history :: "string list"
  ed_index :: "nat option"
  ed_draft :: string

definition new_editor :: editor where
  "new_editor = \<lparr>ed_text = [], ed_cursor = 0, ed_history = [], ed_index = None, ed_draft = []\<rparr>"

fun nearest_boundary :: "nat \<Rightarrow> (nat \<times> string) list \<Rightarrow> nat \<Rightarrow> nat" where
  "nearest_boundary cursor [] nearest = nearest"
| "nearest_boundary cursor ((i, g) # gs) nearest =
     (if i = cursor then cursor else if cursor < i then nearest else nearest_boundary cursor gs i)"

definition clamp_cursor :: "(string \<Rightarrow> string list) \<Rightarrow> editor \<Rightarrow> editor" where
  "clamp_cursor G e =
     (if length (ed_text e) \<le> ed_cursor e then e\<lparr>ed_cursor := length (ed_text e)\<rparr>
      else e\<lparr>ed_cursor := nearest_boundary (ed_cursor e) (indices 0 (G (ed_text e))) 0\<rparr>)"

fun forward_boundary :: "nat \<Rightarrow> nat \<Rightarrow> (nat \<times> string) list \<Rightarrow> nat" where
  "forward_boundary cursor len [] = len"
| "forward_boundary cursor len ((i, g) # gs) =
     (if i = cursor then cursor else if cursor < i + length g then i + length g else forward_boundary cursor len gs)"

definition clamp_cursor_forward :: "(string \<Rightarrow> string list) \<Rightarrow> editor \<Rightarrow> editor" where
  "clamp_cursor_forward G e =
     (if length (ed_text e) \<le> ed_cursor e then e\<lparr>ed_cursor := length (ed_text e)\<rparr>
      else e\<lparr>ed_cursor := forward_boundary (ed_cursor e) (length (ed_text e)) (indices 0 (G (ed_text e)))\<rparr>)"

definition set_text :: "(string \<Rightarrow> string list) \<Rightarrow> editor \<Rightarrow> string \<Rightarrow> editor option" where
  "set_text G e s =
     (let t = sanitize_and_normalize s in do {
        bounded \<leftarrow> (if MAX_BUFFER_BYTES < length t then truncate_to_grapheme_budget G t MAX_BUFFER_BYTES else Some t);
        Some ((clamp_cursor G (e\<lparr>ed_text := bounded, ed_cursor := length bounded\<rparr>))\<lparr>ed_index := None\<rparr>)
      })"

definition insert_text :: "(string \<Rightarrow> string list) \<Rightarrow> editor \<Rightarrow> string \<Rightarrow> (editor \<times> bool) option" where
  "insert_text G e s =
     (if s = [] then Some (e, False)
      else let t = sanitize_and_normalize s in
        if t = [] then Some (e, False)
        else if MAX_BUFFER_BYTES < length (ed_text e) + length t then Some (e, False)
        else let e1 = clamp_cursor G e in do {
          text \<leftarrow> str_insert (ed_cursor e1) t (ed_text e1);
          Some ((clamp_cursor_forward G (e1\<lparr>ed_text := text, ed_cursor := ed_cursor e1 + length t\<rparr>))\<lparr>ed_index := None\<rparr>, True)
        })"

definition clear_text :: "editor \<Rightarrow> editor" where
  "clear_text e = e\<lparr>ed_text := [], ed_cursor := 0, ed_index := None, ed_draft := []\<rparr>"

definition remember :: "string list \<Rightarrow> string \<Rightarrow> string list" where
  "remember h s =
     (if h \<noteq> [] \<and> last h = s then h
      else (if MAX_HISTORY_ENTRIES \<le> length h then tl h else h) @ [s])"

definition submit_text :: "editor \<Rightarrow> editor \<times> string option" where
  "submit_text e =
     (if trim (ed_text e) = [] then (e, None)
      else (\<lparr>ed_text = [], ed_cursor = 0, ed_history = remember (ed_history e) (ed_text e), ed_index = None, ed_draft = []\<rparr>,
            Some (ed_text e)))"

section \<open>Moving\<close>

text \<open>The last boundary before the cursor.\<close>

fun prev_boundary :: "nat \<Rightarrow> (nat \<times> string) list \<Rightarrow> nat \<Rightarrow> nat" where
  "prev_boundary cursor [] prev = prev"
| "prev_boundary cursor ((i, g) # gs) prev = (if cursor \<le> i then prev else prev_boundary cursor gs i)"

fun next_boundary :: "nat \<Rightarrow> nat \<Rightarrow> (nat \<times> string) list \<Rightarrow> nat" where
  "next_boundary cursor len [] = len"
| "next_boundary cursor len ((i, g) # gs) =
     (if cursor < i then i else if i = cursor then i + length g else next_boundary cursor len gs)"

definition move_grapheme_backward :: "(string \<Rightarrow> string list) \<Rightarrow> editor \<Rightarrow> editor \<times> bool" where
  "move_grapheme_backward G e =
     (let e1 = clamp_cursor G e in
      if ed_cursor e1 = 0 then (e1, False)
      else (e1\<lparr>ed_cursor := prev_boundary (ed_cursor e1) (indices 0 (G (ed_text e1))) 0\<rparr>, True))"

definition move_grapheme_forward :: "(string \<Rightarrow> string list) \<Rightarrow> editor \<Rightarrow> editor \<times> bool" where
  "move_grapheme_forward G e =
     (let e1 = clamp_cursor G e in
      if length (ed_text e1) \<le> ed_cursor e1 then (e1, False)
      else (e1\<lparr>ed_cursor := next_boundary (ed_cursor e1) (length (ed_text e1)) (indices 0 (G (ed_text e1)))\<rparr>, True))"

text \<open>The start of the word before; the characters come last first.\<close>

fun word_back :: "bool \<Rightarrow> (nat \<times> string) list \<Rightarrow> nat" where
  "word_back in_word [] = 0"
| "word_back in_word ((i, c) # cs) =
     (if is_white c then (if in_word then i + length c else word_back in_word cs) else word_back True cs)"

definition word_start :: "string \<Rightarrow> nat" where
  "word_start before = word_back False (rev (indices 0 (utf8_chars before)))"

fun word_forward :: "nat \<Rightarrow> nat \<Rightarrow> bool \<Rightarrow> (nat \<times> string) list \<Rightarrow> nat" where
  "word_forward cursor len skipped [] = len"
| "word_forward cursor len skipped ((i, c) # cs) =
     (if is_white c then (if skipped then cursor + i else word_forward cursor len skipped cs)
      else word_forward cursor len True cs)"

definition move_word_backward :: "(string \<Rightarrow> string list) \<Rightarrow> editor \<Rightarrow> (editor \<times> bool) option" where
  "move_word_backward G e =
     (let e1 = clamp_cursor G e in
      if ed_cursor e1 = 0 then Some (e1, False)
      else do {
        before \<leftarrow> str_to (ed_cursor e1) (ed_text e1);
        (let target = word_start before in
         if ed_cursor e1 \<noteq> target then Some (clamp_cursor G (e1\<lparr>ed_cursor := target\<rparr>), True)
         else Some (e1, False))
      })"

definition move_word_forward :: "(string \<Rightarrow> string list) \<Rightarrow> editor \<Rightarrow> (editor \<times> bool) option" where
  "move_word_forward G e =
     (let e1 = clamp_cursor G e in
      if length (ed_text e1) \<le> ed_cursor e1 then Some (e1, False)
      else do {
        after \<leftarrow> str_from (ed_cursor e1) (ed_text e1);
        (let target = word_forward (ed_cursor e1) (length (ed_text e1)) False (indices 0 (utf8_chars after)) in
         if ed_cursor e1 \<noteq> target then Some (clamp_cursor G (e1\<lparr>ed_cursor := target\<rparr>), True)
         else Some (e1, False))
      })"

definition move_to_line_start :: "(string \<Rightarrow> string list) \<Rightarrow> editor \<Rightarrow> (editor \<times> bool) option" where
  "move_to_line_start G e =
     (let e1 = clamp_cursor G e in do {
        before \<leftarrow> str_to (ed_cursor e1) (ed_text e1);
        (let c = line_start before in
         if ed_cursor e1 \<noteq> c then Some (e1\<lparr>ed_cursor := c\<rparr>, True) else Some (e1, False))
      })"

definition move_to_line_end :: "(string \<Rightarrow> string list) \<Rightarrow> editor \<Rightarrow> (editor \<times> bool) option" where
  "move_to_line_end G e =
     (let e1 = clamp_cursor G e in do {
        after \<leftarrow> str_from (ed_cursor e1) (ed_text e1);
        (let c = (case find_nl after of Some i \<Rightarrow> ed_cursor e1 + i | None \<Rightarrow> length (ed_text e1)) in
         if ed_cursor e1 \<noteq> c then Some (e1\<lparr>ed_cursor := c\<rparr>, True) else Some (e1, False))
      })"

section \<open>Deleting\<close>

definition delete_grapheme_backward :: "(string \<Rightarrow> string list) \<Rightarrow> editor \<Rightarrow> (editor \<times> bool) option" where
  "delete_grapheme_backward G e =
     (let e1 = clamp_cursor G e in
      if ed_cursor e1 = 0 then Some (e1, False)
      else let prev = prev_boundary (ed_cursor e1) (indices 0 (G (ed_text e1))) 0 in do {
        text \<leftarrow> str_drain prev (ed_cursor e1) (ed_text e1);
        Some (e1\<lparr>ed_text := text, ed_cursor := prev, ed_index := None\<rparr>, True)
      })"

definition delete_grapheme_forward :: "(string \<Rightarrow> string list) \<Rightarrow> editor \<Rightarrow> (editor \<times> bool) option" where
  "delete_grapheme_forward G e =
     (let e1 = clamp_cursor G e in
      if length (ed_text e1) \<le> ed_cursor e1 then Some (e1, False)
      else do {
        after \<leftarrow> str_from (ed_cursor e1) (ed_text e1);
        (let len = (case G after of g # _ \<Rightarrow> length g | [] \<Rightarrow> 0) in
         if 0 < len
         then do {
           text \<leftarrow> str_drain (ed_cursor e1) (ed_cursor e1 + len) (ed_text e1);
           Some (e1\<lparr>ed_text := text, ed_index := None\<rparr>, True)
         }
         else Some (e1, False))
      })"

definition kill_to_line_start :: "(string \<Rightarrow> string list) \<Rightarrow> editor \<Rightarrow> (editor \<times> bool) option" where
  "kill_to_line_start G e =
     (let e1 = clamp_cursor G e in do {
        before \<leftarrow> str_to (ed_cursor e1) (ed_text e1);
        (let start = line_start before in
         if start < ed_cursor e1
         then do {
           text \<leftarrow> str_drain start (ed_cursor e1) (ed_text e1);
           Some (e1\<lparr>ed_text := text, ed_cursor := start, ed_index := None\<rparr>, True)
         }
         else if 0 < start \<and> ed_cursor e1 = start
         then do {
           text \<leftarrow> str_drain (start - 1) start (ed_text e1);
           Some (e1\<lparr>ed_text := text, ed_cursor := start - 1, ed_index := None\<rparr>, True)
         }
         else Some (e1, False))
      })"

definition kill_to_line_end :: "(string \<Rightarrow> string list) \<Rightarrow> editor \<Rightarrow> (editor \<times> bool) option" where
  "kill_to_line_end G e =
     (let e1 = clamp_cursor G e in
      if length (ed_text e1) \<le> ed_cursor e1 then Some (e1, False)
      else do {
        after \<leftarrow> str_from (ed_cursor e1) (ed_text e1);
        (let end_offset = (case find_nl after of Some i \<Rightarrow> i | None \<Rightarrow> length after);
             n = (if 0 < end_offset then end_offset else 1) in do {
           text \<leftarrow> str_drain (ed_cursor e1) (ed_cursor e1 + n) (ed_text e1);
           Some (e1\<lparr>ed_text := text, ed_index := None\<rparr>, True)
         })
      })"

definition delete_word_backward :: "(string \<Rightarrow> string list) \<Rightarrow> editor \<Rightarrow> (editor \<times> bool) option" where
  "delete_word_backward G e =
     (let e1 = clamp_cursor G e in
      if ed_cursor e1 = 0 then Some (e1, False)
      else do {
        before \<leftarrow> str_to (ed_cursor e1) (ed_text e1);
        (let target = word_start before in
         if target < ed_cursor e1
         then do {
           text \<leftarrow> str_drain target (ed_cursor e1) (ed_text e1);
           Some (e1\<lparr>ed_text := text, ed_cursor := target, ed_index := None\<rparr>, True)
         }
         else Some (e1, False))
      })"

section \<open>Lines and history\<close>

text \<open>Recalling a history entry puts the cursor at its end.\<close>

definition recall :: "editor \<Rightarrow> nat \<Rightarrow> editor option" where
  "recall e i =
     (if i < length (ed_history e)
      then Some (e\<lparr>ed_index := Some i, ed_text := ed_history e ! i, ed_cursor := length (ed_history e ! i)\<rparr>)
      else None)"

definition handle_up :: "(string \<Rightarrow> string list) \<Rightarrow> editor \<Rightarrow> (editor \<times> bool) option" where
  "handle_up G e =
     (let e1 = clamp_cursor G e in do {
        before \<leftarrow> str_to (ed_cursor e1) (ed_text e1);
        (case rfind_nl before of
           Some prev_nl \<Rightarrow> do {
             line \<leftarrow> str_slice (prev_nl + 1) (ed_cursor e1) (ed_text e1);
             upto \<leftarrow> str_to prev_nl (ed_text e1);
             (let above = line_start upto in do {
                line_above \<leftarrow> str_slice above prev_nl (ed_text e1);
                Some (e1\<lparr>ed_cursor := above + length (concat (take (length (G line)) (G line_above)))\<rparr>, True)
              })
           }
         | None \<Rightarrow>
             if ed_history e1 = [] then Some (e1, False)
             else (case ed_index e1 of
                 None \<Rightarrow> do {
                   e2 \<leftarrow> recall (e1\<lparr>ed_draft := ed_text e1\<rparr>) (length (ed_history e1) - 1);
                   Some (e2, True)
                 }
               | Some i \<Rightarrow>
                   if 0 < i then do { e2 \<leftarrow> recall e1 (i - 1); Some (e2, True) } else Some (e1, False)))
      })"

definition handle_down :: "(string \<Rightarrow> string list) \<Rightarrow> editor \<Rightarrow> (editor \<times> bool) option" where
  "handle_down G e =
     (let e1 = clamp_cursor G e in do {
        after \<leftarrow> str_from (ed_cursor e1) (ed_text e1);
        (case find_nl after of
           Some next_nl \<Rightarrow>
             (let next = ed_cursor e1 + next_nl + 1 in do {
                before \<leftarrow> str_to (ed_cursor e1) (ed_text e1);
                line \<leftarrow> str_slice (line_start before) (ed_cursor e1) (ed_text e1);
                rest \<leftarrow> str_from next (ed_text e1);
                (let next_end = (case find_nl rest of Some i \<Rightarrow> next + i | None \<Rightarrow> length (ed_text e1)) in do {
                   next_line \<leftarrow> str_slice next next_end (ed_text e1);
                   Some (e1\<lparr>ed_cursor := next + length (concat (take (length (G line)) (G next_line)))\<rparr>, True)
                 })
              })
         | None \<Rightarrow>
             (case ed_index e1 of
                Some i \<Rightarrow>
                  if i + 1 < length (ed_history e1) then do { e2 \<leftarrow> recall e1 (i + 1); Some (e2, True) }
                  else Some (e1\<lparr>ed_index := None, ed_text := ed_draft e1, ed_draft := [], ed_cursor := length (ed_draft e1)\<rparr>, True)
              | None \<Rightarrow> Some (e1, False)))
      })"

section \<open>Keys\<close>

datatype key_code = KeyChar string | KeyEnter | KeyEsc | KeyLeft | KeyRight | KeyHome | KeyEnd
  | KeyBackspace | KeyDelete | KeyUp | KeyDown | KeyOther

record key_event =
  ke_code :: key_code
  ke_shift :: bool
  ke_control :: bool
  ke_alt :: bool
  ke_others :: bool

definition handle_key :: "(string \<Rightarrow> string list) \<Rightarrow> editor \<Rightarrow> key_event \<Rightarrow> (editor \<times> bool) option" where
  "handle_key G e k =
     (case ke_code k of
        KeyEnter \<Rightarrow> if ke_shift k then insert_text G e [CHR 0x0A] else Some (e, False)
      | KeyEsc \<Rightarrow> Some (e, False)
      | KeyChar c \<Rightarrow>
          if c = ''j'' \<and> ke_control k then insert_text G e [CHR 0x0A]
          else if c = ''a'' \<and> ke_control k then move_to_line_start G e
          else if c = ''e'' \<and> ke_control k then move_to_line_end G e
          else if c = ''k'' \<and> ke_control k then kill_to_line_end G e
          else if c = ''u'' \<and> ke_control k then kill_to_line_start G e
          else if c = ''w'' \<and> ke_control k then delete_word_backward G e
          else if \<not> ke_control k \<or> ke_alt k then insert_text G e c
          else Some (e, False)
      | KeyLeft \<Rightarrow> if ke_control k \<or> ke_alt k then move_word_backward G e else Some (move_grapheme_backward G e)
      | KeyRight \<Rightarrow> if ke_control k \<or> ke_alt k then move_word_forward G e else Some (move_grapheme_forward G e)
      | KeyHome \<Rightarrow> move_to_line_start G e
      | KeyEnd \<Rightarrow> move_to_line_end G e
      | KeyBackspace \<Rightarrow> delete_grapheme_backward G e
      | KeyDelete \<Rightarrow> delete_grapheme_forward G e
      | KeyUp \<Rightarrow> handle_up G e
      | KeyDown \<Rightarrow> handle_down G e
      | KeyOther \<Rightarrow> Some (e, False))"

text \<open>What the client does to the editor: a key, a paste, setting, clearing, submitting.\<close>

datatype edit_action = PressKey key_event | PasteText string | SetText string | ClearText | SubmitText

definition edit_step :: "(string \<Rightarrow> string list) \<Rightarrow> editor \<Rightarrow> edit_action \<Rightarrow> editor option" where
  "edit_step G e a =
     (case a of
        PressKey k \<Rightarrow> map_option fst (handle_key G e k)
      | PasteText s \<Rightarrow> map_option fst (insert_text G e s)
      | SetText s \<Rightarrow> set_text G e s
      | ClearText \<Rightarrow> Some (clear_text e)
      | SubmitText \<Rightarrow> Some (fst (submit_text e)))"

fun edit_run :: "(string \<Rightarrow> string list) \<Rightarrow> editor \<Rightarrow> edit_action list \<Rightarrow> editor option" where
  "edit_run G e [] = Some e"
| "edit_run G e (a # as) = (case edit_step G e a of Some e1 \<Rightarrow> edit_run G e1 as | None \<Rightarrow> None)"

section \<open>The soft-wrapped view\<close>

text \<open>The graphemes of a logical line: finished rows, the row under construction and its width.\<close>

fun wrap_line :: "(string \<Rightarrow> nat) \<Rightarrow> nat \<Rightarrow> string list \<Rightarrow> string list \<Rightarrow> string \<Rightarrow> nat \<Rightarrow> string list \<times> string \<times> nat" where
  "wrap_line W width [] rows cur cw = (rows, cur, cw)"
| "wrap_line W width (g # gs) rows cur cw =
     (if width < cw + W g \<and> 0 < cw then wrap_line W width gs (rows @ [cur]) g (W g)
      else wrap_line W width gs rows (cur @ g) (cw + W g))"

fun wrap_lines :: "(string \<Rightarrow> string list) \<Rightarrow> (string \<Rightarrow> nat) \<Rightarrow> nat \<Rightarrow> string list \<Rightarrow> string list" where
  "wrap_lines G W width [] = []"
| "wrap_lines G W width (l # ls) =
     (if l = [] then [] # wrap_lines G W width ls
      else case wrap_line W width (G l) [] [] 0 of
        (rows, cur, cw) \<Rightarrow> rows @ [cur] @ (if ls = [] \<and> cw = width then [[]] else []) @ wrap_lines G W width ls)"

definition view_width :: "16 word \<Rightarrow> nat" where "view_width width = unat (max width 1)"

definition visual_lines :: "(string \<Rightarrow> string list) \<Rightarrow> (string \<Rightarrow> nat) \<Rightarrow> editor \<Rightarrow> 16 word \<Rightarrow> string list" where
  "visual_lines G W e width =
     (if ed_text e = [] then [[]] else wrap_lines G W (view_width width) (split_nl (ed_text e)))"

text \<open>
  The walk of the cursor over the graphemes of a line: the position, when the target was met, or
  the byte, row and column at the end of the line.
\<close>

fun cursor_line :: "(string \<Rightarrow> nat) \<Rightarrow> nat \<Rightarrow> nat \<Rightarrow> string list \<Rightarrow> nat \<Rightarrow> nat \<Rightarrow> nat \<Rightarrow> nat \<Rightarrow> (nat \<times> nat) + (nat \<times> nat \<times> nat)" where
  "cursor_line W width target [] byte row col lw = Inr (byte, row, col)"
| "cursor_line W width target (g # gs) byte row col lw =
     (let wraps = width < lw + W g \<and> 0 < lw;
          row1 = (if wraps then row + 1 else row);
          col1 = (if wraps then 0 else col);
          lw1 = (if wraps then 0 else lw)
      in if byte = target then Inl (col1, row1)
         else cursor_line W width target gs (byte + length g) row1 (col1 + W g) (lw1 + W g))"

definition cursor_at :: "nat \<Rightarrow> nat \<Rightarrow> nat \<Rightarrow> nat \<times> nat" where
  "cursor_at width row col = (if width \<le> col then (0, row + 1) else (col, row))"

fun cursor_lines :: "(string \<Rightarrow> string list) \<Rightarrow> (string \<Rightarrow> nat) \<Rightarrow> nat \<Rightarrow> nat \<Rightarrow> string list \<Rightarrow> nat \<Rightarrow> nat \<Rightarrow> nat \<Rightarrow> nat \<times> nat" where
  "cursor_lines G W width target [] byte row col = cursor_at width row col"
| "cursor_lines G W width target (l # ls) byte row col =
     (if byte = target then cursor_at width row col
      else case cursor_line W width target (G l) byte row col 0 of
        Inl p \<Rightarrow> p
      | Inr (byte1, row1, col1) \<Rightarrow>
          if byte1 = target then cursor_at width row1 col1
          else if ls = [] then cursor_at width row1 col1
          else if byte1 + 1 = target then (0, row1 + 1)
          else cursor_lines G W width target ls (byte1 + 1) (row1 + 1) 0)"

definition visual_cursor :: "(string \<Rightarrow> string list) \<Rightarrow> (string \<Rightarrow> nat) \<Rightarrow> editor \<Rightarrow> 16 word \<Rightarrow> 16 word \<times> 16 word" where
  "visual_cursor G W e width =
     (let (col, row) = cursor_lines G W (view_width width) (min (ed_cursor e) (length (ed_text e))) (split_nl (ed_text e)) 0 0 0
      in (word_of_nat col, word_of_nat row))"

end
