(* ===== verification/RichTextProps.thy ===== *)
theory RichTextProps
  imports RichText
begin

text \<open>
  Facts of styled text: what sanitising keeps, that clusters partition a text, and how the width
  behaves when texts are joined.
\<close>

section \<open>Sanitising\<close>

definition clean :: "string \<Rightarrow> bool" where
  "clean s \<longleftrightarrow> utf8 s \<and> (\<forall>c\<in>set (utf8_chars s). kept_char (scalar c))"

lemma skip_csi_subset: "set (skip_csi cs) \<subseteq> set cs"
  by (induction cs) auto

lemma skip_string_subset: "set (skip_string cs) \<subseteq> set cs"
  by (induction cs) (auto split: list.splits)

lemma sanitize_chars_kept: "c \<in> set (sanitize_chars cs) \<Longrightarrow> c \<in> set cs \<and> kept_char (scalar c)"
proof (induction cs rule: sanitize_chars.induct)
  case (2 c' cs)
  show ?case
  proof (cases "scalar c' = 0x1B")
    case esc: True
    show ?thesis
    proof (cases cs)
      case (Cons d ds)
      consider "scalar d = 0x5B" | "scalar d \<noteq> 0x5B" "scalar d \<in> {0x5D, 0x50, 0x5E, 0x5F, 0x58}"
        | "scalar d \<noteq> 0x5B" "scalar d \<notin> {0x5D, 0x50, 0x5E, 0x5F, 0x58}" by blast
      then show ?thesis
      proof cases
        case 1
        with "2.IH"(1)[OF esc Cons 1] "2.prems" esc Cons skip_csi_subset[of ds] show ?thesis by auto
      next
        case 2
        with "2.IH"(2)[OF esc Cons 2] "2.prems" esc Cons skip_string_subset[of ds] show ?thesis by auto
      next
        case 3
        with "2.IH"(3)[OF esc Cons 3] "2.prems" esc Cons show ?thesis by auto
      qed
    next
      case Nil
      with "2.prems" esc show ?thesis by simp
    qed
  next
    case False
    show ?thesis
    proof (cases "kept_char (scalar c')")
      case True
      with False "2.IH"(4)[OF False True] "2.prems" show ?thesis by auto
    next
      case drop: False
      with False "2.IH"(5)[OF False drop] "2.prems" show ?thesis by auto
    qed
  qed
qed simp

lemma kept_not_escape: "kept_char u \<Longrightarrow> u \<noteq> 0x1B"
  by (simp add: kept_char_def is_control_def) linarith?

lemma sanitize_clean: "clean s \<Longrightarrow> sanitize_text s = s"
proof -
  have "(\<forall>c\<in>set cs. kept_char (scalar c)) \<Longrightarrow> sanitize_chars cs = cs" for cs
    by (induction cs) (auto dest: kept_not_escape)
  then show "clean s \<Longrightarrow> sanitize_text s = s" by (simp add: sanitize_text_def clean_def)
qed

lemma clean_concat: "list_all char_ok cs \<Longrightarrow> \<forall>c\<in>set cs. kept_char (scalar c) \<Longrightarrow> clean (concat cs)"
  by (simp add: clean_def utf8_concat utf8_chars_concat)

lemma sanitize_is_clean: "utf8 s \<Longrightarrow> clean (sanitize_text s)"
  unfolding sanitize_text_def
  by (rule clean_concat) (auto simp: list_all_iff utf8_def dest: sanitize_chars_kept)

lemma clean_append: "clean s \<Longrightarrow> clean t \<Longrightarrow> clean (s @ t)"
  by (auto simp: clean_def utf8_append utf8_append_ok)

section \<open>Clusters\<close>

lemma clusters_Nil [simp]: "clusters [] = []"
  by (simp add: clusters.simps)

lemma clusters_step: "cs \<noteq> [] \<Longrightarrow> next_cluster cs = (g, rest) \<Longrightarrow> clusters cs = g # clusters rest"
  by (subst clusters.simps) simp

lemma clusters_parts: "concat (clusters cs) = cs \<and> [] \<notin> set (clusters cs)"
proof (induction cs rule: clusters.induct)
  case (1 cs)
  obtain g rest where n: "next_cluster cs = (g, rest)" by force
  show ?case
  proof (cases "cs = []")
    case False
    with 1 n next_cluster_parts[OF n] show ?thesis by (auto simp: clusters_step[OF False n])
  qed simp
qed

lemma extend_cluster_again:
  "extend_cluster cs = (es, rest) \<Longrightarrow> xs = [] \<or> (rest \<noteq> [] \<and> hd xs = hd rest) \<Longrightarrow> extend_cluster (es @ xs) = (es, xs)"
proof (induction cs arbitrary: es rest rule: extend_cluster.induct)
  case (2 c cs)
  show ?case
  proof (cases "scalar c = ZWJ")
    case True
    with 2 show ?thesis by (auto split: list.splits prod.splits)
  next
    case False
    with 2 show ?thesis by (cases xs) (auto split: if_splits prod.splits)
  qed
qed auto

lemma cluster_start_again:
  "cluster_start cs = (b, r) \<Longrightarrow> cs \<noteq> [] \<Longrightarrow> ys = [] \<or> (r \<noteq> [] \<and> hd ys = hd r) \<Longrightarrow> cluster_start (b @ ys) = (b, ys)"
  by (cases ys) (auto simp: cluster_start_def split: list.splits if_splits)

lemma next_cluster_again:
  assumes n: "next_cluster cs = (g, rest)" "cs \<noteq> []" and xs: "xs = [] \<or> (rest \<noteq> [] \<and> hd xs = hd rest)"
  shows "next_cluster (g @ xs) = (g, xs)"
proof -
  obtain b r es where b: "cluster_start cs = (b, r)" and e: "extend_cluster r = (es, rest)" and g: "g = b @ es"
    using n(1) by (auto simp: next_cluster_def Let_def split: prod.splits)
  have "es @ xs = [] \<or> (r \<noteq> [] \<and> hd (es @ xs) = hd r)"
    using extend_cluster_parts[OF e] xs by (cases es) auto
  from cluster_start_again[OF b n(2) this] extend_cluster_again[OF e xs]
  show ?thesis by (simp add: next_cluster_def g)
qed

text \<open>The first clusters of a text are the clusters of what they make up.\<close>

lemma clusters_prefix: "clusters cs = gs @ hs \<Longrightarrow> clusters (concat gs) = gs"
proof (induction gs arbitrary: cs)
  case (Cons g gs)
  then have ne: "cs \<noteq> []" by auto
  obtain g' rest where n: "next_cluster cs = (g', rest)" by force
  from Cons.prems clusters_step[OF ne n] have g: "g' = g" and r: "clusters rest = gs @ hs" by simp_all
  have p: "concat gs = [] \<or> (rest \<noteq> [] \<and> hd (concat gs) = hd rest)"
  proof (cases gs)
    case (Cons k ks)
    have "rest = concat gs @ concat hs" using clusters_parts[of rest] r by (metis concat_append)
    moreover have "concat gs \<noteq> []" using clusters_parts[of rest] r Cons by auto
    ultimately show ?thesis by (metis append_is_Nil_conv hd_append2)
  qed simp
  have "next_cluster (g @ concat gs) = (g, concat gs)" using next_cluster_again[OF n ne p] g by simp
  moreover have "g @ concat gs \<noteq> []" using next_cluster_parts[OF n] ne g by auto
  ultimately show ?case using Cons.IH[OF r] by (simp add: clusters_step)
qed simp

section \<open>Width of joined texts\<close>

definition chars_width :: "string list \<Rightarrow> nat" where
  "chars_width cs = sum_list (map cluster_width (clusters cs))"

text \<open>Characters that neither extend a cluster nor pair up.\<close>

definition standalone :: "string list \<Rightarrow> bool" where
  "standalone ys \<longleftrightarrow> (\<forall>y\<in>set ys. \<not> is_extender (scalar y) \<and> \<not> is_regional (scalar y))"

lemma standalone_extend: "standalone ys \<Longrightarrow> extend_cluster ys = ([], ys)"
  by (cases ys) (auto simp: standalone_def is_extender_def ZWJ_def)

lemma standalone_next: "standalone (y # ys) \<Longrightarrow> next_cluster (y # ys) = ([y], ys)"
  using standalone_extend[of ys]
  by (cases ys) (auto simp: next_cluster_def cluster_start_def standalone_def)

lemma extend_more: "extend_cluster cs = (es, rest) \<Longrightarrow> rest \<noteq> [] \<Longrightarrow> extend_cluster (cs @ ys) = (es, rest @ ys)"
  by (induction cs arbitrary: es rest rule: extend_cluster.induct) (auto split: if_splits prod.splits list.splits)

lemma extend_end:
  "extend_cluster cs = (es, []) \<Longrightarrow> standalone ys \<Longrightarrow> ys \<noteq> [] \<Longrightarrow>
     extend_cluster (cs @ ys) = (es, ys) \<or> (ZWJ \<in> scalar ` set es \<and> extend_cluster (cs @ ys) = (es @ [hd ys], tl ys))"
proof (induction cs arbitrary: es rule: extend_cluster.induct)
  case 1
  then show ?case by (simp add: standalone_extend)
next
  case (2 c cs)
  show ?case
  proof (cases "scalar c = ZWJ")
    case True
    show ?thesis
    proof (cases cs)
      case Nil
      obtain y ys' where y: "ys = y # ys'" using 2 by (cases ys) auto
      have "extend_cluster ys' = ([], ys')" using "2.prems"(2) y by (intro standalone_extend) (simp add: standalone_def)
      with 2 True Nil y show ?thesis by auto
    next
      case (Cons d ds)
      with "2.IH"(1)[OF True Cons] "2.prems" True show ?thesis by (auto split: prod.splits)
    qed
  next
    case False
    show ?thesis
    proof (cases "is_extender (scalar c)")
      case ext: True
      with False "2.IH"(2)[OF False ext] "2.prems" show ?thesis by (auto split: prod.splits)
    next
      case no: False
      with False "2.prems" show ?thesis by simp
    qed
  qed
qed

lemma cluster_width_zwj:
  "ZWJ \<in> scalar ` set g \<Longrightarrow> g \<noteq> [] \<Longrightarrow> \<not> is_regional (scalar y) \<Longrightarrow> cluster_width (g @ [y]) \<le> cluster_width g"
  by (cases g) (auto simp: cluster_width_def Let_def)

lemma chars_width_step: "cs \<noteq> [] \<Longrightarrow> next_cluster cs = (g, rest) \<Longrightarrow> chars_width cs = cluster_width g + chars_width rest"
  by (simp add: chars_width_def clusters_step)

lemma chars_width_append:
  assumes ys: "standalone ys" "ys \<noteq> []"
  shows "chars_width (cs @ ys) \<le> chars_width cs + chars_width ys"
proof (induction cs rule: clusters.induct)
  case (1 cs)
  show ?case
  proof (cases "cs = []")
    case False
    obtain g rest where n: "next_cluster cs = (g, rest)" by force
    obtain b r es where b: "cluster_start cs = (b, r)" and e: "extend_cluster r = (es, rest)" and g: "g = b @ es"
      using n by (auto simp: next_cluster_def Let_def split: prod.splits)
    have b': "cluster_start (cs @ ys) = (b, r @ ys)"
      using b False ys by (cases ys) (auto simp: cluster_start_def standalone_def split: list.splits if_splits)
    have ne: "cs @ ys \<noteq> []" using ys by simp
    show ?thesis
    proof (cases "rest = []")
      case rest: False
      have "next_cluster (cs @ ys) = (g, rest @ ys)"
        using b' extend_more[OF e rest] g by (simp add: next_cluster_def)
      with 1[OF False] n chars_width_step[OF ne] chars_width_step[OF False n] show ?thesis by simp
    next
      case True
      note w = chars_width_step[OF False n, unfolded True]
      have zero: "chars_width [] = 0" by (simp add: chars_width_def)
      from extend_end[OF e[unfolded True] ys]
      show ?thesis
      proof
        assume "extend_cluster (r @ ys) = (es, ys)"
        then have "next_cluster (cs @ ys) = (g, ys)" using b' g by (simp add: next_cluster_def)
        from chars_width_step[OF ne this] w zero show ?thesis by simp
      next
        assume z: "ZWJ \<in> scalar ` set es \<and> extend_cluster (r @ ys) = (es @ [hd ys], tl ys)"
        then have "next_cluster (cs @ ys) = (g @ [hd ys], tl ys)" using b' g by (simp add: next_cluster_def)
        from chars_width_step[OF ne this] have "chars_width (cs @ ys) = cluster_width (g @ [hd ys]) + chars_width (tl ys)" .
        moreover have "cluster_width (g @ [hd ys]) \<le> cluster_width g"
          by (rule cluster_width_zwj) (use z g next_cluster_parts[OF n] False ys in \<open>auto simp: standalone_def\<close>)
        moreover have "chars_width ys = cluster_width [hd ys] + chars_width (tl ys)"
          using ys by (cases ys) (simp_all add: chars_width_step standalone_next)
        ultimately show ?thesis using w zero by simp
      qed
    qed
  qed simp
qed

lemma visible_width_chars: "utf8 s \<Longrightarrow> str_visible_width s = chars_width (utf8_chars s)"
proof -
  assume u: "utf8 s"
  have "utf8_chars (concat g) = g" if "g \<in> set (clusters (utf8_chars s))" for g
  proof (rule utf8_chars_concat)
    have "set g \<subseteq> set (utf8_chars s)" using that clusters_parts[of "utf8_chars s"] by (metis UN_upper set_concat)
    then show "list_all char_ok g" using u by (auto simp: utf8_def list_all_iff)
  qed
  then have m: "map (\<lambda>g. grapheme_cluster_width (concat g)) (clusters (utf8_chars s)) = map cluster_width (clusters (utf8_chars s))"
    by (intro map_cong) (auto simp: grapheme_cluster_width_def)
  show ?thesis using arg_cong[OF m, of sum_list] by (simp add: str_visible_width_def grapheme_clusters_def chars_width_def comp_def)
qed

lemma visible_width_append:
  assumes "utf8 s" "utf8 t" "standalone (utf8_chars t)"
  shows "str_visible_width (s @ t) \<le> str_visible_width s + str_visible_width t"
proof (cases "utf8_chars t = []")
  case True
  then have "t = []" using concat_utf8_chars[of t] by simp
  then show ?thesis by simp
next
  case False
  then show ?thesis
    using chars_width_append[OF assms(3), of "utf8_chars s"] assms(1,2)
    by (simp add: visible_width_chars utf8_append utf8_append_ok)
qed

text \<open>The first clusters of a text make up a text with these clusters.\<close>

lemma grapheme_prefix:
  assumes u: "utf8 s" and g: "grapheme_clusters s = gs @ hs"
  shows "grapheme_clusters (concat gs) = gs" "utf8 (concat gs)" "set (utf8_chars (concat gs)) \<subseteq> set (utf8_chars s)"
proof -
  obtain ks ls where k: "clusters (utf8_chars s) = ks @ ls" "gs = map concat ks"
    using g unfolding grapheme_clusters_def by (metis map_eq_append_conv)
  have sub: "set (concat ks) \<subseteq> set (utf8_chars s)" using clusters_parts[of "utf8_chars s"] k(1) by (metis concat_append set_append Un_upper1)
  then have ok: "list_all char_ok (concat ks)" using u by (auto simp: utf8_def list_all_iff)
  have c: "concat gs = concat (concat ks)" by (simp add: k(2)) (induction ks, simp_all)
  have ch: "utf8_chars (concat gs) = concat ks" unfolding c by (rule utf8_chars_concat[OF ok])
  show "grapheme_clusters (concat gs) = gs" unfolding grapheme_clusters_def ch using clusters_prefix[OF k(1)] k(2) by simp
  show "utf8 (concat gs)" unfolding c by (rule utf8_concat[OF ok])
  show "set (utf8_chars (concat gs)) \<subseteq> set (utf8_chars s)" using sub by (simp add: ch)
qed

end
