(* ===== verification/EditorProps.thy ===== *)
theory EditorProps
  imports Editor RichTextProps
begin

text \<open>
  Facts of the line editor: which strings it holds, where character and grapheme boundaries lie,
  and that every operation keeps the state well formed without slicing off a boundary.
\<close>

section \<open>The texts of the editor\<close>

definition fine_char :: "string \<Rightarrow> bool" where
  "fine_char c \<longleftrightarrow> char_ok c \<and> kept_char (scalar c) \<and> c \<noteq> [CRET] \<and> c \<noteq> [TAB]"

definition fine :: "string \<Rightarrow> bool" where
  "fine s \<longleftrightarrow> list_all fine_char (utf8_chars s)"

lemma fine_utf8: "fine s \<Longrightarrow> utf8 s"
  by (auto simp: fine_def utf8_def fine_char_def list_all_iff)

lemma fine_clean: "fine s \<Longrightarrow> clean s"
  by (auto simp: fine_def clean_def utf8_def fine_char_def list_all_iff)

lemma fine_Nil [simp]: "fine []"
  by (simp add: fine_def)

lemma fine_append_iff: "utf8 s \<Longrightarrow> utf8 t \<Longrightarrow> fine (s @ t) \<longleftrightarrow> fine s \<and> fine t"
  by (simp add: fine_def utf8_append)

lemma fine_append: "fine s \<Longrightarrow> fine t \<Longrightarrow> fine (s @ t)"
  by (simp add: fine_append_iff fine_utf8)

lemma normalize_chars_ok:
  "list_all char_ok cs \<Longrightarrow> list_all (\<lambda>c. char_ok c \<and> c \<noteq> [CRET] \<and> c \<noteq> [TAB]) (normalize_chars cs)"
proof (induction cs rule: normalize_chars.induct)
  case (2 c cs)
  have one: "char_ok '' ''" "char_ok [CHR 0x0A]" by (rule utf8_ascii, simp add: byte_of_def)+
  show ?case
  proof (cases "c = [CRET]")
    case cr: True
    show ?thesis
    proof (cases cs)
      case (Cons d ds)
      show ?thesis
      proof (cases "d = [CHR 0x0A]")
        case True
        with "2.IH"(1)[OF cr Cons True] "2.prems" cr Cons one show ?thesis by simp
      next
        case False
        with "2.IH"(2)[OF cr Cons False] "2.prems" cr Cons one show ?thesis by simp
      qed
    qed (use cr one in simp)
  next
    case False
    show ?thesis
    proof (cases "c = [TAB]")
      case True
      with "2.IH"(3)[OF False True] "2.prems" False one show ?thesis by (simp add: numeral_eq_Suc)
    next
      case no: False
      with "2.IH"(4)[OF False no] "2.prems" False show ?thesis by simp
    qed
  qed
qed simp

lemma sanitized_fine: "utf8 s \<Longrightarrow> fine (sanitize_and_normalize s)"
proof -
  assume u: "utf8 s"
  let ?n = "normalize_chars (utf8_chars s)"
  have n: "list_all (\<lambda>c. char_ok c \<and> c \<noteq> [CRET] \<and> c \<noteq> [TAB]) ?n"
    using u by (intro normalize_chars_ok) (simp add: utf8_def)
  then have ok: "list_all char_ok ?n" by (simp add: list_all_iff)
  have k: "fine_char c" if "c \<in> set (sanitize_chars ?n)" for c
    using sanitize_chars_kept[OF that] n by (auto simp: fine_char_def list_all_iff)
  have "list_all char_ok (sanitize_chars ?n)" using k by (auto simp: fine_char_def list_all_iff)
  then show ?thesis
    using k by (auto simp: fine_def sanitize_and_normalize_def sanitize_text_def utf8_chars_concat[OF ok] utf8_chars_concat list_all_iff)
qed

section \<open>Boundaries\<close>

lemma boundary_le: "is_boundary s i \<Longrightarrow> i \<le> length s"
  by (auto simp: is_boundary_def)

lemma boundary_ends [simp]: "is_boundary s 0" "is_boundary s (length s)"
  by (simp_all add: is_boundary_def)

lemma boundary_append: "utf8 t \<Longrightarrow> is_boundary (s @ t) (length s)"
proof (cases t)
  case (Cons b bs)
  assume u: "utf8 t"
  have "char_ok (b # takeWhile is_continuation bs)" using u Cons by (simp add: utf8_def)
  then have "\<not> is_continuation b" using char_ok_start by force
  then show ?thesis using Cons by (simp add: is_boundary_def nth_append)
qed simp

lemma utf8_split: "utf8 s \<Longrightarrow> is_boundary s i \<Longrightarrow> utf8 (take i s) \<and> utf8 (drop i s)"
proof -
  have "list_all char_ok cs \<Longrightarrow> is_boundary (concat cs) i \<Longrightarrow> \<exists>xs ys. cs = xs @ ys \<and> i = length (concat xs)" for cs i
  proof (induction cs arbitrary: i)
    case Nil
    then show ?case by (simp add: is_boundary_def)
  next
    case (Cons c cs)
    obtain b bs where c: "c = b # bs" "list_all is_continuation bs" using Cons.prems(1) char_ok_start[of c] by auto
    consider "i = 0" | "0 < i" "i < length c" | "length c \<le> i" by linarith
    then show ?case
    proof cases
      case 1
      then show ?thesis by (intro exI[of _ "[]"] exI[of _ "c # cs"]) simp
    next
      case 2
      then have "is_continuation (concat (c # cs) ! i)"
        using c by (cases i) (auto simp: nth_append list_all_length)
      with Cons.prems(2) 2 show ?thesis by (auto simp: is_boundary_def)
    next
      case 3
      have "is_boundary (concat cs) (i - length c)"
        using Cons.prems(2) 3 by (auto simp: is_boundary_def nth_append)
      from Cons.IH[OF _ this] Cons.prems(1) obtain xs ys where
        "cs = xs @ ys" "i - length c = length (concat xs)" by auto
      with 3 show ?thesis by (intro exI[of _ "c # xs"] exI[of _ ys]) auto
    qed
  qed
  note parts = this
  assume u: "utf8 s" and b: "is_boundary s i"
  from parts[of "utf8_chars s" i] u b obtain xs ys where s: "utf8_chars s = xs @ ys" and i: "i = length (concat xs)"
    by (auto simp: utf8_def)
  have "s = concat xs @ concat ys" using concat_utf8_chars[of s] s by simp
  then have "take i s = concat xs" "drop i s = concat ys" using i by simp_all
  moreover have "list_all char_ok xs" "list_all char_ok ys" using u s by (simp_all add: utf8_def)
  ultimately show ?thesis by (simp add: utf8_concat)
qed

lemma fine_split: "fine s \<Longrightarrow> is_boundary s i \<Longrightarrow> fine (take i s) \<and> fine (drop i s)"
  using utf8_split[of s i] fine_append_iff[of "take i s" "drop i s"] fine_utf8[of s] by simp

text \<open>A boundary of a part is a boundary of the whole.\<close>

lemma boundary_left: "utf8 t \<Longrightarrow> is_boundary s i \<Longrightarrow> is_boundary (s @ t) i"
  using boundary_append[of t s] by (cases "i < length s") (auto simp: is_boundary_def nth_append)

lemma boundary_right: "utf8 t \<Longrightarrow> is_boundary t i \<Longrightarrow> is_boundary (s @ t) (length s + i)"
  using boundary_append[of t s] by (auto simp: is_boundary_def nth_append)

text \<open>A line feed is a character of its own.\<close>

lemma utf8_after_nl: "utf8 (CHR 0x0A # t) \<Longrightarrow> utf8 t"
proof -
  assume u: "utf8 (CHR 0x0A # t)"
  then have "length (CHR 0x0A # takeWhile is_continuation t) = utf8_len (CHR 0x0A)" by (simp add: utf8_def char_ok_def)
  moreover have "utf8_len (CHR 0x0A) = 1" by code_simp
  ultimately have "takeWhile is_continuation t = []" by simp
  then have "dropWhile is_continuation t = t" by (metis append_Nil takeWhile_dropWhile_id)
  with u show ?thesis by (simp add: utf8_def)
qed

lemma utf8_at_nl: "utf8 (a @ CHR 0x0A # b) \<Longrightarrow> utf8 a \<and> utf8 b"
proof -
  assume u: "utf8 (a @ CHR 0x0A # b)"
  have "\<not> is_continuation (CHR 0x0A)" by code_simp
  then have "is_boundary (a @ CHR 0x0A # b) (length a)" by (simp add: is_boundary_def)
  from utf8_split[OF u this] utf8_after_nl[of b] show ?thesis by simp
qed

lemma find_nl_Some: "find_nl s = Some i \<Longrightarrow> \<exists>a b. s = a @ CHR 0x0A # b \<and> i = length a \<and> CHR 0x0A \<notin> set a"
proof -
  let ?p = "\<lambda>c. c \<noteq> CHR 0x0A"
  assume "find_nl s = Some i"
  then have i: "i = length (takeWhile ?p s)" "i < length s" by (auto simp: find_nl_def Let_def split: if_splits)
  have "dropWhile ?p s \<noteq> []" using i takeWhile_dropWhile_id[of ?p s] by (metis append_Nil2 less_irrefl)
  then obtain b where "dropWhile ?p s = CHR 0x0A # b" using hd_dropWhile[of ?p s] by (cases "dropWhile ?p s") auto
  then have "s = takeWhile ?p s @ CHR 0x0A # b" using takeWhile_dropWhile_id[of ?p s] by simp
  moreover have "CHR 0x0A \<notin> set (takeWhile ?p s)" by (auto dest: set_takeWhileD)
  ultimately show ?thesis using i(1) by blast
qed

lemma find_nl_None: "find_nl s = None \<Longrightarrow> CHR 0x0A \<notin> set s"
proof
  assume n: "find_nl s = None" and "CHR 0x0A \<in> set s"
  then obtain a b where s: "s = a @ CHR 0x0A # b" "CHR 0x0A \<notin> set a" by (auto dest: split_list_first)
  have "takeWhile (\<lambda>c. c \<noteq> CHR 0x0A) (a @ CHR 0x0A # b) = a @ takeWhile (\<lambda>c. c \<noteq> CHR 0x0A) (CHR 0x0A # b)"
    by (rule takeWhile_append2) (use s in auto)
  with s have "takeWhile (\<lambda>c. c \<noteq> CHR 0x0A) s = a" by simp
  with n s show False by (simp add: find_nl_def Let_def)
qed

lemma rfind_nl_Some: "rfind_nl s = Some i \<Longrightarrow> \<exists>a b. s = a @ CHR 0x0A # b \<and> i = length a \<and> CHR 0x0A \<notin> set b"
proof -
  assume "rfind_nl s = Some i"
  then obtain n where n: "find_nl (rev s) = Some n" "i = length s - 1 - n" by (auto simp: rfind_nl_def)
  from find_nl_Some[OF n(1)] obtain a b where ab: "rev s = a @ CHR 0x0A # b" "n = length a" "CHR 0x0A \<notin> set a" by blast
  then have "s = rev b @ CHR 0x0A # rev a" by (metis (no_types, lifting) append.assoc append_Cons append_Nil rev.simps(2) rev_append rev_rev_ident)
  with ab n(2) show ?thesis by (intro exI[of _ "rev b"] exI[of _ "rev a"]) auto
qed

lemma rfind_nl_None: "rfind_nl s = None \<Longrightarrow> CHR 0x0A \<notin> set s"
  using find_nl_None[of "rev s"] by (simp add: rfind_nl_def)

lemma line_start_parts: "\<exists>a b. s = a @ b \<and> line_start s = length a \<and> CHR 0x0A \<notin> set b \<and> (a = [] \<or> last a = CHR 0x0A)"
proof (cases "rfind_nl s")
  case None
  then show ?thesis using rfind_nl_None[OF None] by (intro exI[of _ "[]"] exI[of _ s]) (simp add: line_start_def)
next
  case (Some i)
  from rfind_nl_Some[OF Some] obtain a b where "s = a @ CHR 0x0A # b" "i = length a" "CHR 0x0A \<notin> set b" by blast
  with Some show ?thesis by (intro exI[of _ "a @ [CHR 0x0A]"] exI[of _ b]) (simp add: line_start_def)
qed

lemma line_start_boundary: "utf8 s \<Longrightarrow> is_boundary s (line_start s)"
proof (cases "rfind_nl s")
  case (Some i)
  assume u: "utf8 s"
  from rfind_nl_Some[OF Some] obtain a b where s: "s = a @ CHR 0x0A # b" and i: "i = length a" by blast
  have "utf8 b" using utf8_at_nl u s by blast
  from boundary_append[OF this, of "a @ [CHR 0x0A]"] s i Some show ?thesis by (simp add: line_start_def)
qed (simp add: line_start_def)

lemma line_start_le: "line_start s \<le> length s"
  using line_start_parts[of s] by auto

section \<open>Segmentation\<close>

text \<open>
  What the code relies on of grapheme segmentation (Unicode annex 29): the graphemes make up the
  text, none is empty, they are cut at characters, and a line feed that does not follow a carriage
  return is a grapheme of its own.
\<close>

definition segments :: "(string \<Rightarrow> string list) \<Rightarrow> bool" where
  "segments G \<longleftrightarrow> (\<forall>s. concat (G s) = s \<and> [] \<notin> set (G s)) \<and> (\<forall>s. utf8 s \<longrightarrow> list_all utf8 (G s))
     \<and> (\<forall>s t. utf8 s \<and> utf8 t \<and> CRET \<notin> set s \<longrightarrow> G (s @ CHR 0x0A # t) = G s @ [CHR 0x0A] # G t)"

lemma segments_concat: "segments G \<Longrightarrow> concat (G s) = s"
  by (simp add: segments_def)

lemma segments_utf8: "segments G \<Longrightarrow> utf8 s \<Longrightarrow> list_all utf8 (G s)"
  by (simp add: segments_def)

lemma utf8_concat_list: "list_all utf8 ps \<Longrightarrow> utf8 (concat ps)"
  by (induction ps) (simp_all add: utf8_append_ok)

lemma cut_boundary: "list_all utf8 (xs @ ys) \<Longrightarrow> is_boundary (concat (xs @ ys)) (length (concat xs))"
  using boundary_append[of "concat ys" "concat xs"] utf8_concat_list[of ys] by simp

lemma indices_mem: "(i, g) \<in> set (indices b gs) \<Longrightarrow> \<exists>xs ys. gs = xs @ g # ys \<and> i = b + length (concat xs)"
proof (induction gs arbitrary: b)
  case (Cons h gs)
  show ?case
  proof (cases "(i, g) = (b, h)")
    case True
    then show ?thesis by (intro exI[of _ "[]"] exI[of _ gs]) simp
  next
    case False
    with Cons.prems have "(i, g) \<in> set (indices (b + length h) gs)" by auto
    from Cons.IH[OF this] obtain xs ys where "gs = xs @ g # ys" "i = b + length h + length (concat xs)" by blast
    then show ?thesis by (intro exI[of _ "h # xs"] exI[of _ ys]) simp
  qed
qed simp

lemma indices_boundary:
  assumes "list_all utf8 gs" "(i, g) \<in> set (indices 0 gs)"
  shows "is_boundary (concat gs) i" "is_boundary (concat gs) (i + length g)"
proof -
  from indices_mem[OF assms(2)] obtain xs ys where g: "gs = xs @ g # ys" "i = length (concat xs)" by auto
  from cut_boundary[of xs "g # ys"] assms(1) g show "is_boundary (concat gs) i" by simp
  from cut_boundary[of "xs @ [g]" ys] assms(1) g show "is_boundary (concat gs) (i + length g)" by simp
qed

text \<open>Where the searches of the code can end up.\<close>

lemma nearest_mem: "nearest_boundary c ps n \<in> insert n (fst ` set ps)"
  by (induction c ps n rule: nearest_boundary.induct) auto

lemma forward_mem: "forward_boundary c len ps \<in> insert len (fst ` set ps \<union> (\<lambda>(i, g). i + length g) ` set ps)"
  by (induction c len ps rule: forward_boundary.induct) auto

lemma prev_mem: "prev_boundary c ps n \<in> insert n (fst ` set ps)"
  by (induction c ps n rule: prev_boundary.induct) auto

lemma prev_less: "n < c \<Longrightarrow> prev_boundary c ps n < c"
  by (induction c ps n rule: prev_boundary.induct) auto

lemma next_mem: "next_boundary c len ps \<in> insert len (fst ` set ps \<union> (\<lambda>(i, g). i + length g) ` set ps)"
  by (induction c len ps rule: next_boundary.induct) auto

lemma budget_mem: "budget_boundary l ps b \<in> insert b ((\<lambda>(i, g). i + length g) ` set ps)"
  by (induction l ps b rule: budget_boundary.induct) auto

lemma budget_le: "b \<le> l \<Longrightarrow> budget_boundary l ps b \<le> l"
  by (induction l ps b rule: budget_boundary.induct) auto

lemma word_back_mem: "word_back w ps \<in> insert 0 ((\<lambda>(i, g). i + length g) ` set ps)"
  by (induction w ps rule: word_back.induct) auto

lemma word_forward_mem: "word_forward c len k ps \<in> insert len ((\<lambda>(i, g). c + i) ` set ps)"
  by (induction c len k ps rule: word_forward.induct) auto

lemma search_boundary:
  assumes "segments G" "utf8 s"
  shows "is_boundary s (nearest_boundary c (indices 0 (G s)) 0)"
    "is_boundary s (forward_boundary c (length s) (indices 0 (G s)))"
    "is_boundary s (prev_boundary c (indices 0 (G s)) 0)"
    "is_boundary s (next_boundary c (length s) (indices 0 (G s)))"
    "is_boundary s (budget_boundary l (indices 0 (G s)) 0)"
proof -
  have b: "is_boundary s i \<and> is_boundary s (i + length g)" if "(i, g) \<in> set (indices 0 (G s))" for i g
    using indices_boundary[OF segments_utf8[OF assms] that] segments_concat[OF assms(1), of s] by simp
  show "is_boundary s (nearest_boundary c (indices 0 (G s)) 0)" using nearest_mem[of c "indices 0 (G s)" 0] b by auto
  show "is_boundary s (forward_boundary c (length s) (indices 0 (G s)))"
    using forward_mem[of c "length s" "indices 0 (G s)"] b by auto
  show "is_boundary s (prev_boundary c (indices 0 (G s)) 0)" using prev_mem[of c "indices 0 (G s)" 0] b by auto
  show "is_boundary s (next_boundary c (length s) (indices 0 (G s)))"
    using next_mem[of c "length s" "indices 0 (G s)"] b by auto
  show "is_boundary s (budget_boundary l (indices 0 (G s)) 0)" using budget_mem[of l "indices 0 (G s)" 0] b by auto
qed

lemma chars_utf8: "utf8 s \<Longrightarrow> list_all utf8 (utf8_chars s)"
proof -
  assume u: "utf8 s"
  have "utf8 c" if "char_ok c" for c using utf8_concat[of "[c]"] that by simp
  with u show ?thesis by (auto simp: utf8_def list_all_iff)
qed

lemma word_start_boundary: "utf8 s \<Longrightarrow> is_boundary s (word_start s)"
proof -
  assume u: "utf8 s"
  have "is_boundary s (i + length g)" if "(i, g) \<in> set (rev (indices 0 (utf8_chars s)))" for i g
    using indices_boundary(2)[OF chars_utf8[OF u], of i g] that by simp
  then show ?thesis using word_back_mem[of False "rev (indices 0 (utf8_chars s))"] by (auto simp: word_start_def)
qed

lemma word_forward_boundary:
  "utf8 t \<Longrightarrow> is_boundary (s @ t) (word_forward (length s) (length (s @ t)) k (indices 0 (utf8_chars t)))"
proof -
  assume u: "utf8 t"
  have "is_boundary (s @ t) (length s + i)" if "(i, g) \<in> set (indices 0 (utf8_chars t))" for i g
    using indices_boundary(1)[OF chars_utf8[OF u] that] boundary_right[OF u] by simp
  then show ?thesis
    using word_forward_mem[of "length s" "length (s @ t)" k "indices 0 (utf8_chars t)"] boundary_ends(2)[of "s @ t"] by auto
qed

end
