(* ===== verification/EditorSafe.thy ===== *)
theory EditorSafe
  imports EditorProps
begin

text \<open>
  Every operation of the line editor returns, and keeps the state well formed: the lemmas that
  carry the safety property.
\<close>

section \<open>Well-formed editors\<close>

definition text_ok :: "string \<Rightarrow> bool" where
  "text_ok s \<longleftrightarrow> fine s \<and> length s \<le> MAX_BUFFER_BYTES"

definition ed_ok :: "editor \<Rightarrow> bool" where
  "ed_ok e \<longleftrightarrow> text_ok (ed_text e) \<and> is_boundary (ed_text e) (ed_cursor e) \<and> text_ok (ed_draft e)
     \<and> list_all (\<lambda>s. text_ok s \<and> trim s \<noteq> []) (ed_history e) \<and> distinct_adj (ed_history e)
     \<and> length (ed_history e) \<le> MAX_HISTORY_ENTRIES \<and> (\<forall>i. ed_index e = Some i \<longrightarrow> i < length (ed_history e))"

definition good :: "(editor \<times> bool) option \<Rightarrow> bool" where
  "good r \<longleftrightarrow> (case r of Some (e, b) \<Rightarrow> ed_ok e | None \<Rightarrow> False)"

lemma good_Some [simp]: "good (Some (e, b)) \<longleftrightarrow> ed_ok e"
  by (simp add: good_def)

lemma text_ok_Nil [simp]: "text_ok []"
  by (simp add: text_ok_def MAX_BUFFER_BYTES_def)

lemma ed_okD:
  assumes "ed_ok e"
  shows "text_ok (ed_text e)" "utf8 (ed_text e)" "is_boundary (ed_text e) (ed_cursor e)" "text_ok (ed_draft e)"
  using assms by (auto simp: ed_ok_def text_ok_def fine_utf8)

lemma ed_ok_cursor [intro]: "ed_ok e \<Longrightarrow> is_boundary (ed_text e) c \<Longrightarrow> ed_ok (e\<lparr>ed_cursor := c\<rparr>)"
  by (simp add: ed_ok_def)

lemma ed_ok_text [intro]:
  "ed_ok e \<Longrightarrow> text_ok t \<Longrightarrow> is_boundary t c \<Longrightarrow> ed_ok (e\<lparr>ed_text := t, ed_cursor := c, ed_index := None\<rparr>)"
  by (simp add: ed_ok_def)

lemma clamp_fields [simp]:
  "ed_text (clamp_cursor G e) = ed_text e" "ed_history (clamp_cursor G e) = ed_history e"
  "ed_index (clamp_cursor G e) = ed_index e" "ed_draft (clamp_cursor G e) = ed_draft e"
  by (simp_all add: clamp_cursor_def)

lemma clamp_ok: "segments G \<Longrightarrow> ed_ok e \<Longrightarrow> ed_ok (clamp_cursor G e)"
  using search_boundary(1)[of G "ed_text e" "ed_cursor e"] ed_okD(2)[of e] by (auto simp: clamp_cursor_def)

lemma clamp_boundary: "segments G \<Longrightarrow> utf8 (ed_text e) \<Longrightarrow> is_boundary (ed_text e) (ed_cursor (clamp_cursor G e))"
  using search_boundary(1)[of G "ed_text e" "ed_cursor e"] by (auto simp: clamp_cursor_def)

lemma clamp_forward_boundary:
  "segments G \<Longrightarrow> utf8 (ed_text e) \<Longrightarrow> is_boundary (ed_text e) (ed_cursor (clamp_cursor_forward G e))"
  using search_boundary(2)[of G "ed_text e" "ed_cursor e"] by (auto simp: clamp_cursor_forward_def)

section \<open>Slices\<close>

lemma boundary_drop: "utf8 s \<Longrightarrow> is_boundary s a \<Longrightarrow> is_boundary (drop a s) i \<Longrightarrow> is_boundary s (a + i)"
  using boundary_right[of "drop a s" i "take a s"] utf8_split[of s a] boundary_le[of s a] by (simp add: min_absorb2)

lemma boundary_take: "utf8 s \<Longrightarrow> is_boundary s b \<Longrightarrow> is_boundary (take b s) i \<Longrightarrow> is_boundary s i"
  using boundary_left[of "drop b s" "take b s" i] utf8_split[of s b] by simp

lemma slice_to: "is_boundary s b \<Longrightarrow> str_to b s = Some (take b s)"
  by (simp add: str_to_def str_slice_def)

lemma slice_from: "is_boundary s a \<Longrightarrow> str_from a s = Some (drop a s)"
  using boundary_le[of s a] by (simp add: str_from_def str_slice_def)

lemma slice_between: "is_boundary s a \<Longrightarrow> is_boundary s b \<Longrightarrow> a \<le> b \<Longrightarrow> str_slice a b s = Some (take (b - a) (drop a s))"
  by (simp add: str_slice_def)

lemma drain_ok:
  assumes "text_ok s" "is_boundary s a" "is_boundary s b" "a \<le> b"
  shows "\<exists>t. str_drain a b s = Some t \<and> text_ok t \<and> is_boundary t a"
proof -
  have f: "fine (take a s)" "fine (drop b s)" using assms fine_split by (auto simp: text_ok_def)
  moreover have "length (take a s @ drop b s) \<le> length s" using boundary_le[OF assms(3)] assms(4) by simp
  ultimately have "text_ok (take a s @ drop b s)" using assms(1) by (meson text_ok_def fine_append order_trans)
  moreover have "is_boundary (take a s @ drop b s) a"
    using boundary_append[OF fine_utf8[OF f(2)], of "take a s"] boundary_le[OF assms(2)] by (simp add: min_absorb2)
  ultimately show ?thesis using assms by (simp add: str_drain_def)
qed

lemma insert_ok:
  assumes "text_ok s" "fine t" "is_boundary s i" "length s + length t \<le> MAX_BUFFER_BYTES"
  shows "str_insert i t s = Some (take i s @ t @ drop i s)" "text_ok (take i s @ t @ drop i s)"
proof -
  show "str_insert i t s = Some (take i s @ t @ drop i s)" using assms(3) by (simp add: str_insert_def)
  have "fine (take i s)" "fine (drop i s)" using assms fine_split by (auto simp: text_ok_def)
  then show "text_ok (take i s @ t @ drop i s)" using assms boundary_le[OF assms(3)] by (simp add: text_ok_def fine_append)
qed

section \<open>The operations\<close>

lemma insert_good:
  assumes "segments G" "ed_ok e" "utf8 s"
  shows "good (insert_text G e s)"
proof -
  let ?t = "sanitize_and_normalize s" and ?e1 = "clamp_cursor G e"
  have e1: "ed_ok ?e1" using assms clamp_ok by blast
  show ?thesis
  proof (cases "s = [] \<or> ?t = [] \<or> MAX_BUFFER_BYTES < length (ed_text e) + length ?t")
    case False
    have "fine ?t" using sanitized_fine assms(3) by blast
    note ins = insert_ok[OF ed_okD(1)[OF e1] this ed_okD(3)[OF e1]]
    let ?new = "take (ed_cursor ?e1) (ed_text e) @ ?t @ drop (ed_cursor ?e1) (ed_text e)"
    have n: "text_ok ?new" "str_insert (ed_cursor ?e1) ?t (ed_text ?e1) = Some ?new" using ins False by simp_all
    let ?e2 = "?e1\<lparr>ed_text := ?new, ed_cursor := ed_cursor ?e1 + length ?t\<rparr>"
    have "is_boundary ?new (ed_cursor (clamp_cursor_forward G ?e2))"
      using clamp_forward_boundary[OF assms(1), of ?e2] n(1) by (simp add: text_ok_def fine_utf8)
    then have "ed_ok ((clamp_cursor_forward G ?e2)\<lparr>ed_index := None\<rparr>)"
      using e1 n(1) by (auto simp: ed_ok_def clamp_cursor_forward_def split: if_splits)
    with n False show ?thesis by (simp add: insert_text_def Let_def)
  next
    case True
    with assms(2) show ?thesis by (auto simp: insert_text_def Let_def)
  qed
qed

lemma set_ok:
  assumes "segments G" "ed_ok e" "utf8 s"
  shows "\<exists>e'. set_text G e s = Some e' \<and> ed_ok e'"
proof -
  let ?t = "sanitize_and_normalize s"
  have f: "fine ?t" using sanitized_fine assms(3) by blast
  define n where "n = budget_boundary MAX_BUFFER_BYTES (indices 0 (G ?t)) 0"
  have b: "is_boundary ?t n" using search_boundary(5)[OF assms(1) fine_utf8[OF f]] by (simp add: n_def)
  have le: "n \<le> MAX_BUFFER_BYTES" by (simp add: n_def budget_le)
  obtain u where u: "(if MAX_BUFFER_BYTES < length ?t then truncate_to_grapheme_budget G ?t MAX_BUFFER_BYTES else Some ?t) = Some u"
    and ok: "text_ok u"
  proof (cases "MAX_BUFFER_BYTES < length ?t")
    case True
    have "truncate_to_grapheme_budget G ?t MAX_BUFFER_BYTES = Some (take n ?t)"
      using True slice_to[OF b] by (simp add: truncate_to_grapheme_budget_def n_def)
    moreover have "text_ok (take n ?t)" using fine_split[OF f b] le by (simp add: text_ok_def)
    ultimately show ?thesis using that True by simp
  next
    case False
    with that[of ?t] f show ?thesis by (simp add: text_ok_def)
  qed
  let ?e = "e\<lparr>ed_text := u, ed_cursor := length u\<rparr>"
  have "is_boundary u (ed_cursor (clamp_cursor G ?e))"
    by (simp add: clamp_cursor_def)
  then have "ed_ok ((clamp_cursor G ?e)\<lparr>ed_index := None\<rparr>)" using assms(2) ok by (simp add: ed_ok_def clamp_cursor_def)
  with u show ?thesis by (simp add: set_text_def Let_def)
qed

lemma clear_ok: "ed_ok e \<Longrightarrow> ed_ok (clear_text e)"
  by (simp add: ed_ok_def clear_text_def)

lemma remember_ok:
  assumes "list_all P h" "P s" "distinct_adj h" "length h \<le> MAX_HISTORY_ENTRIES"
  shows "list_all P (remember h s)" "distinct_adj (remember h s)" "length (remember h s) \<le> MAX_HISTORY_ENTRIES"
proof -
  have tl: "list_all P (tl h)" "distinct_adj (tl h)" "tl h \<noteq> [] \<Longrightarrow> last (tl h) = last h"
    using assms(1,3) by (cases h; auto simp: distinct_adj_Cons)+
  show "list_all P (remember h s)" using assms(1,2) tl by (simp add: remember_def)
  show "distinct_adj (remember h s)" using assms(3) tl by (auto simp: remember_def distinct_adj_append_iff)
  show "length (remember h s) \<le> MAX_HISTORY_ENTRIES" using assms(4) by (auto simp: remember_def MAX_HISTORY_ENTRIES_def)
qed

lemma submit_ok: "ed_ok e \<Longrightarrow> ed_ok (fst (submit_text e))"
  using remember_ok[of "\<lambda>s. text_ok s \<and> trim s \<noteq> []" "ed_history e" "ed_text e"]
  by (auto simp: ed_ok_def submit_text_def)

lemma grapheme_moves_good:
  assumes "segments G" "ed_ok e"
  shows "good (Some (move_grapheme_backward G e))" "good (Some (move_grapheme_forward G e))"
proof -
  have e1: "ed_ok (clamp_cursor G e)" using assms clamp_ok by blast
  note s = search_boundary[OF assms(1) ed_okD(2)[OF e1]]
  show "good (Some (move_grapheme_backward G e))" using s(3) e1 by (auto simp: move_grapheme_backward_def Let_def good_def)
  show "good (Some (move_grapheme_forward G e))" using s(4) e1 by (auto simp: move_grapheme_forward_def Let_def good_def)
qed

lemma word_moves_good:
  assumes "segments G" "ed_ok e"
  shows "good (move_word_backward G e)" "good (move_word_forward G e)"
proof -
  let ?e1 = "clamp_cursor G e"
  have e1: "ed_ok ?e1" using assms clamp_ok by blast
  note b = ed_okD(3)[OF e1]
  have c: "ed_ok (clamp_cursor G (?e1\<lparr>ed_cursor := n\<rparr>))" for n
    using clamp_boundary[OF assms(1), of "?e1\<lparr>ed_cursor := n\<rparr>"] ed_okD(2)[OF e1] e1 by (auto simp: ed_ok_def)
  show "good (move_word_backward G e)" using slice_to[OF b] c e1 by (auto simp: move_word_backward_def Let_def)
  show "good (move_word_forward G e)" using slice_from[OF b] c e1 by (auto simp: move_word_forward_def Let_def)
qed

lemma line_moves_good:
  assumes "segments G" "ed_ok e"
  shows "good (move_to_line_start G e)" "good (move_to_line_end G e)"
proof -
  let ?e1 = "clamp_cursor G e"
  have e1: "ed_ok ?e1" using assms clamp_ok by blast
  note b = ed_okD(3)[OF e1] and u = ed_okD(2)[OF e1]
  let ?s = "ed_text ?e1" and ?c = "ed_cursor ?e1"
  have split: "?s = take ?c ?s @ drop ?c ?s" "utf8 (take ?c ?s)" "utf8 (drop ?c ?s)" "length (take ?c ?s) = ?c"
    using utf8_split[OF u b] boundary_le[OF b] by simp_all
  have "is_boundary ?s (line_start (take ?c ?s))"
    using boundary_left[OF split(3) line_start_boundary[OF split(2)]] split(1) by simp
  then show "good (move_to_line_start G e)" using slice_to[OF b] e1 by (auto simp: move_to_line_start_def Let_def)
  have "is_boundary ?s (?c + i)" if "find_nl (drop ?c ?s) = Some i" for i
  proof -
    from find_nl_Some[OF that] obtain x y where d: "drop ?c ?s = x @ CHR 0x0A # y" and i: "i = length x" by blast
    have "\<not> is_continuation (CHR 0x0A)" by code_simp
    then have "is_boundary (drop ?c ?s) i" using d i by (simp add: is_boundary_def)
    from boundary_right[OF split(3) this, of "take ?c ?s"] split show ?thesis by simp
  qed
  then show "good (move_to_line_end G e)" using slice_from[OF b] e1
    by (auto simp: move_to_line_end_def Let_def split: option.splits)
qed

text \<open>Deleting between two boundaries.\<close>

lemma delete_good:
  assumes "ed_ok e" "is_boundary (ed_text e) a" "is_boundary (ed_text e) b" "a \<le> b"
  shows "good (do { t \<leftarrow> str_drain a b (ed_text e); Some (e\<lparr>ed_text := t, ed_cursor := a, ed_index := None\<rparr>, True) })"
  using drain_ok[OF ed_okD(1)[OF assms(1)] assms(2-4)] assms(1) by auto

lemma delete_here_good:
  assumes "ed_ok e" "is_boundary (ed_text e) b" "ed_cursor e \<le> b"
  shows "good (do { t \<leftarrow> str_drain (ed_cursor e) b (ed_text e); Some (e\<lparr>ed_text := t, ed_index := None\<rparr>, True) })"
  using drain_ok[OF ed_okD(1)[OF assms(1)] ed_okD(3)[OF assms(1)] assms(2,3)] assms(1) by (auto simp: ed_ok_def)

lemma grapheme_deletes_good:
  assumes "segments G" "ed_ok e"
  shows "good (delete_grapheme_backward G e)" "good (delete_grapheme_forward G e)"
proof -
  let ?e1 = "clamp_cursor G e"
  have e1: "ed_ok ?e1" using assms clamp_ok by blast
  note b = ed_okD(3)[OF e1] and u = ed_okD(2)[OF e1]
  show "good (delete_grapheme_backward G e)"
  proof (cases "ed_cursor ?e1 = 0")
    case False
    let ?p = "prev_boundary (ed_cursor ?e1) (indices 0 (G (ed_text ?e1))) 0"
    have "?p \<le> ed_cursor ?e1" using prev_less[of 0 "ed_cursor ?e1"] False less_imp_le by blast
    from delete_good[OF e1 search_boundary(3)[OF assms(1) u] b this] False show ?thesis
      by (simp add: delete_grapheme_backward_def Let_def)
  qed (use e1 in \<open>simp add: delete_grapheme_backward_def Let_def\<close>)
  show "good (delete_grapheme_forward G e)"
  proof (cases "length (ed_text ?e1) \<le> ed_cursor ?e1")
    case False
    let ?after = "drop (ed_cursor ?e1) (ed_text ?e1)"
    have f: "str_from (ed_cursor ?e1) (ed_text ?e1) = Some ?after" using slice_from[OF b] .
    show ?thesis
    proof (cases "G ?after")
      case Nil
      with f e1 False show ?thesis by (simp add: delete_grapheme_forward_def Let_def)
    next
      case (Cons g gs)
      have ua: "utf8 ?after" using utf8_split[OF u b] by simp
      have "?after = g @ concat gs" using segments_concat[OF assms(1), of ?after] Cons by simp
      moreover have "is_boundary (concat (G ?after)) (length g)"
        using cut_boundary[of "[g]" gs] segments_utf8[OF assms(1) ua] Cons by simp
      ultimately have "is_boundary ?after (length g)" using Cons by simp
      from boundary_drop[OF u b this] have "is_boundary (ed_text ?e1) (ed_cursor ?e1 + length g)" .
      from delete_here_good[OF e1 this] f Cons False e1 show ?thesis
        by (simp add: delete_grapheme_forward_def Let_def)
    qed
  qed (use e1 in \<open>simp add: delete_grapheme_forward_def Let_def\<close>)
qed

lemma word_delete_good:
  assumes "segments G" "ed_ok e"
  shows "good (delete_word_backward G e)"
proof -
  let ?e1 = "clamp_cursor G e" let ?before = "take (ed_cursor ?e1) (ed_text ?e1)"
  have e1: "ed_ok ?e1" using assms clamp_ok by blast
  note b = ed_okD(3)[OF e1]
  have u: "utf8 ?before" "utf8 (drop (ed_cursor ?e1) (ed_text ?e1))" using utf8_split[OF ed_okD(2)[OF e1] b] by auto
  have "is_boundary (ed_text ?e1) (word_start ?before)"
    using boundary_left[OF u(2) word_start_boundary[OF u(1)]] by simp
  from delete_good[OF e1 this b] slice_to[OF b] e1 show ?thesis
    by (auto simp: delete_word_backward_def Let_def)
qed

lemma kill_start_good:
  assumes "segments G" "ed_ok e"
  shows "good (kill_to_line_start G e)"
proof -
  let ?e1 = "clamp_cursor G e" let ?before = "take (ed_cursor ?e1) (ed_text ?e1)"
  have e1: "ed_ok ?e1" using assms clamp_ok by blast
  note b = ed_okD(3)[OF e1]
  have u: "utf8 ?before" "utf8 (drop (ed_cursor ?e1) (ed_text ?e1))" using utf8_split[OF ed_okD(2)[OF e1] b] by auto
  let ?s = "line_start ?before"
  have s: "is_boundary (ed_text ?e1) ?s" using boundary_left[OF u(2) line_start_boundary[OF u(1)]] by simp
  have "?s < ed_cursor ?e1 \<or> 0 < ?s \<and> ed_cursor ?e1 = ?s \<or> \<not> ?s < ed_cursor ?e1 \<and> \<not> (0 < ?s \<and> ed_cursor ?e1 = ?s)" by argo
  then consider "?s < ed_cursor ?e1" | "0 < ?s" "ed_cursor ?e1 = ?s" | "\<not> ?s < ed_cursor ?e1" "\<not> (0 < ?s \<and> ed_cursor ?e1 = ?s)"
    by (elim disjE conjE) assumption+
  then show ?thesis
  proof cases
    case 1
    with delete_good[OF e1 s b] slice_to[OF b] show ?thesis by (simp add: kill_to_line_start_def Let_def)
  next
    case 2
    obtain x y where p: "?before = x @ y" "?s = length x" "x = [] \<or> last x = CHR 0x0A" using line_start_parts[of ?before] by blast
    then obtain x' where x: "x = x' @ [CHR 0x0A]" using 2(1) by (cases x rule: rev_cases) auto
    have "\<not> is_continuation (CHR 0x0A)" by code_simp
    then have "is_boundary ?before (length x')" using p(1) x by (simp add: is_boundary_def)
    from boundary_left[OF u(2) this] p(2) x have "is_boundary (ed_text ?e1) (?s - 1)" by simp
    from delete_good[OF e1 this s] 2 slice_to[OF b] show ?thesis by (simp add: kill_to_line_start_def Let_def)
  next
    case 3
    with slice_to[OF b] e1 show ?thesis by (auto simp: kill_to_line_start_def Let_def)
  qed
qed

lemma kill_end_good:
  assumes "segments G" "ed_ok e"
  shows "good (kill_to_line_end G e)"
proof -
  let ?e1 = "clamp_cursor G e" let ?after = "drop (ed_cursor ?e1) (ed_text ?e1)"
  have e1: "ed_ok ?e1" using assms clamp_ok by blast
  note b = ed_okD(3)[OF e1]
  have u: "utf8 ?after" using utf8_split[OF ed_okD(2)[OF e1] b] by simp
  define off where "off = (case find_nl ?after of Some i \<Rightarrow> i | None \<Rightarrow> length ?after)"
  define n where "n = (if 0 < off then off else 1)"
  show ?thesis
  proof (cases "length (ed_text ?e1) \<le> ed_cursor ?e1")
    case False
    have nb: "is_boundary ?after n"
    proof (cases "find_nl ?after")
      case None
      with False boundary_ends(2)[of ?after] show ?thesis by (simp add: n_def off_def)
    next
      case (Some i)
      from find_nl_Some[OF Some] obtain x y where d: "?after = x @ CHR 0x0A # y" and i: "i = length x" by blast
      have "utf8 y" using utf8_at_nl u d by metis
      have "\<not> is_continuation (CHR 0x0A)" by code_simp
      then have "is_boundary (x @ CHR 0x0A # y) (length x)" by (simp add: is_boundary_def)
      moreover have "is_boundary (x @ CHR 0x0A # y) (Suc (length x))"
        using boundary_append[OF \<open>utf8 y\<close>, of "x @ [CHR 0x0A]"] by simp
      ultimately show ?thesis using Some i unfolding n_def off_def d by (cases x) auto
    qed
    from boundary_drop[OF ed_okD(2)[OF e1] b this] have "is_boundary (ed_text ?e1) (ed_cursor ?e1 + n)" .
    note here = delete_here_good[OF e1 this le_add1]
    have "kill_to_line_end G e = do { t \<leftarrow> str_drain (ed_cursor ?e1) (ed_cursor ?e1 + n) (ed_text ?e1);
        Some (?e1\<lparr>ed_text := t, ed_index := None\<rparr>, True) }"
      using slice_from[OF b] False by (simp add: kill_to_line_end_def Let_def n_def off_def del: clamp_fields)
    with here show ?thesis by simp
  qed (use e1 in \<open>simp add: kill_to_line_end_def Let_def\<close>)
qed

text \<open>The cursor a vertical move picks: after the first graphemes of a line of the text.\<close>

lemma column_boundary:
  assumes "segments G" "utf8 s" "is_boundary s a" "is_boundary s b" "a \<le> b"
  shows "is_boundary s (a + length (concat (take n (G (take (b - a) (drop a s))))))"
proof -
  let ?l = "take (b - a) (drop a s)"
  have u: "utf8 (drop a s)" using utf8_split[OF assms(2,3)] by simp
  have bd: "is_boundary (drop a s) (b - a)"
    using assms(3-5) boundary_le[OF assms(4)] by (auto simp: is_boundary_def)
  have ul: "utf8 ?l" using utf8_split[OF u bd] by simp
  have "concat (G ?l) = ?l" using segments_concat[OF assms(1)] .
  moreover have "is_boundary (concat (take n (G ?l) @ drop n (G ?l))) (length (concat (take n (G ?l))))"
    using segments_utf8[OF assms(1) ul] by (intro cut_boundary) simp
  ultimately have "is_boundary ?l (length (concat (take n (G ?l))))" by simp
  from boundary_drop[OF assms(2,3) boundary_take[OF u bd this]] show ?thesis .
qed

lemma recall_ok: "ed_ok e \<Longrightarrow> i < length (ed_history e) \<Longrightarrow> \<exists>e2. recall e i = Some e2 \<and> ed_ok e2"
  by (auto simp: recall_def ed_ok_def list_all_length)

lemma nl_boundary: "is_boundary (a @ CHR 0x0A # b) (length a)"
proof -
  have "\<not> is_continuation (CHR 0x0A)" by code_simp
  then show ?thesis by (simp add: is_boundary_def)
qed

lemma up_good:
  assumes "segments G" "ed_ok e"
  shows "good (handle_up G e)"
proof -
  let ?e1 = "clamp_cursor G e"
  let ?s = "ed_text ?e1" and ?c = "ed_cursor ?e1"
  have e1: "ed_ok ?e1" using assms clamp_ok by blast
  note b = ed_okD(3)[OF e1] and u = ed_okD(2)[OF e1]
  have ub: "utf8 (take ?c ?s)" "utf8 (drop ?c ?s)" using utf8_split[OF u b] by simp_all
  show ?thesis
  proof (cases "rfind_nl (take ?c ?s)")
    case None
    have f: "ed_history ?e1 \<noteq> [] \<Longrightarrow> \<exists>e2. recall (?e1\<lparr>ed_draft := ed_text ?e1\<rparr>) (length (ed_history ?e1) - 1) = Some e2 \<and> ed_ok e2"
      by (rule recall_ok) (use e1 in \<open>auto simp: ed_ok_def\<close>)
    have g: "ed_index ?e1 = Some i \<Longrightarrow> \<exists>e2. recall ?e1 (i - 1) = Some e2 \<and> ed_ok e2" for i
      by (rule recall_ok[OF e1]) (use e1 in \<open>auto simp: ed_ok_def\<close>)
    show ?thesis
    proof (cases "ed_index ?e1")
      case None
      with f \<open>rfind_nl _ = None\<close> slice_to[OF b] e1 show ?thesis
        by (cases "ed_history ?e1 = []") (auto simp: handle_up_def Let_def simp del: clamp_fields)
    next
      case (Some i)
      with g[of i] None slice_to[OF b] e1 show ?thesis
        by (cases "0 < i") (auto simp: handle_up_def Let_def simp del: clamp_fields)
    qed
  next
    case (Some nl)
    from rfind_nl_Some[OF Some] obtain x y where t: "take ?c ?s = x @ CHR 0x0A # y" "nl = length x" by blast
    have lt: "nl < ?c" using arg_cong[OF t(1), of length] t(2) boundary_le[OF b] by simp
    have ux: "utf8 x" "utf8 y" using utf8_at_nl[of x y] ub(1) t(1) by simp_all
    have bn: "is_boundary ?s nl" using boundary_take[OF u b, of nl] t nl_boundary[of x y] by simp
    have bn1: "is_boundary ?s (nl + 1)"
      using boundary_take[OF u b, of "nl + 1"] t boundary_append[OF ux(2), of "x @ [CHR 0x0A]"] by simp
    let ?above = "line_start (take nl ?s)"
    have ba: "is_boundary ?s ?above" using boundary_take[OF u bn] line_start_boundary utf8_split[OF u bn] by blast
    have le: "?above \<le> nl" using line_start_le[of "take nl ?s"] by simp
    have new: "ed_ok (?e1\<lparr>ed_cursor := ?above + length (concat (take n (G (take (nl - ?above) (drop ?above ?s)))))\<rparr>)" for n
      using ed_ok_cursor[OF e1 column_boundary[OF assms(1) u ba bn le]] .
    show ?thesis
      using new slice_to[OF b] Some slice_between[OF bn1 b] lt slice_to[OF bn] slice_between[OF ba bn le]
      by (simp add: handle_up_def Let_def del: clamp_fields)
  qed
qed

lemma down_good:
  assumes "segments G" "ed_ok e"
  shows "good (handle_down G e)"
proof -
  let ?e1 = "clamp_cursor G e"
  let ?s = "ed_text ?e1" and ?c = "ed_cursor ?e1"
  have e1: "ed_ok ?e1" using assms clamp_ok by blast
  note b = ed_okD(3)[OF e1] and u = ed_okD(2)[OF e1]
  have ub: "utf8 (take ?c ?s)" "utf8 (drop ?c ?s)" using utf8_split[OF u b] by simp_all
  show ?thesis
  proof (cases "find_nl (drop ?c ?s)")
    case None
    have g: "ed_index ?e1 = Some i \<Longrightarrow> i + 1 < length (ed_history ?e1) \<Longrightarrow> \<exists>e2. recall ?e1 (i + 1) = Some e2 \<and> ed_ok e2" for i
      by (rule recall_ok[OF e1]) simp
    have d: "ed_ok (?e1\<lparr>ed_index := None, ed_text := ed_draft ?e1, ed_draft := [], ed_cursor := length (ed_draft ?e1)\<rparr>)"
      using e1 by (simp add: ed_ok_def)
    show ?thesis
    proof (cases "ed_index ?e1")
      case index: None
      with None slice_from[OF b] e1 show ?thesis by (simp add: handle_down_def Let_def del: clamp_fields)
    next
      case (Some i)
      with g[of i] d None slice_from[OF b] show ?thesis
        by (cases "i + 1 < length (ed_history ?e1)") (auto simp: handle_down_def Let_def simp del: clamp_fields)
    qed
  next
    case (Some nl)
    from find_nl_Some[OF Some] obtain x y where t: "drop ?c ?s = x @ CHR 0x0A # y" "nl = length x" by blast
    have uy: "utf8 y" using utf8_at_nl[of x y] ub(2) t(1) by simp
    define next_start where "next_start = ?c + nl + 1"
    have bn: "is_boundary ?s next_start"
      using boundary_drop[OF u b, of "nl + 1"] t boundary_append[OF uy, of "x @ [CHR 0x0A]"] by (simp add: next_start_def)
    define next_end where "next_end = (case find_nl (drop next_start ?s) of Some i \<Rightarrow> next_start + i | None \<Rightarrow> length ?s)"
    have be: "is_boundary ?s next_end" and le: "next_start \<le> next_end"
    proof -
      have "is_boundary ?s next_end \<and> next_start \<le> next_end"
      proof (cases "find_nl (drop next_start ?s)")
        case none: None
        then show ?thesis using boundary_ends(2)[of ?s] boundary_le[OF bn] by (simp add: next_end_def)
      next
        case some: (Some i)
        from find_nl_Some[OF some] obtain p q where "drop next_start ?s = p @ CHR 0x0A # q" "i = length p" by blast
        then have "is_boundary (drop next_start ?s) i" using nl_boundary by simp
        from boundary_drop[OF u bn this] some show ?thesis by (simp add: next_end_def)
      qed
      then show "is_boundary ?s next_end" "next_start \<le> next_end" by simp_all
    qed
    have bl: "is_boundary ?s (line_start (take ?c ?s))" using boundary_take[OF u b line_start_boundary[OF ub(1)]] .
    have ll: "line_start (take ?c ?s) \<le> ?c" using line_start_le[of "take ?c ?s"] by simp
    have new: "ed_ok (?e1\<lparr>ed_cursor := next_start + length (concat (take n (G (take (next_end - next_start) (drop next_start ?s)))))\<rparr>)" for n
      using ed_ok_cursor[OF e1 column_boundary[OF assms(1) u bn be le]] .
    note facts = new slice_from[OF b] slice_to[OF b] Some slice_between[OF bl b ll] slice_from[OF bn] slice_between[OF bn be le]
    show ?thesis
    proof (cases "find_nl (drop next_start ?s)")
      case none: None
      with facts show ?thesis by (simp add: handle_down_def Let_def next_start_def next_end_def del: clamp_fields)
    next
      case some: (Some i)
      with facts show ?thesis by (simp add: handle_down_def Let_def next_start_def next_end_def del: clamp_fields)
    qed
  qed
qed

section \<open>Keys and runs\<close>

definition key_ok :: "key_event \<Rightarrow> bool" where
  "key_ok k \<longleftrightarrow> (case ke_code k of KeyChar c \<Rightarrow> utf8 c | _ \<Rightarrow> True)"

definition action_ok :: "edit_action \<Rightarrow> bool" where
  "action_ok a \<longleftrightarrow> (case a of PressKey k \<Rightarrow> key_ok k | PasteText s \<Rightarrow> utf8 s | SetText s \<Rightarrow> utf8 s | _ \<Rightarrow> True)"

lemma nl_utf8: "utf8 [CHR 0x0A]"
  by code_simp

lemma key_good:
  assumes "segments G" "ed_ok e" "key_ok k"
  shows "good (handle_key G e k)"
  using assms(3) insert_good[OF assms(1,2)] insert_good[OF assms(1,2) nl_utf8] assms(2)
    grapheme_moves_good[OF assms(1,2)] word_moves_good[OF assms(1,2)] line_moves_good[OF assms(1,2)]
    grapheme_deletes_good[OF assms(1,2)] word_delete_good[OF assms(1,2)] kill_start_good[OF assms(1,2)]
    kill_end_good[OF assms(1,2)] up_good[OF assms(1,2)] down_good[OF assms(1,2)]
  by (cases "ke_code k") (simp_all add: handle_key_def key_ok_def)

lemma good_fst: "good r \<Longrightarrow> \<exists>e. map_option fst r = Some e \<and> ed_ok e"
  by (cases r) (auto simp: good_def)

lemma step_ok: "segments G \<Longrightarrow> ed_ok e \<Longrightarrow> action_ok a \<Longrightarrow> \<exists>e1. edit_step G e a = Some e1 \<and> ed_ok e1"
  using good_fst[OF key_good] good_fst[OF insert_good] set_ok clear_ok submit_ok
  by (cases a) (auto simp: edit_step_def action_ok_def)

lemma run_ok: "segments G \<Longrightarrow> ed_ok e \<Longrightarrow> list_all action_ok as \<Longrightarrow> \<exists>e1. edit_run G e as = Some e1 \<and> ed_ok e1"
proof (induction as arbitrary: e)
  case (Cons a as)
  with step_ok[of G e a] show ?case by auto
qed simp

lemma new_editor_ok: "ed_ok new_editor"
  by (simp add: new_editor_def ed_ok_def MAX_HISTORY_ENTRIES_def)

end
