(* ===== verification/EditorView.thy ===== *)
theory EditorView
  imports EditorSafe "HOL-Library.Sublist"
begin

text \<open>
  The soft-wrapped view of the editor: its rows hold the text, and the cursor is placed where the
  text before it ends.
\<close>

section \<open>Wrapping one line\<close>

abbreviation width_of :: "(string \<Rightarrow> nat) \<Rightarrow> string list \<Rightarrow> nat" where
  "width_of W gs \<equiv> sum_list (map W gs)"

text \<open>The rows of a line as the graphemes they hold: the full ones and the last one.\<close>

fun group_line :: "(string \<Rightarrow> nat) \<Rightarrow> nat \<Rightarrow> string list \<Rightarrow> string list \<Rightarrow> string list list \<times> string list" where
  "group_line W w [] k = ([], k)"
| "group_line W w (g # gs) k =
     (if w < width_of W k + W g \<and> 0 < width_of W k
      then (case group_line W w gs [g] of (a, b) \<Rightarrow> (k # a, b))
      else group_line W w gs (k @ [g]))"

lemma group_break:
  "w < width_of W k + W g \<and> 0 < width_of W k \<Longrightarrow> group_line W w (g # gs) k = (case group_line W w gs [g] of (a, b) \<Rightarrow> (k # a, b))"
  by (simp only: group_line.simps if_True simp_thms)

lemma group_keep:
  "\<not> (w < width_of W k + W g \<and> 0 < width_of W k) \<Longrightarrow> group_line W w (g # gs) k = group_line W w gs (k @ [g])"
  by (simp only: group_line.simps if_False)

lemma wrap_acc: "wrap_line W w gs rows cur cw = (case wrap_line W w gs [] cur cw of (a, b, c) \<Rightarrow> (rows @ a, b, c))"
proof (induction gs arbitrary: rows cur cw)
  case (Cons g gs)
  show ?case
    using Cons.IH[of "rows @ [cur]" g "W g"] Cons.IH[of "[cur]" g "W g"] Cons.IH[of rows "cur @ g" "cw + W g"]
    by (auto split: prod.splits)
qed simp

lemma wrap_break:
  "w < cw + W g \<Longrightarrow> 0 < cw \<Longrightarrow> wrap_line W w gs [] g (W g) = (a, b, c) \<Longrightarrow> wrap_line W w (g # gs) [] cur cw = (cur # a, b, c)"
  using wrap_acc[of W w gs "[cur]" g "W g"] by simp

lemma wrap_keep:
  "\<not> (w < cw + W g \<and> 0 < cw) \<Longrightarrow> wrap_line W w (g # gs) rows cur cw = wrap_line W w gs rows (cur @ g) (cw + W g)"
  by (simp only: wrap_line.simps if_False)

lemma wrap_group:
  "group_line W w gs k = (a, b) \<Longrightarrow>
     wrap_line W w gs [] (concat k) (width_of W k) = (map concat a, concat b, width_of W b)"
proof (induction gs arbitrary: k a b)
  case (Cons g gs)
  show ?case
  proof (cases "w < width_of W k + W g \<and> 0 < width_of W k")
    case True
    obtain a' b' where w: "group_line W w gs [g] = (a', b')" by force
    have "(a, b) = (k # a', b')" using group_break[OF True, of gs] w Cons.prems by simp
    moreover have "wrap_line W w gs [] g (W g) = (map concat a', concat b', width_of W b')"
      using Cons.IH[OF w] by simp
    note wrap_break[OF conjunct1[OF True] conjunct2[OF True] this, of "concat k"]
    ultimately show ?thesis by simp
  next
    case False
    from Cons.IH[OF trans[OF sym[OF group_keep[OF False]] Cons.prems]] show ?thesis
      unfolding wrap_keep[of w "width_of W k" W g, OF False] by simp
  qed
qed simp

text \<open>The rows hold the graphemes in order, and none is wider than the view.\<close>

lemma group_content:
  "group_line W w gs k = (a, b) \<Longrightarrow> concat (a @ [b]) = k @ gs \<and> prefix k (hd (a @ [b]))"
proof (induction gs arbitrary: k a b)
  case Nil
  then show ?case by simp
next
  case (Cons g gs)
  show ?case
  proof (cases "w < width_of W k + W g \<and> 0 < width_of W k")
    case True
    obtain a' b' where w: "group_line W w gs [g] = (a', b')" by force
    have "(a, b) = (k # a', b')" using group_break[OF True, of gs] w Cons.prems by simp
    with Cons.IH[OF w] show ?thesis by simp
  next
    case False
    have "group_line W w gs (k @ [g]) = (a, b)" using trans[OF sym[OF group_keep[OF False]] Cons.prems] .
    from Cons.IH[OF this] show ?thesis by (auto dest: append_prefixD)
  qed
qed

lemma group_width:
  "group_line W w gs k = (a, b) \<Longrightarrow> \<forall>g\<in>set gs. W g \<le> w \<Longrightarrow> width_of W k \<le> w \<Longrightarrow> width_of W b \<le> w"
proof (induction gs arbitrary: k a b)
  case (Cons g gs)
  show ?case
  proof (cases "w < width_of W k + W g \<and> 0 < width_of W k")
    case True
    obtain a' b' where w: "group_line W w gs [g] = (a', b')" by force
    have "(a, b) = (k # a', b')" using group_break[OF True, of gs] w Cons.prems(1) by simp
    with Cons.IH[OF w] Cons.prems(2) show ?thesis by simp
  next
    case False
    have w: "group_line W w gs (k @ [g]) = (a, b)" using trans[OF sym[OF group_keep[OF False]] Cons.prems(1)] .
    have "n + W g \<le> w" if "\<not> (w < n + W g \<and> 0 < n)" for n using that Cons.prems(2) by (cases "n = 0") simp_all
    from this[OF False] have "width_of W (k @ [g]) \<le> w" by simp
    with Cons.IH[OF w] Cons.prems(2) show ?thesis by simp
  qed
qed simp

text \<open>The cursor in the middle of a line, and past it.\<close>

lemma cursor_break:
  "w < width_of W k0 + W g \<and> 0 < width_of W k0 \<Longrightarrow> byte \<noteq> t \<Longrightarrow>
     cursor_line W w t (g # gs) byte row (width_of W k0) (width_of W k0) = cursor_line W w t gs (byte + length g) (row + 1) (W g) (W g)"
  unfolding cursor_line.simps Let_def by (simp only: if_True) simp

lemma cursor_keep:
  "\<not> (w < width_of W k0 + W g \<and> 0 < width_of W k0) \<Longrightarrow> byte \<noteq> t \<Longrightarrow>
     cursor_line W w t (g # gs) byte row (width_of W k0) (width_of W k0)
       = cursor_line W w t gs (byte + length g) row (width_of W (k0 @ [g])) (width_of W (k0 @ [g]))"
  unfolding cursor_line.simps Let_def by (simp only: if_False) simp

lemma cursor_inside:
  "group_line W w (xs @ y # ys) k0 = (a, b) \<Longrightarrow> [] \<notin> set xs \<Longrightarrow> 0 < w \<Longrightarrow>
     \<exists>r k. cursor_line W w (byte + length (concat xs)) (xs @ y # ys) byte row (width_of W k0) (width_of W k0) = Inl (width_of W k, row + r)
       \<and> r < length (a @ [b]) \<and> prefix k ((a @ [b]) ! r) \<and> concat (take r (a @ [b])) @ k = k0 @ xs
       \<and> width_of W k \<le> w \<and> (0 < W y \<longrightarrow> width_of W k < w)"
proof (induction xs arbitrary: byte row k0 a b)
  case Nil
  show ?case
  proof (cases "w < width_of W k0 + W y \<and> 0 < width_of W k0")
    case True
    obtain a' b' where w: "group_line W w ys [y] = (a', b')" by force
    have "(a, b) = (k0 # a', b')" using group_break[OF True, of ys] w Nil.prems(1) by simp
    with True Nil.prems(3) show ?thesis by (intro exI[of _ 1] exI[of _ "[]"]) simp
  next
    case False
    have "prefix k0 (hd (a @ [b]))" using group_content[OF Nil.prems(1)] by simp
    then have "prefix k0 ((a @ [b]) ! 0)" by (cases a) auto
    moreover have "cursor_line W w byte (y # ys) byte row n n = Inl (n, row) \<and> n \<le> w \<and> (0 < W y \<longrightarrow> n < w)"
      if "\<not> (w < n + W y \<and> 0 < n)" for n
      using that Nil.prems(3) by (cases "n = 0") auto
    note this[OF False]
    ultimately show ?thesis by (intro exI[of _ 0] exI[of _ k0]) simp
  qed
next
  case (Cons g xs)
  have ne: "byte \<noteq> byte + length (concat (g # xs))" and add: "byte + length (concat (g # xs)) = byte + length g + length (concat xs)"
    using Cons.prems(2) by auto
  show ?case
  proof (cases "w < width_of W k0 + W g \<and> 0 < width_of W k0")
    case True
    obtain a' b' where w: "group_line W w (xs @ y # ys) [g] = (a', b')" by force
    have abc: "(a, b) = (k0 # a', b')"
      using group_break[OF True, of "xs @ y # ys"] w Cons.prems(1) by simp
    from Cons.IH[OF w, of "byte + length g" "row + 1"] Cons.prems obtain r k where
      rk: "cursor_line W w (byte + length g + length (concat xs)) (xs @ y # ys) (byte + length g) (row + 1) (W g) (W g) = Inl (width_of W k, row + 1 + r)"
      "r < length (a' @ [b'])" "prefix k ((a' @ [b']) ! r)" "concat (take r (a' @ [b'])) @ k = g # xs"
      "width_of W k \<le> w" "0 < W y \<longrightarrow> width_of W k < w" by auto
    have a: "a = k0 # a'" "b = b'" using abc by simp_all
    from rk show ?thesis
      unfolding append_Cons[of g] cursor_break[OF True ne] unfolding a add by (intro exI[of _ "Suc r"] exI[of _ k]) simp
  next
    case False
    have w: "group_line W w (xs @ y # ys) (k0 @ [g]) = (a, b)"
      using trans[OF sym[OF group_keep[OF False]] Cons.prems(1)[unfolded append_Cons]] .
    from Cons.IH[OF w, of "byte + length g" row] Cons.prems obtain r k where
      "cursor_line W w (byte + length g + length (concat xs)) (xs @ y # ys) (byte + length g) row (width_of W (k0 @ [g])) (width_of W (k0 @ [g])) = Inl (width_of W k, row + r)"
      "r < length (a @ [b])" "prefix k ((a @ [b]) ! r)" "concat (take r (a @ [b])) @ k = (k0 @ [g]) @ xs"
      "width_of W k \<le> w" "0 < W y \<longrightarrow> width_of W k < w" by auto
    then show ?thesis unfolding append_Cons[of g] cursor_keep[OF False ne] unfolding add by (intro exI[of _ r] exI[of _ k]) simp
  qed
qed

lemma cursor_past:
  "group_line W w gs k0 = (a, b) \<Longrightarrow> [] \<notin> set gs \<Longrightarrow> byte + length (concat gs) \<le> target \<Longrightarrow>
     cursor_line W w target gs byte row (width_of W k0) (width_of W k0) = Inr (byte + length (concat gs), row + length a, width_of W b)"
proof (induction gs arbitrary: byte row k0 a b)
  case (Cons g gs)
  have ne: "byte \<noteq> target" using Cons.prems(2,3) by auto
  show ?case
  proof (cases "w < width_of W k0 + W g \<and> 0 < width_of W k0")
    case True
    obtain a' b' where w: "group_line W w gs [g] = (a', b')" by force
    have abc: "(a, b) = (k0 # a', b')" using group_break[OF True, of gs] w Cons.prems(1) by simp
    from Cons.IH[OF w, of "byte + length g" "row + 1"] Cons.prems abc show ?thesis
      unfolding cursor_break[OF True ne] by (simp add: add.assoc)
  next
    case False
    have w: "group_line W w gs (k0 @ [g]) = (a, b)" using trans[OF sym[OF group_keep[OF False]] Cons.prems(1)] .
    from Cons.IH[OF w, of "byte + length g" row] Cons.prems show ?thesis
      unfolding cursor_keep[OF False ne] by (simp add: add.assoc)
  qed
qed simp

text \<open>A target that is not met by the walk is passed like any other that is not met.\<close>

lemma cursor_line_misses:
  "(\<forall>xs ys. gs = xs @ ys \<and> ys \<noteq> [] \<longrightarrow> target \<noteq> byte + length (concat xs)) \<Longrightarrow>
     (\<forall>xs ys. gs = xs @ ys \<and> ys \<noteq> [] \<longrightarrow> target' \<noteq> byte + length (concat xs)) \<Longrightarrow>
     cursor_line W w target gs byte row col lw = cursor_line W w target' gs byte row col lw"
proof (induction gs arbitrary: byte row col lw)
  case (Cons g gs)
  have skip: "t \<noteq> byte \<and> (\<forall>xs ys. gs = xs @ ys \<and> ys \<noteq> [] \<longrightarrow> t \<noteq> byte + length g + length (concat xs))"
    if "\<forall>xs ys. g # gs = xs @ ys \<and> ys \<noteq> [] \<longrightarrow> t \<noteq> byte + length (concat xs)" for t
  proof -
    have "t \<noteq> byte + length (concat (g # xs))" if "gs = xs @ ys" "ys \<noteq> []" for xs ys
      using \<open>\<forall>xs ys. g # gs = xs @ ys \<and> ys \<noteq> [] \<longrightarrow> t \<noteq> byte + length (concat xs)\<close> that by (metis append_Cons)
    moreover have "t \<noteq> byte" using that[rule_format, of "[]" "g # gs"] by simp
    ultimately show ?thesis by (simp add: add.assoc)
  qed
  from Cons.IH[of "byte + length g"] skip[OF Cons.prems(1)] skip[OF Cons.prems(2)] show ?case by (simp add: Let_def)
qed simp

section \<open>All lines\<close>

text \<open>The rows of all lines, as graphemes.\<close>

fun group_lines :: "(string \<Rightarrow> string list) \<Rightarrow> (string \<Rightarrow> nat) \<Rightarrow> nat \<Rightarrow> string list \<Rightarrow> string list list" where
  "group_lines G W w [] = []"
| "group_lines G W w (l # ls) =
     (case group_line W w (G l) [] of
        (a, b) \<Rightarrow> (a @ [b]) @ (if l \<noteq> [] \<and> ls = [] \<and> width_of W b = w then [[]] else []) @ group_lines G W w ls)"

lemma group_lines_nonempty: "ls \<noteq> [] \<Longrightarrow> group_lines G W w ls \<noteq> []"
  by (cases ls) (auto split: prod.splits)

lemma segments_Nil: "segments G \<Longrightarrow> G [] = []"
  unfolding segments_def by (metis concat_eq_Nil_conv last_in_set)

lemma wrap_group_lines: "segments G \<Longrightarrow> wrap_lines G W w ls = map concat (group_lines G W w ls)"
proof (induction ls)
  case (Cons l ls)
  show ?case
  proof (cases "l = []")
    case True
    with Cons segments_Nil[OF Cons.prems] show ?thesis by simp
  next
    case False
    obtain a b where g: "group_line W w (G l) [] = (a, b)" by force
    with wrap_group[of W w "G l" "[]"] have "wrap_line W w (G l) [] [] 0 = (map concat a, concat b, width_of W b)" by simp
    with Cons False g show ?thesis by simp
  qed
qed simp

lemma group_lines_content: "concat (group_lines G W w ls) = concat (map G ls)"
proof (induction ls)
  case (Cons l ls)
  obtain a b where g: "group_line W w (G l) [] = (a, b)" by force
  from group_content[OF g] Cons g show ?case by simp
qed simp

text \<open>An offset at a grapheme boundary.\<close>

definition at_cut :: "(string \<Rightarrow> string list) \<Rightarrow> string \<Rightarrow> nat \<Rightarrow> bool" where
  "at_cut G s n \<longleftrightarrow> (\<exists>xs ys. G s = xs @ ys \<and> n = length (concat xs))"

lemma at_cut_line:
  assumes G: "segments G" and l: "CRET \<notin> set l" "utf8 l" "utf8 t" and c: "at_cut G (l @ CHR 0x0A # t) n"
  shows "at_cut G l n \<and> n \<le> length l \<or> (\<exists>m. n = length l + 1 + m \<and> at_cut G t m)"
proof -
  obtain xs ys where g: "G l @ [CHR 0x0A] # G t = xs @ ys" and n: "n = length (concat xs)"
    using c G l by (auto simp: at_cut_def segments_def)
  from g consider us where "xs = G l @ us" "[CHR 0x0A] # G t = us @ ys" | us where "G l = xs @ us" "ys = us @ [CHR 0x0A] # G t"
    by (auto simp: append_eq_append_conv2)
  then show ?thesis
  proof cases
    case (1 us)
    note cl = segments_concat[OF G, of l]
    show ?thesis
    proof (cases us)
      case Nil
      with 1 n cl have "at_cut G l n" unfolding at_cut_def by (intro exI[of _ "G l"] exI[of _ "[]"]) simp
      with 1 n cl Nil show ?thesis by simp
    next
      case (Cons u us')
      with 1 have "G t = us' @ ys" "u = [CHR 0x0A]" by auto
      then have "at_cut G t (length (concat us'))" by (auto simp: at_cut_def)
      with 1 n cl Cons \<open>u = _\<close> show ?thesis by auto
    qed
  next
    case (2 us)
    have "l = concat xs @ concat us" using segments_concat[OF G, of l] 2 by simp
    with 2 n show ?thesis by (auto simp: at_cut_def)
  qed
qed

text \<open>Pieces between line feeds, joined again.\<close>

fun join_nl :: "string list \<Rightarrow> string" where
  "join_nl [] = []"
| "join_nl [l] = l"
| "join_nl (l # ls) = l @ CHR 0x0A # join_nl ls"

lemma join_nl_Cons: "ls \<noteq> [] \<Longrightarrow> join_nl (l # ls) = l @ CHR 0x0A # join_nl ls"
  by (cases ls) auto

lemma utf8_join: "\<forall>l\<in>set ls. utf8 l \<Longrightarrow> utf8 (join_nl ls)"
proof (induction ls rule: join_nl.induct)
  case (3 l l' ls)
  have "utf8 ([CHR 0x0A] @ join_nl (l' # ls))" using 3 nl_utf8 by (intro utf8_append_ok) simp_all
  with 3 show ?case by (simp add: utf8_append_ok)
qed simp_all

lemma split_nl_ne [simp]: "split_nl s \<noteq> []"
  by (cases s) (auto split: list.splits)

lemma join_split: "join_nl (split_nl s) = s"
proof (induction s)
  case (Cons c s)
  obtain p ps where "split_nl s = p # ps" by (cases "split_nl s") auto
  with Cons show ?case by (cases ps) auto
qed simp

lemma split_pieces: "p \<in> set (split_nl s) \<Longrightarrow> CHR 0x0A \<notin> set p \<and> set p \<subseteq> set s"
proof (induction s arbitrary: p)
  case (Cons c s)
  obtain q qs where q: "split_nl s = q # qs" by (cases "split_nl s") auto
  from Cons.prems q consider "p = []" | "p \<in> set (split_nl s)" | "c \<noteq> CHR 0x0A" "p = c # q" by (auto split: if_splits)
  then show ?case
  proof cases
    case 2
    with Cons.IH[OF 2] show ?thesis by auto
  next
    case 3
    with Cons.IH[of q] q show ?thesis by auto
  qed simp
qed simp

abbreviation flat :: "string \<Rightarrow> string" where "flat s \<equiv> filter (\<lambda>c. c \<noteq> CHR 0x0A) s"

lemma flat_id: "CHR 0x0A \<notin> set l \<Longrightarrow> flat l = l"
  by (induction l) auto

text \<open>
  The cursor is placed at the end of what is left of it: its row is one of the rows, its column is
  the width of the first graphemes of that row, and those and the rows above are the text before.
\<close>

definition shown_at :: "(string \<Rightarrow> nat) \<Rightarrow> nat \<Rightarrow> string list list \<Rightarrow> nat \<Rightarrow> nat \<Rightarrow> string \<Rightarrow> bool" where
  "shown_at W w rows col r before \<longleftrightarrow>
     (\<exists>k. r < length rows \<and> prefix k (rows ! r) \<and> col = width_of W k \<and> concat (concat (take r rows) @ k) = before
       \<and> col \<le> w \<and> (list_all (\<lambda>g. 0 < W g) (concat rows) \<longrightarrow> col < w))"

lemma shown_more:
  assumes "shown_at W w rows col r before"
  shows "shown_at W w (rows @ tl_rows) col r before"
proof -
  from assms obtain k where "r < length rows" "prefix k (rows ! r)" "col = width_of W k"
    "concat (concat (take r rows) @ k) = before" "col \<le> w" "list_all (\<lambda>g. 0 < W g) (concat rows) \<longrightarrow> col < w"
    by (auto simp only: shown_at_def)
  then show ?thesis unfolding shown_at_def by (intro exI[of _ k]) (simp add: nth_append)
qed

lemma shown_after:
  assumes "shown_at W w rows col r before"
  shows "shown_at W w (pre @ rows) col (length pre + r) (concat (concat pre) @ before)"
proof -
  from assms obtain k where "r < length rows" "prefix k (rows ! r)" "col = width_of W k"
    "concat (concat (take r rows) @ k) = before" "col \<le> w" "list_all (\<lambda>g. 0 < W g) (concat rows) \<longrightarrow> col < w"
    by (auto simp only: shown_at_def)
  then show ?thesis unfolding shown_at_def by (intro exI[of _ k]) (auto simp: nth_append)
qed

lemma shown_start: "rows \<noteq> [] \<Longrightarrow> 0 < w \<Longrightarrow> shown_at W w rows 0 0 []"
  by (auto simp: shown_at_def intro: exI[of _ "[]"])

lemma cursor_in_line:
  assumes G: "segments G" and w: "0 < w" and W: "\<forall>g\<in>set (G l). W g \<le> w"
    and wl: "group_line W w (G l) [] = (a, b)" and cut: "at_cut G l m"
    and tl_rows: "width_of W b = w \<Longrightarrow> m = length l \<Longrightarrow> tl_rows \<noteq> []"
  shows "\<exists>col r. (case cursor_line W w (byte + m) (G l) byte row 0 0 of Inl p \<Rightarrow> p = (col, row + r)
      | Inr (byte1, row1, col1) \<Rightarrow> byte1 = byte + m \<and> cursor_at w row1 col1 = (col, row + r))
    \<and> shown_at W w ((a @ [b]) @ tl_rows) col r (take m l)"
proof -
  have ne: "[] \<notin> set (G l)" using G by (simp add: segments_def)
  obtain xs ys where g: "G l = xs @ ys" and m: "m = length (concat xs)" using cut by (auto simp: at_cut_def)
  have l: "l = concat xs @ concat ys" using segments_concat[OF G, of l] g by simp
  have gc: "concat (a @ [b]) = G l" using group_content[OF wl] by simp
  show ?thesis
  proof (cases ys)
    case (Cons y ys')
    have g': "xs @ y # ys' = G l" "[] \<notin> set xs" using ne g Cons by auto
    have "group_line W w (xs @ y # ys') [] = (a, b)" using wl g' by simp
    from cursor_inside[OF this g'(2) w, of byte row] obtain r k where
      rk: "cursor_line W w (byte + m) (G l) byte row 0 0 = Inl (width_of W k, row + r)"
      "r < length (a @ [b])" "prefix k ((a @ [b]) ! r)" "concat (take r (a @ [b])) @ k = xs"
      "width_of W k \<le> w" "0 < W y \<longrightarrow> width_of W k < w"
      unfolding g' m[symmetric] by (simp only: list.map sum_list.Nil append_Nil) (elim exE conjE, rule that, assumption+)
    have "0 < W y" if "list_all (\<lambda>g. 0 < W g) (concat (a @ [b]))" using that g Cons unfolding gc by simp
    with rk(2-6) have "shown_at W w (a @ [b]) (width_of W k) r (concat xs)"
      unfolding shown_at_def by (intro exI[of _ k]) simp
    moreover have "take m l = concat xs" using l m by simp
    ultimately have "shown_at W w ((a @ [b]) @ tl_rows) (width_of W k) r (take m l)" using shown_more by metis
    with rk(1) show ?thesis by auto
  next
    case Nil
    have full: "m = length l" "take m l = l" using l m Nil by simp_all
    have past: "cursor_line W w (byte + m) (G l) byte row 0 0 = Inr (byte + m, row + length a, width_of W b)"
      using cursor_past[OF wl ne, of byte "byte + m" row] segments_concat[OF G, of l] full by simp
    have k: "concat (concat a @ b) = l" using gc segments_concat[OF G, of l] by (metis concat.simps concat_append append_Nil2)
    have cw: "width_of W b \<le> w" using group_width[OF wl W] by simp
    show ?thesis
    proof (cases "width_of W b = w")
      case False
      then have "shown_at W w (a @ [b]) (width_of W b) (length a) l" using k cw by (auto simp: shown_at_def)
      from shown_more[OF this, of tl_rows] False cw past full show ?thesis by (auto simp: cursor_at_def)
    next
      case True
      from shown_after[OF shown_start[OF tl_rows[OF True full(1)] w], of W "a @ [b]"] k
      have "shown_at W w ((a @ [b]) @ tl_rows) 0 (length a + 1) l" by simp
      with True past full show ?thesis by (auto simp: cursor_at_def)
    qed
  qed
qed

lemma cursor_shown:
  assumes G: "segments G" and w: "0 < w"
  shows "ls \<noteq> [] \<Longrightarrow> \<forall>l\<in>set ls. CHR 0x0A \<notin> set l \<and> CRET \<notin> set l \<and> utf8 l \<and> (\<forall>g\<in>set (G l). W g \<le> w)
    \<Longrightarrow> at_cut G (join_nl ls) m \<Longrightarrow>
    \<exists>col r. cursor_lines G W w (byte + m) ls byte row 0 = (col, row + r)
      \<and> shown_at W w (group_lines G W w ls) col r (flat (take m (join_nl ls)))"
proof (induction ls arbitrary: byte row m)
  case (Cons l ls)
  obtain a b where wl: "group_line W w (G l) [] = (a, b)" by force
  let ?tl_rows = "(if l \<noteq> [] \<and> ls = [] \<and> width_of W b = w then [[]] else []) @ group_lines G W w ls"
  have R: "group_lines G W w (l # ls) = (a @ [b]) @ ?tl_rows" using wl by simp
  have l: "CHR 0x0A \<notin> set l" "CRET \<notin> set l" "utf8 l" and Wl: "\<forall>g\<in>set (G l). W g \<le> w" using Cons.prems by auto
  have ab: "concat (concat (a @ [b])) = l" using group_content[OF wl] segments_concat[OF G, of l] by simp
  show ?case
  proof (cases "m = 0")
    case True
    with shown_start[OF _ w] group_lines_nonempty[of "l # ls" G W w] w show ?thesis by (auto simp: cursor_at_def simp del: group_lines.simps)
  next
    case m0: False
    have inside: ?thesis if cut: "at_cut G l m" and le: "m \<le> length l" and tk: "flat (take m (join_nl (l # ls))) = take m l"
    proof -
      have "l \<noteq> []" using m0 le by auto
      then have more: "?tl_rows \<noteq> []" if "width_of W b = w" "m = length l" using that group_lines_nonempty[of ls G W w] by auto
      obtain col r where
        c: "case cursor_line W w (byte + m) (G l) byte row 0 0 of Inl p \<Rightarrow> p = (col, row + r)
          | Inr (byte1, row1, col1) \<Rightarrow> byte1 = byte + m \<and> cursor_at w row1 col1 = (col, row + r)"
        and sh: "shown_at W w ((a @ [b]) @ ?tl_rows) col r (take m l)"
        using cursor_in_line[OF G w Wl wl cut, of ?tl_rows, where byte = byte and row = row] more by blast
      have "cursor_lines G W w (byte + m) (l # ls) byte row 0 = (col, row + r)"
      proof (cases "cursor_line W w (byte + m) (G l) byte row 0 0")
        case (Inr x)
        with c m0 show ?thesis by (cases x) simp
      qed (use c m0 in simp)
      with sh show ?thesis unfolding R tk append_assoc by blast
    qed
    show ?thesis
    proof (cases "ls = []")
      case True
      with Cons.prems(3) have cut: "at_cut G l m" by simp
      then have le: "m \<le> length l" using segments_concat[OF G, of l] by (auto simp: at_cut_def)
      have "flat (take m l) = take m l" using l(1) by (intro flat_id) (auto dest: in_set_takeD)
      with inside[OF cut le] True show ?thesis by simp
    next
      case ls: False
      note join = join_nl_Cons[OF ls, of l]
      have "utf8 (join_nl ls)" using Cons.prems(2) by (intro utf8_join) simp
      from at_cut_line[OF G l(2,3) this] Cons.prems(3) join
      consider "at_cut G l m" "m \<le> length l" | m' where "m = length l + 1 + m'" "at_cut G (join_nl ls) m'" by auto
      then show ?thesis
      proof cases
        case 1
        have "flat (take m l) = take m l" using l(1) by (intro flat_id) (auto dest: in_set_takeD)
        with inside[OF 1] join 1(2) show ?thesis by simp
      next
        case (2 m')
        have "[] \<notin> set (G l)" using G by (simp add: segments_def)
        from cursor_past[OF wl this, of byte "byte + m" row] 2 segments_concat[OF G, of l]
        have past: "cursor_line W w (byte + m) (G l) byte row 0 0 = Inr (byte + length l, row + length a, width_of W b)" by simp
        have tk: "flat (take m (join_nl (l # ls))) = concat (concat (a @ [b])) @ flat (take m' (join_nl ls))"
          unfolding ab using 2 join l(1) by (simp add: flat_id)
        have R': "group_lines G W w (l # ls) = (a @ [b]) @ group_lines G W w ls" using R ls by simp
        show ?thesis
        proof (cases "m' = 0")
          case True
          have "shown_at W w (group_lines G W w (l # ls)) 0 (length a + 1) (flat (take m (join_nl (l # ls))))"
            using shown_after[OF shown_start[OF group_lines_nonempty[OF ls] w], of W "a @ [b]"] unfolding R' tk using True by simp
          moreover have "cursor_lines G W w (byte + m) (l # ls) byte row 0 = (0, row + (length a + 1))"
            using past 2 m0 ls True by simp
          ultimately show ?thesis by blast
        next
          case False
          from Cons.IH[OF ls _ 2(2), of "byte + length l + 1" "row + length a + 1"] Cons.prems(2) obtain col r where
            ih: "cursor_lines G W w (byte + length l + 1 + m') ls (byte + length l + 1) (row + length a + 1) 0 = (col, row + length a + 1 + r)"
            "shown_at W w (group_lines G W w ls) col r (flat (take m' (join_nl ls)))" by auto
          have "byte + m = byte + length l + 1 + m'" using 2 by simp
          with past ih(1) 2 ls False m0 have "cursor_lines G W w (byte + m) (l # ls) byte row 0 = (col, row + (length (a @ [b]) + r))"
            by (simp add: add.assoc)
          with shown_after[OF ih(2), of "a @ [b]"] show ?thesis unfolding R' tk by blast
        qed
      qed
    qed
  qed
qed simp

text \<open>
  A cursor that is at no grapheme boundary is never met by the walk: it is drawn where the text ends.
\<close>

lemma at_cut_more:
  assumes G: "segments G" and l: "CRET \<notin> set l" "utf8 l" "utf8 t"
  shows "at_cut G l n \<Longrightarrow> at_cut G (l @ CHR 0x0A # t) n" "at_cut G t n \<Longrightarrow> at_cut G (l @ CHR 0x0A # t) (length l + 1 + n)"
proof -
  have g: "G (l @ CHR 0x0A # t) = G l @ [CHR 0x0A] # G t" using G l by (simp add: segments_def)
  show "at_cut G (l @ CHR 0x0A # t) n" if "at_cut G l n"
  proof -
    from that obtain xs ys where "G l = xs @ ys" "n = length (concat xs)" by (auto simp: at_cut_def)
    then show ?thesis unfolding at_cut_def g by (intro exI[of _ xs] exI[of _ "ys @ [CHR 0x0A] # G t"]) simp
  qed
  show "at_cut G (l @ CHR 0x0A # t) (length l + 1 + n)" if "at_cut G t n"
  proof -
    from that obtain xs ys where "G t = xs @ ys" "n = length (concat xs)" by (auto simp: at_cut_def)
    moreover have "length (concat (G l)) = length l" using segments_concat[OF G, of l] by simp
    ultimately show ?thesis unfolding at_cut_def g by (intro exI[of _ "G l @ [CHR 0x0A] # xs"] exI[of _ ys]) simp
  qed
qed

lemma at_cut_ends: "segments G \<Longrightarrow> at_cut G s 0" "segments G \<Longrightarrow> at_cut G s (length s)"
  using segments_concat[of G s] by (auto simp: at_cut_def intro: exI[of _ "[]"] exI[of _ "G s"])

lemma cursor_line_uncut:
  assumes G: "segments G" and wl: "group_line W w (G l) [] = (a, b)"
    and t: "\<And>n. at_cut G l n \<Longrightarrow> n < length l \<Longrightarrow> t \<noteq> byte + n"
  shows "cursor_line W w t (G l) byte row 0 0 = Inr (byte + length l, row + length a, width_of W b)"
proof -
  have ne: "[] \<notin> set (G l)" and cl: "concat (G l) = l" using G by (simp_all add: segments_def)
  have cut: "at_cut G l (length (concat xs)) \<and> length (concat xs) < length l" if "G l = xs @ ys" "ys \<noteq> []" for xs ys
  proof -
    have "concat ys \<noteq> []" using that ne by (cases ys) auto
    moreover have "l = concat xs @ concat ys" using cl that(1) by simp
    ultimately show ?thesis using that(1) by (auto simp: at_cut_def)
  qed
  have "cursor_line W w t (G l) byte row 0 0 = cursor_line W w (byte + length l) (G l) byte row 0 0"
    by (rule cursor_line_misses) (use cut t in fastforce)+
  also have "\<dots> = Inr (byte + length l, row + length a, width_of W b)"
    using cursor_past[OF wl ne, of byte "byte + length l" row] cl by simp
  finally show ?thesis .
qed

lemma cursor_uncut:
  assumes G: "segments G" and w: "0 < w"
  shows "ls \<noteq> [] \<Longrightarrow> \<forall>l\<in>set ls. CRET \<notin> set l \<and> utf8 l \<Longrightarrow> (\<And>n. at_cut G (join_nl ls) n \<Longrightarrow> t \<noteq> byte + n) \<Longrightarrow>
    cursor_lines G W w t ls byte row 0 = cursor_lines G W w (byte + length (join_nl ls)) ls byte row 0"
proof (induction ls arbitrary: byte row)
  case (Cons l ls)
  obtain a b where wl: "group_line W w (G l) [] = (a, b)" by force
  have t0: "t \<noteq> byte" using Cons.prems(3)[OF at_cut_ends(1)[OF G]] by simp
  have ends: "cursor_lines G W w byte (l # ls) byte row 0 = cursor_at w row 0" by simp
  show ?case
  proof (cases "ls = []")
    case True
    have miss: "cursor_line W w t' (G l) byte row 0 0 = Inr (byte + length l, row + length a, width_of W b)"
      if "t' = t \<or> t' = byte + length l" for t'
      using cursor_line_uncut[OF G wl, of t' byte row] Cons.prems(3) True that by auto
    have "t \<noteq> byte + length l" using Cons.prems(3)[OF at_cut_ends(2)[OF G]] True by simp
    moreover have "G [] = []" "group_line W w [] [] = ([], [])" using segments_Nil[OF G] by simp_all
    ultimately show ?thesis using True t0 miss[of t] miss[of "byte + length l"] wl by (cases "l = []") simp_all
  next
    case False
    note join = join_nl_Cons[OF False, of l]
    have l: "CRET \<notin> set l" "utf8 l" and u: "utf8 (join_nl ls)" using Cons.prems(2) by (simp_all add: utf8_join)
    note more = at_cut_more[OF G l u]
    have tc: "t \<noteq> byte + n" if "at_cut G l n" for n using Cons.prems(3) more(1)[OF that] join by simp
    have tr: "t \<noteq> byte + length l + 1 + n" if "at_cut G (join_nl ls) n" for n
      using Cons.prems(3)[of "length l + 1 + n"] more(2)[OF that] join by simp
    have miss: "cursor_line W w t (G l) byte row 0 0 = Inr (byte + length l, row + length a, width_of W b)"
      by (rule cursor_line_uncut[OF G wl]) (use tc in auto)
    have "t \<noteq> byte + length l" "t \<noteq> byte + length l + 1"
      using tc[OF at_cut_ends(2)[OF G]] tr[OF at_cut_ends(1)[OF G]] by simp_all
    with t0 miss False have lhs: "cursor_lines G W w t (l # ls) byte row 0 = cursor_lines G W w t ls (byte + length l + 1) (row + length a + 1) 0"
      by simp
    define E where "E = byte + length (join_nl (l # ls))"
    have e: "E = byte + length l + 1 + length (join_nl ls)" using join by (simp add: E_def)
    have miss': "cursor_line W w E (G l) byte row 0 0 = Inr (byte + length l, row + length a, width_of W b)"
      by (rule cursor_line_uncut[OF G wl]) (simp add: e)
    have "E \<noteq> byte" "E \<noteq> byte + length l" by (simp_all add: e)
    with miss' False have rhs: "cursor_lines G W w E (l # ls) byte row 0 =
        (if E = byte + length l + 1 then (0, row + length a + 1) else cursor_lines G W w E ls (byte + length l + 1) (row + length a + 1) 0)"
      by simp
    have "cursor_lines G W w (byte + length l + 1) ls (byte + length l + 1) (row + length a + 1) 0 = (0, row + length a + 1)"
      using False w by (cases ls) (simp_all add: cursor_at_def)
    with rhs have "cursor_lines G W w E (l # ls) byte row 0 = cursor_lines G W w E ls (byte + length l + 1) (row + length a + 1) 0"
      by (cases "E = byte + length l + 1") (simp_all only: if_True if_False simp_thms)
    moreover have "cursor_lines G W w t ls (byte + length l + 1) (row + length a + 1) 0
        = cursor_lines G W w (byte + length l + 1 + length (join_nl ls)) ls (byte + length l + 1) (row + length a + 1) 0"
      using Cons.IH[OF False _ tr, of "row + length a + 1"] Cons.prems(2) by simp
    ultimately show ?thesis unfolding E_def[symmetric] e[symmetric] lhs by simp
  qed
qed simp

lemma segments_chars: "segments utf8_chars"
proof -
  have nl: "utf8_chars (CHR 0x0A # t) = [CHR 0x0A] # utf8_chars t" "utf8 (CHR 0x0A # t)" if "utf8 t" for t
    using utf8_append[OF nl_utf8 that] utf8_append_ok[OF nl_utf8 that] by simp_all
  have "utf8_chars (s @ CHR 0x0A # t) = utf8_chars s @ [CHR 0x0A] # utf8_chars t" if "utf8 s" "utf8 t" for s t
    using utf8_append[OF that(1) nl(2)[OF that(2)]] nl(1)[OF that(2)] by simp
  moreover have "[] \<notin> set (utf8_chars s)" for s using utf8_chars_nonempty by blast
  ultimately show ?thesis by (simp add: segments_def chars_utf8)
qed

end
