(* ===== verification/RichTextClaims.thy ===== *)
theory RichTextClaims
  imports RichTextProps
begin

text \<open>
  The properties of styled text (\<open>omp-render/src/richtext.rs\<close>): what reaches the terminal, that
  splitting into lines loses nothing, and that cutting respects the width.
\<close>

section \<open>Texts of runs\<close>

text \<open>
  What \<open>push_text\<close> keeps up: no empty run, every text sanitised, neighbours of different style.
\<close>

fun normal :: "rich_text \<Rightarrow> bool" where
  "normal [] = True"
| "normal [r] \<longleftrightarrow> rn_text r \<noteq> [] \<and> clean (rn_text r)"
| "normal (r # q # rs) \<longleftrightarrow> rn_text r \<noteq> [] \<and> clean (rn_text r) \<and> rn_style r \<noteq> rn_style q \<and> normal (q # rs)"

lemma normal_append:
  "normal (rs @ [q]) \<longleftrightarrow> normal rs \<and> rn_text q \<noteq> [] \<and> clean (rn_text q) \<and> (rs \<noteq> [] \<longrightarrow> rn_style (last rs) \<noteq> rn_style q)"
  by (induction rs rule: normal.induct) auto

lemma push_clean:
  "clean t \<Longrightarrow> t \<noteq> [] \<Longrightarrow> push_text rs sty t =
     (if rs \<noteq> [] \<and> rn_style (last rs) = sty
      then butlast rs @ [(last rs)\<lparr>rn_text := rn_text (last rs) @ t\<rparr>]
      else rs @ [\<lparr>rn_style = sty, rn_text = t\<rparr>])"
  by (simp add: push_text_def sanitize_clean Let_def)

lemma push_text_normal: "normal rs \<Longrightarrow> utf8 s \<Longrightarrow> normal (push_text rs sty s)"
proof -
  assume n: "normal rs" and u: "utf8 s"
  note c = sanitize_is_clean[OF u]
  show ?thesis
  proof (cases rs rule: rev_cases)
    case Nil
    with c show ?thesis by (simp add: push_text_def Let_def)
  next
    case (snoc qs q)
    have two: "normal (qs @ [q, x]) \<longleftrightarrow> normal (qs @ [q]) \<and> rn_text x \<noteq> [] \<and> clean (rn_text x) \<and> rn_style q \<noteq> rn_style x" for x
      using normal_append[of "qs @ [q]" x] by simp
    from n c snoc show ?thesis by (auto simp: push_text_def Let_def two) (auto simp: normal_append clean_append)
  qed
qed

lemma plain_push: "plain_of (push_text rs sty s) = plain_of rs @ sanitize_text s"
  by (cases rs rule: rev_cases) (auto simp: push_text_def plain_of_def Let_def)

text \<open>A line feed is a character of its own, so the pieces between line feeds are sanitised too.\<close>

lemma split_nl_nonempty [simp]: "split_nl s \<noteq> []"
  by (cases s) (auto split: list.splits)

lemma split_nl_append: "split_nl (s @ t) = butlast (split_nl s) @ (last (split_nl s) @ hd (split_nl t)) # tl (split_nl t)"
proof (induction s)
  case Nil
  show ?case by simp
next
  case (Cons c s)
  then show ?case by (cases "split_nl s") (auto split: list.splits)
qed

lemma split_nl_plain: "CHR 0x0A \<notin> set p \<Longrightarrow> split_nl p = [p]"
  by (induction p) auto

lemma char_newline:
  assumes "char_ok c" "CHR 0x0A \<in> set c"
  shows "c = [CHR 0x0A]"
proof -
  obtain b bs where c: "c = b # bs" "list_all is_continuation bs" using char_ok_start[OF assms(1)] by auto
  have "\<not> is_continuation (CHR 0x0A)" by code_simp
  with c assms(2) have b: "b = CHR 0x0A" by (auto simp: list_all_iff)
  have "utf8_len (CHR 0x0A) = 1" by code_simp
  with assms(1) c(1) b show ?thesis by (simp add: char_ok_def)
qed

lemma clean_one: "char_ok c \<Longrightarrow> kept_char (scalar c) \<Longrightarrow> clean c"
  using clean_concat[of "[c]"] by simp

lemma clean_Nil [simp]: "clean []"
  by (simp add: clean_def)

lemma split_nl_clean: "clean s \<Longrightarrow> p \<in> set (split_nl s) \<Longrightarrow> clean p"
proof -
  have "list_all char_ok cs \<Longrightarrow> \<forall>c\<in>set cs. kept_char (scalar c) \<Longrightarrow> p \<in> set (split_nl (concat cs)) \<Longrightarrow> clean p" for cs
  proof (induction cs arbitrary: p)
    case (Cons c cs)
    show ?case
    proof (cases "CHR 0x0A \<in> set c")
      case True
      with Cons char_newline[of c] show ?thesis by auto
    next
      case False
      have sub: "set (tl (split_nl (concat cs))) \<subseteq> set (split_nl (concat cs))" by (cases "split_nl (concat cs)") auto
      have hd: "clean (hd (split_nl (concat cs)))" and tl: "q \<in> set (tl (split_nl (concat cs))) \<Longrightarrow> clean q" for q
        using Cons.IH Cons.prems sub by auto
      have "clean (c @ hd (split_nl (concat cs)))" using Cons.prems by (intro clean_append hd clean_one) auto
      with Cons.prems tl show ?thesis by (auto simp: split_nl_append split_nl_plain[OF False])
    qed
  qed simp
  from this[of "utf8_chars s"] show "clean s \<Longrightarrow> p \<in> set (split_nl s) \<Longrightarrow> clean p"
    by (simp add: clean_def utf8_def)
qed

lemma plain_of_append [simp]: "plain_of (rs @ qs) = plain_of rs @ plain_of qs"
  by (simp add: plain_of_def)

lemma plain_of_Cons [simp]: "plain_of (r # qs) = rn_text r @ plain_of qs"
  by (simp add: plain_of_def)

lemma plain_of_Nil [simp]: "plain_of [] = []"
  by (simp add: plain_of_def)

lemma split_run_plain:
  "\<forall>p\<in>set ps. clean p \<Longrightarrow> ps \<noteq> [] \<Longrightarrow> split_run sty ps ls cur = (ls', cur') \<Longrightarrow>
     map plain_of ls' @ [plain_of cur'] = map plain_of ls @ (plain_of cur @ hd ps) # tl ps"
proof (induction ps arbitrary: ls cur)
  case (Cons p ps)
  have c: "plain_of (if p = [] then cur else push_text cur sty p) = plain_of cur @ p"
    using Cons.prems by (auto simp: plain_push sanitize_clean)
  show ?case
  proof (cases ps)
    case Nil
    with Cons.prems c show ?thesis by (auto simp: Let_def)
  next
    case (Cons q qs)
    have "split_run sty ps (ls @ [if p = [] then cur else push_text cur sty p]) [] = (ls', cur')"
      using Cons.prems(3) Cons by (simp add: Let_def)
    from Cons.IH[OF _ _ this] Cons.prems Cons c show ?thesis by simp
  qed
qed simp

text \<open>What evaluates clusters and widths of concrete texts.\<close>

lemma clusters_Cons: "clusters (c # cs) = fst (next_cluster (c # cs)) # clusters (snd (next_cluster (c # cs)))"
  by (simp add: clusters.simps[of "c # cs"])

lemmas text_eval = clusters_Cons next_cluster_def cluster_start_def is_regional_def between_def is_extender_def ZWJ_def VS16_def
  cluster_width_def is_control_def is_emoji_base_def is_east_asian_wide_def grapheme_cluster_width_def str_visible_width_def
  grapheme_clusters_def rich_width_def run_width_def truncate_width_def is_continuation_def byte_of_def standalone_def
  push_nonempty_def push_text_def sanitize_text_def kept_char_def is_bidi_override_def plain_of_def new_run_def
  style_bold_def new_style_def no_modifier_def

section \<open>Properties\<close>

text \<open>
  C37: Sanitised text cannot drive the terminal.  Every character of sanitised text is a tab, a
  line feed, a carriage return, or neither a control character (C0, DEL, C1) nor a
  bidirectional override; in particular no escape character survives, and sanitising again
  changes nothing.
\<close>

theorem sanitize_disarms:
  assumes "utf8 s"
  shows "(\<forall>c\<in>set (utf8_chars (sanitize_text s)).
      scalar c \<in> {9, 10, 13} \<or> 0x20 \<le> scalar c \<and> \<not> (0x7F \<le> scalar c \<and> scalar c \<le> 0x9F)
        \<and> \<not> (0x202A \<le> scalar c \<and> scalar c \<le> 0x202E) \<and> \<not> (0x2066 \<le> scalar c \<and> scalar c \<le> 0x2069))
    \<and> sanitize_text (sanitize_text s) = sanitize_text s"
proof
  note c = sanitize_is_clean[OF assms]
  show "sanitize_text (sanitize_text s) = sanitize_text s" by (rule sanitize_clean[OF c])
  show "\<forall>c\<in>set (utf8_chars (sanitize_text s)).
      scalar c \<in> {9, 10, 13} \<or> 0x20 \<le> scalar c \<and> \<not> (0x7F \<le> scalar c \<and> scalar c \<le> 0x9F)
        \<and> \<not> (0x202A \<le> scalar c \<and> scalar c \<le> 0x202E) \<and> \<not> (0x2066 \<le> scalar c \<and> scalar c \<le> 0x2069)"
  proof
    fix x assume "x \<in> set (utf8_chars (sanitize_text s))"
    then have "kept_char (scalar x)" using c by (simp add: clean_def)
    then show "scalar x \<in> {9, 10, 13} \<or> 0x20 \<le> scalar x \<and> \<not> (0x7F \<le> scalar x \<and> scalar x \<le> 0x9F)
        \<and> \<not> (0x202A \<le> scalar x \<and> scalar x \<le> 0x202E) \<and> \<not> (0x2066 \<le> scalar x \<and> scalar x \<le> 0x2069)"
      by (auto simp: kept_char_def is_control_def is_bidi_override_def)
  qed
qed

theorem sanitize_disarms_witness:
  "utf8 (''a'' @ [CHR 0x1B] @ ''[31mb'') \<and> sanitize_text (sanitize_text (''a'' @ [CHR 0x1B] @ ''[31mb'')) = ''ab''"
proof -
  have u: "utf8 (''a'' @ [CHR 0x1B] @ ''[31mb'')" and s: "sanitize_text (''a'' @ [CHR 0x1B] @ ''[31mb'') = ''ab''" by code_simp+
  from sanitize_disarms[OF u] u s show ?thesis by simp
qed

text \<open>
  Splitting styled text into lines loses nothing.  For runs with sanitised texts, the plain
  texts of the lines are exactly the pieces of the whole plain text between its line feeds, in
  order, whatever runs a line is made of.
\<close>

theorem split_lines_exact:
  assumes "\<forall>r\<in>set rs. clean (rn_text r)"
  shows "map plain_of (rich_split_lines rs) = split_nl (plain_of rs)"
proof -
  have "map plain_of ls' @ [plain_of cur'] = map plain_of ls @ (plain_of cur @ hd (split_nl (plain_of qs))) # tl (split_nl (plain_of qs))"
    if "\<forall>r\<in>set qs. clean (rn_text r)"
      "fold (\<lambda>r (ls, cur). split_run (rn_style r) (split_nl (rn_text r)) ls cur) qs (ls, cur) = (ls', cur')" for qs ls cur ls' cur'
    using that
  proof (induction qs arbitrary: ls cur)
    case (Cons q qs)
    obtain l c where s: "split_run (rn_style q) (split_nl (rn_text q)) ls cur = (l, c)" by force
    have "\<forall>p\<in>set (split_nl (rn_text q)). clean p" using Cons.prems(1) by (auto intro: split_nl_clean)
    from split_run_plain[OF this _ s] have one:
      "map plain_of l @ [plain_of c] = map plain_of ls @ (plain_of cur @ hd (split_nl (rn_text q))) # tl (split_nl (rn_text q))" by simp
    have ih: "map plain_of ls' @ [plain_of cur'] = map plain_of l @ (plain_of c @ hd (split_nl (plain_of qs))) # tl (split_nl (plain_of qs))"
      using Cons.IH[of l c] Cons.prems s by simp
    obtain x xs where x: "split_nl (rn_text q) = x # xs" by (cases "split_nl (rn_text q)") auto
    show ?case
    proof (cases xs rule: rev_cases)
      case Nil
      with one x have "map plain_of l = map plain_of ls" "plain_of c = plain_of cur @ x" by auto
      with ih x Nil show ?thesis by (simp add: split_nl_append)
    next
      case (snoc ys y)
      with one x have "map plain_of l = map plain_of ls @ (plain_of cur @ x) # ys" "plain_of c = y" by auto
      with ih x snoc show ?thesis by (simp add: split_nl_append butlast_append)
    qed
  qed simp
  from this[OF assms, of "[]" "[]"] show ?thesis
    by (auto simp: rich_split_lines_def split: prod.splits)
qed

theorem split_lines_exact_witness:
  "map plain_of (rich_split_lines [new_run new_style (''a'' @ [CHR 0x0A]), new_run (style_bold new_style) (''b'' @ [CHR 0x0A] @ ''c'')])
     = [''a'', ''b'', ''c'']"
proof -
  let ?rs = "[new_run new_style (''a'' @ [CHR 0x0A]), new_run (style_bold new_style) (''b'' @ [CHR 0x0A] @ ''c'')]"
  have u: "utf8 (''a'' @ [CHR 0x0A])" "utf8 (''b'' @ [CHR 0x0A] @ ''c'')" by code_simp+
  have "\<forall>r\<in>set ?rs. clean (rn_text r)" using sanitize_is_clean[OF u(1)] sanitize_is_clean[OF u(2)] by (simp add: new_run_def)
  from split_lines_exact[OF this] have "map plain_of (rich_split_lines ?rs) = split_nl (plain_of ?rs)" .
  moreover have "split_nl (plain_of ?rs) = [''a'', ''b'', ''c'']" by code_simp
  ultimately show ?thesis by simp
qed

text \<open>What cutting keeps of a run: its first clusters, within what is left of the budget.\<close>

lemma take_clusters_spec:
  "take_clusters budget acc gs buf = (buf', acc', over) \<Longrightarrow> acc \<le> budget \<Longrightarrow>
     \<exists>hs ks. gs = hs @ ks \<and> buf' = buf @ concat hs \<and> acc' = acc + sum_list (map grapheme_cluster_width hs)
       \<and> acc' \<le> budget \<and> (over \<longleftrightarrow> ks \<noteq> [])"
proof (induction gs arbitrary: acc buf)
  case (Cons g gs)
  show ?case
  proof (cases "budget < acc + grapheme_cluster_width g")
    case True
    with Cons.prems show ?thesis by (intro exI[of _ "[]"] exI[of _ "g # gs"]) simp
  next
    case False
    with Cons.IH[of "acc + grapheme_cluster_width g" "buf @ g"] Cons.prems obtain hs ks where
      "gs = hs @ ks" "buf' = buf @ g @ concat hs" "acc' = acc + grapheme_cluster_width g + sum_list (map grapheme_cluster_width hs)"
      "acc' \<le> budget" "over \<longleftrightarrow> ks \<noteq> []" by auto
    then show ?thesis by (intro exI[of _ "g # hs"] exI[of _ ks]) simp
  qed
qed simp

lemma rich_width_append [simp]: "rich_width (rs @ qs) = rich_width rs + rich_width qs"
  by (simp add: rich_width_def)

lemma rich_width_Cons [simp]: "rich_width (r # qs) = str_visible_width (rn_text r) + rich_width qs"
  by (simp add: rich_width_def run_width_def)

lemma rich_width_Nil [simp]: "rich_width [] = 0"
  by (simp add: rich_width_def)

text \<open>Pushing after runs of another style adds a run.\<close>

lemma push_new:
  "clean t \<Longrightarrow> out = [] \<or> rn_style (last out) \<noteq> sty \<Longrightarrow> t \<noteq> [] \<Longrightarrow> push_nonempty out sty t = out @ [\<lparr>rn_style = sty, rn_text = t\<rparr>]"
  by (auto simp: push_nonempty_def push_clean)

lemma push_empty [simp]: "push_nonempty out sty [] = out"
  by (simp add: push_nonempty_def)

lemma push_cut:
  assumes "clean t" "clean e" "standalone (utf8_chars e)" "out = [] \<or> rn_style (last out) \<noteq> sty"
  shows "rich_width (push_nonempty (push_nonempty out sty t) sty e) \<le> rich_width out + str_visible_width t + str_visible_width e"
    and "plain_of (push_nonempty (push_nonempty out sty t) sty e) = plain_of out @ t @ e"
proof -
  consider "t = []" "e = []" | "t \<noteq> []" "e = []" | "t = []" "e \<noteq> []" | "t \<noteq> []" "e \<noteq> []" by blast
  then have "rich_width (push_nonempty (push_nonempty out sty t) sty e) \<le> rich_width out + str_visible_width t + str_visible_width e
    \<and> plain_of (push_nonempty (push_nonempty out sty t) sty e) = plain_of out @ t @ e"
  proof cases
    case 4
    have "push_nonempty (out @ [\<lparr>rn_style = sty, rn_text = t\<rparr>]) sty e = out @ [\<lparr>rn_style = sty, rn_text = t @ e\<rparr>]"
      using 4 assms(2) by (simp add: push_nonempty_def push_clean)
    moreover have "str_visible_width (t @ e) \<le> str_visible_width t + str_visible_width e"
      using assms by (intro visible_width_append) (simp_all add: clean_def)
    ultimately show ?thesis using 4 assms by (simp add: push_new)
  qed (use assms in \<open>simp_all add: push_new\<close>)
  then show "rich_width (push_nonempty (push_nonempty out sty t) sty e) \<le> rich_width out + str_visible_width t + str_visible_width e"
    "plain_of (push_nonempty (push_nonempty out sty t) sty e) = plain_of out @ t @ e" by simp_all
qed

lemma normal_split: "normal (rs @ r # qs) \<Longrightarrow> rn_text r \<noteq> [] \<and> clean (rn_text r) \<and> (rs = [] \<or> rn_style (last rs) \<noteq> rn_style r)"
proof (induction qs rule: rev_induct)
  case Nil
  then show ?case using normal_append[of rs r] by auto
next
  case (snoc q qs)
  then show ?case using normal_append[of "rs @ r # qs" q] by simp
qed

lemma truncate_runs_spec:
  assumes e: "clean e" "standalone (utf8_chars e)"
  shows "normal (out @ rs) \<Longrightarrow> rich_width out \<le> budget \<Longrightarrow> budget < rich_width (out @ rs) \<Longrightarrow>
    rich_width (truncate_runs budget e (rich_width out) rs out) \<le> budget + str_visible_width e
    \<and> (\<exists>p q. plain_of (out @ rs) = p @ q \<and> plain_of (truncate_runs budget e (rich_width out) rs out) = p @ e)"
proof (induction rs arbitrary: out)
  case (Cons r rs)
  note n = normal_split[OF Cons.prems(1)]
  obtain buf acc' over where t: "take_clusters budget (rich_width out) (grapheme_clusters (rn_text r)) [] = (buf, acc', over)"
    by (metis prod_cases3)
  from take_clusters_spec[OF t Cons.prems(2)] obtain hs ks where
    g: "grapheme_clusters (rn_text r) = hs @ ks" and b: "buf = concat hs" and
    a: "acc' = rich_width out + sum_list (map grapheme_cluster_width hs)" "acc' \<le> budget" and o: "over \<longleftrightarrow> ks \<noteq> []" by auto
  have u: "utf8 (rn_text r)" using n by (simp add: clean_def)
  note pre = grapheme_prefix[OF u g]
  have w: "str_visible_width buf = sum_list (map grapheme_cluster_width hs)"
    using pre(1) b by (simp add: str_visible_width_def)
  have all: "concat (grapheme_clusters (rn_text r)) = rn_text r"
  proof -
    have "concat (map concat xss) = concat (concat xss)" for xss :: "string list list" by (induction xss) simp_all
    then show ?thesis using clusters_parts[of "utf8_chars (rn_text r)"] by (simp add: grapheme_clusters_def)
  qed
  have cb: "clean buf" using pre(2,3) n b by (auto simp: clean_def)
  show ?case
  proof (cases over)
    case True
    have "rn_text r = buf @ concat ks" using all g b by simp
    moreover have "out = [] \<or> rn_style (last out) \<noteq> rn_style r" using n by simp
    note cut = push_cut[OF cb e this]
    have tr: "truncate_runs budget e (rich_width out) (r # rs) out = push_nonempty (push_nonempty out (rn_style r) buf) (rn_style r) e"
      using t True by simp
    have "plain_of (out @ r # rs) = (plain_of out @ buf) @ (concat ks @ plain_of rs)"
      using \<open>rn_text r = buf @ concat ks\<close> by simp
    moreover have "plain_of (push_nonempty (push_nonempty out (rn_style r) buf) (rn_style r) e) = (plain_of out @ buf) @ e"
      using cut(2) by simp
    ultimately show ?thesis unfolding tr using cut(1) a w by (intro conjI exI) (assumption | simp)+
  next
    case False
    then have buf: "buf = rn_text r" using o g b all by simp
    have "push_nonempty out (rn_style r) buf = out @ [r]"
      using n buf by (simp add: push_new)
    moreover have "acc' = rich_width (out @ [r])" using a(1) w buf by simp
    ultimately show ?thesis using False t Cons.IH[of "out @ [r]"] Cons.prems a(2) by simp
  qed
qed simp

text \<open>
  C38: Cutting respects the width.  For runs in the form \<open>push_text\<close> keeps (non-empty, sanitised,
  neighbours of different style) and a sanitised ellipsis that joins no cluster and is no wider
  than the limit, the result is at most \<open>max_width\<close> columns wide; text that fits is returned as it
  is, and text that does not becomes a beginning of it followed by the ellipsis.
\<close>

theorem truncate_fits:
  assumes "normal rs" "clean e" "standalone (utf8_chars e)" "str_visible_width e \<le> max_width"
  shows "rich_width (truncate_width rs max_width (Some e)) \<le> max_width
    \<and> (if rich_width rs \<le> max_width then truncate_width rs max_width (Some e) = rs
       else \<exists>p q. plain_of rs = p @ q \<and> plain_of (truncate_width rs max_width (Some e)) = p @ e)"
proof (cases "rich_width rs \<le> max_width")
  case False
  then show ?thesis
    using truncate_runs_spec[OF assms(2,3), of "[]" rs "max_width - str_visible_width e"] assms(1,4)
    by (auto simp: truncate_width_def)
qed (simp add: truncate_width_def)

theorem truncate_fits_witness:
  "plain_of (truncate_width [new_run new_style ''ab'', new_run (style_bold new_style) ''cd''] 3 (Some ''.'')) = ''ab.''
   \<and> rich_width (truncate_width [new_run new_style ''ab'', new_run (style_bold new_style) ''cd''] 3 (Some ''.'')) \<le> 3"
proof -
  let ?rs = "[new_run new_style ''ab'', new_run (style_bold new_style) ''cd'']"
  have u: "utf8 ''ab''" "utf8 ''cd''" "utf8 ''.''" by code_simp+
  have "sanitize_text ''ab'' = ''ab''" "sanitize_text ''cd'' = ''cd''" by code_simp+
  then have n: "normal ?rs"
    using sanitize_is_clean[OF u(1)] sanitize_is_clean[OF u(2)]
    by (simp add: new_run_def style_bold_def new_style_def no_modifier_def)
  have "sanitize_text ''.'' = ''.''" by code_simp
  then have c: "clean ''.''" using sanitize_is_clean[OF u(3)] by simp
  have e: "standalone (utf8_chars ''.'')" "str_visible_width ''.'' \<le> 3" by (simp_all add: text_eval)
  from truncate_fits[OF n c e] have "rich_width (truncate_width ?rs 3 (Some ''.'')) \<le> 3" by (rule conjunct1)
  moreover have "plain_of (truncate_width ?rs 3 (Some ''.'')) = ''ab.''" by (simp add: text_eval)
  ultimately show ?thesis by simp
qed

end
