(* ===== verification/EditorClaims.thy ===== *)
theory EditorClaims
  imports EditorView RichTextClaims
begin

text \<open>
  The properties of the line editor: no key or paste makes it panic or hold a text it must not
  hold, history recall gives the draft back, and the cursor is drawn where the text before it
  ends.
\<close>

section \<open>History\<close>

abbreviation UP_KEY :: edit_action where
  "UP_KEY \<equiv> PressKey \<lparr>ke_code = KeyUp, ke_shift = False, ke_control = False, ke_alt = False, ke_others = False\<rparr>"

abbreviation DOWN_KEY :: edit_action where
  "DOWN_KEY \<equiv> PressKey \<lparr>ke_code = KeyDown, ke_shift = False, ke_control = False, ke_alt = False, ke_others = False\<rparr>"

lemma find_nl_no: "CHR 0x0A \<notin> set s \<Longrightarrow> find_nl s = None"
  using find_nl_Some[of s] by (cases "find_nl s") auto

lemma rfind_nl_no: "CHR 0x0A \<notin> set s \<Longrightarrow> rfind_nl s = None"
  by (simp add: rfind_nl_def find_nl_no)

text \<open>The editor after some presses of the up key on single-line texts.\<close>

definition recalled :: "editor \<Rightarrow> nat \<Rightarrow> editor" where
  "recalled e j =
     e\<lparr>ed_text := ed_history e ! (length (ed_history e) - j), ed_cursor := length (ed_history e ! (length (ed_history e) - j)),
       ed_index := Some (length (ed_history e) - j), ed_draft := ed_text e\<rparr>"

definition single_line :: "editor \<Rightarrow> bool" where
  "single_line e \<longleftrightarrow> CHR 0x0A \<notin> set (ed_text e) \<and> (\<forall>h\<in>set (ed_history e). CHR 0x0A \<notin> set h)"

lemma clamp_end: "ed_cursor e = length (ed_text e) \<Longrightarrow> clamp_cursor G e = e"
  by (simp add: clamp_cursor_def)

lemma up_first:
  assumes "segments G" "ed_ok e" "single_line e" "ed_index e = None" "ed_history e \<noteq> []"
  shows "edit_step G e UP_KEY = Some (recalled e 1)"
proof -
  have e1: "ed_ok (clamp_cursor G e)" using assms clamp_ok by blast
  obtain c where c: "clamp_cursor G e = e\<lparr>ed_cursor := c\<rparr>" unfolding clamp_cursor_def by (cases "length (ed_text e) \<le> ed_cursor e") auto
  have "CHR 0x0A \<notin> set (take c (ed_text e))"
    using assms(3) by (auto simp: single_line_def dest: in_set_takeD)
  moreover have "str_to c (ed_text e) = Some (take c (ed_text e))"
    using slice_to[OF ed_okD(3)[OF e1]] c by simp
  moreover have "recall (e\<lparr>ed_cursor := c, ed_draft := ed_text e\<rparr>) (length (ed_history e) - 1) = Some (recalled e 1)"
    using assms(5) by (simp add: recall_def recalled_def)
  ultimately have "handle_up G e = Some (recalled e 1, True)"
    using assms(4,5) by (simp add: handle_up_def Let_def rfind_nl_no c)
  then show ?thesis by (simp add: edit_step_def handle_key_def)
qed

lemma recalled_line: "single_line e \<Longrightarrow> 0 < j \<Longrightarrow> j \<le> length (ed_history e) \<Longrightarrow> CHR 0x0A \<notin> set (ed_text (recalled e j))"
  by (simp add: recalled_def single_line_def)

lemma recalled_fields:
  "ed_history (recalled e j) = ed_history e" "ed_index (recalled e j) = Some (length (ed_history e) - j)"
  "ed_draft (recalled e j) = ed_text e" "ed_cursor (recalled e j) = length (ed_text (recalled e j))"
  by (simp_all add: recalled_def)

lemma recall_recalled: "i < length (ed_history e) \<Longrightarrow> recall (recalled e j) i = Some (recalled e (length (ed_history e) - i))"
  by (simp add: recall_def recalled_def)

lemma up_more:
  assumes "single_line e" "0 < j" "j < length (ed_history e)"
  shows "edit_step G (recalled e j) UP_KEY = Some (recalled e (Suc j))"
proof -
  let ?r = "recalled e j"
  have c: "clamp_cursor G ?r = ?r" by (rule clamp_end) (simp add: recalled_fields)
  have t: "str_to (length (ed_text ?r)) (ed_text ?r) = Some (ed_text ?r)" using slice_to[OF boundary_ends(2), of "ed_text ?r"] by simp
  have r: "rfind_nl (ed_text ?r) = None" using recalled_line[of e j] assms by (intro rfind_nl_no) simp
  have n: "recall ?r (length (ed_history e) - j - 1) = Some (recalled e (Suc j))"
    using recall_recalled[of "length (ed_history e) - j - 1" e j] assms(3) by simp
  have "ed_history e \<noteq> []" using assms(3) by auto
  then have "handle_up G ?r = Some (recalled e (Suc j), True)"
    using assms(3) n by (simp add: handle_up_def Let_def c t r recalled_fields)
  then show ?thesis by (simp add: edit_step_def handle_key_def)
qed

lemma down_step:
  assumes "single_line e" "0 < j" "j \<le> length (ed_history e)"
  shows "edit_step G (recalled e j) DOWN_KEY =
    Some (if j = 1 then e\<lparr>ed_cursor := length (ed_text e), ed_index := None, ed_draft := []\<rparr> else recalled e (j - 1))"
proof -
  let ?r = "recalled e j"
  have c: "clamp_cursor G ?r = ?r" by (rule clamp_end) (simp add: recalled_fields)
  have t: "str_from (length (ed_text ?r)) (ed_text ?r) = Some []" using slice_from[OF boundary_ends(2), of "ed_text ?r"] by simp
  have f: "find_nl [] = None" by (simp add: find_nl_no)
  have "handle_down G ?r = Some (if j = 1 then e\<lparr>ed_cursor := length (ed_text e), ed_index := None, ed_draft := []\<rparr> else recalled e (j - 1), True)"
  proof (cases "j = 1")
    case True
    with assms(3) have "\<not> length (ed_history e) - j + 1 < length (ed_history e)" by simp
    then have "handle_down G ?r = Some (?r\<lparr>ed_index := None, ed_text := ed_text e, ed_draft := [], ed_cursor := length (ed_text e)\<rparr>, True)"
      by (simp add: handle_down_def Let_def c t f recalled_fields)
    moreover have "?r\<lparr>ed_index := None, ed_text := ed_text e, ed_draft := [], ed_cursor := length (ed_text e)\<rparr>
        = e\<lparr>ed_cursor := length (ed_text e), ed_index := None, ed_draft := []\<rparr>"
      by (simp add: recalled_def)
    ultimately show ?thesis using True by (simp only: if_True simp_thms)
  next
    case False
    with assms have lt: "length (ed_history e) - j + 1 < length (ed_history e)" by simp
    from recall_recalled[OF this, of j] assms False have "recall ?r (length (ed_history e) - j + 1) = Some (recalled e (j - 1))" by simp
    with lt False show ?thesis by (simp add: handle_down_def Let_def c t f recalled_fields)
  qed
  then show ?thesis by (simp add: edit_step_def handle_key_def)
qed

lemma edit_run_append: "edit_run G e (as @ bs) = (case edit_run G e as of Some e1 \<Rightarrow> edit_run G e1 bs | None \<Rightarrow> None)"
  by (induction as arbitrary: e) (auto split: option.splits)

lemma ups:
  assumes "segments G" "ed_ok e" "single_line e" "ed_index e = None"
  shows "0 < k \<Longrightarrow> k \<le> length (ed_history e) \<Longrightarrow> edit_run G e (replicate k UP_KEY) = Some (recalled e k)"
proof (induction k)
  case (Suc k)
  show ?case
  proof (cases "k = 0")
    case True
    moreover have "ed_history e \<noteq> []" using Suc.prems by auto
    ultimately show ?thesis using up_first[OF assms] by simp
  next
    case False
    have "replicate (Suc k) UP_KEY = replicate k UP_KEY @ [UP_KEY]" by (simp add: replicate_append_same)
    with Suc False up_more[OF assms(3), of k G] show ?thesis by (simp add: edit_run_append del: replicate.simps)
  qed
qed simp

lemma downs:
  assumes "single_line e"
  shows "0 < k \<Longrightarrow> k \<le> length (ed_history e) \<Longrightarrow>
    edit_run G (recalled e k) (replicate k DOWN_KEY) = Some (e\<lparr>ed_cursor := length (ed_text e), ed_index := None, ed_draft := []\<rparr>)"
proof (induction k)
  case (Suc k)
  with down_step[OF assms, of "Suc k" G] show ?case by (cases "k = 0") auto
qed simp

section \<open>Properties\<close>

lemma fine_bytes:
  assumes "fine s" "b \<in> set s" "byte_of b < 32 \<or> byte_of b = 127"
  shows "b = CHR 0x0A"
proof -
  have "b \<in> set (concat (utf8_chars s))" using assms(2) by simp
  then obtain c where c: "c \<in> set (utf8_chars s)" "b \<in> set c" unfolding set_concat by blast
  then have f: "fine_char c" using assms(1) by (simp add: fine_def list_all_iff)
  then obtain d ds where d: "c = d # ds" "list_all is_continuation ds" using char_ok_start[of c] by (auto simp: fine_char_def)
  have "\<not> is_continuation b" using assms(3) by (auto simp: is_continuation_def)
  with c(2) d have b: "b = d" by (auto simp: list_all_iff)
  have "utf8_len b = 1" using assms(3) by (auto simp: utf8_len_def Let_def)
  with f d b have one: "c = [b]" by (simp add: fine_char_def char_ok_def)
  with f assms(3) have "byte_of b \<in> {9, 10, 13}" by (auto simp: fine_char_def kept_char_def is_control_def)
  moreover have "b = char_of (byte_of b)" by (simp add: byte_of_def)
  moreover have "char_of (9::nat) = TAB" "char_of (10::nat) = CHR 0x0A" "char_of (13::nat) = CRET" by code_simp+
  ultimately have "b \<in> {TAB, CHR 0x0A, CRET}" by (metis insert_iff singletonD)
  with f one show ?thesis by (auto simp: fine_char_def)
qed

text \<open>
  C39: No input makes the editor panic, and none gets into it what it must not hold.  From a new
  editor, for a grapheme segmentation that cuts texts at characters, every sequence of keys,
  pastes, replacements, clears and submissions runs to its end (no slice, drain or insertion off
  a character boundary, no history index out of range); then the text is at most 65536 bytes of
  valid UTF-8 whose only control character is the line feed, the cursor is at a character
  boundary, and the history holds at most 200 entries, none blank and no two neighbours equal.
\<close>

theorem editor_never_panics:
  assumes "segments G" "list_all action_ok as"
  shows "\<exists>e. edit_run G new_editor as = Some e
    \<and> utf8 (ed_text e) \<and> length (ed_text e) \<le> MAX_BUFFER_BYTES
    \<and> (\<forall>b\<in>set (ed_text e). byte_of b < 32 \<or> byte_of b = 127 \<longrightarrow> b = CHR 0x0A)
    \<and> is_boundary (ed_text e) (ed_cursor e) \<and> length (ed_history e) \<le> MAX_HISTORY_ENTRIES
    \<and> list_all (\<lambda>h. trim h \<noteq> []) (ed_history e) \<and> distinct_adj (ed_history e)"
proof -
  from run_ok[OF assms(1) new_editor_ok assms(2)] obtain e where e: "edit_run G new_editor as = Some e" "ed_ok e" by blast
  then show ?thesis using fine_bytes[of "ed_text e"]
    by (intro exI[of _ e]) (auto simp: ed_ok_def text_ok_def fine_utf8 list_all_iff)
qed

lemmas edit_eval = edit_step_def insert_text_def sanitize_and_normalize_def sanitize_text_def is_continuation_def byte_of_def
  kept_char_def is_control_def is_bidi_override_def MAX_BUFFER_BYTES_def new_editor_def clamp_cursor_def clamp_cursor_forward_def
  str_insert_def

theorem editor_never_panics_witness:
  "\<exists>e. edit_run utf8_chars new_editor [PasteText (''a'' @ [CRET, CHR 0x0A] @ ''b'')] = Some e
     \<and> ed_text e = ''a'' @ [CHR 0x0A] @ ''b'' \<and> is_boundary (ed_text e) (ed_cursor e)"
proof -
  have "utf8 (''a'' @ [CRET, CHR 0x0A] @ ''b'')" by code_simp
  then have "list_all action_ok [PasteText (''a'' @ [CRET, CHR 0x0A] @ ''b'')]" by (simp add: action_ok_def)
  from editor_never_panics[OF segments_chars this]
  have "\<exists>e. edit_run utf8_chars new_editor [PasteText (''a'' @ [CRET, CHR 0x0A] @ ''b'')] = Some e \<and> is_boundary (ed_text e) (ed_cursor e)" by blast
  moreover have "map_option ed_text (edit_run utf8_chars new_editor [PasteText (''a'' @ [CRET, CHR 0x0A] @ ''b'')]) = Some (''a'' @ [CHR 0x0A] @ ''b'')"
    by (simp add: edit_eval)
  ultimately show ?thesis by auto
qed

text \<open>
  Recalling history loses nothing that was typed.  With single-line texts, after any number
  of up keys within the history the editor shows the entry that many back, and the same number of
  down keys brings the draft back, with the history as it was.
\<close>

theorem history_gives_draft_back:
  assumes "segments G" "ed_ok e" "single_line e" "ed_index e = None" "0 < k" "k \<le> length (ed_history e)"
  shows "\<exists>e1 e2. edit_run G e (replicate k UP_KEY) = Some e1 \<and> ed_text e1 = ed_history e ! (length (ed_history e) - k)
    \<and> edit_run G e (replicate k UP_KEY @ replicate k DOWN_KEY) = Some e2
    \<and> ed_text e2 = ed_text e \<and> ed_history e2 = ed_history e \<and> ed_index e2 = None \<and> ed_cursor e2 = length (ed_text e)"
  using ups[OF assms(1-4), of k] downs[OF assms(3), of k G] assms(5,6)
  by (simp add: edit_run_append) (simp add: recalled_def)

theorem history_gives_draft_back_witness:
  "let e = \<lparr>ed_text = ''my dra'', ed_cursor = 6, ed_history = [''cmd1'', ''cmd2''], ed_index = None, ed_draft = []\<rparr>
   in map_option ed_text (edit_run utf8_chars e [UP_KEY, UP_KEY, DOWN_KEY, DOWN_KEY]) = Some ''my dra''"
proof -
  let ?e = "\<lparr>ed_text = ''my dra'', ed_cursor = 6, ed_history = [''cmd1'', ''cmd2''], ed_index = None, ed_draft = []\<rparr>"
  have "fine ''my dra''" "fine ''cmd1''" "fine ''cmd2''" "trim ''cmd1'' \<noteq> []" "trim ''cmd2'' \<noteq> []" by code_simp+
  then have "ed_ok ?e" by (simp add: ed_ok_def text_ok_def MAX_BUFFER_BYTES_def MAX_HISTORY_ENTRIES_def is_boundary_def)
  moreover have "single_line ?e" "0 < (2::nat)" "(2::nat) \<le> length (ed_history ?e)" "ed_index ?e = None" by (simp_all add: single_line_def)
  ultimately have "\<exists>e1 e2. edit_run utf8_chars ?e (replicate 2 UP_KEY) = Some e1 \<and> ed_text e1 = ed_history ?e ! (length (ed_history ?e) - 2)
    \<and> edit_run utf8_chars ?e (replicate 2 UP_KEY @ replicate 2 DOWN_KEY) = Some e2
    \<and> ed_text e2 = ed_text ?e \<and> ed_history e2 = ed_history ?e \<and> ed_index e2 = None \<and> ed_cursor e2 = length (ed_text ?e)"
    by (intro history_gives_draft_back segments_chars)
  then show ?thesis by (auto simp: numeral_eq_Suc simp del: edit_run.simps)
qed

section \<open>The view\<close>

lemma view_width_pos: "0 < view_width width"
proof -
  have "(1::16 word) \<le> max width 1" by simp
  then have "unat (1::16 word) \<le> unat (max width 1)" by (simp only: word_le_nat_alt)
  then show ?thesis by (simp add: view_width_def)
qed

lemma view_width_le: "view_width width < 65536"
  using unsigned_less[of "max width (1::16 word)", where 'a = nat] by (simp add: view_width_def)

lemma visual_lines_group:
  "segments G \<Longrightarrow> visual_lines G W e width = map concat (group_lines G W (view_width width) (split_nl (ed_text e)))"
  using wrap_group_lines[of G W "view_width width"] segments_Nil[of G] by (simp add: visual_lines_def)

lemma text_lines:
  assumes "ed_ok e" "l \<in> set (split_nl (ed_text e))"
  shows "CHR 0x0A \<notin> set l" "CRET \<notin> set l" "utf8 l"
proof -
  have f: "fine (ed_text e)" using assms(1) by (simp add: ed_ok_def text_ok_def)
  have "CRET \<notin> set (ed_text e)"
  proof
    assume "CRET \<in> set (ed_text e)"
    from fine_bytes[OF f this] show False by (simp add: byte_of_def)
  qed
  with split_pieces[OF assms(2)] show "CHR 0x0A \<notin> set l" "CRET \<notin> set l" by auto
  show "utf8 l" using split_nl_clean[OF fine_clean[OF f] assms(2)] by (simp add: clean_def)
qed

text \<open>
  C40: The cursor is drawn where the text before it ends.  For every view in which each grapheme
  of the text fits (and with at most 65536 rows), the soft-wrapped rows are the graphemes of the
  text, in order and without the line feeds, and the position that \<open>visual_cursor\<close> gives, wherever
  the cursor is, names a row that exists and a column that is the width of the first graphemes
  of that row, within the width (strictly, when no grapheme has width zero): those graphemes and
  the rows above are exactly the text before the cursor.  Only a cursor that is at no grapheme
  boundary is not shown at its place: it is drawn where the whole text ends.
\<close>

theorem cursor_where_text_ends:
  assumes "segments G" "ed_ok e" "length (visual_lines G W e width) \<le> 65536"
    and "list_all (\<lambda>g. W g \<le> view_width width) (concat (map G (split_nl (ed_text e))))"
  shows "\<exists>rows. visual_lines G W e width = map concat rows \<and> concat rows = concat (map G (split_nl (ed_text e)))
    \<and> (let p = visual_cursor G W e width;
           shown = (if at_cut G (ed_text e) (ed_cursor e) then ed_cursor e else length (ed_text e))
       in shown_at W (view_width width) rows (unat (fst p)) (unat (snd p))
            (filter (\<lambda>c. c \<noteq> CHR 0x0A) (take shown (ed_text e))))"
proof -
  let ?w = "view_width width" and ?ls = "split_nl (ed_text e)"
  let ?rows = "group_lines G W ?w ?ls"
  define m where "m = (if at_cut G (ed_text e) (ed_cursor e) then ed_cursor e else length (ed_text e))"
  note lines = text_lines[OF assms(2)]
  have cut: "at_cut G (join_nl ?ls) m" using at_cut_ends(2)[OF assms(1)] by (simp add: m_def join_split)
  have le: "ed_cursor e \<le> length (ed_text e)" using boundary_le[OF ed_okD(3)[OF assms(2)]] .
  have "\<exists>col r. cursor_lines G W ?w (0 + m) ?ls 0 0 0 = (col, 0 + r) \<and> shown_at W ?w ?rows col r (flat (take m (join_nl ?ls)))"
    using lines assms(4) by (intro cursor_shown[OF assms(1) view_width_pos split_nl_ne _ cut]) (auto simp: list_all_iff)
  then obtain col r where c: "cursor_lines G W ?w m ?ls 0 0 0 = (col, r)"
    and sh: "shown_at W ?w ?rows col r (flat (take m (ed_text e)))" by (auto simp: join_split)
  have "cursor_lines G W ?w (ed_cursor e) ?ls 0 0 0 = (col, r)"
  proof (cases "at_cut G (ed_text e) (ed_cursor e)")
    case True
    with c show ?thesis by (simp add: m_def)
  next
    case False
    then have "at_cut G (join_nl ?ls) n \<Longrightarrow> ed_cursor e \<noteq> 0 + n" for n by (auto simp: join_split)
    from cursor_uncut[OF assms(1) view_width_pos split_nl_ne _ this] lines c False show ?thesis by (simp add: m_def join_split)
  qed
  moreover have "col < 65536" "r < 65536"
    using sh assms(3) view_width_le[of width] by (auto simp: shown_at_def visual_lines_group[OF assms(1)])
  then have "unat (word_of_nat col :: 16 word) = col" "unat (word_of_nat r :: 16 word) = r"
    by (simp_all add: unsigned_of_nat take_bit_eq_mod)
  ultimately have "shown_at W ?w ?rows (unat (fst (visual_cursor G W e width))) (unat (snd (visual_cursor G W e width)))
      (flat (take m (ed_text e)))"
    using sh le by (simp add: visual_cursor_def min_absorb1)
  then show ?thesis
    using visual_lines_group[OF assms(1)] group_lines_content unfolding Let_def m_def by blast
qed

text \<open>An editor of one line of ASCII text, for examples.\<close>

abbreviation line_of :: "string \<Rightarrow> nat \<Rightarrow> editor" where
  "line_of s c \<equiv> \<lparr>ed_text = s, ed_cursor = c, ed_history = [], ed_index = None, ed_draft = []\<rparr>"

lemmas view_eval = visual_lines_def visual_cursor_def view_width_def cursor_at_def is_continuation_def byte_of_def word_le_nat_alt
  clamp_cursor_def max_def

text \<open>A wide grapheme at the start of a narrow view, with the cursor behind it.\<close>

theorem cursor_where_text_ends_witness:
  "let W = (\<lambda>g. if g = ''b'' then 2 else 1); e = line_of ''abc'' 2
   in visual_lines utf8_chars W e 2 = [''a'', ''b'', ''c''] \<and> visual_cursor utf8_chars W e 2 = (0, 2)
     \<and> (\<exists>rows. visual_lines utf8_chars W e 2 = map concat rows \<and> shown_at W 2 rows 0 2 ''ab'')"
proof -
  let ?W = "\<lambda>g. if g = ''b'' then 2 else 1 :: nat" and ?e = "line_of ''abc'' 2"
  have rows: "visual_lines utf8_chars ?W ?e 2 = [''a'', ''b'', ''c'']" and pos: "visual_cursor utf8_chars ?W ?e 2 = (0, 2)"
    and w: "view_width 2 = 2"
    by (simp_all add: view_eval)
  have g: "utf8_chars ''abc'' = [''a'', ''b'', ''c'']" by code_simp
  then have cut: "at_cut utf8_chars ''abc'' 2" by (auto simp: at_cut_def intro: exI[of _ "[''a'', ''b'']"])
  have ok: "list_all (\<lambda>g. ?W g \<le> view_width 2) (concat (map utf8_chars (split_nl (ed_text ?e))))" using w g by simp
  have "fine ''abc''" by code_simp
  then have e: "ed_ok ?e" by (simp add: ed_ok_def text_ok_def MAX_BUFFER_BYTES_def MAX_HISTORY_ENTRIES_def is_boundary_def is_continuation_def byte_of_def)
  have n: "length (visual_lines utf8_chars ?W ?e 2) \<le> 65536" unfolding rows by simp
  have "\<exists>rs. visual_lines utf8_chars ?W ?e 2 = map concat rs \<and> shown_at ?W 2 rs 0 2 ''ab''"
    using cursor_where_text_ends[OF segments_chars e n ok] cut unfolding Let_def pos w
    by (elim exE conjE) (rule exI, rule conjI, assumption, simp)
  with rows pos show ?thesis unfolding Let_def by blast
qed

text \<open>
  The end of a full row that is not in the last line is drawn where the next line starts.
\<close>

lemma exact_row_end_is_ambiguous:
  "visual_cursor utf8_chars (\<lambda>_. 1) (line_of (''12345'' @ CHR 0x0A # ''ab'') 5) 5
     = visual_cursor utf8_chars (\<lambda>_. 1) (line_of (''12345'' @ CHR 0x0A # ''ab'') 6) 5"
  by (simp add: view_eval)

end
