(* ===== verification/Spec2Isabelle.thy ===== *)
theory Spec2Isabelle
  imports DomClaims JournalClaims TranscriptClaims ArtifactClaims StreamClaims ReplicaClaims SessionClaims CommandClaims
    DirectorClaims HostClaims HostTurnClaims Restart CompactionClaims Speculation EditorClaims
begin

text \<open>
  A model of OMP2, an agent host whose whole session is an event-sourced document.

  How the program hangs together.  A session is a document (\<open>omp-state/src/dom.rs\<close>): a tree of
  elements under twenty structural containers, changed only by patches.  The journal
  (\<open>omp-state/src/journal.rs\<close>) makes every patch durable in a file of checksummed frames before it is
  acknowledged, keeps branches by parent offsets, and rebuilds the document from the file.  The
  service (\<open>omp-server\<close>) puts actors, permissions and subscriber queues around the journal.  The
  host (\<open>omp-control\<close>) runs a turn on it: it derives the request from the body of the document,
  lets the planner leave out or shorten what does not fit the context window, journals the reply
  of the model while it streams, runs tool calls, and asks the directors whether the turn is over.
  Commands and configuration variables are settings that live in the same document.  What tools
  print goes through bounded streams (\<open>omp-runtime/src/stream.rs\<close>) into an artifact store
  (\<open>omp-runtime/src/artifact.rs\<close>).  The terminal shows the session through a transcript scheduler
  and styled text (\<open>omp-render\<close>) and reads the user's line with an editor (\<open>omp-cli\<close>).

  Conventions, from \<open>Prelude\<close>.  \<open>Result\<close> is a sum with the error on the left, \<open>?\<close> is
  \<open>try_bind\<close>; a \<open>String\<close> is the list of its UTF-8 bytes; a \<open>BTreeMap\<close> is a finite map; an operation
  on \<open>&mut self\<close> returns the state it leaves behind beside its result, also when it fails.  A
  panic is a value: \<open>None\<close>, or an error constructor of its own (\<open>ServerPanicked\<close>), and so is
  looping for ever (\<open>Diverges\<close>).  An \<open>i64\<close> is a 64-bit word, an \<open>f64\<close> its bit pattern; counters that
  the source casts to \<open>u32\<close> wrap where it casts.

  \<^bold>\<open>Documents and journal.\<close>
  \<^item> \<open>Types\<close>: \<open>omp-types\<close> (\<open>status.rs\<close>, \<open>ids.rs\<close>, \<open>patch.rs\<close>, \<open>limits.rs\<close>, \<open>version.rs\<close>): errors, elements,
    patches and their validation, limits, protocol negotiation.
  \<^item> \<open>Transaction\<close>: the locale \<open>transaction\<close>, a list of undoable steps applied wholly or not at all.
    \<open>Dom\<close>: the nodes and the eight patch operations of \<open>dom.rs\<close> with their undo records; \<open>DomInv\<close>: the
    invariant \<open>wf_snapshot\<close> and the interpretation \<open>doc\<close> of the locale; \<open>DomProps\<close>, \<open>DomView\<close>: what
    other components rely on; \<open>DomClaims\<close>: the properties.
  \<^item> \<open>Journal\<close>: frames, create, open, recovery, append, materialise, fork, select and repair of
    \<open>journal.rs\<close>; \<open>JournalInv\<close>, \<open>JournalOps\<close>: the invariant \<open>journal_ok\<close> and that every operation
    keeps it; \<open>JournalFile\<close>, \<open>JournalReach\<close>: what the bytes of a file mean and the reachable
    journals; \<open>JournalClaims\<close>: reopening, torn writes, atomic appends, stable history and forks.

  \<^bold>\<open>Service.\<close>
  \<^item> \<open>Replication\<close>: \<open>role.rs\<close>, \<open>error.rs\<close>, \<open>replication.rs\<close>.  \<open>Service\<close>: the operations of \<open>service.rs\<close> and
    the datatype of requests.  \<open>PatchLog\<close>: the locale \<open>patch_log\<close>, what replication needs of a
    journal; \<open>JournalLog\<close> interprets it on the journal; \<open>ServiceInv\<close>: the steps of a service with its
    clients.  \<open>ServiceClaims\<close>: permissions and freedom from panics; \<open>ReplicaClaims\<close>: the copies of the
    clients refine the journal; \<open>SessionClaims\<close>: commands, approvals and artifacts over restarts.

  \<^bold>\<open>Settings.\<close>
  \<^item> \<open>Numbers\<close>: number parsing and casts of Rust's \<open>core\<close>.  \<open>ConVar\<close>: \<open>convar.rs\<close>.  \<open>Command\<close>: splitting
    and parsing of \<open>command.rs\<close>; \<open>CommandEngine\<close>: expansion, execution as one transaction and the
    recorded effects; \<open>CommandRun\<close>: the locale \<open>stream_contract\<close>, interpreted there for the byte budget
    and for deferred hooks, and in \<open>CommandRecord\<close> for the recorded session and the validity of
    values; \<open>CommandClaims\<close>: atomic scripts, settings that survive a restart, valid variables.

  \<^bold>\<open>Host.\<close>
  \<^item> \<open>Inference\<close>: capabilities, requests and the forced tool policy of \<open>omp-inference\<close>
    (\<open>capability.rs\<close>, \<open>request.rs\<close>, \<open>tool_force.rs\<close>).  \<open>Summary\<close>: \<open>summary.rs\<close>, the token estimate and the
    budget.  \<open>Speculation\<close>: the guard of speculative folds.
  \<^item> \<open>Director\<close>: \<open>director.rs\<close>, \<open>agent_loop.rs\<close>; \<open>DirectorClaims\<close>: patience and the durable form.
  \<^item> \<open>Host\<close>: the writes of \<open>host.rs\<close> other than those of a turn; \<open>HostProps\<close>, \<open>HostJournal\<close>: what they do to
    the document; \<open>HostSample\<close>: a host whose writes succeed, for instances; \<open>HostClaims\<close>: the stack of
    directors is read back as it was written.
  \<^item> \<open>HostTurn\<close>: \<open>run_turn\<close> with the request, the stream, tool calls and the loop; \<open>HostTurnProps\<close>: the
    element a turn settles; \<open>HostTurnClaims\<close>: streams and tool calls settle.  \<open>Restart\<close>: the
    reconciliation of \<open>worker.rs\<close>, and that the request after it has no call without its result.
  \<^item> \<open>Compaction\<close>: the planner of \<open>compaction.rs\<close>; \<open>CompactionProps\<close>: its decisions; \<open>SummaryGraph\<close>: the
    graph of summary nodes in the document; \<open>CompactionPlan\<close>: both together; \<open>CompactionClaims\<close>:
    nothing is lost, what is spared, that it returns, and that it fits or is used up.

  \<^bold>\<open>Output and terminal.\<close>
  \<^item> \<open>Artifact\<close>, \<open>ArtifactProps\<close>, \<open>ArtifactClaims\<close>: \<open>artifact.rs\<close>; the locale \<open>blob_sink\<close> is what the
    streams need of a store and is interpreted on it.  \<open>Stream\<close>, \<open>StreamClaims\<close>: \<open>stream.rs\<close>.
  \<^item> \<open>Transcript\<close>, \<open>TranscriptInv\<close>, \<open>TranscriptOps\<close>, \<open>TranscriptClaims\<close>: \<open>transcript.rs\<close>.
  \<^item> \<open>Utf8\<close>, \<open>RichText\<close>, \<open>RichTextProps\<close>, \<open>RichTextClaims\<close>: \<open>richtext.rs\<close>.  \<open>Editor\<close>, \<open>EditorProps\<close>,
    \<open>EditorSafe\<close>, \<open>EditorView\<close>, \<open>EditorClaims\<close>: \<open>editor.rs\<close>, without the palette.

  Bounds and fuel.  \<open>climb\<close> gets one more than the number of nodes, which the acyclic parents of a
  well-formed document never use up; the walks along parent offsets get one more than the offset,
  and parents precede their children; \<open>flush_loop\<close> gets the number of blocks behind the frontier;
  \<open>condense_loop\<close> and \<open>cap_loop\<close> get one more than the number of roots: a round of condensing leaves
  fewer roots, a round of capping caps one more text (\<open>plan_returns\<close>).  \<open>turn_loop\<close> counts down \<open>max_turn_steps\<close> as the source does.
  All other loops are functions with a termination proof.

  Parameters.  SHA-256 and the serde encodings of headers and records are the record \<open>codec\<close>; clock,
  disk faults and minted identifiers are \<open>host_world\<close> and \<open>env\<close>; rendering and parsing of JSON and of
  floating-point numbers, and lower-casing, are \<open>text_env\<close>.  Segmentation into graphemes and
  their width are the arguments \<open>G\<close> and \<open>W\<close> of the editor; what is assumed of \<open>G\<close> is \<open>segments\<close>, and
  of \<open>W\<close> only that a grapheme of the text fits the view.  The provider, the tool host, the child
  hosts and the cancellation flag are the record \<open>turn_env\<close>.

  Not modelled.  Provider clients with their HTTP, event streams, compatibility tables and repair
  of replies; the tools and the processes, sandboxes, Python runtime and workspaces they run in;
  child hosts, which are threads; sockets and framing of the server transport; the event loop and
  drawing of the terminal; \<open>write_workspace\<close> of the service, which runs a tool; and of the host
  \<open>execute_command\<close>, which applies effects to directors, tools and providers, and
  \<open>seed_child_host\<close>.  All of them are input and output or third-party glue around the parts above,
  except the last two, whose patches are of the kinds modelled here.
\<close>

end
